(* ===== verification/Py_Base.thy ===== *)
theory Py_Base
  imports Main "HOL-Library.AList" "HOL-Library.Char_ord" "HOL-Library.List_Lexorder"
    "HOL-Library.Sublist"
begin

text \<open>
  The part of Python that the modelled components use: dynamic values as they travel through
  JSON records and tool arguments, the dictionary, list and string operations on them, and
  exceptions as values.

  \<^item> \<open>pyval\<close> is a JSON value. A dictionary is an association list in insertion order with
    distinct keys (\<open>AList.update\<close> is exactly Python's \<open>d[k] = v\<close>: overwrite in place, else
    append). Floats are not part of the model.
  \<^item> A \<open>str\<close> is the list of its UTF-8 bytes. Slices, \<open>len\<close>, \<open>strip\<close>, \<open>lower\<close> and
    \<open>upper\<close> agree with Python's on ASCII text.
  \<^item> A raised exception is \<open>Inl\<close> of \<^typ>\<open>'e\<close>, a returned value \<open>Inr\<close>.
\<close>

named_theorems pysimps \<open>rewrite rules for Python values, dictionaries and results\<close>

section \<open>Values\<close>

datatype pyval =
    PNone
  | PBool bool
  | PInt int
  | PStr string
  | PList "pyval list"
  | PDict "(string \<times> pyval) list"

type_synonym pydict = "(string \<times> pyval) list"

lemma size_pydict_entry [termination_simp]:
  "(k, v) \<in> set d \<Longrightarrow> size v < Suc (size_list (size_prod (\<lambda>_. 0) size) d)"
  by (induction d) auto

text \<open>Truth testing, as in \<open>if x\<close>, and the value of \<open>x or y\<close>.\<close>

fun py_truthy :: "pyval \<Rightarrow> bool" where
  "py_truthy PNone = False"
| "py_truthy (PBool b) = b"
| "py_truthy (PInt i) = (i \<noteq> 0)"
| "py_truthy (PStr s) = (s \<noteq> [])"
| "py_truthy (PList xs) = (xs \<noteq> [])"
| "py_truthy (PDict d) = (d \<noteq> [])"

definition py_or :: "pyval \<Rightarrow> pyval \<Rightarrow> pyval" where
  "py_or x y = (if py_truthy x then x else y)"

fun is_dict :: "pyval \<Rightarrow> bool" where
  "is_dict (PDict _) = True"
| "is_dict _ = False"

fun is_list :: "pyval \<Rightarrow> bool" where
  "is_list (PList _) = True"
| "is_list _ = False"

text \<open>\<open>x if isinstance(x, dict) else {}\<close> and the same for lists.\<close>

fun as_dict :: "pyval \<Rightarrow> pydict" where
  "as_dict (PDict d) = d"
| "as_dict _ = []"

fun as_list :: "pyval \<Rightarrow> pyval list" where
  "as_list (PList xs) = xs"
| "as_list _ = []"

text \<open>\<open>for x in v\<close>: the items of a list, the keys of a dictionary, the characters of a string. A number
  is not iterable; no modelled loop runs over one.\<close>

fun py_iter :: "pyval \<Rightarrow> pyval list" where
  "py_iter (PList xs) = xs"
| "py_iter (PDict d) = map (\<lambda>(k, _). PStr k) d"
| "py_iter (PStr s) = map (\<lambda>c. PStr [c]) s"
| "py_iter _ = []"

section \<open>Dictionaries\<close>

text \<open>\<open>d.get(k)\<close>, \<open>d.get(k, x)\<close>, \<open>k in d\<close>, \<open>d[k] = v\<close>, \<open>d.pop(k, None)\<close> and \<open>d.update(e)\<close>.\<close>

definition dget :: "pydict \<Rightarrow> string \<Rightarrow> pyval" where
  "dget d k = (case map_of d k of None \<Rightarrow> PNone | Some v \<Rightarrow> v)"

definition dget_or :: "pydict \<Rightarrow> string \<Rightarrow> pyval \<Rightarrow> pyval" where
  "dget_or d k x = (case map_of d k of None \<Rightarrow> x | Some v \<Rightarrow> v)"

definition din :: "string \<Rightarrow> pydict \<Rightarrow> bool" where
  "din k d \<longleftrightarrow> map_of d k \<noteq> None"

definition dset :: "string \<Rightarrow> pyval \<Rightarrow> pydict \<Rightarrow> pydict" where
  "dset k v d = AList.update k v d"

definition dpop :: "string \<Rightarrow> pydict \<Rightarrow> pydict" where
  "dpop k d = AList.delete k d"

fun dupdate :: "pydict \<Rightarrow> pydict \<Rightarrow> pydict" where
  "dupdate d [] = d"
| "dupdate d ((k, v) # e) = dupdate (dset k v d) e"

lemma dget_dset [pysimps]: "dget (dset k v d) k' = (if k' = k then v else dget d k')"
  by (simp add: dget_def dset_def update_conv')

lemma dget_or_dset [pysimps]: "dget_or (dset k v d) k' x = (if k' = k then v else dget_or d k' x)"
  by (simp add: dget_or_def dset_def update_conv')

lemma din_dset [pysimps]: "din k' (dset k v d) \<longleftrightarrow> k' = k \<or> din k' d"
  by (simp add: din_def dset_def update_conv')

lemma dget_dpop [pysimps]: "dget (dpop k d) k' = (if k' = k then PNone else dget d k')"
  by (simp add: dget_def dpop_def delete_conv')

lemma dget_Nil [simp]: "dget [] k = PNone"
  by (simp add: dget_def)

lemma dget_Cons [simp]: "dget ((k, v) # d) k' = (if k' = k then v else dget d k')"
  by (simp add: dget_def)

lemma dget_dupdate:
  "distinct (map fst e) \<Longrightarrow>
     dget (dupdate d e) k = (case map_of e k of None \<Rightarrow> dget d k | Some v \<Rightarrow> v)"
proof (induction d e rule: dupdate.induct)
  case (1 d)
  then show ?case by simp
next
  case (2 d k' v e)
  then have "map_of e k' = None" by (simp add: map_of_eq_None_iff)
  with 2 show ?case by (auto simp: dget_dset split: option.splits)
qed

lemma dget_dupdate_other [simp]: "k \<notin> fst ` set e \<Longrightarrow> dget (dupdate d e) k = dget d k"
  by (induction d e rule: dupdate.induct) (auto simp: dget_dset)

lemma dset_not_Nil [simp]: "dset k v d \<noteq> []"
  by (cases d) (auto simp: dset_def)

lemma dkeys_dset: "map fst (dset k v d) = (if k \<in> set (map fst d) then map fst d else map fst d @ [k])"
  by (simp add: dset_def update_keys)

lemma distinct_dset [simp]: "distinct (map fst d) \<Longrightarrow> distinct (map fst (dset k v d))"
  by (simp add: dset_def distinct_update)

lemma distinct_dupdate [simp]: "distinct (map fst d) \<Longrightarrow> distinct (map fst (dupdate d e))"
  by (induction d e rule: dupdate.induct) simp_all

section \<open>Strings\<close>

abbreviation is_upper :: "char \<Rightarrow> bool" where
  "is_upper c \<equiv> CHR ''A'' \<le> c \<and> c \<le> CHR ''Z''"

abbreviation is_lower :: "char \<Rightarrow> bool" where
  "is_lower c \<equiv> CHR ''a'' \<le> c \<and> c \<le> CHR ''z''"

abbreviation is_digit :: "char \<Rightarrow> bool" where
  "is_digit c \<equiv> CHR ''0'' \<le> c \<and> c \<le> CHR ''9''"

definition is_alpha :: "char \<Rightarrow> bool" where
  "is_alpha c \<longleftrightarrow> is_upper c \<or> is_lower c"

definition is_alnum :: "char \<Rightarrow> bool" where
  "is_alnum c \<longleftrightarrow> is_alpha c \<or> is_digit c"

text \<open>The class \<open>[A-Za-z0-9_-]\<close> of the identifier patterns.\<close>

definition is_idchar :: "char \<Rightarrow> bool" where
  "is_idchar c \<longleftrightarrow> is_alnum c \<or> c = CHR ''_'' \<or> c = CHR ''-''"

definition is_space :: "char \<Rightarrow> bool" where
  "is_space c \<longleftrightarrow> (let n = (of_char c :: nat) in n = 32 \<or> (9 \<le> n \<and> n \<le> 13) \<or> (28 \<le> n \<and> n \<le> 31))"

definition char_lower :: "char \<Rightarrow> char" where
  "char_lower c = (if is_upper c then char_of ((of_char c :: nat) + 32) else c)"

definition char_upper :: "char \<Rightarrow> char" where
  "char_upper c = (if is_lower c then char_of ((of_char c :: nat) - 32) else c)"

definition py_lower :: "string \<Rightarrow> string" where
  "py_lower s = map char_lower s"

definition py_upper :: "string \<Rightarrow> string" where
  "py_upper s = map char_upper s"

definition py_strip :: "string \<Rightarrow> string" where
  "py_strip s = rev (dropWhile is_space (rev (dropWhile is_space s)))"

definition py_startswith :: "string \<Rightarrow> string \<Rightarrow> bool" where
  "py_startswith s p \<longleftrightarrow> take (length p) s = p"

definition py_endswith :: "string \<Rightarrow> string \<Rightarrow> bool" where
  "py_endswith s p \<longleftrightarrow> length p \<le> length s \<and> drop (length s - length p) s = p"

text \<open>\<open>p in s\<close> for strings.\<close>

fun py_contains :: "string \<Rightarrow> string \<Rightarrow> bool" where
  "py_contains p [] = (p = [])"
| "py_contains p (c # s) = (py_startswith (c # s) p \<or> py_contains p s)"

text \<open>\<open>s.replace(old, new)\<close> for a non-empty \<open>old\<close>: leftmost, non-overlapping.\<close>

function py_replace :: "string \<Rightarrow> string \<Rightarrow> string \<Rightarrow> string" where
  "py_replace old new s =
     (case s of
        [] \<Rightarrow> []
      | c # s' \<Rightarrow>
          if old \<noteq> [] \<and> py_startswith s old then new @ py_replace old new (drop (length old) s)
          else c # py_replace old new s')"
  by pat_completeness auto
termination
  by (relation "measure (\<lambda>(old, new, s). length s)") (auto simp: neq_Nil_conv)

declare py_replace.simps [simp del]

text \<open>\<open>s.split(c)\<close> on one separator character: never empty.\<close>

fun py_split :: "char \<Rightarrow> string \<Rightarrow> string list" where
  "py_split sep [] = [[]]"
| "py_split sep (c # s) =
     (if c = sep then [] # py_split sep s
      else (case py_split sep s of [] \<Rightarrow> [[c]] | w # ws \<Rightarrow> (c # w) # ws))"

text \<open>\<open>sep.join(xs)\<close>.\<close>

fun py_join :: "string \<Rightarrow> string list \<Rightarrow> string" where
  "py_join sep [] = []"
| "py_join sep [x] = x"
| "py_join sep (x # y # xs) = x @ sep @ py_join sep (y # xs)"

lemma py_split_not_Nil [simp]: "py_split sep s \<noteq> []"
  by (induction s) (auto split: list.splits)

lemma py_join_split: "py_join [sep] (py_split sep s) = s"
proof (induction s)
  case Nil
  then show ?case by simp
next
  case (Cons c s)
  obtain w ws where w: "py_split sep s = w # ws"
    using py_split_not_Nil by (cases "py_split sep s") blast+
  with Cons show ?case by (cases ws) auto
qed

section \<open>Numerals and textual representation\<close>

definition digit_char :: "nat \<Rightarrow> char" where
  "digit_char n = char_of (48 + n)"

fun nat_str :: "nat \<Rightarrow> string" where
  "nat_str n = (if n < 10 then [digit_char n] else nat_str (n div 10) @ [digit_char (n mod 10)])"

declare nat_str.simps [simp del]

definition int_str :: "int \<Rightarrow> string" where
  "int_str i = (if i < 0 then ''-'' @ nat_str (nat (- i)) else nat_str (nat i))"

definition hex_char :: "nat \<Rightarrow> char" where
  "hex_char n = (if n < 10 then char_of (48 + n) else char_of (87 + n))"

definition hex2 :: "char \<Rightarrow> string" where
  "hex2 c = (let n = (of_char c :: nat) in [hex_char (n div 16), hex_char (n mod 16)])"

text \<open>\<open>repr\<close> of a string: the quote that needs no escape, and the escapes of control bytes.\<close>

definition repr_char :: "char \<Rightarrow> char \<Rightarrow> string" where
  "repr_char q c =
     (let n = (of_char c :: nat) in
      if c = q \<or> n = 92 then [char_of (92::nat), c]
      else if n = 10 then [char_of (92::nat), CHR ''n'']
      else if n = 13 then [char_of (92::nat), CHR ''r'']
      else if n = 9 then [char_of (92::nat), CHR ''t'']
      else if n < 32 \<or> n = 127 then [char_of (92::nat), CHR ''x''] @ hex2 c
      else [c])"

definition repr_str :: "string \<Rightarrow> string" where
  "repr_str s =
     (let sq = char_of (39::nat); dq = char_of (34::nat);
          q = (if sq \<in> set s \<and> dq \<notin> set s then dq else sq)
      in [q] @ concat (map (repr_char q) s) @ [q])"

fun py_repr :: "pyval \<Rightarrow> string" where
  "py_repr PNone = ''None''"
| "py_repr (PBool b) = (if b then ''True'' else ''False'')"
| "py_repr (PInt i) = int_str i"
| "py_repr (PStr s) = repr_str s"
| "py_repr (PList xs) = ''['' @ py_join '', '' (map py_repr xs) @ '']''"
| "py_repr (PDict d) =
     ''{'' @ py_join '', '' (map (\<lambda>(k, v). repr_str k @ '': '' @ py_repr v) d) @ ''}''"

definition py_str :: "pyval \<Rightarrow> string" where
  "py_str v = (case v of PStr s \<Rightarrow> s | _ \<Rightarrow> py_repr v)"

lemma py_str_PStr [simp]: "py_str (PStr s) = s"
  by (simp add: py_str_def)

definition repr_strs :: "string list \<Rightarrow> string" where
  "repr_strs xs = py_repr (PList (map PStr xs))"

text \<open>\<open>str(d.get(k) or "")\<close> and \<open>str(d.get(k) or default)\<close>, the idiom for reading a text field.\<close>

definition gets_or :: "pydict \<Rightarrow> string \<Rightarrow> string \<Rightarrow> string" where
  "gets_or d k x = py_str (py_or (dget d k) (PStr x))"

definition gets :: "pydict \<Rightarrow> string \<Rightarrow> string" where
  "gets d k = gets_or d k []"

lemma gets_same: "dget d k = dget e k \<Longrightarrow> gets d k = gets e k"
  by (simp add: gets_def gets_or_def)

lemma gets_dset [pysimps]: "gets (dset k v d) k' = (if k' = k then py_str (py_or v (PStr [])) else gets d k')"
  by (simp add: gets_def gets_or_def dget_dset)

lemma gets_dupdate_other [simp]: "k \<notin> fst ` set e \<Longrightarrow> gets (dupdate d e) k = gets d k"
  by (simp add: gets_def gets_or_def)

lemma py_str_or_PStr [simp]: "py_str (py_or (PStr s) (PStr t)) = (if s = [] then t else s)"
  by (simp add: py_or_def)

lemma gets_eq_of_dget: "dget d k = PStr s \<Longrightarrow> gets d k = s"
  by (simp add: gets_def gets_or_def)

text \<open>\<open>a == b\<close> on values: booleans are the integers 0 and 1, and the order of the keys of a
  dictionary does not count.\<close>

fun py_norm :: "pyval \<Rightarrow> pyval" where
  "py_norm (PBool b) = PInt (if b then 1 else 0)"
| "py_norm (PList xs) = PList (map py_norm xs)"
| "py_norm (PDict d) = PDict (sort_key fst (map (\<lambda>(k, v). (k, py_norm v)) d))"
| "py_norm v = v"

definition py_eq :: "pyval \<Rightarrow> pyval \<Rightarrow> bool" where
  "py_eq a b \<longleftrightarrow> py_norm a = py_norm b"

lemma py_eq_refl [simp]: "py_eq a a"
  by (simp add: py_eq_def)

lemma py_eq_PStr [simp]: "py_eq (PStr s) b \<longleftrightarrow> b = PStr s" "py_eq b (PStr s) \<longleftrightarrow> b = PStr s"
  by (cases b; auto simp: py_eq_def)+

section \<open>Integers read from values\<close>

fun digits_val :: "nat \<Rightarrow> string \<Rightarrow> nat" where
  "digits_val acc [] = acc"
| "digits_val acc (c # cs) = digits_val (10 * acc + ((of_char c :: nat) - 48)) cs"

definition all_digits :: "string \<Rightarrow> bool" where
  "all_digits s \<longleftrightarrow> s \<noteq> [] \<and> list_all is_digit s"

text \<open>\<open>int(s)\<close> for a string: white space around, an optional sign, single underscores between
  digits.\<close>

definition parse_int :: "string \<Rightarrow> int option" where
  "parse_int s =
     (let t = py_strip s;
          neg = (case t of [] \<Rightarrow> False | c # _ \<Rightarrow> c = CHR ''-'');
          body = (case t of [] \<Rightarrow> [] | c # r \<Rightarrow> if c = CHR ''-'' \<or> c = CHR ''+'' then r else t);
          groups = py_split (CHR ''_'') body
      in if list_all all_digits groups
         then Some ((if neg then -1 else 1) * int (digits_val 0 (concat groups)))
         else None)"

section \<open>Exceptions as values\<close>

text \<open>The exceptions that the modelled code raises; \<open>OrchestrationError\<close> and \<open>WorkflowError\<close> are
  the repository's own subclasses of \<open>ValueError\<close>.\<close>

datatype py_error =
    ValueError string
  | TypeError string
  | KeyError string
  | RuntimeError string
  | AttributeError string
  | FileNotFoundError string
  | OrchestrationError string
  | WorkflowError string

type_synonym 'a res = "py_error + 'a"

definition rbind :: "'e + 'a \<Rightarrow> ('a \<Rightarrow> 'e + 'b) \<Rightarrow> 'e + 'b" where
  "rbind m f = (case m of Inl e \<Rightarrow> Inl e | Inr x \<Rightarrow> f x)"

lemma rbind_simps [simp]: "rbind (Inl e) f = Inl e" "rbind (Inr x) f = f x"
  by (simp_all add: rbind_def)

lemma rbind_eq_Inr [simp]: "rbind m f = Inr y \<longleftrightarrow> (\<exists>x. m = Inr x \<and> f x = Inr y)"
  by (cases m) auto

lemma rbind_cong [fundef_cong]: "m = m' \<Longrightarrow> (\<And>x. m' = Inr x \<Longrightarrow> f x = g x) \<Longrightarrow> rbind m f = rbind m' g"
  by (cases m') auto

text \<open>\<open>if bad: raise e\<close>.\<close>

definition rguard :: "bool \<Rightarrow> 'e \<Rightarrow> 'e + unit" where
  "rguard ok e = (if ok then Inr () else Inl e)"

lemma rguard_eq_Inr [simp]: "rguard ok e = Inr u \<longleftrightarrow> ok"
  by (simp add: rguard_def)

lemma rguard_True [simp]: "rguard True e = Inr ()"
  by (simp add: rguard_def)

lemma rguard_False [simp]: "rguard False e = Inl e"
  by (simp add: rguard_def)

text \<open>A loop that may raise: stop at the first exception.\<close>

fun rmapM :: "('a \<Rightarrow> 'e + 'b) \<Rightarrow> 'a list \<Rightarrow> 'e + 'b list" where
  "rmapM f [] = Inr []"
| "rmapM f (x # xs) = rbind (f x) (\<lambda>y. rbind (rmapM f xs) (\<lambda>ys. Inr (y # ys)))"

fun rfold :: "('a \<Rightarrow> 's \<Rightarrow> 'e + 's) \<Rightarrow> 'a list \<Rightarrow> 's \<Rightarrow> 'e + 's" where
  "rfold f [] s = Inr s"
| "rfold f (x # xs) s = rbind (f x s) (rfold f xs)"

lemma rmapM_Inr: "rmapM f xs = Inr ys \<Longrightarrow> list_all2 (\<lambda>x y. f x = Inr y) xs ys"
  by (induction xs arbitrary: ys) auto

lemma rmapM_mem: "rmapM f xs = Inr ys \<Longrightarrow> y \<in> set ys \<Longrightarrow> \<exists>x \<in> set xs. f x = Inr y"
  by (induction xs arbitrary: ys) auto

lemma rmapM_image: "rmapM f xs = Inr ys \<Longrightarrow> x \<in> set xs \<Longrightarrow> \<exists>y \<in> set ys. f x = Inr y"
  by (induction xs arbitrary: ys) auto

lemma rmapM_Inr_ex: "(\<exists>ys. rmapM f xs = Inr ys) \<longleftrightarrow> (\<forall>x \<in> set xs. \<exists>y. f x = Inr y)"
  by (induction xs) auto

lemma rmapM_cong [fundef_cong]:
  "xs = ys \<Longrightarrow> (\<And>x. x \<in> set ys \<Longrightarrow> f x = g x) \<Longrightarrow> rmapM f xs = rmapM g ys"
  by (induction xs arbitrary: ys) auto

text \<open>An invariant of the loop state is kept by the whole loop.\<close>

lemma rfold_invariant:
  assumes "rfold f xs s = Inr t" and "P s"
    and "\<And>x s s'. x \<in> set xs \<Longrightarrow> P s \<Longrightarrow> f x s = Inr s' \<Longrightarrow> P s'"
  shows "P t"
  using assms
proof (induction xs arbitrary: s)
  case Nil
  then show ?case by simp
next
  case (Cons x xs)
  from Cons.prems(1) obtain s' where "f x s = Inr s'" "rfold f xs s' = Inr t"
    by auto
  with Cons.prems Cons.IH [of s'] show ?case by auto
qed

text \<open>\<open>str(e)\<close>.\<close>

fun exc_str :: "py_error \<Rightarrow> string" where
  "exc_str (KeyError k) = repr_str k"
| "exc_str (ValueError m) = m"
| "exc_str (TypeError m) = m"
| "exc_str (RuntimeError m) = m"
| "exc_str (AttributeError m) = m"
| "exc_str (FileNotFoundError m) = m"
| "exc_str (OrchestrationError m) = m"
| "exc_str (WorkflowError m) = m"

text \<open>\<open>int(v)\<close>.\<close>

definition py_int :: "pyval \<Rightarrow> int res" where
  "py_int v =
     (case v of
        PInt i \<Rightarrow> Inr i
      | PBool b \<Rightarrow> Inr (if b then 1 else 0)
      | PStr s \<Rightarrow> (case parse_int s of Some i \<Rightarrow> Inr i | None \<Rightarrow> Inl (ValueError ''invalid literal for int()''))
      | _ \<Rightarrow> Inl (TypeError ''int() argument must be a string or a number''))"

lemma py_int_PInt [simp]: "py_int (PInt i) = Inr i"
  by (simp add: py_int_def)

section \<open>Lists\<close>

text \<open>\<open>xs[-n:]\<close> for positive \<open>n\<close> and \<open>list(dict.fromkeys(xs))\<close>: the first occurrences, in order.\<close>

definition last_n :: "nat \<Rightarrow> 'a list \<Rightarrow> 'a list" where
  "last_n n xs = drop (length xs - n) xs"

lemma length_last_n: "length (last_n n xs) \<le> n"
  by (simp add: last_n_def)

lemma set_last_n: "set (last_n n xs) \<subseteq> set xs"
  by (simp add: last_n_def set_drop_subset)

fun fromkeys :: "'a list \<Rightarrow> 'a list" where
  "fromkeys [] = []"
| "fromkeys (x # xs) = x # filter (\<lambda>y. y \<noteq> x) (fromkeys xs)"

lemma set_fromkeys [simp]: "set (fromkeys xs) = set xs"
  by (induction xs) auto

lemma distinct_fromkeys [simp]: "distinct (fromkeys xs)"
  by (induction xs) auto

text \<open>\<open>sorted(set(xs))\<close>.\<close>

definition sorted_set :: "'a::linorder list \<Rightarrow> 'a list" where
  "sorted_set xs = sort (remdups xs)"

lemma sorted_set_props [simp]:
  "set (sorted_set xs) = set xs" "distinct (sorted_set xs)" "sorted (sorted_set xs)"
  by (simp_all add: sorted_set_def)

end
