(* ===== verification/Runtime_Types.thy ===== *)
theory Runtime_Types
  imports Py_Base
begin

text \<open>
  The records that the runtime components exchange: a model-proposed tool call
  (\<open>agent/llm/schemas.py\<close>, \<open>LLMToolCall\<close>), the result of one tool execution
  (\<open>core/runtime_engine/query_loop.py\<close>, \<open>StreamingToolResult\<close>) and the evidence kept for one
  finished step (\<open>core/runtime_engine/orchestration.py\<close>, \<open>StepEvidence\<close>).

  The result's \<open>output\<close> is declared as a dictionary, but every reader checks
  \<open>isinstance(output, dict)\<close> first, so it is an arbitrary value here. The latency of a result is a
  float that no modelled operation reads, and is left out.
\<close>

record llm_tool_call =
  tc_id :: string
  tc_name :: string
  tc_arguments :: pydict
  tc_step_id :: string
  tc_depends_on :: "string list"
  tc_result_bindings :: "(string \<times> string) list"
  tc_failure_policy :: string
  tc_goal_ids :: "string list"

text \<open>A call with the dataclass defaults.\<close>

definition LLMToolCall :: "string \<Rightarrow> string \<Rightarrow> pydict \<Rightarrow> llm_tool_call" where
  "LLMToolCall i name arguments =
     \<lparr>tc_id = i, tc_name = name, tc_arguments = arguments, tc_step_id = [], tc_depends_on = [],
      tc_result_bindings = [], tc_failure_policy = ''replan'', tc_goal_ids = []\<rparr>"

record tool_result =
  tr_tool_name :: string
  tr_call_id :: string
  tr_output :: pyval
  tr_ok :: bool
  tr_error :: "string option"
  tr_error_code :: string
  tr_execution_may_continue :: bool
  tr_summary :: string

record step_evidence =
  se_step_id :: string
  se_call_id :: string
  se_tool_id :: string
  se_ok :: bool
  se_output :: pyval
  se_error :: string
  se_action :: string

text \<open>\<open>call.name.replace("__", ".")\<close>: the canonical tool id of a provider function name.\<close>

definition canonical_tool_id :: "string \<Rightarrow> string" where
  "canonical_tool_id name = py_replace ''__'' ''.'' name"

end
