(* ===== verification/Turn_Outcome.thy ===== *)
theory Turn_Outcome
  imports Runtime_Types
begin

text \<open>
  The outcome of a turn: \<open>core/runtime_engine/turn_outcome.py\<close> aggregates the results of the tool
  calls, and \<open>core/runtime_engine/goal_assertions.py\<close> evaluates the explicit goal assertions that
  \<open>ctx.extras["goal_assertions"]\<close> configures.

  \<open>ctx.extras\<close> is a dictionary. Where the code reads \<open>output or {}\<close> of a result, or builds
  \<open>dict(x or {})\<close>, the value is a dictionary or \<open>None\<close>, as its type declares.
\<close>

section \<open>Goal assertions\<close>

text \<open>\<open>{str(item.call_id): item for item in tool_results}\<close>: a later result of a call replaces an
  earlier one.\<close>

definition results_by_call :: "tool_result list \<Rightarrow> (string \<times> tool_result) list" where
  "results_by_call tool_results = fold (\<lambda>r. AList.update (tr_call_id r) r) tool_results []"

definition runtime_goal_status :: "pydict \<Rightarrow> pydict \<Rightarrow> string" where
  "runtime_goal_status extras assertion =
     (let goal_id = gets assertion ''goal_id'' in
      case find (\<lambda>item. is_dict item \<and> gets (as_dict item) ''goal_id'' = goal_id)
             (py_iter (dget extras ''recovery_goals'')) of
        None \<Rightarrow> ''unknown''
      | Some goal \<Rightarrow>
          (let status = py_lower (gets_or (as_dict goal) ''status'' ''pending'') in
           if status = ''passed'' \<or> status = ''superseded'' then ''passed''
           else if status = ''blocked'' then ''failed''
           else ''unknown''))"

fun semantic_scan :: "string \<Rightarrow> tool_result list \<Rightarrow> string" where
  "semantic_scan fct [] = ''passed''"
| "semantic_scan fct (item # items) =
     (if \<not> tr_ok item then ''failed''
      else
        let facts = dget (as_dict (tr_output item)) ''facts'';
            val = dget (as_dict facts) fct in
        if \<not> is_dict val then ''unknown''
        else if py_lower (gets (as_dict val) ''status'') \<noteq> ''collected''
        then (if py_lower (gets (as_dict val) ''status'') = ''unavailable'' then ''failed'' else ''unknown'')
        else semantic_scan fct items)"

definition semantic_observation_status :: "tool_result list \<Rightarrow> string list \<Rightarrow> string \<Rightarrow> string" where
  "semantic_observation_status candidates missing_keys fct =
     (if missing_keys \<noteq> [] \<or> candidates = [] \<or> fct = [] then ''unknown''
      else if list_ex tr_execution_may_continue candidates then ''unknown''
      else semantic_scan fct candidates)"

text \<open>The claims of one result that match an assertion.\<close>

definition claim_matches :: "pydict \<Rightarrow> pyval \<Rightarrow> bool" where
  "claim_matches assertion claim \<longleftrightarrow>
     is_dict claim
     \<and> gets (as_dict claim) ''evidence_kind'' = gets assertion ''evidence_kind''
     \<and> (gets assertion ''fact'' = [] \<or> gets (as_dict claim) ''fact'' = gets assertion ''fact'')
     \<and> list_all (\<lambda>(key, val). py_eq (dget (as_dict (dget (as_dict claim) ''target'')) key) val)
          (as_dict (dget assertion ''target''))"

definition matched_claims :: "pydict \<Rightarrow> tool_result list \<Rightarrow> pyval list" where
  "matched_claims assertion tool_results =
     concat (map (\<lambda>r. filter (claim_matches assertion) (py_iter (dget (as_dict (tr_output r)) ''evidence_claims'')))
       (filter (\<lambda>r. is_dict (tr_output r)) tool_results))"

definition claim_status :: "pyval \<Rightarrow> string" where
  "claim_status claim = py_lower (gets (as_dict claim) ''status'')"

definition evidence_claim_status :: "tool_result list \<Rightarrow> pydict \<Rightarrow> string" where
  "evidence_claim_status tool_results assertion =
     (let matched = matched_claims assertion tool_results;
          positive_matched = matched_claims assertion
            (filter (\<lambda>r. tr_ok r \<and> \<not> tr_execution_may_continue r) tool_results) in
      if list_ex (\<lambda>c. claim_status c \<in> {''satisfied'', ''collected'', ''observed''}) positive_matched then ''passed''
      else if list_ex (\<lambda>c. claim_status c \<in> {''failed'', ''unavailable'', ''rejected''}) matched then ''failed''
      else ''unknown'')"

definition assertion_kind :: "pydict \<Rightarrow> string" where
  "assertion_kind assertion = gets_or assertion ''kind'' ''all_required_results_succeeded''"

definition assertion_keys :: "pydict \<Rightarrow> string list" where
  "assertion_keys assertion = map py_str (py_iter (dget assertion ''required_call_keys''))"

definition assertion_candidates :: "(string \<times> tool_result) list \<Rightarrow> string list \<Rightarrow> tool_result list" where
  "assertion_candidates results keys =
     (if keys \<noteq> [] then List.map_filter (map_of results) keys else map snd results)"

definition assertion_status :: "pydict \<Rightarrow> tool_result list \<Rightarrow> pydict \<Rightarrow> string" where
  "assertion_status extras tool_results assertion =
     (let results = results_by_call tool_results;
          keys = assertion_keys assertion;
          missing_keys = filter (\<lambda>k. map_of results k = None) keys;
          candidates = assertion_candidates results keys;
          kind = assertion_kind assertion in
      if kind = ''semantic_observation_collected''
      then semantic_observation_status candidates missing_keys (gets assertion ''fact'')
      else if kind = ''evidence_claim_satisfied'' then evidence_claim_status tool_results assertion
      else if kind = ''runtime_goal_satisfied'' then runtime_goal_status extras assertion
      else if missing_keys \<noteq> [] \<or> candidates = [] \<or> list_ex tr_execution_may_continue candidates
      then ''unknown''
      else if list_all tr_ok candidates then ''passed''
      else ''failed'')"

definition evaluated_assertion :: "pydict \<Rightarrow> tool_result list \<Rightarrow> pydict \<Rightarrow> pydict" where
  "evaluated_assertion extras tool_results assertion =
     (let kind = assertion_kind assertion;
          keys = assertion_keys assertion;
          missing_keys = filter (\<lambda>k. map_of (results_by_call tool_results) k = None) keys in
      [(''assertion_id'', PStr (gets_or assertion ''assertion_id'' ''goal_assertion'')),
       (''kind'', PStr kind),
       (''status'', PStr (assertion_status extras tool_results assertion)),
       (''required_call_keys'', PList (map PStr keys)),
       (''missing_call_keys'', PList (map PStr missing_keys))]
      @ (if kind = ''runtime_goal_satisfied'' then [(''goal_id'', PStr (gets assertion ''goal_id''))] else [])
      @ (if kind = ''evidence_claim_satisfied''
         then [(''goal_id'', PStr (gets assertion ''goal_id'')),
               (''evidence_kind'', PStr (gets assertion ''evidence_kind'')),
               (''target'', PDict (as_dict (dget assertion ''target''))),
               (''fact'', PStr (gets assertion ''fact''))]
         else []))"

definition configured_assertions :: "pydict \<Rightarrow> pydict list" where
  "configured_assertions extras = map as_dict (filter is_dict (as_list (dget extras ''goal_assertions'')))"

definition overall_status :: "string list \<Rightarrow> string" where
  "overall_status statuses =
     (if statuses \<noteq> [] \<and> list_all (\<lambda>s. s = ''passed'') statuses then ''passed''
      else if list_ex (\<lambda>s. s = ''unknown'') statuses then ''unknown'' else ''failed'')"

definition evaluate_goal_assertions :: "pydict \<Rightarrow> tool_result list \<Rightarrow> pydict" where
  "evaluate_goal_assertions extras tool_results =
     (let assertions = configured_assertions extras in
      if assertions = []
      then [(''required'', PBool False), (''status'', PStr ''not_required''), (''assertions'', PList [])]
      else [(''required'', PBool True),
            (''status'', PStr (overall_status (map (assertion_status extras tool_results) assertions))),
            (''assertions'', PList (map (\<lambda>a. PDict (evaluated_assertion extras tool_results a)) assertions))])"

section \<open>Outcomes\<close>

text \<open>A call whose effect may still happen and that is not declared read-only.\<close>

definition uncertain_write :: "tool_result \<Rightarrow> bool" where
  "uncertain_write r \<longleftrightarrow>
     tr_execution_may_continue r \<and> \<not> py_truthy (dget_or (as_dict (tr_output r)) ''read_only'' (PBool False))"

definition coverage_state :: "tool_result \<Rightarrow> string" where
  "coverage_state r = py_lower (gets (as_dict (tr_output r)) ''coverage_status'')"

definition derive_tool_execution_outcome :: "tool_result list \<Rightarrow> string" where
  "derive_tool_execution_outcome tool_results =
     (if list_ex uncertain_write tool_results then ''unknown''
      else
        let dict_results = filter (\<lambda>r. is_dict (tr_output r)) tool_results;
            coverage_states = map coverage_state dict_results in
        if ''failed'' \<in> set coverage_states \<and> ''complete'' \<notin> set coverage_states \<and> ''partial'' \<notin> set coverage_states
        then ''failed''
        else
          let partial_success = list_ex (\<lambda>r. py_truthy (dget (as_dict (tr_output r)) ''partial'') \<or>
                                             coverage_state r = ''partial'') dict_results;
              successful = length (filter tr_ok tool_results);
              failed = length tool_results - successful in
          if partial_success \<or> (successful \<noteq> 0 \<and> failed \<noteq> 0) then ''partial''
          else if failed \<noteq> 0 then ''failed''
          else ''complete'')"

definition derive_execution_outcome :: "tool_result list \<Rightarrow> string option \<Rightarrow> pyval \<Rightarrow> string" where
  "derive_execution_outcome tool_results terminal_error goal_assertions =
     (if derive_tool_execution_outcome tool_results = ''unknown'' then ''unknown''
      else
        let assertions = as_dict goal_assertions in
        if py_truthy (dget assertions ''required'') \<and> dget assertions ''status'' \<noteq> PStr ''passed''
        then (if dget assertions ''status'' = PStr ''unknown'' then ''unknown'' else ''partial'')
        else
          let successful = length (filter tr_ok tool_results) in
          if terminal_error \<notin> {None, Some []} then (if successful \<noteq> 0 then ''partial'' else ''failed'')
          else if tool_results \<noteq> [] \<and> successful = 0 then ''failed''
          else ''complete'')"

section \<open>What the outcomes mean\<close>

lemma results_by_call_conv:
  "map_of (results_by_call rs) k = find (\<lambda>r. tr_call_id r = k) (rev rs)"
proof -
  have "map_of (fold (\<lambda>r. AList.update (tr_call_id r) r) rs acc) k =
      (case find (\<lambda>r. tr_call_id r = k) (rev rs) of None \<Rightarrow> map_of acc k | Some r \<Rightarrow> Some r)" for acc
  proof (induction rs rule: rev_induct)
    case Nil
    then show ?case by simp
  next
    case (snoc r rs)
    then show ?case by (simp add: update_conv')
  qed
  from this [of "[]"] show ?thesis by (simp add: results_by_call_def split: option.splits)
qed

lemma derive_tool_outcome_unknown:
  "derive_tool_execution_outcome rs = ''unknown'' \<longleftrightarrow> list_ex uncertain_write rs"
  by (simp add: derive_tool_execution_outcome_def Let_def)

lemma filter_len_0: "length (filter P xs) \<noteq> 0 \<longleftrightarrow> (\<exists>x \<in> set xs. P x)"
  by (auto simp: filter_empty_conv)

text \<open>The user task is reported complete exactly when no write of unknown effect is open, required
  goal assertions have passed, the loop ended without a terminal error, and some call succeeded (or
  none was made); it is reported unknown exactly when such a write is open or the required
  assertions are themselves unknown.\<close>

theorem execution_outcome_complete_iff:
  "(derive_execution_outcome rs err ga = ''complete'' \<longleftrightarrow>
      \<not> list_ex uncertain_write rs
      \<and> \<not> (py_truthy (dget (as_dict ga) ''required'') \<and> dget (as_dict ga) ''status'' \<noteq> PStr ''passed'')
      \<and> err \<in> {None, Some []} \<and> (rs = [] \<or> (\<exists>r \<in> set rs. tr_ok r)))
   \<and> (derive_execution_outcome rs err ga = ''unknown'' \<longleftrightarrow>
      list_ex uncertain_write rs
      \<or> py_truthy (dget (as_dict ga) ''required'') \<and> dget (as_dict ga) ''status'' = PStr ''unknown'')"
  unfolding derive_execution_outcome_def derive_tool_outcome_unknown Let_def filter_len_0
  using filter_len_0 [of tr_ok rs] by (auto split: if_splits)

text \<open>The literal-results assertion: what ''passed'' guarantees.\<close>

lemma assertion_candidates_keys:
  "k \<in> set keys \<Longrightarrow> map_of results k = Some r \<Longrightarrow> r \<in> set (assertion_candidates results keys)"
  by (force simp: assertion_candidates_def map_filter_def)

lemma overall_passed_iff: "overall_status ss = ''passed'' \<longleftrightarrow> ss \<noteq> [] \<and> (\<forall>s \<in> set ss. s = ''passed'')"
  by (auto simp: overall_status_def list_all_iff)

lemma key_assertion_passed:
  assumes "assertion_status extras rs a = ''passed''"
    and "assertion_kind a \<notin> {''evidence_claim_satisfied'', ''runtime_goal_satisfied''}"
    and "k \<in> set (assertion_keys a)"
  shows "\<exists>r. find (\<lambda>r. tr_call_id r = k) (rev rs) = Some r \<and> tr_ok r \<and> \<not> tr_execution_may_continue r"
proof -
  let ?res = "results_by_call rs" and ?keys = "assertion_keys a"
  let ?cand = "assertion_candidates ?res ?keys"
  have scan: "semantic_scan f items = ''passed'' \<Longrightarrow> r \<in> set items \<Longrightarrow> tr_ok r" for f items r
    by (induction f items rule: semantic_scan.induct) (auto simp: Let_def split: if_splits)
  have miss: "filter (\<lambda>k. map_of ?res k = None) ?keys = []"
    and ok: "\<forall>r \<in> set ?cand. tr_ok r \<and> \<not> tr_execution_may_continue r"
    using assms(1,2) scan
    by (auto simp: assertion_status_def semantic_observation_status_def Let_def list_all_iff list_ex_iff
        split: if_splits)
  from miss assms(3) obtain r where r: "map_of ?res k = Some r"
    by (auto simp: filter_empty_conv)
  with ok assertion_candidates_keys [OF assms(3) r] show ?thesis
    by (auto simp: results_by_call_conv)
qed

lemma goal_assertions_block:
  "py_truthy (dget (evaluate_goal_assertions extras rs) ''required'') \<and> dget (evaluate_goal_assertions extras rs) ''status'' \<noteq> PStr ''passed''
   \<longleftrightarrow> \<not> (\<forall>a \<in> set (configured_assertions extras). assertion_status extras rs a = ''passed'')"
  by (cases "configured_assertions extras") (auto simp: evaluate_goal_assertions_def Let_def overall_passed_iff)



end
