(* ===== verification/Py_Json.thy ===== *)
theory Py_Json
  imports Py_Base
begin

text \<open>
  \<open>json.dumps\<close> on the values of the model, with the parameters the code uses: \<open>sort_keys\<close> and the
  two separators. Text outside ASCII is written as it is (\<open>ensure_ascii=False\<close>); on ASCII text the
  default \<open>ensure_ascii=True\<close> gives the same result.
\<close>

definition json_char :: "char \<Rightarrow> string" where
  "json_char c =
     (let n = (of_char c :: nat); bs = CHR 0x5C in
      if n = 34 \<or> n = 92 then [bs, c]
      else if n = 10 then [bs, CHR ''n'']
      else if n = 13 then [bs, CHR ''r'']
      else if n = 9 then [bs, CHR ''t'']
      else if n = 8 then [bs, CHR ''b'']
      else if n = 12 then [bs, CHR ''f'']
      else if n < 32 then [bs, CHR ''u'', CHR ''0'', CHR ''0''] @ hex2 c
      else [c])"

definition json_str :: "string \<Rightarrow> string" where
  "json_str s = [CHR 0x22] @ concat (map json_char s) @ [CHR 0x22]"

fun json_dumps :: "bool \<Rightarrow> string \<Rightarrow> string \<Rightarrow> pyval \<Rightarrow> string" where
  "json_dumps srt isep ksep PNone = ''null''"
| "json_dumps srt isep ksep (PBool b) = (if b then ''true'' else ''false'')"
| "json_dumps srt isep ksep (PInt i) = int_str i"
| "json_dumps srt isep ksep (PStr s) = json_str s"
| "json_dumps srt isep ksep (PList xs) = ''['' @ py_join isep (map (json_dumps srt isep ksep) xs) @ '']''"
| "json_dumps srt isep ksep (PDict d) =
     (let items = map (\<lambda>(k, v). (k, json_dumps srt isep ksep v)) d;
          ordered = (if srt then sort_key fst items else items)
      in ''{'' @ py_join isep (map (\<lambda>(k, t). json_str k @ ksep @ t) ordered) @ ''}'')"

text \<open>The default form, the form with sorted keys, and the compact canonical form.\<close>

definition json_default :: "pyval \<Rightarrow> string" where
  "json_default = json_dumps False '', '' '': ''"

definition json_sorted :: "pyval \<Rightarrow> string" where
  "json_sorted = json_dumps True '', '' '': ''"

definition json_canonical :: "pyval \<Rightarrow> string" where
  "json_canonical = json_dumps True '','' '':''"

end
