(* ===== verification/Recovery_Goals.thy ===== *)
theory Recovery_Goals
  imports Turn_Outcome Py_Json
begin

text \<open>
  Recovery strategies and recovery goals (\<open>core/runtime_engine/recovery_strategy.py\<close>,
  \<open>core/runtime_engine/recovery_goals.py\<close>). The goals are the dictionaries of
  \<open>ctx.extras["recovery_goals"]\<close>; the code changes them in place through references into that list,
  the model by updating the list at the same position.

  An operation that raises ends the turn; its partial changes of \<open>ctx.extras\<close> are not modelled.
  \<open>sha256\<close> is the hexadecimal digest.
\<close>

section \<open>Lists inside the context\<close>

text \<open>\<open>xs = extras.setdefault(k, [])\<close>, replaced by a fresh list when it is not one.\<close>

definition extras_list :: "pydict \<Rightarrow> string \<Rightarrow> pyval list" where
  "extras_list extras k = as_list (dget extras k)"

definition set_extras_list :: "string \<Rightarrow> pyval list \<Rightarrow> pydict \<Rightarrow> pydict" where
  "set_extras_list k xs extras = dset k (PList xs) extras"

lemma extras_list_set [simp]:
  "extras_list (set_extras_list k xs extras) k' = (if k' = k then xs else extras_list extras k')"
  by (simp add: extras_list_def set_extras_list_def pysimps)

definition goal_field :: "pyval \<Rightarrow> string \<Rightarrow> pyval" where
  "goal_field g k = dget (as_dict g) k"

text \<open>The first and the last element with a property, replaced in place.\<close>

fun update_first :: "('a \<Rightarrow> bool) \<Rightarrow> ('a \<Rightarrow> 'a) \<Rightarrow> 'a list \<Rightarrow> 'a list" where
  "update_first P f [] = []"
| "update_first P f (x # xs) = (if P x then f x # xs else x # update_first P f xs)"

definition update_last :: "('a \<Rightarrow> bool) \<Rightarrow> ('a \<Rightarrow> 'a) \<Rightarrow> 'a list \<Rightarrow> 'a list" where
  "update_last P f xs = rev (update_first P f (rev xs))"

lemma length_update_first [simp]: "length (update_first P f xs) = length xs"
  by (induction xs) auto

lemma length_update_last [simp]: "length (update_last P f xs) = length xs"
  by (simp add: update_last_def)

lemma update_first_same:
  "find P xs = Some y \<Longrightarrow> key (f y) = key y \<Longrightarrow> map key (update_first P f xs) = map key xs"
  by (induction xs) (auto split: if_splits)

lemma update_last_same:
  "find P (rev xs) = Some y \<Longrightarrow> key (f y) = key y \<Longrightarrow> map key (update_last P f xs) = map key xs"
  by (simp add: update_last_def rev_map [symmetric] update_first_same)

lemma find_map_key: "(\<And>x. P x = Q (key x)) \<Longrightarrow> map_option key (find P xs) = find Q (map key xs)"
  by (induction xs) auto

section \<open>Strategies\<close>

record recovery_strategy =
  rs_strategy_id :: string
  rs_failure_classes :: "string list"
  rs_description :: string
  rs_requires_changed_call :: bool

definition strategy_candidates :: "recovery_strategy list \<Rightarrow> string \<Rightarrow> pyval list" where
  "strategy_candidates strategies failure_class =
     map (\<lambda>item. PDict
           [(''strategy_id'', PStr (rs_strategy_id item)),
            (''description'', PStr (rs_description item)),
            (''requires_changed_call'', PBool (rs_requires_changed_call item))])
       (filter (\<lambda>item. failure_class \<in> set (rs_failure_classes item) \<or> ''*'' \<in> set (rs_failure_classes item)) strategies)"

definition DEFAULT_RECOVERY_STRATEGIES :: "recovery_strategy list" where
  "DEFAULT_RECOVERY_STRATEGIES =
     [\<lparr>rs_strategy_id = ''correct_arguments'',
       rs_failure_classes = [''invalid_arguments''],
       rs_description = ''Correct the rejected arguments from the canonical schema and error details.'',
       rs_requires_changed_call = True\<rparr>,
      \<lparr>rs_strategy_id = ''narrow_scope'',
       rs_failure_classes = [''invalid_arguments'', ''transient'', ''capability'', ''tool_failure''],
       rs_description = ''Reduce the observation to the smallest scope that can close the evidence gap.'',
       rs_requires_changed_call = True\<rparr>,
      \<lparr>rs_strategy_id = ''alternate_capability'',
       rs_failure_classes = [''transient'', ''capability'', ''tool_failure''],
       rs_description = ''Use a different registered read capability that can produce equivalent evidence.'',
       rs_requires_changed_call = True\<rparr>,
      \<lparr>rs_strategy_id = ''authoritative_reference_then_retry'',
       rs_failure_classes = [''invalid_arguments'', ''capability''],
       rs_description = ''Consult an authoritative reference to repair the next live observation; documentation alone does not prove live state.'',
       rs_requires_changed_call = True\<rparr>,
      \<lparr>rs_strategy_id = ''bounded_blocker'',
       rs_failure_classes = [''*''],
       rs_description = ''After materially different safe strategies are exhausted, report the exact blocker and missing coverage.'',
       rs_requires_changed_call = True\<rparr>]"

section \<open>Handler-declared goals\<close>

definition is_valid_recovery_directive :: "pyval \<Rightarrow> bool" where
  "is_valid_recovery_directive directive \<longleftrightarrow>
     is_dict directive
     \<and> dget (as_dict directive) ''kind'' \<in> {PStr ''safe_read_fallback'', PStr ''documentation_read_fallback''}
     \<and> py_strip (gets (as_dict directive) ''tool_id'') \<noteq> []
     \<and> is_dict (dget (as_dict directive) ''arguments'')
     \<and> (let goal = dget (as_dict directive) ''goal'' in
        is_dict goal \<and> py_strip (gets (as_dict goal) ''evidence_kind'') \<noteq> []
        \<and> is_dict (dget (as_dict goal) ''target'') \<and> py_truthy (dget (as_dict goal) ''target''))"

definition has_goal_id :: "string \<Rightarrow> pyval \<Rightarrow> bool" where
  "has_goal_id goal_id item \<longleftrightarrow> is_dict item \<and> dget (as_dict item) ''goal_id'' = PStr goal_id"

definition has_assertion_id :: "string \<Rightarrow> pyval \<Rightarrow> bool" where
  "has_assertion_id assertion_id item \<longleftrightarrow> is_dict item \<and> dget (as_dict item) ''assertion_id'' = PStr assertion_id"

definition evidence_assertion :: "string \<Rightarrow> string \<Rightarrow> pydict \<Rightarrow> string \<Rightarrow> pyval" where
  "evidence_assertion goal_id evidence_kind target fct = PDict
     [(''assertion_id'', PStr (''recovery-evidence:'' @ goal_id)),
      (''kind'', PStr ''evidence_claim_satisfied''),
      (''runtime_owned_recovery'', PBool True),
      (''goal_id'', PStr goal_id),
      (''evidence_kind'', PStr evidence_kind),
      (''target'', PDict target),
      (''fact'', PStr fct)]"

definition recovery_goal_id :: "(string \<Rightarrow> string) \<Rightarrow> pydict \<Rightarrow> string \<Rightarrow> pydict \<Rightarrow> string \<Rightarrow> string \<Rightarrow> string" where
  "recovery_goal_id sha256 goal evidence_kind target fct source_call_id =
     (if py_strip (gets goal ''goal_id'') \<noteq> [] then py_strip (gets goal ''goal_id'')
      else ''recovery-goal-'' @ take 20 (sha256 (json_sorted (PDict
             [(''evidence_kind'', PStr evidence_kind), (''target'', PDict target),
              (''fact'', PStr fct), (''source_call_id'', PStr source_call_id)]))))"

definition install_recovery_goal ::
  "(string \<Rightarrow> string) \<Rightarrow> pydict \<Rightarrow> string \<Rightarrow> pydict \<Rightarrow> pydict \<times> pyval option" where
  "install_recovery_goal sha256 directive source_call_id extras =
     (let goal_v = dget directive ''goal''; goal = as_dict goal_v;
          evidence_kind = py_strip (gets goal ''evidence_kind'');
          target = as_dict (dget goal ''target'');
          fct = py_strip (gets goal ''fact'') in
      if \<not> is_dict goal_v \<or> evidence_kind = [] \<or> target = [] then (extras, None)
      else
        let goal_id = recovery_goal_id sha256 goal evidence_kind target fct source_call_id;
            new = PDict
              [(''goal_id'', PStr goal_id),
               (''evidence_kind'', PStr evidence_kind),
               (''target'', PDict target),
               (''fact'', PStr fct),
               (''description'', PStr (take 240 (gets_or goal ''description'' ''required recovery evidence''))),
               (''source_call_id'', PStr source_call_id),
               (''status'', PStr ''pending'')];
            goals = extras_list extras ''recovery_goals'';
            (goals', rec) = (case find (has_goal_id goal_id) goals of
                None \<Rightarrow> (goals @ [new], new)
              | Some existing \<Rightarrow> (goals, existing));
            extras1 = set_extras_list ''recovery_goals'' goals' extras;
            assertions = extras_list extras1 ''goal_assertions'';
            assertions' = (if list_ex (has_assertion_id (''recovery-evidence:'' @ goal_id)) assertions then assertions
                           else assertions @ [evidence_assertion goal_id evidence_kind target fct])
        in (set_extras_list ''goal_assertions'' assertions' extras1, Some rec))"

section \<open>The final gate\<close>

record recovery_final_gate_r =
  rfg_should_continue :: bool
  rfg_unresolved :: "pydict list"
  rfg_nudge :: string

definition same_goal :: "string \<Rightarrow> pyval \<Rightarrow> bool" where
  "same_goal goal_id item \<longleftrightarrow> is_dict item \<and> gets (as_dict item) ''goal_id'' = goal_id"

text \<open>\<open>goals_by_id.get(goal_id)\<close>: the last goal with the id.\<close>

definition goals_by_id :: "pydict \<Rightarrow> string \<Rightarrow> pydict option" where
  "goals_by_id extras goal_id =
     map_option as_dict (find (same_goal goal_id) (rev (py_iter (dget extras ''recovery_goals''))))"

definition recovery_ids :: "pydict \<Rightarrow> string list" where
  "recovery_ids extras =
     map (\<lambda>item. gets (as_dict item) ''assertion_id'')
       (filter (\<lambda>item. is_dict item
            \<and> dget (as_dict item) ''runtime_owned_recovery'' = PBool True
            \<and> dget (case goals_by_id extras (gets (as_dict item) ''goal_id'') of None \<Rightarrow> [] | Some g \<Rightarrow> g) ''status''
                \<noteq> PStr ''superseded'')
          (py_iter (dget extras ''goal_assertions'')))"

definition evaluated_assertions :: "pydict \<Rightarrow> pydict list" where
  "evaluated_assertions evaluated = map as_dict (as_list (dget evaluated ''assertions''))"

text \<open>\<open>_project_goal_status\<close>: for each evidence goal, the status of the last assertion about it.\<close>

definition evidence_status_of :: "pydict \<Rightarrow> string \<Rightarrow> string option" where
  "evidence_status_of evaluated goal_id =
     map_option (\<lambda>item. gets_or item ''status'' ''unknown'')
       (find (\<lambda>item. dget item ''kind'' = PStr ''evidence_claim_satisfied'' \<and> gets item ''goal_id'' = goal_id)
         (rev (evaluated_assertions evaluated)))"

definition project_goal :: "pydict \<Rightarrow> pyval \<Rightarrow> pyval" where
  "project_goal evaluated goal =
     (if \<not> is_dict goal then goal
      else
        let g = as_dict goal in
        case evidence_status_of evaluated (gets g ''goal_id'') of
          None \<Rightarrow> goal
        | Some astatus \<Rightarrow>
            if dget g ''status'' \<in> {PStr ''passed'', PStr ''blocked''} then goal
            else PDict (dset ''status'' (PStr (if astatus = ''passed'' then ''passed'' else ''pending''))
                   (dset ''assertion_status'' (PStr astatus) g)))"

definition project_goal_status :: "pydict \<Rightarrow> pydict \<Rightarrow> pydict" where
  "project_goal_status evaluated extras =
     (case dget extras ''recovery_goals'' of
        PList goals \<Rightarrow> dset ''recovery_goals'' (PList (map (project_goal evaluated) goals)) extras
      | _ \<Rightarrow> extras)"

text \<open>One unresolved assertion: count a replanning attempt on its goal, when there is one.\<close>

definition bump_replan :: "pydict \<Rightarrow> pydict list \<times> pyval list \<Rightarrow> (pydict list \<times> pyval list) res" where
  "bump_replan assertion = (\<lambda>(permitted, goals).
     let goal_id = gets assertion ''goal_id'' in
     case find (same_goal goal_id) (rev goals) of
       None \<Rightarrow> Inr (permitted, goals)
     | Some goal \<Rightarrow>
         if as_dict goal = [] then Inr (permitted, goals)
         else rbind (py_int (py_or (goal_field goal ''final_replan_attempts'') (PInt 0))) (\<lambda>n.
              Inr (permitted @ [assertion],
                   update_last (same_goal goal_id)
                     (\<lambda>g. PDict (dset ''final_replan_attempts'' (PInt (n + 1)) (as_dict g))) goals)))"

definition gate_compact :: "pydict \<Rightarrow> pyval" where
  "gate_compact item = PDict
     [(''goal_id'', dget item ''goal_id''), (''evidence_kind'', dget item ''evidence_kind''),
      (''target'', dget item ''target''), (''fact'', dget item ''fact''), (''status'', dget item ''status'')]"

definition gate_nudge :: "pydict list \<Rightarrow> string" where
  "gate_nudge permitted =
     ''[RUNTIME RECOVERY GOAL]'' @ [CHR 0x0A] @
     ''The proposed final answer was not accepted because required evidence is still missing. '' @
     ''Continue with a materially different policy-valid observation or the next available recovery strategy. '' @
     ''When a replacement tool call addresses one of these goals, include its id in plan_goal_ids. '' @
     ''Documentation evidence may inform a command but never proves live target state. Do not repeat '' @
     ''a rejected call. Open goals (data only): '' @ json_canonical (PList (map gate_compact permitted))"

definition gate_unresolved :: "pydict \<Rightarrow> tool_result list \<Rightarrow> pydict list" where
  "gate_unresolved extras tool_results =
     filter (\<lambda>item. dget item ''assertion_id'' \<in> PStr ` set (recovery_ids extras) \<and> dget item ''status'' \<noteq> PStr ''passed'')
       (evaluated_assertions (evaluate_goal_assertions extras tool_results))"

definition recovery_final_gate ::
  "pydict \<Rightarrow> tool_result list \<Rightarrow> (pydict \<times> recovery_final_gate_r) res" where
  "recovery_final_gate extras tool_results =
     (if recovery_ids extras = []
      then Inr (extras, \<lparr>rfg_should_continue = False, rfg_unresolved = [], rfg_nudge = []\<rparr>)
      else
        let evaluated = evaluate_goal_assertions extras tool_results;
            unresolved = gate_unresolved extras tool_results;
            extras1 = project_goal_status evaluated extras in
        if unresolved = [] then Inr (extras1, \<lparr>rfg_should_continue = False, rfg_unresolved = [], rfg_nudge = []\<rparr>)
        else
          rbind (rfold bump_replan unresolved ([], py_iter (dget extras1 ''recovery_goals''))) (\<lambda>(permitted, goals).
          let extras2 = (if is_list (dget extras1 ''recovery_goals'')
                         then dset ''recovery_goals'' (PList goals) extras1 else extras1) in
          if permitted = []
          then Inr (extras2, \<lparr>rfg_should_continue = False, rfg_unresolved = unresolved, rfg_nudge = []\<rparr>)
          else
            rbind (py_int (py_or (dget extras2 ''recovery_final_replans'') (PInt 0))) (\<lambda>n.
            Inr (dset ''recovery_final_replans'' (PInt (n + 1)) extras2,
                 \<lparr>rfg_should_continue = True, rfg_unresolved = permitted, rfg_nudge = gate_nudge permitted\<rparr>))))"

section \<open>What the gate guarantees\<close>

text \<open>The part of a goal that decides whether an unresolved assertion may ask for another round.\<close>

definition gate_key :: "pyval \<Rightarrow> bool \<times> string \<times> bool" where
  "gate_key g = (is_dict g, gets (as_dict g) ''goal_id'', as_dict g = [])"

definition key_of_goal :: "string \<Rightarrow> bool \<times> string \<times> bool \<Rightarrow> bool" where
  "key_of_goal goal_id k \<longleftrightarrow> fst k \<and> fst (snd k) = goal_id"

definition open_for :: "pyval list \<Rightarrow> string \<Rightarrow> bool" where
  "open_for goals goal_id =
     (case find (key_of_goal goal_id) (rev (map gate_key goals)) of None \<Rightarrow> False | Some k \<Rightarrow> \<not> snd (snd k))"

lemma find_same_goal:
  "find (key_of_goal gid) (rev (map gate_key goals)) = map_option gate_key (find (same_goal gid) (rev goals))"
  unfolding rev_map
  by (rule find_map_key [symmetric]) (simp add: same_goal_def gate_key_def key_of_goal_def)

lemma bump_replan_Inr:
  assumes "bump_replan a (permitted, goals) = Inr (permitted', goals')"
  shows "permitted' = permitted @ (if open_for goals (gets a ''goal_id'') then [a] else [])
    \<and> map gate_key goals' = map gate_key goals"
proof (cases "find (same_goal (gets a ''goal_id'')) (rev goals)")
  case None
  with assms show ?thesis by (simp add: bump_replan_def open_for_def find_same_goal)
next
  case (Some goal)
  then have d: "is_dict goal" by (auto simp: find_Some_iff same_goal_def)
  show ?thesis
  proof (cases "as_dict goal = []")
    case True
    with assms Some show ?thesis by (simp add: bump_replan_def open_for_def find_same_goal gate_key_def)
  next
    case False
    have "gate_key (PDict (dset ''final_replan_attempts'' v (as_dict goal))) = gate_key goal" for v
      using d False by (cases goal) (auto simp: gate_key_def pysimps)
    with assms Some False show ?thesis
      by (auto simp: bump_replan_def open_for_def find_same_goal Let_def intro: update_last_same)
        (simp add: gate_key_def)
  qed
qed

lemma bump_all:
  "rfold bump_replan us (permitted, goals) = Inr (permitted', goals') \<Longrightarrow>
     permitted' = permitted @ filter (\<lambda>a. open_for goals (gets a ''goal_id'')) us"
proof (induction us arbitrary: permitted goals)
  case Nil
  then show ?case by simp
next
  case (Cons a us)
  then obtain p1 g1 where one: "bump_replan a (permitted, goals) = Inr (p1, g1)"
    and rest: "rfold bump_replan us (p1, g1) = Inr (permitted', goals')" by auto
  from bump_replan_Inr [OF one] have "p1 = permitted @ (if open_for goals (gets a ''goal_id'') then [a] else [])"
    and "open_for g1 = open_for goals" by (auto simp: open_for_def)
  with Cons.IH [OF rest] show ?case by simp
qed

lemma goal_id_project [simp]:
  "is_dict (project_goal ev g) = is_dict g" "gets (as_dict (project_goal ev g)) ''goal_id'' = gets (as_dict g) ''goal_id''"
  by (auto simp: project_goal_def Let_def pysimps split: option.splits)

lemma same_goal_project [simp]: "same_goal i (project_goal ev g) = same_goal i g"
  by (simp add: same_goal_def)

lemma find_same_goal_project:
  "find (same_goal i) (map (project_goal ev) gs) = map_option (project_goal ev) (find (same_goal i) gs)"
  by (induction gs) auto

lemma open_for_projected:
  assumes "i \<noteq> []"
  shows "open_for (py_iter (dget (project_goal_status ev extras) ''recovery_goals'')) i
    \<longleftrightarrow> goals_by_id extras i \<noteq> None"
proof -
  have some: "find (same_goal i) gs = Some g \<Longrightarrow> as_dict g \<noteq> []" for gs g
    using assms by (auto simp: find_Some_iff same_goal_def gets_def gets_or_def py_or_def)
  have "open_for gs i \<longleftrightarrow> find (same_goal i) (rev gs) \<noteq> None" for gs
    using some by (auto simp: open_for_def find_same_goal gate_key_def split: option.splits)
  then show ?thesis
    by (cases "dget extras ''recovery_goals''")
      (simp_all add: project_goal_status_def goals_by_id_def pysimps rev_map find_same_goal_project)
qed

text \<open>A goal assertion that the runtime owns and whose goal has not been superseded.\<close>

definition runtime_owned :: "pydict \<Rightarrow> pydict \<Rightarrow> bool" where
  "runtime_owned extras a \<longleftrightarrow>
     dget a ''runtime_owned_recovery'' = PBool True \<and> gets a ''assertion_id'' \<noteq> []
     \<and> dget (case goals_by_id extras (gets a ''goal_id'') of None \<Rightarrow> [] | Some g \<Rightarrow> g) ''status'' \<noteq> PStr ''superseded''"

lemma as_list_subset_iter: "set (as_list v) \<subseteq> set (py_iter v)"
  by (cases v) auto

lemma runtime_owned_id:
  assumes "a \<in> set (configured_assertions extras)" "runtime_owned extras a"
  shows "gets a ''assertion_id'' \<in> set (recovery_ids extras)"
proof -
  from assms(1) obtain v where "v \<in> set (as_list (dget extras ''goal_assertions''))" "is_dict v" "a = as_dict v"
    by (auto simp: configured_assertions_def)
  with assms(2) as_list_subset_iter show ?thesis
    by (force simp: recovery_ids_def runtime_owned_def)
qed

lemma gate_unresolved_Nil:
  assumes "gate_unresolved extras rs = []" "a \<in> set (configured_assertions extras)" "runtime_owned extras a"
  shows "assertion_status extras rs a = ''passed''"
proof (rule ccontr)
  let ?e = "evaluated_assertion extras rs a"
  assume n: "assertion_status extras rs a \<noteq> ''passed''"
  have "?e \<in> set (evaluated_assertions (evaluate_goal_assertions extras rs))"
    using assms(2) by (auto simp: evaluated_assertions_def evaluate_goal_assertions_def Let_def image_image)
  moreover have "dget ?e ''status'' = PStr (assertion_status extras rs a)"
    "dget ?e ''assertion_id'' = PStr (gets_or a ''assertion_id'' ''goal_assertion'')"
    by (simp_all add: evaluated_assertion_def Let_def)
  moreover have "gets_or a ''assertion_id'' ''goal_assertion'' = gets a ''assertion_id''"
    using assms(3) by (auto simp: runtime_owned_def gets_def gets_or_def py_or_def split: if_splits)
  ultimately have "?e \<in> set (gate_unresolved extras rs)"
    using n runtime_owned_id [OF assms(2,3)] by (simp add: gate_unresolved_def)
  with assms(1) show False by simp
qed

text \<open>The gate past its two early exits.\<close>

lemma gate_open:
  assumes "recovery_final_gate extras rs = Inr (extras', gate)" and "gate_unresolved extras rs \<noteq> []"
  obtains permitted where
    "permitted = filter (\<lambda>a. open_for (py_iter (dget (project_goal_status (evaluate_goal_assertions extras rs) extras)
        ''recovery_goals'')) (gets a ''goal_id'')) (gate_unresolved extras rs)"
    "rfg_should_continue gate \<longleftrightarrow> permitted \<noteq> []"
    "rfg_unresolved gate = (if permitted = [] then gate_unresolved extras rs else permitted)"
proof -
  let ?e1 = "project_goal_status (evaluate_goal_assertions extras rs) extras"
  from assms(2) have "recovery_ids extras \<noteq> []" by (auto simp: gate_unresolved_def)
  with assms obtain permitted goals where
    "rfold bump_replan (gate_unresolved extras rs) ([], py_iter (dget ?e1 ''recovery_goals'')) = Inr (permitted, goals)"
    "rfg_should_continue gate \<longleftrightarrow> permitted \<noteq> []"
    "rfg_unresolved gate = (if permitted = [] then gate_unresolved extras rs else permitted)"
    by (auto simp: recovery_final_gate_def Let_def split: if_splits)
  with bump_all [OF this(1)] that show ?thesis by simp
qed

lemma gate_continues:
  assumes "recovery_final_gate extras rs = Inr (extras', gate)"
    and "a \<in> set (gate_unresolved extras rs)" "gets a ''goal_id'' \<noteq> []" "goals_by_id extras (gets a ''goal_id'') \<noteq> None"
  shows "rfg_should_continue gate"
proof -
  have "gate_unresolved extras rs \<noteq> []" using assms(2) by auto
  then show ?thesis
    by (rule gate_open [OF assms(1)])
      (use assms(2,4) open_for_projected [OF assms(3)] in \<open>auto simp: filter_empty_conv\<close>)
qed

text \<open>The gate rejects a proposed final answer whenever a recovery assertion is unresolved and its
  goal is registered, and only for such assertions; an answer that it lets through with nothing
  left open leaves every assertion passed that the runtime owns and that was not superseded.\<close>

theorem recovery_gate_correct:
  assumes "recovery_final_gate extras rs = Inr (extras', gate)"
  shows "(\<forall>a \<in> set (gate_unresolved extras rs).
            gets a ''goal_id'' \<noteq> [] \<and> goals_by_id extras (gets a ''goal_id'') \<noteq> None \<longrightarrow> rfg_should_continue gate)
    \<and> set (rfg_unresolved gate) \<subseteq> set (gate_unresolved extras rs)
    \<and> (rfg_should_continue gate \<longrightarrow> rfg_unresolved gate \<noteq> [])
    \<and> (rfg_unresolved gate = [] \<longrightarrow>
        (\<forall>a \<in> set (configured_assertions extras). runtime_owned extras a \<longrightarrow> assertion_status extras rs a = ''passed''))"
proof (cases "gate_unresolved extras rs = []")
  case True
  with assms show ?thesis
    by (auto simp: recovery_final_gate_def Let_def gate_unresolved_Nil split: if_splits)
next
  case False
  show ?thesis
    by (rule gate_open [OF assms False]) (use gate_continues [OF assms] False in \<open>auto split: if_splits\<close>)
qed

theorem recovery_gate_correct_witness:
  "\<exists>extras' gate. recovery_final_gate
      [(''recovery_goals'', PList [PDict [(''goal_id'', PStr ''g''), (''status'', PStr ''pending'')]]),
       (''goal_assertions'', PList [evidence_assertion ''g'' ''k'' [] []])] [] = Inr (extras', gate)
    \<and> rfg_should_continue gate"
proof -
  let ?x = "[(''recovery_goals'', PList [PDict [(''goal_id'', PStr ''g''), (''status'', PStr ''pending'')]]),
       (''goal_assertions'', PList [evidence_assertion ''g'' ''k'' [] []])]"
  have "\<not> isl (recovery_final_gate ?x [])" by code_simp
  then obtain extras' gate where r: "recovery_final_gate ?x [] = Inr (extras', gate)"
    by (metis sum.collapse(2) surj_pair)
  have "list_ex (\<lambda>a. gets a ''goal_id'' \<noteq> [] \<and> goals_by_id ?x (gets a ''goal_id'') \<noteq> None) (gate_unresolved ?x [])"
    by code_simp
  with recovery_gate_correct [OF r] r show ?thesis unfolding list_ex_iff by blast
qed

end
