(* ===== verification/Record_Store.thy ===== *)
theory Record_Store
  imports Py_Base
begin

text \<open>
  Durable JSON records (\<open>storage/records.py\<close>, \<open>storage/atomic_io.py\<close>, \<open>storage/locking.py\<close>).
  A collection of record files is an association list from the path (a key) to the record; its
  order stands for the order in which \<open>glob\<close> returns the files, which the code does not rely on.

  Every service changes a record inside a \<open>FileLock\<close> section that reads the file, decides, and
  either raises, returns without writing, or replaces the file atomically. \<open>with_record\<close> is that
  section; because the lock serialises the sections of one record, a history of the system is a
  sequence of such sections. The locale \<open>record_store\<close> is the contract of the store, and
  \<open>status_machine\<close> derives from a per-section status law what holds along every history.
\<close>

section \<open>The store\<close>

type_synonym 'k store = "('k \<times> pydict) list"

definition st_get :: "'k store \<Rightarrow> 'k \<Rightarrow> pydict option" where
  "st_get st k = map_of st k"

definition st_put :: "'k \<Rightarrow> pydict \<Rightarrow> 'k store \<Rightarrow> 'k store" where
  "st_put k r st = AList.update k r st"

definition st_del :: "'k \<Rightarrow> 'k store \<Rightarrow> 'k store" where
  "st_del k st = AList.delete k st"

locale record_store =
  fixes lookup :: "'s \<Rightarrow> 'k \<Rightarrow> 'r option"
    and save :: "'k \<Rightarrow> 'r \<Rightarrow> 's \<Rightarrow> 's"
    and remove :: "'k \<Rightarrow> 's \<Rightarrow> 's"
  assumes lookup_save: "lookup (save k r st) k' = (if k' = k then Some r else lookup st k')"
    and lookup_remove: "lookup (remove k st) k' = (if k' = k then None else lookup st k')"
begin

lemma lookup_save_same [simp]: "lookup (save k r st) k = Some r"
  by (simp add: lookup_save)

lemma lookup_save_other: "k' \<noteq> k \<Longrightarrow> lookup (save k r st) k' = lookup st k'"
  by (simp add: lookup_save)

lemma last_save_wins: "lookup (save k r (save k r' st)) = lookup (save k r st)"
  by (rule ext) (simp add: lookup_save)

lemma saves_commute: "k \<noteq> k' \<Longrightarrow> lookup (save k r (save k' r' st)) = lookup (save k' r' (save k r st))"
  by (rule ext) (simp add: lookup_save)

lemma lookup_saves_other: "k \<notin> fst ` set ws \<Longrightarrow> lookup (fold (\<lambda>(k', r). save k' r) ws st) k = lookup st k"
  by (induction ws arbitrary: st) (auto simp: lookup_save)

end

interpretation json_files: record_store st_get st_put st_del
  by unfold_locales (simp_all add: st_get_def st_put_def st_del_def update_conv' delete_conv')

lemmas st_simps [simp] = json_files.lookup_save json_files.lookup_remove

section \<open>Locked sections\<close>

text \<open>The body sees the record and answers with the record to write, if any, and the value to
  return. A missing file raises \<open>missing\<close>.\<close>

definition with_record ::
  "'e \<Rightarrow> 'k \<Rightarrow> (pydict \<Rightarrow> 'e + (pydict option \<times> 'a)) \<Rightarrow> 'k store \<Rightarrow> 'e + ('k store \<times> 'a)" where
  "with_record missing k body st =
     (case st_get st k of
        None \<Rightarrow> Inl missing
      | Some record \<Rightarrow>
          rbind (body record) (\<lambda>(written, answer).
            Inr (case written of None \<Rightarrow> st | Some record' \<Rightarrow> st_put k record' st, answer)))"

lemma with_record_Inr:
  assumes "with_record missing k body st = Inr (st', a)"
  obtains r w where "st_get st k = Some r" "body r = Inr (w, a)"
    "st' = (case w of None \<Rightarrow> st | Some r' \<Rightarrow> st_put k r' st)"
  using assms by (auto simp: with_record_def split: option.splits prod.splits sum.splits)

lemma with_record_frame:
  "with_record missing k body st = Inr (st', a) \<Longrightarrow> k' \<noteq> k \<Longrightarrow> st_get st' k' = st_get st k'"
  by (erule with_record_Inr) (simp split: option.splits)

lemma with_record_keeps:
  "with_record missing k body st = Inr (st', a) \<Longrightarrow> st_get st k' \<noteq> None \<Longrightarrow> st_get st' k' \<noteq> None"
  by (erule with_record_Inr) (auto split: option.splits)

text \<open>What a section does to a status that is computed from the record.\<close>

lemma with_record_status:
  assumes "with_record missing k body st = Inr (st', a)"
    and "\<And>r w a. body r = Inr (Some w, a) \<Longrightarrow> R (f r) (f w)"
    and "st_get st k' = Some r"
  shows "\<exists>r'. st_get st' k' = Some r' \<and> (f r' = f r \<or> R (f r) (f r'))"
  using assms(1)
proof (rule with_record_Inr)
  fix r0 w assume "st_get st k = Some r0" "body r0 = Inr (w, a)"
    and "st' = (case w of None \<Rightarrow> st | Some r' \<Rightarrow> st_put k r' st)"
  then show ?thesis using assms(2,3) by (cases w) auto
qed

section \<open>Status machines\<close>

locale status_machine =
  fixes status :: "'st \<Rightarrow> 'i \<Rightarrow> 's option"
    and step :: "'op \<Rightarrow> 'st \<Rightarrow> 'st"
    and allowed :: "'s \<Rightarrow> 's \<Rightarrow> bool"
  assumes step_allowed:
    "status st i = Some s \<Longrightarrow> \<exists>s'. status (step op st) i = Some s' \<and> (s' = s \<or> allowed s s')"
begin

theorem run_follows_transitions:
  "status st i = Some s \<Longrightarrow> \<exists>s'. status (fold step ops st) i = Some s' \<and> allowed\<^sup>*\<^sup>* s s'"
proof (induction ops arbitrary: st s)
  case Nil
  then show ?case by auto
next
  case (Cons op ops)
  from step_allowed [OF Cons.prems, of op] obtain s1 where
    s1: "status (step op st) i = Some s1" "s1 = s \<or> allowed s s1" by blast
  from Cons.IH [OF s1(1)] obtain s' where
    "status (fold step ops (step op st)) i = Some s'" "allowed\<^sup>*\<^sup>* s1 s'" by blast
  with s1(2) show ?case by (auto intro: converse_rtranclp_into_rtranclp)
qed

theorem terminal_is_final:
  assumes "status st i = Some s" "\<And>t. \<not> allowed s t"
  shows "status (fold step ops st) i = Some s"
proof -
  from run_follows_transitions [OF assms(1)] obtain s' where
    s': "status (fold step ops st) i = Some s'" "allowed\<^sup>*\<^sup>* s s'" by blast
  from s'(2) assms(2) have "s' = s"
    by (auto elim: converse_rtranclpE)
  with s'(1) show ?thesis by simp
qed

end

section \<open>Listings\<close>

text \<open>\<open>xs.sort(key=..., reverse=True)\<close>: descending, equal keys keep their order.\<close>

definition sorted_desc :: "('a \<Rightarrow> 'k::linorder) \<Rightarrow> 'a list \<Rightarrow> 'a list" where
  "sorted_desc key xs = rev (sort_key key (rev xs))"

lemma set_sorted_desc [simp]: "set (sorted_desc key xs) = set xs"
  by (simp add: sorted_desc_def)

lemma length_sorted_desc [simp]: "length (sorted_desc key xs) = length xs"
  by (simp add: sorted_desc_def)

text \<open>\<open>list_json_records\<close>: newest first, at most \<open>max(1, min(limit or 100, 5000))\<close> records.\<close>

definition record_limit :: "int \<Rightarrow> nat" where
  "record_limit limit = nat (max 1 (min (if limit = 0 then 100 else limit) 5000))"

definition record_time :: "pydict \<Rightarrow> string" where
  "record_time r = py_str (py_or (py_or (dget r ''updated_at'') (dget r ''created_at'')) (PStr []))"

definition list_json_records :: "pydict list \<Rightarrow> int \<Rightarrow> pydict list" where
  "list_json_records files limit = take (record_limit limit) (sorted_desc record_time files)"

lemma list_json_records_subset: "set (list_json_records files limit) \<subseteq> set files"
  by (auto simp: list_json_records_def dest: in_set_takeD)

end
