(* ===== verification/Goal_Loop.thy ===== *)
theory Goal_Loop
  imports Recovery_Goals Record_Store
begin

text \<open>
  The goal loop (\<open>core/runtime_engine/goal_loop.py\<close>): every tool result becomes an observation, a
  recoverable failed read opens a goal, and later observations close it.

  The loops of the code visit the items of \<open>extras["recovery_goals"]\<close> that are dictionaries. A value
  there that is not a list has no such items and is left as it is.
\<close>

section \<open>Tables\<close>

definition TERMINAL_FAILURE_CODES :: "string list" where
  "TERMINAL_FAILURE_CODES =
     [''CANCELLED_BY_USER'', ''POLICY_BLOCKED'', ''AUTHORIZATION_FAILED'', ''UNAUTHORIZED'', ''FORBIDDEN'',
      ''CREDENTIAL_ACCESS'']"

definition TARGET_KEYS :: "string list" where
  "TARGET_KEYS =
     [''workspace_id'', ''device_id'', ''connection_id'', ''resource_id'', ''artifact_id'', ''document_id'',
      ''file_id'', ''filepath'', ''path'', ''url'', ''location'', ''task_id'', ''job_id'', ''subtask_id'',
      ''host'', ''address'', ''query'']"

definition RESOURCE_TARGET_KEYS :: "string list" where
  "RESOURCE_TARGET_KEYS =
     [''workspace_id'', ''device_id'', ''connection_id'', ''resource_id'', ''artifact_id'', ''document_id'',
      ''file_id'', ''task_id'', ''job_id'', ''subtask_id'', ''host'', ''address'']"

definition CROSS_CAPABILITY_TARGET_KEYS :: "string list" where
  "CROSS_CAPABILITY_TARGET_KEYS =
     [''device_id'', ''connection_id'', ''resource_id'', ''artifact_id'', ''document_id'', ''file_id'',
      ''task_id'', ''job_id'', ''subtask_id'', ''host'', ''address'', ''path'', ''url'', ''location'']"

section \<open>Observations\<close>

record observation =
  ob_call_id :: string
  ob_tool_id :: string
  ob_action :: string
  ob_target :: pydict
  ob_ok :: bool
  ob_failure_class :: string
  ob_error_code :: string
  ob_read_only :: bool
  ob_execution_may_continue :: bool
  ob_goal_ids :: "string list"

definition observation_dict :: "observation \<Rightarrow> pyval" where
  "observation_dict ob = PDict
     [(''call_id'', PStr (ob_call_id ob)),
      (''tool_id'', PStr (ob_tool_id ob)),
      (''action'', PStr (ob_action ob)),
      (''target'', PDict (ob_target ob)),
      (''status'', PStr (if ob_ok ob then ''succeeded'' else ''failed'')),
      (''failure_class'', PStr (ob_failure_class ob)),
      (''error_code'', PStr (ob_error_code ob)),
      (''read_only'', PBool (ob_read_only ob)),
      (''execution_may_continue'', PBool (ob_execution_may_continue ob)),
      (''goal_ids'', PList (map PStr (ob_goal_ids ob)))]"

definition target_value :: "pyval \<Rightarrow> pyval option" where
  "target_value v =
     (case v of
        PStr s \<Rightarrow> if py_strip s \<noteq> [] then Some (PStr (take 240 s)) else None
      | PInt _ \<Rightarrow> Some v
      | PBool _ \<Rightarrow> Some v
      | _ \<Rightarrow> None)"

definition target_from_arguments :: "pydict \<Rightarrow> pydict" where
  "target_from_arguments arguments =
     (let target = List.map_filter (\<lambda>key. map_option (Pair key) (target_value (dget arguments key))) TARGET_KEYS
      in if target = [] then [(''scope'', PStr ''current_turn'')] else target)"

definition any_in :: "string list \<Rightarrow> string \<Rightarrow> bool" where
  "any_in tokens text = list_ex (\<lambda>token. py_contains token text) tokens"

definition failure_class :: "string \<Rightarrow> string \<Rightarrow> string" where
  "failure_class error_code error =
     (let code = py_upper error_code; txt = py_lower error in
      if code \<in> {''POLICY_BLOCKED'', ''FORBIDDEN''} \<or> any_in [''policy blocked'', ''security check failed''] txt
      then ''policy''
      else if code \<in> {''AUTHORIZATION_FAILED'', ''UNAUTHORIZED'', ''CREDENTIAL_ACCESS''}
              \<or> any_in [''unauthorized'', ''permission denied'', ''credential''] txt
      then ''authorization''
      else if py_contains ''CANCEL'' code then ''cancelled''
      else if py_contains ''UNCERTAIN'' code \<or> py_contains ''UNKNOWN_OUTCOME'' code then ''unknown_outcome''
      else if code \<in> {''ARGS_INVALID'', ''TOOL_ARGUMENT_VALIDATION_FAILED''}
              \<or> any_in [''ARG_'', ''MISSING_REQUIRED'', ''UNKNOWN_ARGUMENT''] code
              \<or> any_in [''invalid argument'', ''invalid query'', ''unknown action'', '' is required''] txt
      then ''invalid_arguments''
      else if any_in [''TIMEOUT'', ''RATE_LIMIT'', ''CONNECTION'', ''HTTP_5''] code
              \<or> any_in [''timeout'', ''timed out'', ''rate limit'', ''connection reset'', ''temporarily unavailable''] txt
      then ''transient''
      else if any_in [''NOT_FOUND'', ''UNSUPPORTED'', ''UNAVAILABLE'', ''REJECTED''] code
              \<or> any_in [''not found'', ''unsupported'', ''unavailable'', ''rejected'', ''does not exist''] txt
      then ''capability''
      else ''tool_failure'')"

definition observe :: "(llm_tool_call \<Rightarrow> bool) \<Rightarrow> llm_tool_call \<Rightarrow> tool_result \<Rightarrow> observation" where
  "observe is_read_only_call call result =
     (let out = as_dict (tr_output result);
          error_code = py_upper (py_strip (if tr_error_code result \<noteq> [] then tr_error_code result else gets out ''error_code''))
      in \<lparr>ob_call_id = (if tc_id call \<noteq> [] then tc_id call else tr_call_id result),
          ob_tool_id = canonical_tool_id (if tc_name call \<noteq> [] then tc_name call else tr_tool_name result),
          ob_action = gets_or (tc_arguments call) ''action'' ''observe'',
          ob_target = target_from_arguments (tc_arguments call),
          ob_ok = tr_ok result,
          ob_failure_class = (if tr_ok result then []
             else failure_class error_code (case tr_error result of None \<Rightarrow> [] | Some e \<Rightarrow> e)),
          ob_error_code = error_code,
          ob_read_only = is_read_only_call call,
          ob_execution_may_continue = (tr_execution_may_continue result \<or> py_truthy (dget out ''execution_may_continue'')),
          ob_goal_ids = tc_goal_ids call\<rparr>)"

section \<open>Goals\<close>

definition goal_event :: "string \<Rightarrow> string \<Rightarrow> string \<Rightarrow> string \<Rightarrow> pydict \<Rightarrow> pydict" where
  "goal_event event_type goal_id call_id reason extras =
     set_extras_list ''recovery_goal_events''
       (last_n 256 (extras_list extras ''recovery_goal_events'' @
          [PDict [(''type'', PStr event_type), (''goal_id'', PStr goal_id), (''call_id'', PStr call_id),
                  (''reason'', PStr reason)]])) extras"

definition resource_targets_compatible :: "pyval \<Rightarrow> pydict \<Rightarrow> bool" where
  "resource_targets_compatible expected actual \<longleftrightarrow>
     list_all (\<lambda>key. din key (as_dict expected) \<longrightarrow>
         din key actual \<and> py_eq (dget actual key) (dget (as_dict expected) key)) RESOURCE_TARGET_KEYS"

definition same_capability :: "pyval \<Rightarrow> observation \<Rightarrow> bool" where
  "same_capability goal ob \<longleftrightarrow>
     gets (as_dict goal) ''source_tool_id'' = ob_tool_id ob \<and> gets (as_dict goal) ''fact'' = ob_action ob"

definition compatible_observation :: "pyval \<Rightarrow> observation \<Rightarrow> bool" where
  "compatible_observation goal ob \<longleftrightarrow>
     same_capability goal ob \<and> resource_targets_compatible (goal_field goal ''target'') (ob_target ob)"

definition explicit_observation_compatible :: "pyval \<Rightarrow> observation \<Rightarrow> bool" where
  "explicit_observation_compatible goal ob \<longleftrightarrow>
     (if same_capability goal ob
      then resource_targets_compatible (goal_field goal ''target'') (ob_target ob)
      else
        let expected = as_dict (goal_field goal ''target'');
            shared = filter (\<lambda>key. din key expected \<and> din key (ob_target ob)) CROSS_CAPABILITY_TARGET_KEYS
        in shared \<noteq> [] \<and> list_all (\<lambda>key. py_eq (dget expected key) (dget (ob_target ob) key)) shared)"

definition is_conclusive_success :: "pydict \<Rightarrow> bool" where
  "is_conclusive_success out \<longleftrightarrow>
     (let status = py_lower (py_strip (gets out ''status''));
          coverage = py_lower (py_strip (gets out ''coverage_status'')) in
      dget out ''connection_ok'' \<noteq> PBool False
      \<and> status \<notin> {''unknown'', ''unavailable'', ''pending'', ''failed'', ''error''}
      \<and> coverage \<notin> {''unknown'', ''pending'', ''failed''})"

definition has_domain_recovery :: "pydict \<Rightarrow> bool" where
  "has_domain_recovery out \<longleftrightarrow>
     list_ex is_valid_recovery_directive (as_list (dget out ''runtime_recoveries''))
     \<or> is_valid_recovery_directive (dget out ''runtime_recovery'')"

definition should_install_goal :: "llm_tool_call \<Rightarrow> observation \<Rightarrow> pydict \<Rightarrow> bool" where
  "should_install_goal call ob out \<longleftrightarrow>
     ob_read_only ob \<and> tc_failure_policy call \<in> {[], ''replan''}
     \<and> \<not> py_truthy (dget out ''execution_may_continue'')
     \<and> ob_error_code ob \<notin> set TERMINAL_FAILURE_CODES
     \<and> ob_failure_class ob \<notin> {''policy'', ''authorization'', ''cancelled'', ''unknown_outcome''}"

definition runtime_goal_assertion :: "string \<Rightarrow> pyval" where
  "runtime_goal_assertion goal_id = PDict
     [(''assertion_id'', PStr (''runtime-goal:'' @ goal_id)),
      (''kind'', PStr ''runtime_goal_satisfied''),
      (''runtime_owned_recovery'', PBool True),
      (''goal_id'', PStr goal_id)]"

definition tool_goal_id :: "(string \<Rightarrow> string) \<Rightarrow> observation \<Rightarrow> string" where
  "tool_goal_id sha256 ob =
     ''tool-goal-'' @ take 20 (sha256 (json_sorted (PDict
       [(''source_call_id'', PStr (ob_call_id ob)), (''tool_id'', PStr (ob_tool_id ob)),
        (''action'', PStr (ob_action ob)), (''target'', PDict (ob_target ob))])))"

definition tool_goal :: "(string \<Rightarrow> string) \<Rightarrow> observation \<Rightarrow> pyval" where
  "tool_goal sha256 ob = PDict
     [(''goal_id'', PStr (tool_goal_id sha256 ob)),
      (''goal_type'', PStr ''tool_recovery''),
      (''evidence_kind'', PStr ''tool_observation''),
      (''target'', PDict (ob_target ob)),
      (''fact'', PStr (ob_action ob)),
      (''description'', PStr (''Resolve failed '' @ ob_tool_id ob @ '' observation'')),
      (''source_call_id'', PStr (ob_call_id ob)),
      (''source_tool_id'', PStr (ob_tool_id ob)),
      (''failure_class'', PStr (ob_failure_class ob)),
      (''strategy_candidates'', PList (strategy_candidates DEFAULT_RECOVERY_STRATEGIES (ob_failure_class ob))),
      (''status'', PStr ''pending''),
      (''attempts'', PInt 1),
      (''attempt_call_ids'', PList [PStr (ob_call_id ob)])]"

definition install_generic_goal :: "(string \<Rightarrow> string) \<Rightarrow> observation \<Rightarrow> pydict \<Rightarrow> pydict" where
  "install_generic_goal sha256 ob extras =
     (let goal_id = tool_goal_id sha256 ob;
          goals = extras_list extras ''recovery_goals'' in
      if list_ex (has_goal_id goal_id) goals then set_extras_list ''recovery_goals'' goals extras
      else
        let extras1 = set_extras_list ''recovery_goals'' (goals @ [tool_goal sha256 ob]) extras;
            extras2 = set_extras_list ''goal_assertions''
              (extras_list extras1 ''goal_assertions'' @ [runtime_goal_assertion goal_id]) extras1
        in goal_event ''goal_installed'' goal_id (ob_call_id ob) (ob_failure_class ob) extras2)"

definition pending_tool_goal :: "pyval \<Rightarrow> bool" where
  "pending_tool_goal g \<longleftrightarrow>
     is_dict g \<and> goal_field g ''goal_type'' = PStr ''tool_recovery'' \<and> goal_field g ''status'' = PStr ''pending''"

text \<open>The goals that a successful observation closes: those it names and is compatible with, else the
  one goal that it retries, when that is unambiguous.\<close>

definition resolve_matches :: "pyval list \<Rightarrow> string list \<Rightarrow> observation \<Rightarrow> pyval \<Rightarrow> bool" where
  "resolve_matches goals goal_ids ob =
     (let explicit = (\<lambda>g. pending_tool_goal g \<and> py_str (goal_field g ''goal_id'') \<in> set (filter (\<lambda>s. s \<noteq> []) goal_ids)
                          \<and> explicit_observation_compatible g ob);
          compatible = (\<lambda>g. pending_tool_goal g \<and> compatible_observation g ob) in
      if list_ex explicit goals then explicit
      else if length (filter compatible goals) = 1 then compatible
      else (\<lambda>_. False))"

definition resolve_goal :: "observation \<Rightarrow> pyval \<Rightarrow> pyval" where
  "resolve_goal ob g = PDict (dupdate (as_dict g)
     [(''status'', PStr ''passed''), (''resolved_by_call_id'', PStr (ob_call_id ob)),
      (''resolved_by_tool_id'', PStr (ob_tool_id ob))])"

definition resolve_goals_from_success :: "llm_tool_call \<Rightarrow> observation \<Rightarrow> pydict \<Rightarrow> pydict res" where
  "resolve_goals_from_success call ob extras =
     (let goals = extras_list extras ''recovery_goals'';
          closes = resolve_matches goals (tc_goal_ids call) ob;
          matches = filter closes goals in
      if matches = [] then Inr extras
      else
        rbind (rmapM (\<lambda>g. case map_of (as_dict g) ''goal_id'' of None \<Rightarrow> Inl (KeyError ''goal_id'') | Some v \<Rightarrow> Inr (py_str v)) matches) (\<lambda>ids.
        Inr (fold (\<lambda>i. goal_event ''goal_satisfied'' i (ob_call_id ob) ''successful_observation'') ids
          (set_extras_list ''recovery_goals'' (map (\<lambda>g. if closes g then resolve_goal ob g else g) goals) extras))))"

definition block_goal :: "string list \<Rightarrow> observation \<Rightarrow> pyval \<Rightarrow> pyval res" where
  "block_goal explicit ob g =
     (if \<not> is_dict g \<or> py_str (goal_field g ''goal_id'') \<notin> set explicit \<or> goal_field g ''status'' \<noteq> PStr ''pending''
      then Inr g
      else
        rbind (py_int (py_or (goal_field g ''attempts'') (PInt 1))) (\<lambda>n.
        case dget_or (as_dict g) ''attempt_call_ids'' (PList []) of
          PList ids \<Rightarrow> Inr (PDict (dset ''attempt_call_ids'' (PList (ids @ [PStr (ob_call_id ob)]))
                         (dset ''attempts'' (PInt (n + 1)) (as_dict g))))
        | _ \<Rightarrow> Inl (AttributeError ''append'')))"

definition mark_explicit_goals_blocked :: "llm_tool_call \<Rightarrow> observation \<Rightarrow> pydict \<Rightarrow> pydict res" where
  "mark_explicit_goals_blocked call ob extras =
     (let explicit = filter (\<lambda>s. s \<noteq> []) (tc_goal_ids call) in
      if explicit = [] then Inr extras
      else
        (case dget extras ''recovery_goals'' of
           PList goals \<Rightarrow> rbind (rmapM (block_goal explicit ob) goals) (\<lambda>goals'.
             Inr (set_extras_list ''recovery_goals'' goals' extras))
         | _ \<Rightarrow> Inr extras))"

section \<open>One round of tool results\<close>

definition record_observation :: "observation \<Rightarrow> pydict \<Rightarrow> pydict" where
  "record_observation ob extras =
     set_extras_list ''goal_loop_observations''
       (last_n 256 (extras_list extras ''goal_loop_observations'' @ [observation_dict ob])) extras"

definition observe_one ::
  "(string \<Rightarrow> string) \<Rightarrow> (llm_tool_call \<Rightarrow> bool) \<Rightarrow> llm_tool_call \<times> tool_result \<Rightarrow> pydict \<Rightarrow> pydict res" where
  "observe_one sha256 is_read_only_call = (\<lambda>(call, result) extras0.
     let out = as_dict (tr_output result);
         ob = observe is_read_only_call call result;
         extras = record_observation ob extras0 in
     if tr_ok result then
       (if ob_read_only ob \<and> \<not> ob_execution_may_continue ob \<and> is_conclusive_success out
        then resolve_goals_from_success call ob extras else Inr extras)
     else if has_domain_recovery out then Inr extras
     else if tc_goal_ids call \<noteq> [] then mark_explicit_goals_blocked call ob extras
     else if should_install_goal call ob out then Inr (install_generic_goal sha256 ob extras)
     else Inr extras)"

definition observe_tool_round ::
  "(string \<Rightarrow> string) \<Rightarrow> (llm_tool_call \<Rightarrow> bool) \<Rightarrow> llm_tool_call list \<Rightarrow> tool_result list \<Rightarrow> pydict \<Rightarrow> pydict res" where
  "observe_tool_round sha256 is_read_only_call tool_calls tool_results extras =
     rfold (observe_one sha256 is_read_only_call) (zip tool_calls tool_results)
       (set_extras_list ''goal_loop_observations'' (extras_list extras ''goal_loop_observations'') extras)"

section \<open>Superseding, restoring and summarising goals\<close>

definition supersede_goal :: "string list \<Rightarrow> pyval \<Rightarrow> pyval" where
  "supersede_goal completion_call_ids g =
     (if pending_tool_goal g
      then PDict (dupdate (as_dict g)
             [(''status'', PStr ''superseded''), (''superseded_by'', PStr ''completion_evidence''),
              (''completion_call_ids'', PList (map PStr (sorted_set completion_call_ids)))])
      else g)"

definition supersede_generic_goals_after_completion_evidence :: "string list \<Rightarrow> pydict \<Rightarrow> pydict \<times> string list" where
  "supersede_generic_goals_after_completion_evidence completion_call_ids extras =
     (case dget extras ''recovery_goals'' of
        PList goals \<Rightarrow>
          (let completed = filter (\<lambda>s. s \<noteq> []) (map (\<lambda>g. gets (as_dict g) ''goal_id'') (filter pending_tool_goal goals));
               extras1 = set_extras_list ''recovery_goals'' (map (supersede_goal completion_call_ids) goals) extras
           in (fold (\<lambda>i. goal_event ''goal_superseded'' i (py_join '','' (sorted_set completion_call_ids))
                  ''requested_outcome_proven'') completed extras1, completed))
      | _ \<Rightarrow> (extras, []))"

definition summary_status :: "pyval \<Rightarrow> string" where
  "summary_status goal =
     (let raw_status = gets_or (as_dict goal) ''status'' ''pending''
      in if raw_status \<in> {''passed'', ''blocked'', ''superseded''} then raw_status else ''pending'')"

definition goal_loop_summary :: "pydict \<Rightarrow> string \<times> (string \<times> nat) list \<times> pyval list" where
  "goal_loop_summary extras =
     (let goals = filter is_dict (extras_list extras ''recovery_goals'');
          cnt = (\<lambda>s. length (filter (\<lambda>g. summary_status g = s) goals))
      in ((if cnt ''blocked'' \<noteq> 0 then ''blocked''
           else if cnt ''pending'' \<noteq> 0 then ''pending''
           else if goals \<noteq> [] then ''passed'' else ''not_required''),
          map (\<lambda>s. (s, cnt s)) [''pending'', ''passed'', ''blocked'', ''superseded''],
          goals))"

definition hydrated_assertion :: "pyval \<Rightarrow> pyval option" where
  "hydrated_assertion goal =
     (let goal_id = py_str (goal_field goal ''goal_id'') in
      if goal_field goal ''goal_type'' = PStr ''tool_recovery'' then Some (runtime_goal_assertion goal_id)
      else if py_truthy (goal_field goal ''evidence_kind'')
      then Some (evidence_assertion goal_id (gets (as_dict goal) ''evidence_kind'')
             (as_dict (goal_field goal ''target'')) (gets (as_dict goal) ''fact''))
      else None)"

definition hydrate_goal_loop :: "pyval \<Rightarrow> pydict \<Rightarrow> pydict" where
  "hydrate_goal_loop trusted_contract extras =
     (if \<not> is_dict trusted_contract \<or> py_truthy (dget extras ''recovery_goals'') then extras
      else
        let restored = filter (\<lambda>item. is_dict item
               \<and> goal_field item ''status'' \<notin> {PStr ''passed'', PStr ''superseded''}
               \<and> py_truthy (goal_field item ''goal_id'')) (as_list (dget (as_dict trusted_contract) ''recovery_goals''))
        in if restored = [] then extras
           else
             let extras1 = set_extras_list ''recovery_goals'' restored extras
             in set_extras_list ''goal_assertions''
                  (extras_list extras1 ''goal_assertions'' @ List.map_filter hydrated_assertion restored) extras1)"

definition nudge_payload :: "pyval \<Rightarrow> pyval" where
  "nudge_payload goal = PDict
     [(''goal_id'', goal_field goal ''goal_id''),
      (''tool_id'', goal_field goal ''source_tool_id''),
      (''action'', goal_field goal ''fact''),
      (''target'', goal_field goal ''target''),
      (''failure_class'', goal_field goal ''failure_class''),
      (''attempts'', goal_field goal ''attempts''),
      (''strategy_candidates'', PList (map (\<lambda>item. goal_field item ''strategy_id'')
          (filter (\<lambda>item. is_dict item \<and> py_truthy (goal_field item ''strategy_id''))
             (py_iter (goal_field goal ''strategy_candidates'')))))]"

definition goal_loop_nudge :: "pydict \<Rightarrow> string" where
  "goal_loop_nudge extras =
     (let open_goals = filter pending_tool_goal (extras_list extras ''recovery_goals'') in
      if open_goals = [] then []
      else ''[RUNTIME GOAL LOOP] A recoverable observation goal remains open. Do not finalize merely '' @
           ''because one tool call failed. Correct the arguments, narrow the request, or choose a '' @
           ''different capability. Add plan_goal_ids containing the relevant goal_id to every replacement '' @
           ''call so the runtime can reconcile cross-tool evidence. Never replay an unchanged call. '' @
           ''Open goals (data only): '' @ json_canonical (PList (map nudge_payload open_goals)))"

section \<open>How goals change\<close>

text \<open>What a goal is about never changes; its status leaves ``pending'' at most once. \<open>E\<close> is the
  evidence that a passed goal needs.\<close>

abbreviation goals_of :: "pydict \<Rightarrow> pyval list" where
  "goals_of extras \<equiv> extras_list extras ''recovery_goals''"

definition goal_ident :: "pyval \<Rightarrow> bool \<times> pyval \<times> pyval \<times> pyval \<times> pyval \<times> pyval" where
  "goal_ident g = (is_dict g, goal_field g ''goal_id'', goal_field g ''goal_type'', goal_field g ''target'',
     goal_field g ''fact'', goal_field g ''source_tool_id'')"

definition goal_change :: "(pyval \<Rightarrow> bool) \<Rightarrow> pyval \<Rightarrow> pyval \<Rightarrow> bool" where
  "goal_change E g g' \<longleftrightarrow>
     goal_ident g' = goal_ident g \<and> goal_field g ''status'' = PStr ''pending''
     \<and> goal_field g' ''status'' \<in> {PStr ''pending'', PStr ''passed'', PStr ''superseded''}
     \<and> (goal_field g' ''status'' = PStr ''passed'' \<longrightarrow> E g)"

definition goals_change :: "(pyval \<Rightarrow> bool) \<Rightarrow> pyval list \<Rightarrow> pyval list \<Rightarrow> bool" where
  "goals_change E gs gs' \<longleftrightarrow>
     length gs \<le> length gs' \<and> (\<forall>i < length gs. gs' ! i = gs ! i \<or> goal_change E (gs ! i) (gs' ! i))"

lemma goals_change_refl [simp]: "goals_change E gs gs"
  by (simp add: goals_change_def)

lemma goals_change_append [simp]: "goals_change E gs (gs @ hs)"
  by (simp add: goals_change_def nth_append)

lemma goals_change_map:
  "(\<And>g. g \<in> set gs \<Longrightarrow> f g = g \<or> goal_change E g (f g)) \<Longrightarrow> goals_change E gs (map f gs)"
  by (simp add: goals_change_def)

lemma goals_change_list_all2:
  "list_all2 (\<lambda>g g'. g' = g \<or> goal_change E g g') gs gs' \<Longrightarrow> goals_change E gs gs'"
  by (auto simp: goals_change_def list_all2_conv_all_nth)

lemma goals_change_trans:
  assumes "goals_change E gs gs'" "goals_change E' gs' gs''"
    and "\<And>g g'. goal_ident g = goal_ident g' \<Longrightarrow> E' g = E' g'"
    and "\<And>g. E g \<Longrightarrow> E' g"
  shows "goals_change E' gs gs''"
proof -
  have "gs'' ! i = gs ! i \<or> goal_change E' (gs ! i) (gs'' ! i)" if i: "i < length gs" for i
  proof -
    from i assms(1) have "gs' ! i = gs ! i \<or> goal_change E (gs ! i) (gs' ! i)" "i < length gs'"
      by (auto simp: goals_change_def)
    moreover from this(2) assms(2) have "gs'' ! i = gs' ! i \<or> goal_change E' (gs' ! i) (gs'' ! i)"
      by (auto simp: goals_change_def)
    ultimately show ?thesis
      using assms(3) [of "gs ! i" "gs' ! i"] assms(4) [of "gs ! i"] by (auto simp: goal_change_def)
  qed
  with assms(1,2) show ?thesis by (auto simp: goals_change_def)
qed

lemma goals_of_simps [simp]:
  "goals_of (goal_event t i c r extras) = goals_of extras"
  "goals_of (record_observation ob extras) = goals_of extras"
  by (simp_all add: goal_event_def record_observation_def)

lemma goals_of_events [simp]: "goals_of (fold (\<lambda>i. goal_event t i c r) ids extras) = goals_of extras"
  by (induction ids arbitrary: extras) simp_all

lemma goal_field_PDict_dset [simp]:
  "goal_field (PDict (dset k v d)) k' = (if k' = k then v else goal_field (PDict d) k')"
  by (simp add: goal_field_def pysimps)

lemma goal_field_PDict_as_dict [simp]: "is_dict g \<Longrightarrow> goal_field (PDict (as_dict g)) k = goal_field g k"
  by (simp add: goal_field_def)

text \<open>The evidence that closes a goal: a conclusive, finished, successful read by a call that names the
  goal or repeats its capability, on a compatible target.\<close>

definition closing_evidence :: "(llm_tool_call \<Rightarrow> bool) \<Rightarrow> llm_tool_call \<times> tool_result \<Rightarrow> pyval \<Rightarrow> bool" where
  "closing_evidence is_read_only_call = (\<lambda>(call, result) g.
     let ob = observe is_read_only_call call result in
     tr_ok result \<and> is_read_only_call call \<and> \<not> ob_execution_may_continue ob
     \<and> is_conclusive_success (as_dict (tr_output result))
     \<and> explicit_observation_compatible g ob
     \<and> (py_str (goal_field g ''goal_id'') \<in> set (tc_goal_ids call) \<or> same_capability g ob))"

lemma same_capability_cong: "goal_ident g = goal_ident g' \<Longrightarrow> same_capability g ob = same_capability g' ob"
  by (simp add: same_capability_def goal_ident_def gets_def gets_or_def goal_field_def)

lemma explicit_compatible_cong:
  "goal_ident g = goal_ident g' \<Longrightarrow> explicit_observation_compatible g ob = explicit_observation_compatible g' ob"
  using same_capability_cong [of g g']
  by (simp add: explicit_observation_compatible_def goal_ident_def)

lemma closing_evidence_cong:
  assumes "goal_ident g = goal_ident g'"
  shows "closing_evidence ro p g = closing_evidence ro p g'"
proof -
  have "goal_field g ''goal_id'' = goal_field g' ''goal_id''" using assms by (simp add: goal_ident_def)
  then show ?thesis
    by (simp add: closing_evidence_def Let_def explicit_compatible_cong [OF assms] same_capability_cong [OF assms]
        split: prod.splits)
qed

lemma resolve_matches_sound:
  assumes "resolve_matches goals ids ob g"
  shows "pending_tool_goal g \<and> explicit_observation_compatible g ob
    \<and> (py_str (goal_field g ''goal_id'') \<in> set ids \<or> same_capability g ob)"
  using assms
  by (auto simp: resolve_matches_def Let_def compatible_observation_def explicit_observation_compatible_def
      split: if_splits)

lemma resolve_goal_change:
  assumes "pending_tool_goal g" "E g"
  shows "goal_change E g (resolve_goal ob g)"
  using assms by (simp add: goal_change_def resolve_goal_def goal_ident_def pending_tool_goal_def)

lemma resolve_goals_change:
  assumes "resolve_goals_from_success call ob extras = Inr extras'"
    and "\<And>g. pending_tool_goal g \<Longrightarrow> explicit_observation_compatible g ob \<Longrightarrow>
          py_str (goal_field g ''goal_id'') \<in> set (tc_goal_ids call) \<or> same_capability g ob \<Longrightarrow> E g"
  shows "goals_change E (goals_of extras) (goals_of extras')"
proof (cases "filter (resolve_matches (goals_of extras) (tc_goal_ids call) ob) (goals_of extras) = []")
  case True
  with assms(1) show ?thesis by (simp add: resolve_goals_from_success_def)
next
  case False
  let ?m = "resolve_matches (goals_of extras) (tc_goal_ids call) ob"
  from assms(1) False have "goals_of extras' = map (\<lambda>g. if ?m g then resolve_goal ob g else g) (goals_of extras)"
    by (auto simp: resolve_goals_from_success_def Let_def)
  then show ?thesis
    using resolve_matches_sound assms(2) by (auto intro!: goals_change_map resolve_goal_change)
qed

lemma block_goal_change:
  assumes "block_goal ids ob g = Inr g'"
  shows "g' = g \<or> goal_change E g g'"
  using assms
  by (cases "dget_or (as_dict g) ''attempt_call_ids'' (PList [])")
    (auto simp: block_goal_def goal_change_def goal_ident_def split: if_splits)

lemma mark_blocked_change:
  assumes "mark_explicit_goals_blocked call ob extras = Inr extras'"
  shows "goals_change E (goals_of extras) (goals_of extras')"
proof (cases "\<exists>goals. dget extras ''recovery_goals'' = PList goals \<and> filter (\<lambda>s. s \<noteq> []) (tc_goal_ids call) \<noteq> []")
  case True
  then obtain goals where g: "dget extras ''recovery_goals'' = PList goals" and ne: "filter (\<lambda>s. s \<noteq> []) (tc_goal_ids call) \<noteq> []" by blast
  with assms obtain goals' where "rmapM (block_goal (filter (\<lambda>s. s \<noteq> []) (tc_goal_ids call)) ob) goals = Inr goals'"
    and "goals_of extras' = goals'" by (auto simp: mark_explicit_goals_blocked_def)
  from rmapM_Inr [OF this(1)] this(2) g show ?thesis
    by (auto simp: extras_list_def intro!: goals_change_list_all2 elim!: list.rel_mono_strong dest: block_goal_change)
next
  case False
  with assms have "extras' = extras"
    by (cases "dget extras ''recovery_goals''") (auto simp: mark_explicit_goals_blocked_def Let_def split: if_splits)
  then show ?thesis by simp
qed

lemma install_generic_change: "goals_change E (goals_of extras) (goals_of (install_generic_goal sha256 ob extras))"
  by (simp add: install_generic_goal_def Let_def)

lemma observe_one_change:
  assumes "observe_one sha256 ro p extras = Inr extras'"
  shows "goals_change (closing_evidence ro p) (goals_of extras) (goals_of extras')"
proof -
  obtain call result where p: "p = (call, result)" by (cases p)
  let ?ob = "observe ro call result"
  let ?x = "record_observation ?ob extras"
  have ro: "ob_read_only ?ob = ro call" by (simp add: observe_def Let_def)
  note step = assms [unfolded observe_one_def p prod.case Let_def ro]
  show ?thesis
  proof (cases "tr_ok result \<and> ro call \<and> \<not> ob_execution_may_continue ?ob \<and> is_conclusive_success (as_dict (tr_output result))")
    case True
    with step have "resolve_goals_from_success call ?ob ?x = Inr extras'" by simp
    then have "goals_change (closing_evidence ro p) (goals_of ?x) (goals_of extras')"
      by (rule resolve_goals_change) (use True in \<open>auto simp: closing_evidence_def p Let_def\<close>)
    then show ?thesis by simp
  next
    case False
    with step have "extras' = ?x \<or> extras' = install_generic_goal sha256 ?ob ?x
        \<or> mark_explicit_goals_blocked call ?ob ?x = Inr extras'"
      by (simp split: if_split_asm)
    then show ?thesis
      using install_generic_change [of _ ?x] mark_blocked_change [of call ?ob ?x] by auto
  qed
qed

lemma observe_tool_round_change:
  assumes "observe_tool_round sha256 ro calls results extras = Inr extras'"
  shows "goals_change (\<lambda>g. \<exists>p \<in> set (zip calls results). closing_evidence ro p g) (goals_of extras) (goals_of extras')"
proof -
  let ?E = "\<lambda>g. \<exists>p \<in> set (zip calls results). closing_evidence ro p g"
  have cong: "goal_ident g = goal_ident g' \<Longrightarrow> ?E g = ?E g'" for g g'
    using closing_evidence_cong by blast
  show ?thesis
  proof (rule rfold_invariant [OF assms [unfolded observe_tool_round_def], where P = "\<lambda>e. goals_change ?E (goals_of extras) (goals_of e)"])
    fix p s s'
    assume p: "p \<in> set (zip calls results)" and s: "goals_change ?E (goals_of extras) (goals_of s)"
      and step: "observe_one sha256 ro p s = Inr s'"
    from observe_one_change [OF step] p have "goals_change ?E (goals_of s) (goals_of s')"
      by (auto simp: goals_change_def goal_change_def)
    with s show "goals_change ?E (goals_of extras) (goals_of s')"
      by (rule goals_change_trans [OF _ _ cong])
  qed simp
qed

lemma supersede_change:
  "goals_change E (goals_of extras) (goals_of (fst (supersede_generic_goals_after_completion_evidence ids extras)))"
proof (cases "dget extras ''recovery_goals''")
  case (PList goals)
  have "supersede_goal ids g = g \<or> goal_change E g (supersede_goal ids g)" for g
    by (simp add: supersede_goal_def goal_change_def goal_ident_def pending_tool_goal_def)
  with PList show ?thesis
    by (auto simp: supersede_generic_goals_after_completion_evidence_def Let_def extras_list_def [of extras]
        intro!: goals_change_map)
qed (simp_all add: supersede_generic_goals_after_completion_evidence_def)


lemma install_recovery_change:
  "goals_change E (goals_of extras) (goals_of (fst (install_recovery_goal sha256 directive src extras)))"
  by (simp add: install_recovery_goal_def Let_def split: option.splits)

lemma hydrate_change: "goals_change E (goals_of extras) (goals_of (hydrate_goal_loop contract extras))"
proof (cases "py_truthy (dget extras ''recovery_goals'')")
  case True
  then show ?thesis by (simp add: hydrate_goal_loop_def)
next
  case False
  then have "goals_of extras = []" by (cases "dget extras ''recovery_goals''") (auto simp: extras_list_def)
  then show ?thesis by (simp add: goals_change_def)
qed

section \<open>Histories of the goal loop\<close>

datatype goal_op =
    Round "llm_tool_call list" "tool_result list"
  | Supersede "string list"
  | Declare pydict string
  | Hydrate pyval

definition goal_step :: "(string \<Rightarrow> string) \<Rightarrow> (llm_tool_call \<Rightarrow> bool) \<Rightarrow> goal_op \<Rightarrow> pydict \<Rightarrow> pydict" where
  "goal_step sha256 ro op extras =
     (case op of
        Round calls results \<Rightarrow> (case observe_tool_round sha256 ro calls results extras of Inl _ \<Rightarrow> extras | Inr e \<Rightarrow> e)
      | Supersede ids \<Rightarrow> fst (supersede_generic_goals_after_completion_evidence ids extras)
      | Declare directive src \<Rightarrow> fst (install_recovery_goal sha256 directive src extras)
      | Hydrate contract \<Rightarrow> hydrate_goal_loop contract extras)"

definition goal_at :: "pydict \<Rightarrow> nat \<Rightarrow> pyval option" where
  "goal_at extras i = (if i < length (goals_of extras) then Some (goals_of extras ! i) else None)"

lemma goal_step_change: "goals_change (\<lambda>_. True) (goals_of extras) (goals_of (goal_step sha256 ro op extras))"
proof (cases op)
  case (Round calls results)
  have weaken: "goals_change E gs gs' \<Longrightarrow> goals_change (\<lambda>_. True) gs gs'" for E gs gs'
    by (auto simp: goals_change_def goal_change_def)
  show ?thesis
    by (cases "observe_tool_round sha256 ro calls results extras")
      (auto simp: goal_step_def Round intro: weaken [OF observe_tool_round_change])
qed (simp_all add: goal_step_def supersede_change install_recovery_change hydrate_change)

interpretation goal_loop: status_machine goal_at "goal_step sha256 ro" "goal_change (\<lambda>_. True)" for sha256 ro
proof
  fix st i s op
  assume "goal_at st i = Some s"
  then have i: "i < length (goals_of st)" "goals_of st ! i = s" by (auto simp: goal_at_def split: if_splits)
  with goal_step_change [of st sha256 ro op]
  show "\<exists>s'. goal_at (goal_step sha256 ro op st) i = Some s' \<and> (s' = s \<or> goal_change (\<lambda>_. True) s s')"
    by (auto simp: goals_change_def goal_at_def)
qed

text \<open>The history of a recovery goal: it keeps its place, and whatever rounds, supersessions, handler
  declarations and restorations follow, a goal that is not pending any more is never touched again.\<close>

theorem closed_goal_is_final:
  assumes "goal_at extras i = Some g" and "goal_field g ''status'' \<noteq> PStr ''pending''"
  shows "goal_at (fold (goal_step sha256 ro) ops extras) i = Some g"
  using goal_loop.terminal_is_final [OF assms(1)] assms(2) by (simp add: goal_change_def)

theorem closed_goal_is_final_witness:
  "goal_at (fold (goal_step (\<lambda>s. s) (\<lambda>_. True)) [Supersede [''c'']]
      [(''recovery_goals'', PList [PDict [(''goal_id'', PStr ''g''), (''status'', PStr ''passed'')]])]) 0
   = Some (PDict [(''goal_id'', PStr ''g''), (''status'', PStr ''passed'')])"
  by (rule closed_goal_is_final) (simp_all add: goal_at_def extras_list_def goal_field_def)

text \<open>C26: A pending goal becomes passed in a round of tool results only through closing evidence in that
  round: a successful, conclusive, finished, read-only call on a compatible target that either names
  the goal or repeats the failed capability. Its identity is unchanged.\<close>

theorem goal_passes_only_by_evidence:
  assumes "observe_tool_round sha256 ro calls results extras = Inr extras'"
    and "goal_at extras i = Some g" and "goal_field g ''status'' \<noteq> PStr ''passed''"
    and "goal_at extras' i = Some g'" and "goal_field g' ''status'' = PStr ''passed''"
  shows "goal_ident g' = goal_ident g \<and> (\<exists>p \<in> set (zip calls results). closing_evidence ro p g)"
  using observe_tool_round_change [OF assms(1)] assms(2-)
  by (auto simp: goals_change_def goal_change_def goal_at_def split: if_splits)

definition witness_call :: "llm_tool_call" where
  "witness_call = LLMToolCall ''c2'' ''fs__read'' [(''action'', PStr ''read'')]"

definition witness_result :: "tool_result" where
  "witness_result = \<lparr>tr_tool_name = ''fs.read'', tr_call_id = ''c2'', tr_output = PDict [], tr_ok = True, tr_error = None,
     tr_error_code = [], tr_execution_may_continue = False, tr_summary = []\<rparr>"

definition witness_goal :: "string \<Rightarrow> pyval" where
  "witness_goal status = PDict
     [(''goal_id'', PStr ''g''), (''goal_type'', PStr ''tool_recovery''), (''target'', PDict []),
      (''fact'', PStr ''read''), (''source_tool_id'', PStr ''fs.read''), (''status'', PStr status)]"

theorem goal_passes_only_by_evidence_witness:
  "closing_evidence (\<lambda>_. True) (witness_call, witness_result) (witness_goal ''pending'')"
proof -
  let ?x = "[(''recovery_goals'', PList [witness_goal ''pending''])]"
  let ?r = "observe_tool_round (\<lambda>s. s) (\<lambda>_. True) [witness_call] [witness_result] ?x"
  have "\<not> isl ?r" by code_simp
  then have r: "?r = Inr (projr ?r)" by simp
  have e: "goal_at (projr ?r) 0 = Some (hd (goals_of (projr ?r)))"
    "goal_field (hd (goals_of (projr ?r))) ''status'' = PStr ''passed''" by code_simp+
  have g: "goal_at ?x 0 = Some (witness_goal ''pending'')" "goal_field (witness_goal ''pending'') ''status'' \<noteq> PStr ''passed''"
    by code_simp+
  from goal_passes_only_by_evidence [OF r g e] show ?thesis by simp
qed

section \<open>From a failed read to the final gate\<close>

lemma dget_goal_event [simp]:
  "k \<noteq> ''recovery_goal_events'' \<Longrightarrow> dget (goal_event t i c r extras) k = dget extras k"
  by (simp add: goal_event_def set_extras_list_def pysimps)

lemma tool_goal_fields:
  "goal_field (tool_goal sha256 ob) ''goal_id'' = PStr (tool_goal_id sha256 ob)"
  "goal_field (tool_goal sha256 ob) ''status'' = PStr ''pending''"
  "is_dict (tool_goal sha256 ob)"
  by (simp_all add: tool_goal_def goal_field_def)

lemma same_goal_tool_goal [simp]: "same_goal (tool_goal_id sha256 ob) (tool_goal sha256 ob)"
  by (simp add: same_goal_def tool_goal_def gets_def gets_or_def tool_goal_id_def)

lemma find_append_None: "\<not> list_ex P xs \<Longrightarrow> find P (xs @ ys) = find P ys"
  by (induction xs) auto

lemma install_generic_fresh:
  assumes "\<not> list_ex (same_goal (tool_goal_id sha256 ob)) (goals_of extras)"
  shows "dget (install_generic_goal sha256 ob extras) ''recovery_goals'' = PList (goals_of extras @ [tool_goal sha256 ob])"
    and "dget (install_generic_goal sha256 ob extras) ''goal_assertions'' =
      PList (extras_list extras ''goal_assertions'' @ [runtime_goal_assertion (tool_goal_id sha256 ob)])"
proof -
  have "has_goal_id i g \<Longrightarrow> same_goal i g" for i g
    by (auto simp: has_goal_id_def same_goal_def gets_eq_of_dget)
  with assms have "\<not> list_ex (has_goal_id (tool_goal_id sha256 ob)) (goals_of extras)"
    by (auto simp: list_ex_iff)
  then show "dget (install_generic_goal sha256 ob extras) ''recovery_goals'' = PList (goals_of extras @ [tool_goal sha256 ob])"
    and "dget (install_generic_goal sha256 ob extras) ''goal_assertions'' =
      PList (extras_list extras ''goal_assertions'' @ [runtime_goal_assertion (tool_goal_id sha256 ob)])"
    by (simp_all add: install_generic_goal_def Let_def set_extras_list_def pysimps extras_list_def)
qed

text \<open>A pending goal with its assertion keeps the gate closed.\<close>

lemma open_goal_unresolved:
  assumes goals: "dget extras ''recovery_goals'' = PList (gs @ [g])" and "same_goal i g" "i \<noteq> []"
    and fresh: "\<not> list_ex (same_goal i) gs" and pending: "goal_field g ''status'' = PStr ''pending''"
    and asserts: "dget extras ''goal_assertions'' = PList (as @ [runtime_goal_assertion i])"
  shows "evaluated_assertion extras rs (as_dict (runtime_goal_assertion i)) \<in> set (gate_unresolved extras rs)"
    and "goals_by_id extras i \<noteq> None"
proof -
  let ?a = "as_dict (runtime_goal_assertion i)"
  have byid: "goals_by_id extras i = Some (as_dict g)"
    using assms by (simp add: goals_by_id_def)
  then show "goals_by_id extras i \<noteq> None" by simp
  have f: "gets ?a ''goal_id'' = i" "gets ?a ''assertion_id'' = ''runtime-goal:'' @ i" "assertion_kind ?a = ''runtime_goal_satisfied''"
    "dget ?a ''runtime_owned_recovery'' = PBool True"
    by (simp_all add: runtime_goal_assertion_def gets_def gets_or_def assertion_kind_def)
  have conf: "?a \<in> set (configured_assertions extras)"
    using asserts by (auto simp: configured_assertions_def runtime_goal_assertion_def)
  have "find (\<lambda>item. is_dict item \<and> gets (as_dict item) ''goal_id'' = i) (gs @ [g]) = Some g"
    using assms(2) fresh find_append_None [of "same_goal i" gs "[g]"] by (simp add: same_goal_def [abs_def])
  then have "runtime_goal_status extras ?a = ''unknown''"
    using pending by (simp add: runtime_goal_status_def f goals gets_or_def goal_field_def py_lower_def char_lower_def)
  then have st: "assertion_status extras rs ?a = ''unknown''"
    by (simp add: assertion_status_def f Let_def)
  have "runtime_owned extras ?a"
    using pending by (simp add: runtime_owned_def f byid goal_field_def)
  from runtime_owned_id [OF conf this] have "''runtime-goal:'' @ i \<in> set (recovery_ids extras)" by (simp add: f)
  moreover have "evaluated_assertion extras rs ?a \<in> set (evaluated_assertions (evaluate_goal_assertions extras rs))"
    using conf by (auto simp: evaluated_assertions_def evaluate_goal_assertions_def Let_def image_image)
  moreover have "dget (evaluated_assertion extras rs ?a) ''assertion_id'' = PStr (''runtime-goal:'' @ i)"
    "dget (evaluated_assertion extras rs ?a) ''status'' = PStr ''unknown''"
    by (simp_all add: evaluated_assertion_def Let_def st) (simp add: runtime_goal_assertion_def gets_or_def)
  ultimately show "evaluated_assertion extras rs ?a \<in> set (gate_unresolved extras rs)"
    by (auto simp: gate_unresolved_def)
qed

text \<open>C27: A failed read that the runtime may recover (no terminal failure, no domain recovery, no named
  goals, policy ``replan'') keeps the turn from ending: right after its round the final gate rejects
  any proposed answer.\<close>

theorem failed_read_blocks_final_answer:
  assumes "\<not> tr_ok result" and "\<not> has_domain_recovery (as_dict (tr_output result))" and "tc_goal_ids call = []"
    and "should_install_goal call (observe ro call result) (as_dict (tr_output result))"
    and "\<not> list_ex (same_goal (tool_goal_id sha256 (observe ro call result))) (goals_of extras)"
    and "observe_tool_round sha256 ro [call] [result] extras = Inr extras'"
    and "recovery_final_gate extras' rs = Inr (extras'', gate)"
  shows "rfg_should_continue gate"
proof -
  let ?ob = "observe ro call result"
  let ?i = "tool_goal_id sha256 ?ob"
  let ?x = "record_observation ?ob (set_extras_list ''goal_loop_observations'' (extras_list extras ''goal_loop_observations'') extras)"
  have x: "extras' = install_generic_goal sha256 ?ob ?x"
    using assms(1-4,6) by (simp add: observe_tool_round_def observe_one_def Let_def)
  have i: "?i \<noteq> []" by (simp add: tool_goal_id_def)
  have "\<not> list_ex (same_goal ?i) (goals_of ?x)" using assms(5) by simp
  note new = install_generic_fresh [OF this, folded x]
  have un: "evaluated_assertion extras' rs (as_dict (runtime_goal_assertion ?i)) \<in> set (gate_unresolved extras' rs)"
    "goals_by_id extras' ?i \<noteq> None"
    using open_goal_unresolved [OF new(1) same_goal_tool_goal i _ tool_goal_fields(2) new(2)] assms(5) by simp_all
  have "gets (evaluated_assertion extras' rs (as_dict (runtime_goal_assertion ?i))) ''goal_id'' = ?i"
    by (simp add: evaluated_assertion_def runtime_goal_assertion_def assertion_kind_def gets_def gets_or_def Let_def)
  with un i gate_continues [OF assms(7)] show ?thesis by metis
qed

definition witness_failure :: "tool_result" where
  "witness_failure = witness_result\<lparr>tr_ok := False, tr_error_code := ''TIMEOUT''\<rparr>"

theorem failed_read_blocks_final_answer_witness:
  "rfg_should_continue (snd (projr (recovery_final_gate
      (projr (observe_tool_round (\<lambda>s. s) (\<lambda>_. True) [witness_call] [witness_failure] [])) [witness_failure])))"
proof -
  let ?r = "observe_tool_round (\<lambda>s. s) (\<lambda>_. True) [witness_call] [witness_failure] []"
  let ?g = "recovery_final_gate (projr ?r) [witness_failure]"
  have "\<not> isl ?r" "\<not> isl ?g" by code_simp+
  then have r: "?r = Inr (projr ?r)" and g: "?g = Inr (fst (projr ?g), snd (projr ?g))" by simp_all
  show ?thesis
    by (rule failed_read_blocks_final_answer [OF _ _ _ _ _ r g]) code_simp+
qed

end
