(* ===== verification/Layering.thy ===== *)
theory Layering
  imports Py_Base
begin

text \<open>
  Layered scheduling of a dependency graph, the loop that the incremental tool-call planner
  (\<open>core/runtime_engine/orchestration.py\<close>) and the workflow engine (\<open>workflows/service.py\<close>)
  share: take every node whose dependencies are done, in a fixed order, as the next layer, remove
  it from the graph, and fail when no node is ready. A graph is an association list from a node to
  its dependencies, as the dictionaries of the code are.

  The locale \<open>layered_scheduler\<close> states what both clients rely on, and derives from it that a
  schedule exists exactly for acyclic graphs and that its flattening is a topological order.
\<close>

section \<open>The loop\<close>

text \<open>Each round removes the ready nodes, so the graph shrinks.\<close>

lemma filter_ready_shrinks:
  assumes "sort_key f (map fst (filter (\<lambda>(k, ds). ds = []) g)) \<noteq> []"
  shows "length (filter (\<lambda>(k, ds). k \<notin> set (sort_key f (map fst (filter (\<lambda>(k, ds). ds = []) g)))) g)
           < length g"
proof -
  from assms have "map fst (filter (\<lambda>(k, ds). ds = []) g) \<noteq> []"
    by (metis set_empty set_sort)
  then obtain p where p: "p \<in> set g" "snd p = []"
    by (auto simp: filter_empty_conv)
  then have "p \<in> set (filter (\<lambda>(k, ds). ds = []) g)" by (simp add: case_prod_beta)
  then have "fst p \<in> set (sort_key f (map fst (filter (\<lambda>(k, ds). ds = []) g)))"
    unfolding set_sort set_map by (rule imageI)
  then have "\<not> (\<lambda>(k, ds). k \<notin> set (sort_key f (map fst (filter (\<lambda>(k, ds). ds = []) g)))) p"
    by (simp only: case_prod_beta not_not)
  with p(1) show ?thesis by (rule length_filter_less)
qed

function kahn_layers :: "('a \<Rightarrow> 'k::linorder) \<Rightarrow> ('a \<times> 'a list) list \<Rightarrow> 'a list list option" where
  "kahn_layers f pending =
     (if pending = [] then Some []
      else
        let ready = sort_key f (map fst (filter (\<lambda>(k, ds). ds = []) pending)) in
        if ready = [] then None
        else
          (case kahn_layers f
                  (map (\<lambda>(k, ds). (k, filter (\<lambda>d. d \<notin> set ready) ds))
                    (filter (\<lambda>(k, ds). k \<notin> set ready) pending)) of
             None \<Rightarrow> None
           | Some layers \<Rightarrow> Some (ready # layers)))"
  by pat_completeness auto

termination
  by (relation "measure (\<lambda>(f, g). length g)") (simp_all add: filter_ready_shrinks del: set_sort set_map set_filter)

declare kahn_layers.simps [simp del]

lemma kahn_layers_Nil [simp]: "kahn_layers f [] = Some []"
  by (simp add: kahn_layers.simps)

section \<open>What a schedule promises\<close>

definition dep_rel :: "('a \<times> 'a list) list \<Rightarrow> ('a \<times> 'a) set" where
  "dep_rel g = {(d, k). \<exists>ds. map_of g k = Some ds \<and> d \<in> set ds}"

definition deps_closed :: "('a \<times> 'a list) list \<Rightarrow> bool" where
  "deps_closed g \<longleftrightarrow> (\<forall>(k, ds) \<in> set g. set ds \<subseteq> fst ` set g)"

lemma finite_dep_rel: "finite (dep_rel g)"
proof -
  have "dep_rel g \<subseteq> (\<Union>(k, ds) \<in> set g. set ds \<times> {k})"
    by (auto simp: dep_rel_def dest!: map_of_SomeD)
  moreover have "finite (\<Union>(k, ds) \<in> set g. set ds \<times> {k})"
    by auto
  ultimately show ?thesis by (rule finite_subset)
qed

text \<open>A set of nodes, each of which waits for another one of the set.\<close>

lemma not_acyclic_of_waiting_set:
  assumes "finite r" "C \<noteq> {}" and wait: "\<And>k. k \<in> C \<Longrightarrow> \<exists>d \<in> C. (d, k) \<in> r"
  shows "\<not> acyclic r"
proof
  assume "acyclic r"
  with \<open>finite r\<close> have "wf r" by (rule finite_acyclic_wf)
  with \<open>C \<noteq> {}\<close> obtain m where "m \<in> C" "\<And>y. (y, m) \<in> r \<Longrightarrow> y \<notin> C"
    by (meson wf_eq_minimal2 wfE_min ex_in_conv)
  with wait show False by blast
qed

lemma nth_concat_disjoint:
  assumes "distinct (concat ls)" "i < j" "j < length ls"
  shows "set (ls ! i) \<inter> set (ls ! j) = {}"
proof -
  have "ls = take i ls @ ls ! i # drop (Suc i) ls"
    using assms by (intro id_take_nth_drop) simp
  with assms(1) have "distinct (concat (take i ls) @ ls ! i @ concat (drop (Suc i) ls))"
    by (metis concat.simps(2) concat_append)
  then have "set (ls ! i) \<inter> set (concat (drop (Suc i) ls)) = {}" by auto
  moreover have "ls ! j \<in> set (drop (Suc i) ls)"
    using assms by (auto simp: in_set_conv_nth intro!: exI [of _ "j - Suc i"])
  ultimately show ?thesis by auto
qed

lemma layer_unique:
  assumes "distinct (concat ls)" "i < length ls" "j < length ls" "k \<in> set (ls ! i)" "k \<in> set (ls ! j)"
  shows "i = j"
  using nth_concat_disjoint [OF assms(1), of i j] nth_concat_disjoint [OF assms(1), of j i] assms
  by (cases i j rule: linorder_cases) auto

locale layered_scheduler =
  fixes layers :: "('a \<times> 'a list) list \<Rightarrow> 'a list list option"
  assumes layers_nodes:
      "distinct (map fst g) \<Longrightarrow> layers g = Some ls \<Longrightarrow>
         distinct (concat ls) \<and> set (concat ls) = fst ` set g"
    and layers_respect:
      "distinct (map fst g) \<Longrightarrow> layers g = Some ls \<Longrightarrow> i < length ls \<Longrightarrow> k \<in> set (ls ! i) \<Longrightarrow>
         map_of g k = Some ds \<Longrightarrow> d \<in> set ds \<Longrightarrow> \<exists>j<i. d \<in> set (ls ! j)"
    and layers_stuck:
      "distinct (map fst g) \<Longrightarrow> layers g = None \<Longrightarrow>
         \<exists>C. C \<noteq> {} \<and> C \<subseteq> fst ` set g \<and>
           (\<forall>k \<in> C. \<exists>ds. map_of g k = Some ds \<and> (\<exists>d \<in> set ds. d \<in> C \<or> d \<notin> fst ` set g))"
begin

lemma dep_in_order:
  assumes g: "distinct (map fst g)" "layers g = Some ls" and "(d, k) \<in> dep_rel g"
  shows "\<exists>i j. j < i \<and> i < length ls \<and> k \<in> set (ls ! i) \<and> d \<in> set (ls ! j)"
proof -
  from assms(3) obtain ds where ds: "map_of g k = Some ds" "d \<in> set ds"
    by (auto simp: dep_rel_def)
  then have "k \<in> fst ` set g" by (force dest: map_of_SomeD)
  with layers_nodes [OF g] obtain l where "l \<in> set ls" "k \<in> set l" by auto
  then obtain i where i: "i < length ls" "k \<in> set (ls ! i)"
    by (metis in_set_conv_nth)
  with layers_respect [OF g i ds] show ?thesis by blast
qed

theorem schedule_acyclic:
  assumes g: "distinct (map fst g)" "layers g = Some ls"
  shows "acyclic (dep_rel g)"
proof -
  let ?lev = "\<lambda>k. THE i. i < length ls \<and> k \<in> set (ls ! i)"
  have dist: "distinct (concat ls)" using layers_nodes [OF g] by blast
  have lev: "?lev k = i" if "i < length ls" "k \<in> set (ls ! i)" for i k
    using that layer_unique [OF dist] by (intro the_equality) blast+
  have "dep_rel g \<subseteq> measure ?lev"
  proof (rule subsetI, clarsimp)
    fix d k assume "(d, k) \<in> dep_rel g"
    from dep_in_order [OF g this] obtain i j where
      "j < i" "i < length ls" "k \<in> set (ls ! i)" "d \<in> set (ls ! j)" by blast
    moreover from this have "?lev d = j" by (intro lev) simp_all
    moreover from calculation have "?lev k = i" by (intro lev)
    ultimately show "?lev d < ?lev k" by (simp only:)
  qed
  then have "wf (dep_rel g)" by (rule wf_subset [OF wf_measure])
  then show ?thesis by (rule wf_acyclic)
qed

theorem schedule_iff_acyclic:
  assumes "distinct (map fst g)" "deps_closed g"
  shows "(\<exists>ls. layers g = Some ls) \<longleftrightarrow> acyclic (dep_rel g)"
proof
  assume "\<exists>ls. layers g = Some ls"
  then show "acyclic (dep_rel g)" using schedule_acyclic [OF assms(1)] by blast
next
  assume ac: "acyclic (dep_rel g)"
  show "\<exists>ls. layers g = Some ls"
  proof (rule ccontr)
    assume "\<nexists>ls. layers g = Some ls"
    then have "layers g = None" by (cases "layers g") auto
    from layers_stuck [OF assms(1) this] obtain C where C: "C \<noteq> {}" "C \<subseteq> fst ` set g"
      and wait: "\<forall>k \<in> C. \<exists>ds. map_of g k = Some ds \<and> (\<exists>d \<in> set ds. d \<in> C \<or> d \<notin> fst ` set g)"
      by blast
    have "\<exists>d \<in> C. (d, k) \<in> dep_rel g" if "k \<in> C" for k
    proof -
      from wait that obtain ds d where ds: "map_of g k = Some ds" "d \<in> set ds"
        and d: "d \<in> C \<or> d \<notin> fst ` set g" by blast
      from ds assms(2) have "d \<in> fst ` set g"
        by (fastforce simp: deps_closed_def dest: map_of_SomeD)
      with d ds show ?thesis by (auto simp: dep_rel_def)
    qed
    with not_acyclic_of_waiting_set [OF finite_dep_rel C(1)] ac show False by blast
  qed
qed

theorem schedule_topological:
  assumes g: "distinct (map fst g)" "layers g = Some ls"
    and split: "concat ls = xs @ k # ys" and ds: "map_of g k = Some ds"
  shows "set ds \<subseteq> set xs"
proof
  fix d assume d: "d \<in> set ds"
  then have "(d, k) \<in> dep_rel g" using ds by (auto simp: dep_rel_def)
  from dep_in_order [OF g this] obtain i j where ij: "j < i" "i < length ls"
    "k \<in> set (ls ! i)" "d \<in> set (ls ! j)" by blast
  have dist: "distinct (concat ls)" using layers_nodes [OF g] by blast
  have "concat ls = concat (take i ls) @ concat (drop i ls)"
    by (metis append_take_drop_id concat_append)
  moreover have "drop i ls = ls ! i # drop (Suc i) ls"
    using ij(2) by (simp add: Cons_nth_drop_Suc)
  moreover from ij(3) obtain us vs where "ls ! i = us @ k # vs"
    by (meson split_list)
  ultimately have "concat ls = (concat (take i ls) @ us) @ k # (vs @ concat (drop (Suc i) ls))"
    by simp
  moreover from split dist have "k \<notin> set xs" "k \<notin> set ys" by auto
  ultimately have "xs = concat (take i ls) @ us"
    using split append_Cons_eq_iff [of k xs ys "concat (take i ls) @ us" "vs @ concat (drop (Suc i) ls)"]
    by simp
  moreover have "ls ! j \<in> set (take i ls)"
    using ij(1,2) by (metis in_set_conv_nth length_take less_trans min_less_iff_conj nth_take)
  then have "d \<in> set (concat (take i ls))" using ij(4) by auto
  ultimately show "d \<in> set xs" by simp
qed

end

section \<open>The loop keeps the promise\<close>

text \<open>Every layer only depends on what was done before it.\<close>

fun done_before :: "('a \<times> 'a list) list \<Rightarrow> 'a set \<Rightarrow> 'a list list \<Rightarrow> bool" where
  "done_before g D [] = True"
| "done_before g D (l # ls) \<longleftrightarrow>
     (\<forall>k \<in> set l. \<forall>ds. map_of g k = Some ds \<longrightarrow> set ds \<subseteq> D) \<and> done_before g (D \<union> set l) ls"

lemma done_before_transfer:
  assumes "done_before g' D ls"
    and "\<And>k ds. k \<in> set (concat ls) \<Longrightarrow> map_of g k = Some ds \<Longrightarrow>
           \<exists>ds'. map_of g' k = Some ds' \<and> set ds \<subseteq> set ds' \<union> R"
  shows "done_before g (D \<union> R) ls"
  using assms
proof (induction ls arbitrary: D)
  case Nil
  then show ?case by simp
next
  case (Cons l ls)
  have "done_before g ((D \<union> set l) \<union> R) ls"
    using Cons.prems by (intro Cons.IH) auto
  moreover have "set ds \<subseteq> D \<union> R" if k: "k \<in> set l" "map_of g k = Some ds" for k ds
  proof -
    from Cons.prems(2) [of k ds] k obtain ds' where "map_of g' k = Some ds'" "set ds \<subseteq> set ds' \<union> R"
      by auto
    with Cons.prems(1) k(1) show ?thesis by auto
  qed
  ultimately show ?case by (simp add: Un_ac)
qed

lemma done_before_nth:
  "done_before g D ls \<Longrightarrow> i < length ls \<Longrightarrow> k \<in> set (ls ! i) \<Longrightarrow> map_of g k = Some ds \<Longrightarrow> d \<in> set ds \<Longrightarrow>
     d \<in> D \<or> (\<exists>j<i. d \<in> set (ls ! j))"
proof (induction ls arbitrary: D i)
  case Nil
  then show ?case by simp
next
  case (Cons l ls)
  show ?case
  proof (cases i)
    case 0
    with Cons.prems show ?thesis by auto
  next
    case (Suc n)
    with Cons.prems have "d \<in> D \<union> set l \<or> (\<exists>j<n. d \<in> set (ls ! j))"
      by (intro Cons.IH) auto
    with Suc show ?thesis by (force intro: exI [of _ 0])
  qed
qed

text \<open>The graph that is left after one round.\<close>

definition kahn_ready :: "('a \<Rightarrow> 'k::linorder) \<Rightarrow> ('a \<times> 'a list) list \<Rightarrow> 'a list" where
  "kahn_ready f g = sort_key f (map fst (filter (\<lambda>(k, ds). ds = []) g))"

definition kahn_rest :: "'a set \<Rightarrow> ('a \<times> 'a list) list \<Rightarrow> ('a \<times> 'a list) list" where
  "kahn_rest R g = map (\<lambda>(k, ds). (k, filter (\<lambda>d. d \<notin> R) ds)) (filter (\<lambda>(k, ds). k \<notin> R) g)"

lemma kahn_layers_rec:
  "kahn_layers f g =
     (if g = [] then Some []
      else if kahn_ready f g = [] then None
      else map_option (Cons (kahn_ready f g)) (kahn_layers f (kahn_rest (set (kahn_ready f g)) g)))"
  by (subst kahn_layers.simps) (simp add: kahn_ready_def kahn_rest_def Let_def split: option.splits)

lemma kahn_rest_keys: "map fst (kahn_rest R g) = filter (\<lambda>k. k \<notin> R) (map fst g)"
  by (induction g) (auto simp: kahn_rest_def)

lemma kahn_rest_lookup:
  "map_of (kahn_rest R g) k = (if k \<in> R then None else map_option (filter (\<lambda>d. d \<notin> R)) (map_of g k))"
  by (induction g) (auto simp: kahn_rest_def)

lemma kahn_ready_sub: "set (kahn_ready f g) \<subseteq> fst ` set g"
  by (auto simp: kahn_ready_def)

lemma kahn_ready_distinct: "distinct (map fst g) \<Longrightarrow> distinct (kahn_ready f g)"
  by (simp add: kahn_ready_def distinct_map_filter)

lemma kahn_ready_no_deps:
  "distinct (map fst g) \<Longrightarrow> k \<in> set (kahn_ready f g) \<Longrightarrow> map_of g k = Some ds \<Longrightarrow> ds = []"
  by (auto simp: kahn_ready_def dest!: map_of_SomeD) (metis Pair_inject eq_key_imp_eq_value)

lemma kahn_layers_nodes:
  "distinct (map fst g) \<Longrightarrow> kahn_layers f g = Some ls \<Longrightarrow>
     distinct (concat ls) \<and> set (concat ls) = fst ` set g"
proof (induction f g arbitrary: ls rule: kahn_layers.induct)
  case (1 f g)
  show ?case
  proof (cases "g = []")
    case True
    with 1 show ?thesis by (simp add: kahn_layers_rec [of f g])
  next
    case False
    let ?r = "kahn_ready f g" and ?g' = "kahn_rest (set (kahn_ready f g)) g"
    from False "1.prems" obtain ls' where r: "?r \<noteq> []" and ls: "ls = ?r # ls'"
      and rec: "kahn_layers f ?g' = Some ls'"
      by (auto simp: kahn_layers_rec [of f g] split: if_splits)
    have d': "distinct (map fst ?g')" using "1.prems" by (simp add: kahn_rest_keys)
    have IH: "distinct (concat ls') \<and> set (concat ls') = fst ` set ?g'"
      by (rule "1.IH" [OF False refl _ _ rec [unfolded kahn_rest_def kahn_ready_def], folded kahn_rest_def kahn_ready_def])
        (use r d' in \<open>simp_all add: kahn_ready_def kahn_rest_def\<close>)
    have "fst ` set ?g' = fst ` set g - set ?r"
      using arg_cong [OF kahn_rest_keys [of "set ?r" g], of set] by auto
    with IH ls kahn_ready_sub [of f g] kahn_ready_distinct [OF "1.prems"(1)] show ?thesis by auto
  qed
qed

lemma kahn_layers_done_before:
  "distinct (map fst g) \<Longrightarrow> kahn_layers f g = Some ls \<Longrightarrow> done_before g {} ls"
proof (induction f g arbitrary: ls rule: kahn_layers.induct)
  case (1 f g)
  show ?case
  proof (cases "g = []")
    case True
    with 1 show ?thesis by (simp add: kahn_layers_rec [of f g])
  next
    case False
    let ?r = "kahn_ready f g" and ?g' = "kahn_rest (set (kahn_ready f g)) g"
    from False "1.prems" obtain ls' where r: "?r \<noteq> []" and ls: "ls = ?r # ls'"
      and rec: "kahn_layers f ?g' = Some ls'"
      by (auto simp: kahn_layers_rec [of f g] split: if_splits)
    have d': "distinct (map fst ?g')" using "1.prems" by (simp add: kahn_rest_keys)
    have IH: "done_before ?g' {} ls'"
      by (rule "1.IH" [OF False refl _ _ rec [unfolded kahn_rest_def kahn_ready_def], folded kahn_rest_def kahn_ready_def])
        (use r d' in \<open>simp_all add: kahn_ready_def kahn_rest_def\<close>)
    have nodes: "set (concat ls') = fst ` set ?g'"
      using kahn_layers_nodes [OF d' rec] by blast
    have "done_before g ({} \<union> set ?r) ls'"
    proof (rule done_before_transfer [OF IH])
      fix k ds assume "k \<in> set (concat ls')" and ds: "map_of g k = Some ds"
      then have "k \<in> set (map fst ?g')" using nodes unfolding set_map by blast
      then have "k \<notin> set ?r" by (simp add: kahn_rest_keys)
      with ds show "\<exists>ds'. map_of ?g' k = Some ds' \<and> set ds \<subseteq> set ds' \<union> set ?r"
        by (auto simp: kahn_rest_lookup)
    qed
    moreover have "\<forall>k \<in> set ?r. \<forall>ds. map_of g k = Some ds \<longrightarrow> set ds \<subseteq> {}"
      using kahn_ready_no_deps [OF "1.prems"(1)] by fastforce
    ultimately show ?thesis by (simp add: ls)
  qed
qed

lemma kahn_layers_stuck:
  "distinct (map fst g) \<Longrightarrow> kahn_layers f g = None \<Longrightarrow>
     \<exists>C. C \<noteq> {} \<and> C \<subseteq> fst ` set g \<and>
       (\<forall>k \<in> C. \<exists>ds. map_of g k = Some ds \<and> (\<exists>d \<in> set ds. d \<in> C \<or> d \<notin> fst ` set g))"
proof (induction f g rule: kahn_layers.induct)
  case (1 f g)
  let ?r = "kahn_ready f g" and ?g' = "kahn_rest (set (kahn_ready f g)) g"
  from "1.prems" have ne: "g \<noteq> []" by (auto simp: kahn_layers_rec [of f g])
  show ?case
  proof (cases "?r = []")
    case True
    have "\<exists>ds. map_of g k = Some ds \<and> (\<exists>d \<in> set ds. d \<in> fst ` set g \<or> d \<notin> fst ` set g)"
      if "k \<in> fst ` set g" for k
    proof -
      from that obtain ds where ds: "map_of g k = Some ds"
        by (metis map_of_eq_None_iff not_None_eq)
      have "set ?r = {}" using True by simp
      then have "\<forall>(k, ds) \<in> set g. ds \<noteq> []" by (auto simp: kahn_ready_def)
      with ds have "ds \<noteq> []" by (auto dest!: map_of_SomeD)
      then have "\<exists>d. d \<in> set ds" by (cases ds) auto
      with ds show ?thesis by blast
    qed
    with ne show ?thesis by (intro exI [of _ "fst ` set g"]) auto
  next
    case False
    with "1.prems" ne have rec: "kahn_layers f ?g' = None"
      by (auto simp: kahn_layers_rec [of f g])
    have d': "distinct (map fst ?g')" using "1.prems" by (simp add: kahn_rest_keys)
    have "\<exists>C. C \<noteq> {} \<and> C \<subseteq> fst ` set ?g' \<and>
       (\<forall>k \<in> C. \<exists>ds. map_of ?g' k = Some ds \<and> (\<exists>d \<in> set ds. d \<in> C \<or> d \<notin> fst ` set ?g'))"
      by (rule "1.IH" [OF ne refl _ _ rec [unfolded kahn_rest_def kahn_ready_def], folded kahn_rest_def kahn_ready_def])
        (use False d' in \<open>simp_all add: kahn_ready_def kahn_rest_def\<close>)
    then obtain C where C: "C \<noteq> {}" "C \<subseteq> fst ` set ?g'"
      and w: "\<forall>k \<in> C. \<exists>ds. map_of ?g' k = Some ds \<and> (\<exists>d \<in> set ds. d \<in> C \<or> d \<notin> fst ` set ?g')"
      by blast
    have keys': "fst ` set ?g' = fst ` set g - set ?r"
      using arg_cong [OF kahn_rest_keys [of "set ?r" g], of set] by auto
    have "\<exists>ds. map_of g k = Some ds \<and> (\<exists>d \<in> set ds. d \<in> C \<or> d \<notin> fst ` set g)" if "k \<in> C" for k
    proof -
      from w that obtain ds d where "map_of ?g' k = Some ds" "d \<in> set ds" "d \<in> C \<or> d \<notin> fst ` set ?g'"
        by blast
      then show ?thesis
        by (auto simp: kahn_rest_lookup keys' split: if_splits) blast
    qed
    with C keys' show ?thesis by (intro exI [of _ C]) auto
  qed
qed

interpretation kahn: layered_scheduler "kahn_layers f" for f :: "'a \<Rightarrow> 'k::linorder"
proof
  show "\<exists>j<i. d \<in> set (ls ! j)"
    if "distinct (map fst g)" "kahn_layers f g = Some ls" "i < length ls" "k \<in> set (ls ! i)"
      "map_of g k = Some ds" "d \<in> set ds" for g ls i k ds d
    using done_before_nth [OF kahn_layers_done_before [OF that(1,2)] that(3-6)] by simp
qed (rule kahn_layers_nodes kahn_layers_stuck; assumption)+

text \<open>Every layer is non-empty and ordered by the key.\<close>

lemma kahn_layers_sorted:
  "kahn_layers f g = Some ls \<Longrightarrow> l \<in> set ls \<Longrightarrow> l \<noteq> [] \<and> sorted (map f l)"
proof (induction f g arbitrary: ls rule: kahn_layers.induct)
  case (1 f g)
  show ?case
  proof (cases "g = []")
    case True
    with 1 show ?thesis by (simp add: kahn_layers_rec [of f g])
  next
    case False
    let ?r = "kahn_ready f g" and ?g' = "kahn_rest (set (kahn_ready f g)) g"
    from False "1.prems" obtain ls' where r: "?r \<noteq> []" and ls: "ls = ?r # ls'"
      and rec: "kahn_layers f ?g' = Some ls'"
      by (auto simp: kahn_layers_rec [of f g] split: if_splits)
    have "l \<in> set ls' \<Longrightarrow> l \<noteq> [] \<and> sorted (map f l)"
      by (rule "1.IH" [OF False refl _ rec [unfolded kahn_rest_def kahn_ready_def]])
        (use r in \<open>simp_all add: kahn_ready_def\<close>)
    moreover have "sorted (map f ?r)" by (simp add: kahn_ready_def)
    ultimately show ?thesis using "1.prems"(2) ls r by auto
  qed
qed

end
