(* ===== verification/Orchestration.thy ===== *)
theory Orchestration
  imports Runtime_Types Layering
begin

text \<open>
  Dynamic, incremental tool-call orchestration (\<open>core/runtime_engine/orchestration.py\<close>): the
  runtime-only plan fields are taken out of the handler arguments, a batch of annotated calls is
  validated against the evidence of earlier steps and turned into execution layers, and result
  bindings are resolved from finished steps.

  An entry of the tool registry is its mapping form; \<open>getattr(entry, "metadata", {})\<close> of a registry
  object reads the same value.
\<close>

section \<open>Plan fields\<close>

text \<open>\<open>STEP_ID_RE\<close>: a letter and at most 63 identifier characters.\<close>

definition STEP_ID_RE :: "string \<Rightarrow> bool" where
  "STEP_ID_RE s \<longleftrightarrow>
     (case s of [] \<Rightarrow> False | c # cs \<Rightarrow> is_alpha c \<and> length cs \<le> 63 \<and> list_all is_idchar cs)"

definition ALLOWED_FAILURE_POLICIES :: "string list" where
  "ALLOWED_FAILURE_POLICIES = [''replan'', ''stop'', ''continue'']"

text \<open>The step id that an unannotated call gets from its call id.\<close>

definition fallback_step_id :: "string \<Rightarrow> string" where
  "fallback_step_id fallback =
     (let raw = (if fallback = [] then ''step'' else fallback);
          safe = take 56 (map (\<lambda>c. if is_idchar c then c else CHR ''_'') raw)
      in if safe = [] \<or> \<not> is_alpha (hd safe) then ''step_'' @ safe else safe)"

definition extract_orchestration ::
  "pydict \<Rightarrow> string \<Rightarrow>
     pydict \<times> string \<times> string list \<times> (string \<times> string) list \<times> string \<times> string list" where
  "extract_orchestration arguments fallback =
     (let cleaned = fold dpop
            [''plan_step_id'', ''plan_depends_on'', ''plan_bindings'', ''plan_failure'', ''plan_goal_ids'']
            arguments;
          raw_step_id = dget_or arguments ''plan_step_id'' (PStr []);
          raw_depends = dget_or arguments ''plan_depends_on'' (PList []);
          raw_bindings = dget_or arguments ''plan_bindings'' (PDict []);
          raw_failure = dget_or arguments ''plan_failure'' (PStr ''replan'');
          raw_goal_ids = dget_or arguments ''plan_goal_ids'' (PList []);
          step_id = (if py_truthy raw_step_id then py_strip (py_str raw_step_id)
                     else fallback_step_id fallback);
          depends_on = map (\<lambda>v. py_strip (py_str v)) (as_list raw_depends);
          bindings = fold (\<lambda>(k, v). AList.update (py_strip k) (py_strip (py_str v))) (as_dict raw_bindings) [];
          failure_policy = py_lower (py_strip (py_str (py_or raw_failure (PStr ''replan''))));
          goal_ids =
            (case raw_goal_ids of
               PList xs \<Rightarrow> filter (\<lambda>s. s \<noteq> []) (map (\<lambda>v. py_strip (py_str v)) xs)
             | v \<Rightarrow> (let s = py_strip (py_str v) in if s = [] then [] else [s]))
      in (cleaned, step_id, depends_on, bindings, failure_policy, goal_ids))"

section \<open>References to results\<close>

text \<open>\<open>REFERENCE_RE\<close>, full match: an optional \<open>steps.\<close>, a step id, an optional \<open>.output\<close>, and an
  optional path after a dot. The groups are tried greedily, with backtracking over the two optional
  parts; the path may not contain a newline.\<close>

definition ref_path :: "string \<Rightarrow> string option" where
  "ref_path t =
     (case t of
        [] \<Rightarrow> None
      | c # r \<Rightarrow> if c = CHR ''.'' \<and> r \<noteq> [] \<and> char_of (10::nat) \<notin> set r then Some r else None)"

definition ref_tail :: "string \<Rightarrow> string option" where
  "ref_tail t =
     (if t = [] then Some []
      else if py_startswith t ''.output'' \<and> drop 7 t = [] then Some []
      else if py_startswith t ''.output'' \<and> ref_path (drop 7 t) \<noteq> None then ref_path (drop 7 t)
      else ref_path t)"

definition ref_body :: "string \<Rightarrow> (string \<times> string) option" where
  "ref_body s =
     (let i = takeWhile is_idchar s
      in if STEP_ID_RE i
         then (case ref_tail (drop (length i) s) of None \<Rightarrow> None | Some p \<Rightarrow> Some (i, p))
         else None)"

definition REFERENCE_RE :: "string \<Rightarrow> (string \<times> string) option" where
  "REFERENCE_RE s =
     (case (if py_startswith s ''steps.'' then ref_body (drop 6 s) else None) of
        Some m \<Rightarrow> Some m
      | None \<Rightarrow> ref_body s)"

definition parse_reference :: "string \<Rightarrow> (string \<times> string list) res" where
  "parse_reference reference =
     (case REFERENCE_RE (py_strip reference) of
        None \<Rightarrow> Inl (OrchestrationError (''invalid result reference: '' @ reference))
      | Some (source_id, p) \<Rightarrow> Inr (source_id, filter (\<lambda>part. part \<noteq> []) (py_split (CHR ''.'') p)))"

section \<open>Validation of one batch\<close>

type_synonym binding_target_validator = "string \<Rightarrow> pyval \<Rightarrow> string \<Rightarrow> bool"
type_synonym binding_source_validator = "string \<Rightarrow> pyval \<Rightarrow> string list \<Rightarrow> bool"

definition call_step_id :: "llm_tool_call \<Rightarrow> string" where
  "call_step_id call = (if tc_step_id call = [] then tc_id call else tc_step_id call)"

text \<open>The tool and action that a binding source names: a call of this batch or an earlier step.\<close>

definition binding_source_tool ::
  "(string \<times> llm_tool_call) list \<Rightarrow> (string \<times> step_evidence) list \<Rightarrow> string \<Rightarrow> (string \<times> pyval) res" where
  "binding_source_tool calls_by_step prior source_id =
     (case map_of calls_by_step source_id of
        Some call \<Rightarrow> Inr (tc_name call, dget_or (tc_arguments call) ''action'' (PStr []))
      | None \<Rightarrow>
          (case map_of prior source_id of
             Some ev \<Rightarrow> Inr (se_tool_id ev, PStr (se_action ev))
           | None \<Rightarrow> Inl (KeyError source_id)))"

definition check_binding ::
  "binding_target_validator option \<Rightarrow> binding_source_validator option \<Rightarrow>
   (string \<times> llm_tool_call) list \<Rightarrow> (string \<times> step_evidence) list \<Rightarrow> llm_tool_call \<Rightarrow> string \<Rightarrow>
   string \<times> string \<Rightarrow> unit res" where
  "check_binding target_ok source_ok calls_by_step prior call step_id =
     (\<lambda>(target, reference).
        rbind (rguard (target \<noteq> [] \<and> CHR ''.'' \<notin> set target)
                 (OrchestrationError (''invalid binding target for step '' @ step_id @ '': '' @ target))) (\<lambda>_.
        rbind (parse_reference reference) (\<lambda>(source_id, source_path).
        rbind (rguard (source_id \<in> set (tc_depends_on call))
                 (OrchestrationError (''binding source '' @ source_id @
                    '' must be declared in plan_depends_on for step '' @ step_id))) (\<lambda>_.
        rbind (if source_path = [] then Inr ()
               else rbind (binding_source_tool calls_by_step prior source_id) (\<lambda>(source_tool_id, source_action).
                    rguard (case source_ok of None \<Rightarrow> False | Some ok \<Rightarrow> ok source_tool_id source_action source_path)
                      (OrchestrationError (''undeclared binding source for '' @ source_tool_id @ '': '' @
                         py_join ''.'' source_path @
                         ''; bind the whole output or use a published result field'')))) (\<lambda>_.
        rguard (case target_ok of None \<Rightarrow> False
                | Some ok \<Rightarrow> ok (tc_name call) (dget_or (tc_arguments call) ''action'' (PStr [])) target)
          (OrchestrationError (''unsafe binding target for '' @ tc_name call @ '': '' @ target)))))))"

definition check_call ::
  "binding_target_validator option \<Rightarrow> binding_source_validator option \<Rightarrow>
   (string \<times> llm_tool_call) list \<Rightarrow> (string \<times> step_evidence) list \<Rightarrow>
   string \<times> llm_tool_call \<Rightarrow> (string \<times> string list) res" where
  "check_call target_ok source_ok calls_by_step prior =
     (\<lambda>(step_id, call).
        let depends = tc_depends_on call;
            current = map fst calls_by_step;
            unknown = filter (\<lambda>d. d \<notin> set current \<and> d \<notin> fst ` set prior) depends;
            policy = (if tc_failure_policy call = [] then ''replan'' else tc_failure_policy call) in
        rbind (rguard (distinct depends)
                 (OrchestrationError (''duplicate dependency for step '' @ step_id))) (\<lambda>_.
        rbind (rguard (unknown = [])
                 (OrchestrationError (''step '' @ step_id @ '' has unknown dependencies: '' @
                    repr_strs (sorted_set unknown)))) (\<lambda>_.
        rbind (rguard (step_id \<notin> set depends)
                 (OrchestrationError (''step '' @ step_id @ '' depends on itself''))) (\<lambda>_.
        rbind (rguard (policy \<in> set ALLOWED_FAILURE_POLICIES)
                 (OrchestrationError (''invalid plan_failure for step '' @ step_id @ '': '' @ policy))) (\<lambda>_.
        rbind (rmapM (check_binding target_ok source_ok calls_by_step prior call step_id)
                 (tc_result_bindings call)) (\<lambda>_.
        Inr (step_id, filter (\<lambda>d. d \<in> set current) depends)))))))"

text \<open>The position of a step in the batch, \<open>original_order\<close>.\<close>

fun index_of :: "'a list \<Rightarrow> 'a \<Rightarrow> nat" where
  "index_of [] x = 0"
| "index_of (y # ys) x = (if x = y then 0 else Suc (index_of ys x))"

definition validate_incremental_graph ::
  "llm_tool_call list \<Rightarrow> (string \<times> step_evidence) list \<Rightarrow>
   binding_target_validator option \<Rightarrow> binding_source_validator option \<Rightarrow> string list list res" where
  "validate_incremental_graph calls prior target_ok source_ok =
     (let step_ids = map call_step_id calls;
          calls_by_step = zip step_ids calls;
          reused_successful = filter (\<lambda>s. case map_of prior s of None \<Rightarrow> False | Some ev \<Rightarrow> se_ok ev) step_ids in
      rbind (rguard (distinct step_ids)
               (OrchestrationError ''duplicate plan_step_id in tool-call batch'')) (\<lambda>_.
      rbind (rguard (reused_successful = [])
               (OrchestrationError (''plan_step_id already succeeded: '' @
                  repr_strs (sorted_set reused_successful)))) (\<lambda>_.
      rbind (rmapM (\<lambda>s. rguard (STEP_ID_RE s) (OrchestrationError (''invalid plan_step_id: '' @ s))) step_ids) (\<lambda>_.
      rbind (rmapM (check_call target_ok source_ok calls_by_step prior) calls_by_step) (\<lambda>dependencies.
      (case kahn_layers (index_of step_ids) dependencies of
         None \<Rightarrow> Inl (OrchestrationError ''tool-call dependency graph contains a cycle'')
       | Some layers \<Rightarrow> Inr layers))))))"

section \<open>Resolving bindings from evidence\<close>

fun follow_path :: "string \<Rightarrow> pyval \<Rightarrow> string list \<Rightarrow> pyval res" where
  "follow_path reference v [] = Inr v"
| "follow_path reference v (part # path) =
     (case v of
        PDict d \<Rightarrow>
          (case map_of d part of
             Some w \<Rightarrow> follow_path reference w path
           | None \<Rightarrow> Inl (OrchestrationError (''binding path not found: '' @ reference)))
      | PList xs \<Rightarrow>
          (if all_digits part \<and> digits_val 0 part < length xs
           then follow_path reference (xs ! digits_val 0 part) path
           else Inl (OrchestrationError (''binding path not found: '' @ reference)))
      | _ \<Rightarrow> Inl (OrchestrationError (''binding path not found: '' @ reference)))"

definition output_truncated :: "pyval \<Rightarrow> bool" where
  "output_truncated output \<longleftrightarrow>
     (case dget (as_dict output) ''_evidence_projection'' of
        PDict p \<Rightarrow> py_truthy (dget p ''truncated'')
      | _ \<Rightarrow> False)"

definition resolve_binding ::
  "(string \<times> step_evidence) list \<Rightarrow> string \<times> string \<Rightarrow> pydict \<Rightarrow> pydict res" where
  "resolve_binding evidence = (\<lambda>(target, reference) resolved.
     rbind (parse_reference reference) (\<lambda>(source_id, path).
     case map_of evidence source_id of
       None \<Rightarrow> Inl (OrchestrationError (''binding source not available: '' @ source_id))
     | Some source \<Rightarrow>
         rbind (rguard (se_ok source) (OrchestrationError (''binding source failed: '' @ source_id))) (\<lambda>_.
         rbind (rguard (\<not> output_truncated (se_output source))
                  (OrchestrationError (''binding source was truncated: '' @ source_id @
                     ''; request a narrower source result''))) (\<lambda>_.
         rbind (follow_path reference (se_output source) path) (\<lambda>v.
         Inr (dset target v resolved))))))"

definition resolve_bindings ::
  "pydict \<Rightarrow> (string \<times> string) list \<Rightarrow> (string \<times> step_evidence) list \<Rightarrow> pydict res" where
  "resolve_bindings arguments bindings evidence = rfold (resolve_binding evidence) bindings arguments"

section \<open>What may be bound\<close>

text \<open>The fields that a tool's own metadata declares for \<open>*\<close> and for the selected action.\<close>

definition declared_fields :: "pydict \<Rightarrow> string \<Rightarrow> string \<Rightarrow> pyval \<Rightarrow> string list option" where
  "declared_fields tool_registry declaration tool_id action =
     (case dget tool_registry (canonical_tool_id tool_id) of
        PNone \<Rightarrow> None
      | entry \<Rightarrow>
          (case dget (as_dict (dget (as_dict entry) ''metadata'')) declaration of
             PDict declared \<Rightarrow>
               (let selected_action = py_lower (py_strip (py_str (py_or action (PStr []))))
                in Some (concat (map (\<lambda>key. map py_str (as_list (dget declared key))) [''*'', selected_action])))
           | _ \<Rightarrow> None))"

definition binding_target_allowed :: "pydict \<Rightarrow> string \<Rightarrow> pyval \<Rightarrow> string \<Rightarrow> bool" where
  "binding_target_allowed tool_registry tool_id action target =
     (case declared_fields tool_registry ''bindable_inputs'' tool_id action of
        None \<Rightarrow> False
      | Some allowed \<Rightarrow> target \<in> set allowed)"

definition binding_source_allowed :: "pydict \<Rightarrow> string \<Rightarrow> pyval \<Rightarrow> string list \<Rightarrow> bool" where
  "binding_source_allowed tool_registry tool_id action path =
     (case path of
        [] \<Rightarrow> True
      | part # _ \<Rightarrow>
          (case declared_fields tool_registry ''referenceable_outputs'' tool_id action of
             None \<Rightarrow> False
           | Some allowed \<Rightarrow> part \<in> set allowed))"

section \<open>Correctness of the plan fields\<close>

lemma is_idchar_alpha: "is_alpha c \<Longrightarrow> is_idchar c"
  by (simp add: is_idchar_def is_alnum_def)

lemma is_idchar_underscore [simp]: "is_idchar (CHR ''_'')"
  by (simp add: is_idchar_def)

lemma STEP_ID_RE_I:
  "s \<noteq> [] \<Longrightarrow> is_alpha (hd s) \<Longrightarrow> length s \<le> 64 \<Longrightarrow> list_all is_idchar s \<Longrightarrow> STEP_ID_RE s"
  by (cases s) (auto simp: STEP_ID_RE_def)

lemma STEP_ID_RE_chars: "STEP_ID_RE s \<Longrightarrow> list_all is_idchar s \<and> s \<noteq> [] \<and> length s \<le> 64"
  by (cases s) (auto simp: STEP_ID_RE_def is_idchar_alpha)

lemma fallback_step_id_valid: "STEP_ID_RE (fallback_step_id fallback)"
proof -
  let ?raw = "if fallback = [] then ''step'' else fallback"
  let ?safe = "take 56 (map (\<lambda>c. if is_idchar c then c else CHR ''_'') ?raw)"
  have chars: "list_all is_idchar ?safe"
    by (auto simp: list_all_iff dest!: in_set_takeD)
  have len: "length ?safe \<le> 56" by simp
  show ?thesis
  proof (cases "?safe = [] \<or> \<not> is_alpha (hd ?safe)")
    case True
    then have "fallback_step_id fallback = ''step_'' @ ?safe"
      unfolding fallback_step_id_def Let_def by (simp only: if_True)
    moreover have "STEP_ID_RE (''step_'' @ ?safe)"
      by (rule STEP_ID_RE_I)
        (use chars len in \<open>simp_all add: is_alpha_def is_idchar_def is_alnum_def\<close>)
    ultimately show ?thesis by (simp only:)
  next
    case False
    then have "fallback_step_id fallback = ?safe"
      unfolding fallback_step_id_def Let_def by (simp only: if_False)
    moreover have "STEP_ID_RE ?safe"
      by (rule STEP_ID_RE_I) (use False chars len in simp_all)
    ultimately show ?thesis by (simp only:)
  qed
qed

lemma dget_or_dpop: "dget_or (dpop k d) k' x = (if k' = k then x else dget_or d k' x)"
  by (simp add: dget_or_def dpop_def delete_conv')

text \<open>The arguments handed to the tool contain none of the runtime-only plan fields and are
  otherwise the model's arguments, and a call without its own \<open>plan_step_id\<close> gets a step id that
  satisfies \<open>STEP_ID_RE\<close>, whatever its call id is.\<close>

theorem extract_orchestration_correct:
  assumes "extract_orchestration arguments fallback = (cleaned, step_id, depends_on, bindings, policy, goal_ids)"
  shows "(\<forall>k. map_of cleaned k =
            (if k \<in> {''plan_step_id'', ''plan_depends_on'', ''plan_bindings'', ''plan_failure'', ''plan_goal_ids''}
             then None else map_of arguments k))
       \<and> (\<not> py_truthy (dget_or arguments ''plan_step_id'' (PStr [])) \<longrightarrow> STEP_ID_RE step_id)
       \<and> distinct (map fst bindings)"
proof -
  have upd: "distinct (map fst (fold (\<lambda>(k, v). AList.update (f k) (g v)) d acc))"
    if "distinct (map fst acc)" for f :: "string \<Rightarrow> string" and g :: "pyval \<Rightarrow> string" and d acc
    using that by (induction d arbitrary: acc) (auto simp: distinct_update)
  from assms have c: "cleaned = fold dpop
      [''plan_step_id'', ''plan_depends_on'', ''plan_bindings'', ''plan_failure'', ''plan_goal_ids''] arguments"
    and s: "step_id = (if py_truthy (dget_or arguments ''plan_step_id'' (PStr []))
        then py_strip (py_str (dget_or arguments ''plan_step_id'' (PStr []))) else fallback_step_id fallback)"
    and b: "bindings = fold (\<lambda>(k, v). AList.update (py_strip k) (py_strip (py_str v)))
        (as_dict (dget_or arguments ''plan_bindings'' (PDict []))) []"
    by (simp_all add: extract_orchestration_def Let_def)
  have "\<forall>k. map_of cleaned k = (if k \<in> {''plan_step_id'', ''plan_depends_on'', ''plan_bindings'',
      ''plan_failure'', ''plan_goal_ids''} then None else map_of arguments k)"
    by (auto simp: c dpop_def delete_conv')
  moreover have "distinct (map fst bindings)"
    using upd [of "[]" py_strip "\<lambda>v. py_strip (py_str v)"] by (simp add: b)
  ultimately show ?thesis by (simp add: s fallback_step_id_valid)
qed

theorem extract_orchestration_witness:
  "extract_orchestration [(''action'', PStr ''read''), (''plan_failure'', PStr ''Stop'')] ''1-x''
     = ([(''action'', PStr ''read'')], ''step_1-x'', [], [], ''stop'', []) \<and> STEP_ID_RE ''step_1-x''"
proof -
  have e: "extract_orchestration [(''action'', PStr ''read''), (''plan_failure'', PStr ''Stop'')] ''1-x''
     = ([(''action'', PStr ''read'')], ''step_1-x'', [], [], ''stop'', [])"
    by code_simp
  show ?thesis using e extract_orchestration_correct [OF e] by (simp add: dget_or_def)
qed

section \<open>Correctness of the validation\<close>

text \<open>The dependencies inside one batch, as a relation.\<close>

definition batch_deps :: "llm_tool_call list \<Rightarrow> (string \<times> string) set" where
  "batch_deps calls =
     {(d, call_step_id call) | d call. call \<in> set calls \<and> d \<in> set (tc_depends_on call) \<and>
        d \<in> call_step_id ` set calls}"

lemma check_call_Inr:
  assumes "check_call t s cbs prior (step_id, call) = Inr r"
  shows "r = (step_id, filter (\<lambda>d. d \<in> fst ` set cbs) (tc_depends_on call))"
    and "distinct (tc_depends_on call)" and "step_id \<notin> set (tc_depends_on call)"
    and "set (tc_depends_on call) \<subseteq> fst ` set cbs \<union> fst ` set prior"
    and "b \<in> set (tc_result_bindings call) \<Longrightarrow> \<exists>u. check_binding t s cbs prior call step_id b = Inr u"
proof -
  from assms obtain us where us: "rmapM (check_binding t s cbs prior call step_id) (tc_result_bindings call) = Inr us"
    and f: "filter (\<lambda>d. d \<notin> fst ` set cbs \<and> d \<notin> fst ` set prior) (tc_depends_on call) = []"
    by (auto simp: check_call_def Let_def)
  from f show "set (tc_depends_on call) \<subseteq> fst ` set cbs \<union> fst ` set prior"
    unfolding filter_empty_conv by blast
  show "b \<in> set (tc_result_bindings call) \<Longrightarrow> \<exists>u. check_binding t s cbs prior call step_id b = Inr u"
    using rmapM_Inr [OF us] by (auto simp: list_all2_conv_all_nth in_set_conv_nth)
qed (use assms in \<open>auto simp: check_call_def Let_def\<close>)

lemma check_calls_Inr:
  assumes "rmapM (check_call t s cbs prior) cs = Inr deps" and "set cs \<subseteq> set cbs"
  shows "deps = map (\<lambda>(i, call). (i, filter (\<lambda>d. d \<in> fst ` set cbs) (tc_depends_on call))) cs"
  using assms
proof (induction cs arbitrary: deps)
  case Nil
  then show ?case by simp
next
  case (Cons c cs)
  obtain i call where c: "c = (i, call)" by (cases c)
  from Cons show ?case by (auto simp: c dest!: check_call_Inr(1))
qed

lemma validate_Inr_D:
  assumes "validate_incremental_graph calls prior t s = Inr layers"
  defines "ids \<equiv> map call_step_id calls"
  defines "deps \<equiv> map (\<lambda>call. (call_step_id call,
                     filter (\<lambda>d. d \<in> set ids) (tc_depends_on call))) calls"
  shows "distinct ids" and "kahn_layers (index_of ids) deps = Some layers"
    and "call \<in> set calls \<Longrightarrow> STEP_ID_RE (call_step_id call)"
    and "call \<in> set calls \<Longrightarrow> map_of prior (call_step_id call) = Some ev \<Longrightarrow> \<not> se_ok ev"
    and "call \<in> set calls \<Longrightarrow>
           \<exists>r. check_call t s (zip ids calls) prior (call_step_id call, call) = Inr r"
    and "map fst deps = ids"
proof -
  from assms(1) obtain us ds where d: "distinct ids"
    and r: "filter (\<lambda>s. case map_of prior s of None \<Rightarrow> False | Some ev \<Rightarrow> se_ok ev) ids = []"
    and u: "rmapM (\<lambda>s. rguard (STEP_ID_RE s) (OrchestrationError (''invalid plan_step_id: '' @ s))) ids = Inr us"
    and c: "rmapM (check_call t s (zip ids calls) prior) (zip ids calls) = Inr ds"
    and k: "kahn_layers (index_of ids) ds = Some layers"
    by (auto simp: validate_incremental_graph_def Let_def ids_def split: option.splits)
  have z: "zip ids calls = map (\<lambda>call. (call_step_id call, call)) calls"
    by (simp add: ids_def zip_map1 zip_same_conv_map)
  have "ds = deps"
    using check_calls_Inr [OF c subset_refl] unfolding z deps_def by (simp add: ids_def image_image comp_def)
  with k show "kahn_layers (index_of ids) deps = Some layers" by simp
  show "distinct ids" by (rule d)
  show "call \<in> set calls \<Longrightarrow> STEP_ID_RE (call_step_id call)"
    using rmapM_Inr [OF u] by (auto simp: list_all2_conv_all_nth in_set_conv_nth ids_def)
  show "call \<in> set calls \<Longrightarrow> map_of prior (call_step_id call) = Some ev \<Longrightarrow> \<not> se_ok ev"
    using r by (auto simp: filter_empty_conv ids_def split: option.splits)
  show "call \<in> set calls \<Longrightarrow>
          \<exists>r. check_call t s (zip ids calls) prior (call_step_id call, call) = Inr r"
    using rmapM_Inr [OF c] by (auto simp: z list_all2_conv_all_nth in_set_conv_nth)
  show "map fst deps = ids" by (simp add: deps_def ids_def)
qed

text \<open>The layers of an accepted batch.\<close>

lemma validated_layers:
  assumes v: "validate_incremental_graph calls prior t s = Inr layers"
  shows "distinct (concat layers) \<and> set (concat layers) = call_step_id ` set calls
    \<and> (\<forall>call \<in> set calls. \<forall>i < length layers. call_step_id call \<in> set (layers ! i) \<longrightarrow>
         (\<forall>d \<in> set (tc_depends_on call).
            (\<exists>j<i. d \<in> set (layers ! j)) \<or> (d \<notin> call_step_id ` set calls \<and> d \<in> fst ` set prior)))
    \<and> (\<forall>l \<in> set layers. sorted (map (index_of (map call_step_id calls)) l))"
proof (intro conjI ballI allI impI)
  let ?ids = "map call_step_id calls"
  let ?deps = "map (\<lambda>call. (call_step_id call, filter (\<lambda>d. d \<in> set ?ids) (tc_depends_on call))) calls"
  note v' = validate_Inr_D [OF v]
  have dist: "distinct (map fst ?deps)" using v'(1) unfolding v'(6) .
  note nodes = kahn.layers_nodes [OF dist v'(2)]
  show "distinct (concat layers)" using nodes by blast
  show "set (concat layers) = call_step_id ` set calls"
    using nodes by (auto simp: image_image)
  show "sorted (map (index_of ?ids) l)" if "l \<in> set layers" for l
    using kahn_layers_sorted [OF v'(2) that] by blast
  fix call i d
  assume call: "call \<in> set calls" and i: "i < length layers" "call_step_id call \<in> set (layers ! i)"
    and d: "d \<in> set (tc_depends_on call)"
  have look: "map_of ?deps (call_step_id call) = Some (filter (\<lambda>d. d \<in> set ?ids) (tc_depends_on call))"
    using dist call by (intro map_of_is_SomeI) auto
  obtain r where "check_call t s (zip ?ids calls) prior (call_step_id call, call) = Inr r"
    using v'(5) [OF call] by blast
  from check_call_Inr(4) [OF this] d have "d \<in> set ?ids \<or> d \<in> fst ` set prior"
    by (auto dest!: set_zip_leftD)
  then show "(\<exists>j<i. d \<in> set (layers ! j)) \<or> (d \<notin> call_step_id ` set calls \<and> d \<in> fst ` set prior)"
    using kahn.layers_respect [OF dist v'(2) i look, of d] d by (cases "d \<in> set ?ids") auto
qed

text \<open>C1: An accepted batch is scheduled completely and in dependency order: the layers hold every
  step of the batch exactly once, every dependency of a step either lies in a strictly earlier layer
  or is a step of an earlier round, and inside a layer the calls keep the order of the model.\<close>

theorem validate_layers_sound:
  assumes v: "validate_incremental_graph calls prior t s = Inr layers"
  shows "distinct (concat layers) \<and> set (concat layers) = call_step_id ` set calls
    \<and> (\<forall>call \<in> set calls. \<forall>i < length layers. call_step_id call \<in> set (layers ! i) \<longrightarrow>
         (\<forall>d \<in> set (tc_depends_on call).
            (\<exists>j<i. d \<in> set (layers ! j)) \<or> (d \<notin> call_step_id ` set calls \<and> d \<in> fst ` set prior)))
    \<and> (\<forall>l \<in> set layers. sorted (map (index_of (map call_step_id calls)) l))"
  using validated_layers [OF v] by blast

lemma accepted_binding_checked:
  assumes v: "validate_incremental_graph calls prior t s = Inr layers"
    and call: "call \<in> set calls" and b: "(target, reference) \<in> set (tc_result_bindings call)"
  shows "(\<forall>ev. map_of prior (call_step_id call) = Some ev \<longrightarrow> \<not> se_ok ev)
    \<and> (\<exists>source_id path. parse_reference reference = Inr (source_id, path)
         \<and> source_id \<in> set (tc_depends_on call)
         \<and> (path \<noteq> [] \<longrightarrow> (\<exists>ok tool action. s = Some ok \<and> ok tool action path
              \<and> binding_source_tool (zip (map call_step_id calls) calls) prior source_id = Inr (tool, action))))
    \<and> (\<exists>ok. t = Some ok \<and> ok (tc_name call) (dget_or (tc_arguments call) ''action'' (PStr [])) target)
    \<and> target \<noteq> [] \<and> CHR ''.'' \<notin> set target"
proof -
  note v' = validate_Inr_D [OF v]
  obtain r where "check_call t s (zip (map call_step_id calls) calls) prior (call_step_id call, call) = Inr r"
    using v'(5) [OF call] by blast
  from check_call_Inr(5) [OF this b] obtain u where
    "check_binding t s (zip (map call_step_id calls) calls) prior call (call_step_id call) (target, reference) = Inr u"
    by blast
  then show ?thesis
    using v'(4) [OF call] by (auto simp: check_binding_def split: if_splits option.splits)
qed

text \<open>Whatever batch is accepted, no step id repeats a step that already succeeded, every binding
  reads a declared dependency through a well-formed reference, its destination was authorised by the
  target validator, and a reference below the whole output was authorised by the source validator.\<close>

theorem validate_bindings_authorised:
  assumes v: "validate_incremental_graph calls prior t s = Inr layers"
    and call: "call \<in> set calls" and b: "(target, reference) \<in> set (tc_result_bindings call)"
  shows "(\<forall>ev. map_of prior (call_step_id call) = Some ev \<longrightarrow> \<not> se_ok ev)
    \<and> (\<exists>source_id path. parse_reference reference = Inr (source_id, path)
         \<and> source_id \<in> set (tc_depends_on call)
         \<and> (path \<noteq> [] \<longrightarrow> (\<exists>ok tool action. s = Some ok \<and> ok tool action path
              \<and> binding_source_tool (zip (map call_step_id calls) calls) prior source_id = Inr (tool, action))))
    \<and> (\<exists>ok. t = Some ok \<and> ok (tc_name call) (dget_or (tc_arguments call) ''action'' (PStr [])) target)
    \<and> target \<noteq> [] \<and> CHR ''.'' \<notin> set target"
  by (rule accepted_binding_checked [OF assms])

text \<open>A two-step batch with a binding, used by the witnesses below.\<close>

definition sample_batch :: "llm_tool_call list" where
  "sample_batch =
     [(LLMToolCall ''b'' ''web__manage'' [])\<lparr>tc_depends_on := [''a''], tc_result_bindings := [(''url'', ''a.output'')]\<rparr>,
      LLMToolCall ''a'' ''data__manage'' []]"

lemma sample_batch_layers:
  "validate_incremental_graph sample_batch [] (Some (\<lambda>_ _ _. True)) None = Inr [[''a''], [''b'']]"
  by code_simp

theorem validate_layers_sound_witness:
  "distinct (concat [[''a''], [''b'']]) \<and> call_step_id ` set sample_batch = {''a'', ''b''}"
  using validate_layers_sound [OF sample_batch_layers] by auto

theorem validate_bindings_authorised_witness:
  "\<exists>source_id path. parse_reference ''a.output'' = Inr (source_id, path) \<and> source_id \<in> {''a''}"
  using validate_bindings_authorised [OF sample_batch_layers, of "hd sample_batch" "''url''" "''a.output''"]
  by (auto simp: sample_batch_def)

lemma batch_deps_dep_rel:
  assumes "distinct (map call_step_id calls)"
  shows "dep_rel (map (\<lambda>call. (call_step_id call,
           filter (\<lambda>d. d \<in> call_step_id ` set calls) (tc_depends_on call))) calls) = batch_deps calls"
    (is "dep_rel ?g = _")
proof -
  have keys: "distinct (map fst ?g)" using assms by (simp add: comp_def)
  have "map_of ?g k = Some ds \<longleftrightarrow> (\<exists>call \<in> set calls. k = call_step_id call \<and>
      ds = filter (\<lambda>d. d \<in> call_step_id ` set calls) (tc_depends_on call))" for k ds
    using map_of_eq_Some_iff [OF keys, of k ds] by auto
  then show ?thesis by (fastforce simp: dep_rel_def batch_deps_def)
qed

text \<open>C25: The validator accepts a batch exactly when the step ids are distinct, well formed and not
  those of steps that succeeded, every call passes its own checks, and the dependencies inside the
  batch are acyclic: a cycle is never scheduled and no acyclic batch is refused as cyclic.\<close>

theorem validate_accepts_iff:
  "(\<exists>layers. validate_incremental_graph calls prior t s = Inr layers) \<longleftrightarrow>
     distinct (map call_step_id calls)
     \<and> (\<forall>call \<in> set calls. STEP_ID_RE (call_step_id call)
          \<and> (\<forall>ev. map_of prior (call_step_id call) = Some ev \<longrightarrow> \<not> se_ok ev)
          \<and> (\<exists>r. check_call t s (zip (map call_step_id calls) calls) prior (call_step_id call, call) = Inr r))
     \<and> acyclic (batch_deps calls)" (is "?L \<longleftrightarrow> ?R")
proof -
  let ?ids = "map call_step_id calls"
  let ?cbs = "zip ?ids calls"
  let ?g = "map (\<lambda>call. (call_step_id call, filter (\<lambda>d. d \<in> set ?ids) (tc_depends_on call))) calls"
  have z: "?cbs = map (\<lambda>call. (call_step_id call, call)) calls"
    by (simp add: zip_map1 zip_same_conv_map)
  have rel: "distinct ?ids \<Longrightarrow> dep_rel ?g = batch_deps calls"
    using batch_deps_dep_rel [of calls] by simp
  show ?thesis
  proof
    assume ?L
    then obtain layers where v: "validate_incremental_graph calls prior t s = Inr layers" by blast
    note v' = validate_Inr_D [OF v]
    have "acyclic (dep_rel ?g)"
      using kahn.schedule_acyclic [OF _ v'(2)] v'(1) unfolding v'(6) by blast
    with v' rel show ?R by auto
  next
    assume R: ?R
    then have d: "distinct ?ids" by blast
    have closed: "deps_closed ?g" by (auto simp: deps_closed_def image_image)
    have keys: "distinct (map fst ?g)" using d by (simp add: comp_def)
    from R rel [OF d] kahn.schedule_iff_acyclic [OF keys closed, of "index_of ?ids"]
    obtain layers where k: "kahn_layers (index_of ?ids) ?g = Some layers" by auto
    from R have "\<exists>us. rmapM (\<lambda>s. rguard (STEP_ID_RE s) (OrchestrationError (''invalid plan_step_id: '' @ s))) ?ids = Inr us"
      unfolding rmapM_Inr_ex by auto
    moreover from R have "\<exists>ds. rmapM (check_call t s ?cbs prior) ?cbs = Inr ds"
      unfolding rmapM_Inr_ex z by auto
    then obtain ds where ds: "rmapM (check_call t s ?cbs prior) ?cbs = Inr ds" by blast
    moreover have "ds = ?g"
      using check_calls_Inr [OF ds subset_refl] unfolding z by (simp add: image_image comp_def)
    moreover from R have "filter (\<lambda>s. case map_of prior s of None \<Rightarrow> False | Some ev \<Rightarrow> se_ok ev) ?ids = []"
      by (auto simp: filter_empty_conv split: option.splits)
    ultimately show ?L
      using d k by (auto simp: validate_incremental_graph_def Let_def)
  qed
qed

theorem validate_accepts_iff_witness:
  "acyclic (batch_deps sample_batch) \<and> distinct (map call_step_id sample_batch)"
  using validate_accepts_iff [of sample_batch "[]" "Some (\<lambda>_ _ _. True)" None] sample_batch_layers
  by blast

section \<open>Correctness of result bindings\<close>

lemma resolve_binding_Inr:
  assumes "resolve_binding evidence (target, reference) resolved = Inr resolved'"
  shows "\<exists>source_id path source v. parse_reference reference = Inr (source_id, path)
    \<and> map_of evidence source_id = Some source \<and> se_ok source \<and> \<not> output_truncated (se_output source)
    \<and> follow_path reference (se_output source) path = Inr v \<and> resolved' = dset target v resolved"
  using assms by (auto simp: resolve_binding_def split: option.splits)

lemma resolve_bindings_frame:
  "resolve_bindings arguments bindings evidence = Inr resolved \<Longrightarrow> k \<notin> fst ` set bindings \<Longrightarrow>
     dget resolved k = dget arguments k"
proof (induction bindings arbitrary: arguments)
  case Nil
  then show ?case by (simp add: resolve_bindings_def)
next
  case (Cons b bindings)
  obtain target reference where b: "b = (target, reference)" by (cases b)
  from Cons.prems obtain r1 where r1: "resolve_binding evidence (target, reference) arguments = Inr r1"
    and r2: "resolve_bindings r1 bindings evidence = Inr resolved"
    by (auto simp: resolve_bindings_def b)
  from resolve_binding_Inr [OF r1] obtain v where "r1 = dset target v arguments" by blast
  with Cons.IH [OF r2] Cons.prems(2) show ?case by (simp add: b dget_dset)
qed

text \<open>Resolved arguments differ from the proposed ones only at binding targets, and each target
  holds exactly the value found at the referenced path of the output of a step that succeeded and
  whose evidence was not truncated.\<close>

theorem resolve_bindings_correct:
  assumes r: "resolve_bindings arguments bindings evidence = Inr resolved"
    and dist: "distinct (map fst bindings)"
  shows "(\<forall>k. k \<notin> fst ` set bindings \<longrightarrow> dget resolved k = dget arguments k)
    \<and> (\<forall>(target, reference) \<in> set bindings.
         \<exists>source_id path source. parse_reference reference = Inr (source_id, path)
           \<and> map_of evidence source_id = Some source \<and> se_ok source
           \<and> \<not> output_truncated (se_output source)
           \<and> follow_path reference (se_output source) path = Inr (dget resolved target))"
proof
  show "\<forall>k. k \<notin> fst ` set bindings \<longrightarrow> dget resolved k = dget arguments k"
    using resolve_bindings_frame [OF r] by blast
  show "\<forall>(target, reference) \<in> set bindings.
         \<exists>source_id path source. parse_reference reference = Inr (source_id, path)
           \<and> map_of evidence source_id = Some source \<and> se_ok source
           \<and> \<not> output_truncated (se_output source)
           \<and> follow_path reference (se_output source) path = Inr (dget resolved target)"
    using r dist
  proof (induction bindings arbitrary: arguments)
    case Nil
    then show ?case by simp
  next
    case (Cons b bindings)
    obtain target reference where b: "b = (target, reference)" by (cases b)
    from Cons.prems obtain r1 where r1: "resolve_binding evidence (target, reference) arguments = Inr r1"
      and r2: "resolve_bindings r1 bindings evidence = Inr resolved"
      by (auto simp: resolve_bindings_def b)
    from Cons.prems(2) have "target \<notin> fst ` set bindings" by (auto simp: b)
    then have "dget resolved target = dget r1 target" by (rule resolve_bindings_frame [OF r2])
    with resolve_binding_Inr [OF r1] Cons.IH [OF r2] Cons.prems(2) show ?case
      by (auto simp: b dget_dset)
  qed
qed

theorem resolve_bindings_correct_witness:
  "dget [(''url'', PInt 7)] ''url'' = PInt 7 \<and>
   (\<exists>source_id path. parse_reference ''steps.a.items.0'' = Inr (source_id, path))"
proof -
  define ev where "ev = \<lparr>se_step_id = ''a'', se_call_id = ''a'', se_tool_id = ''t'', se_ok = True,
    se_output = PDict [(''items'', PList [PInt 7])], se_error = [], se_action = []\<rparr>"
  have r: "resolve_bindings [] [(''url'', ''steps.a.items.0'')] [(''a'', ev)] = Inr [(''url'', PInt 7)]"
    unfolding ev_def by code_simp
  show ?thesis using resolve_bindings_correct [OF r] by auto
qed

text \<open>Validation is enough for whole-output bindings: if a batch is accepted and every dependency
  of a call ended with successful, untruncated evidence, then bindings that name whole outputs
  always resolve.\<close>

theorem validated_bindings_resolve:
  assumes v: "validate_incremental_graph calls prior t s = Inr layers" and call: "call \<in> set calls"
    and ev: "\<forall>d \<in> set (tc_depends_on call). \<exists>source. map_of evidence d = Some source \<and> se_ok source
               \<and> \<not> output_truncated (se_output source)"
    and whole: "\<forall>(target, reference) \<in> set (tc_result_bindings call). \<forall>i p.
               parse_reference reference = Inr (i, p) \<longrightarrow> p = []"
  shows "\<exists>resolved. resolve_bindings arguments (tc_result_bindings call) evidence = Inr resolved"
proof -
  have one: "\<exists>a'. resolve_binding evidence b a = Inr a'" if "b \<in> set (tc_result_bindings call)" for b a
  proof -
    obtain target reference where b: "b = (target, reference)" by (cases b)
    with accepted_binding_checked [OF v call, of target reference] that
    obtain i p where ref: "parse_reference reference = Inr (i, p)" "i \<in> set (tc_depends_on call)"
      by blast
    with ev whole that b show ?thesis by (fastforce simp: resolve_binding_def)
  qed
  have "\<exists>r. rfold (resolve_binding evidence) bs a = Inr r" if "set bs \<subseteq> set (tc_result_bindings call)" for bs a
    using that
  proof (induction bs arbitrary: a)
    case Nil
    then show ?case by simp
  next
    case (Cons b bs)
    from Cons.prems one [of b a] obtain a' where "resolve_binding evidence b a = Inr a'" by auto
    with Cons show ?case by simp
  qed
  then show ?thesis unfolding resolve_bindings_def by blast
qed

theorem validated_bindings_resolve_witness:
  "\<exists>resolved. resolve_bindings [] (tc_result_bindings (hd sample_batch))
     [(''a'', \<lparr>se_step_id = ''a'', se_call_id = ''a'', se_tool_id = ''t'', se_ok = True,
       se_output = PInt 1, se_error = [], se_action = []\<rparr>)] = Inr resolved"
proof (rule validated_bindings_resolve [OF sample_batch_layers])
  have "parse_reference ''a.output'' = Inr (''a'', [])" by code_simp
  then show "\<forall>(target, reference) \<in> set (tc_result_bindings (hd sample_batch)). \<forall>i p.
               parse_reference reference = Inr (i, p) \<longrightarrow> p = []"
    by (simp add: sample_batch_def)
qed (auto simp: sample_batch_def output_truncated_def)

end
