(* ===== verification/Batch_Compiler.thy ===== *)
theory Batch_Compiler
  imports Orchestration
begin

text \<open>
  The batch compiler (\<open>core/runtime_engine/batch_compiler.py\<close>): contiguous scalar calls of one tool are
  replaced by one call of a declared batch action.

  The tool registry is a dictionary from tool ids to entries. Grouping keys are compared as Python
  compares the frozen tuples, so booleans count as 0 and 1. \<open>casefold\<close> is modelled on ASCII; the
  Chinese markers are given in UTF-8.
\<close>

type_synonym tool_registry = "(string \<times> pydict) list"
type_synonym batch_item = "nat \<times> llm_tool_call \<times> pydict"

section \<open>User intent\<close>

definition individual_markers :: "string list" where
  "individual_markers =
     [[CHR 0xE5, CHR 0xBF, CHR 0x85, CHR 0xE9, CHR 0xA1, CHR 0xBB, CHR 0xE4, CHR 0xBD, CHR 0xBF,
       CHR 0xE7, CHR 0x94, CHR 0xA8, CHR 0xE7, CHR 0x8B, CHR 0xAC, CHR 0xE7, CHR 0xAB, CHR 0x8B,
       CHR 0xE8, CHR 0xB0, CHR 0x83, CHR 0xE7, CHR 0x94, CHR 0xA8],
      [CHR 0xE5, CHR 0xBF, CHR 0x85, CHR 0xE9, CHR 0xA1, CHR 0xBB, CHR 0xE7, CHR 0x8B, CHR 0xAC,
       CHR 0xE7, CHR 0xAB, CHR 0x8B, CHR 0xE8, CHR 0xB0, CHR 0x83, CHR 0xE7, CHR 0x94, CHR 0xA8],
      [CHR 0xE8, CHR 0xA6, CHR 0x81, CHR 0xE6, CHR 0xB1, CHR 0x82, CHR 0xE7, CHR 0x8B, CHR 0xAC,
       CHR 0xE7, CHR 0xAB, CHR 0x8B, CHR 0xE8, CHR 0xB0, CHR 0x83, CHR 0xE7, CHR 0x94, CHR 0xA8],
      [CHR 0xE5, CHR 0xBF, CHR 0x85, CHR 0xE9, CHR 0xA1, CHR 0xBB, CHR 0xE5, CHR 0x8D, CHR 0x95,
       CHR 0xE7, CHR 0x8B, CHR 0xAC, CHR 0xE8, CHR 0xB0, CHR 0x83, CHR 0xE7, CHR 0x94, CHR 0xA8],
      [CHR 0xE4, CHR 0xB8, CHR 0x8D, CHR 0xE5, CHR 0xBE, CHR 0x97, CHR 0xE6, CHR 0x89, CHR 0xB9,
       CHR 0xE9, CHR 0x87, CHR 0x8F, CHR 0xE8, CHR 0xB0, CHR 0x83, CHR 0xE7, CHR 0x94, CHR 0xA8],
      [CHR 0xE7, CHR 0xA6, CHR 0x81, CHR 0xE6, CHR 0xAD, CHR 0xA2, CHR 0xE6, CHR 0x89, CHR 0xB9,
       CHR 0xE9, CHR 0x87, CHR 0x8F, CHR 0xE8, CHR 0xB0, CHR 0x83, CHR 0xE7, CHR 0x94, CHR 0xA8],
      ''one call per'', ''individual tool call'']"

definition user_requires_individual_tool_calls :: "string \<Rightarrow> bool" where
  "user_requires_individual_tool_calls user_input =
     list_ex (\<lambda>marker. py_contains marker (py_lower user_input)) individual_markers"

section \<open>Contracts\<close>

definition validated_contract :: "pyval \<Rightarrow> pydict option" where
  "validated_contract raw_v =
     (let raw = as_dict raw_v;
          index_arg = py_strip (gets raw ''index_arg'');
          collect_arg = py_strip (gets raw ''collect_arg'') in
      if \<not> is_dict raw_v then None
      else if py_strip (gets raw ''source_action'') = [] \<or> py_strip (gets raw ''target_action'') = [] then None
      else if (index_arg \<noteq> []) = (collect_arg \<noteq> []) then None
      else
        (case py_int (py_or (dget raw ''max_batch_size'') (PInt 8)) of
           Inl _ \<Rightarrow> None
         | Inr max_batch_size \<Rightarrow>
             if max_batch_size < 2 then None
             else Some (dupdate raw
               [(''source_action'', PStr (py_str (dget raw ''source_action''))),
                (''target_action'', PStr (py_str (dget raw ''target_action''))),
                (''index_arg'', PStr index_arg),
                (''collect_arg'', PStr collect_arg),
                (''max_batch_size'', PInt max_batch_size)])))"

definition tool_contracts :: "tool_registry \<Rightarrow> string \<Rightarrow> pydict list" where
  "tool_contracts registry tool_id =
     (let entry = (case map_of registry tool_id of None \<Rightarrow> [] | Some e \<Rightarrow> e);
          metadata = as_dict (dget entry ''metadata'')
      in List.map_filter validated_contract (py_iter (dget metadata ''batching'')))"

definition contains_disallowed_batch_action :: "llm_tool_call list \<Rightarrow> tool_registry \<Rightarrow> bool" where
  "contains_disallowed_batch_action calls registry =
     list_ex (\<lambda>call.
       let action = gets (tc_arguments call) ''action'' in
       py_endswith action ''_batch''
       \<or> list_ex (\<lambda>contract. action = py_str (dget contract ''target_action''))
           (tool_contracts registry (canonical_tool_id (tc_name call)))) calls"

section \<open>Grouping\<close>

fun freeze :: "pyval \<Rightarrow> pyval" where
  "freeze (PDict d) = PList (map (\<lambda>(k, v). PList [PStr k, v]) (sort_key fst (map (\<lambda>(k, v). (k, freeze v)) d)))"
| "freeze (PList xs) = PList (map freeze xs)"
| "freeze (PBool b) = PInt (if b then 1 else 0)"
| "freeze v = v"

type_synonym group_key = "string \<times> string \<times> string list \<times> pyval list"

definition referenced_ids :: "llm_tool_call list \<Rightarrow> string list" where
  "referenced_ids calls =
     concat (map tc_depends_on calls) @ concat (map (\<lambda>call. map snd (tc_result_bindings call)) calls)"

definition is_independent :: "string list \<Rightarrow> llm_tool_call \<Rightarrow> bool" where
  "is_independent refs call \<longleftrightarrow>
     tc_id call \<notin> set refs \<and> tc_depends_on call = [] \<and> tc_result_bindings call = []"

definition contract_applies :: "pydict \<Rightarrow> pydict \<Rightarrow> bool" where
  "contract_applies args contract \<longleftrightarrow>
     (let index_arg = gets contract ''index_arg''; collect_arg = gets contract ''collect_arg'' in
      gets args ''action'' = gets contract ''source_action''
      \<and> (if index_arg \<noteq> [] then \<not> isl (py_int (dget args index_arg))
         else collect_arg \<noteq> [] \<longrightarrow> dget args collect_arg \<notin> {PNone, PStr []}))"

definition contract_group_by :: "pydict \<Rightarrow> string list" where
  "contract_group_by contract = map py_str (py_iter (dget contract ''group_by''))"

definition group_key_of :: "string \<Rightarrow> pydict \<Rightarrow> pydict \<Rightarrow> group_key" where
  "group_key_of tool_id contract args =
     (tool_id, gets contract ''source_action'', contract_group_by contract,
      map (\<lambda>key. freeze (dget args key)) (contract_group_by contract))"

text \<open>The contract that a call is grouped under: the first one that applies.\<close>

definition batch_contract :: "tool_registry \<Rightarrow> string list \<Rightarrow> llm_tool_call \<Rightarrow> pydict option" where
  "batch_contract registry refs call =
     (if is_independent refs call
      then find (contract_applies (tc_arguments call)) (tool_contracts registry (canonical_tool_id (tc_name call)))
      else None)"

definition candidate_key :: "llm_tool_call \<Rightarrow> pydict \<Rightarrow> group_key" where
  "candidate_key call contract = group_key_of (canonical_tool_id (tc_name call)) contract (tc_arguments call)"

definition add_candidate ::
  "tool_registry \<Rightarrow> string list \<Rightarrow> nat \<times> llm_tool_call \<Rightarrow>
   (group_key \<times> batch_item list) list \<Rightarrow> (group_key \<times> batch_item list) list" where
  "add_candidate registry refs = (\<lambda>(position, call) candidates.
     case batch_contract registry refs call of
       None \<Rightarrow> candidates
     | Some contract \<Rightarrow>
         let key = candidate_key call contract;
             grouped = (case map_of candidates key of None \<Rightarrow> [] | Some g \<Rightarrow> g)
         in AList.update key (grouped @ [(position, call, contract)]) candidates)"

definition batch_candidates :: "tool_registry \<Rightarrow> llm_tool_call list \<Rightarrow> (group_key \<times> batch_item list) list" where
  "batch_candidates registry calls =
     fold (add_candidate registry (referenced_ids calls)) (enumerate 0 calls) []"

section \<open>Runs, chunks and compiled calls\<close>

text \<open>\<open>int(call.arguments[k])\<close>.\<close>

definition int_argument :: "llm_tool_call \<Rightarrow> string \<Rightarrow> int res" where
  "int_argument call k =
     (case map_of (tc_arguments call) k of None \<Rightarrow> Inl (KeyError k) | Some v \<Rightarrow> py_int v)"

definition continues_run :: "batch_item \<Rightarrow> batch_item \<Rightarrow> bool res" where
  "continues_run previous item =
     (let index_arg = gets (snd (snd item)) ''index_arg'' in
      if index_arg \<noteq> [] then
        rbind (int_argument (fst (snd item)) index_arg) (\<lambda>index_value.
        rbind (int_argument (fst (snd previous)) index_arg) (\<lambda>previous_value.
        Inr (fst item = fst previous + 1 \<and> index_value = previous_value + 1)))
      else Inr (fst item = fst previous + 1))"

fun build_runs :: "batch_item list \<Rightarrow> batch_item list list \<Rightarrow> batch_item list list res" where
  "build_runs [] runs = Inr runs"
| "build_runs (item # grouped) runs =
     (if runs = [] then build_runs grouped [[item]]
      else
        rbind (continues_run (last (last runs)) item) (\<lambda>contiguous.
        if contiguous then build_runs grouped (butlast runs @ [last runs @ [item]])
        else build_runs grouped (runs @ [[item]])))"

function chunks :: "nat \<Rightarrow> 'a list \<Rightarrow> 'a list list" where
  "chunks n xs = (if xs = [] \<or> n = 0 then [] else take n xs # chunks n (drop n xs))"
  by pat_completeness auto
termination
  by (relation "measure (\<lambda>(n, xs). length xs)") auto

declare chunks.simps [simp del]

definition batch_arguments :: "pydict \<Rightarrow> llm_tool_call list \<Rightarrow> pydict res" where
  "batch_arguments contract group_calls =
     (let first_call = hd group_calls;
          args = dset ''action'' (PStr (py_str (dget contract ''target_action''))) (tc_arguments first_call);
          index_arg = gets contract ''index_arg''; collect_arg = gets contract ''collect_arg'' in
      if index_arg \<noteq> [] then
        rbind (int_argument first_call index_arg) (\<lambda>start.
        Inr (dset (gets_or contract ''limit_arg'' ''limit'') (PInt (int (length group_calls)))
              (dset (gets_or contract ''start_arg'' ''start_index'') (PInt start) (dpop index_arg args))))
      else
        rbind (rmapM (\<lambda>call. case map_of (tc_arguments call) collect_arg of
                        None \<Rightarrow> Inl (KeyError collect_arg) | Some v \<Rightarrow> Inr v) group_calls) (\<lambda>vals.
        Inr (dset (gets_or contract ''collection_arg'' (collect_arg @ ''s'')) (PList vals) (dpop collect_arg args))))"

definition batch_event :: "pydict \<Rightarrow> llm_tool_call \<Rightarrow> nat \<Rightarrow> pydict" where
  "batch_event contract first_call n =
     [(''tool_id'', PStr (canonical_tool_id (tc_name first_call))),
      (''source_action'', dget contract ''source_action''),
      (''target_action'', dget contract ''target_action''),
      (''source_call_count'', PInt (int n)),
      (''compiled_call_id'', PStr (tc_id first_call))]"

text \<open>One chunk: its calls, the call that replaces them, and the event.\<close>

record compiled_chunk =
  cc_items :: "batch_item list"
  cc_call :: llm_tool_call
  cc_event :: pydict

definition compile_chunk :: "pydict \<Rightarrow> batch_item list \<Rightarrow> compiled_chunk res" where
  "compile_chunk contract chunk =
     (let first_call = fst (snd (hd chunk)) in
      rbind (batch_arguments contract (map (fst \<circ> snd) chunk)) (\<lambda>args.
      Inr \<lparr>cc_items = chunk,
           cc_call = (LLMToolCall (tc_id first_call) (tc_name first_call) args)\<lparr>tc_failure_policy := tc_failure_policy first_call\<rparr>,
           cc_event = batch_event contract first_call (length chunk)\<rparr>))"

definition run_chunks :: "batch_item list \<Rightarrow> compiled_chunk list res" where
  "run_chunks run =
     (let contract = snd (snd (hd run)) in
      rbind (py_int (dget contract ''max_batch_size'')) (\<lambda>max_batch_size.
      rmapM (compile_chunk contract) (filter (\<lambda>chunk. 2 \<le> length chunk) (chunks (nat max_batch_size) run))))"

definition group_chunks :: "batch_item list \<Rightarrow> compiled_chunk list res" where
  "group_chunks grouped =
     rbind (build_runs (sort_key fst grouped) []) (\<lambda>runs.
     rbind (rmapM run_chunks runs) (\<lambda>ccs. Inr (concat ccs)))"

definition chunk_positions :: "compiled_chunk \<Rightarrow> nat list" where
  "chunk_positions c = map fst (cc_items c)"

definition chunk_start :: "compiled_chunk \<Rightarrow> nat" where
  "chunk_start c = Min (set (chunk_positions c))"

definition replace_calls :: "compiled_chunk list \<Rightarrow> llm_tool_call list \<Rightarrow> llm_tool_call list" where
  "replace_calls ccs calls =
     List.map_filter (\<lambda>(position, call).
        case map_of (rev (map (\<lambda>c. (chunk_start c, cc_call c)) ccs)) position of
          Some compiled \<Rightarrow> Some compiled
        | None \<Rightarrow> if position \<in> set (concat (map chunk_positions ccs)) then None else Some call)
      (enumerate 0 calls)"

definition compile_batchable_calls ::
  "llm_tool_call list \<Rightarrow> tool_registry \<Rightarrow> bool \<Rightarrow> (llm_tool_call list \<times> pydict list) res" where
  "compile_batchable_calls calls registry allow_batching =
     (if \<not> allow_batching then Inr (calls, [])
      else
        rbind (rmapM (group_chunks \<circ> snd) (batch_candidates registry calls)) (\<lambda>groups.
        let ccs = concat groups in
        if ccs = [] then Inr (calls, [])
        else Inr (replace_calls ccs calls, map cc_event ccs)))"

section \<open>Tilings of a list\<close>

text \<open>Segments that start at the positions in \<open>S\<close> and cover a list rebuild it, in order.\<close>

lemma map_filter_simps [simp]:
  "List.map_filter f [] = []"
  "List.map_filter f (x # xs) = (case f x of None \<Rightarrow> List.map_filter f xs | Some y \<Rightarrow> y # List.map_filter f xs)"
  by (simp_all add: map_filter_def split: option.splits)

lemma map_filter_append [simp]: "List.map_filter f (xs @ ys) = List.map_filter f xs @ List.map_filter f ys"
  by (simp add: map_filter_def)

lemma map_filter_None: "(\<And>x. x \<in> set xs \<Longrightarrow> f x = None) \<Longrightarrow> List.map_filter f xs = []"
  by (induction xs) auto

lemma tiling:
  assumes step: "\<And>p. p \<in> S \<Longrightarrow> p < length xs \<Longrightarrow> \<exists>k b. 0 < k \<and> p + k \<le> length xs \<and> f p = Some (take k (drop p xs), b)
      \<and> (\<forall>q. p < q \<and> q < p + k \<longrightarrow> f q = None) \<and> (p + k \<in> S \<or> p + k = length xs)"
    and "p \<in> S \<or> p = length xs"
  shows "p \<le> length xs \<Longrightarrow> concat (map fst (List.map_filter f [p..<length xs])) = drop p xs"
  using assms(2)
proof (induction "length xs - p" arbitrary: p rule: less_induct)
  case less
  show ?case
  proof (cases "p = length xs")
    case True
    then show ?thesis by simp
  next
    case False
    with less.prems have p: "p \<in> S" "p < length xs" by auto
    from step [OF this] obtain k b where k: "0 < k" "p + k \<le> length xs" and f: "f p = Some (take k (drop p xs), b)"
      and gap: "\<forall>q. p < q \<and> q < p + k \<longrightarrow> f q = None" and nxt: "p + k \<in> S \<or> p + k = length xs" by blast
    have "[p..<length xs] = p # [Suc p..<p + k] @ [p + k..<length xs]"
      using k upt_add_eq_append [of p "p + k" "length xs - (p + k)"] by (simp add: upt_conv_Cons)
    moreover have "List.map_filter f [Suc p..<p + k] = []" using gap by (intro map_filter_None) auto
    moreover have "concat (map fst (List.map_filter f [p + k..<length xs])) = drop (p + k) xs"
      using less.hyps [of "p + k"] k p nxt by auto
    ultimately show ?thesis
      using f by (simp add: add.commute [of p k] drop_drop [symmetric] del: drop_drop)
  qed
qed

lemma distinct_concat_unique:
  "distinct (concat (map g xs)) \<Longrightarrow> x \<in> set xs \<Longrightarrow> y \<in> set xs \<Longrightarrow> q \<in> set (g x) \<Longrightarrow> q \<in> set (g y) \<Longrightarrow> x = y"
  by (induction xs) auto

lemma subseq_concat_filter: "subseq (concat (filter P xss)) (concat xss)"
  by (induction xss) (auto intro: list_emb_append_mono)

lemma successively_take: "successively P xs \<Longrightarrow> successively P (take n xs)"
  by (metis append_take_drop_id successively_append_iff)

lemma successively_drop: "successively P xs \<Longrightarrow> successively P (drop n xs)"
  by (metis append_take_drop_id successively_append_iff)

section \<open>Runs and chunks\<close>

abbreviation contiguous_run :: "batch_item list \<Rightarrow> bool" where
  "contiguous_run r \<equiv> r \<noteq> [] \<and> successively (\<lambda>x y. continues_run x y = Inr True) r"

lemma build_runs_Inr:
  "build_runs grouped runs = Inr rs \<Longrightarrow> \<forall>r \<in> set runs. contiguous_run r \<Longrightarrow>
     concat rs = concat runs @ grouped \<and> (\<forall>r \<in> set rs. contiguous_run r)"
proof (induction grouped arbitrary: runs)
  case Nil
  then show ?case by simp
next
  case (Cons item grouped)
  show ?case
  proof (cases runs rule: rev_cases)
    case Nil
    with Cons.prems Cons.IH [of "[[item]]"] show ?thesis by simp
  next
    case (snoc runs0 r)
    with Cons.prems(1) obtain c where c: "continues_run (last r) item = Inr c" by auto
    show ?thesis
    proof (cases c)
      case True
      with c Cons.prems(2) snoc have "contiguous_run (r @ [item])" by (simp add: successively_append_iff)
      then have ok: "\<forall>r' \<in> set (runs0 @ [r @ [item]]). contiguous_run r'" using Cons.prems(2) snoc by simp
      have "build_runs grouped (runs0 @ [r @ [item]]) = Inr rs"
        using Cons.prems(1) snoc c True by simp
      from Cons.IH [OF this ok] show ?thesis by (simp add: snoc)
    next
      case False
      have ok: "\<forall>r' \<in> set (runs @ [[item]]). contiguous_run r'" using Cons.prems(2) by simp
      have "build_runs grouped (runs @ [[item]]) = Inr rs"
        using Cons.prems(1) snoc c False by simp
      from Cons.IH [OF this ok] show ?thesis by simp
    qed
  qed
qed

lemma chunks_concat: "0 < n \<Longrightarrow> concat (chunks n xs) = xs"
  by (induction n xs rule: chunks.induct) (subst chunks.simps, auto)

lemma chunks_mem:
  "c \<in> set (chunks n xs) \<Longrightarrow> successively P xs \<Longrightarrow> c \<noteq> [] \<and> length c \<le> n \<and> successively P c \<and> set c \<subseteq> set xs"
proof (induction n xs rule: chunks.induct)
  case (1 n xs)
  then have ne: "\<not> (xs = [] \<or> n = 0)" by (auto simp: chunks.simps [of n xs] split: if_splits)
  with 1(2) have "c = take n xs \<or> c \<in> set (chunks n (drop n xs))" by (simp add: chunks.simps [of n xs])
  then show ?case
  proof
    assume "c = take n xs"
    with ne 1(3) show ?thesis by (auto simp: successively_take dest: in_set_takeD)
  next
    assume "c \<in> set (chunks n (drop n xs))"
    from 1(1) [OF ne this successively_drop [OF 1(3)]] show ?thesis by (auto dest: in_set_dropD)
  qed
qed

text \<open>What is known of a compiled chunk: a contiguous run of at least two grouped items and the call
  that \<open>batch_arguments\<close> makes of them.\<close>

definition good_chunk :: "batch_item list \<Rightarrow> compiled_chunk \<Rightarrow> bool" where
  "good_chunk grouped c \<longleftrightarrow>
     2 \<le> length (cc_items c) \<and> set (cc_items c) \<subseteq> set grouped
     \<and> successively (\<lambda>x y. continues_run x y = Inr True) (cc_items c)
     \<and> (\<exists>contract \<in> (snd \<circ> snd) ` set grouped. \<exists>m. py_int (dget contract ''max_batch_size'') = Inr m
          \<and> int (length (cc_items c)) \<le> m \<and> compile_chunk contract (cc_items c) = Inr c)"

lemma compile_chunk_items: "compile_chunk contract chunk = Inr c \<Longrightarrow> cc_items c = chunk"
  by (auto simp: compile_chunk_def Let_def)

lemma compile_chunk_call:
  assumes "compile_chunk contract chunk = Inr c"
  shows "batch_arguments contract (map (fst \<circ> snd) chunk) = Inr (tc_arguments (cc_call c))"
    and "tc_id (cc_call c) = tc_id (fst (snd (hd chunk)))" "tc_name (cc_call c) = tc_name (fst (snd (hd chunk)))"
      "tc_failure_policy (cc_call c) = tc_failure_policy (fst (snd (hd chunk)))"
  using assms by (auto simp: compile_chunk_def Let_def LLMToolCall_def)

lemma rmapM_map: "rmapM f xs = Inr ys \<Longrightarrow> (\<And>x y. f x = Inr y \<Longrightarrow> g y = x) \<Longrightarrow> map g ys = xs"
  by (induction xs arbitrary: ys) auto

lemma run_chunks_Inr:
  assumes "run_chunks run = Inr ccs" and "run \<noteq> []"
    and run: "successively (\<lambda>x y. continues_run x y = Inr True) run" and sub: "set run \<subseteq> set grouped"
  shows "subseq (concat (map cc_items ccs)) run \<and> (\<forall>c \<in> set ccs. good_chunk grouped c)"
proof -
  let ?ct = "snd (snd (hd run))"
  from assms(1) obtain m where m: "py_int (dget ?ct ''max_batch_size'') = Inr m"
    and ccs: "rmapM (compile_chunk ?ct) (filter (\<lambda>chunk. 2 \<le> length chunk) (chunks (nat m) run)) = Inr ccs"
    by (auto simp: run_chunks_def Let_def)
  have items: "map cc_items ccs = filter (\<lambda>chunk. 2 \<le> length chunk) (chunks (nat m) run)"
    by (rule rmapM_map [OF ccs compile_chunk_items])
  have "subseq (concat (map cc_items ccs)) run"
  proof (cases "nat m = 0")
    case True
    then show ?thesis using items by (simp add: chunks.simps)
  next
    case False
    then show ?thesis unfolding items
      using subseq_concat_filter [of _ "chunks (nat m) run"] chunks_concat [of "nat m" run] by simp
  qed
  moreover have "good_chunk grouped c" if c: "c \<in> set ccs" for c
  proof -
    from rmapM_mem [OF ccs c] obtain chunk where chunk: "chunk \<in> set (filter (\<lambda>chunk. 2 \<le> length chunk) (chunks (nat m) run))"
      "compile_chunk ?ct chunk = Inr c" by blast
    then have ch: "cc_items c = chunk" by (simp add: compile_chunk_items)
    from chunk(1) have mem: "chunk \<in> set (chunks (nat m) run)" "2 \<le> length chunk" by simp_all
    from chunks_mem [OF mem(1) run] have len: "length chunk \<le> nat m" and sc: "set chunk \<subseteq> set run"
      and succ: "successively (\<lambda>x y. continues_run x y = Inr True) chunk" by blast+
    have "int (length chunk) \<le> m" using len mem(2) by linarith
    moreover have "?ct \<in> (snd \<circ> snd) ` set grouped" using assms(2) sub by (cases run) auto
    ultimately show ?thesis using sc sub succ mem(2) m chunk(2) unfolding good_chunk_def ch by blast
  qed
  ultimately show ?thesis by blast
qed

lemma rmapM_concat_subseq:
  assumes "rmapM f xss = Inr yss" "\<And>xs ys. xs \<in> set xss \<Longrightarrow> f xs = Inr ys \<Longrightarrow> subseq (concat (map g ys)) xs \<and> (\<forall>y \<in> set ys. Q y)"
  shows "subseq (concat (map g (concat yss))) (concat xss) \<and> (\<forall>y \<in> set (concat yss). Q y)"
  using assms
proof (induction xss arbitrary: yss)
  case Nil
  then show ?case by simp
next
  case (Cons xs xss)
  then obtain ys yss' where f: "f xs = Inr ys" and rest: "rmapM f xss = Inr yss'" and "yss = ys # yss'" by auto
  with Cons.IH [OF rest] Cons.prems(2) [OF _ f] Cons.prems(2) show ?case
    by (auto intro!: list_emb_append_mono)
qed

lemma group_chunks_Inr:
  assumes "group_chunks grouped = Inr ccs"
  shows "subseq (concat (map cc_items ccs)) (sort_key fst grouped) \<and> (\<forall>c \<in> set ccs. good_chunk grouped c)"
proof -
  from assms obtain runs yss where b: "build_runs (sort_key fst grouped) [] = Inr runs"
    and r: "rmapM run_chunks runs = Inr yss" and ccs: "ccs = concat yss" by (auto simp: group_chunks_def)
  from build_runs_Inr [OF b] have runs: "concat runs = sort_key fst grouped"
    and each: "\<And>r. r \<in> set runs \<Longrightarrow> r \<noteq> [] \<and> successively (\<lambda>x y. continues_run x y = Inr True) r" by auto
  have "set r \<subseteq> set grouped" if "r \<in> set runs" for r
  proof -
    have "set r \<subseteq> set (concat runs)" using that by auto
    then show ?thesis by (simp add: runs)
  qed
  then have "subseq (concat (map cc_items ys)) run \<and> (\<forall>c \<in> set ys. good_chunk grouped c)"
    if "run \<in> set runs" "run_chunks run = Inr ys" for run ys
    using run_chunks_Inr [OF that(2)] each [OF that(1)] that(1) by blast
  from rmapM_concat_subseq [OF r this] show ?thesis
    unfolding ccs runs [symmetric] by blast
qed

section \<open>Candidates\<close>

definition good_item :: "tool_registry \<Rightarrow> string list \<Rightarrow> llm_tool_call list \<Rightarrow> group_key \<Rightarrow> batch_item \<Rightarrow> bool" where
  "good_item registry refs calls key = (\<lambda>(p, call, contract).
     p < length calls \<and> calls ! p = call \<and> batch_contract registry refs call = Some contract
     \<and> candidate_key call contract = key)"

definition good_group :: "tool_registry \<Rightarrow> string list \<Rightarrow> llm_tool_call list \<Rightarrow> group_key \<Rightarrow> batch_item list \<Rightarrow> bool" where
  "good_group registry refs calls key grouped \<longleftrightarrow>
     sorted_wrt (<) (map fst grouped) \<and> (\<forall>it \<in> set grouped. good_item registry refs calls key it)"

definition good_candidates ::
  "tool_registry \<Rightarrow> string list \<Rightarrow> llm_tool_call list \<Rightarrow> (group_key \<times> batch_item list) list \<Rightarrow> bool" where
  "good_candidates registry refs calls cands \<longleftrightarrow>
     distinct (map fst cands)
     \<and> (\<forall>kg \<in> set cands. good_group registry refs calls (fst kg) (snd kg))"

lemma good_item_snoc: "good_item registry refs calls key it \<Longrightarrow> good_item registry refs (calls @ [c]) key it"
  by (cases it) (auto simp: good_item_def nth_append)

lemma good_group_snoc: "good_group registry refs calls key g \<Longrightarrow> good_group registry refs (calls @ [c]) key g"
  by (simp add: good_group_def good_item_snoc)

lemma good_item_new:
  "batch_contract registry refs c = Some ct \<Longrightarrow>
     good_item registry refs (calls @ [c]) (candidate_key c ct) (length calls, c, ct)"
  by (simp add: good_item_def)

lemma good_group_add:
  assumes "good_group registry refs calls (candidate_key c ct) g" and "batch_contract registry refs c = Some ct"
  shows "good_group registry refs (calls @ [c]) (candidate_key c ct) (g @ [(length calls, c, ct)])"
proof -
  have "fst it < length calls" if "it \<in> set g" for it
    using assms(1) that by (cases it) (auto simp: good_group_def good_item_def)
  with good_group_snoc [OF assms(1)] good_item_new [OF assms(2)] show ?thesis
    by (auto simp: good_group_def sorted_wrt_append simp del: split_paired_All)
qed

lemma alist_update_mem: "kv \<in> set (AList.update k v al) \<Longrightarrow> kv \<in> set al \<or> kv = (k, v)"
  by (induction al) (auto split: if_splits)

lemma good_candidates_step:
  assumes "good_candidates registry refs calls cands"
  shows "good_candidates registry refs (calls @ [c]) (add_candidate registry refs (length calls, c) cands)"
proof (cases "batch_contract registry refs c")
  case None
  with assms show ?thesis
    by (simp add: add_candidate_def good_candidates_def good_group_snoc)
next
  case (Some ct)
  let ?key = "candidate_key c ct"
  let ?g = "case map_of cands ?key of None \<Rightarrow> [] | Some g \<Rightarrow> g"
  have g: "good_group registry refs calls ?key ?g"
    using assms by (cases "map_of cands ?key") (auto simp: good_candidates_def good_group_def dest: map_of_SomeD)
  let ?g' = "?g @ [(length calls, c, ct)]"
  note g' = good_group_add [OF g Some]
  have add: "add_candidate registry refs (length calls, c) cands = AList.update ?key ?g' cands"
    by (simp add: add_candidate_def Some Let_def)
  have "good_group registry refs (calls @ [c]) (fst kg) (snd kg)" if "kg \<in> set (AList.update ?key ?g' cands)" for kg
    using alist_update_mem [OF that] assms g' by (auto simp: good_candidates_def intro: good_group_snoc)
  with assms show ?thesis
    unfolding good_candidates_def add by (simp add: distinct_update)
qed

lemma batch_candidates_good:
  "good_candidates registry refs calls (fold (add_candidate registry refs) (enumerate 0 calls) [])"
proof (induction calls rule: rev_induct)
  case Nil
  then show ?case by (simp add: good_candidates_def)
next
  case (snoc c calls)
  from good_candidates_step [OF this, of c] show ?case by (simp add: enumerate_append_eq)
qed

section \<open>Correctness of the compilation\<close>

lemma subseq_distinct_set: "subseq xs ys \<Longrightarrow> distinct ys \<Longrightarrow> distinct xs \<and> set xs \<subseteq> set ys"
  by (induction rule: list_emb.induct) auto

lemma disjoint_mono: "A \<subseteq> A' \<Longrightarrow> B \<subseteq> B' \<Longrightarrow> A' \<inter> B' = {} \<Longrightarrow> A \<inter> B = {}"
  by blast

lemma chunk_positions_concat: "concat (map chunk_positions ccs) = map fst (concat (map cc_items ccs))"
  by (induction ccs) (simp_all add: chunk_positions_def)

lemma group_positions:
  assumes "group_chunks grouped = Inr ccs" "good_group registry refs calls key grouped"
  shows "distinct (concat (map chunk_positions ccs)) \<and> set (concat (map chunk_positions ccs)) \<subseteq> fst ` set grouped"
proof -
  from assms(2) have s: "sorted (map fst grouped)" "distinct (map fst grouped)"
    by (auto simp: good_group_def strict_sorted_iff)
  from group_chunks_Inr [OF assms(1)] have "subseq (concat (map cc_items ccs)) grouped"
    by (simp add: sort_key_id_if_sorted s(1))
  from subseq_map [OF this, of fst] have "subseq (concat (map chunk_positions ccs)) (map fst grouped)"
    by (simp add: chunk_positions_concat)
  from subseq_distinct_set [OF this s(2)] show ?thesis by simp
qed

lemma good_item_key:
  "good_item registry refs calls key (p, x) \<Longrightarrow> good_item registry refs calls key' (p, y) \<Longrightarrow> key = key'"
  by (cases x; cases y) (auto simp: good_item_def)

lemma candidates_positions:
  assumes "rmapM (group_chunks \<circ> snd) cands = Inr groups"
    and "good_candidates registry refs calls cands"
  shows "distinct (concat (map chunk_positions (concat groups)))
    \<and> set (concat (map chunk_positions (concat groups))) \<subseteq> (\<Union>kg \<in> set cands. fst ` set (snd kg))
    \<and> (\<forall>c \<in> set (concat groups). \<exists>kg \<in> set cands. good_chunk (snd kg) c)"
  using assms
proof (induction cands arbitrary: groups)
  case Nil
  then show ?case by simp
next
  case (Cons kg cands)
  from Cons.prems(1) obtain ccs groups' where one: "group_chunks (snd kg) = Inr ccs"
    and rest: "rmapM (group_chunks \<circ> snd) cands = Inr groups'" and gs: "groups = ccs # groups'" by (auto simp: comp_def)
  have good: "good_candidates registry refs calls cands" "good_group registry refs calls (fst kg) (snd kg)"
    using Cons.prems(2) by (simp_all add: good_candidates_def)
  note IH = Cons.IH [OF rest good(1)] and pos = group_positions [OF one good(2)]
  let ?P = "\<lambda>ccs. concat (map chunk_positions ccs)"
  have disj: "fst ` set (snd kg) \<inter> (\<Union>kg' \<in> set cands. fst ` set (snd kg')) = {}"
  proof (rule ccontr)
    assume "\<not> ?thesis"
    then obtain p x y kg' where kg': "kg' \<in> set cands" and in1: "(p, x) \<in> set (snd kg)" and in2: "(p, y) \<in> set (snd kg')" by auto
    have "good_group registry refs calls (fst kg') (snd kg')" using good(1) kg' by (simp add: good_candidates_def)
    with in1 in2 good(2) have "fst kg = fst kg'" unfolding good_group_def by (meson good_item_key)
    then have "fst kg \<in> set (map fst cands)" using kg' by simp
    with Cons.prems(2) show False by (simp add: good_candidates_def)
  qed
  have app: "?P (concat groups) = ?P ccs @ ?P (concat groups')" by (simp add: gs)
  have "set (?P ccs) \<inter> set (?P (concat groups')) = {}"
    by (rule disjoint_mono [OF conjunct2 [OF pos] conjunct1 [OF conjunct2 [OF IH]] disj])
  then have "distinct (?P (concat groups))"
    unfolding app distinct_append using conjunct1 [OF IH] conjunct1 [OF pos] by (intro conjI)
  moreover have "set (?P (concat groups)) \<subseteq> (\<Union>kg' \<in> set (kg # cands). fst ` set (snd kg'))"
    using conjunct1 [OF conjunct2 [OF IH]] conjunct2 [OF pos] unfolding app set_append list.set UN_insert by (rule Un_mono [rotated])
  moreover have "\<forall>c \<in> set ccs. good_chunk (snd kg) c" using group_chunks_Inr [OF one] by blast
  then have "\<forall>c \<in> set (concat groups). \<exists>kg' \<in> set (kg # cands). good_chunk (snd kg') c"
    using IH unfolding gs by auto
  ultimately show ?case by blast
qed

text \<open>The positions of a chunk are an interval.\<close>

lemma successively_interval:
  "successively (\<lambda>x y. fst y = fst x + (1::nat)) xs \<Longrightarrow> xs \<noteq> [] \<Longrightarrow> map fst xs = [fst (hd xs)..<fst (hd xs) + length xs]"
proof (induction xs)
  case Nil
  then show ?case by simp
next
  case (Cons x xs)
  show ?case
  proof (cases xs)
    case Nil
    then show ?thesis by simp
  next
    case (Cons y ys)
    with Cons.prems Cons.IH have "map fst xs = [Suc (fst x)..<Suc (fst x) + length xs]" by (simp del: upt_Suc)
    then show ?thesis using upt_conv_Cons [of "fst x" "fst x + length (x # xs)"] by (simp del: upt_Suc)
  qed
qed

lemma continues_run_position: "continues_run x y = Inr True \<Longrightarrow> fst y = fst x + 1"
  by (auto simp: continues_run_def Let_def split: if_splits)

lemma good_chunk_interval:
  assumes "good_chunk grouped c"
  shows "chunk_positions c = [chunk_start c..<chunk_start c + length (cc_items c)]" "2 \<le> length (cc_items c)"
    "chunk_start c = fst (hd (cc_items c))"
proof -
  show len: "2 \<le> length (cc_items c)" using assms by (simp add: good_chunk_def)
  then have ne: "cc_items c \<noteq> []" by auto
  have "successively (\<lambda>x y. fst y = fst x + 1) (cc_items c)"
  proof (rule successively_mono)
    show "successively (\<lambda>x y. continues_run x y = Inr True) (cc_items c)" using assms by (simp add: good_chunk_def)
  qed (rule continues_run_position)
  from successively_interval [OF this ne]
  have pos: "chunk_positions c = [fst (hd (cc_items c))..<fst (hd (cc_items c)) + length (cc_items c)]"
    by (simp add: chunk_positions_def)
  then show "chunk_start c = fst (hd (cc_items c))"
    using ne by (simp add: chunk_start_def) (rule Min_eqI, auto)
  with pos show "chunk_positions c = [chunk_start c..<chunk_start c + length (cc_items c)]" by simp
qed

text \<open>The source calls and the resulting call of each surviving position.\<close>

definition segment_of :: "compiled_chunk list \<Rightarrow> llm_tool_call list \<Rightarrow> nat \<Rightarrow> (llm_tool_call list \<times> llm_tool_call) option" where
  "segment_of ccs calls p =
     (case find (\<lambda>c. chunk_start c = p) (rev ccs) of
        Some c \<Rightarrow> Some (map (fst \<circ> snd) (cc_items c), cc_call c)
      | None \<Rightarrow> if p \<in> set (concat (map chunk_positions ccs)) then None else Some ([calls ! p], calls ! p))"

lemma map_of_find: "map_of (map (\<lambda>c. (k c, v c)) xs) p = map_option v (find (\<lambda>c. k c = p) xs)"
  by (induction xs) auto

lemma replace_calls_segments:
  "replace_calls ccs calls = map snd (List.map_filter (segment_of ccs calls) [0..<length calls])"
proof -
  have en: "enumerate 0 calls = map (\<lambda>p. (p, calls ! p)) [0..<length calls]"
    by (rule nth_equalityI) (auto simp: nth_enumerate_eq)
  have mf: "List.map_filter g (map h ps) = List.map_filter (\<lambda>p. g (h p)) ps" for g :: "nat \<times> llm_tool_call \<Rightarrow> llm_tool_call option" and h :: "nat \<Rightarrow> nat \<times> llm_tool_call" and ps
    by (induction ps) (auto split: option.splits)
  have ms: "map snd (List.map_filter g ps) = List.map_filter (\<lambda>p. map_option snd (g p)) ps" for g :: "nat \<Rightarrow> (llm_tool_call list \<times> llm_tool_call) option" and ps
    by (induction ps) (auto split: option.splits)
  show ?thesis
    unfolding replace_calls_def en mf ms prod.case rev_map map_of_find segment_of_def
    by (intro arg_cong2 [where f = List.map_filter] ext refl) (simp split: option.splits)
qed

lemma replace_calls_Nil: "replace_calls [] calls = calls"
proof -
  have "List.map_filter (\<lambda>p. Some (g p)) ps = map g ps" for g :: "nat \<Rightarrow> llm_tool_call list \<times> llm_tool_call" and ps
    by (induction ps) simp_all
  moreover have "segment_of [] calls = (\<lambda>p. Some ([calls ! p], calls ! p))" by (rule ext) (simp add: segment_of_def)
  ultimately show ?thesis by (simp add: replace_calls_segments comp_def map_nth)
qed

definition disjoint_chunks :: "compiled_chunk list \<Rightarrow> llm_tool_call list \<Rightarrow> bool" where
  "disjoint_chunks ccs calls \<longleftrightarrow>
     distinct (concat (map chunk_positions ccs))
     \<and> (\<forall>c \<in> set ccs. chunk_positions c = [chunk_start c..<chunk_start c + length (cc_items c)] \<and> cc_items c \<noteq> []
          \<and> (\<forall>it \<in> set (cc_items c). fst it < length calls \<and> calls ! fst it = fst (snd it)))"

lemma position_iff:
  "disjoint_chunks ccs calls \<Longrightarrow> c \<in> set ccs \<Longrightarrow>
     q \<in> set (chunk_positions c) \<longleftrightarrow> chunk_start c \<le> q \<and> q < chunk_start c + length (cc_items c)"
  by (simp add: disjoint_chunks_def)

lemma start_in: "disjoint_chunks ccs calls \<Longrightarrow> c \<in> set ccs \<Longrightarrow> chunk_start c \<in> set (chunk_positions c)"
  by (simp add: disjoint_chunks_def)

lemma chunk_unique:
  "disjoint_chunks ccs calls \<Longrightarrow> c \<in> set ccs \<Longrightarrow> c' \<in> set ccs \<Longrightarrow> q \<in> set (chunk_positions c) \<Longrightarrow>
     q \<in> set (chunk_positions c') \<Longrightarrow> c = c'"
  unfolding disjoint_chunks_def by (blast dest: distinct_concat_unique)

lemma chunk_calls:
  assumes "disjoint_chunks ccs calls" "c \<in> set ccs"
  shows "chunk_start c + length (cc_items c) \<le> length calls"
    and "map (fst \<circ> snd) (cc_items c) = take (length (cc_items c)) (drop (chunk_start c) calls)"
proof -
  from assms have c: "map fst (cc_items c) = [chunk_start c..<chunk_start c + length (cc_items c)]" "cc_items c \<noteq> []"
    and items: "\<And>it. it \<in> set (cc_items c) \<Longrightarrow> fst it < length calls \<and> calls ! fst it = fst (snd it)"
    by (auto simp: disjoint_chunks_def chunk_positions_def)
  have nth: "fst (cc_items c ! i) = chunk_start c + i" if "i < length (cc_items c)" for i
  proof -
    have "map fst (cc_items c) ! i = chunk_start c + i" unfolding c(1) using that by simp
    with that show ?thesis by simp
  qed
  have it: "chunk_start c + i < length calls \<and> calls ! (chunk_start c + i) = fst (snd (cc_items c ! i))"
    if "i < length (cc_items c)" for i
    using items [OF nth_mem [OF that]] nth [OF that] by simp
  have "length (cc_items c) - 1 < length (cc_items c)" using c(2) by simp
  from it [OF this] this show len: "chunk_start c + length (cc_items c) \<le> length calls" by linarith
  show "map (fst \<circ> snd) (cc_items c) = take (length (cc_items c)) (drop (chunk_start c) calls)"
    by (rule nth_equalityI) (use len it in auto)
qed

lemma find_in_set: "find P xs = Some x \<Longrightarrow> x \<in> set xs \<and> P x"
  by (induction xs) (auto split: if_splits)

lemma segment_start:
  assumes "disjoint_chunks ccs calls" "c \<in> set ccs"
  shows "segment_of ccs calls (chunk_start c) = Some (map (fst \<circ> snd) (cc_items c), cc_call c)"
proof -
  have "find (\<lambda>c'. chunk_start c' = chunk_start c) (rev ccs) \<noteq> None"
    using assms(2) by (auto simp: find_None_iff)
  then obtain c' where c': "find (\<lambda>c'. chunk_start c' = chunk_start c) (rev ccs) = Some c'" by blast
  from find_in_set [OF this] have "c' \<in> set ccs" "chunk_start c' = chunk_start c" by auto
  with chunk_unique [OF assms(1,2)] start_in [OF assms] start_in [OF assms(1)] have "c' = c" by metis
  with c' show ?thesis by (simp add: segment_of_def)
qed

lemma segment_other:
  assumes "disjoint_chunks ccs calls" "\<And>c. c \<in> set ccs \<Longrightarrow> chunk_start c \<noteq> p"
  shows "segment_of ccs calls p =
    (if \<exists>c \<in> set ccs. p \<in> set (chunk_positions c) then None else Some ([calls ! p], calls ! p))"
proof -
  have "find (\<lambda>c. chunk_start c = p) (rev ccs) = None" using assms(2) by (auto simp: find_None_iff)
  then show ?thesis by (simp add: segment_of_def)
qed

text \<open>Positions where a segment begins.\<close>

definition segment_starts :: "compiled_chunk list \<Rightarrow> nat set" where
  "segment_starts ccs = {p. (\<forall>c \<in> set ccs. p \<in> set (chunk_positions c) \<longrightarrow> chunk_start c = p)}"

lemma segments_tile:
  assumes dc: "disjoint_chunks ccs calls"
  shows "concat (map fst (List.map_filter (segment_of ccs calls) [0..<length calls])) = calls"
proof -
  have "concat (map fst (List.map_filter (segment_of ccs calls) [0..<length calls])) = drop 0 calls"
  proof (rule tiling [where S = "segment_starts ccs"])
    show "0 \<in> segment_starts ccs \<or> 0 = length calls"
      using position_iff [OF dc] by (auto simp: segment_starts_def)
  next
    fix p assume p: "p \<in> segment_starts ccs" "p < length calls"
    show "\<exists>k b. 0 < k \<and> p + k \<le> length calls \<and> segment_of ccs calls p = Some (take k (drop p calls), b)
        \<and> (\<forall>q. p < q \<and> q < p + k \<longrightarrow> segment_of ccs calls q = None) \<and> (p + k \<in> segment_starts ccs \<or> p + k = length calls)"
    proof (cases "\<exists>c \<in> set ccs. chunk_start c = p")
      case True
      then obtain c where c: "c \<in> set ccs" "chunk_start c = p" by blast
      let ?k = "length (cc_items c)"
      have k: "0 < ?k" using dc c(1) by (simp add: disjoint_chunks_def)
      have in_c: "q \<in> set (chunk_positions c)" if "p \<le> q" "q < p + ?k" for q
        using position_iff [OF dc c(1)] that c(2) by simp
      have gap: "segment_of ccs calls q = None" if q: "p < q" "q < p + ?k" for q
      proof -
        have "chunk_start c' \<noteq> q" if "c' \<in> set ccs" for c'
          using chunk_unique [OF dc that c(1), of q] start_in [OF dc that] in_c [of q] q c(2) by auto
        with segment_other [OF dc] in_c [of q] q c(1) show ?thesis by auto
      qed
      have "p + ?k \<in> segment_starts ccs"
      proof -
        have "chunk_start c' = p + ?k" if c': "c' \<in> set ccs" "p + ?k \<in> set (chunk_positions c')" for c'
        proof (rule ccontr)
          assume "chunk_start c' \<noteq> p + ?k"
          moreover from c'(2) have "chunk_start c' \<le> p + ?k \<and> p + ?k < chunk_start c' + length (cc_items c')"
            unfolding position_iff [OF dc c'(1)] .
          ultimately have "p + ?k - 1 \<in> set (chunk_positions c')"
            unfolding position_iff [OF dc c'(1)] using k by linarith
          moreover have "p + ?k - 1 \<in> set (chunk_positions c)" by (rule in_c) (use k in linarith)+
          ultimately have "c' = c" by (rule chunk_unique [OF dc c'(1) c(1)])
          with c'(2) position_iff [OF dc c(1)] c(2) show False by simp
        qed
        then show ?thesis by (simp add: segment_starts_def)
      qed
      moreover have "segment_of ccs calls p = Some (take ?k (drop p calls), cc_call c)"
        by (rule segment_start [OF dc c(1), unfolded chunk_calls(2) [OF dc c(1)] c(2)])
      moreover have "p + ?k \<le> length calls" using chunk_calls(1) [OF dc c(1)] c(2) by simp
      ultimately show ?thesis using k gap by blast
    next
      case False
      with p(1) have no: "\<forall>c \<in> set ccs. p \<notin> set (chunk_positions c)" by (auto simp: segment_starts_def)
      have "p + 1 \<in> segment_starts ccs"
      proof -
        have "chunk_start c = p + 1" if c: "c \<in> set ccs" "p + 1 \<in> set (chunk_positions c)" for c
          using no c position_iff [OF dc c(1)] by auto
        then show ?thesis by (simp add: segment_starts_def)
      qed
      moreover have "segment_of ccs calls p = Some (take 1 (drop p calls), calls ! p)"
        using segment_other [OF dc, of p] False no p(2) by (auto simp: take_Suc hd_drop_conv_nth)
      ultimately show ?thesis using p(2) by (intro exI [of _ 1] exI [of _ "calls ! p"]) auto
    qed
  qed simp
  then show ?thesis by simp
qed

lemma segment_cases:
  assumes "segment_of ccs calls p = Some (src, call)"
  obtains "src = [call]" | c where "c \<in> set ccs" "src = map (fst \<circ> snd) (cc_items c)" "call = cc_call c"
  using assms by (auto simp: segment_of_def dest!: find_in_set split: option.splits if_splits)

text \<open>The registry declares at most one contract per tool, source action and grouping.\<close>

definition unambiguous_contracts :: "tool_registry \<Rightarrow> bool" where
  "unambiguous_contracts registry \<longleftrightarrow>
     list_all (\<lambda>(tool_id, _). let cs = tool_contracts registry tool_id in
       list_all (\<lambda>c1. list_all (\<lambda>c2. gets c1 ''source_action'' = gets c2 ''source_action''
           \<and> contract_group_by c1 = contract_group_by c2 \<longrightarrow> c1 = c2) cs) cs) registry"

text \<open>What the arguments of a compiled call must hold, read off the calls it replaces: the target action; under an index
  contract the first index as the start and the number of calls as the limit, the indices being consecutive; under a
  collecting contract the list of the scalar values of all calls, in their order. The scalar argument itself is gone,
  and every other argument is that of the first call.\<close>

definition batch_content :: "pydict \<Rightarrow> llm_tool_call list \<Rightarrow> pydict \<Rightarrow> bool" where
  "batch_content contract src args \<longleftrightarrow>
     (let index_arg = gets contract ''index_arg''; collect_arg = gets contract ''collect_arg'';
          start_arg = gets_or contract ''start_arg'' ''start_index''; limit_arg = gets_or contract ''limit_arg'' ''limit'';
          collection_arg = gets_or contract ''collection_arg'' (collect_arg @ ''s'');
          kept = (\<lambda>scalar k. if k = scalar then PNone
                    else if k = ''action'' then PStr (py_str (dget contract ''target_action''))
                    else dget (tc_arguments (hd src)) k)
      in (index_arg \<noteq> []) \<noteq> (collect_arg \<noteq> [])
         \<and> (index_arg \<noteq> [] \<longrightarrow>
              (\<exists>start. (\<forall>i < length src. int_argument (src ! i) index_arg = Inr (start + int i))
                 \<and> (\<forall>k. dget args k =
                      (if k = limit_arg then PInt (int (length src)) else if k = start_arg then PInt start else kept index_arg k))))
         \<and> (collect_arg \<noteq> [] \<longrightarrow>
              (\<forall>c \<in> set src. dget (tc_arguments c) collect_arg \<notin> {PNone, PStr []})
              \<and> (\<forall>k. dget args k =
                   (if k = collection_arg then PList (map (\<lambda>c. dget (tc_arguments c) collect_arg) src) else kept collect_arg k))))"

text \<open>A compiled call stands for a list of source calls: at least two independent calls of one tool and one source
  action with the same values of the grouping arguments, at most as many as their declared contract allows, with the
  content that the contract describes.\<close>

definition batches :: "tool_registry \<Rightarrow> string list \<Rightarrow> llm_tool_call list \<Rightarrow> llm_tool_call \<Rightarrow> bool" where
  "batches registry refs src call \<longleftrightarrow>
     2 \<le> length src \<and> tc_id call = tc_id (hd src) \<and> tc_name call = tc_name (hd src)
     \<and> tc_failure_policy call = tc_failure_policy (hd src)
     \<and> (\<exists>contract \<in> set (tool_contracts registry (canonical_tool_id (tc_name call))). \<exists>m.
          (\<forall>c \<in> set src. is_independent refs c \<and> canonical_tool_id (tc_name c) = canonical_tool_id (tc_name call)
              \<and> gets (tc_arguments c) ''action'' = gets contract ''source_action''
              \<and> (\<forall>k \<in> set (contract_group_by contract). freeze (dget (tc_arguments c) k) = freeze (dget (tc_arguments (hd src)) k)))
          \<and> py_int (dget contract ''max_batch_size'') = Inr m \<and> int (length src) \<le> m
          \<and> batch_content contract src (tc_arguments call))"

lemma batch_contract_declared:
  assumes "batch_contract registry refs call = Some contract"
  shows "is_independent refs call \<and> contract \<in> set (tool_contracts registry (canonical_tool_id (tc_name call)))"
  using assms by (auto simp: batch_contract_def dest: find_in_set split: if_splits)

lemma validated_contract_valid:
  assumes "validated_contract raw = Some contract"
  shows "(gets contract ''index_arg'' \<noteq> []) \<noteq> (gets contract ''collect_arg'' \<noteq> []) \<and> (\<exists>m. py_int (dget contract ''max_batch_size'') = Inr m)"
proof -
  let ?i = "py_strip (gets (as_dict raw) ''index_arg'')" and ?c = "py_strip (gets (as_dict raw) ''collect_arg'')"
  from assms obtain m where one: "(?i \<noteq> []) \<noteq> (?c \<noteq> [])"
    and contract: "contract = dupdate (as_dict raw)
               [(''source_action'', PStr (py_str (dget (as_dict raw) ''source_action''))),
                (''target_action'', PStr (py_str (dget (as_dict raw) ''target_action''))),
                (''index_arg'', PStr ?i), (''collect_arg'', PStr ?c), (''max_batch_size'', PInt m)]"
    unfolding validated_contract_def Let_def by (auto split: if_splits sum.splits)
  have "gets contract ''index_arg'' = ?i" "gets contract ''collect_arg'' = ?c" "dget contract ''max_batch_size'' = PInt m"
    unfolding contract dupdate.simps by (simp_all add: pysimps py_or_def)
  with one show ?thesis by simp
qed

lemma tool_contracts_valid:
  "contract \<in> set (tool_contracts registry tool) \<Longrightarrow>
     (gets contract ''index_arg'' \<noteq> []) \<noteq> (gets contract ''collect_arg'' \<noteq> []) \<and> (\<exists>m. py_int (dget contract ''max_batch_size'') = Inr m)"
  using validated_contract_valid by (fastforce simp: tool_contracts_def List.map_filter_def Let_def)

lemma int_argument_found: "\<not> isl (py_int (dget (tc_arguments call) k)) \<Longrightarrow> int_argument call k = py_int (dget (tc_arguments call) k)"
  by (cases "map_of (tc_arguments call) k") (simp_all add: int_argument_def dget_def dget_or_def py_int_def)

text \<open>Everything that a compilation reads of a grouped call is there.\<close>

lemma batch_contract_applies:
  assumes "batch_contract registry refs call = Some contract"
  shows "gets (tc_arguments call) ''action'' = gets contract ''source_action''"
    and "gets contract ''index_arg'' \<noteq> [] \<Longrightarrow> \<exists>v. int_argument call (gets contract ''index_arg'') = Inr v"
    and "gets contract ''index_arg'' = [] \<Longrightarrow> dget (tc_arguments call) (gets contract ''collect_arg'') \<notin> {PNone, PStr []}
      \<and> map_of (tc_arguments call) (gets contract ''collect_arg'') = Some (dget (tc_arguments call) (gets contract ''collect_arg''))"
proof -
  have applies: "contract_applies (tc_arguments call) contract"
    using assms by (auto simp: batch_contract_def dest: find_in_set split: if_splits)
  note valid = tool_contracts_valid [OF conjunct2 [OF batch_contract_declared [OF assms]]]
  show "gets (tc_arguments call) ''action'' = gets contract ''source_action''" using applies by (simp add: contract_applies_def Let_def)
  show "\<exists>v. int_argument call (gets contract ''index_arg'') = Inr v" if "gets contract ''index_arg'' \<noteq> []"
    using applies that by (auto simp: contract_applies_def Let_def int_argument_found isl_def) (metis isl_def sum.exhaust int_argument_found)
  assume "gets contract ''index_arg'' = []"
  with applies valid have found: "dget (tc_arguments call) (gets contract ''collect_arg'') \<notin> {PNone, PStr []}"
    by (auto simp: contract_applies_def Let_def)
  then show "dget (tc_arguments call) (gets contract ''collect_arg'') \<notin> {PNone, PStr []}
      \<and> map_of (tc_arguments call) (gets contract ''collect_arg'') = Some (dget (tc_arguments call) (gets contract ''collect_arg''))"
    by (auto simp: dget_def dget_or_def split: option.splits)
qed

lemma contract_unique:
  assumes "unambiguous_contracts registry"
    and "batch_contract registry refs c1 = Some ct1" "batch_contract registry refs c2 = Some ct2"
    and "candidate_key c1 ct1 = candidate_key c2 ct2"
  shows "ct1 = ct2"
proof -
  let ?t = "canonical_tool_id (tc_name c1)"
  from assms(4) have t: "canonical_tool_id (tc_name c2) = ?t" and same: "gets ct1 ''source_action'' = gets ct2 ''source_action''"
    "contract_group_by ct1 = contract_group_by ct2" by (auto simp: candidate_key_def group_key_of_def)
  from batch_contract_declared [OF assms(2)] batch_contract_declared [OF assms(3)] t
  have mem: "ct1 \<in> set (tool_contracts registry ?t)" "ct2 \<in> set (tool_contracts registry ?t)" by auto
  then have "map_of registry ?t \<noteq> None"
    by (cases "map_of registry ?t") (simp_all add: tool_contracts_def)
  then obtain e where "(?t, e) \<in> set registry" by (auto dest: map_of_SomeD)
  with assms(1) mem same show ?thesis unfolding unambiguous_contracts_def list_all_iff Let_def by blast
qed

lemma index_run:
  assumes "successively (\<lambda>x y. continues_run x y = Inr True) its" "its \<noteq> []"
    and "\<forall>it \<in> set its. gets (snd (snd it)) ''index_arg'' = a" "a \<noteq> []" "2 \<le> length its"
  shows "\<exists>start. \<forall>i < length its. int_argument (fst (snd (its ! i))) a = Inr (start + int i)"
proof -
  have step: "\<exists>v. int_argument (fst (snd (its ! i))) a = Inr v \<and> int_argument (fst (snd (its ! Suc i))) a = Inr (v + 1)"
    if "Suc i < length its" for i
  proof -
    from assms(1) that have "continues_run (its ! i) (its ! Suc i) = Inr True" by (simp add: successively_conv_nth)
    moreover have "gets (snd (snd (its ! Suc i))) ''index_arg'' = a" using assms(3) that by simp
    ultimately show ?thesis using assms(4) by (auto simp: continues_run_def)
  qed
  from step [of 0] assms(5) obtain v where v: "int_argument (fst (snd (its ! 0))) a = Inr v" by auto
  have "int_argument (fst (snd (its ! i))) a = Inr (v + int i)" if "i < length its" for i
    using that
  proof (induction i)
    case 0
    then show ?case using v by simp
  next
    case (Suc i)
    then show ?case using step [of i] by auto
  qed
  then show ?thesis by blast
qed

lemma batch_arguments_content:
  assumes "batch_arguments contract src = Inr args" and "src \<noteq> []"
    and bc: "\<And>d. d \<in> set src \<Longrightarrow> batch_contract registry refs d = Some contract"
    and indices: "gets contract ''index_arg'' \<noteq> [] \<Longrightarrow>
      \<exists>start. \<forall>i < length src. int_argument (src ! i) (gets contract ''index_arg'') = Inr (start + int i)"
  shows "batch_content contract src args"
proof -
  have first: "hd src \<in> set src" "src ! 0 = hd src" using assms(2) by (simp_all add: hd_conv_nth)
  note valid = conjunct1 [OF tool_contracts_valid [OF conjunct2 [OF batch_contract_declared [OF bc [OF first(1)]]]]]
  show ?thesis
  proof (cases "gets contract ''index_arg'' = []")
    case True
    note present = batch_contract_applies(3) [OF bc True]
    from assms(1) True obtain vals where vals: "rmapM (\<lambda>d. case map_of (tc_arguments d) (gets contract ''collect_arg'') of
        None \<Rightarrow> Inl (KeyError (gets contract ''collect_arg'')) | Some v \<Rightarrow> Inr v) src = Inr vals"
      and args: "args = dset (gets_or contract ''collection_arg'' (gets contract ''collect_arg'' @ ''s'')) (PList vals)
        (dpop (gets contract ''collect_arg'') (dset ''action'' (PStr (py_str (dget contract ''target_action''))) (tc_arguments (hd src))))"
      by (auto simp: batch_arguments_def Let_def)
    have "vals = map (\<lambda>d. dget (tc_arguments d) (gets contract ''collect_arg'')) src"
      using rmapM_Inr [OF vals] present by (auto simp: list_all2_conv_all_nth intro!: nth_equalityI)
    then show ?thesis using True valid present by (auto simp: batch_content_def Let_def args pysimps)
  next
    case False
    from indices [OF False] obtain start where start: "\<forall>i < length src. int_argument (src ! i) (gets contract ''index_arg'') = Inr (start + int i)"
      by blast
    with first(2) assms(2) have "int_argument (hd src) (gets contract ''index_arg'') = Inr start" by (metis add.right_neutral length_greater_0_conv of_nat_0)
    with assms(1) False have args: "args = dset (gets_or contract ''limit_arg'' ''limit'') (PInt (int (length src)))
        (dset (gets_or contract ''start_arg'' ''start_index'') (PInt start)
          (dpop (gets contract ''index_arg'') (dset ''action'' (PStr (py_str (dget contract ''target_action''))) (tc_arguments (hd src)))))"
      by (simp add: batch_arguments_def Let_def)
    show ?thesis using False valid start by (auto simp: batch_content_def Let_def args pysimps intro!: exI [of _ start])
  qed
qed

lemma good_chunk_batches:
  assumes "unambiguous_contracts registry" "good_group registry refs calls key grouped" "good_chunk grouped c"
  shows "batches registry refs (map (fst \<circ> snd) (cc_items c)) (cc_call c)"
proof -
  let ?its = "cc_items c"
  from assms(3) have len: "2 \<le> length ?its" and sub: "set ?its \<subseteq> set grouped"
    and run: "successively (\<lambda>x y. continues_run x y = Inr True) ?its" by (auto simp: good_chunk_def)
  then have ne: "?its \<noteq> []" by auto
  from assms(3) obtain it0 m where it0: "it0 \<in> set grouped" and m: "py_int (dget (snd (snd it0)) ''max_batch_size'') = Inr m"
      "int (length ?its) \<le> m" and cc: "compile_chunk (snd (snd it0)) ?its = Inr c"
    by (auto simp: good_chunk_def)
  let ?ct = "snd (snd it0)"
  have item: "batch_contract registry refs (fst (snd it)) = Some (snd (snd it)) \<and> candidate_key (fst (snd it)) (snd (snd it)) = key"
    if "it \<in> set grouped" for it
    using assms(2) that by (cases it) (auto simp: good_group_def good_item_def)
  have same: "snd (snd it) = ?ct" if "it \<in> set ?its" for it
    by (rule contract_unique [OF assms(1)]) (use item [OF it0] item [OF subsetD [OF sub that]] in auto)
  have all: "is_independent refs (fst (snd it)) \<and> batch_contract registry refs (fst (snd it)) = Some ?ct
      \<and> candidate_key (fst (snd it)) ?ct = key" if "it \<in> set ?its" for it
    using item [OF subsetD [OF sub that]] same [OF that] batch_contract_declared [of registry refs "fst (snd it)"] by simp
  let ?src = "map (fst \<circ> snd) ?its"
  have hd: "hd ?src = fst (snd (hd ?its))" using ne by (simp add: hd_map)
  note call = compile_chunk_call(2-4) [OF cc]
  have indices: "\<exists>start. \<forall>i < length ?its. int_argument (fst (snd (?its ! i))) (gets ?ct ''index_arg'') = Inr (start + int i)"
    if "gets ?ct ''index_arg'' \<noteq> []"
    using index_run [OF run ne _ that len] same by simp
  have content: "batch_content ?ct ?src (tc_arguments (cc_call c))"
  proof (rule batch_arguments_content [OF compile_chunk_call(1) [OF cc]])
    show "?src \<noteq> []" using ne by simp
    show "batch_contract registry refs d = Some ?ct" if "d \<in> set ?src" for d using that all by auto
    show "\<exists>start. \<forall>i < length ?src. int_argument (?src ! i) (gets ?ct ''index_arg'') = Inr (start + int i)"
      if "gets ?ct ''index_arg'' \<noteq> []" using indices [OF that] by simp
  qed
  have keys: "canonical_tool_id (tc_name d) = canonical_tool_id (tc_name (hd ?src))
      \<and> (\<forall>k \<in> set (contract_group_by ?ct). freeze (dget (tc_arguments d) k) = freeze (dget (tc_arguments (hd ?src)) k))"
    if "d \<in> set ?src" for d
  proof -
    have "hd ?src \<in> set ?src" using ne by (intro hd_in_set) simp
    with all that have "candidate_key d ?ct = candidate_key (hd ?src) ?ct" unfolding set_map by (metis (no_types, lifting) comp_apply imageE)
    then show ?thesis by (simp add: candidate_key_def group_key_of_def)
  qed
  have declared: "?ct \<in> set (tool_contracts registry (canonical_tool_id (tc_name (hd ?src))))"
    using all [of "hd ?its"] ne batch_contract_declared [of registry refs "fst (snd (hd ?its))"] hd by simp
  have each: "is_independent refs d \<and> gets (tc_arguments d) ''action'' = gets ?ct ''source_action''" if "d \<in> set ?src" for d
    using that all batch_contract_applies(1) by fastforce
  have name: "tc_name (cc_call c) = tc_name (hd ?src)" using call(2) hd by simp
  show ?thesis
    unfolding batches_def name using len call m hd content keys declared each
    by (intro conjI bexI [OF _ declared] exI [of _ m]) auto
qed

section \<open>Compilation never fails\<close>

lemma build_runs_total:
  assumes "\<And>x y. x \<in> S \<Longrightarrow> y \<in> S \<Longrightarrow> \<exists>b. continues_run x y = Inr b"
  shows "set grouped \<subseteq> S \<Longrightarrow> \<forall>r \<in> set runs. r \<noteq> [] \<and> set r \<subseteq> S \<Longrightarrow> \<exists>rs. build_runs grouped runs = Inr rs"
proof (induction grouped arbitrary: runs)
  case (Cons item grouped)
  show ?case
  proof (cases runs rule: rev_cases)
    case Nil
    with Cons show ?thesis by simp
  next
    case (snoc runs0 r)
    with Cons.prems have "last r \<in> S" by (auto dest: last_in_set)
    with assms Cons.prems(1) obtain b where b: "continues_run (last r) item = Inr b" by fastforce
    show ?thesis
      using Cons.IH [of "runs0 @ [r @ [item]]"] Cons.IH [of "runs0 @ [r, [item]]"] Cons.prems snoc b by (cases b) auto
  qed
qed simp

lemma compile_chunk_total:
  assumes "chunk \<noteq> []" and "\<And>it. it \<in> set chunk \<Longrightarrow> batch_contract registry refs (fst (snd it)) = Some contract"
  shows "\<exists>c. compile_chunk contract chunk = Inr c"
proof -
  let ?src = "map (fst \<circ> snd) chunk"
  have bc: "batch_contract registry refs d = Some contract" if "d \<in> set ?src" for d using that assms(2) by auto
  have "\<exists>args. batch_arguments contract ?src = Inr args"
  proof (cases "gets contract ''index_arg'' = []")
    case True
    have "\<exists>vals. rmapM (\<lambda>d. case map_of (tc_arguments d) (gets contract ''collect_arg'') of
        None \<Rightarrow> Inl (KeyError (gets contract ''collect_arg'')) | Some v \<Rightarrow> Inr v) ?src = Inr vals"
      unfolding rmapM_Inr_ex using batch_contract_applies(3) [OF bc True] by auto
    then show ?thesis using True by (auto simp: batch_arguments_def Let_def)
  next
    case False
    from batch_contract_applies(2) [OF bc False, of "hd ?src"] assms(1) show ?thesis
      using False by (auto simp: batch_arguments_def Let_def hd_map)
  qed
  then show ?thesis by (auto simp: compile_chunk_def Let_def)
qed

lemma group_chunks_total:
  assumes "unambiguous_contracts registry" "good_group registry refs calls key grouped"
  shows "\<exists>ccs. group_chunks grouped = Inr ccs"
proof -
  have item: "batch_contract registry refs (fst (snd it)) = Some (snd (snd it)) \<and> candidate_key (fst (snd it)) (snd (snd it)) = key"
    if "it \<in> set grouped" for it
    using assms(2) that by (cases it) (auto simp: good_group_def good_item_def)
  have same: "snd (snd it) = snd (snd it')" if "it \<in> set grouped" "it' \<in> set grouped" for it it'
    by (rule contract_unique [OF assms(1)]) (use item [OF that(1)] item [OF that(2)] in auto)
  have run: "\<exists>b. continues_run x y = Inr b" if "x \<in> set grouped" "y \<in> set grouped" for x y
    using batch_contract_applies(2) [OF conjunct1 [OF item [OF that(2)]]] batch_contract_applies(2) [OF conjunct1 [OF item [OF that(1)]]]
      same [OF that]
    by (auto simp: continues_run_def Let_def)
  obtain runs where b: "build_runs (sort_key fst grouped) [] = Inr runs"
    using build_runs_total [of "set grouped", OF run, of "sort_key fst grouped" "[]"] by auto
  from build_runs_Inr [OF b] have runs: "concat runs = sort_key fst grouped" and ne: "\<And>r. r \<in> set runs \<Longrightarrow> r \<noteq> []" by auto
  have sub: "set r \<subseteq> set grouped" if "r \<in> set runs" for r
  proof -
    have "set r \<subseteq> set (concat runs)" using that by auto
    then show ?thesis by (simp add: runs)
  qed
  have "\<exists>ccs. run_chunks r = Inr ccs" if r: "r \<in> set runs" for r
  proof -
    have head: "hd r \<in> set grouped" using sub [OF r] ne [OF r] by auto
    let ?ct = "snd (snd (hd r))"
    obtain m where m: "py_int (dget ?ct ''max_batch_size'') = Inr m"
      using tool_contracts_valid [OF conjunct2 [OF batch_contract_declared [OF conjunct1 [OF item [OF head]]]]] by blast
    have "\<exists>c. compile_chunk ?ct chunk = Inr c" if chunk: "chunk \<in> set (chunks (nat m) r)" for chunk
    proof (rule compile_chunk_total)
      have mem: "chunk \<noteq> [] \<and> set chunk \<subseteq> set r"
        using chunks_mem [OF chunk, of "\<lambda>_ _. True"] by (simp add: successively_conv_nth)
      then show "chunk \<noteq> []" by simp
      show "batch_contract registry refs (fst (snd it)) = Some ?ct" if "it \<in> set chunk" for it
        using item [of it] same [OF _ head, of it] mem sub [OF r] that by auto
    qed
    then show ?thesis using m rmapM_Inr_ex [of "compile_chunk ?ct" "filter (\<lambda>chunk. 2 \<le> length chunk) (chunks (nat m) r)"]
      by (auto simp: run_chunks_def Let_def)
  qed
  then obtain yss where "rmapM run_chunks runs = Inr yss" using rmapM_Inr_ex [of run_chunks runs] by auto
  with b show ?thesis by (simp add: group_chunks_def)
qed

lemma compile_total:
  assumes "unambiguous_contracts registry"
  shows "\<exists>compiled events. compile_batchable_calls calls registry True = Inr (compiled, events)"
proof -
  have "\<exists>ccs. group_chunks (snd kg) = Inr ccs" if "kg \<in> set (batch_candidates registry calls)" for kg
    using group_chunks_total [OF assms] batch_candidates_good [of registry "referenced_ids calls" calls] that
    unfolding good_candidates_def batch_candidates_def by blast
  then obtain gs where "rmapM (group_chunks \<circ> snd) (batch_candidates registry calls) = Inr gs"
    using rmapM_Inr_ex [of "group_chunks \<circ> snd" "batch_candidates registry calls"] by auto
  then show ?thesis by (simp add: compile_batchable_calls_def Let_def)
qed

lemma compile_groups:
  assumes "unambiguous_contracts registry"
    and "compile_batchable_calls calls registry True = Inr (compiled, events)"
  shows "\<exists>groups. concat groups = calls
    \<and> list_all2 (\<lambda>src call. src = [call] \<or> batches registry (referenced_ids calls) src call) groups compiled"
proof -
  let ?refs = "referenced_ids calls" and ?cands = "batch_candidates registry calls"
  from assms(2) obtain gs where gs: "rmapM (group_chunks \<circ> snd) ?cands = Inr gs"
    and out: "concat gs = [] \<and> compiled = calls \<or> concat gs \<noteq> [] \<and> compiled = replace_calls (concat gs) calls"
    by (auto simp: compile_batchable_calls_def Let_def split: if_splits)
  have good: "good_candidates registry ?refs calls ?cands"
    unfolding batch_candidates_def by (rule batch_candidates_good)
  note pos = candidates_positions [OF gs good]
  have chunk: "\<exists>kg. good_group registry ?refs calls (fst kg) (snd kg) \<and> good_chunk (snd kg) c" if "c \<in> set (concat gs)" for c
    using pos good that unfolding good_candidates_def by blast
  have dc: "disjoint_chunks (concat gs) calls"
    unfolding disjoint_chunks_def
  proof (intro conjI ballI)
    show "distinct (concat (map chunk_positions (concat gs)))" using pos by blast
  next
    fix c assume c: "c \<in> set (concat gs)"
    from chunk [OF this] obtain kg where kg: "good_group registry ?refs calls (fst kg) (snd kg)" "good_chunk (snd kg) c" by blast
    show "chunk_positions c = [chunk_start c..<chunk_start c + length (cc_items c)]" by (rule good_chunk_interval(1) [OF kg(2)])
    show "cc_items c \<noteq> []" using good_chunk_interval(2) [OF kg(2)] by auto
    fix it assume "it \<in> set (cc_items c)"
    with kg have "good_item registry ?refs calls (fst kg) it" by (auto simp: good_chunk_def good_group_def)
    then show "fst it < length calls" "calls ! fst it = fst (snd it)" by (auto simp: good_item_def split: prod.splits)
  qed
  let ?segs = "List.map_filter (segment_of (concat gs) calls) [0..<length calls]"
  have compiled: "compiled = map snd ?segs"
    using out replace_calls_Nil unfolding replace_calls_segments [symmetric] by metis
  have "src = [call] \<or> batches registry ?refs src call" if seg: "(src, call) \<in> set ?segs" for src call
  proof -
    from seg obtain p where "segment_of (concat gs) calls p = Some (src, call)" by (auto simp: map_filter_def)
    then show ?thesis
      by (rule segment_cases) (use chunk good_chunk_batches [OF assms(1)] in blast)+
  qed
  then have "list_all2 (\<lambda>src call. src = [call] \<or> batches registry ?refs src call) (map fst ?segs) compiled"
    unfolding compiled list_all2_map1 list_all2_map2
    by (intro list.rel_refl_strong) (metis prod.collapse)
  with segments_tile [OF dc] show ?thesis by blast
qed

text \<open>C14: Compilation preserves the requested work. It always answers; the resulting calls, each read as the source
  calls it stands for, are the proposed calls in their order, none lost and none twice. A call is either kept as it
  was or stands for at least two independent calls of one tool and source action under one declared contract, within
  its bound: its arguments are the target action, and the start and the number of the consecutive indices or the list
  of all the scalar values in order. The grouping arguments of the calls agree; any other argument of a batch is
  taken from its first call, as the code does.\<close>

theorem compile_preserves_calls:
  assumes "unambiguous_contracts registry"
  shows "\<exists>compiled events groups. compile_batchable_calls calls registry True = Inr (compiled, events) \<and> concat groups = calls
    \<and> list_all2 (\<lambda>src call. src = [call] \<or> batches registry (referenced_ids calls) src call) groups compiled"
proof -
  from compile_total [OF assms] obtain compiled events where result: "compile_batchable_calls calls registry True = Inr (compiled, events)"
    by blast
  from compile_groups [OF assms result] result show ?thesis by blast
qed

definition witness_registry :: tool_registry where
  "witness_registry =
     [(''web.manage'', [(''metadata'', PDict [(''batching'', PList [PDict
        [(''source_action'', PStr ''weather''), (''target_action'', PStr ''weather_batch''),
         (''group_by'', PList [PStr ''days'']), (''collect_arg'', PStr ''location''),
         (''collection_arg'', PStr ''locations''), (''max_batch_size'', PInt 3)]])])])]"

definition witness_weather :: "string \<Rightarrow> string \<Rightarrow> llm_tool_call" where
  "witness_weather i location =
     LLMToolCall i ''web.manage'' [(''action'', PStr ''weather''), (''location'', PStr location), (''days'', PInt 10)]"

theorem compile_preserves_calls_witness:
  "let calls = [witness_weather ''c1'' ''Oslo'', witness_weather ''c2'' ''Rome''] in
     \<exists>call events. compile_batchable_calls calls witness_registry True = Inr ([call], events)
       \<and> batches witness_registry [] calls call
       \<and> dget (tc_arguments call) ''action'' = PStr ''weather_batch''
       \<and> dget (tc_arguments call) ''locations'' = PList [PStr ''Oslo'', PStr ''Rome''] \<and> dget (tc_arguments call) ''location'' = PNone"
proof -
  let ?cs = "[witness_weather ''c1'' ''Oslo'', witness_weather ''c2'' ''Rome'']"
  have u: "unambiguous_contracts witness_registry" by code_simp
  from compile_preserves_calls [OF u, of ?cs] obtain compiled events groups
    where r: "compile_batchable_calls ?cs witness_registry True = Inr (compiled, events)" and g: "concat groups = ?cs"
      "list_all2 (\<lambda>src call. src = [call] \<or> batches witness_registry (referenced_ids ?cs) src call) groups compiled" by blast
  have "length (fst (projr (compile_batchable_calls ?cs witness_registry True))) = 1" by code_simp
  with r obtain call where call: "compiled = [call]" by (auto simp: length_Suc_conv)
  with g have "?cs = [call] \<or> batches witness_registry (referenced_ids ?cs) ?cs call" by (auto simp: list_all2_Cons2)
  moreover have "referenced_ids ?cs = []" by code_simp
  ultimately have "batches witness_registry [] ?cs call" by simp
  moreover have "map (\<lambda>k. dget (tc_arguments (hd (fst (projr (compile_batchable_calls ?cs witness_registry True))))) k)
      [''action'', ''locations'', ''location''] = [PStr ''weather_batch'', PList [PStr ''Oslo'', PStr ''Rome''], PNone]" by code_simp
  ultimately show ?thesis using r call by (simp add: Let_def)
qed

section \<open>Batching and plan references\<close>

text \<open>C36: The compiler protects a call from batching when its call id is referenced, while
  \<open>plan_depends_on\<close> names step ids. A call with a step id of its own that another call depends on
  can therefore be merged away: the batch as proposed is a valid plan, and the compiled batch is
  rejected by the graph validator.\<close>

theorem batching_can_break_a_valid_plan:
  "\<exists>calls registry compiled events layers e.
     (\<exists>c \<in> set calls. \<exists>d \<in> set calls. tc_step_id c \<noteq> [] \<and> tc_step_id c \<in> set (tc_depends_on d))
     \<and> validate_incremental_graph calls [] None None = Inr layers
     \<and> compile_batchable_calls calls registry True = Inr (compiled, events)
     \<and> validate_incremental_graph compiled [] None None = Inl (OrchestrationError e)"
proof -
  let ?c1 = "(witness_weather ''c1'' ''Oslo'')\<lparr>tc_step_id := ''oslo''\<rparr>"
  let ?c3 = "(LLMToolCall ''c3'' ''report.write'' [])\<lparr>tc_depends_on := [''oslo'']\<rparr>"
  let ?cs = "[?c1, witness_weather ''c2'' ''Rome'', ?c3]"
  let ?r = "compile_batchable_calls ?cs witness_registry True"
  have before: "validate_incremental_graph ?cs [] None None = Inr [[''oslo'', ''c2''], [''c3'']]" by code_simp
  have "\<not> isl ?r" by code_simp
  then have r: "?r = Inr (fst (projr ?r), snd (projr ?r))" by simp
  have after: "validate_incremental_graph (fst (projr ?r)) [] None None
      = Inl (OrchestrationError (''step c3 has unknown dependencies: '' @ repr_strs [''oslo'']))" by code_simp
  have "\<exists>c \<in> set ?cs. \<exists>d \<in> set ?cs. tc_step_id c \<noteq> [] \<and> tc_step_id c \<in> set (tc_depends_on d)" by simp
  with before r after show ?thesis by blast
qed

end
