(* ===== verification/Storage_Ids.thy ===== *)
theory Storage_Ids
  imports Py_Base
begin

text \<open>
  Identifiers that become path segments (\<open>storage/ids.py\<close>) and the check of record path parts
  (\<open>storage/records.py\<close>, \<open>_safe_part\<close>). The security claim of the module is that an accepted
  identifier is a single, plain path segment.
\<close>

section \<open>The patterns\<close>

text \<open>\<open>^[A-Za-z0-9][A-Za-z0-9_-]{0,63}$\<close> and \<open>^[A-Za-z0-9][A-Za-z0-9_.-]{0,127}$\<close>, full match.\<close>

definition WORKSPACE_ID_RE :: "string \<Rightarrow> bool" where
  "WORKSPACE_ID_RE s \<longleftrightarrow>
     (case s of [] \<Rightarrow> False | c # cs \<Rightarrow> is_alnum c \<and> length cs \<le> 63 \<and> list_all is_idchar cs)"

definition RUN_ID_RE :: "string \<Rightarrow> bool" where
  "RUN_ID_RE s \<longleftrightarrow>
     (case s of [] \<Rightarrow> False
      | c # cs \<Rightarrow> is_alnum c \<and> length cs \<le> 127 \<and> list_all (\<lambda>c. is_idchar c \<or> c = CHR ''.'') cs)"

definition slash :: char where "slash = CHR ''/''"
definition backslash :: char where "backslash = CHR 0x5C"
definition nul :: char where "nul = CHR 0x00"

section \<open>The validators\<close>

definition validate_workspace_id :: "pyval \<Rightarrow> string res" where
  "validate_workspace_id v =
     (case v of
        PStr s \<Rightarrow> if WORKSPACE_ID_RE s then Inr s else Inl (ValueError ''invalid_workspace_id'')
      | _ \<Rightarrow> Inl (ValueError ''invalid_workspace_id''))"

definition is_valid_workspace_id :: "pyval \<Rightarrow> bool" where
  "is_valid_workspace_id v = (case validate_workspace_id v of Inl _ \<Rightarrow> False | Inr _ \<Rightarrow> True)"

definition SESSION_ID_BLOCKED :: "string list" where
  "SESSION_ID_BLOCKED = [[], ''.'', ''..'', ''default'']"

definition validate_session_id :: "pyval \<Rightarrow> string res" where
  "validate_session_id v =
     (case v of
        PStr raw \<Rightarrow>
          (let sid = py_strip raw; bad = Inl (ValueError ''invalid_session_id'') in
           if sid = [] \<or> sid \<in> set SESSION_ID_BLOCKED then bad
           else if length sid > 64 then bad
           else if nul \<in> set sid then bad
           else if slash \<in> set sid \<or> backslash \<in> set sid then bad
           else if \<not> WORKSPACE_ID_RE sid then bad
           else Inr sid)
      | _ \<Rightarrow> Inl (ValueError ''invalid_session_id''))"

definition is_valid_session_id :: "pyval \<Rightarrow> bool" where
  "is_valid_session_id v = (case validate_session_id v of Inl _ \<Rightarrow> False | Inr _ \<Rightarrow> True)"

definition validate_run_id :: "pyval \<Rightarrow> string res" where
  "validate_run_id v =
     (case v of
        PStr raw \<Rightarrow>
          (let rid = py_strip raw; bad = Inl (ValueError ''invalid_run_id'') in
           if rid = [] \<or> length rid > 128 then bad
           else if nul \<in> set rid \<or> slash \<in> set rid \<or> backslash \<in> set rid then bad
           else if rid \<in> {''.'', ''..''} then bad
           else if \<not> RUN_ID_RE rid then bad
           else Inr rid)
      | _ \<Rightarrow> Inl (ValueError ''invalid_run_id''))"

definition is_valid_run_id :: "pyval \<Rightarrow> bool" where
  "is_valid_run_id v = (case validate_run_id v of Inl _ \<Rightarrow> False | Inr _ \<Rightarrow> True)"

definition validate_task_id :: "pyval \<Rightarrow> string res" where
  "validate_task_id v = (case validate_run_id v of Inl _ \<Rightarrow> Inl (ValueError ''invalid_task_id'') | Inr s \<Rightarrow> Inr s)"

definition validate_checkpoint_id :: "pyval \<Rightarrow> string res" where
  "validate_checkpoint_id v =
     (case validate_run_id v of Inl _ \<Rightarrow> Inl (ValueError ''invalid_checkpoint_id'') | Inr s \<Rightarrow> Inr s)"

definition validate_job_id :: "pyval \<Rightarrow> string res" where
  "validate_job_id v = (case validate_run_id v of Inl _ \<Rightarrow> Inl (ValueError ''invalid_job_id'') | Inr s \<Rightarrow> Inr s)"

text \<open>\<open>_safe_part\<close>: one part of a record path.\<close>

definition safe_part :: "pyval \<Rightarrow> bool \<Rightarrow> string res" where
  "safe_part part allow_ext =
     (let t = py_strip (py_str (py_or part (PStr []))) in
      if t = [] \<or> t \<in> {''.'', ''..''} \<or> slash \<in> set t \<or> backslash \<in> set t
      then Inl (ValueError ''invalid record path part'')
      else if \<not> allow_ext \<and> CHR ''.'' \<in> set t
      then Inl (ValueError ''invalid record directory part'')
      else Inr t)"

section \<open>Accepted identifiers are plain path segments\<close>

text \<open>What a segment must be to stay inside its directory.\<close>

definition plain_segment :: "string \<Rightarrow> bool" where
  "plain_segment s \<longleftrightarrow>
     s \<noteq> [] \<and> s \<noteq> ''.'' \<and> s \<noteq> ''..'' \<and> slash \<notin> set s \<and> backslash \<notin> set s \<and> nul \<notin> set s"

lemma separators_not_idchar [simp]:
  "\<not> is_idchar slash" "\<not> is_idchar backslash" "\<not> is_idchar nul" "\<not> is_idchar (CHR ''.'')"
  by (simp_all add: is_idchar_def is_alnum_def is_alpha_def slash_def backslash_def nul_def)

lemma alnum_idchar: "is_alnum c \<Longrightarrow> is_idchar c"
  by (simp add: is_idchar_def)

lemma alnum_not_dot: "\<not> is_alnum (CHR ''.'')"
  by (simp add: is_alnum_def is_alpha_def)

lemma dot_not_separator [simp]: "slash \<noteq> CHR ''.''" "backslash \<noteq> CHR ''.''" "nul \<noteq> CHR ''.''"
  by (simp_all add: slash_def backslash_def nul_def)

lemma separators_not_alnum [simp]: "\<not> is_alnum slash" "\<not> is_alnum backslash" "\<not> is_alnum nul"
  using separators_not_idchar alnum_idchar by blast+

lemma WORKSPACE_ID_plain: "WORKSPACE_ID_RE s \<Longrightarrow> plain_segment s \<and> CHR ''.'' \<notin> set s \<and> length s \<le> 64"
  by (cases s) (auto simp: WORKSPACE_ID_RE_def plain_segment_def list_all_iff alnum_not_dot)

lemma RUN_ID_plain: "RUN_ID_RE s \<Longrightarrow> plain_segment s \<and> length s \<le> 128"
  by (cases s) (auto simp: RUN_ID_RE_def plain_segment_def list_all_iff alnum_not_dot)

text \<open>The identifier patterns leave nothing for \<open>strip\<close> to remove.\<close>

lemma not_space_idchar: "is_idchar c \<or> c = CHR ''.'' \<Longrightarrow> \<not> is_space c"
proof -
  have "(of_char c :: nat) \<ge> 45" if "is_idchar c \<or> c = CHR ''.''"
    using that
    by (auto simp: is_idchar_def is_alnum_def is_alpha_def less_eq_char_def)
  then show "is_idchar c \<or> c = CHR ''.'' \<Longrightarrow> \<not> is_space c"
    by (auto simp: is_space_def Let_def)
qed

lemma py_strip_id: "list_all (\<lambda>c. \<not> is_space c) s \<Longrightarrow> py_strip s = s"
proof -
  have drop: "dropWhile is_space t = t" if "list_all (\<lambda>c. \<not> is_space c) t" for t
    using that by (cases t) simp_all
  assume s: "list_all (\<lambda>c. \<not> is_space c) s"
  then have "list_all (\<lambda>c. \<not> is_space c) (rev s)" by (simp add: list_all_iff)
  with s show ?thesis by (simp add: py_strip_def drop)
qed

lemma RUN_ID_strip: "RUN_ID_RE s \<Longrightarrow> py_strip s = s"
  by (rule py_strip_id, cases s)
    (use alnum_idchar not_space_idchar in \<open>auto simp: RUN_ID_RE_def list_all_iff\<close>)

lemma WORKSPACE_RUN: "WORKSPACE_ID_RE s \<Longrightarrow> RUN_ID_RE s"
  by (cases s) (auto simp: WORKSPACE_ID_RE_def RUN_ID_RE_def list_all_iff)

text \<open>Every identifier that a validator accepts is one plain path segment (not empty, not a dot
  name, no separator, no NUL) of bounded length, and accepting it again changes nothing, so a record
  path built from it cannot leave its workspace directory.\<close>

theorem accepted_ids_are_plain_segments:
  "(validate_workspace_id v = Inr s \<longrightarrow>
      plain_segment s \<and> CHR ''.'' \<notin> set s \<and> length s \<le> 64 \<and> validate_workspace_id (PStr s) = Inr s)
   \<and> (validate_session_id v = Inr s \<longrightarrow>
      plain_segment s \<and> s \<noteq> ''default'' \<and> length s \<le> 64 \<and> validate_session_id (PStr s) = Inr s)
   \<and> (validate_run_id v = Inr s \<longrightarrow>
      plain_segment s \<and> length s \<le> 128 \<and> validate_run_id (PStr s) = Inr s)
   \<and> (validate_job_id v = Inr s \<longrightarrow> plain_segment s \<and> validate_run_id v = Inr s)"
proof (intro conjI impI)
  assume "validate_workspace_id v = Inr s"
  then show "plain_segment s" "CHR ''.'' \<notin> set s" "length s \<le> 64" "validate_workspace_id (PStr s) = Inr s"
    by (auto simp: validate_workspace_id_def WORKSPACE_ID_plain split: pyval.splits if_splits)
next
  assume "validate_session_id v = Inr s"
  then show "plain_segment s" "s \<noteq> ''default''" "length s \<le> 64" "validate_session_id (PStr s) = Inr s"
    by (auto simp: validate_session_id_def SESSION_ID_BLOCKED_def Let_def WORKSPACE_ID_plain
        RUN_ID_strip WORKSPACE_RUN split: pyval.splits if_splits)
next
  assume "validate_run_id v = Inr s"
  then show "plain_segment s" "length s \<le> 128" "validate_run_id (PStr s) = Inr s"
    by (auto simp: validate_run_id_def Let_def RUN_ID_plain RUN_ID_strip split: pyval.splits if_splits)
next
  assume "validate_job_id v = Inr s"
  then show "validate_run_id v = Inr s" "plain_segment s"
    by (auto simp: validate_job_id_def validate_run_id_def Let_def RUN_ID_plain
        split: sum.splits pyval.splits if_splits)
qed

theorem accepted_ids_are_plain_segments_witness:
  "plain_segment ''ws-1'' \<and> plain_segment ''s1'' \<and> plain_segment ''run_1.2'' \<and> plain_segment ''job_1''"
proof -
  have "validate_workspace_id (PStr ''ws-1'') = Inr ''ws-1''" by code_simp
  moreover have "validate_session_id (PStr '' s1 '') = Inr ''s1''" by code_simp
  moreover have "validate_run_id (PStr ''run_1.2 '') = Inr ''run_1.2''" by code_simp
  moreover have "validate_job_id (PStr ''job_1'') = Inr ''job_1''" by code_simp
  ultimately show ?thesis
    using accepted_ids_are_plain_segments by blast
qed

end
