(* ===== verification/Approval.thy ===== *)
theory Approval
  imports Record_Store Storage_Ids Py_Json
begin

text \<open>
  The approval extension (\<open>extensions/approval/service.py\<close>, the decision endpoint of
  \<open>extensions/approval/backend.py\<close>, record paths of \<open>extensions/sdk.py\<close>, the read-only classifier of
  \<open>extensions/network_operations/device_tools.py\<close>): a device operation that the model requested is
  frozen with a digest, a person decides on it, and an approved operation is claimed and executed
  after a recheck of the server-owned scope.

  Parameters of the definitions: \<open>now\<close>, the fresh identifiers of \<open>uuid4\<close>, \<open>sha256\<close>, and the network
  service as a record \<open>network\<close> of its three lookups (\<open>get_skill\<close>, \<open>get_connection\<close>,
  \<open>get_device\<close>). A section of one record is written as one step, which it is among requests that spell the id
  in one way: its lock file is named after the operation id as sent, its record file after \<open>segment\<close> of it.
  Where the difference matters (at most one claim), \<open>section_step\<close> runs the two halves of a section apart, under
  the lock that the code takes.
\<close>

section \<open>Record paths\<close>

text \<open>\<open>re.sub("[^A-Za-z0-9_-]+", "_", s).strip("_")\<close>: each maximal run of other characters becomes one
  underscore.\<close>

fun sub_runs :: "bool \<Rightarrow> string \<Rightarrow> string" where
  "sub_runs in_run [] = []"
| "sub_runs in_run (c # s) =
     (if is_idchar c then c # sub_runs False s
      else if in_run then sub_runs True s else CHR ''_'' # sub_runs True s)"

definition strip_underscores :: "string \<Rightarrow> string" where
  "strip_underscores s =
     rev (dropWhile (\<lambda>c. c = CHR ''_'') (rev (dropWhile (\<lambda>c. c = CHR ''_'') s)))"

definition segment :: "string \<Rightarrow> string res" where
  "segment s = (let v = strip_underscores (sub_runs False s) in
     if v = [] then Inl (ValueError ''invalid extension_id'') else Inr v)"

definition record_path :: "string \<Rightarrow> string \<Rightarrow> (string \<times> string) res" where
  "record_path workspace_id record_id =
     rbind (validate_workspace_id (PStr workspace_id)) (\<lambda>ws.
     rbind (segment record_id) (\<lambda>seg. Inr (ws, seg)))"

section \<open>State\<close>

record approval_state =
  ap_operations :: "(string \<times> string) store"
  ap_continuations :: "(string \<times> string) store"

record network =
  get_skill :: "string \<Rightarrow> string \<Rightarrow> pydict option"
  get_connection :: "string \<Rightarrow> string \<Rightarrow> pydict option"
  get_device :: "string \<Rightarrow> string \<Rightarrow> pydict option"

text \<open>\<open>if not x\<close> for a looked-up record: missing or empty.\<close>

definition found :: "pydict option \<Rightarrow> pydict" where
  "found x = (case x of None \<Rightarrow> [] | Some r \<Rightarrow> r)"

section \<open>Freezing an operation\<close>

definition is_read_only_command :: "string \<Rightarrow> bool" where
  "is_read_only_command command =
     (let val = py_strip command; low = py_lower val in
      val \<noteq> []
      \<and> \<not> list_ex (\<lambda>marker. py_contains marker val)
           [[CHR 0x0A], [CHR 0x0D], '';'', ''&&'', [CHR 0x60], ''$('', ''>'', ''<'']
      \<and> list_ex (\<lambda>verb. py_startswith low verb
           \<and> (drop (length verb) low = [] \<or> is_space (hd (drop (length verb) low)))) [''display'', ''show'', ''ping''])"

definition operation_digest :: "(string \<Rightarrow> string) \<Rightarrow> pydict \<Rightarrow> string" where
  "operation_digest sha256 d = sha256 (json_canonical (PDict d))"

definition frozen_fields :: "string list" where
  "frozen_fields =
     [''schema'', ''tool_id'', ''action'', ''workspace_id'', ''session_id'', ''run_id'', ''request_id'', ''call_id'',
      ''skill'', ''target'', ''commands'', ''timeout'', ''execution_model'']"

definition frozen_projection :: "pydict \<Rightarrow> pydict" where
  "frozen_projection r = map (\<lambda>k. (k, dget r k)) frozen_fields"

definition public_connection :: "pydict \<Rightarrow> pydict" where
  "public_connection connection =
     map (\<lambda>k. (k, dget connection k))
       [''connection_id'', ''device_id'', ''name'', ''protocol'', ''port'', ''revision'', ''auth_method'']"

definition NETWORK_TOOL_ID :: string where
  "NETWORK_TOOL_ID = ''network.operations.device.manage''"

definition frozen_operation ::
  "pydict \<Rightarrow> pydict \<Rightarrow> pydict \<Rightarrow> pydict \<Rightarrow> string \<Rightarrow> string \<Rightarrow> pyval list \<Rightarrow> int \<Rightarrow> pydict" where
  "frozen_operation request skill connection device workspace_id skill_id commands timeout =
     [(''schema'', PStr ''lzcore.prepared_operation.v1''),
      (''tool_id'', PStr NETWORK_TOOL_ID),
      (''action'', PStr ''configure''),
      (''workspace_id'', PStr workspace_id),
      (''session_id'', PStr (gets request ''session_id'')),
      (''run_id'', PStr (gets request ''run_id'')),
      (''request_id'', PStr (gets request ''request_id'')),
      (''call_id'', PStr (gets request ''call_id'')),
      (''skill'', PDict
         [(''skill_id'', PStr skill_id),
          (''updated_at'', PStr (gets skill ''updated_at'')),
          (''enabled'', PBool (py_truthy (dget_or skill ''enabled'' (PBool True)))),
          (''connection_ids'', PList (map (\<lambda>v. PStr (py_str v)) (py_iter (dget skill ''connection_ids''))))]),
      (''target'', PDict
         [(''device_id'', PStr (gets device ''device_id'')),
          (''name'', PStr (gets device ''name'')),
          (''host'', PStr (gets device ''host'')),
          (''vendor'', PStr (gets_or device ''vendor'' ''generic'')),
          (''updated_at'', PStr (gets device ''updated_at'')),
          (''connection'', PDict (public_connection connection))]),
      (''commands'', PList (map (\<lambda>v. PStr (py_str v)) commands)),
      (''timeout'', PInt timeout),
      (''execution_model'', PDict
         [(''apply_mode'', PStr ''driver_defined''),
          (''persist_mode'', PStr ''explicit_only''),
          (''verification'', PStr ''model_directed_readback''),
          (''retry'', PStr ''reconcile_on_unknown'')])]"

definition prepared_record :: "(string \<Rightarrow> string) \<Rightarrow> string \<Rightarrow> string \<Rightarrow> pydict \<Rightarrow> pydict" where
  "prepared_record sha256 now operation_id frozen =
     frozen @
     [(''operation_id'', PStr operation_id),
      (''digest'', PStr (operation_digest sha256 frozen)),
      (''status'', PStr ''pending''),
      (''created_at'', PStr now),
      (''updated_at'', PStr now),
      (''decision'', PDict []),
      (''execution'', PDict [])]"

definition prepare_network_operation ::
  "network \<Rightarrow> (string \<Rightarrow> string) \<Rightarrow> string \<Rightarrow> string \<Rightarrow> pydict \<Rightarrow> approval_state \<Rightarrow>
   (approval_state \<times> pydict option) res" where
  "prepare_network_operation net sha256 now uuid request st =
     (let context = as_dict (dget request ''workbench_context'');
          arguments = as_dict (dget request ''arguments'');
          workspace_id = py_strip (gets request ''workspace_id'');
          connection_id = py_strip (gets arguments ''connection_id'');
          skill_id = py_strip (gets context ''skill_id'');
          commands_v = dget arguments ''commands''; commands = as_list commands_v in
      if \<not> py_truthy (dget context ''approval_enabled'') then Inr (st, None)
      else if gets request ''tool_id'' \<noteq> NETWORK_TOOL_ID then Inr (st, None)
      else if workspace_id = [] \<or> connection_id = [] \<or> skill_id = [] \<or> \<not> is_list commands_v then Inr (st, None)
      else if commands \<noteq> [] \<and> list_all (\<lambda>c. is_read_only_command (py_str (py_or c (PStr [])))) commands then Inr (st, None)
      else
        let skill = found (get_skill net workspace_id skill_id);
            connection = found (get_connection net workspace_id connection_id);
            device = found (get_device net workspace_id (gets connection ''device_id'')) in
        if skill = [] \<or> connection = [] \<or> device = [] then Inr (st, None)
        else if connection_id \<notin> set (map py_str (py_iter (dget context ''connection_ids''))) then Inr (st, None)
        else
          rbind (py_int (py_or (dget arguments ''timeout'') (PInt 15))) (\<lambda>timeout.
          let operation_id = ''appr_'' @ uuid;
              rec = prepared_record sha256 now operation_id
                (frozen_operation request skill connection device workspace_id skill_id commands timeout)
          in rbind (record_path workspace_id operation_id) (\<lambda>path.
             Inr (st\<lparr>ap_operations := st_put path rec (ap_operations st)\<rparr>, Some rec))))"

section \<open>Deciding, claiming and settling\<close>

definition with_operation ::
  "string \<Rightarrow> string \<Rightarrow> (pydict \<Rightarrow> (pydict option \<times> 'a) res) \<Rightarrow> approval_state \<Rightarrow> (approval_state \<times> 'a) res" where
  "with_operation workspace_id operation_id body st =
     rbind (record_path workspace_id operation_id) (\<lambda>path.
     if found (st_get (ap_operations st) path) = [] then Inl (KeyError ''operation_not_found'')
     else rbind (with_record (KeyError ''operation_not_found'') path body (ap_operations st)) (\<lambda>(ops, a).
          Inr (st\<lparr>ap_operations := ops\<rparr>, a)))"

definition decision_status :: "string \<Rightarrow> string" where
  "decision_status normalized =
     (if normalized = ''approve'' then ''approved'' else if normalized = ''reject'' then ''rejected'' else ''cancelled'')"

definition decide_section ::
  "string \<Rightarrow> string \<Rightarrow> string \<Rightarrow> string \<Rightarrow> pydict \<Rightarrow> (pydict option \<times> pydict) res" where
  "decide_section now normalized decided_by note_text r =
     (if gets r ''status'' \<noteq> ''pending'' then Inr (None, r)
      else
        let r' = dupdate r
              [(''status'', PStr (decision_status normalized)),
               (''decision'', PDict
                  [(''value'', PStr normalized),
                   (''decided_by'', PStr (if decided_by = [] then ''user'' else decided_by)),
                   (''note'', PStr note_text),
                   (''decided_at'', PStr now)]),
               (''updated_at'', PStr now)]
        in Inr (Some r', r'))"

definition decide_operation ::
  "string \<Rightarrow> string \<Rightarrow> string \<Rightarrow> string \<Rightarrow> string \<Rightarrow> string \<Rightarrow> approval_state \<Rightarrow> (approval_state \<times> pydict) res" where
  "decide_operation now workspace_id operation_id decision decided_by note_text st =
     (let normalized = py_lower (py_strip decision) in
      rbind (rguard (normalized \<in> {''approve'', ''reject'', ''cancel''}) (ValueError ''invalid_decision'')) (\<lambda>_.
      with_operation workspace_id operation_id (decide_section now normalized decided_by note_text) st))"

text \<open>The recheck of the server-owned scope before an approved operation may run.\<close>

definition scope_valid :: "network \<Rightarrow> string \<Rightarrow> pydict \<Rightarrow> bool" where
  "scope_valid net workspace_id r =
     (let target = as_dict (dget r ''target'');
          frozen_connection = as_dict (dget target ''connection'');
          connection_id = gets frozen_connection ''connection_id'';
          current_connection = found (get_connection net workspace_id connection_id);
          current_device = found (get_device net workspace_id (gets target ''device_id''));
          skill_data = as_dict (dget r ''skill'');
          skill = found (get_skill net workspace_id (gets skill_data ''skill_id'')) in
      current_connection \<noteq> [] \<and> current_device \<noteq> [] \<and> skill \<noteq> []
      \<and> py_truthy (dget_or skill ''enabled'' (PBool True))
      \<and> PStr connection_id \<in> set (py_iter (dget skill ''connection_ids''))
      \<and> gets current_connection ''revision'' = gets frozen_connection ''revision''
      \<and> gets current_device ''updated_at'' = gets target ''updated_at''
      \<and> gets skill ''updated_at'' = gets skill_data ''updated_at'')"

definition invalidate :: "string \<Rightarrow> string \<Rightarrow> pydict \<Rightarrow> pydict" where
  "invalidate now reason r = dupdate r
     [(''status'', PStr ''invalidated''), (''updated_at'', PStr now), (''invalidated_reason'', PStr reason)]"

definition claim_section ::
  "network \<Rightarrow> (string \<Rightarrow> string) \<Rightarrow> string \<Rightarrow> string \<Rightarrow> string \<Rightarrow> pydict \<Rightarrow> (pydict option \<times> pydict) res" where
  "claim_section net sha256 now nonce workspace_id r =
     (if dget r ''status'' \<noteq> PStr ''approved'' then Inl (ValueError ''operation_not_approved'')
      else if gets r ''digest'' \<noteq> operation_digest sha256 (frozen_projection r)
      then let r' = invalidate now ''prepared_operation_digest_mismatch'' r in Inr (Some r', r')
      else if \<not> scope_valid net workspace_id r
      then let r' = invalidate now ''server_scope_or_connection_changed'' r in Inr (Some r', r')
      else
        let r' = dupdate r
              [(''status'', PStr ''executing''),
               (''execution'', PDict [(''started_at'', PStr now), (''execution_nonce'', PStr nonce)]),
               (''updated_at'', PStr now)]
        in Inr (Some r', r'))"

definition claim_execution ::
  "network \<Rightarrow> (string \<Rightarrow> string) \<Rightarrow> string \<Rightarrow> string \<Rightarrow> string \<Rightarrow> string \<Rightarrow> approval_state \<Rightarrow>
   (approval_state \<times> pydict) res" where
  "claim_execution net sha256 now nonce workspace_id operation_id st =
     with_operation workspace_id operation_id (claim_section net sha256 now nonce workspace_id) st"

definition settle_execution_section :: "string \<Rightarrow> pydict \<Rightarrow> pydict \<Rightarrow> (pydict option \<times> pydict) res" where
  "settle_execution_section now result r =
     (if dget r ''status'' \<noteq> PStr ''executing'' then Inr (None, r)
      else
        let r' = dupdate r
              [(''status'', PStr (if py_truthy (dget result ''execution_may_continue'') then ''unknown'' else ''executed'')),
               (''execution'', PDict (dupdate (as_dict (dget r ''execution''))
                  [(''finished_at'', PStr now), (''result'', PDict result)])),
               (''updated_at'', PStr now)]
        in Inr (Some r', r'))"

definition settle_execution ::
  "string \<Rightarrow> string \<Rightarrow> string \<Rightarrow> pydict \<Rightarrow> approval_state \<Rightarrow> (approval_state \<times> pydict) res" where
  "settle_execution now workspace_id operation_id result st =
     with_operation workspace_id operation_id (settle_execution_section now result) st"

section \<open>Continuations\<close>

text \<open>The arguments of a checkpoint that the service stores and never reads.\<close>

definition attach_one :: "string \<Rightarrow> string \<Rightarrow> string \<Rightarrow> string \<Rightarrow> approval_state \<Rightarrow> approval_state res" where
  "attach_one now workspace_id checkpoint_id operation_id st =
     rbind (record_path workspace_id operation_id) (\<lambda>path.
     case st_get (ap_operations st) path of
       None \<Rightarrow> Inr st
     | Some operation \<Rightarrow>
         if operation = [] then Inr st
         else Inr (st\<lparr>ap_operations := st_put path (dupdate operation
                [(''continuation'', PDict [(''checkpoint_id'', PStr checkpoint_id)]), (''updated_at'', PStr now)])
                (ap_operations st)\<rparr>))"

definition continuation_record ::
  "string \<Rightarrow> string \<Rightarrow> string \<Rightarrow> pydict \<Rightarrow> string list \<Rightarrow> pydict \<Rightarrow> pydict" where
  "continuation_record now workspace_id checkpoint_id payload operation_ids workbench_context =
     [(''schema'', PStr ''lzcore.approval_continuation.v1''),
      (''checkpoint_id'', PStr checkpoint_id),
      (''workspace_id'', PStr workspace_id),
      (''session_id'', dget payload ''session_id''),
      (''run_id'', dget payload ''run_id''),
      (''request_id'', dget payload ''request_id''),
      (''user_input'', dget payload ''user_input''),
      (''messages'', dget payload ''messages''),
      (''tool_calls'', dget payload ''tool_calls''),
      (''prior_results'', dget payload ''prior_results''),
      (''round_results'', dget payload ''round_results''),
      (''operation_ids'', PList (map PStr operation_ids)),
      (''workbench_context'', PDict workbench_context),
      (''status'', PStr ''waiting_decisions''),
      (''created_at'', PStr now),
      (''updated_at'', PStr now)]"

definition attach_continuation_checkpoint ::
  "string \<Rightarrow> string \<Rightarrow> string \<Rightarrow> pydict \<Rightarrow> string list \<Rightarrow> pydict \<Rightarrow> approval_state \<Rightarrow> (approval_state \<times> pydict) res" where
  "attach_continuation_checkpoint now uuid workspace_id payload interruption_ids workbench_context st =
     (let checkpoint_id = ''apprchk_'' @ uuid;
          operation_ids = fromkeys (filter (\<lambda>s. s \<noteq> []) interruption_ids);
          rec = continuation_record now workspace_id checkpoint_id payload operation_ids workbench_context in
      rbind (record_path workspace_id checkpoint_id) (\<lambda>path.
      rbind (rfold (attach_one now workspace_id checkpoint_id) operation_ids
               (st\<lparr>ap_continuations := st_put path rec (ap_continuations st)\<rparr>)) (\<lambda>st'.
      Inr (st', rec))))"

definition get_operation :: "string \<Rightarrow> string \<Rightarrow> approval_state \<Rightarrow> pydict option res" where
  "get_operation workspace_id operation_id st =
     rbind (record_path workspace_id operation_id) (\<lambda>path. Inr (st_get (ap_operations st) path))"

definition terminal_statuses :: "string list" where
  "terminal_statuses = [''executed'', ''unknown'', ''invalidated'', ''rejected'', ''cancelled'']"

definition claim_ready_section ::
  "string \<Rightarrow> string \<Rightarrow> approval_state \<Rightarrow> pydict \<Rightarrow> (pydict option \<times> pydict option) res" where
  "claim_ready_section now workspace_id st checkpoint =
     (if dget checkpoint ''status'' \<noteq> PStr ''waiting_decisions'' then Inr (None, None)
      else
        rbind (rmapM (\<lambda>v. get_operation workspace_id (py_str v) st) (py_iter (dget checkpoint ''operation_ids''))) (\<lambda>found_ops.
        let operations = map found found_ops in
        if operations = [] \<or> list_ex (\<lambda>item. item = []) operations then Inr (None, None)
        else if list_ex (\<lambda>item. gets item ''status'' \<notin> set terminal_statuses) operations then Inr (None, None)
        else
          let checkpoint' = dupdate checkpoint
                [(''status'', PStr ''resuming''), (''updated_at'', PStr now), (''operations'', PList (map PDict operations))]
          in Inr (Some checkpoint', Some checkpoint')))"

definition with_continuation ::
  "string \<Rightarrow> string \<Rightarrow> (pydict \<Rightarrow> (pydict option \<times> 'a option) res) \<Rightarrow> approval_state \<Rightarrow> (approval_state \<times> 'a option) res" where
  "with_continuation workspace_id checkpoint_id body st =
     rbind (record_path workspace_id checkpoint_id) (\<lambda>path.
     if found (st_get (ap_continuations st) path) = [] then Inr (st, None)
     else rbind (with_record (KeyError checkpoint_id) path body (ap_continuations st)) (\<lambda>(cs, a).
          Inr (st\<lparr>ap_continuations := cs\<rparr>, a)))"

definition claim_ready_continuation ::
  "string \<Rightarrow> string \<Rightarrow> string \<Rightarrow> approval_state \<Rightarrow> (approval_state \<times> pydict option) res" where
  "claim_ready_continuation now workspace_id operation_id st =
     rbind (get_operation workspace_id operation_id st) (\<lambda>operation.
     let checkpoint_id = gets (as_dict (dget (found operation) ''continuation'')) ''checkpoint_id'' in
     if checkpoint_id = [] then Inr (st, None)
     else with_continuation workspace_id checkpoint_id (claim_ready_section now workspace_id st) st)"

definition settle_continuation_section :: "string \<Rightarrow> pydict \<Rightarrow> pydict \<Rightarrow> (pydict option \<times> unit option) res" where
  "settle_continuation_section now result checkpoint =
     Inr (Some (dupdate checkpoint
       [(''status'', PStr ''resumed''), (''resumed_at'', PStr now), (''resume_result'', PDict result),
        (''updated_at'', PStr now)]), None)"

definition settle_continuation ::
  "string \<Rightarrow> string \<Rightarrow> string \<Rightarrow> pydict \<Rightarrow> approval_state \<Rightarrow> (approval_state \<times> unit option) res" where
  "settle_continuation now workspace_id checkpoint_id result st =
     with_continuation workspace_id checkpoint_id (settle_continuation_section now result) st"

definition list_operations ::
  "string \<Rightarrow> string \<Rightarrow> string \<Rightarrow> approval_state \<Rightarrow> pydict list" where
  "list_operations workspace_id session_id status st =
     (let records = list_json_records (map snd (filter (\<lambda>((ws, _), _). ws = workspace_id) (ap_operations st))) 1000;
          in_session = (if session_id \<noteq> [] then filter (\<lambda>r. gets r ''session_id'' = session_id) records else records);
          selected = (if status \<noteq> [] then filter (\<lambda>r. gets r ''status'' = status) in_session else in_session)
      in sorted_desc (\<lambda>r. gets r ''created_at'') selected)"

section \<open>The decision endpoint\<close>

text \<open>The call of the tool runtime: tool, arguments and the context fields that bound it.\<close>

record device_invocation =
  di_tool_id :: string
  di_arguments :: pydict
  di_workspace_id :: string
  di_session_id :: string
  di_run_id :: string
  di_skill :: string
  di_connection_id :: string

datatype invoke_outcome =
    Raised string
  | Returned (iv_status: string) (iv_output: pyval) (iv_errors: "string list")

record decision_response =
  dr_ok :: bool
  dr_http :: nat
  dr_error :: string
  dr_operation :: pydict
  dr_continuation :: "pyval option"

definition claimed_invocation :: "string \<Rightarrow> pydict \<Rightarrow> device_invocation res" where
  "claimed_invocation workspace_id claimed =
     (let connection = as_dict (dget (as_dict (dget claimed ''target'')) ''connection'');
          skill = as_dict (dget claimed ''skill'') in
      case (map_of claimed ''tool_id'', map_of claimed ''action'') of
        (Some tool_id, Some action) \<Rightarrow>
          rbind (py_int (py_or (dget claimed ''timeout'') (PInt 15))) (\<lambda>timeout.
          Inr \<lparr>di_tool_id = py_str tool_id,
               di_arguments =
                 [(''action'', action),
                  (''connection_id'', PStr (gets connection ''connection_id'')),
                  (''commands'', PList (py_iter (dget claimed ''commands''))),
                  (''timeout'', PInt timeout)],
               di_workspace_id = workspace_id,
               di_session_id = gets claimed ''session_id'',
               di_run_id = gets claimed ''run_id'',
               di_skill = gets skill ''skill_id'',
               di_connection_id = gets connection ''connection_id''\<rparr>)
      | _ \<Rightarrow> Inl (KeyError ''tool_id''))"

definition invocation_result :: "invoke_outcome \<Rightarrow> pydict" where
  "invocation_result outcome =
     (case outcome of
        Raised exc \<Rightarrow>
          [(''ok'', PBool False), (''execution_may_continue'', PBool True),
           (''error'', PStr (''approval_execution_exception:'' @ exc))]
      | Returned status out errors \<Rightarrow>
          dupdate (as_dict out)
            [(''ok'', PBool (status \<in> {''succeeded'', ''dry_run''})), (''error'', PStr (py_join ''; '' errors))])"

definition start_ready_continuation ::
  "string \<Rightarrow> string \<Rightarrow> string \<Rightarrow> approval_state \<Rightarrow> (approval_state \<times> pyval option) res" where
  "start_ready_continuation now workspace_id operation_id st =
     rbind (claim_ready_continuation now workspace_id operation_id st) (\<lambda>(st', checkpoint).
     Inr (st', map_option (\<lambda>c. dget c ''checkpoint_id'') checkpoint))"

text \<open>\<open>except KeyError\<close> answers 404, \<open>except ValueError\<close> answers 400; other exceptions leave the
  handler and become a 500.\<close>

definition error_response :: "py_error \<Rightarrow> decision_response" where
  "error_response e =
     (case e of
        KeyError _ \<Rightarrow> \<lparr>dr_ok = False, dr_http = 404, dr_error = ''operation_not_found'', dr_operation = [], dr_continuation = None\<rparr>
      | ValueError m \<Rightarrow> \<lparr>dr_ok = False, dr_http = 400, dr_error = m, dr_operation = [], dr_continuation = None\<rparr>
      | _ \<Rightarrow> \<lparr>dr_ok = False, dr_http = 500, dr_error = [], dr_operation = [], dr_continuation = None\<rparr>)"

definition continue_response ::
  "string \<Rightarrow> string \<Rightarrow> string \<Rightarrow> approval_state \<Rightarrow> (pyval option \<Rightarrow> decision_response) \<Rightarrow> approval_state \<times> decision_response" where
  "continue_response now workspace_id operation_id st answer =
     (case start_ready_continuation now workspace_id operation_id st of
        Inl e \<Rightarrow> (st, error_response e)
      | Inr (st', continuation) \<Rightarrow> (st', answer continuation))"

definition execute_claimed ::
  "(device_invocation \<Rightarrow> invoke_outcome) \<Rightarrow> string \<Rightarrow> string \<Rightarrow> string \<Rightarrow> pydict \<Rightarrow> approval_state \<Rightarrow>
   approval_state \<times> device_invocation option \<times> decision_response" where
  "execute_claimed invoke now workspace_id operation_id claimed st =
     (let (invocation, outcome) =
            (case claimed_invocation workspace_id claimed of
               Inl _ \<Rightarrow> (None, Raised [])
             | Inr i \<Rightarrow> (Some i, invoke i)) in
      case settle_execution now workspace_id operation_id (invocation_result outcome) st of
        Inl e \<Rightarrow> (st, invocation, error_response e)
      | Inr (st', settled) \<Rightarrow>
          (let (st'', response) = continue_response now workspace_id operation_id st' (\<lambda>c.
                 case outcome of
                   Raised _ \<Rightarrow> \<lparr>dr_ok = False, dr_http = 200, dr_error = ''approval_execution_exception'', dr_operation = settled, dr_continuation = c\<rparr>
                 | Returned _ _ _ \<Rightarrow> \<lparr>dr_ok = True, dr_http = 200, dr_error = [], dr_operation = settled, dr_continuation = c\<rparr>)
           in (st'', invocation, response)))"

definition handle_decision ::
  "network \<Rightarrow> (string \<Rightarrow> string) \<Rightarrow> (device_invocation \<Rightarrow> invoke_outcome) \<Rightarrow> string \<Rightarrow> string \<Rightarrow> string \<Rightarrow> string \<Rightarrow> pydict \<Rightarrow>
   approval_state \<Rightarrow> approval_state \<times> device_invocation option \<times> decision_response" where
  "handle_decision net sha256 invoke now nonce workspace_id operation_id payload st =
     (if workspace_id = [] then
        (st, None, \<lparr>dr_ok = False, dr_http = 400, dr_error = ''workspace_id is required'', dr_operation = [], dr_continuation = None\<rparr>)
      else
        case decide_operation now workspace_id operation_id (gets payload ''decision'')
               (gets_or payload ''decided_by'' ''user'') (gets payload ''note'') st of
          Inl e \<Rightarrow> (st, None, error_response e)
        | Inr (st1, rec) \<Rightarrow>
            if dget rec ''status'' \<noteq> PStr ''approved'' then
              (let (st2, response) = continue_response now workspace_id operation_id st1 (\<lambda>c.
                     \<lparr>dr_ok = True, dr_http = 200, dr_error = [], dr_operation = rec, dr_continuation = c\<rparr>)
               in (st2, None, response))
            else
              (case claim_execution net sha256 now nonce workspace_id operation_id st1 of
                 Inl e \<Rightarrow> (st1, None, error_response e)
               | Inr (st2, claimed) \<Rightarrow>
                   if dget claimed ''status'' \<noteq> PStr ''executing'' then
                     (let (st3, response) = continue_response now workspace_id operation_id st2 (\<lambda>c.
                            \<lparr>dr_ok = False, dr_http = 409, dr_error = ''operation_invalidated'', dr_operation = claimed, dr_continuation = c\<rparr>)
                      in (st3, None, response))
                   else execute_claimed invoke now workspace_id operation_id claimed st2))"

section \<open>Histories\<close>

text \<open>The operations of the service as steps of one history, each section as one step. A new record gets an id that no record
  has (\<open>uuid4\<close>); a step that would reuse one is not a step of the system. The log collects the keys
  of the operations whose execution was claimed.\<close>

datatype approval_op =
    Prepare string string pydict
  | Decide string string string string string string
  | Claim string string string string
  | SettleExecution string string string pydict
  | Attach string string string pydict "string list" pydict
  | ClaimReady string string string
  | SettleContinuation string string string pydict

fun approval_step ::
  "network \<Rightarrow> (string \<Rightarrow> string) \<Rightarrow> approval_op \<Rightarrow> approval_state \<times> (string \<times> string) list \<Rightarrow>
   approval_state \<times> (string \<times> string) list" where
  "approval_step net sha256 (Prepare now uuid request) (st, log) =
     (case prepare_network_operation net sha256 now uuid request st of
        Inr (st', Some r) \<Rightarrow>
          (case record_path (gets r ''workspace_id'') (''appr_'' @ uuid) of
             Inr path \<Rightarrow> if st_get (ap_operations st) path = None then (st', log) else (st, log)
           | Inl _ \<Rightarrow> (st, log))
      | _ \<Rightarrow> (st, log))"
| "approval_step net sha256 (Decide now ws op_id decision by_whom note_text) (st, log) =
     (case decide_operation now ws op_id decision by_whom note_text st of Inr (st', _) \<Rightarrow> (st', log) | _ \<Rightarrow> (st, log))"
| "approval_step net sha256 (Claim now nonce ws op_id) (st, log) =
     (case claim_execution net sha256 now nonce ws op_id st of
        Inr (st', r) \<Rightarrow>
          (st', if dget r ''status'' = PStr ''executing''
                then (case record_path ws op_id of Inr path \<Rightarrow> path # log | Inl _ \<Rightarrow> log) else log)
      | _ \<Rightarrow> (st, log))"
| "approval_step net sha256 (SettleExecution now ws op_id result) (st, log) =
     (case settle_execution now ws op_id result st of Inr (st', _) \<Rightarrow> (st', log) | _ \<Rightarrow> (st, log))"
| "approval_step net sha256 (Attach now uuid ws payload ids context) (st, log) =
     (case record_path ws (''apprchk_'' @ uuid) of
        Inr path \<Rightarrow>
          if st_get (ap_continuations st) path \<noteq> None then (st, log)
          else (case attach_continuation_checkpoint now uuid ws payload ids context st of Inr (st', _) \<Rightarrow> (st', log) | _ \<Rightarrow> (st, log))
      | Inl _ \<Rightarrow> (st, log))"
| "approval_step net sha256 (ClaimReady now ws op_id) (st, log) =
     (case claim_ready_continuation now ws op_id st of Inr (st', _) \<Rightarrow> (st', log) | _ \<Rightarrow> (st, log))"
| "approval_step net sha256 (SettleContinuation now ws checkpoint_id result) (st, log) =
     (case settle_continuation now ws checkpoint_id result st of Inr (st', _) \<Rightarrow> (st', log) | _ \<Rightarrow> (st, log))"

text \<open>What a record promises, and how that may change.\<close>

definition approval_allowed :: "string \<Rightarrow> string \<Rightarrow> bool" where
  "approval_allowed s t \<longleftrightarrow>
     s = ''pending'' \<and> t \<in> {''approved'', ''rejected'', ''cancelled''}
     \<or> s = ''approved'' \<and> t \<in> {''executing'', ''invalidated''}
     \<or> s = ''executing'' \<and> t \<in> {''executed'', ''unknown''}"

definition op_facet :: "pydict \<Rightarrow> pydict \<times> string \<times> string" where
  "op_facet r = (frozen_projection r, gets r ''digest'', gets r ''status'')"

definition facet_allowed :: "pydict \<times> string \<times> string \<Rightarrow> pydict \<times> string \<times> string \<Rightarrow> bool" where
  "facet_allowed a b \<longleftrightarrow> fst b = fst a \<and> fst (snd b) = fst (snd a) \<and> approval_allowed (snd (snd a)) (snd (snd b))"

lemma frozen_projection_dset:
  "k \<notin> set frozen_fields \<Longrightarrow> frozen_projection (dset k v r) = frozen_projection r"
  by (auto simp: frozen_projection_def pysimps)

lemma service_fields_not_frozen:
  "''status'' \<notin> set frozen_fields" "''decision'' \<notin> set frozen_fields" "''updated_at'' \<notin> set frozen_fields"
  "''execution'' \<notin> set frozen_fields" "''invalidated_reason'' \<notin> set frozen_fields" "''continuation'' \<notin> set frozen_fields"
  by code_simp+

lemmas facet_simps = op_facet_def facet_allowed_def frozen_projection_dset service_fields_not_frozen

lemma decide_section_facet:
  "decide_section now d by_whom n r = Inr (Some w, a) \<Longrightarrow> facet_allowed (op_facet r) (op_facet w)"
  by (auto simp: decide_section_def Let_def facet_simps pysimps approval_allowed_def decision_status_def split: if_splits)

lemma claim_section_facet:
  "claim_section net sha256 now nonce ws r = Inr (Some w, a) \<Longrightarrow> facet_allowed (op_facet r) (op_facet w)"
  by (auto simp: claim_section_def invalidate_def Let_def facet_simps pysimps approval_allowed_def
      dest!: gets_eq_of_dget split: if_splits)

lemma settle_section_facet:
  "settle_execution_section now result r = Inr (Some w, a) \<Longrightarrow> facet_allowed (op_facet r) (op_facet w)"
  by (auto simp: settle_execution_section_def Let_def facet_simps pysimps approval_allowed_def
      dest!: gets_eq_of_dget split: if_splits)

lemmas with_record_facet = with_record_status [where f = op_facet and R = facet_allowed]

lemma with_operation_Inr:
  assumes "with_operation ws op_id body st = Inr (st', a)"
  obtains path ops where "record_path ws op_id = Inr path"
    "with_record (KeyError ''operation_not_found'') path body (ap_operations st) = Inr (ops, a)"
    "st' = st\<lparr>ap_operations := ops\<rparr>"
  using assms by (auto simp: with_operation_def split: if_splits)

lemma with_operation_facet:
  assumes "with_operation ws op_id body st = Inr (st', a)"
    and "\<And>r w a. body r = Inr (Some w, a) \<Longrightarrow> facet_allowed (op_facet r) (op_facet w)"
    and "st_get (ap_operations st) k = Some r"
  shows "\<exists>r'. st_get (ap_operations st') k = Some r' \<and> (op_facet r' = op_facet r \<or> facet_allowed (op_facet r) (op_facet r'))"
proof (rule with_operation_Inr [OF assms(1)])
  fix path ops
  assume "with_record (KeyError ''operation_not_found'') path body (ap_operations st) = Inr (ops, a)"
    and st': "st' = st\<lparr>ap_operations := ops\<rparr>"
  from with_record_facet [OF this(1) assms(2,3)] show ?thesis by (simp add: st')
qed

lemma with_continuation_operations:
  "with_continuation ws chk body st = Inr (st', a) \<Longrightarrow> ap_operations st' = ap_operations st"
  by (auto simp: with_continuation_def split: if_splits)

lemma claim_ready_operations:
  "claim_ready_continuation now ws op_id st = Inr (st', a) \<Longrightarrow> ap_operations st' = ap_operations st"
  by (auto simp: claim_ready_continuation_def Let_def dest: with_continuation_operations split: if_splits)

lemma attach_one_facet:
  assumes "attach_one now ws chk op_id st = Inr st'"
  shows "map_option op_facet (st_get (ap_operations st') k) = map_option op_facet (st_get (ap_operations st) k)"
  using assms by (auto simp: attach_one_def facet_simps pysimps split: option.splits if_splits)

lemma attach_facet:
  assumes "attach_continuation_checkpoint now uuid ws payload ids ctx st = Inr (st', a)"
  shows "map_option op_facet (st_get (ap_operations st') k) = map_option op_facet (st_get (ap_operations st) k)"
proof -
  from assms obtain path rec ops where
    "rfold (attach_one now ws (''apprchk_'' @ uuid)) ops (st\<lparr>ap_continuations := st_put path rec (ap_continuations st)\<rparr>) = Inr st'"
    by (auto simp: attach_continuation_checkpoint_def Let_def)
  then show ?thesis
    by (rule rfold_invariant) (simp_all add: attach_one_facet)
qed

lemma prepare_Inr:
  assumes "prepare_network_operation net sha256 now uuid request st = Inr (st', Some r)"
  obtains path frozen where "record_path (gets r ''workspace_id'') (''appr_'' @ uuid) = Inr path"
    "st' = st\<lparr>ap_operations := st_put path r (ap_operations st)\<rparr>"
    "r = prepared_record sha256 now (''appr_'' @ uuid) frozen" "map fst frozen = frozen_fields"
proof -
  from assms obtain sk co de w i cs t path where ne: "w \<noteq> []"
    and r: "r = prepared_record sha256 now (''appr_'' @ uuid) (frozen_operation request sk co de w i cs t)"
    and path: "record_path w (''appr_'' @ uuid) = Inr path"
    and st': "st' = st\<lparr>ap_operations := st_put path r (ap_operations st)\<rparr>"
    by (auto simp: prepare_network_operation_def Let_def split: if_splits)
  have "gets r ''workspace_id'' = w"
    using ne by (simp add: r prepared_record_def frozen_operation_def gets_def gets_or_def)
  moreover have "map fst (frozen_operation request sk co de w i cs t) = frozen_fields"
    by (simp add: frozen_operation_def frozen_fields_def)
  ultimately show ?thesis using that r path st' by blast
qed

lemma approval_step_facet:
  assumes "st_get (ap_operations st) k = Some r"
  shows "\<exists>r'. st_get (ap_operations (fst (approval_step net sha256 op (st, log)))) k = Some r'
    \<and> (op_facet r' = op_facet r \<or> facet_allowed (op_facet r) (op_facet r'))"
proof (cases op)
  case (Prepare now uuid request)
  show ?thesis
  proof (cases "prepare_network_operation net sha256 now uuid request st")
    case (Inr p)
    obtain st' w where p: "p = (st', w)" by (cases p)
    show ?thesis
    proof (cases w)
      case (Some w')
      show ?thesis
        by (rule prepare_Inr [OF Inr [unfolded p Some]]) (use assms in \<open>auto simp: Prepare Inr p Some\<close>)
    qed (use assms in \<open>simp add: Prepare Inr p\<close>)
  qed (use assms in \<open>simp add: Prepare\<close>)
next
  case (Decide now ws op_id decision by_whom n)
  show ?thesis
  proof (cases "decide_operation now ws op_id decision by_whom n st")
    case (Inr p)
    then have "with_operation ws op_id (decide_section now (py_lower (py_strip decision)) by_whom n) st = Inr (fst p, snd p)"
      by (auto simp: decide_operation_def Let_def)
    then have "\<exists>r'. st_get (ap_operations (fst p)) k = Some r' \<and> (op_facet r' = op_facet r \<or> facet_allowed (op_facet r) (op_facet r'))"
      by (rule with_operation_facet [OF _ _ assms]) (erule decide_section_facet)
    then show ?thesis by (simp add: Decide Inr case_prod_beta)
  qed (use assms in \<open>simp add: Decide\<close>)
next
  case (Claim now nonce ws op_id)
  show ?thesis
  proof (cases "claim_execution net sha256 now nonce ws op_id st")
    case (Inr p)
    then have "with_operation ws op_id (claim_section net sha256 now nonce ws) st = Inr (fst p, snd p)"
      by (simp add: claim_execution_def)
    then have "\<exists>r'. st_get (ap_operations (fst p)) k = Some r' \<and> (op_facet r' = op_facet r \<or> facet_allowed (op_facet r) (op_facet r'))"
      by (rule with_operation_facet [OF _ _ assms]) (erule claim_section_facet)
    then show ?thesis by (simp add: Claim Inr case_prod_beta)
  qed (use assms in \<open>simp add: Claim\<close>)
next
  case (SettleExecution now ws op_id result)
  show ?thesis
  proof (cases "settle_execution now ws op_id result st")
    case (Inr p)
    then have "with_operation ws op_id (settle_execution_section now result) st = Inr (fst p, snd p)"
      by (simp add: settle_execution_def)
    then have "\<exists>r'. st_get (ap_operations (fst p)) k = Some r' \<and> (op_facet r' = op_facet r \<or> facet_allowed (op_facet r) (op_facet r'))"
      by (rule with_operation_facet [OF _ _ assms]) (erule settle_section_facet)
    then show ?thesis by (simp add: SettleExecution Inr case_prod_beta)
  qed (use assms in \<open>simp add: SettleExecution\<close>)
next
  case (Attach now uuid ws payload ids ctx)
  have "map_option op_facet (st_get (ap_operations (fst (approval_step net sha256 op (st, log)))) k) = Some (op_facet r)"
    using assms attach_facet [where k = k, of now uuid ws payload ids ctx st]
    by (cases "attach_continuation_checkpoint now uuid ws payload ids ctx st") (auto simp: Attach split: sum.splits)
  then show ?thesis by auto
next
  case (ClaimReady now ws op_id)
  have "ap_operations (fst (approval_step net sha256 op (st, log))) = ap_operations st"
    using claim_ready_operations [of now ws op_id st]
    by (cases "claim_ready_continuation now ws op_id st") (auto simp: ClaimReady)
  with assms show ?thesis by auto
next
  case (SettleContinuation now ws chk result)
  have "ap_operations (fst (approval_step net sha256 op (st, log))) = ap_operations st"
    using with_continuation_operations [of ws chk "settle_continuation_section now result" st]
    by (cases "settle_continuation now ws chk result st") (auto simp: SettleContinuation settle_continuation_def)
  with assms show ?thesis by auto
qed

definition approval_view :: "approval_state \<times> (string \<times> string) list \<Rightarrow> string \<times> string \<Rightarrow> (pydict \<times> string \<times> string) option" where
  "approval_view s k = map_option op_facet (st_get (ap_operations (fst s)) k)"

interpretation approval: status_machine approval_view "approval_step net sha256" facet_allowed for net sha256
proof
  fix st i s op
  assume "approval_view st i = Some s"
  then obtain r where r: "st_get (ap_operations (fst st)) i = Some r" "s = op_facet r"
    by (auto simp: approval_view_def)
  from approval_step_facet [OF r(1), of net sha256 op "snd st"] r(2)
  show "\<exists>s'. approval_view (approval_step net sha256 op st) i = Some s' \<and> (s' = s \<or> facet_allowed s s')"
    by (auto simp: approval_view_def simp del: split_paired_Ex)
qed

section \<open>What histories preserve\<close>

lemma facet_allowed_rtrancl:
  "facet_allowed\<^sup>*\<^sup>* a b \<Longrightarrow> fst b = fst a \<and> fst (snd b) = fst (snd a) \<and> approval_allowed\<^sup>*\<^sup>* (snd (snd a)) (snd (snd b))"
  by (induction rule: rtranclp_induct)
    (auto simp: facet_allowed_def intro: rtranclp.rtrancl_into_rtrancl)



subsection \<open>At most one execution\<close>

lemma claim_section_executing:
  assumes "claim_section net sha256 now nonce ws r = Inr (w, a)" "dget a ''status'' = PStr ''executing''"
  shows "dget r ''status'' = PStr ''approved'' \<and> gets r ''digest'' = operation_digest sha256 (frozen_projection r)
    \<and> scope_valid net ws r \<and> w = Some a \<and> gets a ''status'' = ''executing''"
  using assms by (auto simp: claim_section_def invalidate_def Let_def pysimps split: if_splits)

lemma claim_execution_executing:
  assumes "claim_execution net sha256 now nonce ws op_id st = Inr (st', a)" "dget a ''status'' = PStr ''executing''"
  obtains path r where "record_path ws op_id = Inr path" "st_get (ap_operations st) path = Some r"
    "dget r ''status'' = PStr ''approved''" "gets r ''digest'' = operation_digest sha256 (frozen_projection r)"
    "scope_valid net ws r" "st_get (ap_operations st') path = Some a"
proof (rule with_operation_Inr [OF assms(1) [unfolded claim_execution_def]])
  fix path ops
  assume path: "record_path ws op_id = Inr path" and st': "st' = st\<lparr>ap_operations := ops\<rparr>"
    and "with_record (KeyError ''operation_not_found'') path (claim_section net sha256 now nonce ws) (ap_operations st) = Inr (ops, a)"
  from this(3) show ?thesis
  proof (rule with_record_Inr)
    fix r w
    assume r: "st_get (ap_operations st) path = Some r" "claim_section net sha256 now nonce ws r = Inr (w, a)"
      and ops: "ops = (case w of None \<Rightarrow> ap_operations st | Some r' \<Rightarrow> st_put path r' (ap_operations st))"
    note e = claim_section_executing [OF r(2) assms(2)]
    then have "st_get (ap_operations st') path = Some a" by (simp add: st' ops)
    with that path r(1) e show ?thesis by blast
  qed
qed

text \<open>The histories above take a section as one step. Here it is opened: a section acquires the lock of its operation
  and reads the record, and later it runs on what it read, writes and releases; between the two, other requests go
  on. The lock is named after the id as the request spells it, the record file after its segment. The log
  collects the records whose execution was claimed.\<close>

definition lock_name :: "string \<Rightarrow> string \<Rightarrow> (string \<times> string) res" where
  "lock_name workspace_id operation_id =
     rbind (validate_workspace_id (PStr workspace_id)) (\<lambda>ws. Inr (ws, operation_id))"

datatype locked_section =
    Deciding string string string string
  | Claiming network string string string
  | Settling string pydict
  | Attaching string string

definition run_section :: "(string \<Rightarrow> string) \<Rightarrow> locked_section \<Rightarrow> pydict \<Rightarrow> (pydict option \<times> pydict) res" where
  "run_section sha256 sec r =
     (case sec of
        Deciding now normalized by_whom note_text \<Rightarrow> decide_section now normalized by_whom note_text r
      | Claiming net now nonce ws \<Rightarrow> claim_section net sha256 now nonce ws r
      | Settling now result \<Rightarrow> settle_execution_section now result r
      | Attaching now checkpoint_id \<Rightarrow>
          let r' = dupdate r [(''continuation'', PDict [(''checkpoint_id'', PStr checkpoint_id)]), (''updated_at'', PStr now)]
          in Inr (Some r', r'))"

definition claims_execution :: "locked_section \<Rightarrow> pydict \<Rightarrow> bool" where
  "claims_execution sec answer \<longleftrightarrow> (case sec of Claiming _ _ _ _ \<Rightarrow> dget answer ''status'' = PStr ''executing'' | _ \<Rightarrow> False)"

record section_state =
  sc_state :: approval_state
  sc_open :: "((string \<times> string) \<times> (string \<times> string) \<times> locked_section \<times> pydict) list"
  sc_claimed :: "(string \<times> string) list"

datatype section_event =
    Freeze network string string pydict
  | Enter string string locked_section
  | Leave "string \<times> string"
  | Crash "string \<times> string"

fun section_step :: "(string \<Rightarrow> string) \<Rightarrow> section_event \<Rightarrow> section_state \<Rightarrow> section_state" where
  "section_step sha256 (Freeze net now uuid request) s =
     s\<lparr>sc_state := fst (approval_step net sha256 (Prepare now uuid request) (sc_state s, []))\<rparr>"
| "section_step sha256 (Enter ws op_id sec) s =
     (case (lock_name ws op_id, record_path ws op_id) of
        (Inr lock, Inr path) \<Rightarrow>
          let r = found (st_get (ap_operations (sc_state s)) path) in
          if lock \<in> fst ` set (sc_open s) \<or> r = [] then s
          else s\<lparr>sc_open := (lock, path, sec, r) # sc_open s\<rparr>
      | _ \<Rightarrow> s)"
| "section_step sha256 (Leave lock) s =
     (case map_of (sc_open s) lock of
        None \<Rightarrow> s
      | Some (path, sec, r) \<Rightarrow>
          (case run_section sha256 sec r of
             Inl _ \<Rightarrow> s\<lparr>sc_open := AList.delete lock (sc_open s)\<rparr>
           | Inr (w, answer) \<Rightarrow>
               \<lparr>sc_state = (case w of
                   None \<Rightarrow> sc_state s
                 | Some r' \<Rightarrow> (sc_state s)\<lparr>ap_operations := st_put path r' (ap_operations (sc_state s))\<rparr>),
                sc_open = AList.delete lock (sc_open s),
                sc_claimed = (if claims_execution sec answer then path # sc_claimed s else sc_claimed s)\<rparr>))"
| "section_step sha256 (Crash lock) s = s\<lparr>sc_open := AList.delete lock (sc_open s)\<rparr>"

text \<open>Without interference the two halves are the section as one step.\<close>

lemma enter_leave_section:
  assumes "with_operation ws op_id (run_section sha256 sec) (sc_state s) = Inr (st', answer)"
    and "lock_name ws op_id = Inr lock" and "lock \<notin> fst ` set (sc_open s)"
  shows "fold (section_step sha256) [Enter ws op_id sec, Leave lock] s =
    \<lparr>sc_state = st', sc_open = sc_open s,
     sc_claimed = (case record_path ws op_id of Inr path \<Rightarrow> if claims_execution sec answer then path # sc_claimed s else sc_claimed s | Inl _ \<Rightarrow> [])\<rparr>"
proof -
  have "AList.delete lock (sc_open s) = sc_open s" using assms(3) by (intro delete_id) simp
  with assms show ?thesis
    by (auto simp: with_operation_def with_record_def found_def split: if_splits option.splits)
qed

text \<open>The spellings of operation ids that a history uses, and that no operation is spelled in two ways.\<close>

definition spellings :: "section_event list \<Rightarrow> (string \<times> string) set" where
  "spellings events = {(ws, op_id). \<exists>sec. Enter ws op_id sec \<in> set events}"

definition spelled_once :: "(string \<times> string) set \<Rightarrow> bool" where
  "spelled_once ids \<longleftrightarrow>
     (\<forall>(ws, i) \<in> ids. \<forall>(ws', i') \<in> ids. record_path ws i = record_path ws' i' \<longrightarrow> lock_name ws i = lock_name ws' i')"

text \<open>The ids that \<open>uuid4\<close> generates are their own segments; a history that uses such ids spells each operation once.\<close>

lemma generated_ids_spelled_once:
  assumes "\<forall>(ws, i) \<in> ids. segment i = Inr i"
  shows "spelled_once ids"
  using assms unfolding spelled_once_def by (auto simp: lock_name_def record_path_def Ball_def)

lemma run_section_facet:
  "run_section sha256 sec r = Inr (Some w, a) \<Longrightarrow> op_facet w = op_facet r \<or> facet_allowed (op_facet r) (op_facet w)"
  by (cases sec)
    (auto simp: run_section_def Let_def facet_simps(1,3-) pysimps dest: decide_section_facet claim_section_facet settle_section_facet)

lemma run_section_claims:
  assumes "run_section sha256 sec r = Inr (w, a)" and "claims_execution sec a"
  shows "gets r ''status'' = ''approved'' \<and> w = Some a \<and> gets a ''status'' = ''executing''"
  using assms by (cases sec) (auto simp: run_section_def claims_execution_def dest: claim_section_executing gets_eq_of_dget)

text \<open>What every history with one spelling per operation maintains: an open section still sees the record as it read it,
  every claimed record is past approval, and no record was claimed twice.\<close>

definition sections_ok :: "(string \<times> string) set \<Rightarrow> section_state \<Rightarrow> bool" where
  "sections_ok ids s \<longleftrightarrow>
     distinct (map fst (sc_open s))
     \<and> (\<forall>(lock, path, sec, r) \<in> set (sc_open s). st_get (ap_operations (sc_state s)) path = Some r
          \<and> (\<exists>(ws, i) \<in> ids. lock_name ws i = Inr lock \<and> record_path ws i = Inr path))
     \<and> distinct (sc_claimed s)
     \<and> (\<forall>path \<in> set (sc_claimed s). \<exists>r. st_get (ap_operations (sc_state s)) path = Some r
          \<and> gets r ''status'' \<in> {''executing'', ''executed'', ''unknown''})"

lemma freeze_keeps:
  assumes "st_get (ap_operations st) k = Some r"
  shows "st_get (ap_operations (fst (approval_step net sha256 (Prepare now uuid request) (st, log)))) k = Some r"
proof (cases "prepare_network_operation net sha256 now uuid request st")
  case (Inr p)
  obtain st' w where p: "p = (st', w)" by (cases p)
  show ?thesis
  proof (cases w)
    case (Some w')
    show ?thesis by (rule prepare_Inr [OF Inr [unfolded p Some]]) (use assms in \<open>auto simp: Inr p Some\<close>)
  qed (use assms in \<open>simp add: Inr p\<close>)
qed (use assms in simp)

lemma sections_ok_close:
  assumes "sections_ok ids s" shows "sections_ok ids (s\<lparr>sc_open := AList.delete lock (sc_open s)\<rparr>)"
  using assms by (auto simp: sections_ok_def AList.delete_eq distinct_map_filter)

lemma sections_ok_leave:
  assumes "spelled_once ids" and ok: "sections_ok ids s" and "map_of (sc_open s) lock = Some (path, sec, r)"
    and run: "run_section sha256 sec r = Inr (w, a)"
  shows "sections_ok ids (section_step sha256 (Leave lock) s)"
proof -
  have here: "(lock, path, sec, r) \<in> set (sc_open s)" using assms(3) by (rule map_of_SomeD)
  with ok have r: "st_get (ap_operations (sc_state s)) path = Some r"
    and mine: "\<exists>(ws, i) \<in> ids. lock_name ws i = Inr lock \<and> record_path ws i = Inr path" by (auto simp: sections_ok_def)
  let ?st = "case w of None \<Rightarrow> sc_state s | Some r' \<Rightarrow> (sc_state s)\<lparr>ap_operations := st_put path r' (ap_operations (sc_state s))\<rparr>"
  have store: "st_get (ap_operations ?st) p = (if p = path then Some (case w of None \<Rightarrow> r | Some r' \<Rightarrow> r') else st_get (ap_operations (sc_state s)) p)" for p
    using r by (cases w) auto
  have others: "path' \<noteq> path \<and> (lock', path', sec', r') \<in> set (sc_open s)"
    if "(lock', path', sec', r') \<in> set (AList.delete lock (sc_open s))" for lock' path' sec' r'
  proof -
    from that have mem: "(lock', path', sec', r') \<in> set (sc_open s)" "lock' \<noteq> lock"
      by (auto simp: AList.delete_eq)
    then have "\<exists>(ws, i) \<in> ids. lock_name ws i = Inr lock' \<and> record_path ws i = Inr path'" using ok by (fastforce simp: sections_ok_def)
    with mine mem(2) assms(1) have "path' \<noteq> path" unfolding spelled_once_def by fastforce
    with mem(1) show ?thesis by simp
  qed
  have status: "gets (case w of None \<Rightarrow> r | Some r' \<Rightarrow> r') ''status'' \<in> {''executing'', ''executed'', ''unknown''}"
    if "gets r ''status'' \<in> {''executing'', ''executed'', ''unknown''}"
    using that run_section_facet [of sha256 sec r] run
    by (cases w) (auto simp: op_facet_def facet_allowed_def approval_allowed_def)
  have fresh: "path \<notin> set (sc_claimed s) \<and> gets (case w of None \<Rightarrow> r | Some r' \<Rightarrow> r') ''status'' = ''executing''" if "claims_execution sec a"
    using run_section_claims [OF run that] ok r by (auto simp: sections_ok_def)
  have claimed: "\<exists>r. st_get (ap_operations ?st) p = Some r \<and> gets r ''status'' \<in> {''executing'', ''executed'', ''unknown''}"
    if "p \<in> set (sc_claimed s)" for p
    using ok that status r unfolding store by (cases "p = path") (auto simp: sections_ok_def)
  have step: "section_step sha256 (Leave lock) s =
      \<lparr>sc_state = ?st, sc_open = AList.delete lock (sc_open s),
       sc_claimed = (if claims_execution sec a then path # sc_claimed s else sc_claimed s)\<rparr>"
    by (simp add: assms(3) run)
  have opened: "st_get (ap_operations ?st) path' = Some r' \<and> (\<exists>(ws, i) \<in> ids. lock_name ws i = Inr lock' \<and> record_path ws i = Inr path')"
    if "(lock', path', sec', r') \<in> set (AList.delete lock (sc_open s))" for lock' path' sec' r'
    using others [OF that] ok unfolding store by (fastforce simp: sections_ok_def)
  have "distinct (map fst (AList.delete lock (sc_open s)))" "distinct (sc_claimed s)"
    using ok by (simp_all add: sections_ok_def distinct_delete)
  then show ?thesis
    unfolding step sections_ok_def using opened claimed fresh store [of path] by auto
qed

lemma sections_ok_step:
  assumes "spelled_once ids" and "sections_ok ids s" and "\<And>ws i sec. e = Enter ws i sec \<Longrightarrow> (ws, i) \<in> ids"
  shows "sections_ok ids (section_step sha256 e s)"
proof (cases e)
  case (Freeze net now uuid request)
  then show ?thesis using assms(2) by (fastforce simp: sections_ok_def freeze_keeps simp del: approval_step.simps)
next
  case (Enter ws i sec)
  then have "(ws, i) \<in> ids" by (rule assms(3))
  with assms(2) show ?thesis
    by (auto simp: Enter sections_ok_def Let_def found_def split: sum.splits option.splits)
next
  case (Leave lock)
  show ?thesis
  proof (cases "map_of (sc_open s) lock")
    case (Some q)
    obtain path sec r where q: "q = (path, sec, r)" by (cases q)
    show ?thesis
      using sections_ok_leave [OF assms(1,2) Some [unfolded q], of sha256] sections_ok_close [OF assms(2), of lock]
      by (cases "run_section sha256 sec r") (auto simp: Leave Some q simp del: section_step.simps(3), simp add: Some q)
  qed (simp add: Leave assms(2))
qed (simp add: sections_ok_close assms(2))

lemma sections_ok_run:
  assumes "spelled_once ids" and "sections_ok ids s" and "spellings events \<subseteq> ids"
  shows "sections_ok ids (fold (section_step sha256) events s)"
  using assms(2,3)
proof (induction events arbitrary: s)
  case (Cons e events)
  have "sections_ok ids (section_step sha256 e s)"
    by (rule sections_ok_step [OF assms(1) Cons.prems(1)]) (use Cons.prems(2) in \<open>auto simp: spellings_def\<close>)
  moreover have "spellings events \<subseteq> ids" using Cons.prems(2) by (auto simp: spellings_def)
  ultimately show ?case using Cons.IH by simp
qed simp

text \<open>C13: As long as the requests spell an operation in one way (every request that uses the generated id does), an approved
  operation is handed to the device at most once, however the halves of the locked sections interleave and
  wherever a process dies: the log of execution claims repeats no record. The hypothesis is needed, as
  \<open>alias_spelling_claims_twice\<close> below shows.\<close>

theorem execution_claimed_at_most_once:
  assumes "spelled_once (spellings events)"
  shows "distinct (sc_claimed (fold (section_step sha256) events \<lparr>sc_state = st, sc_open = [], sc_claimed = []\<rparr>))"
  using sections_ok_run [OF assms, of "\<lparr>sc_state = st, sc_open = [], sc_claimed = []\<rparr>" events sha256]
  by (simp add: sections_ok_def)

subsection \<open>What the device gets\<close>

lemma continue_response_case: "\<exists>st' r. continue_response now ws op_id st answer = (st', r)"
  by (cases "continue_response now ws op_id st answer") blast

lemma decide_operation_record:
  assumes "decide_operation now ws op_id decision by_whom n st = Inr (st', r)"
  obtains path r0 where "record_path ws op_id = Inr path" "st_get (ap_operations st) path = Some r0"
    "st_get (ap_operations st') path = Some r" "frozen_projection r = frozen_projection r0" "gets r ''digest'' = gets r0 ''digest''"
    "gets r0 ''status'' \<noteq> ''pending'' \<and> r = r0 \<or> gets r0 ''status'' = ''pending'' \<and> gets r ''status'' = decision_status (py_lower (py_strip decision))"
proof -
  from assms have "with_operation ws op_id (decide_section now (py_lower (py_strip decision)) by_whom n) st = Inr (st', r)"
    by (auto simp: decide_operation_def Let_def)
  then show ?thesis
  proof (rule with_operation_Inr)
    fix path ops
    assume path: "record_path ws op_id = Inr path" and st': "st' = st\<lparr>ap_operations := ops\<rparr>"
      and "with_record (KeyError ''operation_not_found'') path (decide_section now (py_lower (py_strip decision)) by_whom n) (ap_operations st) = Inr (ops, r)"
    from this(3) show ?thesis
    proof (rule with_record_Inr)
      fix r0 w
      assume r0: "st_get (ap_operations st) path = Some r0" and d: "decide_section now (py_lower (py_strip decision)) by_whom n r0 = Inr (w, r)"
        and ops: "ops = (case w of None \<Rightarrow> ap_operations st | Some r' \<Rightarrow> st_put path r' (ap_operations st))"
      show ?thesis
      proof (cases "gets r0 ''status'' = ''pending''")
        case True
        with d have "w = Some r" "frozen_projection r = frozen_projection r0" "gets r ''digest'' = gets r0 ''digest''"
          "gets r ''status'' = decision_status (py_lower (py_strip decision))"
          by (auto simp: decide_section_def Let_def facet_simps pysimps decision_status_def split: if_splits)
        with that path r0 st' ops True show ?thesis by simp
      next
        case False
        with d have "w = None" "r = r0" by (auto simp: decide_section_def Let_def split: if_splits)
        with that path r0 st' ops False show ?thesis by simp
      qed
    qed
  qed
qed

lemma frozen_projection_field:
  assumes "frozen_projection a = frozen_projection b" "k \<in> set frozen_fields"
  shows "dget a k = dget b k"
  using assms by (auto simp: frozen_projection_def)

lemma scope_valid_frozen: "frozen_projection a = frozen_projection b \<Longrightarrow> scope_valid net ws a = scope_valid net ws b"
proof -
  assume f: "frozen_projection a = frozen_projection b"
  have "''target'' \<in> set frozen_fields" "''skill'' \<in> set frozen_fields" by code_simp+
  then have "dget a ''target'' = dget b ''target''" "dget a ''skill'' = dget b ''skill''"
    using frozen_projection_field [OF f] by blast+
  then show ?thesis by (simp add: scope_valid_def)
qed

lemma handle_decision_invokes:
  assumes "handle_decision net sha256 invoke now nonce ws op_id payload st = (st', Some ivc, resp)"
  obtains st1 r st2 claimed where
    "decide_operation now ws op_id (gets payload ''decision'') (gets_or payload ''decided_by'' ''user'') (gets payload ''note'') st = Inr (st1, r)"
    "dget r ''status'' = PStr ''approved''"
    "claim_execution net sha256 now nonce ws op_id st1 = Inr (st2, claimed)" "dget claimed ''status'' = PStr ''executing''"
    "claimed_invocation ws claimed = Inr ivc"
proof -
  obtain d where d: "decide_operation now ws op_id (gets payload ''decision'') (gets_or payload ''decided_by'' ''user'') (gets payload ''note'') st = d"
    by blast
  with assms obtain st1 r where r: "d = Inr (st1, r)" "dget r ''status'' = PStr ''approved''"
    by (auto simp: handle_decision_def case_prod_beta split: if_splits sum.splits)
  obtain c where c: "claim_execution net sha256 now nonce ws op_id st1 = c" by blast
  with assms d r obtain st2 claimed where cl: "c = Inr (st2, claimed)" "dget claimed ''status'' = PStr ''executing''"
    by (auto simp: handle_decision_def case_prod_beta split: if_splits sum.splits)
  from assms d r c cl have "fst (snd (execute_claimed invoke now ws op_id claimed st2)) = Some ivc"
    by (auto simp: handle_decision_def case_prod_beta split: if_splits sum.splits)
  then have "claimed_invocation ws claimed = Inr ivc"
    by (auto simp: execute_claimed_def Let_def case_prod_beta split: sum.splits)
  with that d r c cl show ?thesis by blast
qed

lemma claim_section_frozen:
  "claim_section net sha256 now nonce ws r = Inr (w, a) \<Longrightarrow> frozen_projection a = frozen_projection r"
  by (auto simp: claim_section_def invalidate_def Let_def facet_simps split: if_splits)

lemma claim_execution_frozen:
  assumes "claim_execution net sha256 now nonce ws op_id st = Inr (st', a)" "record_path ws op_id = Inr path" "st_get (ap_operations st) path = Some r"
  shows "frozen_projection a = frozen_projection r"
  using assms(1) unfolding claim_execution_def
  by (rule with_operation_Inr) (use assms(2,3) in \<open>auto elim!: with_record_Inr dest: claim_section_frozen\<close>)

lemma claimed_invocation_Inr:
  assumes "claimed_invocation ws claimed = Inr ivc"
  shows "\<exists>timeout. py_int (py_or (dget claimed ''timeout'') (PInt 15)) = Inr timeout \<and>
    ivc = \<lparr>di_tool_id = py_str (dget claimed ''tool_id''),
           di_arguments =
             [(''action'', dget claimed ''action''),
              (''connection_id'', PStr (gets (as_dict (dget (as_dict (dget claimed ''target'')) ''connection'')) ''connection_id'')),
              (''commands'', PList (py_iter (dget claimed ''commands''))),
              (''timeout'', PInt timeout)],
           di_workspace_id = ws, di_session_id = gets claimed ''session_id'', di_run_id = gets claimed ''run_id'',
           di_skill = gets (as_dict (dget claimed ''skill'')) ''skill_id'',
           di_connection_id = gets (as_dict (dget (as_dict (dget claimed ''target'')) ''connection'')) ''connection_id''\<rparr>"
  using assms by (auto simp: claimed_invocation_def Let_def dget_def [of claimed "''tool_id''"] dget_def [of claimed "''action''"] split: option.splits)

lemma invocation_fields_frozen:
  "''tool_id'' \<in> set frozen_fields" "''action'' \<in> set frozen_fields" "''commands'' \<in> set frozen_fields" "''target'' \<in> set frozen_fields"
  "''timeout'' \<in> set frozen_fields" "''session_id'' \<in> set frozen_fields" "''run_id'' \<in> set frozen_fields" "''skill'' \<in> set frozen_fields"
  by code_simp+

text \<open>C23: Whatever the decision endpoint sends to the device is the frozen operation itself. The stored record
  matches its digest, the recheck of connection, device and skill has passed, and it was approved, or pending and this
  request approves it. The invocation is determined by the record: the tool, exactly the four arguments action,
  connection, commands in their order and timeout, and the workspace, session, run, skill and connection that
  bound it.\<close>

theorem device_gets_the_frozen_operation:
  assumes "handle_decision net sha256 invoke now nonce ws op_id payload st = (st', Some ivc, resp)"
  shows "\<exists>path r connection timeout. record_path ws op_id = Inr path \<and> st_get (ap_operations st) path = Some r
    \<and> gets r ''digest'' = operation_digest sha256 (frozen_projection r) \<and> scope_valid net ws r
    \<and> (gets r ''status'' = ''approved''
        \<or> gets r ''status'' = ''pending'' \<and> py_lower (py_strip (gets payload ''decision'')) = ''approve'')
    \<and> connection = gets (as_dict (dget (as_dict (dget r ''target'')) ''connection'')) ''connection_id''
    \<and> py_int (py_or (dget r ''timeout'') (PInt 15)) = Inr timeout
    \<and> ivc = \<lparr>di_tool_id = py_str (dget r ''tool_id''),
             di_arguments =
               [(''action'', dget r ''action''), (''connection_id'', PStr connection),
                (''commands'', PList (py_iter (dget r ''commands''))), (''timeout'', PInt timeout)],
             di_workspace_id = ws, di_session_id = gets r ''session_id'', di_run_id = gets r ''run_id'',
             di_skill = gets (as_dict (dget r ''skill'')) ''skill_id'', di_connection_id = connection\<rparr>"
proof (rule handle_decision_invokes [OF assms])
  fix st1 r1 st2 claimed
  assume d: "decide_operation now ws op_id (gets payload ''decision'') (gets_or payload ''decided_by'' ''user'') (gets payload ''note'') st = Inr (st1, r1)"
    and r1: "dget r1 ''status'' = PStr ''approved''"
    and c: "claim_execution net sha256 now nonce ws op_id st1 = Inr (st2, claimed)" "dget claimed ''status'' = PStr ''executing''"
    and ivc: "claimed_invocation ws claimed = Inr ivc"
  from d obtain path r where path: "record_path ws op_id = Inr path" and r: "st_get (ap_operations st) path = Some r"
    and st1: "st_get (ap_operations st1) path = Some r1" and fz: "frozen_projection r1 = frozen_projection r"
    and dg: "gets r1 ''digest'' = gets r ''digest''"
    and how: "gets r ''status'' \<noteq> ''pending'' \<and> r1 = r
       \<or> gets r ''status'' = ''pending'' \<and> gets r1 ''status'' = decision_status (py_lower (py_strip (gets payload ''decision'')))"
    by (rule decide_operation_record)
  from c obtain r2 where "st_get (ap_operations st1) path = Some r2" "gets r2 ''digest'' = operation_digest sha256 (frozen_projection r2)"
    "scope_valid net ws r2" by (rule claim_execution_executing) (use path in auto)
  with st1 fz dg scope_valid_frozen [OF fz] have digest: "gets r ''digest'' = operation_digest sha256 (frozen_projection r)"
    "scope_valid net ws r" by simp_all
  have "frozen_projection claimed = frozen_projection r"
    using claim_execution_frozen [OF c(1) path st1] fz by simp
  then have f: "dget claimed k = dget r k" if "k \<in> set frozen_fields" for k
    using that by (rule frozen_projection_field)
  note same = invocation_fields_frozen [THEN f]
  have "gets r ''status'' = ''approved''
        \<or> gets r ''status'' = ''pending'' \<and> py_lower (py_strip (gets payload ''decision'')) = ''approve''"
    using how r1 by (auto simp: gets_eq_of_dget decision_status_def split: if_splits)
  moreover from claimed_invocation_Inr [OF ivc] obtain timeout where
    "py_int (py_or (dget r ''timeout'') (PInt 15)) = Inr timeout"
    "ivc = \<lparr>di_tool_id = py_str (dget r ''tool_id''),
             di_arguments =
               [(''action'', dget r ''action''),
                (''connection_id'', PStr (gets (as_dict (dget (as_dict (dget r ''target'')) ''connection'')) ''connection_id'')),
                (''commands'', PList (py_iter (dget r ''commands''))), (''timeout'', PInt timeout)],
             di_workspace_id = ws, di_session_id = gets r ''session_id'', di_run_id = gets r ''run_id'',
             di_skill = gets (as_dict (dget r ''skill'')) ''skill_id'',
             di_connection_id = gets (as_dict (dget (as_dict (dget r ''target'')) ''connection'')) ''connection_id''\<rparr>"
    unfolding same gets_same [OF same(6)] gets_same [OF same(7)] by blast
  ultimately show ?thesis using path r digest by blast
qed

definition witness_network :: network where
  "witness_network =
     \<lparr>get_skill = \<lambda>_ _. Some [(''connection_ids'', PList [PStr ''c''])],
      get_connection = \<lambda>_ _. Some [(''connection_id'', PStr ''c'')],
      get_device = \<lambda>_ _. Some [(''device_id'', PStr ''d'')]\<rparr>"

definition witness_frozen :: pydict where
  "witness_frozen = frozen_operation [] [(''connection_ids'', PList [PStr ''c''])]
     [(''connection_id'', PStr ''c'')] [(''device_id'', PStr ''d'')] ''w'' ''s'' [PStr ''reload''] 15"

definition witness_state :: "string \<Rightarrow> approval_state" where
  "witness_state status =
     \<lparr>ap_operations = [((''w'', ''appr_1''), dset ''status'' (PStr status) (prepared_record (\<lambda>s. ''digest'') ''t'' ''appr_1'' witness_frozen))],
      ap_continuations = []\<rparr>"

definition witness_claim :: locked_section where
  "witness_claim = Claiming witness_network ''t'' ''n'' ''w''"

text \<open>Two requests for one operation, interleaved: the second finds the lock taken, and later the record executing.\<close>

theorem execution_claimed_at_most_once_witness:
  "let events = [Enter ''w'' ''appr_1'' witness_claim, Enter ''w'' ''appr_1'' witness_claim, Leave (''w'', ''appr_1''),
                 Enter ''w'' ''appr_1'' witness_claim, Leave (''w'', ''appr_1'')];
       claimed = sc_claimed (fold (section_step (\<lambda>s. ''digest'')) events \<lparr>sc_state = witness_state ''approved'', sc_open = [], sc_claimed = []\<rparr>)
   in spelled_once (spellings events) \<and> distinct claimed \<and> claimed = [(''w'', ''appr_1'')]"
proof -
  let ?events = "[Enter ''w'' ''appr_1'' witness_claim, Enter ''w'' ''appr_1'' witness_claim, Leave (''w'', ''appr_1''),
                 Enter ''w'' ''appr_1'' witness_claim, Leave (''w'', ''appr_1'')]"
  have once: "spelled_once (spellings ?events)" by (auto simp: spelled_once_def spellings_def)
  have "sc_claimed (fold (section_step (\<lambda>s. ''digest'')) ?events \<lparr>sc_state = witness_state ''approved'', sc_open = [], sc_claimed = []\<rparr>)
      = [(''w'', ''appr_1'')]" by code_simp
  with execution_claimed_at_most_once [OF once, of "\<lambda>s. ''digest''" "witness_state ''approved''"] once show ?thesis by (simp only: Let_def)
qed

text \<open>With two spellings of the id the hypothesis fails, and so does the promise: two requests hold two locks, both read the
  approved record, and both claim it.\<close>

theorem alias_spelling_claims_twice:
  "let events = [Enter ''w'' ''appr_1'' witness_claim, Enter ''w'' ''appr_1!'' witness_claim,
                 Leave (''w'', ''appr_1''), Leave (''w'', ''appr_1!'')]
   in sc_claimed (fold (section_step (\<lambda>s. ''digest'')) events \<lparr>sc_state = witness_state ''approved'', sc_open = [], sc_claimed = []\<rparr>)
        = [(''w'', ''appr_1''), (''w'', ''appr_1'')]"
  by code_simp

theorem device_gets_the_frozen_operation_witness:
  "\<exists>ivc. fst (snd (handle_decision witness_network (\<lambda>s. ''digest'') (\<lambda>_. Returned ''succeeded'' PNone []) ''t'' ''n'' ''w'' ''appr_1''
      [(''decision'', PStr ''approve'')] (witness_state ''pending''))) = Some ivc
    \<and> di_arguments ivc = [(''action'', PStr ''configure''), (''connection_id'', PStr ''c''), (''commands'', PList [PStr ''reload'']), (''timeout'', PInt 15)]
    \<and> di_workspace_id ivc = ''w'' \<and> di_connection_id ivc = ''c''"
proof -
  let ?h = "handle_decision witness_network (\<lambda>s. ''digest'') (\<lambda>_. Returned ''succeeded'' PNone []) ''t'' ''n'' ''w'' ''appr_1''
      [(''decision'', PStr ''approve'')] (witness_state ''pending'')"
  have "fst (snd ?h) \<noteq> None" by code_simp
  then obtain ivc where ivc: "fst (snd ?h) = Some ivc" by blast
  then have "?h = (fst ?h, Some ivc, snd (snd ?h))" by (metis prod.collapse)
  from device_gets_the_frozen_operation [OF this] obtain path r timeout where
    r: "record_path ''w'' ''appr_1'' = Inr path" "st_get (ap_operations (witness_state ''pending'')) path = Some r"
    and t: "py_int (py_or (dget r ''timeout'') (PInt 15)) = Inr timeout"
    and sent: "di_arguments ivc = [(''action'', dget r ''action''),
        (''connection_id'', PStr (gets (as_dict (dget (as_dict (dget r ''target'')) ''connection'')) ''connection_id'')),
        (''commands'', PList (py_iter (dget r ''commands''))), (''timeout'', PInt timeout)]"
      "di_workspace_id ivc = ''w''"
      "di_connection_id ivc = gets (as_dict (dget (as_dict (dget r ''target'')) ''connection'')) ''connection_id''" by auto
  have "record_path ''w'' ''appr_1'' = Inr (''w'', ''appr_1'')" by code_simp
  with r have "st_get (ap_operations (witness_state ''pending'')) (''w'', ''appr_1'') = Some r" by simp
  moreover have "map_option (\<lambda>r. (dget r ''action'', gets (as_dict (dget (as_dict (dget r ''target'')) ''connection'')) ''connection_id'',
        py_iter (dget r ''commands''), projr (py_int (py_or (dget r ''timeout'') (PInt 15)))))
      (st_get (ap_operations (witness_state ''pending'')) (''w'', ''appr_1'')) = Some (PStr ''configure'', ''c'', [PStr ''reload''], 15)" by code_simp
  ultimately show ?thesis using ivc t sent by auto
qed

subsection \<open>A late decision\<close>

lemma with_operation_run:
  assumes "record_path ws op_id = Inr path" and "st_get (ap_operations st) path = Some r" and "r \<noteq> []" and "body r = Inr (w, a)"
  shows "with_operation ws op_id body st =
    Inr (st\<lparr>ap_operations := case w of None \<Rightarrow> ap_operations st | Some r' \<Rightarrow> st_put path r' (ap_operations st)\<rparr>, a)"
  using assms by (simp add: with_operation_def with_record_def found_def)

lemma claimed_invocation_other:
  "k \<notin> {''tool_id'', ''action'', ''timeout'', ''target'', ''skill'', ''session_id'', ''run_id'', ''commands''} \<Longrightarrow>
     claimed_invocation ws (dset k v r) = claimed_invocation ws r"
proof -
  assume k: "k \<notin> {''tool_id'', ''action'', ''timeout'', ''target'', ''skill'', ''session_id'', ''run_id'', ''commands''}"
  have entry: "map_of (dset k v r) k' = map_of r k'" if "k' \<noteq> k" for k' using that by (simp add: dset_def update_conv')
  have val: "dget (dset k v r) k' = dget r k'" if "k' \<noteq> k" for k' using entry [OF that] by (simp add: dget_def)
  from k have ne: "''tool_id'' \<noteq> k" "''action'' \<noteq> k" "''timeout'' \<noteq> k" "''target'' \<noteq> k" "''skill'' \<noteq> k" "''session_id'' \<noteq> k"
      "''run_id'' \<noteq> k" "''commands'' \<noteq> k"
    by (simp_all only: insert_iff de_Morgan_disj not_False_eq_True eq_commute [of k] empty_iff simp_thms)
  note unchanged = entry [OF ne(1)] entry [OF ne(2)] val [OF ne(3)] val [OF ne(4)] val [OF ne(5)] val [OF ne(8)]
    gets_same [OF val [OF ne(6)]] gets_same [OF val [OF ne(7)]]
  show ?thesis unfolding claimed_invocation_def unchanged by (rule refl)
qed

lemma start_ready_operations:
  "start_ready_continuation now ws op_id st = Inr (st', a) \<Longrightarrow> ap_operations st' = ap_operations st"
  by (auto simp: start_ready_continuation_def dest: claim_ready_operations)

lemma continue_response_operations: "ap_operations (fst (continue_response now ws op_id st answer)) = ap_operations st"
  by (auto simp: continue_response_def dest: start_ready_operations split: sum.splits)

text \<open>An operation that is claimed is sent to the device and settled, whatever the device answers.\<close>

lemma execute_claimed_settles:
  assumes "record_path ws op_id = Inr path" and "st_get (ap_operations st) path = Some claimed"
    and "dget claimed ''status'' = PStr ''executing''" and "claimed_invocation ws claimed = Inr ivc"
  shows "fst (snd (execute_claimed invoke now ws op_id claimed st)) = Some ivc
    \<and> (\<exists>r'. st_get (ap_operations (fst (execute_claimed invoke now ws op_id claimed st))) path = Some r' \<and> gets r' ''status'' \<in> {''executed'', ''unknown''})"
proof -
  let ?result = "invocation_result (invoke ivc)"
  have "claimed \<noteq> []" using assms(3) by (auto simp: dget_def)
  obtain settled where run: "settle_execution_section now ?result claimed = Inr (Some settled, settled)"
      "gets settled ''status'' \<in> {''executed'', ''unknown''}"
    using assms(3) by (simp add: settle_execution_section_def Let_def pysimps)
  have settle: "settle_execution now ws op_id ?result st = Inr (st\<lparr>ap_operations := st_put path settled (ap_operations st)\<rparr>, settled)"
    using with_operation_run [where st = st and body = "settle_execution_section now ?result", OF assms(1,2) \<open>claimed \<noteq> []\<close> run(1)] by (simp add: settle_execution_def)
  show ?thesis
    using run(2) continue_response_operations
    by (simp add: execute_claimed_def assms(4) settle case_prod_beta)
qed

text \<open>C37: The endpoint branches on the status of the record and not on the decision of the request. Whenever a stored
  operation is approved and not yet claimed (an earlier request stored the approval and stopped before the
  claim), matches its digest and is still in scope, a request whose decision is reject or cancel sends it to
  the device and leaves the record executed or of unknown outcome.\<close>

theorem reject_request_can_execute:
  assumes "record_path ws op_id = Inr path" and "st_get (ap_operations st) path = Some r" and "dget r ''status'' = PStr ''approved''"
    and "gets r ''digest'' = operation_digest sha256 (frozen_projection r)" and "scope_valid net ws r"
    and "claimed_invocation ws r = Inr ivc" and "py_lower (py_strip (gets payload ''decision'')) \<in> {''reject'', ''cancel''}"
  shows "fst (snd (handle_decision net sha256 invoke now nonce ws op_id payload st)) = Some ivc
    \<and> (\<exists>r'. st_get (ap_operations (fst (handle_decision net sha256 invoke now nonce ws op_id payload st))) path = Some r'
         \<and> gets r' ''status'' \<in> {''executed'', ''unknown''})"
proof -
  have "r \<noteq> []" using assms(3) by (auto simp: dget_def)
  have ws: "ws \<noteq> []" using assms(1) by (auto simp: record_path_def validate_workspace_id_def WORKSPACE_ID_RE_def split: if_splits)
  have "gets r ''status'' \<noteq> ''pending''" using gets_eq_of_dget [OF assms(3)] by simp
  then have kept: "decide_section now d by_whom n r = Inr (None, r)" for d by_whom n by (simp add: decide_section_def)
  have decided: "decide_operation now ws op_id (gets payload ''decision'') by_whom n st = Inr (st, r)" for by_whom n
    using with_operation_run [where st = st and body = "decide_section now (py_lower (py_strip (gets payload ''decision''))) by_whom n",
      OF assms(1,2) \<open>r \<noteq> []\<close> kept] assms(7)
    by (auto simp: decide_operation_def Let_def rguard_def)
  define claimed where "claimed = dupdate r [(''status'', PStr ''executing''),
    (''execution'', PDict [(''started_at'', PStr now), (''execution_nonce'', PStr nonce)]), (''updated_at'', PStr now)]"
  define st2 where "st2 = st\<lparr>ap_operations := st_put path claimed (ap_operations st)\<rparr>"
  have "claim_section net sha256 now nonce ws r = Inr (Some claimed, claimed)"
    using assms(3-5) by (simp add: claim_section_def claimed_def Let_def)
  from with_operation_run [where st = st and body = "claim_section net sha256 now nonce ws", OF assms(1,2) \<open>r \<noteq> []\<close> this] have claim:
    "claim_execution net sha256 now nonce ws op_id st = Inr (st2, claimed)" by (simp add: claim_execution_def st2_def)
  have executing: "dget claimed ''status'' = PStr ''executing''" by (simp add: claimed_def pysimps)
  have "claimed_invocation ws claimed = Inr ivc" using assms(6) by (simp add: claimed_def claimed_invocation_other)
  from execute_claimed_settles [OF assms(1) _ executing this, of st2] show ?thesis
    by (simp add: handle_decision_def ws decided assms(3) claim executing st2_def)
qed

theorem reject_request_can_execute_witness:
  "let h = handle_decision witness_network (\<lambda>s. ''digest'') (\<lambda>_. Returned ''succeeded'' PNone []) ''t'' ''n'' ''w'' ''appr_1''
      [(''decision'', PStr ''reject'')] (witness_state ''approved'')
   in fst (snd h) \<noteq> None \<and> (\<exists>r. st_get (ap_operations (fst h)) (''w'', ''appr_1'') = Some r \<and> gets r ''status'' \<in> {''executed'', ''unknown''})"
proof -
  let ?r = "dset ''status'' (PStr ''approved'') (prepared_record (\<lambda>s. ''digest'') ''t'' ''appr_1'' witness_frozen)"
  have path: "record_path ''w'' ''appr_1'' = Inr (''w'', ''appr_1'')" by code_simp
  have r: "st_get (ap_operations (witness_state ''approved'')) (''w'', ''appr_1'') = Some ?r" by (simp add: witness_state_def st_get_def)
  have status: "dget ?r ''status'' = PStr ''approved''" by (simp add: pysimps)
  have digest: "gets ?r ''digest'' = operation_digest (\<lambda>s. ''digest'') (frozen_projection ?r)" by code_simp
  have scope: "scope_valid witness_network ''w'' ?r" by code_simp
  have "\<not> isl (claimed_invocation ''w'' ?r)" by code_simp
  then obtain ivc where ivc: "claimed_invocation ''w'' ?r = Inr ivc" by (auto simp: isl_def) (metis sum.exhaust)
  have "py_lower (py_strip (gets [(''decision'', PStr ''reject'')] ''decision'')) \<in> {''reject'', ''cancel''}" by code_simp
  from reject_request_can_execute [OF path r status digest scope ivc this] show ?thesis by (simp add: Let_def)
qed

section \<open>Resuming a paused turn\<close>

definition continuation_view :: "approval_state \<times> (string \<times> string) list \<Rightarrow> string \<times> string \<Rightarrow> string option" where
  "continuation_view s k = map_option (\<lambda>c. gets c ''status'') (st_get (ap_continuations (fst s)) k)"

definition resumption :: "string \<Rightarrow> string \<Rightarrow> bool" where
  "resumption s t \<longleftrightarrow> t \<in> {''resuming'', ''resumed''}"

lemma with_operation_continuations:
  "with_operation ws op_id body st = Inr (st', a) \<Longrightarrow> ap_continuations st' = ap_continuations st"
  by (auto simp: with_operation_def split: if_splits)

lemma prepare_continuations:
  "prepare_network_operation net sha256 now uuid request st = Inr (st', a) \<Longrightarrow> ap_continuations st' = ap_continuations st"
  by (auto simp: prepare_network_operation_def Let_def split: if_splits)

lemma attach_continuations:
  assumes "attach_continuation_checkpoint now uuid ws payload ids ctx st = Inr (st', a)"
    and "record_path ws (''apprchk_'' @ uuid) = Inr path"
  shows "ap_continuations st' = st_put path a (ap_continuations st)"
proof -
  let ?c = "''apprchk_'' @ uuid"
  from assms obtain ops where
    "rfold (attach_one now ws ?c) ops (st\<lparr>ap_continuations := st_put path a (ap_continuations st)\<rparr>) = Inr st'"
    by (auto simp: attach_continuation_checkpoint_def Let_def)
  then show ?thesis
    by (rule rfold_invariant [where P = "\<lambda>x. ap_continuations x = st_put path a (ap_continuations st)"])
      (auto simp: attach_one_def split: option.splits if_splits)
qed

lemmas with_record_resumption = with_record_status [where f = "\<lambda>c. gets c ''status''" and R = resumption]

lemma with_continuation_resumption:
  assumes "with_continuation ws chk body st = Inr (st', a)"
    and "\<And>c w a. body c = Inr (Some w, a) \<Longrightarrow> resumption (gets c ''status'') (gets w ''status'')"
    and "st_get (ap_continuations st) k = Some c"
  shows "\<exists>c'. st_get (ap_continuations st') k = Some c'
    \<and> (gets c' ''status'' = gets c ''status'' \<or> resumption (gets c ''status'') (gets c' ''status''))"
proof -
  from assms(1) consider "st' = st" | path cs where
      "with_record (KeyError chk) path body (ap_continuations st) = Inr (cs, a)" "st' = st\<lparr>ap_continuations := cs\<rparr>"
    by (auto simp: with_continuation_def split: if_splits)
  then show ?thesis
  proof cases
    case 1
    with assms(3) show ?thesis by simp
  next
    case 2
    from with_record_resumption [OF 2(1) assms(2,3)] show ?thesis by (simp add: 2(2))
  qed
qed

lemma claim_ready_section_written:
  assumes "claim_ready_section now ws st c = Inr (w, Some a)"
  shows "w = Some a \<and> gets a ''status'' = ''resuming'' \<and> dget c ''status'' = PStr ''waiting_decisions''
    \<and> dget a ''operation_ids'' = dget c ''operation_ids'' \<and> py_iter (dget c ''operation_ids'') \<noteq> []
    \<and> (\<forall>v \<in> set (py_iter (dget c ''operation_ids'')). \<exists>r. get_operation ws (py_str v) st = Inr (Some r)
         \<and> gets r ''status'' \<in> set terminal_statuses)"
proof -
  let ?ids = "py_iter (dget c ''operation_ids'')"
  from assms obtain ops where ops: "rmapM (\<lambda>v. get_operation ws (py_str v) st) ?ids = Inr ops"
    and st: "dget c ''status'' = PStr ''waiting_decisions''" and ne: "map found ops \<noteq> []"
    and full: "\<not> list_ex (\<lambda>item. item = []) (map found ops)"
    and trm: "\<not> list_ex (\<lambda>item. gets item ''status'' \<notin> set terminal_statuses) (map found ops)"
    and w: "w = Some a" "a = dupdate c [(''status'', PStr ''resuming''), (''updated_at'', PStr now), (''operations'', PList (map PDict (map found ops)))]"
    by (auto simp: claim_ready_section_def Let_def split: if_splits)
  have "\<exists>r. get_operation ws (py_str v) st = Inr (Some r) \<and> gets r ''status'' \<in> set terminal_statuses" if v: "v \<in> set ?ids" for v
  proof -
    from rmapM_image [OF ops v] obtain x where x: "get_operation ws (py_str v) st = Inr x" "x \<in> set ops" by blast
    with full have "found x \<noteq> []" by (force simp: list_ex_iff)
    then obtain r where "x = Some r" by (cases x) (auto simp: found_def)
    with x trm show ?thesis by (force simp: list_ex_iff found_def)
  qed
  moreover have "?ids \<noteq> []" using ops ne by auto
  ultimately show ?thesis using w st by (simp add: pysimps)
qed

lemma claim_ready_section_resumption:
  assumes "claim_ready_section now ws st c = Inr (Some w, a)"
  shows "resumption (gets c ''status'') (gets w ''status'')"
proof -
  from assms have "a = Some w"
    by (auto simp: claim_ready_section_def Let_def split: if_splits)
  with assms claim_ready_section_written show ?thesis by (fastforce simp: resumption_def)
qed

lemma approval_step_resumption:
  assumes "st_get (ap_continuations st) k = Some c"
  shows "\<exists>c'. st_get (ap_continuations (fst (approval_step net sha256 op (st, log)))) k = Some c'
    \<and> (gets c' ''status'' = gets c ''status'' \<or> resumption (gets c ''status'') (gets c' ''status''))"
proof (cases op)
  case (Prepare now uuid request)
  have "ap_continuations (fst (approval_step net sha256 op (st, log))) = ap_continuations st"
    using prepare_continuations [of net sha256 now uuid request st]
    by (auto simp: Prepare split: sum.splits option.splits)
  with assms show ?thesis by simp
next
  case (Decide now ws op_id decision by_whom n)
  have "ap_continuations (fst (approval_step net sha256 op (st, log))) = ap_continuations st"
    using with_operation_continuations [of ws op_id _ st]
    by (auto simp: Decide decide_operation_def Let_def split: sum.splits)
  with assms show ?thesis by simp
next
  case (Claim now nonce ws op_id)
  have "ap_continuations (fst (approval_step net sha256 op (st, log))) = ap_continuations st"
    using with_operation_continuations [of ws op_id _ st]
    by (auto simp: Claim claim_execution_def split: sum.splits)
  with assms show ?thesis by simp
next
  case (SettleExecution now ws op_id result)
  have "ap_continuations (fst (approval_step net sha256 op (st, log))) = ap_continuations st"
    using with_operation_continuations [of ws op_id _ st]
    by (auto simp: SettleExecution settle_execution_def split: sum.splits)
  with assms show ?thesis by simp
next
  case (Attach now uuid ws payload ids ctx)
  show ?thesis
    using assms attach_continuations [of now uuid ws payload ids ctx st]
    by (auto simp: Attach split: sum.splits)
next
  case (ClaimReady now ws op_id)
  show ?thesis
  proof (cases "claim_ready_continuation now ws op_id st")
    case (Inr p)
    then consider "fst p = st" | chk where "with_continuation ws chk (claim_ready_section now ws st) st = Inr (fst p, snd p)"
      by (auto simp: claim_ready_continuation_def Let_def split: if_splits)
    then show ?thesis
    proof cases
      case 1
      with assms Inr show ?thesis by (simp add: ClaimReady case_prod_beta)
    next
      case 2
      then have "\<exists>c'. st_get (ap_continuations (fst p)) k = Some c' \<and> (gets c' ''status'' = gets c ''status'' \<or> resumption (gets c ''status'') (gets c' ''status''))"
        by (rule with_continuation_resumption [OF _ _ assms]) (erule claim_ready_section_resumption)
      with Inr show ?thesis by (simp add: ClaimReady case_prod_beta)
    qed
  qed (use assms in \<open>simp add: ClaimReady\<close>)
next
  case (SettleContinuation now ws chk result)
  show ?thesis
  proof (cases "settle_continuation now ws chk result st")
    case (Inr p)
    then have "with_continuation ws chk (settle_continuation_section now result) st = Inr (fst p, snd p)"
      by (simp add: settle_continuation_def)
    then have "\<exists>c'. st_get (ap_continuations (fst p)) k = Some c' \<and> (gets c' ''status'' = gets c ''status'' \<or> resumption (gets c ''status'') (gets c' ''status''))"
      by (rule with_continuation_resumption [OF _ _ assms]) (auto simp: settle_continuation_section_def resumption_def pysimps)
    with Inr show ?thesis by (simp add: SettleContinuation case_prod_beta)
  qed (use assms in \<open>simp add: SettleContinuation\<close>)
qed

interpretation continuations: status_machine continuation_view "approval_step net sha256" resumption for net sha256
proof
  fix st i s op
  assume "continuation_view st i = Some s"
  then obtain c where c: "st_get (ap_continuations (fst st)) i = Some c" "s = gets c ''status''"
    by (auto simp: continuation_view_def)
  from approval_step_resumption [OF c(1), of net sha256 op "snd st"] c(2)
  show "\<exists>s'. continuation_view (approval_step net sha256 op st) i = Some s' \<and> (s' = s \<or> resumption s s')"
    by (auto simp: continuation_view_def)
qed

text \<open>A paused turn is resumed only with a complete set of outcomes and at most once: a successful claim
  of a checkpoint means that every operation it waits for exists and has reached a terminal status,
  and along every later history the checkpoint is never waiting again, so no later claim of it
  succeeds.\<close>

theorem continuation_resumes_once:
  assumes "with_continuation ws chk (claim_ready_section now ws st) st = Inr (st1, Some c)"
  shows "\<exists>path. record_path ws chk = Inr path
    \<and> py_iter (dget c ''operation_ids'') \<noteq> []
    \<and> (\<forall>v \<in> set (py_iter (dget c ''operation_ids'')). \<exists>r. get_operation ws (py_str v) st = Inr (Some r)
         \<and> gets r ''status'' \<in> set terminal_statuses)
    \<and> (\<exists>c'. st_get (ap_continuations (fst (fold (approval_step net sha256) ops (st1, log)))) path = Some c'
         \<and> gets c' ''status'' \<in> {''resuming'', ''resumed''}
         \<and> claim_ready_section now' ws st' c' = Inr (None, None))"
proof -
  from assms obtain path cs where path: "record_path ws chk = Inr path"
    and wr: "with_record (KeyError chk) path (claim_ready_section now ws st) (ap_continuations st) = Inr (cs, Some c)"
    and st1: "st1 = st\<lparr>ap_continuations := cs\<rparr>"
    by (auto simp: with_continuation_def split: if_splits)
  from wr obtain c0 w where sec: "claim_ready_section now ws st c0 = Inr (w, Some c)"
    and cs: "cs = (case w of None \<Rightarrow> ap_continuations st | Some r' \<Rightarrow> st_put path r' (ap_continuations st))"
    by (rule with_record_Inr)
  note facts = claim_ready_section_written [OF sec]
  have "continuation_view (st1, log) path = Some ''resuming''"
    using facts by (simp add: continuation_view_def st1 cs)
  from continuations.run_follows_transitions [OF this, of net sha256 ops] obtain s' where
    s': "continuation_view (fold (approval_step net sha256) ops (st1, log)) path = Some s'" "resumption\<^sup>*\<^sup>* ''resuming'' s'" by blast
  from s'(2) have "s' \<in> {''resuming'', ''resumed''}"
    by (cases rule: rtranclp.cases) (auto simp: resumption_def)
  with s'(1) obtain c' where c': "st_get (ap_continuations (fst (fold (approval_step net sha256) ops (st1, log)))) path = Some c'"
    "gets c' ''status'' \<in> {''resuming'', ''resumed''}" by (auto simp: continuation_view_def)
  then have "dget c' ''status'' \<noteq> PStr ''waiting_decisions''" by (auto dest: gets_eq_of_dget)
  then have "claim_ready_section now' ws st' c' = Inr (None, None)" by (simp add: claim_ready_section_def)
  with c' path facts show ?thesis by auto
qed

theorem continuation_resumes_once_witness:
  "\<exists>st1 c. with_continuation ''w'' ''k'' (claim_ready_section ''t'' ''w''
      \<lparr>ap_operations = [((''w'', ''o''), [(''status'', PStr ''rejected'')])],
       ap_continuations = [((''w'', ''k''), [(''status'', PStr ''waiting_decisions''), (''operation_ids'', PList [PStr ''o''])])]\<rparr>)
      \<lparr>ap_operations = [((''w'', ''o''), [(''status'', PStr ''rejected'')])],
       ap_continuations = [((''w'', ''k''), [(''status'', PStr ''waiting_decisions''), (''operation_ids'', PList [PStr ''o''])])]\<rparr>
      = Inr (st1, Some c)
    \<and> (\<exists>path. record_path ''w'' ''k'' = Inr path \<and> st_get (ap_continuations st1) path \<noteq> None)"
proof -
  let ?st = "\<lparr>ap_operations = [((''w'', ''o''), [(''status'', PStr ''rejected'')])],
       ap_continuations = [((''w'', ''k''), [(''status'', PStr ''waiting_decisions''), (''operation_ids'', PList [PStr ''o''])])]\<rparr> :: approval_state"
  let ?r = "with_continuation ''w'' ''k'' (claim_ready_section ''t'' ''w'' ?st) ?st"
  have "\<not> isl ?r" "snd (projr ?r) \<noteq> None" by code_simp+
  then obtain st1 c where r: "?r = Inr (st1, Some c)" by (metis not_None_eq prod.collapse sum.collapse(2))
  from continuation_resumes_once [OF r, of witness_network "\<lambda>s. s" "[]" "[]" "''t''" st1] r show ?thesis by auto
qed

section \<open>Locks and records\<close>

text \<open>The lock of an operation is named after the id as it was sent, the record after its segment.
  Two spellings of one operation use the same record under different locks, so the sections of that
  record are not serialised against each other (\<open>alias_spelling_claims_twice\<close> is the consequence).\<close>

theorem lock_does_not_cover_aliases:
  "\<exists>op_id other_id. record_path ''w'' op_id = record_path ''w'' other_id \<and> \<not> isl (record_path ''w'' op_id)
     \<and> segment op_id = Inr op_id \<and> lock_name ''w'' op_id \<noteq> lock_name ''w'' other_id"
proof -
  have "record_path ''w'' ''appr_1'' = record_path ''w'' ''appr_1!''" "\<not> isl (record_path ''w'' ''appr_1'')"
    "segment ''appr_1'' = Inr ''appr_1''" "lock_name ''w'' ''appr_1'' \<noteq> lock_name ''w'' ''appr_1!''" by code_simp+
  then show ?thesis by (intro exI [of _ "''appr_1''"] exI [of _ "''appr_1!''"]) simp
qed

end
