(* ===== verification/Py_Regex.thy ===== *)
theory Py_Regex
  imports Py_Base
begin

text \<open>
  The fragment of Python's \<open>re\<close> that the redaction code uses, as a backtracking matcher. A position is
  the character before it (for \<open>\b\<close> and look-behind) and the rest of the text; \<open>re_match\<close> lists the
  positions where a match can end, in the order in which the engine tries them, so that the head of
  the list is the match that \<open>re\<close> returns. Character classes are those of ASCII text.
\<close>

datatype re =
    RCh "char \<Rightarrow> bool"
  | REps
  | RSeq re re
  | RAlt re re
  | RStar bool re
  | RBound
  | RNotBehind "char \<Rightarrow> bool"

type_synonym re_pos = "char option \<times> string"

definition is_word :: "char \<Rightarrow> bool" where
  "is_word c \<longleftrightarrow> is_alnum c \<or> c = CHR ''_''"

definition at_bound :: "re_pos \<Rightarrow> bool" where
  "at_bound p =
     ((case fst p of None \<Rightarrow> False | Some c \<Rightarrow> is_word c) \<noteq> (case snd p of [] \<Rightarrow> False | c # _ \<Rightarrow> is_word c))"

text \<open>The flag of a repetition says whether it is greedy. A repetition does not iterate on an empty
  match.\<close>

function re_match :: "re \<Rightarrow> re_pos \<Rightarrow> re_pos list" where
  "re_match (RCh P) p = (case snd p of [] \<Rightarrow> [] | c # s \<Rightarrow> if P c then [(Some c, s)] else [])"
| "re_match REps p = [p]"
| "re_match (RSeq a b) p = concat (map (re_match b) (re_match a p))"
| "re_match (RAlt a b) p = re_match a p @ re_match b p"
| "re_match (RStar greedy a) p =
     (let next = filter (\<lambda>q. length (snd q) < length (snd p)) (re_match a p);
          more = concat (map (re_match (RStar greedy a)) next)
      in if greedy then more @ [p] else p # more)"
| "re_match RBound p = (if at_bound p then [p] else [])"
| "re_match (RNotBehind P) p =
     (if case fst p of None \<Rightarrow> False | Some c \<Rightarrow> P c then [] else [p])"
  by pat_completeness auto
termination
  by (relation "measures [\<lambda>(r, p). size r, \<lambda>(r, p). length (snd p)]") auto

section \<open>Building patterns\<close>

text \<open>Literals (case-sensitive, and under \<open>re.IGNORECASE\<close>), \<open>a+\<close>, \<open>a?\<close> and \<open>a{n,}\<close>.\<close>

definition RLit :: "string \<Rightarrow> re" where
  "RLit s = foldr (\<lambda>c r. RSeq (RCh (\<lambda>d. d = c)) r) s REps"

definition RLitI :: "string \<Rightarrow> re" where
  "RLitI s = foldr (\<lambda>c r. RSeq (RCh (\<lambda>d. char_lower d = char_lower c)) r) s REps"

definition RPlus :: "re \<Rightarrow> re" where
  "RPlus a = RSeq a (RStar True a)"

definition ROpt :: "re \<Rightarrow> re" where
  "ROpt a = RAlt a REps"

fun RAtLeast :: "nat \<Rightarrow> re \<Rightarrow> re" where
  "RAtLeast 0 a = RStar True a"
| "RAtLeast (Suc n) a = RSeq a (RAtLeast n a)"

definition RAlts :: "re list \<Rightarrow> re" where
  "RAlts rs = foldr RAlt (butlast rs) (last rs)"

definition RSeqs :: "re list \<Rightarrow> re" where
  "RSeqs rs = foldr RSeq rs REps"

text \<open>The classes \<open>\s\<close> and \<open>\S\<close>.\<close>

abbreviation RSpace :: re where
  "RSpace \<equiv> RCh is_space"

abbreviation RNonSpace :: re where
  "RNonSpace \<equiv> RCh (\<lambda>c. \<not> is_space c)"

section \<open>Substitution\<close>

text \<open>\<open>re.sub\<close> for a pattern \<open>(g)r\<close>: \<open>g\<close> is the first group, and the replacement is a function of its
  text. A match is never empty for the patterns in use; an empty one would be skipped.\<close>

definition re_find :: "re \<Rightarrow> re \<Rightarrow> re_pos \<Rightarrow> (re_pos \<times> re_pos) option" where
  "re_find g r p =
     (case concat (map (\<lambda>q. map (Pair q) (re_match r q)) (re_match g p)) of
        [] \<Rightarrow> None
      | x # _ \<Rightarrow> Some x)"

function re_sub :: "re \<Rightarrow> re \<Rightarrow> (string \<Rightarrow> string) \<Rightarrow> re_pos \<Rightarrow> string" where
  "re_sub g r repl p =
     (case snd p of
        [] \<Rightarrow> []
      | c # s \<Rightarrow>
          (case re_find g r p of
             Some (q, e) \<Rightarrow>
               if length (snd e) < length (snd p)
               then repl (take (length (snd p) - length (snd q)) (snd p)) @ re_sub g r repl e
               else c # re_sub g r repl (Some c, s)
           | None \<Rightarrow> c # re_sub g r repl (Some c, s)))"
  by pat_completeness auto
termination
  by (relation "measure (\<lambda>(g, r, repl, p). length (snd p))") auto

declare re_sub.simps [simp del]

definition re_sub_all :: "re \<Rightarrow> string \<Rightarrow> string \<Rightarrow> string" where
  "re_sub_all r repl s = re_sub REps r (\<lambda>_. repl) (None, s)"

definition re_sub_group :: "re \<Rightarrow> re \<Rightarrow> (string \<Rightarrow> string) \<Rightarrow> string \<Rightarrow> string" where
  "re_sub_group g r repl s = re_sub g r repl (None, s)"

text \<open>A text in which the pattern matches nowhere is left as it is.\<close>

fun no_match :: "re \<Rightarrow> re \<Rightarrow> char option \<Rightarrow> string \<Rightarrow> bool" where
  "no_match g r prev [] = True"
| "no_match g r prev (c # s) = (re_find g r (prev, c # s) = None \<and> no_match g r (Some c) s)"

lemma re_sub_no_match: "no_match g r prev s \<Longrightarrow> re_sub g r repl (prev, s) = s"
  by (induction s arbitrary: prev) (subst re_sub.simps, simp)+

section \<open>Patterns that cannot match\<close>

declare re_match.simps(5) [simp del]

lemma set_re_match_RStar:
  "q \<in> set (re_match (RStar greedy a) p) \<Longrightarrow>
   q = p \<or> (\<exists>q' \<in> set (re_match a p). length (snd q') < length (snd p) \<and> q \<in> set (re_match (RStar greedy a) q'))"
  by (subst (asm) re_match.simps(5)) (fastforce simp: Let_def split: if_splits)

lemma re_match_suffix: "q \<in> set (re_match r p) \<Longrightarrow> suffix (snd q) (snd p)"
proof (induction r p arbitrary: q rule: re_match.induct)
  case (1 P p)
  then show ?case by (cases "snd p") (auto split: if_splits intro: suffix_ConsI)
next
  case (3 a b p)
  then obtain q' where "q' \<in> set (re_match a p)" "q \<in> set (re_match b q')" by auto
  with 3 show ?case using suffix_order.trans by blast
next
  case (5 greedy a p)
  from set_re_match_RStar [OF 5(3)] show ?case
  proof (elim disjE bexE conjE)
    fix q' assume q': "q' \<in> set (re_match a p)" "length (snd q') < length (snd p)" "q \<in> set (re_match (RStar greedy a) q')"
    have "suffix (snd q) (snd q')" by (rule 5(2) [OF refl _ q'(3)]) (use q' in simp)
    with 5(1) [OF q'(1)] show ?thesis by (rule suffix_order.trans [rotated])
  qed simp
qed (auto split: if_splits)

text \<open>A pattern that matches nothing at a text all of whose characters satisfy \<open>A\<close>.\<close>

definition blocked :: "(char \<Rightarrow> bool) \<Rightarrow> re \<Rightarrow> bool" where
  "blocked A r \<longleftrightarrow> (\<forall>p. list_all A (snd p) \<longrightarrow> re_match r p = [])"

lemma blocked_RCh [intro]: "(\<And>c. A c \<Longrightarrow> \<not> P c) \<Longrightarrow> blocked A (RCh P)"
  by (auto simp: blocked_def split: list.splits)

lemma blocked_RSeq1: "blocked A a \<Longrightarrow> blocked A (RSeq a b)"
  by (simp add: blocked_def)

lemma blocked_RSeq2: "blocked A b \<Longrightarrow> blocked A (RSeq a b)"
proof -
  assume "blocked A b"
  have "re_match b q = []" if "list_all A (snd p)" "q \<in> set (re_match a p)" for p q
    using that(1) re_match_suffix [OF that(2)] \<open>blocked A b\<close> [unfolded blocked_def, rule_format, of q]
    by (auto simp: suffix_def)
  then show ?thesis by (auto simp: blocked_def)
qed

lemma blocked_RPlus: "blocked A a \<Longrightarrow> blocked A (RPlus a)"
  by (simp add: RPlus_def blocked_RSeq1)

lemma blocked_RSeqs: "r \<in> set rs \<Longrightarrow> blocked A r \<Longrightarrow> blocked A (RSeqs rs)"
  by (induction rs) (auto simp: RSeqs_def intro: blocked_RSeq1 blocked_RSeq2)

lemma blocked_RLit: "c \<in> set s \<Longrightarrow> \<not> A c \<Longrightarrow> blocked A (RLit s)"
  by (induction s) (auto simp: RLit_def intro!: blocked_RCh intro: blocked_RSeq1 blocked_RSeq2)

lemma blocked_RLitI: "c \<in> set s \<Longrightarrow> (\<And>d. A d \<Longrightarrow> char_lower d \<noteq> char_lower c) \<Longrightarrow> blocked A (RLitI s)"
  by (induction s) (auto simp: RLitI_def intro!: blocked_RCh intro: blocked_RSeq1 blocked_RSeq2)

text \<open>A pattern whose matches have at least \<open>n\<close> characters.\<close>

definition consumes :: "nat \<Rightarrow> re \<Rightarrow> bool" where
  "consumes n r \<longleftrightarrow> (\<forall>p. \<forall>q \<in> set (re_match r p). length (snd q) + n \<le> length (snd p))"

lemma consumes_RCh: "consumes 1 (RCh P)"
  by (auto simp: consumes_def split: list.splits if_splits)

lemma consumes_0: "consumes 0 r"
  using re_match_suffix suffix_length_le by (fastforce simp: consumes_def)

lemma consumes_RSeq: "consumes m a \<Longrightarrow> consumes n b \<Longrightarrow> consumes (m + n) (RSeq a b)"
  by (fastforce simp: consumes_def)

lemma consumes_RLitI: "consumes (length s) (RLitI s)"
proof (induction s)
  case (Cons c s)
  then show ?case using consumes_RSeq [OF consumes_RCh Cons] by (simp add: RLitI_def)
qed (simp add: consumes_0)

lemma consumes_RAtLeast: "consumes n (RAtLeast n (RCh P))"
proof (induction n)
  case (Suc n)
  then show ?case using consumes_RSeq [OF consumes_RCh Suc] by simp
qed (simp add: consumes_0)

lemma re_sub_all_blocked: "blocked A r \<Longrightarrow> list_all A s \<Longrightarrow> re_sub_all r repl s = s"
proof -
  assume r: "blocked A r"
  have "no_match REps r prev s" if "list_all A s" for prev
    using that r by (induction s arbitrary: prev) (auto simp: re_find_def blocked_def)
  then show "list_all A s \<Longrightarrow> re_sub_all r repl s = s" by (simp add: re_sub_all_def re_sub_no_match)
qed

lemma re_sub_all_short: "consumes n r \<Longrightarrow> length s < n \<Longrightarrow> re_sub_all r repl s = s"
proof -
  assume r: "consumes n r"
  have "re_match r (prev, t) = []" if "length t < n" for prev t
    using r [unfolded consumes_def, rule_format, of "hd (re_match r (prev, t))" "(prev, t)"] that
    by (cases "re_match r (prev, t)") auto
  then have "no_match REps r prev s" if "length s < n" for prev
    using that by (induction s arbitrary: prev) (auto simp: re_find_def)
  then show "length s < n \<Longrightarrow> re_sub_all r repl s = s" by (simp add: re_sub_all_def re_sub_no_match)
qed

end
