(* ===== verification/Redaction.thy ===== *)
theory Redaction
  imports Py_Regex
begin

text \<open>
  Redaction before persistence: \<open>storage/redaction.py\<close> (texts, field names, nested values) and
  \<open>jobs/redaction.py\<close> (job records, events and logs). The regular expressions are those of the
  source, in the notation of the matcher; under \<open>re.IGNORECASE\<close> a literal is \<open>RLitI\<close>. \<open>len\<close> and
  repetition counts are in bytes.
\<close>

section \<open>storage/redaction.py\<close>

definition MASK :: string where
  "MASK = ''[REDACTED_SECRET]''"

definition PATH_MASK :: string where
  "PATH_MASK = ''[REDACTED_PATH]''"

text \<open>\<open>\s*(?:=|:|\s)\s*\S+\<close>, the tail of the first four keyword patterns.\<close>

definition assignment_tail :: re where
  "assignment_tail = RSeqs [RBound, RStar True RSpace, RCh (\<lambda>c. c = CHR ''='' \<or> c = CHR '':'' \<or> is_space c),
     RStar True RSpace, RPlus RNonSpace]"

definition not_behind_word :: re where
  "not_behind_word = RNotBehind (\<lambda>c. c = CHR ''-'' \<or> is_word c)"

definition any_but_newline :: re where
  "any_but_newline = RCh (\<lambda>c. c \<noteq> CHR 0x0A)"

definition eq_or_colon :: re where
  "eq_or_colon = RCh (\<lambda>c. c = CHR ''='' \<or> c = CHR '':'')"

text \<open>The keyword patterns as pairs of the first group and the rest.\<close>

definition KEYWORD_PATTERNS :: "(re \<times> re) list" where
  "KEYWORD_PATTERNS =
     [(RSeq not_behind_word (RLitI ''password''), assignment_tail),
      (RSeq not_behind_word (RLitI ''secret''), assignment_tail),
      (RSeq not_behind_word (RLitI ''community''), assignment_tail),
      (RSeq not_behind_word (RLitI ''key''), assignment_tail),
      (RLitI ''pre-shared-key'', RSeqs [RPlus RSpace, RPlus RNonSpace]),
      (RSeqs [RLitI ''tacacs'', RStar True any_but_newline, RLitI ''key''], RSeqs [RPlus RSpace, RPlus RNonSpace]),
      (RSeqs [RLitI ''radius'', RStar True any_but_newline, RLitI ''key''], RSeqs [RPlus RSpace, RPlus RNonSpace]),
      (RSeqs [RLitI ''api'', ROpt (RCh (\<lambda>c. c = CHR ''_'' \<or> c = CHR ''-'')), RLitI ''key'', eq_or_colon, RStar True RSpace], RPlus RNonSpace),
      (RSeqs [RLitI ''authorization'', RStar True RSpace, RLitI '':'', RStar True RSpace,
              ROpt (RSeq (RLitI ''bearer'') (RPlus RSpace))], RPlus RNonSpace),
      (RSeqs [RLitI ''token'', eq_or_colon, RStar True RSpace], RPlus RNonSpace),
      (RSeqs [RLitI ''OPENAI_API_KEY'', eq_or_colon, RStar True RSpace], RPlus RNonSpace),
      (RSeqs [RLitI ''DEEPSEEK_API_KEY'', eq_or_colon, RStar True RSpace], RPlus RNonSpace),
      (RSeqs [RLitI ''MINIMAX_API_KEY'', eq_or_colon, RStar True RSpace], RPlus RNonSpace),
      (RLitI ''ipsec'', RSeqs [RPlus RSpace, RPlus RNonSpace, RPlus RSpace, RPlus RNonSpace])]"

definition FULL_MASK_PATTERNS :: "re list" where
  "FULL_MASK_PATTERNS =
     [RSeqs [RNotBehind is_word, RLitI ''sk-'', RAtLeast 8 (RCh is_idchar)],
      RSeqs [RLitI ''private'', ROpt (RCh (\<lambda>c. c = CHR ''_'' \<or> c = CHR ''-'')), RLitI ''key'']]"

text \<open>\<open>[^\s"'`<>),;]\<close>.\<close>

definition path_char :: "char \<Rightarrow> bool" where
  "path_char c \<longleftrightarrow> \<not> is_space c \<and>
     c \<notin> {CHR 0x22, CHR 0x27, CHR 0x60, CHR ''<'', CHR ''>'', CHR '')'', CHR '','', CHR '';''}"

definition ABSOLUTE_PATH_PATTERNS :: "re list" where
  "ABSOLUTE_PATH_PATTERNS =
     [RSeqs [RLit ''/'',
        RAlts (map RLit [''Users'', ''home'', ''root'', ''tmp'', ''etc'', ''var'', ''opt'', ''usr'']),
        RLit ''/'', RPlus (RCh path_char)],
      RSeqs [RCh is_alpha, RLit '':'', RAlt (RLit [CHR 0x5C, CHR 0x5C]) (RLit [CHR 0x5C]), RPlus (RCh path_char)]]"

definition redact_text :: "string \<Rightarrow> string" where
  "redact_text text0 =
     (let text1 = fold (\<lambda>r. re_sub_all r PATH_MASK) ABSOLUTE_PATH_PATTERNS text0;
          text2 = fold (\<lambda>(g, r). re_sub_group g r (\<lambda>g1. g1 @ '' '' @ MASK)) KEYWORD_PATTERNS text1
      in fold (\<lambda>r. re_sub_all r MASK) FULL_MASK_PATTERNS text2)"

definition SENSITIVE_FIELD_NAMES :: "string list" where
  "SENSITIVE_FIELD_NAMES =
     [''password'', ''passwd'', ''passphrase'', ''secret'', ''api_secret'', ''client_secret'', ''key'', ''api_key'',
      ''apikey'', ''token'', ''access_token'', ''refresh_token'', ''id_token'', ''auth_token'', ''community'',
      ''authorization'', ''auth_header'', ''credential'', ''private_key'']"

definition is_sensitive_field :: "string \<Rightarrow> bool" where
  "is_sensitive_field key =
     (let normalized = py_replace ''-'' ''_'' (py_lower (py_strip key)) in
      if normalized = [] \<or> normalized \<in> {''memory_key'', ''authority'', ''authority_rank''} then False
      else if list_ex (py_endswith normalized) [''_ref'', ''_reference'', ''_id''] then False
      else normalized \<in> set SENSITIVE_FIELD_NAMES
           \<or> list_ex (\<lambda>name. py_endswith normalized (CHR ''_'' # name)) SENSITIVE_FIELD_NAMES)"

definition normalized_key :: "string \<Rightarrow> string" where
  "normalized_key k = py_replace ''-'' ''_'' (py_lower k)"

fun redact_value :: "pyval \<Rightarrow> pyval" where
  "redact_value (PDict d) =
     PDict (map (\<lambda>(k, v). (k, if is_sensitive_field (normalized_key k) then PStr MASK else redact_value v)) d)"
| "redact_value (PList xs) = PList (map redact_value xs)"
| "redact_value (PStr s) = PStr (redact_text s)"
| "redact_value v = v"

definition redact_dict :: "pydict \<Rightarrow> pydict" where
  "redact_dict d = as_dict (redact_value (PDict d))"

section \<open>jobs/redaction.py\<close>

definition SENSITIVE_KEYS :: "string list" where
  "SENSITIVE_KEYS =
     [''raw_payload'', ''raw_content'', ''config'', ''secret'', ''credential'', ''content'', ''file_content'',
      ''report_content'', ''prompt'', ''full_prompt'', ''api_key'', ''key'', ''token'', ''password'', ''passwd'',
      ''community'', ''authorization'', ''private_key'', ''MINIMAX_API_KEY'', ''OPENAI_API_KEY'', ''DEEPSEEK_API_KEY'']"

definition SECRET_KEYS :: "string list" where
  "SECRET_KEYS =
     [''api_key'', ''key'', ''token'', ''password'', ''passwd'', ''secret'', ''community'', ''authorization'',
      ''private_key'', ''MINIMAX_API_KEY'', ''OPENAI_API_KEY'', ''DEEPSEEK_API_KEY'']"

definition CONTENT_KEYS :: "string list" where
  "CONTENT_KEYS = [''content'', ''file_content'', ''report_content'']"

definition PROMPT_KEYS :: "string list" where
  "PROMPT_KEYS = [''prompt'', ''full_prompt'']"

definition SECRET_PATTERNS :: "re list" where
  "SECRET_PATTERNS =
     [RSeqs [RLitI ''sk-'', RAtLeast 16 (RCh is_alnum)],
      RSeqs [RLitI ''eyJ'', RAtLeast 20 (RCh (\<lambda>c. is_alnum c \<or> c \<in> {CHR ''+'', CHR ''/'', CHR ''=''}))],
      RSeqs [RAlts (map RLitI [''password'', ''passwd'', ''community'', ''secret'', ''key'']), RPlus RSpace, RPlus RNonSpace],
      RSeqs [RLitI ''token'', eq_or_colon, RStar True RSpace, RAtLeast 8 RNonSpace],
      RSeqs [RLitI ''api'', ROpt (RCh (\<lambda>c. c = CHR ''_'' \<or> c = CHR ''-'')), RLitI ''key'', eq_or_colon, RStar True RSpace, RAtLeast 8 RNonSpace],
      RSeqs [RLitI ''bearer'', RPlus RSpace, RAtLeast 8 RNonSpace],
      RSeqs [RLitI ''authorization'', RPlus RSpace, RAtLeast 8 RNonSpace],
      RSeqs [RLitI ''hostname'', RPlus RSpace, RPlus RNonSpace, RStar False (RCh (\<lambda>_. True)), RLitI ''interface'', RPlus RSpace,
             RPlus RNonSpace, RStar False (RCh (\<lambda>_. True)), RLitI ''ip'', RPlus RSpace, RLitI ''address''],
      RSeqs [RLitI ''snmp-server'', RPlus RSpace, RLitI ''community'', RPlus RSpace, RPlus RNonSpace]]"

text \<open>\<open>ABSOLUTE_PATH_PATTERN.match\<close>: the first line is a sequence of path segments.\<close>

definition is_absolute_path :: "string \<Rightarrow> bool" where
  "is_absolute_path s =
     list_ex (\<lambda>e. snd e = [] \<or> hd (snd e) = CHR 0x0A)
       (re_match (RPlus (RSeq (RLit ''/'') (RPlus (RCh (\<lambda>c. is_alnum c \<or> c \<in> {CHR ''.'', CHR ''_'', CHR ''-''}))))) (None, s))"

definition clean_text :: "string \<Rightarrow> string" where
  "clean_text s =
     (let cleaned = fold (\<lambda>r. re_sub_all r ''[REDACTED_SECRET]'') SECRET_PATTERNS s
      in if is_absolute_path cleaned \<and> 5 < length cleaned then ''[REDACTED_PATH]'' else cleaned)"

definition content_ref :: "pyval \<Rightarrow> pyval" where
  "content_ref val =
     (case val of
        PStr s \<Rightarrow> PDict
          [(''type'', PStr ''config_ref''),
           (''line_count'', PInt (int (if s = [] then 0 else length (py_split (CHR 0x0A) (py_strip s))))),
           (''summary'', PStr ''Sensitive content stored as a reference.''),
           (''sensitivity'', PStr ''sensitive'')]
      | _ \<Rightarrow> PStr ''[REDACTED_CONFIG]'')"

definition job_sensitive_key :: "string \<Rightarrow> bool" where
  "job_sensitive_key k \<longleftrightarrow> normalized_key k \<in> set SENSITIVE_KEYS \<or> is_sensitive_field (normalized_key k)"

definition job_path_key :: "string \<Rightarrow> bool" where
  "job_path_key k \<longleftrightarrow> py_endswith (normalized_key k) ''_path'' \<or> normalized_key k \<in> {''path'', ''absolute_path''}"

fun deep_sanitize :: "pyval \<Rightarrow> pyval" where
  "deep_sanitize (PDict d) =
     PDict (map (\<lambda>(k, v).
       (k, if job_sensitive_key k then content_ref v
           else if normalized_key k \<in> set PROMPT_KEYS then PStr ''[REDACTED_PROMPT]''
           else if normalized_key k \<in> set SECRET_KEYS then PStr ''[REDACTED_SECRET]''
           else if normalized_key k \<in> set CONTENT_KEYS then PStr ''[REDACTED_CONTENT]''
           else if job_path_key k then (if py_startswith (normalized_key k) ''relative'' then v else PStr ''[REDACTED_PATH]'')
           else deep_sanitize v)) d)"
| "deep_sanitize (PList xs) = PList (map deep_sanitize xs)"
| "deep_sanitize (PStr s) = PStr (clean_text s)"
| "deep_sanitize v = v"

definition sanitize_record :: "pydict \<Rightarrow> pydict" where
  "sanitize_record d = as_dict (deep_sanitize (PDict d))"

section \<open>Short words are kept\<close>

text \<open>No pattern of the job sanitizer matches a text of less than 23 letters, digits and underscores.\<close>

lemma word_no_space: "is_word c \<Longrightarrow> \<not> is_space c"
  by (auto simp: is_word_def is_alnum_def is_alpha_def is_space_def less_eq_char_def Let_def)

lemma word_not_dash: "is_word c \<Longrightarrow> char_lower c \<noteq> CHR ''-''"
proof
  assume "is_word c" "char_lower c = CHR ''-''"
  then have "(of_char (char_lower c) :: nat) = 45" by simp
  with \<open>is_word c\<close> show False
    by (auto simp: is_word_def is_alnum_def is_alpha_def char_lower_def less_eq_char_def split: if_splits)
qed

lemma clean_text_word:
  assumes w: "list_all is_word s" and len: "length s < 23"
  shows "clean_text s = s"
proof -
  have space: "blocked is_word (RSeqs rs)" if "RPlus RSpace \<in> set rs" for rs
    by (rule blocked_RSeqs [OF that]) (auto intro!: blocked_RPlus word_no_space)
  have "blocked is_word eq_or_colon"
    by (auto simp: eq_or_colon_def is_word_def is_alnum_def is_alpha_def)
  then have colon: "blocked is_word (RSeqs rs)" if "eq_or_colon \<in> set rs" for rs
    by (rule blocked_RSeqs [OF that])
  have sk: "blocked is_word (RLitI ''sk-'')"
    by (rule blocked_RLitI [of "CHR ''-''"]) (auto dest: word_not_dash simp: char_lower_def)
  have eyj: "consumes 23 (RSeqs [RLitI ''eyJ'', RAtLeast 20 (RCh P)])" for P
    using consumes_RSeq [OF consumes_RLitI [of "''eyJ''"] consumes_RSeq [OF consumes_RAtLeast [of 20] consumes_0 [of REps]]]
    by (simp add: RSeqs_def)
  have "fold (\<lambda>r. re_sub_all r ''[REDACTED_SECRET]'') SECRET_PATTERNS s = s"
    unfolding SECRET_PATTERNS_def fold_simps comp_def id_def
    apply (subst re_sub_all_blocked [OF blocked_RSeqs [OF _ sk] w], simp)
    apply (subst re_sub_all_short [OF eyj len])
    apply (subst re_sub_all_blocked [OF space w], simp)
    apply (subst re_sub_all_blocked [OF colon w], simp)
    apply (subst re_sub_all_blocked [OF colon w], simp)
    apply (subst re_sub_all_blocked [OF space w], simp)
    apply (subst re_sub_all_blocked [OF space w], simp)
    apply (subst re_sub_all_blocked [OF space w], simp)
    apply (subst re_sub_all_blocked [OF space w], simp)
    apply (rule refl)
    done
  moreover have "blocked is_word (RPlus (RSeq (RLit ''/'') (RPlus (RCh P))))" for P
    by (rule blocked_RPlus, rule blocked_RSeq1, rule blocked_RLit [of "CHR ''/''"]) (auto simp: is_word_def is_alnum_def is_alpha_def)
  then have "\<not> is_absolute_path s" using w by (simp add: is_absolute_path_def blocked_def)
  ultimately show ?thesis by (simp add: clean_text_def)
qed

section \<open>What the stored form can reveal\<close>

text \<open>What is left of a sensitive value: whether it was a text, and then its number of lines.\<close>

definition line_class :: "pyval \<Rightarrow> nat option" where
  "line_class v =
     (case v of PStr s \<Rightarrow> Some (if s = [] then 0 else length (py_split (CHR 0x0A) (py_strip s))) | _ \<Rightarrow> None)"

text \<open>Two values that agree on everything that the stored form may reveal, at any depth: the shape and the keys, cleaned
  texts, the line class of sensitive values, the values under path keys that begin with ``relative'', and other
  values that are no texts. Values under the other path keys may differ freely.\<close>

inductive secret_equiv :: "pyval \<Rightarrow> pyval \<Rightarrow> bool"
  and entry_equiv :: "string \<times> pyval \<Rightarrow> string \<times> pyval \<Rightarrow> bool" where
  same: "secret_equiv v v"
| texts: "clean_text s = clean_text t \<Longrightarrow> secret_equiv (PStr s) (PStr t)"
| dicts: "list_all2 entry_equiv d e \<Longrightarrow> secret_equiv (PDict d) (PDict e)"
| lists: "list_all2 secret_equiv xs ys \<Longrightarrow> secret_equiv (PList xs) (PList ys)"
| sensitive: "job_sensitive_key k \<Longrightarrow> line_class v = line_class w \<Longrightarrow> entry_equiv (k, v) (k, w)"
| path: "\<not> job_sensitive_key k \<Longrightarrow> job_path_key k \<Longrightarrow> \<not> py_startswith (normalized_key k) ''relative'' \<Longrightarrow> entry_equiv (k, v) (k, w)"
| relative: "\<not> job_sensitive_key k \<Longrightarrow> job_path_key k \<Longrightarrow> py_startswith (normalized_key k) ''relative'' \<Longrightarrow> entry_equiv (k, v) (k, v)"
| nested: "secret_equiv v w \<Longrightarrow> \<not> job_sensitive_key k \<Longrightarrow> \<not> job_path_key k \<Longrightarrow> entry_equiv (k, v) (k, w)"

text \<open>The three masks for prompts, secrets and contents are never chosen: their keys are sensitive.\<close>

lemma special_keys_sensitive:
  "normalized_key k \<in> set PROMPT_KEYS \<union> set SECRET_KEYS \<union> set CONTENT_KEYS \<Longrightarrow> job_sensitive_key k"
proof -
  have "set PROMPT_KEYS \<union> set SECRET_KEYS \<union> set CONTENT_KEYS \<subseteq> set SENSITIVE_KEYS"
    by (auto simp: PROMPT_KEYS_def SECRET_KEYS_def CONTENT_KEYS_def SENSITIVE_KEYS_def)
  then show "normalized_key k \<in> set PROMPT_KEYS \<union> set SECRET_KEYS \<union> set CONTENT_KEYS \<Longrightarrow> job_sensitive_key k"
    by (auto simp: job_sensitive_key_def)
qed

text \<open>One entry of a sanitized dictionary, without the branches that are never taken.\<close>

definition sanitize_entry :: "string \<times> pyval \<Rightarrow> string \<times> pyval" where
  "sanitize_entry kv =
     (fst kv,
      if job_sensitive_key (fst kv) then content_ref (snd kv)
      else if job_path_key (fst kv)
      then (if py_startswith (normalized_key (fst kv)) ''relative'' then snd kv else PStr ''[REDACTED_PATH]'')
      else deep_sanitize (snd kv))"

lemma deep_sanitize_PDict: "deep_sanitize (PDict d) = PDict (map sanitize_entry d)"
  using special_keys_sensitive by (auto simp: sanitize_entry_def)

lemma content_ref_line_class: "content_ref v = content_ref w \<longleftrightarrow> line_class v = line_class w"
  by (cases v; cases w) (auto simp: line_class_def content_ref_def)

lemma sanitize_equiv_aux:
  "(secret_equiv v w \<longrightarrow> deep_sanitize v = deep_sanitize w) \<and> (entry_equiv kv kw \<longrightarrow> sanitize_entry kv = sanitize_entry kw)"
proof (induction rule: secret_equiv_entry_equiv.induct)
  case (dicts d e)
  then have "map sanitize_entry d = map sanitize_entry e"
    by (auto simp: list_all2_conv_all_nth intro!: nth_equalityI)
  then show ?case by (simp only: deep_sanitize_PDict)
next
  case (lists xs ys)
  then show ?case by (auto simp: list_all2_conv_all_nth intro!: nth_equalityI)
qed (auto simp: sanitize_entry_def content_ref_line_class)

lemma sanitize_entry_inj:
  assumes "sanitize_entry (k, v) = sanitize_entry (k', w)" and "\<And>w. deep_sanitize v = deep_sanitize w \<Longrightarrow> secret_equiv v w"
  shows "entry_equiv (k, v) (k', w)"
proof -
  from assms(1) have k: "k' = k" by (simp add: sanitize_entry_def)
  consider (sens) "job_sensitive_key k" | (path) "\<not> job_sensitive_key k" "job_path_key k" "\<not> py_startswith (normalized_key k) ''relative''"
    | (rel) "\<not> job_sensitive_key k" "job_path_key k" "py_startswith (normalized_key k) ''relative''"
    | (other) "\<not> job_sensitive_key k" "\<not> job_path_key k" by blast
  then show ?thesis
  proof cases
    case sens
    with assms(1) show ?thesis unfolding k by (intro sensitive) (simp_all add: sanitize_entry_def content_ref_line_class)
  next
    case path
    then show ?thesis unfolding k by (intro secret_equiv_entry_equiv.path)
  next
    case rel
    with assms(1) have "w = v" unfolding k by (simp add: sanitize_entry_def)
    with rel show ?thesis unfolding k by (auto intro: relative)
  next
    case other
    with assms(1) have "deep_sanitize v = deep_sanitize w" unfolding k by (simp add: sanitize_entry_def)
    with assms(2) other show ?thesis unfolding k by (intro nested)
  qed
qed

lemma sanitize_equiv_conv: "deep_sanitize v = deep_sanitize w \<Longrightarrow> secret_equiv v w"
proof (induction v arbitrary: w)
  case (PDict d)
  from PDict.prems obtain e where w: "w = PDict e" by (cases w) (simp_all add: deep_sanitize_PDict del: deep_sanitize.simps(1))
  from PDict.prems have maps: "map sanitize_entry d = map sanitize_entry e"
    unfolding w deep_sanitize_PDict by simp
  have "list_all2 entry_equiv d e"
  proof (rule list_all2_all_nthI)
    show "length d = length e" using map_eq_imp_length_eq [OF maps] .
    fix n assume n: "n < length d"
    obtain k v k' v' where kv: "d ! n = (k, v)" "e ! n = (k', v')" by (cases "d ! n"; cases "e ! n")
    have "map sanitize_entry d ! n = map sanitize_entry e ! n" using maps by simp
    then have "sanitize_entry (k, v) = sanitize_entry (k', v')"
      using n map_eq_imp_length_eq [OF maps] kv by simp
    moreover have "secret_equiv v u" if "deep_sanitize v = deep_sanitize u" for u
      by (rule PDict.IH [OF nth_mem [OF n] _ that]) (simp add: kv)
    ultimately show "entry_equiv (d ! n) (e ! n)" unfolding kv by (rule sanitize_entry_inj)
  qed
  then show ?case unfolding w by (rule dicts)
next
  case (PList xs)
  from PList.prems obtain ys where w: "w = PList ys" by (cases w) auto
  from PList.prems have maps: "map deep_sanitize xs = map deep_sanitize ys" unfolding w by simp
  have "list_all2 secret_equiv xs ys"
  proof (rule list_all2_all_nthI)
    show len: "length xs = length ys" using map_eq_imp_length_eq [OF maps] .
    fix n assume n: "n < length xs"
    have "map deep_sanitize xs ! n = map deep_sanitize ys ! n" using maps by simp
    then have "deep_sanitize (xs ! n) = deep_sanitize (ys ! n)" using n len by simp
    then show "secret_equiv (xs ! n) (ys ! n)" by (rule PList.IH [OF nth_mem [OF n]])
  qed
  then show ?case unfolding w by (rule lists)
next
  case (PStr s)
  then show ?case by (cases w) (simp_all add: texts)
next
  case PNone
  then show ?case by (cases w) (simp_all add: same)
next
  case (PBool b)
  then show ?case by (cases w) (simp_all add: same)
next
  case (PInt i)
  then show ?case by (cases w) (simp_all add: same)
qed

text \<open>C35: What the stored form of a job record reveals, exactly. Two records are stored alike if and only if they have
  the same shape and keys and agree, however deeply nested, on the cleaned text of ordinary texts, on the number
  of lines of sensitive texts (and on which sensitive values are texts), on the values under the path keys that
  begin with ``relative'', and on the other values that are no texts. Nothing else about a sensitive value, and
  nothing about a value under another path key, can be read from the store.\<close>

theorem sanitize_reveals_exactly:
  "deep_sanitize v = deep_sanitize w \<longleftrightarrow> secret_equiv v w"
  using sanitize_equiv_aux sanitize_equiv_conv by blast

theorem nested_key_is_hidden:
  "deep_sanitize (PDict [(''payload'', PDict [(''api_key'', PStr ''alpha'')])])
     = deep_sanitize (PDict [(''payload'', PDict [(''api_key'', PStr ''beta'')])])"
proof -
  have "job_sensitive_key ''api_key''" "\<not> job_sensitive_key ''payload''" "\<not> job_path_key ''payload''"
    "line_class (PStr ''alpha'') = line_class (PStr ''beta'')" by code_simp+
  then have "secret_equiv (PDict [(''payload'', PDict [(''api_key'', PStr ''alpha'')])])
      (PDict [(''payload'', PDict [(''api_key'', PStr ''beta'')])])"
    by (intro dicts list.rel_intros nested sensitive)
  then show ?thesis using sanitize_equiv_aux by blast
qed

text \<open>What stands under a path key that begins with ``relative'' is stored as it is, whatever it holds: an absolute path, or a
  dictionary with a password. The module's docstring says that no secret and no path survives.\<close>

theorem relative_path_keeps_everything:
  "deep_sanitize (PDict [(''relative_path'', v)]) = PDict [(''relative_path'', v)]"
proof -
  have "\<not> job_sensitive_key ''relative_path''" "job_path_key ''relative_path''" "py_startswith (normalized_key ''relative_path'') ''relative''"
    by code_simp+
  then show ?thesis by (simp add: deep_sanitize_PDict sanitize_entry_def del: deep_sanitize.simps(1))
qed

text \<open>The reference that replaces a sensitive text does not survive the next save: every update of a
  job sanitizes the stored record again, and the reference, being no text, becomes the bare
  placeholder.\<close>

theorem sanitize_is_not_idempotent:
  "job_sensitive_key k \<Longrightarrow>
     deep_sanitize (PDict [(k, PStr s)]) = PDict [(k, content_ref (PStr s))]
     \<and> deep_sanitize (deep_sanitize (PDict [(k, PStr s)])) = PDict [(k, PStr ''[REDACTED_CONFIG]'')]"
  by (simp add: deep_sanitize_PDict sanitize_entry_def del: deep_sanitize.simps(1)) (simp add: content_ref_def)

theorem sanitize_is_not_idempotent_witness:
  "deep_sanitize (deep_sanitize (PDict [(''prompt'', PStr ''hello'')])) = PDict [(''prompt'', PStr ''[REDACTED_CONFIG]'')]"
proof -
  have "job_sensitive_key ''prompt''" by code_simp
  from sanitize_is_not_idempotent [OF this, of "''hello''"] show ?thesis by blast
qed

end
