(* ===== verification/Job_Store.thy ===== *)
theory Job_Store
  imports Record_Store Storage_Ids Redaction
begin

text \<open>
  Durable jobs (\<open>jobs/schemas.py\<close>, \<open>jobs/store.py\<close>): records, events and logs per job, and the index
  of a workspace. A job record is the dictionary of its dataclass fields; every write sanitizes it.

  The state of one storage principal is a \<open>job_db\<close>. A section under the job's file lock is atomic.
  Parameters: \<open>now\<close>, and whether a session is alive (\<open>_session_exists\<close> reads the session store).
  A job id padded with spaces is read as the id without them; the code finds no record file under such an id.
  The random id of an event, the time stamp inside the index file and the statistics that
  \<open>_update_workspace_stats\<close> pushes to the workspace store are left out.
\<close>

section \<open>Records\<close>

definition JOB_STATUSES :: "string list" where
  "JOB_STATUSES = [''created'', ''queued'', ''running'', ''succeeded'', ''failed'', ''cancelled'', ''paused'']"

definition ENABLED_JOB_TYPES :: "string list" where
  "ENABLED_JOB_TYPES =
     [''agent_run'', ''export_report'', ''knowledge_index'', ''generic_agent_task'', ''workflow_run'', ''network_inspection'']"

definition JobProgress :: "string \<Rightarrow> pydict" where
  "JobProgress now =
     [(''current'', PInt 0), (''total'', PInt 0), (''percent'', PInt 0), (''message'', PStr []), (''current_step'', PStr []),
      (''updated_at'', PStr now)]"

text \<open>The dataclass fields with their defaults.\<close>

definition JobRecord :: "string \<Rightarrow> string \<Rightarrow> pydict" where
  "JobRecord now job_id =
     [(''job_id'', PStr job_id), (''workspace_id'', PStr ''default''), (''job_type'', PStr ''agent_run''),
      (''title'', PStr []), (''description'', PStr []), (''status'', PStr ''created''),
      (''progress'', PDict (JobProgress now)), (''payload'', PDict []), (''input_artifacts'', PList []),
      (''output_artifacts'', PList []), (''report_artifacts'', PList []), (''artifact_refs'', PList []),
      (''run_ids'', PList []), (''trace_ids'', PList []), (''capability_id'', PStr []), (''skill'', PStr []),
      (''module'', PStr []), (''created_by'', PStr ''user''), (''created_at'', PStr now), (''updated_at'', PStr now),
      (''started_at'', PStr []), (''finished_at'', PStr []), (''cancel_requested'', PBool False),
      (''retry_count'', PInt 0), (''max_retries'', PInt 3), (''error'', PStr []), (''warnings'', PList []),
      (''result_summary'', PDict []), (''metadata'', PDict []), (''redaction_applied'', PBool False)]"

definition job_fields :: "string list" where
  "job_fields = map fst (JobRecord [] [])"

text \<open>\<open>JobRecord(**{k: v for k, v in d.items() if k in fields})\<close>. A stored record has every field; the
  default of a missing one is taken at the time of reading.\<close>

definition load_job :: "pydict \<Rightarrow> pydict" where
  "load_job d = map (\<lambda>(k, v). (k, dget_or d k v)) (JobRecord [] [])"

definition job_status :: "pydict \<Rightarrow> string" where
  "job_status r = gets r ''status''"

definition JobEvent :: "string \<Rightarrow> string \<Rightarrow> string \<Rightarrow> string \<Rightarrow> string \<Rightarrow> pydict" where
  "JobEvent now ws_id job_id event_type message =
     [(''job_id'', PStr job_id), (''workspace_id'', PStr ws_id), (''event_type'', PStr event_type),
      (''timestamp'', PStr now), (''message'', PStr message), (''status'', PStr []), (''progress'', PDict []),
      (''run_id'', PStr []), (''trace_id'', PStr []), (''artifact_id'', PStr []), (''metadata'', PDict []),
      (''redaction_applied'', PBool False)]"

record job_db =
  jd_jobs :: "(string \<times> string) store"
  jd_events :: "((string \<times> string) \<times> pydict list) list"
  jd_logs :: "((string \<times> string) \<times> pydict list) list"
  jd_index :: "(string \<times> string list) list"

section \<open>Reading and locked updates\<close>

definition job_path :: "string \<Rightarrow> string \<Rightarrow> (string \<times> string) res" where
  "job_path ws_id job_id =
     rbind (validate_workspace_id (PStr ws_id)) (\<lambda>ws.
     rbind (validate_job_id (PStr job_id)) (\<lambda>j. Inr (ws, j)))"

definition get_job :: "string \<Rightarrow> string \<Rightarrow> job_db \<Rightarrow> pydict option res" where
  "get_job ws_id job_id db =
     (if job_id = [] then Inr None
      else rbind (job_path ws_id job_id) (\<lambda>path. Inr (map_option load_job (st_get (jd_jobs db) path))))"

text \<open>A section of one job: the body sees the loaded record and answers with the record to save, if
  any. The record is sanitized when it is written, and the caller gets the sanitized one.\<close>

definition job_section ::
  "string \<Rightarrow> string \<Rightarrow> (pydict \<Rightarrow> pydict option) \<Rightarrow> job_db \<Rightarrow> (job_db \<times> pydict option \<times> bool) res" where
  "job_section ws_id job_id body db =
     rbind (job_path ws_id job_id) (\<lambda>path.
     case st_get (jd_jobs db) path of
       None \<Rightarrow> Inr (db, None, False)
     | Some d \<Rightarrow>
         (case body (load_job d) of
            None \<Rightarrow> Inr (db, Some (load_job d), False)
          | Some r \<Rightarrow> Inr (db\<lparr>jd_jobs := st_put path (sanitize_record r) (jd_jobs db)\<rparr>, Some (sanitize_record r), True)))"

definition lines_of :: "((string \<times> string) \<times> pydict list) list \<Rightarrow> string \<times> string \<Rightarrow> pydict list" where
  "lines_of files path = (case map_of files path of None \<Rightarrow> [] | Some ls \<Rightarrow> ls)"

definition append_event :: "string \<Rightarrow> string \<Rightarrow> pydict \<Rightarrow> job_db \<Rightarrow> job_db res" where
  "append_event ws_id job_id event db =
     rbind (job_path ws_id job_id) (\<lambda>path.
     Inr (db\<lparr>jd_events := AList.update path (lines_of (jd_events db) path @ [sanitize_record event]) (jd_events db)\<rparr>))"

definition list_events :: "string \<Rightarrow> string \<Rightarrow> nat \<Rightarrow> job_db \<Rightarrow> pydict list res" where
  "list_events ws_id job_id limit db =
     rbind (job_path ws_id job_id) (\<lambda>path. Inr (last_n limit (lines_of (jd_events db) path)))"

definition append_log :: "string \<Rightarrow> string \<Rightarrow> string \<Rightarrow> string \<Rightarrow> string \<Rightarrow> pydict \<Rightarrow> job_db \<Rightarrow> job_db res" where
  "append_log now ws_id job_id message level meta db =
     rbind (job_path ws_id job_id) (\<lambda>path.
     Inr (db\<lparr>jd_logs := AList.update path (lines_of (jd_logs db) path @ [sanitize_record
            [(''ts'', PStr now), (''level'', PStr level), (''msg'', PStr (take 1000 message)), (''meta'', PDict meta)]]) (jd_logs db)\<rparr>))"

definition list_logs :: "string \<Rightarrow> string \<Rightarrow> nat \<Rightarrow> job_db \<Rightarrow> pydict list res" where
  "list_logs ws_id job_id limit db =
     rbind (job_path ws_id job_id) (\<lambda>path. Inr (last_n limit (lines_of (jd_logs db) path)))"

definition update_index :: "string \<Rightarrow> string \<Rightarrow> job_db \<Rightarrow> job_db" where
  "update_index ws_id job_id db =
     (let ids = (case map_of (jd_index db) ws_id of None \<Rightarrow> [] | Some xs \<Rightarrow> xs)
      in db\<lparr>jd_index := AList.update ws_id (if job_id \<in> set ids then ids else ids @ [job_id]) (jd_index db)\<rparr>)"

definition remove_from_index :: "string \<Rightarrow> string \<Rightarrow> job_db \<Rightarrow> job_db" where
  "remove_from_index ws_id job_id db =
     (case map_of (jd_index db) ws_id of
        None \<Rightarrow> db
      | Some ids \<Rightarrow> db\<lparr>jd_index := AList.update ws_id (filter (\<lambda>i. i \<noteq> job_id) ids) (jd_index db)\<rparr>)"

section \<open>Operations\<close>

definition store_create_job :: "string \<Rightarrow> pydict \<Rightarrow> job_db \<Rightarrow> (job_db \<times> pydict) res" where
  "store_create_job now rec db =
     (let ws_id = gets rec ''workspace_id''; job_id = gets rec ''job_id''; safe = sanitize_record rec in
      rbind (job_path ws_id job_id) (\<lambda>path.
      rbind (append_event ws_id job_id (JobEvent now ws_id job_id ''job_created'' (''Job created: '' @ gets safe ''title''))
               (update_index ws_id job_id (db\<lparr>jd_jobs := st_put path safe (jd_jobs db)\<rparr>))) (\<lambda>db'.
      Inr (db', safe))))"

definition patch_job :: "string \<Rightarrow> pydict \<Rightarrow> pydict \<Rightarrow> pydict" where
  "patch_job now patch r =
     dset ''updated_at'' (PStr now) (dupdate r (filter (\<lambda>(k, _). k \<in> set job_fields) patch))"

definition update_job :: "string \<Rightarrow> string \<Rightarrow> string \<Rightarrow> pydict \<Rightarrow> job_db \<Rightarrow> (job_db \<times> pydict option) res" where
  "update_job now ws_id job_id patch db =
     rbind (job_section ws_id job_id (\<lambda>r. Some (patch_job now patch r)) db) (\<lambda>(db', r, _). Inr (db', r))"

definition claim_body :: "string \<Rightarrow> pydict \<Rightarrow> pydict option" where
  "claim_body now r =
     (if job_status r \<noteq> ''queued'' then None
      else Some (dupdate r
        [(''status'', PStr ''running''), (''started_at'', PStr now), (''finished_at'', PStr []), (''error'', PStr []),
         (''cancel_requested'', PBool False), (''updated_at'', PStr now)]))"

definition claim_job_for_execution :: "string \<Rightarrow> string \<Rightarrow> string \<Rightarrow> job_db \<Rightarrow> (job_db \<times> pydict option) res" where
  "claim_job_for_execution now ws_id job_id db =
     rbind (job_section ws_id job_id (claim_body now) db) (\<lambda>(db', r, applied).
     if \<not> applied then Inr (db', None)
     else rbind (append_event ws_id job_id (JobEvent now ws_id job_id ''job_started'' ''Job started'')
                   (update_index ws_id job_id db')) (\<lambda>db''. Inr (db'', r)))"

definition fence_body :: "string \<Rightarrow> string \<Rightarrow> pydict \<Rightarrow> pydict option" where
  "fence_body now call_id r =
     (if job_status r \<noteq> ''running'' then None
      else
        let metadata = as_dict (dget r ''metadata'');
            active_turn = dupdate (as_dict (dget metadata ''active_turn''))
              [(''status'', PStr ''failed''), (''error'', PStr ''worker_lease_expired''), (''finished_at'', PStr now),
               (''unknown_outcome'', PDict
                  [(''tool_id'', PStr ''jobs.worker''), (''call_id'', PStr call_id),
                   (''error_code'', PStr ''WORKER_LEASE_EXPIRED''), (''execution_may_continue'', PBool True)])]
        in Some (dupdate r
             [(''status'', PStr ''failed''), (''finished_at'', PStr now), (''error'', PStr ''worker_lease_expired''),
              (''metadata'', PDict (dset ''active_turn'' (PDict active_turn) metadata)), (''updated_at'', PStr now)]))"

definition fence_reclaimed_running_job ::
  "string \<Rightarrow> string \<Rightarrow> string \<Rightarrow> string \<Rightarrow> int \<Rightarrow> job_db \<Rightarrow> (job_db \<times> pydict option) res" where
  "fence_reclaimed_running_job now ws_id job_id lease_id attempt db =
     (if attempt \<le> 1 then Inr (db, None)
      else
        rbind (job_section ws_id job_id (fence_body now (if lease_id \<noteq> [] then lease_id else job_id)) db) (\<lambda>(db', r, applied).
        if \<not> applied then Inr (db', None)
        else rbind (append_event ws_id job_id
               (JobEvent now ws_id job_id ''job_failed'' ''Job lease expired; outcome requires reconciliation'')
               (update_index ws_id job_id db')) (\<lambda>db''. Inr (db'', r))))"

definition cancel_body :: "string \<Rightarrow> string \<Rightarrow> pydict \<Rightarrow> pydict option" where
  "cancel_body now expected r =
     (let active = as_dict (dget (as_dict (dget r ''metadata'')) ''active_turn'');
          actual = py_strip (gets active ''client_request_id'') in
      if job_status r \<noteq> ''running'' then None
      else if expected \<noteq> [] \<and> actual \<noteq> expected then None
      else if py_truthy (dget r ''cancel_requested'') then None
      else Some (dupdate r [(''cancel_requested'', PBool True), (''updated_at'', PStr now)]))"

definition request_job_cancellation ::
  "string \<Rightarrow> string \<Rightarrow> string \<Rightarrow> string \<Rightarrow> job_db \<Rightarrow> (job_db \<times> pydict option \<times> bool) res" where
  "request_job_cancellation now ws_id job_id expected_client_request_id db =
     job_section ws_id job_id (cancel_body now (py_strip expected_client_request_id)) db"

definition delete_job :: "string \<Rightarrow> string \<Rightarrow> string \<Rightarrow> bool \<Rightarrow> job_db \<Rightarrow> (job_db \<times> bool) res" where
  "delete_job now ws_id job_id soft db =
     rbind (rguard (job_id \<noteq> []) (ValueError ''job_id is required for delete_job'')) (\<lambda>_.
     if soft then
       rbind (update_job now ws_id job_id [(''status'', PStr ''cancelled''), (''cancel_requested'', PBool True)] db) (\<lambda>(db', r).
       Inr (db', r \<noteq> None))
     else
       rbind (job_path ws_id job_id) (\<lambda>path.
       if st_get (jd_jobs db) path = None \<and> map_of (jd_events db) path = None \<and> map_of (jd_logs db) path = None
       then Inr (db, False)
       else Inr (remove_from_index ws_id job_id
              (db\<lparr>jd_jobs := st_del path (jd_jobs db), jd_events := AList.delete path (jd_events db),
                  jd_logs := AList.delete path (jd_logs db)\<rparr>), True)))"

text \<open>\<open>list_jobs\<close> of one workspace.\<close>

definition job_listed :: "(string \<Rightarrow> string \<Rightarrow> bool) \<Rightarrow> string \<Rightarrow> string \<Rightarrow> string \<Rightarrow> pydict \<Rightarrow> bool" where
  "job_listed session_exists ws_id status job_type j \<longleftrightarrow>
     gets j ''workspace_id'' = ws_id
     \<and> (status = [] \<or> job_status j = status)
     \<and> (job_type = [] \<or> gets j ''job_type'' = job_type)
     \<and> (gets j ''job_type'' = ''agent_run'' \<longrightarrow>
          (let sid = dget_or (as_dict (dget j ''payload'')) ''session_id'' (PStr [])
           in py_truthy sid \<longrightarrow> session_exists ws_id (py_str sid)))"

text \<open>The files that the loop looks at: the tests for \<open>events\<close> and \<open>log\<close> are on the whole path. The data root
  and the directory of the storage principal are assumed to contain neither word.\<close>

definition job_file_listed :: "string \<Rightarrow> string \<Rightarrow> bool" where
  "job_file_listed ws_id job_id \<longleftrightarrow>
     (let file_path = ws_id @ ''/jobs/'' @ job_id @ ''/'' @ job_id @ ''.json'' in
      \<not> py_endswith job_id ''_meta'' \<and> \<not> py_contains ''events'' file_path \<and> \<not> py_contains ''log'' file_path)"

definition list_jobs ::
  "(string \<Rightarrow> string \<Rightarrow> bool) \<Rightarrow> string \<Rightarrow> string \<Rightarrow> string \<Rightarrow> nat \<Rightarrow> job_db \<Rightarrow> pydict list" where
  "list_jobs session_exists ws_id status job_type limit db =
     take limit (sorted_desc record_time (map sanitize_record
       (filter (job_listed session_exists ws_id status job_type)
         (map (load_job \<circ> snd) (filter (\<lambda>((ws, job_id), _). ws = ws_id \<and> job_file_listed ws job_id) (jd_jobs db))))))"

text \<open>\<open>get_next_queued_job\<close>: workspaces in descending, jobs in ascending order.\<close>

definition get_next_queued_job :: "job_db \<Rightarrow> pydict option" where
  "get_next_queued_job db =
     (let paths = concat (map (\<lambda>ws. map (Pair ws) (sort (map (snd \<circ> fst) (filter (\<lambda>((w, _), _). w = ws) (jd_jobs db)))))
                    (rev (sorted_set (map (fst \<circ> fst) (jd_jobs db)))))
      in find (\<lambda>j. job_status j = ''queued'') (map (\<lambda>p. load_job (the (st_get (jd_jobs db) p))) paths))"

section \<open>Reconciliation after a restart\<close>

text \<open>The user-visible texts, in UTF-8.\<close>

definition label_cancelled :: string where
  "label_cancelled =
     [CHR 0xE5, CHR 0xB7, CHR 0xB2, CHR 0xE5, CHR 0x8F, CHR 0x96, CHR 0xE6, CHR 0xB6, CHR 0x88]"

definition label_failed :: string where
  "label_failed =
     [CHR 0xE5, CHR 0xA4, CHR 0x84, CHR 0xE7, CHR 0x90, CHR 0x86, CHR 0xE5, CHR 0xA4, CHR 0xB1,
      CHR 0xE8, CHR 0xB4, CHR 0xA5]"

definition text_cancelled :: string where
  "text_cancelled =
     [CHR 0xE4, CHR 0xBB, CHR 0xBB, CHR 0xE5, CHR 0x8A, CHR 0xA1, CHR 0xE5, CHR 0xB7, CHR 0xB2,
      CHR 0xE5, CHR 0x8F, CHR 0x96, CHR 0xE6, CHR 0xB6, CHR 0x88, CHR 0xE3, CHR 0x80, CHR 0x82]"

definition reconcile_patch :: "string \<Rightarrow> pydict \<Rightarrow> pydict" where
  "reconcile_patch finished_at data =
     (let cancelled = py_truthy (dget data ''cancel_requested'');
          terminal_status = (if cancelled then ''cancelled'' else ''failed'');
          terminal_stage = (if cancelled then ''turn_cancelled'' else ''turn_failed'');
          terminal_label = (if cancelled then label_cancelled else label_failed);
          terminal_error = (if cancelled then text_cancelled else ''backend_restart_during_job'');
          metadata = as_dict (dget data ''metadata'');
          active_turn = as_dict (dget metadata ''active_turn'')
      in [(''status'', PStr terminal_status),
          (''finished_at'', PStr finished_at),
          (''error'', PStr (if cancelled then [] else terminal_error)),
          (''cancel_requested'', PBool cancelled)]
         @ (if dget active_turn ''status'' = PStr ''running''
            then [(''metadata'', PDict (dset ''active_turn'' (PDict (dupdate active_turn
                     [(''status'', PStr terminal_status), (''stage'', PStr terminal_stage), (''stage_label'', PStr terminal_label),
                      (''updated_at'', PStr finished_at), (''finished_at'', PStr finished_at), (''error'', PStr terminal_error)])) metadata)),
                  (''progress'', PDict
                     [(''current'', PInt 4), (''total'', PInt 4), (''percent'', PInt 100), (''message'', PStr terminal_label),
                      (''current_step'', PStr terminal_label), (''updated_at'', PStr finished_at)])]
            else []))"

definition needs_reconcile :: "string \<Rightarrow> pydict \<Rightarrow> bool" where
  "needs_reconcile started_before data \<longleftrightarrow>
     dget data ''status'' = PStr ''running'' \<and> gets data ''updated_at'' < started_before"

definition reconcile_job ::
  "string \<Rightarrow> string \<Rightarrow> string \<Rightarrow> string \<times> string \<Rightarrow> job_db \<times> nat \<Rightarrow> (job_db \<times> nat) res" where
  "reconcile_job now finished_at started_before path = (\<lambda>(db, reconciled).
     case st_get (jd_jobs db) path of
       None \<Rightarrow> Inr (db, reconciled)
     | Some data \<Rightarrow>
         if \<not> needs_reconcile started_before data then Inr (db, reconciled)
         else
           let ws_id = fst path; job_id = gets_or data ''job_id'' (snd path) in
           rbind (update_job now ws_id job_id (reconcile_patch finished_at data) db) (\<lambda>(db', result).
           if result = None then Inr (db', reconciled)
           else if py_truthy (dget data ''cancel_requested'') then
             rbind (append_event ws_id job_id
                 (JobEvent now ws_id job_id ''job_cancelled'' ''Job cancelled during backend restart recovery'') db') (\<lambda>db''.
             Inr (db'', reconciled + 1))
           else Inr (db', reconciled + 1)))"

text \<open>One storage principal; the code repeats this for every known principal.\<close>

definition reconcile_running_jobs :: "string \<Rightarrow> string \<Rightarrow> string \<Rightarrow> job_db \<Rightarrow> (job_db \<times> nat) res" where
  "reconcile_running_jobs now finished_at started_before db =
     rfold (reconcile_job now finished_at started_before) (map fst (jd_jobs db)) (db, 0)"

section \<open>Fields that survive a save\<close>

lemma sanitize_record_eq: "sanitize_record r = map sanitize_entry r"
  by (simp add: sanitize_record_def deep_sanitize_PDict del: deep_sanitize.simps(1))

lemma dget_sanitize:
  "\<not> job_sensitive_key k \<Longrightarrow> \<not> job_path_key k \<Longrightarrow> dget (sanitize_record r) k = deep_sanitize (dget r k)"
  by (induction r) (auto simp: sanitize_record_eq sanitize_entry_def)

lemma din_sanitize [simp]: "din k (sanitize_record r) = din k r"
  by (induction r) (auto simp: sanitize_record_eq sanitize_entry_def din_def)

lemma plain_job_fields:
  "list_all (\<lambda>k. \<not> job_sensitive_key k \<and> \<not> job_path_key k) job_fields"
  by code_simp

lemma dget_sanitize_field: "k \<in> set job_fields \<Longrightarrow> dget (sanitize_record r) k = deep_sanitize (dget r k)"
  using plain_job_fields by (simp add: list_all_iff dget_sanitize)

lemma dget_map_fields:
  "k \<in> set (map fst ds) \<Longrightarrow> dget (map (\<lambda>(k, v). (k, dget_or d k v)) ds) k = dget_or d k (dget ds k)"
proof (induction ds)
  case (Cons a ds)
  then show ?case by (cases a) (auto simp: dget_def)
qed simp

lemma dget_load_job: "k \<in> set job_fields \<Longrightarrow> dget (load_job d) k = dget_or d k (dget (JobRecord [] []) k)"
  by (simp add: load_job_def dget_map_fields job_fields_def)

lemma dget_or_din: "din k d \<Longrightarrow> dget_or d k x = dget d k"
  by (auto simp: dget_or_def dget_def din_def)

lemma din_load_job: "k \<in> set job_fields \<Longrightarrow> din k (load_job d)"
  by (auto simp: load_job_def job_fields_def din_def map_of_eq_None_iff comp_def case_prod_beta image_iff)

lemma reload_field:
  "k \<in> set job_fields \<Longrightarrow> din k r \<Longrightarrow> dget (load_job (sanitize_record r)) k = deep_sanitize (dget r k)"
  by (simp add: dget_load_job dget_or_din dget_sanitize_field)

lemma status_words: "list_all (\<lambda>s. list_all is_word s \<and> length s < 23) JOB_STATUSES"
  by code_simp

lemma clean_status: "s \<in> set JOB_STATUSES \<Longrightarrow> clean_text s = s"
  using status_words by (auto simp: list_all_iff [of _ JOB_STATUSES] intro: clean_text_word)

lemma status_field [simp]: "''status'' \<in> set job_fields" "''cancel_requested'' \<in> set job_fields"
  "''retry_count'' \<in> set job_fields" "''max_retries'' \<in> set job_fields" "''metadata'' \<in> set job_fields"
  by code_simp+

text \<open>The status of a job as it is stored; only the seven statuses of the schema count.\<close>

definition job_view :: "job_db \<Rightarrow> string \<times> string \<Rightarrow> string option" where
  "job_view db k =
     (case st_get (jd_jobs db) k of
        None \<Rightarrow> None
      | Some d \<Rightarrow> (let s = job_status (load_job d) in if s \<in> set JOB_STATUSES \<and> dget (load_job d) ''status'' = PStr s then Some s else None))"

lemma job_view_cong: "st_get (jd_jobs db') k = st_get (jd_jobs db) k \<Longrightarrow> job_view db' k = job_view db k"
  by (simp add: job_view_def)

lemma job_view_saved:
  assumes "st_get (jd_jobs db) k = Some (sanitize_record r)" "dget r ''status'' = PStr s" "s \<in> set JOB_STATUSES" "din ''status'' r"
  shows "job_view db k = Some s"
proof -
  have "dget (load_job (sanitize_record r)) ''status'' = PStr s"
    using assms by (simp add: reload_field clean_status)
  then show ?thesis using assms(1,3) by (simp add: job_view_def job_status_def gets_eq_of_dget)
qed

lemma job_viewD:
  "job_view db k = Some s \<Longrightarrow> \<exists>d. st_get (jd_jobs db) k = Some d \<and> s \<in> set JOB_STATUSES
     \<and> dget (load_job d) ''status'' = PStr s \<and> job_status (load_job d) = s"
  by (auto simp: job_view_def Let_def split: option.splits if_splits)

text \<open>What a section does to the statuses.\<close>

lemma job_section_jobs:
  assumes "job_section ws_id job_id body db = Inr (db', a)"
  obtains path where "job_path ws_id job_id = Inr path"
    "jd_jobs db' = (case st_get (jd_jobs db) path of None \<Rightarrow> jd_jobs db
       | Some d \<Rightarrow> (case body (load_job d) of None \<Rightarrow> jd_jobs db | Some r \<Rightarrow> st_put path (sanitize_record r) (jd_jobs db)))"
proof -
  from assms obtain path where path: "job_path ws_id job_id = Inr path" by (auto simp: job_section_def)
  note eq = assms [unfolded job_section_def path rbind_simps]
  have "jd_jobs db' = (case st_get (jd_jobs db) path of None \<Rightarrow> jd_jobs db
       | Some d \<Rightarrow> (case body (load_job d) of None \<Rightarrow> jd_jobs db | Some r \<Rightarrow> st_put path (sanitize_record r) (jd_jobs db)))"
  proof (cases "st_get (jd_jobs db) path")
    case None
    with eq show ?thesis by simp
  next
    case (Some d)
    with eq show ?thesis by (cases "body (load_job d)") auto
  qed
  with path that show ?thesis by blast
qed

text \<open>\<open>moves R r r'\<close>: the new record keeps the status or moves it along \<open>R\<close>.\<close>

definition moves :: "(string \<Rightarrow> string \<Rightarrow> bool) \<Rightarrow> pydict \<Rightarrow> pydict \<Rightarrow> bool" where
  "moves R r r' \<longleftrightarrow> din ''status'' r' \<and>
     (dget r' ''status'' = dget r ''status''
      \<or> (\<exists>t. dget r' ''status'' = PStr t \<and> t \<in> set JOB_STATUSES \<and> R (job_status r) t))"

lemma job_section_view:
  assumes "job_section ws_id job_id body db = Inr (db', a)" "job_view db k = Some s"
    and "\<And>d r'. job_path ws_id job_id = Inr k \<Longrightarrow> st_get (jd_jobs db) k = Some d \<Longrightarrow> body (load_job d) = Some r' \<Longrightarrow>
           moves R (load_job d) r'"
  shows "\<exists>t. job_view db' k = Some t \<and> (t = s \<or> R s t)"
  using assms(1)
proof (rule job_section_jobs)
  fix path
  assume path: "job_path ws_id job_id = Inr path"
    and jobs: "jd_jobs db' = (case st_get (jd_jobs db) path of None \<Rightarrow> jd_jobs db
       | Some d \<Rightarrow> (case body (load_job d) of None \<Rightarrow> jd_jobs db | Some r \<Rightarrow> st_put path (sanitize_record r) (jd_jobs db)))"
  from job_viewD [OF assms(2)] obtain d where d: "st_get (jd_jobs db) k = Some d" "s \<in> set JOB_STATUSES"
    "dget (load_job d) ''status'' = PStr s" "job_status (load_job d) = s" by blast
  show ?thesis
  proof (cases "k = path \<and> body (load_job d) \<noteq> None")
    case True
    then obtain r' where r': "body (load_job d) = Some r'" by blast
    with True jobs d(1) have saved: "st_get (jd_jobs db') k = Some (sanitize_record r')" by simp
    have "moves R (load_job d) r'" using True path r' d(1) assms(3) by blast
    then have k: "din ''status'' r'"
      "dget r' ''status'' = dget (load_job d) ''status''
       \<or> (\<exists>t. dget r' ''status'' = PStr t \<and> t \<in> set JOB_STATUSES \<and> R (job_status (load_job d)) t)"
      unfolding moves_def by blast+
    from k(2) d(2-4) obtain t where t: "dget r' ''status'' = PStr t" "t \<in> set JOB_STATUSES" "t = s \<or> R s t" by metis
    from job_view_saved [OF saved t(1,2) k(1)] t(3) show ?thesis by blast
  next
    case False
    then have "st_get (jd_jobs db') k = st_get (jd_jobs db) k"
      unfolding jobs using d(1) by (auto split: option.splits)
    with assms(2) job_view_cong show ?thesis by metis
  qed
qed

lemma job_view_events [simp]:
  "job_view (db\<lparr>jd_events := e\<rparr>) k = job_view db k" "job_view (db\<lparr>jd_logs := l\<rparr>) k = job_view db k"
  "job_view (update_index ws_id job_id db) k = job_view db k"
  by (rule job_view_cong, simp add: update_index_def Let_def)+

lemma append_event_view [simp]: "append_event ws_id job_id e db = Inr db' \<Longrightarrow> job_view db' k = job_view db k"
  by (auto simp: append_event_def)

end
