(* ===== verification/Operation_Ledger.thy ===== *)
theory Operation_Ledger
  imports Record_Store Storage_Ids Runtime_Types Py_Json
begin

text \<open>
  The durable ledger of side-effecting tool calls (\<open>core/runtime_engine/operation_ledger.py\<close>).
  A ledger is a store of JSON records under (workspace id, operation id); every operation is one
  locked section of one record.

  Parameters of the definitions: the current time \<open>now\<close>, the text redaction \<open>redact\<close>
  (\<open>storage.redaction.redact_text\<close>), \<open>sha256\<close> (the hexadecimal digest), and for the
  reconciliation the durable resources that the ledger reads through \<open>get_subagent_task\<close> and
  \<open>get_job\<close>, each as status and summary.
\<close>

type_synonym ledger = "(string \<times> string) store"

section \<open>Identifiers and paths\<close>

definition operation_id :: "(string \<Rightarrow> string) \<Rightarrow> string \<Rightarrow> string \<Rightarrow> string \<Rightarrow> string" where
  "operation_id sha256 workspace_id turn_id call_id =
     ''op_'' @ take 24 (sha256 (workspace_id @ '':'' @ turn_id @ '':'' @ call_id))"

definition is_hex_lower :: "char \<Rightarrow> bool" where
  "is_hex_lower c \<longleftrightarrow> is_digit c \<or> (CHR ''a'' \<le> c \<and> c \<le> CHR ''f'')"

definition OPERATION_ID_RE :: "string \<Rightarrow> bool" where
  "OPERATION_ID_RE s \<longleftrightarrow>
     take 3 s = ''op_'' \<and> length s = 27 \<and> list_all is_hex_lower (drop 3 s)"

definition ledger_path :: "string \<Rightarrow> string \<Rightarrow> (string \<times> string) res" where
  "ledger_path workspace_id op_id =
     rbind (rguard (OPERATION_ID_RE op_id) (ValueError ''invalid_operation_id'')) (\<lambda>_.
     rbind (validate_workspace_id (PStr workspace_id)) (\<lambda>ws.
     Inr (ws, op_id)))"

definition arguments_digest :: "(string \<Rightarrow> string) \<Rightarrow> pydict \<Rightarrow> string" where
  "arguments_digest sha256 arguments = sha256 (json_sorted (PDict arguments))"

section \<open>Planning, starting and finishing\<close>

record op_ctx =
  oc_workspace_id :: string
  oc_request_id :: string
  oc_session_id :: string
  oc_extras :: pydict

definition new_operation ::
  "(string \<Rightarrow> string) \<Rightarrow> string \<Rightarrow> op_ctx \<Rightarrow> string \<Rightarrow> string \<Rightarrow> pydict \<Rightarrow> string \<Rightarrow> pydict" where
  "new_operation sha256 now ctx tool_id call_id arguments op_id =
     [(''schema'', PStr ''lzcore.operation_ledger.v1''),
      (''operation_id'', PStr op_id),
      (''turn_id'', PStr (oc_request_id ctx)),
      (''workspace_id'', PStr (oc_workspace_id ctx)),
      (''session_id'', PStr (oc_session_id ctx)),
      (''canonical_tool'', PStr tool_id),
      (''call_id'', PStr call_id),
      (''arguments_sha256'', PStr (arguments_digest sha256 arguments)),
      (''read_only'', PBool False),
      (''risk_level'', PStr (gets_or (oc_extras ctx) ''risk_level'' ''unknown'')),
      (''idempotency'', PStr ''unknown''),
      (''status'', PStr ''planned''),
      (''planned_at'', PStr now),
      (''updated_at'', PStr now)]"

definition plan_operation ::
  "(string \<Rightarrow> string) \<Rightarrow> string \<Rightarrow> op_ctx \<Rightarrow> string \<Rightarrow> string \<Rightarrow> pydict \<Rightarrow> ledger \<Rightarrow> (ledger \<times> pydict) res" where
  "plan_operation sha256 now ctx tool_id call_id arguments st =
     (let op_id = operation_id sha256 (oc_workspace_id ctx) (oc_request_id ctx) call_id in
      rbind (ledger_path (oc_workspace_id ctx) op_id) (\<lambda>path.
      case st_get st path of
        Some record \<Rightarrow> Inr (st, record)
      | None \<Rightarrow>
          (let record = new_operation sha256 now ctx tool_id call_id arguments op_id
           in Inr (st_put path record st, record))))"

definition start_section :: "string \<Rightarrow> pydict \<Rightarrow> (pydict option \<times> pydict) res" where
  "start_section now record =
     (if dget record ''status'' \<noteq> PStr ''planned'' then Inr (None, record)
      else
        let record' = dupdate record
              [(''status'', PStr ''running''), (''started_at'', PStr now), (''updated_at'', PStr now)]
        in Inr (Some record', record'))"

definition start_operation :: "string \<Rightarrow> string \<Rightarrow> string \<Rightarrow> ledger \<Rightarrow> (ledger \<times> pydict) res" where
  "start_operation now workspace_id op_id st =
     rbind (ledger_path workspace_id op_id) (\<lambda>path.
     with_record (FileNotFoundError op_id) path (start_section now) st)"

text \<open>The status that the result of the tool call stands for.\<close>

definition result_status :: "tool_result \<Rightarrow> pydict \<Rightarrow> string" where
  "result_status result output =
     (if tr_execution_may_continue result then ''unknown''
      else if dget output ''executed'' = PBool False then ''blocked''
      else if tr_ok result then ''succeeded'' else ''failed'')"

definition finish_section ::
  "(string \<Rightarrow> string) \<Rightarrow> string \<Rightarrow> tool_result \<Rightarrow> pydict \<Rightarrow> (pydict option \<times> pydict) res" where
  "finish_section redact now result record =
     (if dget record ''status'' \<notin> {PStr ''planned'', PStr ''running'', PStr ''unknown''}
      then Inr (None, record)
      else
        (case py_or (tr_output result) (PDict []) of
           PDict out \<Rightarrow>
             (let status = result_status result out in
              if dget record ''status'' = PStr ''unknown'' \<and> status = ''unknown''
              then Inr (None, record)
              else
                let record' = dupdate record
                      [(''status'', PStr status),
                       (''finished_at'', PStr now),
                       (''updated_at'', PStr now),
                       (''error_code'', PStr (take 120 (tr_error_code result))),
                       (''error'', PStr (take 500 (redact (case tr_error result of None \<Rightarrow> [] | Some e \<Rightarrow> e)))),
                       (''result_summary'', PStr (take 800 (redact (gets out ''summary''))))]
                in Inr (Some record', record'))
         | _ \<Rightarrow> Inl (AttributeError ''get'')))"

definition finish_operation ::
  "(string \<Rightarrow> string) \<Rightarrow> string \<Rightarrow> string \<Rightarrow> string \<Rightarrow> tool_result \<Rightarrow> ledger \<Rightarrow> (ledger \<times> pydict) res" where
  "finish_operation redact now workspace_id op_id result st =
     rbind (ledger_path workspace_id op_id) (\<lambda>path.
     with_record (FileNotFoundError op_id) path (finish_section redact now result) st)"

section \<open>Resource links and settlement\<close>

definition link_section :: "string \<Rightarrow> string \<Rightarrow> string \<Rightarrow> pydict \<Rightarrow> (pydict option \<times> pydict option) res" where
  "link_section now kind ident record =
     (let current_kind = gets record ''resource_kind''; current_id = gets record ''resource_id'' in
      if (current_kind \<noteq> [] \<or> current_id \<noteq> []) \<and> (current_kind \<noteq> kind \<or> current_id \<noteq> ident)
      then Inl (RuntimeError ''operation_resource_conflict'')
      else
        let record' = dupdate record
              [(''resource_kind'', PStr kind), (''resource_id'', PStr ident), (''updated_at'', PStr now)]
        in Inr (Some record', Some record'))"

definition link_operation_resource ::
  "string \<Rightarrow> string \<Rightarrow> string \<Rightarrow> string \<Rightarrow> string \<Rightarrow> ledger \<Rightarrow> (ledger \<times> pydict option) res" where
  "link_operation_resource now workspace_id op_id resource_kind resource_id st =
     (let kind = py_lower (py_strip resource_kind); ident = py_strip resource_id in
      if kind = [] \<or> ident = [] then Inr (st, None)
      else
        rbind (ledger_path workspace_id op_id) (\<lambda>path.
        case st_get st path of
          None \<Rightarrow> Inr (st, None)
        | Some _ \<Rightarrow> with_record (FileNotFoundError op_id) path (link_section now kind ident) st))"

text \<open>The keyword arguments of \<open>settle_operation\<close>.\<close>

record settlement =
  sm_status :: string
  sm_resolved_by :: string
  sm_error_code :: string
  sm_error :: string
  sm_result_summary :: string
  sm_resource_kind :: string
  sm_resource_id :: string
  sm_resolution_reason :: string
  sm_require_unresolved :: bool

definition settled_record :: "(string \<Rightarrow> string) \<Rightarrow> string \<Rightarrow> settlement \<Rightarrow> pydict \<Rightarrow> pydict" where
  "settled_record redact now a record =
     (let positive = sm_status a \<in> {''succeeded'', ''reconciled''};
          record' = dupdate record
            [(''status'', PStr (sm_status a)),
             (''finished_at'', PStr (gets_or record ''finished_at'' now)),
             (''resolved_at'', PStr now),
             (''resolved_by'', PStr (take 80 (if sm_resolved_by a = [] then ''system'' else sm_resolved_by a))),
             (''resolution_reason'', PStr (take 500 (redact (sm_resolution_reason a)))),
             (''error_code'', PStr (if positive then [] else take 120 (sm_error_code a))),
             (''error'', PStr (if positive then [] else take 500 (redact (sm_error a)))),
             (''result_summary'', PStr (take 800 (redact (sm_result_summary a)))),
             (''updated_at'', PStr now)]
      in if sm_resource_kind a \<noteq> [] \<and> sm_resource_id a \<noteq> []
         then dset ''resource_id'' (PStr (take 160 (sm_resource_id a)))
                (dset ''resource_kind'' (PStr (take 80 (sm_resource_kind a))) record')
         else record')"

definition settle_section ::
  "(string \<Rightarrow> string) \<Rightarrow> string \<Rightarrow> settlement \<Rightarrow> pydict \<Rightarrow> (pydict option \<times> pydict) res" where
  "settle_section redact now a record =
     (let current = gets record ''status'' in
      if current \<in> {''succeeded'', ''failed'', ''blocked''} then
        (if sm_require_unresolved a then Inl (RuntimeError ''operation_already_resolved'') else Inr (None, record))
      else if current \<notin> {''planned'', ''running'', ''unknown''} then
        Inl (RuntimeError ''operation_not_resolvable'')
      else
        let record' = settled_record redact now a record in Inr (Some record', record'))"

definition settle_operation ::
  "(string \<Rightarrow> string) \<Rightarrow> string \<Rightarrow> string \<Rightarrow> string \<Rightarrow> settlement \<Rightarrow> ledger \<Rightarrow> (ledger \<times> pydict) res" where
  "settle_operation redact now workspace_id op_id a st =
     rbind (rguard (sm_status a \<in> {''succeeded'', ''failed'', ''blocked'', ''reconciled''})
              (ValueError ''invalid_operation_resolution_status'')) (\<lambda>_.
     rbind (ledger_path workspace_id op_id) (\<lambda>path.
     with_record (FileNotFoundError op_id) path (settle_section redact now a) st))"

text \<open>The fixed summary text of a manual resolution, in UTF-8.\<close>

definition manual_summary :: string where
  "manual_summary =
     [CHR 0xE4, CHR 0xBA, CHR 0xBA, CHR 0xE5, CHR 0xB7, CHR 0xA5, CHR 0xE6, CHR 0xA0, CHR 0xB8,
      CHR 0xE5, CHR 0xAF, CHR 0xB9, CHR 0xE5, CHR 0xAE, CHR 0x8C, CHR 0xE6, CHR 0x88, CHR 0x90]"

definition resolve_operation_manually ::
  "(string \<Rightarrow> string) \<Rightarrow> string \<Rightarrow> string \<Rightarrow> string \<Rightarrow> string \<Rightarrow> string \<Rightarrow> ledger \<Rightarrow> (ledger \<times> pydict) res" where
  "resolve_operation_manually redact now workspace_id op_id status reason st =
     (let reason' = py_strip reason in
      rbind (rguard (reason' \<noteq> []) (ValueError ''resolution_reason_required'')) (\<lambda>_.
      settle_operation redact now workspace_id op_id
        \<lparr>sm_status = status, sm_resolved_by = ''manual'', sm_error_code = [], sm_error = [],
         sm_result_summary = manual_summary, sm_resource_kind = [], sm_resource_id = [],
         sm_resolution_reason = reason', sm_require_unresolved = True\<rparr> st))"

section \<open>Listing and reconciliation\<close>

definition public_fields :: "string list" where
  "public_fields =
     [''schema'', ''operation_id'', ''turn_id'', ''workspace_id'', ''session_id'', ''canonical_tool'',
      ''call_id'', ''read_only'', ''risk_level'', ''idempotency'', ''status'', ''planned_at'',
      ''started_at'', ''finished_at'', ''updated_at'', ''error_code'', ''resource_kind'',
      ''resource_id'', ''resolved_at'', ''resolved_by'', ''resolution_reason'']"

definition public_operation_record :: "(string \<Rightarrow> string) \<Rightarrow> pydict \<Rightarrow> pydict" where
  "public_operation_record redact record =
     dset ''result_summary'' (PStr (take 800 (redact (gets record ''result_summary''))))
       (dset ''error'' (PStr (take 500 (redact (gets record ''error''))))
         (map (\<lambda>k. (k, dget record k)) (filter (\<lambda>k. din k record) public_fields)))"

definition workspace_operations :: "string \<Rightarrow> ledger \<Rightarrow> pydict list" where
  "workspace_operations workspace_id st = map snd (filter (\<lambda>((ws, _), _). ws = workspace_id) st)"

definition list_operations :: "(string \<Rightarrow> string) \<Rightarrow> string \<Rightarrow> string \<Rightarrow> int \<Rightarrow> ledger \<Rightarrow> pydict list" where
  "list_operations redact workspace_id status limit st =
     (let records = list_json_records (workspace_operations workspace_id st) 5000;
          selected = (if status = [] then records else filter (\<lambda>r. gets r ''status'' = status) records)
      in map (public_operation_record redact) (take (nat (max 1 (min limit 5000))) selected))"

fun count_status :: "pydict list \<Rightarrow> (string \<times> nat) list \<Rightarrow> (string \<times> nat) list" where
  "count_status [] counts = counts"
| "count_status (record # records) counts =
     (let state = gets_or record ''status'' ''unknown'';
          n = (case map_of counts state of None \<Rightarrow> 0 | Some n \<Rightarrow> n)
      in count_status records (AList.update state (n + 1) counts))"

definition operation_counts :: "(string \<Rightarrow> string) \<Rightarrow> string \<Rightarrow> ledger \<Rightarrow> (string \<times> nat) list" where
  "operation_counts redact workspace_id st = count_status (list_operations redact workspace_id [] 5000 st) []"

text \<open>A durable resource as the reconciliation reads it: status and summary.\<close>

type_synonym resource_lookup = "string \<Rightarrow> string \<Rightarrow> (string \<times> string) option"

record reconcile_outcome =
  ro_checked :: nat
  ro_resolved :: nat
  ro_pending :: nat

definition resource_status :: "resource_lookup \<Rightarrow> resource_lookup \<Rightarrow> string \<Rightarrow> string \<Rightarrow> string \<Rightarrow> string \<times> string" where
  "resource_status subagents jobs workspace_id kind ident =
     (case (if kind = ''subagent'' then subagents workspace_id ident
            else if kind = ''job'' then jobs workspace_id ident else None) of
        None \<Rightarrow> ([], [])
      | Some p \<Rightarrow> p)"

definition reconcile_settlement :: "string \<Rightarrow> string \<Rightarrow> string \<Rightarrow> string \<Rightarrow> settlement" where
  "reconcile_settlement kind ident rstatus summary =
     \<lparr>sm_status = (if rstatus = ''succeeded'' then ''succeeded'' else ''failed''),
      sm_resolved_by = ''durable_resource'',
      sm_error_code = (if rstatus = ''succeeded'' then [] else py_upper kind @ ''_'' @ py_upper rstatus),
      sm_error = [], sm_result_summary = summary,
      sm_resource_kind = kind, sm_resource_id = ident, sm_resolution_reason = [],
      sm_require_unresolved = False\<rparr>"

definition reconcile_one ::
  "resource_lookup \<Rightarrow> resource_lookup \<Rightarrow> (string \<Rightarrow> string) \<Rightarrow> string \<Rightarrow> string \<Rightarrow> pydict \<Rightarrow>
   ledger \<times> reconcile_outcome \<Rightarrow> (ledger \<times> reconcile_outcome) res" where
  "reconcile_one subagents jobs redact now workspace_id record = (\<lambda>(st, outcome).
     if dget record ''status'' \<notin> {PStr ''running'', PStr ''unknown''} then Inr (st, outcome)
     else
       let outcome = outcome\<lparr>ro_checked := ro_checked outcome + 1\<rparr>;
           kind = gets record ''resource_kind''; ident = gets record ''resource_id'';
           (rstatus, summary) = resource_status subagents jobs workspace_id kind ident in
       if kind = [] \<or> ident = [] then Inr (st, outcome\<lparr>ro_pending := ro_pending outcome + 1\<rparr>)
       else if rstatus \<notin> {''succeeded'', ''failed'', ''cancelled'', ''canceled''}
       then Inr (st, outcome\<lparr>ro_pending := ro_pending outcome + 1\<rparr>)
       else
         rbind (case map_of record ''operation_id'' of None \<Rightarrow> Inl (KeyError ''operation_id'') | Some v \<Rightarrow> Inr (py_str v)) (\<lambda>op_id.
         rbind (settle_operation redact now workspace_id op_id (reconcile_settlement kind ident rstatus summary) st) (\<lambda>(st', _).
         Inr (st', outcome\<lparr>ro_resolved := ro_resolved outcome + 1\<rparr>))))"

definition reconcile_operations ::
  "resource_lookup \<Rightarrow> resource_lookup \<Rightarrow> (string \<Rightarrow> string) \<Rightarrow> string \<Rightarrow> string \<Rightarrow> ledger \<Rightarrow>
   (ledger \<times> reconcile_outcome) res" where
  "reconcile_operations subagents jobs redact now workspace_id st =
     rfold (reconcile_one subagents jobs redact now workspace_id)
       (list_operations redact workspace_id [] 5000 st)
       (st, \<lparr>ro_checked = 0, ro_resolved = 0, ro_pending = 0\<rparr>)"

section \<open>The ledger as a status machine\<close>

text \<open>A history of the ledger is a sequence of locked sections; manual resolution and reconciliation
  are settlements. A section that raises leaves the store as it was.\<close>

datatype ledger_op =
    Plan op_ctx string string pydict
  | Start string string
  | Finish string string tool_result
  | Link string string string string
  | Settle string string settlement

fun exec_ledger_op ::
  "(string \<Rightarrow> string) \<Rightarrow> (string \<Rightarrow> string) \<Rightarrow> string \<Rightarrow> ledger_op \<Rightarrow> ledger \<Rightarrow> (ledger \<times> pydict option) res" where
  "exec_ledger_op sha256 redact now (Plan ctx tool_id call_id arguments) st =
     rbind (plan_operation sha256 now ctx tool_id call_id arguments st) (\<lambda>(st', r). Inr (st', Some r))"
| "exec_ledger_op sha256 redact now (Start ws op_id) st =
     rbind (start_operation now ws op_id st) (\<lambda>(st', r). Inr (st', Some r))"
| "exec_ledger_op sha256 redact now (Finish ws op_id result) st =
     rbind (finish_operation redact now ws op_id result st) (\<lambda>(st', r). Inr (st', Some r))"
| "exec_ledger_op sha256 redact now (Link ws op_id kind ident) st =
     link_operation_resource now ws op_id kind ident st"
| "exec_ledger_op sha256 redact now (Settle ws op_id a) st =
     rbind (settle_operation redact now ws op_id a st) (\<lambda>(st', r). Inr (st', Some r))"

definition ledger_step ::
  "(string \<Rightarrow> string) \<Rightarrow> (string \<Rightarrow> string) \<Rightarrow> string \<times> ledger_op \<Rightarrow> ledger \<Rightarrow> ledger" where
  "ledger_step sha256 redact = (\<lambda>(now, op) st.
     (case exec_ledger_op sha256 redact now op st of Inl _ \<Rightarrow> st | Inr (st', _) \<Rightarrow> st'))"

text \<open>The outcome that a record reports, and the only changes of it that a section can make.\<close>

definition op_outcome :: "pydict \<Rightarrow> string \<times> string \<times> string \<times> string \<times> string" where
  "op_outcome r =
     (gets r ''status'', gets r ''error_code'', gets r ''error'', gets r ''result_summary'', gets r ''finished_at'')"

definition op_allowed :: "string \<Rightarrow> string \<Rightarrow> bool" where
  "op_allowed s t \<longleftrightarrow>
     s = ''planned'' \<and> t = ''running'' \<or>
     s \<in> {''planned'', ''running'', ''unknown''} \<and> s \<noteq> t \<and>
       t \<in> {''unknown'', ''succeeded'', ''failed'', ''blocked'', ''reconciled''}"

abbreviation outcome_allowed ::
  "string \<times> string \<times> string \<times> string \<times> string \<Rightarrow> string \<times> string \<times> string \<times> string \<times> string \<Rightarrow> bool" where
  "outcome_allowed o1 o2 \<equiv> op_allowed (fst o1) (fst o2)"

lemma plan_operation_Inr:
  assumes "plan_operation sha256 now ctx tool_id call_id arguments st = Inr (st', r)"
  shows "let k = (oc_workspace_id ctx, operation_id sha256 (oc_workspace_id ctx) (oc_request_id ctx) call_id)
         in st_get st' k = Some r \<and> (st_get st k = Some r \<and> st' = st \<or> st_get st k = None \<and> st' = st_put k r st)"
  using assms
  by (auto simp: plan_operation_def ledger_path_def validate_workspace_id_def Let_def split: option.splits if_splits)

text \<open>One law per section: what it writes, it may write.\<close>

lemma start_section_outcome:
  "start_section now r = Inr (Some w, a) \<Longrightarrow> outcome_allowed (op_outcome r) (op_outcome w)"
  by (auto simp: start_section_def op_outcome_def op_allowed_def pysimps Let_def
      dest!: gets_eq_of_dget split: if_splits)

lemma result_status_cases:
  "result_status result out \<in> {''unknown'', ''blocked'', ''succeeded'', ''failed''}"
  by (simp add: result_status_def)

lemma finish_section_Some:
  assumes "finish_section redact now result r = Inr (Some w, a)"
  obtains out where "py_or (tr_output result) (PDict []) = PDict out"
    "gets r ''status'' \<in> {''planned'', ''running'', ''unknown''}"
    "gets w ''status'' = result_status result out" "gets w ''status'' \<noteq> gets r ''status''"
proof -
  from assms have s: "dget r ''status'' \<in> {PStr ''planned'', PStr ''running'', PStr ''unknown''}"
    by (auto simp: finish_section_def split: if_splits)
  then have g: "gets r ''status'' \<in> {''planned'', ''running'', ''unknown''}"
    and d: "dget r ''status'' = PStr (gets r ''status'')"
    by (auto simp: gets_eq_of_dget)
  from assms s obtain out where out: "py_or (tr_output result) (PDict []) = PDict out"
    and ne: "\<not> (gets r ''status'' = ''unknown'' \<and> result_status result out = ''unknown'')"
    and w: "gets w ''status'' = result_status result out"
    by (auto simp: finish_section_def Let_def pysimps result_status_def d split: if_splits pyval.splits)
  from g ne w result_status_cases [of result out] have "gets w ''status'' \<noteq> gets r ''status''" by auto
  with that out g w show ?thesis by blast
qed

lemma finish_section_outcome:
  "finish_section redact now result r = Inr (Some w, a) \<Longrightarrow> outcome_allowed (op_outcome r) (op_outcome w)"
  by (erule finish_section_Some)
    (use result_status_cases in \<open>fastforce simp: op_outcome_def op_allowed_def\<close>)

lemma link_section_outcome:
  "link_section now kind ident r = Inr (Some w, a) \<Longrightarrow> op_outcome w = op_outcome r"
  by (auto simp: link_section_def Let_def op_outcome_def pysimps split: if_splits)

lemma settled_record_status [simp]:
  "sm_status a \<noteq> [] \<Longrightarrow> gets (settled_record redact now a record) ''status'' = sm_status a"
  by (simp add: settled_record_def Let_def pysimps)

lemma settle_section_outcome:
  "settle_section redact now a r = Inr (Some w, b) \<Longrightarrow>
   sm_status a \<in> {''succeeded'', ''failed'', ''blocked'', ''reconciled''} \<Longrightarrow>
     outcome_allowed (op_outcome r) (op_outcome w)"
  by (auto simp: settle_section_def Let_def op_outcome_def op_allowed_def split: if_splits)

lemmas with_record_outcome = with_record_status [where f = op_outcome and R = outcome_allowed]

lemma start_operation_outcome:
  assumes "start_operation now ws op_id st = Inr (st', a)" and "st_get st k = Some r"
  shows "\<exists>r'. st_get st' k = Some r' \<and> (op_outcome r' = op_outcome r \<or> outcome_allowed (op_outcome r) (op_outcome r'))"
  using assms
  by (auto simp: start_operation_def intro: with_record_outcome start_section_outcome)

lemma finish_operation_outcome:
  assumes "finish_operation redact now ws op_id result st = Inr (st', a)" and "st_get st k = Some r"
  shows "\<exists>r'. st_get st' k = Some r' \<and> (op_outcome r' = op_outcome r \<or> outcome_allowed (op_outcome r) (op_outcome r'))"
  using assms
  by (auto simp: finish_operation_def intro: with_record_outcome finish_section_outcome)

lemma settle_operation_outcome:
  assumes "settle_operation redact now ws op_id a st = Inr (st', b)" and "st_get st k = Some r"
  shows "\<exists>r'. st_get st' k = Some r' \<and> (op_outcome r' = op_outcome r \<or> outcome_allowed (op_outcome r) (op_outcome r'))"
proof -
  from assms(1) obtain path where "with_record (FileNotFoundError op_id) path (settle_section redact now a) st = Inr (st', b)"
    and "sm_status a \<in> {''succeeded'', ''failed'', ''blocked'', ''reconciled''}"
    by (auto simp: settle_operation_def)
  then show ?thesis
    by (auto intro: with_record_outcome [OF _ _ assms(2)] settle_section_outcome)
qed

lemma link_operation_outcome:
  assumes "link_operation_resource now ws op_id kind ident st = Inr (st', a)" and "st_get st k = Some r"
  shows "\<exists>r'. st_get st' k = Some r' \<and> op_outcome r' = op_outcome r"
proof (cases "st' = st")
  case True
  with assms(2) show ?thesis by simp
next
  case False
  with assms(1) obtain path where
    w: "with_record (FileNotFoundError op_id) path (link_section now (py_lower (py_strip kind)) (py_strip ident)) st = Inr (st', a)"
    by (auto simp: link_operation_resource_def Let_def split: if_splits option.splits)
  from with_record_status [OF w, of "\<lambda>x y. y = x" op_outcome, OF _ assms(2)] show ?thesis
    by (auto dest: link_section_outcome)
qed

lemmas section_outcomes =
  start_operation_outcome finish_operation_outcome settle_operation_outcome

interpretation ledger: status_machine
  "\<lambda>st k. map_option op_outcome (st_get st k)" "ledger_step sha256 redact" outcome_allowed
  for sha256 redact :: "string \<Rightarrow> string"
proof
  fix st :: ledger and k oc and nop :: "string \<times> ledger_op"
  obtain now op where nop: "nop = (now, op)" by (cases nop)
  assume "map_option op_outcome (st_get st k) = Some oc"
  then obtain r where r: "st_get st k = Some r" and oc: "oc = op_outcome r" by auto
  have "\<exists>r'. st_get (ledger_step sha256 redact nop st) k = Some r' \<and>
          (op_outcome r' = op_outcome r \<or> outcome_allowed (op_outcome r) (op_outcome r'))"
  proof (cases "exec_ledger_op sha256 redact now op st")
    case (Inl e)
    with r show ?thesis by (simp add: ledger_step_def nop)
  next
    case (Inr p)
    obtain st' a where p: "p = (st', a)" by (cases p)
    have step: "ledger_step sha256 redact nop st = st'" by (simp add: ledger_step_def nop Inr p)
    show ?thesis
    proof (cases op)
      case (Plan ctx tool_id call_id arguments)
      with Inr p obtain r0 where "plan_operation sha256 now ctx tool_id call_id arguments st = Inr (st', r0)"
        by auto
      from plan_operation_Inr [OF this] r show ?thesis by (auto simp: step Let_def)
    next
      case (Link ws op_id kind ident)
      with Inr p link_operation_outcome [OF _ r] show ?thesis by (fastforce simp: step)
    qed (use Inr p section_outcomes [OF _ r] in \<open>auto simp: step\<close>)
  qed
  then obtain r' where "st_get (ledger_step sha256 redact nop st) k = Some r'"
    "op_outcome r' = op_outcome r \<or> outcome_allowed (op_outcome r) (op_outcome r')" by blast
  then show "\<exists>oc'. map_option op_outcome (st_get (ledger_step sha256 redact nop st) k) = Some oc' \<and>
      (oc' = oc \<or> outcome_allowed oc oc')"
    by (intro exI [of _ "op_outcome r'"]) (simp add: oc)
qed

section \<open>Properties of the ledger\<close>

definition settled_statuses :: "string set" where
  "settled_statuses = {''succeeded'', ''failed'', ''blocked'', ''reconciled''}"

lemma settled_terminal: "s \<in> settled_statuses \<Longrightarrow> \<not> op_allowed s t"
  by (auto simp: op_allowed_def settled_statuses_def)

text \<open>C2: Once an operation has succeeded, failed, was blocked or was reconciled, no sequence of ledger
  operations (planning it again, starting, finishing, linking or settling it, at any times, for any
  workspace) changes its recorded outcome: status, error code, error, summary and finish time stay.\<close>

theorem settled_operation_is_final:
  assumes "st_get st k = Some r" and "gets r ''status'' \<in> settled_statuses"
  shows "\<exists>r'. st_get (fold (ledger_step sha256 redact) ops st) k = Some r' \<and> op_outcome r' = op_outcome r"
proof -
  have "\<not> outcome_allowed (op_outcome r) oc" for oc
    using assms(2) by (intro settled_terminal) (simp add: op_outcome_def)
  from ledger.terminal_is_final [OF _ this, of st k sha256 redact ops] assms(1) show ?thesis
    by auto
qed

theorem settled_operation_is_final_witness:
  "\<exists>r'. st_get (fold (ledger_step (\<lambda>s. s) (\<lambda>s. s))
       [(''t'', Start ''w'' ''x''), (''t'', Settle ''w'' ''x'' undefined)]
       [((''w'', ''x''), [(''status'', PStr ''failed'')])]) (''w'', ''x'') = Some r'
     \<and> op_outcome r' = op_outcome [(''status'', PStr ''failed'')]"
  by (rule settled_operation_is_final)
    (simp_all add: st_get_def settled_statuses_def gets_def gets_or_def py_or_def)

text \<open>Planning is idempotent over the whole life of an operation: whatever happened to the record
  since it was planned, planning the same call of the same turn again (even with other arguments)
  returns the record as it stands and writes nothing, so progress is never reset.\<close>

theorem plan_operation_idempotent:
  assumes "plan_operation sha256 now ctx tool_id call_id arguments st = Inr (st1, r1)"
    and "st2 = fold (ledger_step sha256 redact) ops st1"
  shows "\<exists>r2. plan_operation sha256 now' ctx tool_id' call_id arguments' st2 = Inr (st2, r2)
    \<and> st_get st2 (oc_workspace_id ctx, operation_id sha256 (oc_workspace_id ctx) (oc_request_id ctx) call_id) = Some r2"
proof -
  let ?k = "(oc_workspace_id ctx, operation_id sha256 (oc_workspace_id ctx) (oc_request_id ctx) call_id)"
  from assms(1) have path: "ledger_path (oc_workspace_id ctx) (snd ?k) = Inr ?k"
    by (auto simp: plan_operation_def ledger_path_def validate_workspace_id_def Let_def split: if_splits)
  from plan_operation_Inr [OF assms(1)] have "st_get st1 ?k = Some r1" by (simp add: Let_def)
  then have "map_option op_outcome (st_get st1 ?k) = Some (op_outcome r1)" by simp
  from ledger.run_follows_transitions [OF this, of sha256 redact ops] assms(2)
  obtain r2 where "st_get st2 ?k = Some r2" by auto
  with path show ?thesis by (simp add: plan_operation_def Let_def)
qed

theorem plan_operation_idempotent_witness:
  "\<exists>st1 r1 r2. let sha = (\<lambda>_. replicate 64 (CHR ''0''));
       ctx = \<lparr>oc_workspace_id = ''w'', oc_request_id = ''t'', oc_session_id = ''s'', oc_extras = []\<rparr>;
       op = operation_id sha ''w'' ''t'' ''c'';
       st2 = fold (ledger_step sha (\<lambda>s. s)) [(''1'', Start ''w'' op)] st1 in
     plan_operation sha ''0'' ctx ''tool'' ''c'' [] [] = Inr (st1, r1) \<and>
     plan_operation sha ''2'' ctx ''tool'' ''c'' [(''x'', PInt 1)] st2 = Inr (st2, r2)"
proof -
  define sha where "sha = (\<lambda>_ :: string. replicate 64 (CHR ''0''))"
  define ctx where "ctx = \<lparr>oc_workspace_id = ''w'', oc_request_id = ''t'', oc_session_id = ''s'', oc_extras = []\<rparr>"
  have "\<exists>st1 r1. plan_operation sha ''0'' ctx ''tool'' ''c'' [] [] = Inr (st1, r1)"
    unfolding sha_def ctx_def
    by (simp add: plan_operation_def ledger_path_def operation_id_def validate_workspace_id_def
        OPERATION_ID_RE_def WORKSPACE_ID_RE_def is_hex_lower_def is_alnum_def is_alpha_def st_get_def
        numeral_eq_Suc Let_def)
  then obtain st1 r1 where p: "plan_operation sha ''0'' ctx ''tool'' ''c'' [] [] = Inr (st1, r1)" by blast
  from plan_operation_idempotent [OF p refl, where redact = "\<lambda>s. s"
      and ops = "[(''1'', Start ''w'' (operation_id sha ''w'' ''t'' ''c''))]"
      and now' = "''2''" and tool_id' = "''tool''" and arguments' = "[(''x'', PInt 1)]"] p
  show ?thesis unfolding Let_def sha_def ctx_def by blast
qed

text \<open>The workspace that an operation addresses.\<close>

fun op_workspace :: "ledger_op \<Rightarrow> string" where
  "op_workspace (Plan ctx _ _ _) = oc_workspace_id ctx"
| "op_workspace (Start ws _) = ws"
| "op_workspace (Finish ws _ _) = ws"
| "op_workspace (Link ws _ _ _) = ws"
| "op_workspace (Settle ws _ _) = ws"

lemma ledger_path_workspace: "ledger_path ws op_id = Inr k \<Longrightarrow> k = (ws, op_id)"
  by (auto simp: ledger_path_def validate_workspace_id_def split: if_splits)

lemma ledger_step_frame:
  assumes "fst k \<noteq> op_workspace op"
  shows "st_get (ledger_step sha256 redact (now, op) st) k = st_get st k"
proof (cases "exec_ledger_op sha256 redact now op st")
  case (Inl e)
  then show ?thesis by (simp add: ledger_step_def)
next
  case (Inr p)
  obtain st' a where p: "p = (st', a)" by (cases p)
  have "st_get st' k = st_get st k"
  proof (cases op)
    case (Plan ctx tool_id call_id arguments)
    with Inr p obtain r0 where "plan_operation sha256 now ctx tool_id call_id arguments st = Inr (st', r0)"
      by auto
    from plan_operation_Inr [OF this] assms Plan show ?thesis by (auto simp: Let_def)
  qed (use Inr p assms in \<open>auto simp: start_operation_def finish_operation_def settle_operation_def
        link_operation_resource_def Let_def dest!: ledger_path_workspace
        dest: with_record_frame [where k' = k] split: if_splits option.splits\<close>)
  then show ?thesis by (simp add: ledger_step_def Inr p)
qed

text \<open>Workspaces are isolated in the ledger: a history that never addresses a workspace leaves
  every record of that workspace exactly as it was.\<close>

theorem ledger_workspace_isolation:
  assumes "\<forall>(now, op) \<in> set ops. op_workspace op \<noteq> fst k"
  shows "st_get (fold (ledger_step sha256 redact) ops st) k = st_get st k"
  using assms
proof (induction ops arbitrary: st)
  case Nil
  then show ?case by simp
next
  case (Cons nop ops)
  obtain now op where nop: "nop = (now, op)" by (cases nop)
  with Cons have "st_get (ledger_step sha256 redact nop st) k = st_get st k"
    by (auto intro: ledger_step_frame)
  with Cons show ?case by simp
qed

theorem ledger_workspace_isolation_witness:
  "st_get (fold (ledger_step (\<lambda>s. s) (\<lambda>s. s)) [(''t'', Start ''other'' ''x'')]
      [((''w'', ''x''), [])]) (''w'', ''x'') = Some []"
  using ledger_workspace_isolation [of "[(''t'', Start ''other'' ''x'')]" "(''w'', ''x'')" "\<lambda>s. s" "\<lambda>s. s"
      "[((''w'', ''x''), [])]"]
  by (simp add: st_get_def)

text \<open>A resource link is written once: after an operation was linked to a resource, linking it to
  any other resource raises \<open>operation_resource_conflict\<close>, and linking it to the same resource
  again succeeds and keeps the link.\<close>

theorem link_is_write_once:
  assumes "link_operation_resource now ws op_id kind ident st = Inr (st1, Some r)"
    and "py_strip kind' \<noteq> []" and "py_strip ident' \<noteq> []"
  shows "if py_lower (py_strip kind') = py_lower (py_strip kind) \<and> py_strip ident' = py_strip ident
         then (\<exists>st2 r2. link_operation_resource now' ws op_id kind' ident' st1 = Inr (st2, Some r2)
                 \<and> gets r2 ''resource_kind'' = gets r ''resource_kind'' \<and> gets r2 ''resource_id'' = gets r ''resource_id'')
         else link_operation_resource now' ws op_id kind' ident' st1
                = Inl (RuntimeError ''operation_resource_conflict'')"
proof -
  let ?K = "py_lower (py_strip kind)" and ?I = "py_strip ident"
  from assms(1) have ne: "?K \<noteq> []" "?I \<noteq> []" and path: "ledger_path ws op_id = Inr (ws, op_id)"
    by (auto simp: link_operation_resource_def Let_def dest: ledger_path_workspace split: if_splits)
  from assms(1) ne path have "with_record (FileNotFoundError op_id) (ws, op_id) (link_section now ?K ?I) st = Inr (st1, Some r)"
    by (simp add: link_operation_resource_def Let_def split: option.splits)
  then obtain r0 w where w: "link_section now ?K ?I r0 = Inr (w, Some r)"
    and st1': "st1 = (case w of None \<Rightarrow> st | Some r' \<Rightarrow> st_put (ws, op_id) r' st)"
    by (rule with_record_Inr)
  from w have wr: "w = Some r"
    and r: "r = dupdate r0 [(''resource_kind'', PStr ?K), (''resource_id'', PStr ?I), (''updated_at'', PStr now)]"
    by (auto simp: link_section_def Let_def split: if_splits)
  from st1' wr have st1: "st_get st1 (ws, op_id) = Some r" by simp
  have g: "gets r ''resource_kind'' = ?K" "gets r ''resource_id'' = ?I"
    using ne by (simp_all add: r pysimps)
  have "py_lower (py_strip kind') \<noteq> []" using assms(2) by (simp add: py_lower_def)
  with assms(3) path st1 have "link_operation_resource now' ws op_id kind' ident' st1 =
      rbind (link_section now' (py_lower (py_strip kind')) (py_strip ident') r) (\<lambda>(w, a).
        Inr (case w of None \<Rightarrow> st1 | Some r' \<Rightarrow> st_put (ws, op_id) r' st1, a))"
    by (simp add: link_operation_resource_def with_record_def Let_def)
  moreover have "link_section now' K I r =
      (if K = ?K \<and> I = ?I
       then let r2 = dupdate r [(''resource_kind'', PStr K), (''resource_id'', PStr I), (''updated_at'', PStr now')]
            in Inr (Some r2, Some r2)
       else Inl (RuntimeError ''operation_resource_conflict''))" for K I
    using ne by (auto simp: link_section_def g Let_def)
  ultimately show ?thesis using ne by (simp add: g Let_def pysimps)
qed

theorem link_is_write_once_witness:
  "link_operation_resource ''2'' ''w'' (''op_'' @ replicate 24 (CHR ''a'')) ''job'' ''j2''
     [((''w'', ''op_'' @ replicate 24 (CHR ''a'')),
        [(''resource_kind'', PStr ''job''), (''resource_id'', PStr ''j1''), (''updated_at'', PStr ''1'')])]
     = Inl (RuntimeError ''operation_resource_conflict'')"
proof -
  have l: "link_operation_resource ''1'' ''w'' (''op_'' @ replicate 24 (CHR ''a'')) ''Job'' '' j1''
     [((''w'', ''op_'' @ replicate 24 (CHR ''a'')), [])] =
     Inr ([((''w'', ''op_'' @ replicate 24 (CHR ''a'')),
        [(''resource_kind'', PStr ''job''), (''resource_id'', PStr ''j1''), (''updated_at'', PStr ''1'')])],
       Some [(''resource_kind'', PStr ''job''), (''resource_id'', PStr ''j1''), (''updated_at'', PStr ''1'')])"
    by code_simp
  have "py_strip ''job'' = ''job''" "py_strip ''j2'' = ''j2''" "py_strip '' j1'' = ''j1''" by code_simp+
  with link_is_write_once [OF l, of "''job''" "''j2''" "''2''"] show ?thesis by simp
qed

section \<open>Reconciliation\<close>

lemma settle_operation_Inr:
  assumes "settle_operation redact now ws op_id a st = Inr (st', b)"
  obtains r where "st_get st (ws, op_id) = Some r"
    "gets r ''status'' \<in> {''succeeded'', ''failed'', ''blocked''} \<and> st' = st \<or>
     gets r ''status'' \<in> {''planned'', ''running'', ''unknown''} \<and>
       st' = st_put (ws, op_id) (settled_record redact now a r) st"
  using assms
  by (auto simp: settle_operation_def dest!: ledger_path_workspace elim!: with_record_Inr)
    (auto simp: settle_section_def Let_def split: if_splits)

text \<open>A record that reconciliation changed: it was unresolved, and it now carries a positive or
  negative outcome that is attributed to the durable resource.\<close>

definition reconciled_from :: "pydict option \<Rightarrow> pydict option \<Rightarrow> bool" where
  "reconciled_from before after \<longleftrightarrow>
     (\<exists>r r'. before = Some r \<and> after = Some r' \<and> gets r ''status'' \<in> {''planned'', ''running'', ''unknown''}
        \<and> gets r' ''status'' \<in> {''succeeded'', ''failed''} \<and> gets r' ''resolved_by'' = ''durable_resource'')"

lemma settled_record_resolved_by:
  "sm_resolved_by a = ''durable_resource'' \<Longrightarrow>
     gets (settled_record redact now a record) ''resolved_by'' = ''durable_resource''"
  by (simp add: settled_record_def Let_def pysimps)

lemma reconcile_one_cases:
  assumes "reconcile_one subagents jobs redact now ws rc (st1, o1) = Inr (st2, o2)"
  obtains (skipped) "st2 = st1" "o2 = o1"
  | (pending) "st2 = st1" "o2 = o1\<lparr>ro_checked := ro_checked o1 + 1, ro_pending := ro_pending o1 + 1\<rparr>"
  | (resolved) op_id a b where "o2 = o1\<lparr>ro_checked := ro_checked o1 + 1, ro_resolved := ro_resolved o1 + 1\<rparr>"
      "settle_operation redact now ws op_id a st1 = Inr (st2, b)"
      "sm_status a \<in> {''succeeded'', ''failed''}" "sm_resolved_by a = ''durable_resource''"
proof -
  let ?kind = "gets rc ''resource_kind''" and ?ident = "gets rc ''resource_id''"
  obtain rs sm where rsm: "resource_status subagents jobs ws ?kind ?ident = (rs, sm)"
    by (cases "resource_status subagents jobs ws ?kind ?ident")
  note step = assms [unfolded reconcile_one_def Let_def rsm prod.case]
  show ?thesis
  proof (cases "dget rc ''status'' \<notin> {PStr ''running'', PStr ''unknown''}")
    case True
    with step show ?thesis by (intro skipped) simp_all
  next
    case c1: False
    show ?thesis
    proof (cases "?kind = [] \<or> ?ident = [] \<or> rs \<notin> {''succeeded'', ''failed'', ''cancelled'', ''canceled''}")
      case True
      with c1 step show ?thesis by (intro pending) (auto split: if_splits)
    next
      case False
      with c1 step obtain op_id b where
        "settle_operation redact now ws op_id (reconcile_settlement ?kind ?ident rs sm) st1 = Inr (st2, b)"
        "o2 = o1\<lparr>ro_checked := ro_checked o1 + 1, ro_resolved := ro_resolved o1 + 1\<rparr>"
        by (auto split: option.splits if_splits)
      moreover have "sm_status (reconcile_settlement ?kind ?ident rs sm) \<in> {''succeeded'', ''failed''}"
        "sm_resolved_by (reconcile_settlement ?kind ?ident rs sm) = ''durable_resource''"
        by (simp_all add: reconcile_settlement_def)
      ultimately show ?thesis by (intro resolved) auto
    qed
  qed
qed

text \<open>Reconciliation counts every uncertain operation that it looks at as either resolved or
  pending, and the only records it changes are unresolved records of its own workspace, which end
  as succeeded or failed with the durable resource named as the source of the resolution.\<close>

theorem reconcile_operations_correct:
  assumes "reconcile_operations subagents jobs redact now ws st = Inr (st', outcome)"
  shows "ro_checked outcome = ro_resolved outcome + ro_pending outcome
    \<and> (\<forall>k. st_get st' k = st_get st k \<or> fst k = ws \<and> reconciled_from (st_get st k) (st_get st' k))"
proof -
  let ?P = "\<lambda>(st1, o1). ro_checked o1 = ro_resolved o1 + ro_pending o1
      \<and> (\<forall>k. st_get st1 k = st_get st k \<or> fst k = ws \<and> reconciled_from (st_get st k) (st_get st1 k))"
  have "?P (st', outcome)"
  proof (rule rfold_invariant [where P = ?P, OF assms [unfolded reconcile_operations_def]])
    show "?P (st, \<lparr>ro_checked = 0, ro_resolved = 0, ro_pending = 0\<rparr>)" by simp
  next
    fix rc s1 s2
    assume P: "?P s1" and step: "reconcile_one subagents jobs redact now ws rc s1 = Inr s2"
    obtain st1 o1 where s1: "s1 = (st1, o1)" by (cases s1)
    obtain st2 o2 where s2: "s2 = (st2, o2)" by (cases s2)
    have Pk: "st_get st1 k = st_get st k \<or> fst k = ws \<and> reconciled_from (st_get st k) (st_get st1 k)" for k
      using P unfolding s1 prod.case by blast
    from step [unfolded s1 s2] show "?P s2"
    proof (cases rule: reconcile_one_cases)
      case (resolved op_id a b)
      note c = resolved(1) and settle = resolved(2) and a = resolved(3,4)
      from settle obtain r where r: "st_get st1 (ws, op_id) = Some r"
        and upd: "gets r ''status'' \<in> {''succeeded'', ''failed'', ''blocked''} \<and> st2 = st1 \<or>
           gets r ''status'' \<in> {''planned'', ''running'', ''unknown''} \<and>
             st2 = st_put (ws, op_id) (settled_record redact now a r) st1"
        by (rule settle_operation_Inr)
      have new: "gets (settled_record redact now a r) ''status'' \<in> {''succeeded'', ''failed''}"
        using a(1) by auto
      have "st_get st2 k = st_get st k \<or> fst k = ws \<and> reconciled_from (st_get st k) (st_get st2 k)" for k
      proof (cases "st2 = st1 \<or> k \<noteq> (ws, op_id)")
        case True
        with Pk [of k] upd show ?thesis by auto
      next
        case False
        with upd have st: "gets r ''status'' \<in> {''planned'', ''running'', ''unknown''}" "k = (ws, op_id)"
          and k: "st_get st2 k = Some (settled_record redact now a r)" by auto
        from Pk [of k] st r have "st_get st k = Some r" by (auto simp: reconciled_from_def)
        with st k new settled_record_resolved_by [OF a(2)] show ?thesis
          by (auto simp: reconciled_from_def)
      qed
      then have "\<forall>k. st_get st2 k = st_get st k \<or> fst k = ws \<and> reconciled_from (st_get st k) (st_get st2 k)"
        by blast
      with P c show ?thesis by (simp add: s1 s2 del: split_paired_All)
    qed (use P in \<open>simp_all add: s1 s2\<close>)
  qed
  then show ?thesis by simp
qed

theorem reconcile_operations_correct_witness:
  "\<exists>st'. reconcile_operations (\<lambda>_ _. None) (\<lambda>_ j. if j = ''j1'' then Some (''succeeded'', ''done'') else None)
      (\<lambda>s. s) ''2'' ''w''
      [((''w'', ''op_'' @ replicate 24 (CHR ''a'')),
        [(''operation_id'', PStr (''op_'' @ replicate 24 (CHR ''a''))), (''status'', PStr ''unknown''),
         (''resource_kind'', PStr ''job''), (''resource_id'', PStr ''j1'')])]
      = Inr (st', \<lparr>ro_checked = 1, ro_resolved = 1, ro_pending = 0\<rparr>)
    \<and> st_get st' (''v'', ''x'') = None"
proof -
  let ?st = "[((''w'', ''op_'' @ replicate 24 (CHR ''a'')),
        [(''operation_id'', PStr (''op_'' @ replicate 24 (CHR ''a''))), (''status'', PStr ''unknown''),
         (''resource_kind'', PStr ''job''), (''resource_id'', PStr ''j1'')])]"
  let ?r = "reconcile_operations (\<lambda>_ _. None) (\<lambda>_ j. if j = ''j1'' then Some (''succeeded'', ''done'') else None)
      (\<lambda>s. s) ''2'' ''w'' ?st"
  have run: "map_sum id snd ?r = Inr \<lparr>ro_checked = 1, ro_resolved = 1, ro_pending = 0\<rparr>" by code_simp
  then obtain st' where r: "?r = Inr (st', \<lparr>ro_checked = 1, ro_resolved = 1, ro_pending = 0\<rparr>)"
    by (cases ?r) auto
  have old: "st_get ?st (''v'', ''x'') = None" by code_simp
  from reconcile_operations_correct [OF r, THEN conjunct2, rule_format, of "(''v'', ''x'')"]
  have "st_get st' (''v'', ''x'') = None" unfolding old by simp
  with r show ?thesis by blast
qed

section \<open>The public projection\<close>

lemma dget_public_fields:
  "dget (map (\<lambda>k. (k, dget r k)) (filter (\<lambda>k. din k r) ks)) k = (if k \<in> set ks then dget r k else PNone)"
  by (induction ks) (auto simp: dget_def din_def split: option.splits)

text \<open>The projection that the API returns never carries the digest of the arguments or any field
  outside the documented list; the listed fields are passed through, and the two free texts are
  redacted before they are cut to their bounds.\<close>

theorem public_projection_hides:
  "dget (public_operation_record redact r) k =
     (if k = ''error'' then PStr (take 500 (redact (gets r ''error'')))
      else if k = ''result_summary'' then PStr (take 800 (redact (gets r ''result_summary'')))
      else if k \<in> set public_fields then dget r k else PNone)
   \<and> ''arguments_sha256'' \<notin> set public_fields"
proof -
  have "''arguments_sha256'' \<notin> set public_fields" by code_simp
  then show ?thesis by (simp add: public_operation_record_def dget_public_fields pysimps)
qed

end
