(* ===== verification/Job_Manager.thy ===== *)
theory Job_Manager
  imports Job_Store Operation_Ledger
begin

text \<open>
  The job manager (\<open>jobs/manager.py\<close>): the transition table and the lifecycle operations on top of
  \<open>jobs/store.py\<close>. An operation reads the job, checks the transition and then updates the job in a
  second, locked section; \<open>mark_succeeded\<close> and the others are the sequential composition of the
  two, and their second halves are definitions of their own, so that an interleaving can be stated.

  The queue is the filesystem queue, the default, whose \<open>enqueue\<close> writes nothing. Metrics are left
  out. Parameters: \<open>now\<close>, and the id of a new job.
\<close>

section \<open>The transition table\<close>

definition ALLOWED_TRANSITIONS :: "(string \<times> string list) list" where
  "ALLOWED_TRANSITIONS =
     [(''created'', [''queued'', ''cancelled'']),
      (''queued'', [''running'', ''cancelled'', ''failed'']),
      (''running'', [''succeeded'', ''failed'', ''cancelled'', ''paused'']),
      (''paused'', [''running'', ''cancelled'', ''failed'']),
      (''failed'', [''queued'', ''running'', ''cancelled'']),
      (''succeeded'', [''running'']),
      (''cancelled'', [''running''])]"

definition PLANNED_TRANSITIONS :: "(string \<times> string list) list" where
  "PLANNED_TRANSITIONS = [(''created'', [''running''])]"

definition targets_of :: "(string \<times> string list) list \<Rightarrow> string \<Rightarrow> string list" where
  "targets_of table current = (case map_of table current of None \<Rightarrow> [] | Some ts \<Rightarrow> ts)"

definition job_allowed :: "string \<Rightarrow> string \<Rightarrow> bool" where
  "job_allowed current target \<longleftrightarrow>
     target \<in> set (targets_of ALLOWED_TRANSITIONS current) \<union> set (targets_of PLANNED_TRANSITIONS current)"

text \<open>The arrow in the message, in UTF-8.\<close>

definition arrow :: string where
  "arrow = [CHR '' '', CHR 0xE2, CHR 0x86, CHR 0x92, CHR '' '']"

definition check_transition :: "string \<Rightarrow> string \<Rightarrow> unit res" where
  "check_transition current target =
     rguard (current = target \<or> job_allowed current target)
       (ValueError (''invalid_transition: '' @ current @ arrow @ target))"

section \<open>Operations\<close>

definition emit :: "string \<Rightarrow> string \<Rightarrow> string \<Rightarrow> string \<Rightarrow> string \<Rightarrow> job_db \<Rightarrow> job_db res" where
  "emit now ws_id job_id event_type message = append_event ws_id job_id (JobEvent now ws_id job_id event_type message)"

definition not_found :: py_error where
  "not_found = ValueError ''job not found''"

text \<open>\<open>update_job\<close> and, when the job exists, the event.\<close>

definition update_and_emit ::
  "string \<Rightarrow> string \<Rightarrow> string \<Rightarrow> pydict \<Rightarrow> string \<Rightarrow> string \<Rightarrow> job_db \<Rightarrow> (job_db \<times> pydict option) res" where
  "update_and_emit now ws_id job_id patch event_type message db =
     rbind (update_job now ws_id job_id patch db) (\<lambda>(db', r).
     if r = None then Inr (db', r)
     else rbind (emit now ws_id job_id event_type message db') (\<lambda>db''. Inr (db'', r)))"

definition transition ::
  "string \<Rightarrow> string \<Rightarrow> string \<Rightarrow> string \<Rightarrow> string \<Rightarrow> string \<Rightarrow> job_db \<Rightarrow> (job_db \<times> pydict option) res" where
  "transition now ws_id job_id target event_type message =
     update_and_emit now ws_id job_id [(''status'', PStr target)] event_type message"

definition enqueue_job :: "string \<Rightarrow> string \<Rightarrow> string \<Rightarrow> job_db \<Rightarrow> (job_db \<times> pydict option) res" where
  "enqueue_job now ws_id job_id db =
     rbind (get_job ws_id job_id db) (\<lambda>found.
     case found of
       None \<Rightarrow> Inl not_found
     | Some rec \<Rightarrow>
         rbind (check_transition (job_status rec) ''queued'') (\<lambda>_.
         transition now ws_id job_id ''queued'' ''job_queued'' ''Job queued'' db))"

text \<open>\<open>create_job\<close>: the new record, the link from the operation that runs it, and the queue.\<close>

definition new_job ::
  "string \<Rightarrow> string \<Rightarrow> string \<Rightarrow> string \<Rightarrow> string \<Rightarrow> pydict \<Rightarrow> pyval list \<Rightarrow> string \<Rightarrow> pydict \<Rightarrow> pydict" where
  "new_job now job_id workspace_id job_type title payload input_artifacts created_by metadata =
     dupdate (JobRecord now job_id)
       [(''workspace_id'', PStr workspace_id), (''job_type'', PStr job_type),
        (''title'', PStr (if title \<noteq> [] then title else job_type @ '' job'')),
        (''payload'', PDict payload), (''input_artifacts'', PList input_artifacts), (''created_by'', PStr created_by),
        (''status'', PStr ''created''), (''metadata'', PDict metadata)]"

definition create_job ::
  "string \<Rightarrow> string \<Rightarrow> (string \<times> string) option \<Rightarrow> string \<Rightarrow> string \<Rightarrow> string \<Rightarrow> pydict \<Rightarrow> pyval list \<Rightarrow> string \<Rightarrow> bool \<Rightarrow> pydict
     \<Rightarrow> job_db \<times> ledger \<Rightarrow> (job_db \<times> ledger \<times> pydict option) res" where
  "create_job now job_id operation workspace_id job_type title payload input_artifacts created_by enqueue metadata = (\<lambda>(db, ops).
     rbind (rguard (job_type \<in> set ENABLED_JOB_TYPES) (ValueError (''unsupported job_type: '' @ job_type))) (\<lambda>_.
     rbind (store_create_job now (new_job now job_id workspace_id job_type title payload input_artifacts created_by metadata) db) (\<lambda>(db', rec).
     let jid = gets rec ''job_id'' in
     rbind (case operation of
              None \<Rightarrow> Inr ops
            | Some (op_ws, op_id) \<Rightarrow>
                if op_ws = workspace_id
                then rbind (link_operation_resource now workspace_id op_id ''job'' jid ops) (\<lambda>(ops', _). Inr ops')
                else Inr ops) (\<lambda>ops'.
     if enqueue then rbind (enqueue_job now workspace_id jid db') (\<lambda>(db'', rec'). Inr (db'', ops', rec'))
     else Inr (db', ops', Some rec)))))"

definition cancel_job ::
  "string \<Rightarrow> string \<Rightarrow> string \<Rightarrow> string \<Rightarrow> job_db \<Rightarrow> (job_db \<times> pydict option) res" where
  "cancel_job now ws_id job_id expected_client_request_id db =
     rbind (get_job ws_id job_id db) (\<lambda>found.
     case found of
       None \<Rightarrow> Inl not_found
     | Some rec \<Rightarrow>
         if job_status rec = ''queued'' then
           rbind (check_transition (job_status rec) ''cancelled'') (\<lambda>_.
           rbind (emit now ws_id job_id ''job_cancelled'' ''Job cancelled from queue'' db) (\<lambda>db'.
           transition now ws_id job_id ''cancelled'' ''job_cancelled'' [] db'))
         else if job_status rec = ''running'' then
           rbind (request_job_cancellation now ws_id job_id expected_client_request_id db) (\<lambda>(db', result, applied).
           let current = as_dict (dget (as_dict (dget (case result of None \<Rightarrow> [] | Some r \<Rightarrow> r) ''metadata'')) ''active_turn'');
               actual = gets current ''client_request_id'';
               status = (case result of None \<Rightarrow> [] | Some r \<Rightarrow> job_status r) in
           if expected_client_request_id \<noteq> [] \<and> \<not> applied \<and> status = ''running'' \<and> actual \<noteq> expected_client_request_id
           then Inl (ValueError ''stale_turn'')
           else if \<not> applied then Inr (db', Some (case result of None \<Rightarrow> rec | Some r \<Rightarrow> r))
           else rbind (emit now ws_id job_id ''job_cancel_requested'' ''Cancel requested'' db') (\<lambda>db''. Inr (db'', result)))
         else Inr (db, Some rec))"

text \<open>An integer field.\<close>

definition geti :: "pydict \<Rightarrow> string \<Rightarrow> int res" where
  "geti r k = (case dget r k of PInt n \<Rightarrow> Inr n | PBool b \<Rightarrow> Inr (if b then 1 else 0) | _ \<Rightarrow> Inl (TypeError k))"

definition retry_job :: "string \<Rightarrow> string \<Rightarrow> string \<Rightarrow> bool \<Rightarrow> job_db \<Rightarrow> (job_db \<times> pydict option) res" where
  "retry_job now ws_id job_id force db =
     rbind (get_job ws_id job_id db) (\<lambda>found.
     case found of
       None \<Rightarrow> Inl not_found
     | Some rec \<Rightarrow>
         rbind (if force then Inr () else check_transition (job_status rec) ''queued'') (\<lambda>_.
         rbind (geti rec ''retry_count'') (\<lambda>retry_count.
         rbind (geti rec ''max_retries'') (\<lambda>max_retries.
         rbind (rguard (retry_count < max_retries) (ValueError ''retry_limit_exceeded'')) (\<lambda>_.
         rbind (update_job now ws_id job_id
                  [(''retry_count'', PInt (retry_count + 1)), (''status'', PStr ''queued''), (''error'', PStr []),
                   (''cancel_requested'', PBool False)] db) (\<lambda>(db', result).
         rbind (emit now ws_id job_id ''job_retried'' (''Retry #'' @ int_str (retry_count + 1)) db') (\<lambda>db''.
         Inr (db'', result))))))))"

definition mark_running :: "string \<Rightarrow> string \<Rightarrow> string \<Rightarrow> job_db \<Rightarrow> (job_db \<times> pydict option) res" where
  "mark_running now ws_id job_id db =
     rbind (get_job ws_id job_id db) (\<lambda>found.
     case found of
       None \<Rightarrow> Inl not_found
     | Some rec \<Rightarrow>
         rbind (check_transition (job_status rec) ''running'') (\<lambda>_.
         rbind (transition now ws_id job_id ''running'' ''job_started'' ''Job started'' db) (\<lambda>(db', result).
         if result = None then Inr (db', result)
         else
           rbind (update_job now ws_id job_id
               [(''started_at'', PStr now), (''finished_at'', PStr []), (''error'', PStr []), (''cancel_requested'', PBool False)] db') (\<lambda>(db'', _).
           Inr (db'', result)))))"

text \<open>The check-then-write pattern of the three terminal marks.\<close>

definition checked_mark ::
  "string \<Rightarrow> string \<Rightarrow> string \<Rightarrow> string \<Rightarrow> (job_db \<Rightarrow> (job_db \<times> pydict option) res) \<Rightarrow> job_db \<Rightarrow> (job_db \<times> pydict option) res" where
  "checked_mark now ws_id job_id target write db =
     rbind (get_job ws_id job_id db) (\<lambda>found.
     case found of
       None \<Rightarrow> Inr (db, None)
     | Some rec \<Rightarrow> rbind (check_transition (job_status rec) target) (\<lambda>_. write db))"

definition with_summary :: "pydict \<Rightarrow> pydict \<Rightarrow> pydict" where
  "with_summary result_summary patch =
     (if result_summary \<noteq> [] then dset ''result_summary'' (PDict result_summary) patch else patch)"

definition write_succeeded :: "string \<Rightarrow> string \<Rightarrow> string \<Rightarrow> pydict \<Rightarrow> job_db \<Rightarrow> (job_db \<times> pydict option) res" where
  "write_succeeded now ws_id job_id result_summary =
     update_and_emit now ws_id job_id
       (with_summary result_summary [(''status'', PStr ''succeeded''), (''finished_at'', PStr now)])
       ''job_succeeded'' ''Job succeeded''"

definition mark_succeeded :: "string \<Rightarrow> string \<Rightarrow> string \<Rightarrow> pydict \<Rightarrow> job_db \<Rightarrow> (job_db \<times> pydict option) res" where
  "mark_succeeded now ws_id job_id result_summary =
     checked_mark now ws_id job_id ''succeeded'' (write_succeeded now ws_id job_id result_summary)"

definition mark_failed :: "string \<Rightarrow> string \<Rightarrow> string \<Rightarrow> string \<Rightarrow> pydict \<Rightarrow> job_db \<Rightarrow> (job_db \<times> pydict option) res" where
  "mark_failed now ws_id job_id error result_summary =
     (let err = take 500 error in
      checked_mark now ws_id job_id ''failed''
        (update_and_emit now ws_id job_id
          (with_summary result_summary [(''status'', PStr ''failed''), (''finished_at'', PStr now), (''error'', PStr err)])
          ''job_failed'' (''Job failed: '' @ take 100 err)))"

definition mark_cancelled :: "string \<Rightarrow> string \<Rightarrow> string \<Rightarrow> string \<Rightarrow> job_db \<Rightarrow> (job_db \<times> pydict option) res" where
  "mark_cancelled now ws_id job_id message =
     checked_mark now ws_id job_id ''cancelled''
       (update_and_emit now ws_id job_id
         [(''status'', PStr ''cancelled''), (''finished_at'', PStr now), (''cancel_requested'', PBool True)]
         ''job_cancelled'' message)"

section \<open>Progress\<close>

text \<open>\<open>int((current / total) * 100)\<close> is computed in IEEE double precision. A finite double is a
  fraction; \<open>fl53\<close> rounds a fraction to 53 significant bits, ties to even (the exponent range is not
  bounded here). Division of integers and multiplication of doubles are the exact result, rounded.\<close>

function bitlen :: "int \<Rightarrow> int" where
  "bitlen n = (if n \<le> 0 then 0 else 1 + bitlen (n div 2))"
  by pat_completeness auto
termination
  by (relation "measure nat") auto

declare bitlen.simps [simp del]

definition scale2 :: "int \<Rightarrow> int \<times> int \<Rightarrow> int \<times> int" where
  "scale2 e = (\<lambda>(a, b). if e \<ge> 0 then (a, b * 2 ^ nat e) else (a * 2 ^ nat (- e), b))"

definition round_even :: "int \<times> int \<Rightarrow> int" where
  "round_even = (\<lambda>(a, b).
     let q = a div b; r = a mod b in if 2 * r < b \<or> (2 * r = b \<and> even q) then q else q + 1)"

definition fl53 :: "int \<times> int \<Rightarrow> int \<times> int" where
  "fl53 x =
     (if fst x = 0 then (0, 1)
      else
        let e0 = bitlen (fst x) - bitlen (snd x) - 53;
            y = scale2 e0 x;
            e = (if fst y \<ge> snd y * 2 ^ 53 then e0 + 1 else e0)
        in scale2 (- e) (round_even (scale2 e x), 1))"

definition float_percent :: "int \<Rightarrow> int \<Rightarrow> int" where
  "float_percent current whole =
     (let x = fl53 (current, whole); y = fl53 (100 * fst x, snd x) in fst y div snd y)"

text \<open>\<open>min(100, int((current / total) * 100))\<close>; \<open>int\<close> truncates towards zero.\<close>

definition progress_percent :: "int \<Rightarrow> int \<Rightarrow> int" where
  "progress_percent current whole =
     min 100 (sgn (current * whole) * float_percent \<bar>current\<bar> \<bar>whole\<bar>)"

definition new_progress ::
  "string \<Rightarrow> pydict \<Rightarrow> int option \<Rightarrow> int option \<Rightarrow> string \<Rightarrow> string \<Rightarrow> pydict res" where
  "new_progress now prog0 current whole message step =
     (let prog1 = (case current of None \<Rightarrow> prog0 | Some c \<Rightarrow> dset ''current'' (PInt c) prog0);
          prog2 = (case whole of None \<Rightarrow> prog1 | Some t \<Rightarrow> dset ''total'' (PInt t) prog1) in
      rbind (case whole of
               None \<Rightarrow> Inr prog2
             | Some t \<Rightarrow>
                 if t = 0 then Inr prog2
                 else rbind (geti [(''current'', dget_or prog2 ''current'' (PInt 0))] ''current'') (\<lambda>c.
                      Inr (dset ''percent'' (PInt (progress_percent c t)) prog2))) (\<lambda>prog3.
      let prog4 = (if message \<noteq> [] then dset ''message'' (PStr message) prog3 else prog3);
          prog5 = (if step \<noteq> [] then dset ''current_step'' (PStr step) prog4 else prog4)
      in Inr (dset ''updated_at'' (PStr now) prog5)))"

definition progress_event :: "string \<Rightarrow> string \<Rightarrow> string \<Rightarrow> string \<Rightarrow> pydict \<Rightarrow> pydict" where
  "progress_event now ws_id job_id message prog =
     dset ''progress'' (PDict prog) (JobEvent now ws_id job_id ''job_progress''
       (if message \<noteq> [] then message
        else ''Progress: '' @ py_str (dget_or prog ''current'' (PInt 0)) @ ''/'' @ py_str (dget_or prog ''total'' (PInt 0))))"

definition update_progress ::
  "string \<Rightarrow> string \<Rightarrow> string \<Rightarrow> int option \<Rightarrow> int option \<Rightarrow> string \<Rightarrow> string \<Rightarrow> job_db \<Rightarrow> job_db res" where
  "update_progress now ws_id job_id current whole message step db =
     rbind (get_job ws_id job_id db) (\<lambda>found.
     case found of
       None \<Rightarrow> Inr db
     | Some rec \<Rightarrow>
         rbind (new_progress now (as_dict (dget rec ''progress'')) current whole message step) (\<lambda>prog.
         rbind (update_job now ws_id job_id [(''progress'', PDict prog)] db) (\<lambda>(db', _).
         append_event ws_id job_id (progress_event now ws_id job_id message prog) db')))"

text \<open>The double precision product is just below the integer: 29 of 100 steps are reported as 28 percent.\<close>

lemma percent_of_29_is_28: "progress_percent 29 100 = 28 \<and> progress_percent 30 100 = 30"
  by code_simp

section \<open>Histories\<close>

text \<open>The operations of the manager and of the store that a running system performs. Hard and soft
  deletion and forced retries are not in the list, nor is the reconciliation at start-up: they are treated on their own below.\<close>

datatype job_op =
    Enqueue string string
  | Cancel string string string
  | Retry string string
  | MarkRunning string string
  | MarkSucceeded string string pydict
  | MarkFailed string string string pydict
  | MarkCancelled string string string
  | Progress string string "int option" "int option" string string
  | Claim string string
  | Fence string string string int

definition exec_job_op :: "string \<Rightarrow> job_op \<Rightarrow> job_db \<Rightarrow> job_db res" where
  "exec_job_op now op db =
     (case op of
        Enqueue ws j \<Rightarrow> rbind (enqueue_job now ws j db) (\<lambda>(db', _). Inr db')
      | Cancel ws j expected \<Rightarrow> rbind (cancel_job now ws j expected db) (\<lambda>(db', _). Inr db')
      | Retry ws j \<Rightarrow> rbind (retry_job now ws j False db) (\<lambda>(db', _). Inr db')
      | MarkRunning ws j \<Rightarrow> rbind (mark_running now ws j db) (\<lambda>(db', _). Inr db')
      | MarkSucceeded ws j summary \<Rightarrow> rbind (mark_succeeded now ws j summary db) (\<lambda>(db', _). Inr db')
      | MarkFailed ws j err summary \<Rightarrow> rbind (mark_failed now ws j err summary db) (\<lambda>(db', _). Inr db')
      | MarkCancelled ws j message \<Rightarrow> rbind (mark_cancelled now ws j message db) (\<lambda>(db', _). Inr db')
      | Progress ws j current whole message step \<Rightarrow> update_progress now ws j current whole message step db
      | Claim ws j \<Rightarrow> rbind (claim_job_for_execution now ws j db) (\<lambda>(db', _). Inr db')
      | Fence ws j lease attempt \<Rightarrow> rbind (fence_reclaimed_running_job now ws j lease attempt db) (\<lambda>(db', _). Inr db'))"

text \<open>One step of a history: the time of the operation, and the operation; when it raises, the
  state is kept. (An operation that raises has not changed a status before.)\<close>

definition job_step :: "string \<times> job_op \<Rightarrow> job_db \<Rightarrow> job_db" where
  "job_step timed db = (case exec_job_op (fst timed) (snd timed) db of Inl _ \<Rightarrow> db | Inr db' \<Rightarrow> db')"

text \<open>The operations that put a job back into the queue.\<close>

definition requeues :: "job_op \<Rightarrow> string \<times> string \<Rightarrow> bool" where
  "requeues op k \<longleftrightarrow>
     (case op of Enqueue ws j \<Rightarrow> job_path ws j = Inr k | Retry ws j \<Rightarrow> job_path ws j = Inr k | _ \<Rightarrow> False)"

definition job_move :: "job_op \<Rightarrow> string \<times> string \<Rightarrow> string \<Rightarrow> string \<Rightarrow> bool" where
  "job_move op k s t \<longleftrightarrow> job_allowed s t \<and> (t = ''queued'' \<longrightarrow> requeues op k)"

section \<open>What the operations do to a status\<close>

lemma map_of_filter_fst: "P k \<Longrightarrow> map_of (filter (\<lambda>(k, _). P k) xs) k = map_of xs k"
  by (induction xs) auto

lemma din_dupdate: "din k r \<Longrightarrow> din k (dupdate r e)"
  by (induction r e rule: dupdate.induct) (auto simp: din_dset)

lemma dget_patch_job:
  assumes "distinct (map fst patch)" "k \<in> set job_fields" "k \<noteq> ''updated_at''"
  shows "dget (patch_job now patch r) k = (case map_of patch k of None \<Rightarrow> dget r k | Some v \<Rightarrow> v)"
proof -
  have "distinct (map fst (filter (\<lambda>(k, _). k \<in> set job_fields) patch))"
    using assms(1) by (induction patch) auto
  then show ?thesis
    using assms(2,3) by (simp add: patch_job_def dget_dset dget_dupdate map_of_filter_fst [of "\<lambda>k. k \<in> set job_fields"])
qed

lemma din_patch_job: "din k r \<Longrightarrow> din k (patch_job now patch r)"
  by (simp add: patch_job_def din_dset din_dupdate)

lemma get_job_Some:
  assumes "get_job ws_id job_id db = Inr (Some rec)"
  obtains path d where "job_path ws_id job_id = Inr path" "st_get (jd_jobs db) path = Some d" "rec = load_job d"
  using assms by (auto simp: get_job_def split: if_splits)

lemma check_transition_Inr: "check_transition s t = Inr u \<Longrightarrow> t = s \<or> job_allowed s t"
  by (auto simp: check_transition_def)

lemma update_job_Inr:
  assumes "update_job now ws_id job_id patch db = Inr (db', r)"
  obtains b where "job_section ws_id job_id (\<lambda>r. Some (patch_job now patch r)) db = Inr (db', r, b)"
  using assms by (auto simp: update_job_def)

text \<open>An update that does not name the status, and one that sets it after the check.\<close>

lemma update_job_keeps_view:
  assumes "update_job now ws_id job_id patch db = Inr (db', r)" "job_view db k = Some s"
    and "distinct (map fst patch)" "map_of patch ''status'' = None"
  shows "job_view db' k = Some s"
proof -
  have "moves (\<lambda>_ _. False) (load_job d) (patch_job now patch (load_job d))" for d
    using assms(3,4) by (simp add: moves_def dget_patch_job din_patch_job din_load_job)
  with assms(1,2) show ?thesis
    by (elim update_job_Inr) (drule job_section_view [where R = "\<lambda>_ _. False"], auto)
qed

lemma update_job_sets_view:
  assumes "update_job now ws_id job_id patch db = Inr (db', r)" "job_view db k = Some s"
    and "distinct (map fst patch)" "map_of patch ''status'' = Some (PStr t)" "t \<in> set JOB_STATUSES"
  shows "job_view db' k = Some (if job_path ws_id job_id = Inr k then t else s)"
proof -
  obtain b where sec: "job_section ws_id job_id (\<lambda>r. Some (patch_job now patch r)) db = Inr (db', r, b)"
    using assms(1) by (rule update_job_Inr)
  then show ?thesis
  proof (rule job_section_jobs)
    fix path
    assume path: "job_path ws_id job_id = Inr path"
      and jobs: "jd_jobs db' = (case st_get (jd_jobs db) path of None \<Rightarrow> jd_jobs db
         | Some d \<Rightarrow> (case Some (patch_job now patch (load_job d)) of None \<Rightarrow> jd_jobs db
             | Some r \<Rightarrow> st_put path (sanitize_record r) (jd_jobs db)))"
    from job_viewD [OF assms(2)] obtain d where d: "st_get (jd_jobs db) k = Some d" by blast
    show ?thesis
    proof (cases "k = path")
      case True
      then have "st_get (jd_jobs db') k = Some (sanitize_record (patch_job now patch (load_job d)))"
        using jobs d by simp
      from job_view_saved [OF this _ assms(5)] show ?thesis
        using True path assms(3,4) by (simp add: dget_patch_job din_patch_job din_load_job)
    next
      case False
      then have "st_get (jd_jobs db') k = st_get (jd_jobs db) k"
        unfolding jobs by (cases "st_get (jd_jobs db) path") simp_all
      then have "job_view db' k = job_view db k" by (rule job_view_cong)
      with assms(2) False path show ?thesis by simp
    qed
  qed
qed

lemma emit_view: "emit now ws_id job_id t m db = Inr db' \<Longrightarrow> job_view db' k = job_view db k"
  by (simp add: emit_def)

lemma update_and_emit_view:
  assumes "update_and_emit now ws_id job_id patch et m db = Inr (db', r)" "job_view db k = Some s"
    and "distinct (map fst patch)" "map_of patch ''status'' = Some (PStr t)" "t \<in> set JOB_STATUSES"
  shows "job_view db' k = Some (if job_path ws_id job_id = Inr k then t else s)"
proof -
  from assms(1) obtain db1 where "update_job now ws_id job_id patch db = Inr (db1, r)" "job_view db' k = job_view db1 k"
    by (auto simp: update_and_emit_def emit_view split: if_splits)
  with update_job_sets_view [OF this(1) assms(2-5)] show ?thesis by simp
qed

lemma get_job_status:
  assumes "get_job ws_id job_id db = Inr (Some rec)" "job_view db k = Some s" "job_path ws_id job_id = Inr k"
  shows "job_status rec = s"
  using assms(1)
proof (rule get_job_Some)
  fix path d assume "job_path ws_id job_id = Inr path" "st_get (jd_jobs db) path = Some d" "rec = load_job d"
  with assms(3) job_viewD [OF assms(2)] show ?thesis by auto
qed

text \<open>The two halves together: the status stays or moves along the table.\<close>

lemma checked_move:
  assumes "get_job ws_id job_id db = Inr (Some rec)" "check_transition (job_status rec) t = Inr u" "job_view db k = Some s"
    and "job_view db' k = Some (if job_path ws_id job_id = Inr k then t else s)"
  shows "\<exists>s'. job_view db' k = Some s' \<and> (s' = s \<or> s' = t \<and> job_allowed s t \<and> job_path ws_id job_id = Inr k)"
  using assms(4) check_transition_Inr [OF assms(2)] get_job_status [OF assms(1,3)] by auto

text \<open>The outcome that every operation is shown to have.\<close>

definition moved :: "job_db \<Rightarrow> job_db \<Rightarrow> string \<times> string \<Rightarrow> string \<Rightarrow> string \<Rightarrow> bool" where
  "moved db db' k t s \<longleftrightarrow> (\<exists>s'. job_view db' k = Some s' \<and> (s' = s \<or> s' = t \<and> job_allowed s t))"

lemma movedI: "\<exists>s'. job_view db' k = Some s' \<and> (s' = s \<or> s' = t \<and> job_allowed s t \<and> P) \<Longrightarrow> moved db db' k t s"
  by (auto simp: moved_def)

lemma status_member [simp]:
  "''queued'' \<in> set JOB_STATUSES" "''running'' \<in> set JOB_STATUSES" "''succeeded'' \<in> set JOB_STATUSES"
  "''failed'' \<in> set JOB_STATUSES" "''cancelled'' \<in> set JOB_STATUSES"
  by (simp_all add: JOB_STATUSES_def)

lemma checked_mark_moved:
  assumes "checked_mark now ws_id job_id t (update_and_emit now ws_id job_id patch et m) db = Inr (db', r)"
    and "job_view db k = Some s" "distinct (map fst patch)" "map_of patch ''status'' = Some (PStr t)" "t \<in> set JOB_STATUSES"
  shows "moved db db' k t s"
proof -
  from assms(1) consider (missing) "db' = db"
    | (found) rec u where "get_job ws_id job_id db = Inr (Some rec)" "check_transition (job_status rec) t = Inr u"
        "update_and_emit now ws_id job_id patch et m db = Inr (db', r)"
    by (auto simp: checked_mark_def split: option.splits)
  then show ?thesis
  proof cases
    case missing
    with assms(2) show ?thesis by (simp add: moved_def)
  next
    case found
    from checked_move [OF found(1,2) assms(2) update_and_emit_view [OF found(3) assms(2-5)]]
    show ?thesis by (rule movedI)
  qed
qed

lemma summary_patch:
  assumes "distinct (map fst patch)" "map_of patch ''status'' = Some v"
  shows "distinct (map fst (with_summary summary patch))" "map_of (with_summary summary patch) ''status'' = Some v"
  using assms by (simp_all add: with_summary_def dset_def distinct_update update_conv' del: map_of_eq_Some_iff)

lemma mark_succeeded_moved:
  "mark_succeeded now ws_id job_id summary db = Inr (db', r) \<Longrightarrow> job_view db k = Some s \<Longrightarrow> moved db db' k ''succeeded'' s"
  unfolding mark_succeeded_def write_succeeded_def
  by (erule checked_mark_moved) (simp_all add: summary_patch)

lemma mark_failed_moved:
  "mark_failed now ws_id job_id err summary db = Inr (db', r) \<Longrightarrow> job_view db k = Some s \<Longrightarrow> moved db db' k ''failed'' s"
  unfolding mark_failed_def Let_def by (erule checked_mark_moved) (simp_all add: summary_patch)

lemma mark_cancelled_moved:
  "mark_cancelled now ws_id job_id m db = Inr (db', r) \<Longrightarrow> job_view db k = Some s \<Longrightarrow> moved db db' k ''cancelled'' s"
  unfolding mark_cancelled_def by (erule checked_mark_moved) simp_all

lemma transition_view:
  assumes "transition now ws_id job_id t et m db = Inr (db', r)" "job_view db k = Some s" "t \<in> set JOB_STATUSES"
  shows "job_view db' k = Some (if job_path ws_id job_id = Inr k then t else s)"
  using update_and_emit_view [OF assms(1) [unfolded transition_def] assms(2) _ _ assms(3)] by simp

lemma enqueue_job_moved:
  assumes "enqueue_job now ws_id job_id db = Inr (db', r)" "job_view db k = Some s"
  shows "\<exists>s'. job_view db' k = Some s' \<and> (s' = s \<or> s' = ''queued'' \<and> job_allowed s ''queued'' \<and> job_path ws_id job_id = Inr k)"
proof -
  from assms(1) obtain rec u where get: "get_job ws_id job_id db = Inr (Some rec)"
    and chk: "check_transition (job_status rec) ''queued'' = Inr u"
    and tr: "transition now ws_id job_id ''queued'' ''job_queued'' ''Job queued'' db = Inr (db', r)"
    by (auto simp: enqueue_job_def split: option.splits)
  show ?thesis by (rule checked_move [OF get chk assms(2) transition_view [OF tr assms(2)]]) simp
qed

lemma retry_job_moved:
  assumes "retry_job now ws_id job_id False db = Inr (db', r)" "job_view db k = Some s"
  shows "\<exists>s'. job_view db' k = Some s' \<and> (s' = s \<or> s' = ''queued'' \<and> job_allowed s ''queued'' \<and> job_path ws_id job_id = Inr k)"
proof -
  from assms(1) obtain rec u n db1 where get: "get_job ws_id job_id db = Inr (Some rec)"
    and chk: "check_transition (job_status rec) ''queued'' = Inr u"
    and up: "update_job now ws_id job_id [(''retry_count'', PInt (n + 1)), (''status'', PStr ''queued''), (''error'', PStr []),
                   (''cancel_requested'', PBool False)] db = Inr (db1, r)"
    and em: "emit now ws_id job_id ''job_retried'' (''Retry #'' @ int_str (n + 1)) db1 = Inr db'"
    by (auto simp: retry_job_def split: option.splits)
  have "job_view db1 k = Some (if job_path ws_id job_id = Inr k then ''queued'' else s)"
    by (rule update_job_sets_view [OF up assms(2)]) simp_all
  then show ?thesis by (intro checked_move [OF get chk assms(2)]) (simp add: emit_view [OF em])
qed

lemma mark_running_moved:
  assumes "mark_running now ws_id job_id db = Inr (db', r)" "job_view db k = Some s"
  shows "moved db db' k ''running'' s"
proof -
  from assms(1) obtain rec u db1 where get: "get_job ws_id job_id db = Inr (Some rec)"
    and chk: "check_transition (job_status rec) ''running'' = Inr u"
    and tr: "transition now ws_id job_id ''running'' ''job_started'' ''Job started'' db = Inr (db1, r)"
    and rest: "db' = db1 \<or> (\<exists>r'. update_job now ws_id job_id
               [(''started_at'', PStr now), (''finished_at'', PStr []), (''error'', PStr []), (''cancel_requested'', PBool False)] db1 = Inr (db', r'))"
    by (auto simp: mark_running_def split: option.splits if_splits)
  have v1: "job_view db1 k = Some (if job_path ws_id job_id = Inr k then ''running'' else s)"
    by (rule transition_view [OF tr assms(2)]) simp
  have "job_view db' k = job_view db1 k"
    using rest
  proof (elim disjE exE)
    fix r' assume "update_job now ws_id job_id
               [(''started_at'', PStr now), (''finished_at'', PStr []), (''error'', PStr []), (''cancel_requested'', PBool False)] db1 = Inr (db', r')"
    from update_job_keeps_view [OF this v1] show ?thesis by (simp add: v1)
  qed simp
  with v1 show ?thesis by (intro movedI [OF checked_move [OF get chk assms(2)]]) simp
qed

lemma request_cancellation_view:
  assumes "request_job_cancellation now ws_id job_id expected db = Inr (db', r, b)" "job_view db k = Some s"
  shows "job_view db' k = Some s"
proof -
  have "\<exists>t. job_view db' k = Some t \<and> (t = s \<or> False)"
    by (rule job_section_view [OF assms(1) [unfolded request_job_cancellation_def] assms(2)])
      (auto simp: moves_def cancel_body_def Let_def dget_dset din_dset din_load_job split: if_splits)
  then show ?thesis by simp
qed

lemma cancel_job_cases:
  assumes "cancel_job now ws_id job_id expected db = Inr (db', r)"
  obtains "db' = db"
  | rec u db1 where "get_job ws_id job_id db = Inr (Some rec)" "job_status rec = ''queued''"
      "check_transition (job_status rec) ''cancelled'' = Inr u"
      "emit now ws_id job_id ''job_cancelled'' ''Job cancelled from queue'' db = Inr db1"
      "transition now ws_id job_id ''cancelled'' ''job_cancelled'' [] db1 = Inr (db', r)"
  | rec r1 b db1 where "get_job ws_id job_id db = Inr (Some rec)" "job_status rec = ''running''"
      "request_job_cancellation now ws_id job_id expected db = Inr (db1, r1, b)"
      "db' = db1 \<or> b \<and> emit now ws_id job_id ''job_cancel_requested'' ''Cancel requested'' db1 = Inr db'"
proof -
  from assms obtain rec where get: "get_job ws_id job_id db = Inr (Some rec)"
    by (auto simp: cancel_job_def split: option.splits)
  note eq = assms [unfolded cancel_job_def get rbind_simps option.case]
  consider "job_status rec = ''queued''" | "job_status rec = ''running''" | "job_status rec \<noteq> ''queued''" "job_status rec \<noteq> ''running''"
    by blast
  then show ?thesis
  proof cases
    case 1
    with eq get that(2) show ?thesis by auto
  next
    case 2
    with eq obtain db1 r1 b where "request_job_cancellation now ws_id job_id expected db = Inr (db1, r1, b)"
      and "db' = db1 \<or> b \<and> emit now ws_id job_id ''job_cancel_requested'' ''Cancel requested'' db1 = Inr db'"
      by (auto simp: Let_def split: if_splits)
    with get 2 that(3) show ?thesis by blast
  next
    case 3
    with eq that(1) show ?thesis by auto
  qed
qed

lemma cancel_job_moved:
  assumes "cancel_job now ws_id job_id expected db = Inr (db', r)" "job_view db k = Some s"
  shows "moved db db' k ''cancelled'' s"
  using assms(1)
proof (cases rule: cancel_job_cases)
  case 1
  with assms(2) show ?thesis by (simp add: moved_def)
next
  case (2 rec u db1)
  from assms(2) have "job_view db1 k = Some s" by (simp add: emit_view [OF 2(4)])
  from transition_view [OF 2(5) this] show ?thesis
    by (intro movedI [OF checked_move [OF 2(1,3) assms(2)]]) simp
next
  case (3 rec r1 b db1)
  from request_cancellation_view [OF 3(3) assms(2)] 3(4) show ?thesis by (auto simp: moved_def emit_view)
qed

lemma update_progress_view:
  assumes "update_progress now ws_id job_id current whole m st db = Inr db'" "job_view db k = Some s"
  shows "job_view db' k = Some s"
proof -
  from assms(1) have "db' = db \<or> (\<exists>prog db1 r e. update_job now ws_id job_id [(''progress'', PDict prog)] db = Inr (db1, r)
      \<and> append_event ws_id job_id e db1 = Inr db')"
    unfolding update_progress_def by (auto split: option.splits)
  then show ?thesis
  proof (elim disjE exE conjE)
    fix prog db1 r e assume up: "update_job now ws_id job_id [(''progress'', PDict prog)] db = Inr (db1, r)"
      and ev: "append_event ws_id job_id e db1 = Inr db'"
    from update_job_keeps_view [OF up assms(2)] ev show ?thesis by simp
  qed (use assms(2) in simp)
qed

lemma claim_job_cases:
  assumes "claim_job_for_execution now ws_id job_id db = Inr (db', r)"
  obtains db1 r1 b where "job_section ws_id job_id (claim_body now) db = Inr (db1, r1, b)"
    "r = (if b then r1 else None)" "\<And>k. job_view db' k = job_view db1 k"
  using assms by (fastforce simp: claim_job_for_execution_def split: if_splits)

lemma claim_job_moved:
  assumes "claim_job_for_execution now ws_id job_id db = Inr (db', r)" "job_view db k = Some s"
  shows "moved db db' k ''running'' s"
  using assms(1)
proof (rule claim_job_cases)
  fix db1 r1 b assume sec: "job_section ws_id job_id (claim_body now) db = Inr (db1, r1, b)"
    and view: "\<And>k. job_view db' k = job_view db1 k"
  have "\<exists>t. job_view db1 k = Some t \<and> (t = s \<or> s = ''queued'' \<and> t = ''running'')"
    by (rule job_section_view [OF sec assms(2)])
      (auto simp: moves_def claim_body_def dget_dset din_dset din_load_job split: if_splits)
  moreover have "job_allowed ''queued'' ''running''" by code_simp
  ultimately show ?thesis by (auto simp: moved_def view)
qed

lemma fence_job_moved:
  assumes "fence_reclaimed_running_job now ws_id job_id lease attempt db = Inr (db', r)" "job_view db k = Some s"
  shows "moved db db' k ''failed'' s"
proof -
  have "db' = db \<or> (\<exists>db1 r1 b. job_section ws_id job_id (fence_body now (if lease \<noteq> [] then lease else job_id)) db = Inr (db1, r1, b)
      \<and> job_view db' k = job_view db1 k)"
    using assms(1) unfolding fence_reclaimed_running_job_def by (fastforce split: if_splits)
  then show ?thesis
  proof (elim disjE exE conjE)
    fix db1 r1 b assume sec: "job_section ws_id job_id (fence_body now (if lease \<noteq> [] then lease else job_id)) db = Inr (db1, r1, b)"
      and view: "job_view db' k = job_view db1 k"
    have "\<exists>t. job_view db1 k = Some t \<and> (t = s \<or> s = ''running'' \<and> t = ''failed'')"
      by (rule job_section_view [OF sec assms(2)])
        (auto simp: moves_def fence_body_def Let_def dget_dset din_dset din_load_job split: if_splits)
    moreover have "job_allowed ''running'' ''failed''" by code_simp
    ultimately show ?thesis by (auto simp: moved_def view)
  qed (use assms(2) in \<open>simp add: moved_def\<close>)
qed

lemma job_step_moves:
  assumes "job_view db k = Some s"
  shows "\<exists>t. job_view (job_step (now, op) db) k = Some t \<and> (t = s \<or> job_move op k s t)"
proof (cases "exec_job_op now op db")
  case (Inl e)
  with assms show ?thesis by (simp add: job_step_def)
next
  case (Inr db')
  have m: "moved db db' k t s \<Longrightarrow> t \<noteq> ''queued'' \<Longrightarrow> ?thesis" for t
    by (auto simp: job_step_def Inr moved_def job_move_def)
  show ?thesis
  proof (cases op)
    case (Enqueue ws j)
    with Inr enqueue_job_moved [OF _ assms] show ?thesis
      by (auto simp: job_step_def exec_job_op_def job_move_def requeues_def) metis
  next
    case (Retry ws j)
    with Inr retry_job_moved [OF _ assms] show ?thesis
      by (auto simp: job_step_def exec_job_op_def job_move_def requeues_def) metis
  next
    case (Progress ws j c w ms st)
    with Inr update_progress_view [OF _ assms] show ?thesis by (auto simp: job_step_def exec_job_op_def)
  next
    case (Cancel ws j e)
    with Inr m [OF cancel_job_moved [OF _ assms]] show ?thesis by (auto simp: exec_job_op_def)
  next
    case (MarkRunning ws j)
    with Inr m [OF mark_running_moved [OF _ assms]] show ?thesis by (auto simp: exec_job_op_def)
  next
    case (MarkSucceeded ws j sm)
    with Inr m [OF mark_succeeded_moved [OF _ assms]] show ?thesis by (auto simp: exec_job_op_def)
  next
    case (MarkFailed ws j e sm)
    with Inr m [OF mark_failed_moved [OF _ assms]] show ?thesis by (auto simp: exec_job_op_def)
  next
    case (MarkCancelled ws j ms)
    with Inr m [OF mark_cancelled_moved [OF _ assms]] show ?thesis by (auto simp: exec_job_op_def)
  next
    case (Claim ws j)
    with Inr m [OF claim_job_moved [OF _ assms]] show ?thesis by (auto simp: exec_job_op_def)
  next
    case (Fence ws j l a)
    with Inr m [OF fence_job_moved [OF _ assms]] show ?thesis by (auto simp: exec_job_op_def)
  qed
qed

interpretation jobs: status_machine job_view job_step job_allowed
proof
  fix db k s timed assume "job_view db k = Some s"
  from job_step_moves [OF this, of "fst timed" "snd timed"]
  show "\<exists>s'. job_view (job_step timed db) k = Some s' \<and> (s' = s \<or> job_allowed s s')"
    by (auto simp: job_move_def)
qed

end
