(* ===== verification/Job_Histories.thy ===== *)
theory Job_Histories
  imports Job_Manager
begin

text \<open>
  What holds of jobs along every history of the operations of \<open>Job_Manager\<close>: statuses follow the
  transition table, a job is executed once per queueing, a reclaimed job fails closed, retries are
  bounded, and the reconciliation after a restart respects a requested cancellation.
\<close>

section \<open>The transition table\<close>

text \<open>in every history of job operations, each step leaves the status of a job or moves it along
  the transition table of the manager; a job enters the queue only by an enqueue or a retry of
  that job, and the whole history is a path of the table.\<close>

theorem job_history_follows_table:
  assumes "job_view db k = Some s"
  shows "\<exists>u t. job_view (fold job_step ops db) k = Some u \<and> job_allowed\<^sup>*\<^sup>* s u
           \<and> job_view (job_step (now, op) (fold job_step ops db)) k = Some t
           \<and> (t = u \<or> job_allowed u t \<and> (t = ''queued'' \<longrightarrow> requeues op k))"
proof -
  from jobs.run_follows_transitions [OF assms] obtain u where
    u: "job_view (fold job_step ops db) k = Some u" "job_allowed\<^sup>*\<^sup>* s u" by blast
  from job_step_moves [OF u(1)] u show ?thesis by (auto simp: job_move_def)
qed

definition sample_path :: "string \<times> string" where
  "sample_path = (''default'', ''job_1'')"

definition sample_jobs :: "string \<Rightarrow> job_db" where
  "sample_jobs status =
     \<lparr>jd_jobs = [(sample_path, [(''job_id'', PStr ''job_1''), (''workspace_id'', PStr ''default''), (''status'', PStr status)])],
      jd_events = [], jd_logs = [], jd_index = []\<rparr>"

lemma sample_view: "s \<in> set JOB_STATUSES \<Longrightarrow> job_view (sample_jobs s) sample_path = Some s"
proof -
  have "dget (load_job [(''job_id'', PStr ''job_1''), (''workspace_id'', PStr ''default''), (''status'', PStr s)]) ''status'' = PStr s"
    by (simp add: dget_load_job dget_or_def)
  then show "s \<in> set JOB_STATUSES \<Longrightarrow> job_view (sample_jobs s) sample_path = Some s"
    by (simp add: job_view_def sample_jobs_def st_get_def job_status_def gets_eq_of_dget)
qed

lemma sample_job_path: "job_path ''default'' ''job_1'' = Inr sample_path"
  by code_simp

theorem job_history_follows_table_witness:
  "\<exists>u t. job_view (fold job_step [(''t1'', Claim ''default'' ''job_1'')] (sample_jobs ''queued'')) sample_path = Some u
     \<and> job_allowed\<^sup>*\<^sup>* ''queued'' u
     \<and> job_view (job_step (''t2'', MarkSucceeded ''default'' ''job_1'' []) (fold job_step [(''t1'', Claim ''default'' ''job_1'')] (sample_jobs ''queued''))) sample_path = Some t
     \<and> (t = u \<or> job_allowed u t \<and> (t = ''queued'' \<longrightarrow> requeues (MarkSucceeded ''default'' ''job_1'' []) sample_path))"
  by (rule job_history_follows_table [OF sample_view]) simp

section \<open>Execution once per queueing\<close>

lemma claim_body_queued: "claim_body now r = Some r' \<Longrightarrow> job_status r = ''queued''"
  by (simp add: claim_body_def split: if_splits)

lemma claim_not_queued:
  assumes "job_view db k = Some u" "u \<noteq> ''queued''" "job_path ws_id job_id = Inr k"
  shows "claim_job_for_execution now ws_id job_id db = Inr (db, None)"
proof -
  from job_viewD [OF assms(1)] obtain d where "st_get (jd_jobs db) k = Some d" "job_status (load_job d) = u" by blast
  with assms(2,3) show ?thesis
    by (simp add: claim_job_for_execution_def job_section_def claim_body_def)
qed

lemma claim_succeeds:
  assumes "claim_job_for_execution now ws_id job_id db = Inr (db', Some r)" "job_path ws_id job_id = Inr k"
  shows "job_view db' k = Some ''running''"
  using assms(1)
proof (rule claim_job_cases)
  fix db1 r1 b assume sec: "job_section ws_id job_id (claim_body now) db = Inr (db1, r1, b)"
    and r: "Some r = (if b then r1 else None)" and view: "\<And>k. job_view db' k = job_view db1 k"
  from r have b by (cases b) auto
  with sec assms(2) obtain d r' where d: "st_get (jd_jobs db) k = Some d" "claim_body now (load_job d) = Some r'"
    "db1 = db\<lparr>jd_jobs := st_put k (sanitize_record r') (jd_jobs db)\<rparr>"
    by (auto simp: job_section_def split: option.splits)
  have "dget r' ''status'' = PStr ''running''" "din ''status'' r'"
    using d(2) by (auto simp: claim_body_def dget_dset din_dset split: if_splits)
  with d(3) have "job_view db1 k = Some ''running''" by (intro job_view_saved) simp_all
  with view show ?thesis by simp
qed

lemma stays_out_of_queue:
  assumes "job_view db k = Some u" "u \<noteq> ''queued''" "list_all (\<lambda>x. \<not> requeues (snd x) k) ops"
  shows "\<exists>t. job_view (fold job_step ops db) k = Some t \<and> t \<noteq> ''queued''"
  using assms
proof (induction ops arbitrary: db u)
  case (Cons x ops)
  from job_step_moves [OF Cons.prems(1), of "fst x" "snd x"] Cons.prems(2,3)
  obtain t where t: "job_view (job_step x db) k = Some t" "t \<noteq> ''queued''" by (auto simp: job_move_def)
  from Cons.prems(3) have "list_all (\<lambda>x. \<not> requeues (snd x) k) ops" by simp
  from Cons.IH [OF t this] show ?case by simp
qed auto

text \<open>C15: after a worker has claimed a job, no other claim of it succeeds, whatever operations run in
  between, unless one of them puts the job back into the queue.\<close>

theorem job_executed_once_per_queueing:
  assumes "claim_job_for_execution now ws_id job_id db = Inr (db', Some r)" "job_path ws_id job_id = Inr k"
    and "list_all (\<lambda>x. \<not> requeues (snd x) k) ops" "job_path ws_id' job_id' = Inr k"
  shows "claim_job_for_execution now' ws_id' job_id' (fold job_step ops db') = Inr (fold job_step ops db', None)"
proof -
  from stays_out_of_queue [OF claim_succeeds [OF assms(1,2)] _ assms(3)] obtain t where
    "job_view (fold job_step ops db') k = Some t" "t \<noteq> ''queued''" by auto
  from claim_not_queued [OF this assms(4)] show ?thesis .
qed

lemma claim_queued:
  assumes "job_view db k = Some ''queued''" "job_path ws_id job_id = Inr k"
  shows "\<exists>db' r. claim_job_for_execution now ws_id job_id db = Inr (db', Some r)"
proof -
  from job_viewD [OF assms(1)] obtain d where "st_get (jd_jobs db) k = Some d" "job_status (load_job d) = ''queued''" by blast
  with assms(2) show ?thesis
    by (simp add: claim_job_for_execution_def job_section_def claim_body_def append_event_def)
qed

theorem job_executed_once_per_queueing_witness:
  "\<exists>db' r. claim_job_for_execution ''t1'' ''default'' ''job_1'' (sample_jobs ''queued'') = Inr (db', Some r)
     \<and> claim_job_for_execution ''t3'' ''default'' '' job_1'' (fold job_step [(''t2'', MarkRunning ''default'' ''job_1'')] db')
       = Inr (fold job_step [(''t2'', MarkRunning ''default'' ''job_1'')] db', None)"
proof -
  obtain db' r where c: "claim_job_for_execution ''t1'' ''default'' ''job_1'' (sample_jobs ''queued'') = Inr (db', Some r)"
    using claim_queued [OF sample_view sample_job_path] by fastforce
  have same: "job_path ''default'' '' job_1'' = Inr sample_path" by code_simp
  show ?thesis
    by (rule exI [of _ db'], rule exI [of _ r], rule conjI [OF c],
        rule job_executed_once_per_queueing [OF c sample_job_path _ same]) (simp add: requeues_def)
qed

section \<open>Reclaimed jobs fail closed\<close>

lemma section_saved:
  assumes "job_path ws_id job_id = Inr k" "st_get (jd_jobs db) k = Some d" "body (load_job d) = Some r'"
  shows "job_section ws_id job_id body db
         = Inr (db\<lparr>jd_jobs := st_put k (sanitize_record r') (jd_jobs db)\<rparr>, Some (sanitize_record r'), True)"
  using assms by (simp add: job_section_def)

lemma append_event_ok: "job_path ws_id job_id = Inr k \<Longrightarrow> \<exists>db'. append_event ws_id job_id e db = Inr db' \<and> jd_jobs db' = jd_jobs db"
  by (simp add: append_event_def)

text \<open>when the queue hands out a job whose lease expired, a job that is still running is marked
  failed with the reason, its outcome is kept as unknown, and no worker executes it again; in every other
  case nothing changes.\<close>

theorem reclaimed_job_fails_closed:
  assumes "job_path ws_id job_id = Inr k" "job_view db k = Some s"
  shows "if s = ''running'' \<and> 1 < attempt
         then (\<exists>db' r. fence_reclaimed_running_job now ws_id job_id lease_id attempt db = Inr (db', Some r)
                 \<and> job_view db' k = Some ''failed'' \<and> dget r ''error'' = PStr ''worker_lease_expired''
                 \<and> (\<forall>now'. claim_job_for_execution now' ws_id job_id db' = Inr (db', None)))
         else fence_reclaimed_running_job now ws_id job_id lease_id attempt db = Inr (db, None)"
proof -
  from job_viewD [OF assms(2)] obtain d where d: "st_get (jd_jobs db) k = Some d" "job_status (load_job d) = s" by blast
  let ?body = "fence_body now (if lease_id \<noteq> [] then lease_id else job_id)"
  show ?thesis
  proof (cases "s = ''running'' \<and> 1 < attempt")
    case True
    with d(2) obtain r' where r': "?body (load_job d) = Some r'" by (simp add: fence_body_def Let_def)
    then have f: "dget r' ''status'' = PStr ''failed''" "din ''status'' r'" "dget r' ''error'' = PStr ''worker_lease_expired''"
      by (auto simp: fence_body_def Let_def dget_dset din_dset split: if_splits)
    let ?db1 = "db\<lparr>jd_jobs := st_put k (sanitize_record r') (jd_jobs db)\<rparr>"
    from append_event_ok [OF assms(1)] obtain db2 where
      db2: "append_event ws_id job_id (JobEvent now ws_id job_id ''job_failed'' ''Job lease expired; outcome requires reconciliation'')
              (update_index ws_id job_id ?db1) = Inr db2"
        "jd_jobs db2 = jd_jobs (update_index ws_id job_id ?db1)" by blast
    have "job_view ?db1 k = Some ''failed''" using f by (intro job_view_saved) simp_all
    then have v: "job_view db2 k = Some ''failed''" using append_event_view [OF db2(1)] by simp
    have "clean_text ''worker_lease_expired'' = ''worker_lease_expired''" by (rule clean_text_word) code_simp+
    then have e: "dget (sanitize_record r') ''error'' = PStr ''worker_lease_expired''"
      using dget_sanitize_field [of "''error''" r'] f(3) by (simp add: job_fields_def JobRecord_def)
    have "fence_reclaimed_running_job now ws_id job_id lease_id attempt db = Inr (db2, Some (sanitize_record r'))"
      using True section_saved [where body = ?body, OF assms(1) d(1) r'] db2(1) by (simp add: fence_reclaimed_running_job_def)
    with True v e claim_not_queued [OF v _ assms(1)] show ?thesis by auto
  next
    case False
    with d assms(1) show ?thesis
      by (auto simp: fence_reclaimed_running_job_def job_section_def fence_body_def)
  qed
qed

theorem reclaimed_job_fails_closed_witness:
  "\<exists>db' r. fence_reclaimed_running_job ''t'' ''default'' ''job_1'' ''lease'' 2 (sample_jobs ''running'') = Inr (db', Some r)
     \<and> job_view db' sample_path = Some ''failed'' \<and> dget r ''error'' = PStr ''worker_lease_expired''
     \<and> (\<forall>now'. claim_job_for_execution now' ''default'' ''job_1'' db' = Inr (db', None))"
  using reclaimed_job_fails_closed [OF sample_job_path sample_view [of "''running''"], of 2 "''t''" "''lease''"] by simp

section \<open>Retries are bounded\<close>

text \<open>a retry of a job that may be queued again succeeds exactly while the number of retries is
  below the limit; it counts the retry, queues the job and clears the cancellation request. A forced
  retry skips the transition table but not the limit.\<close>

theorem retry_is_bounded:
  assumes "job_id \<noteq> []" "job_path ws_id job_id = Inr k" "job_view db k = Some s" "get_job ws_id job_id db = Inr (Some rec)"
    and "dget rec ''retry_count'' = PInt n" "dget rec ''max_retries'' = PInt m"
    and "force \<or> s = ''queued'' \<or> job_allowed s ''queued''"
  shows "if n < m
         then (\<exists>db' r rec'. retry_job now ws_id job_id force db = Inr (db', r) \<and> job_view db' k = Some ''queued''
                 \<and> get_job ws_id job_id db' = Inr (Some rec') \<and> dget rec' ''retry_count'' = PInt (n + 1)
                 \<and> dget rec' ''max_retries'' = PInt m \<and> dget rec' ''cancel_requested'' = PBool False)
         else retry_job now ws_id job_id force db = Inl (ValueError ''retry_limit_exceeded'')"
proof -
  from get_job_Some [OF assms(4)] assms(2) obtain d where d: "st_get (jd_jobs db) k = Some d" "rec = load_job d" by auto
  have s: "job_status rec = s" by (rule get_job_status [OF assms(4,3,2)])
  then have chk: "(if force then Inr () else check_transition (job_status rec) ''queued'') = Inr ()"
    using assms(7) by (auto simp: check_transition_def)
  note retry = retry_job_def assms(4) chk geti_def assms(5,6)
  show ?thesis
  proof (cases "n < m")
    case True
    let ?patch = "[(''retry_count'', PInt (n + 1)), (''status'', PStr ''queued''), (''error'', PStr []), (''cancel_requested'', PBool False)]"
    let ?r = "patch_job now ?patch rec"
    let ?db1 = "db\<lparr>jd_jobs := st_put k (sanitize_record ?r) (jd_jobs db)\<rparr>"
    have up: "update_job now ws_id job_id ?patch db = Inr (?db1, Some (sanitize_record ?r))"
      using section_saved [OF assms(2) d(1), of "\<lambda>r. Some (patch_job now ?patch r)"] d(2) by (simp add: update_job_def)
    from append_event_ok [OF assms(2)] obtain db2 where
      em: "emit now ws_id job_id ''job_retried'' (''Retry #'' @ int_str (n + 1)) ?db1 = Inr db2" "jd_jobs db2 = jd_jobs ?db1"
      unfolding emit_def by blast
    have ok: "retry_job now ws_id job_id force db = Inr (db2, Some (sanitize_record ?r))"
      using True up em(1) by (simp add: retry)
    have f: "dget (load_job (sanitize_record ?r)) f = deep_sanitize (dget ?r f)" if "f \<in> set job_fields" for f
      using that d(2) by (intro reload_field) (auto simp: din_patch_job din_load_job)
    have "job_view db2 k = Some ''queued''"
      using update_job_sets_view [OF up assms(3)] assms(2) emit_view [OF em(1)] by simp
    moreover have "get_job ws_id job_id db2 = Inr (Some (load_job (sanitize_record ?r)))"
      using assms(1,2) em(2) by (simp add: get_job_def)
    ultimately show ?thesis
      using True ok assms(5,6) f [of "''retry_count''"] f [of "''max_retries''"] f [of "''cancel_requested''"]
      by (auto simp: dget_patch_job)
  next
    case False
    then show ?thesis by (simp add: retry)
  qed
qed

theorem retry_is_bounded_witness:
  "\<exists>db' r rec'. retry_job ''t'' ''default'' ''job_1'' False (sample_jobs ''failed'') = Inr (db', r)
     \<and> job_view db' sample_path = Some ''queued'' \<and> get_job ''default'' ''job_1'' db' = Inr (Some rec')
     \<and> dget rec' ''retry_count'' = PInt 1 \<and> dget rec' ''max_retries'' = PInt 3 \<and> dget rec' ''cancel_requested'' = PBool False"
proof -
  have "get_job ''default'' ''job_1'' (sample_jobs ''failed'')
        = Inr (Some (load_job [(''job_id'', PStr ''job_1''), (''workspace_id'', PStr ''default''), (''status'', PStr ''failed'')]))"
    by code_simp
  moreover have "job_allowed ''failed'' ''queued''" by code_simp
  ultimately show ?thesis
    using retry_is_bounded [OF _ sample_job_path sample_view [of "''failed''"], of _ 0 3 False "''t''"]
    by (simp add: dget_load_job dget_or_def JobRecord_def)
qed

section \<open>Reconciliation after a restart\<close>

text \<open>Each record file lies in the directory of its own job id, as \<open>create_job\<close> puts it.\<close>

definition own_id :: "string \<times> string \<Rightarrow> pydict \<Rightarrow> bool" where
  "own_id k d \<longleftrightarrow> job_path (fst k) (gets_or d ''job_id'' (snd k)) = Inr k"

definition reconciled_record :: "string \<Rightarrow> string \<Rightarrow> pydict \<Rightarrow> pydict" where
  "reconciled_record now finished_at d = sanitize_record (patch_job now (reconcile_patch finished_at d) (load_job d))"

lemma reconcile_patch_keys:
  "distinct (map fst (reconcile_patch finished_at d))"
  "map_of (reconcile_patch finished_at d) ''status''
   = Some (PStr (if py_truthy (dget d ''cancel_requested'') then ''cancelled'' else ''failed''))"
  by (auto simp: reconcile_patch_def Let_def)

lemma reconciled_view:
  assumes "st_get (jd_jobs db) k = Some (reconciled_record now finished_at d)"
  shows "job_view db k = Some (if py_truthy (dget d ''cancel_requested'') then ''cancelled'' else ''failed'')"
  by (rule job_view_saved [OF assms [unfolded reconciled_record_def]])
    (simp_all add: dget_patch_job reconcile_patch_keys din_patch_job din_load_job del: map_of_eq_Some_iff)

lemma reconcile_job_step:
  assumes "st_get (jd_jobs db) k = Some d" "own_id k d"
  shows "\<exists>db'. reconcile_job now finished_at before k (db, n)
             = Inr (db', if needs_reconcile before d then n + 1 else n)
           \<and> jd_jobs db' = (if needs_reconcile before d then st_put k (reconciled_record now finished_at d) (jd_jobs db) else jd_jobs db)"
proof (cases "needs_reconcile before d")
  case True
  let ?j = "gets_or d ''job_id'' (snd k)"
  let ?db1 = "db\<lparr>jd_jobs := st_put k (reconciled_record now finished_at d) (jd_jobs db)\<rparr>"
  have path: "job_path (fst k) ?j = Inr k" using assms(2) by (simp add: own_id_def)
  have up: "update_job now (fst k) ?j (reconcile_patch finished_at d) db = Inr (?db1, Some (reconciled_record now finished_at d))"
    using section_saved [OF path assms(1), of "\<lambda>r. Some (patch_job now (reconcile_patch finished_at d) r)"]
    by (simp add: update_job_def reconciled_record_def)
  from append_event_ok [OF path] obtain db2 where
    "append_event (fst k) ?j (JobEvent now (fst k) ?j ''job_cancelled'' ''Job cancelled during backend restart recovery'') ?db1 = Inr db2"
    "jd_jobs db2 = jd_jobs ?db1" by blast
  with True up assms(1) show ?thesis by (simp add: reconcile_job_def Let_def)
next
  case False
  with assms(1) show ?thesis by (simp add: reconcile_job_def)
qed

lemma reconcile_loop:
  assumes "distinct ks" "\<And>k. k \<in> set ks \<Longrightarrow> \<exists>d. st_get (jd_jobs db) k = Some d \<and> own_id k d"
  shows "\<exists>db'. rfold (reconcile_job now finished_at before) ks (db, n)
             = Inr (db', n + length (filter (\<lambda>k. needs_reconcile before (the (st_get (jd_jobs db) k))) ks))
           \<and> (\<forall>k. st_get (jd_jobs db') k
                = (if k \<in> set ks \<and> needs_reconcile before (the (st_get (jd_jobs db) k))
                   then Some (reconciled_record now finished_at (the (st_get (jd_jobs db) k))) else st_get (jd_jobs db) k))"
  using assms
proof (induction ks arbitrary: db n)
  case (Cons k ks)
  from Cons.prems(2) [of k] obtain d where d: "st_get (jd_jobs db) k = Some d" "own_id k d" by auto
  from reconcile_job_step [OF d] obtain db1 where
    db1: "reconcile_job now finished_at before k (db, n) = Inr (db1, if needs_reconcile before d then n + 1 else n)"
      "jd_jobs db1 = (if needs_reconcile before d then st_put k (reconciled_record now finished_at d) (jd_jobs db) else jd_jobs db)"
    by blast
  have other: "st_get (jd_jobs db1) k' = st_get (jd_jobs db) k'" if "k' \<noteq> k" for k'
    using that by (simp add: db1(2))
  have ks: "\<And>k'. k' \<in> set ks \<Longrightarrow> st_get (jd_jobs db1) k' = st_get (jd_jobs db) k'"
    using Cons.prems(1) other by (metis distinct.simps(2))
  from Cons.prems have "distinct ks" "\<And>k'. k' \<in> set ks \<Longrightarrow> \<exists>d. st_get (jd_jobs db1) k' = Some d \<and> own_id k' d"
    by (auto simp: ks)
  from Cons.IH [OF this] obtain db' where
    loop: "rfold (reconcile_job now finished_at before) ks (db1, if needs_reconcile before d then n + 1 else n)
       = Inr (db', (if needs_reconcile before d then n + 1 else n)
                + length (filter (\<lambda>k. needs_reconcile before (the (st_get (jd_jobs db1) k))) ks))"
      and get: "\<And>k'. st_get (jd_jobs db') k'
                = (if k' \<in> set ks \<and> needs_reconcile before (the (st_get (jd_jobs db1) k'))
                   then Some (reconciled_record now finished_at (the (st_get (jd_jobs db1) k'))) else st_get (jd_jobs db1) k')"
    by blast
  have len: "length (filter (\<lambda>k. needs_reconcile before (the (st_get (jd_jobs db1) k))) ks)
           = length (filter (\<lambda>k. needs_reconcile before (the (st_get (jd_jobs db) k))) ks)"
    using ks by (metis (mono_tags, lifting) filter_cong)
  have "st_get (jd_jobs db') k' = (if k' \<in> set (k # ks) \<and> needs_reconcile before (the (st_get (jd_jobs db) k'))
                   then Some (reconciled_record now finished_at (the (st_get (jd_jobs db) k'))) else st_get (jd_jobs db) k')" for k'
    using get [of k'] other [of k'] Cons.prems(1) d(1) by (cases "k' = k") (auto simp: db1(2))
  then show ?case using loop db1(1) d(1) by (simp add: len)
qed simp

text \<open>the reconciliation at start-up marks exactly the jobs that were running before the start: as
  cancelled when the user had asked for it, else as failed; it leaves every other record and
  returns the number of jobs it marked. No stale running job is left.\<close>

theorem reconcile_running_jobs_correct:
  assumes "distinct (map fst (jd_jobs db))" "list_all (\<lambda>(k, d). own_id k d) (jd_jobs db)"
  shows "\<exists>db'. reconcile_running_jobs now finished_at before db
             = Inr (db', length (filter (\<lambda>(k, d). needs_reconcile before d) (jd_jobs db)))
           \<and> (\<forall>k d. st_get (jd_jobs db) k = Some d \<longrightarrow>
                (if needs_reconcile before d
                 then job_view db' k = Some (if py_truthy (dget d ''cancel_requested'') then ''cancelled'' else ''failed'')
                 else st_get (jd_jobs db') k = Some d))"
proof -
  have get: "st_get (jd_jobs db) k = Some d" if "(k, d) \<in> set (jd_jobs db)" for k d
    using that assms(1) by (simp add: st_get_def)
  have "\<exists>d. st_get (jd_jobs db) k = Some d \<and> own_id k d" if "k \<in> set (map fst (jd_jobs db))" for k
    using that get assms(2) by (fastforce simp: list_all_iff)
  from reconcile_loop [OF assms(1) this, of now finished_at before 0] obtain db' where
    db': "reconcile_running_jobs now finished_at before db
       = Inr (db', length (filter (\<lambda>k. needs_reconcile before (the (st_get (jd_jobs db) k))) (map fst (jd_jobs db))))"
    and st: "\<And>k. st_get (jd_jobs db') k
                = (if k \<in> set (map fst (jd_jobs db)) \<and> needs_reconcile before (the (st_get (jd_jobs db) k))
                   then Some (reconciled_record now finished_at (the (st_get (jd_jobs db) k))) else st_get (jd_jobs db) k)"
    unfolding reconcile_running_jobs_def by auto
  have "length (filter (\<lambda>k. needs_reconcile before (the (st_get (jd_jobs db) k))) (map fst (jd_jobs db)))
      = length (filter (\<lambda>(k, d). needs_reconcile before d) (jd_jobs db))"
    unfolding filter_map length_map comp_def
    by (rule arg_cong [where f = length], rule filter_cong) (auto simp: get)
  moreover have "if needs_reconcile before d
       then job_view db' k = Some (if py_truthy (dget d ''cancel_requested'') then ''cancelled'' else ''failed'')
       else st_get (jd_jobs db') k = Some d" if "st_get (jd_jobs db) k = Some d" for k d
  proof (cases "needs_reconcile before d")
    case True
    from that have "k \<in> set (map fst (jd_jobs db))" by (force simp: st_get_def dest: map_of_SomeD)
    with True that st have "st_get (jd_jobs db') k = Some (reconciled_record now finished_at d)" by simp
    from reconciled_view [OF this] True show ?thesis by simp
  next
    case False
    with that st show ?thesis by simp
  qed
  ultimately show ?thesis using db' by auto
qed

theorem reconcile_running_jobs_correct_witness:
  "\<exists>db'. reconcile_running_jobs ''t2'' ''t2'' ''t1'' (sample_jobs ''running'') = Inr (db', 1)
     \<and> job_view db' sample_path = Some ''failed''"
proof -
  have "distinct (map fst (jd_jobs (sample_jobs ''running'')))" "list_all (\<lambda>(k, d). own_id k d) (jd_jobs (sample_jobs ''running''))"
    by code_simp+
  from reconcile_running_jobs_correct [OF this, of "''t2''" "''t2''" "''t1''"] obtain db' where
    db': "reconcile_running_jobs ''t2'' ''t2'' ''t1'' (sample_jobs ''running'')
        = Inr (db', length (filter (\<lambda>(k, d). needs_reconcile ''t1'' d) (jd_jobs (sample_jobs ''running''))))"
      "\<forall>k d. st_get (jd_jobs (sample_jobs ''running'')) k = Some d \<longrightarrow>
                (if needs_reconcile ''t1'' d
                 then job_view db' k = Some (if py_truthy (dget d ''cancel_requested'') then ''cancelled'' else ''failed'')
                 else st_get (jd_jobs db') k = Some d)" by blast
  have n: "length (filter (\<lambda>(k, d). needs_reconcile ''t1'' d) (jd_jobs (sample_jobs ''running''))) = 1" by code_simp
  have d: "st_get (jd_jobs (sample_jobs ''running'')) sample_path
         = Some [(''job_id'', PStr ''job_1''), (''workspace_id'', PStr ''default''), (''status'', PStr ''running'')]" by code_simp
  have "needs_reconcile ''t1'' [(''job_id'', PStr ''job_1''), (''workspace_id'', PStr ''default''), (''status'', PStr ''running'')]"
    by code_simp
  with db'(2) [rule_format, OF d] have "job_view db' sample_path = Some ''failed''" by simp
  with db'(1) n show ?thesis by auto
qed

section \<open>Checks outside the lock\<close>

lemma update_and_emit_total:
  assumes "job_path ws_id job_id = Inr k" "st_get (jd_jobs db) k = Some d"
  shows "\<exists>db' r. update_and_emit now ws_id job_id patch et m db = Inr (db', Some r)"
proof -
  have "\<exists>db1 r. update_job now ws_id job_id patch db = Inr (db1, Some r)"
    using section_saved [OF assms, of "\<lambda>r. Some (patch_job now patch r)"] by (simp add: update_job_def)
  then obtain db1 r where up: "update_job now ws_id job_id patch db = Inr (db1, Some r)" by blast
  from append_event_ok [OF assms(1)] obtain db2 where "emit now ws_id job_id et m db1 = Inr db2" unfolding emit_def by blast
  with up show ?thesis by (simp add: update_and_emit_def)
qed

text \<open>the marks check the transition before they take the lock of the update. When a cancellation
  is recorded between the check and the write of \<open>mark_succeeded\<close>, the job moves from cancelled to
  succeeded, which the transition table forbids.\<close>

theorem cancelled_job_can_become_succeeded:
  assumes "job_path ws_id job_id = Inr k" "job_id \<noteq> []" "job_view db k = Some ''running''"
  shows "\<exists>db1 r1 db2 r2. check_transition ''running'' ''succeeded'' = Inr ()
           \<and> mark_cancelled now ws_id job_id message db = Inr (db1, Some r1) \<and> job_view db1 k = Some ''cancelled''
           \<and> write_succeeded now' ws_id job_id summary db1 = Inr (db2, Some r2) \<and> job_view db2 k = Some ''succeeded''
           \<and> \<not> job_allowed ''cancelled'' ''succeeded''"
proof -
  have tbl: "check_transition ''running'' ''succeeded'' = Inr ()" "check_transition ''running'' ''cancelled'' = Inr ()"
    "\<not> job_allowed ''cancelled'' ''succeeded''" by code_simp+
  let ?cp = "[(''status'', PStr ''cancelled''), (''finished_at'', PStr now), (''cancel_requested'', PBool True)]"
  from job_viewD [OF assms(3)] obtain d where d: "st_get (jd_jobs db) k = Some d" "job_status (load_job d) = ''running''" by blast
  from update_and_emit_total [OF assms(1) d(1)] obtain db1 r1 where
    u1: "update_and_emit now ws_id job_id ?cp ''job_cancelled'' message db = Inr (db1, Some r1)" by blast
  have v1: "job_view db1 k = Some ''cancelled''" using update_and_emit_view [OF u1 assms(3)] assms(1) by simp
  from d assms(1,2) tbl(2) u1 have c: "mark_cancelled now ws_id job_id message db = Inr (db1, Some r1)"
    by (simp add: mark_cancelled_def checked_mark_def get_job_def)
  from job_viewD [OF v1] obtain d1 where d1: "st_get (jd_jobs db1) k = Some d1" by blast
  let ?sp = "with_summary summary [(''status'', PStr ''succeeded''), (''finished_at'', PStr now')]"
  from update_and_emit_total [OF assms(1) d1] obtain db2 r2 where
    u2: "update_and_emit now' ws_id job_id ?sp ''job_succeeded'' ''Job succeeded'' db1 = Inr (db2, Some r2)" by blast
  have "job_view db2 k = Some ''succeeded''"
    using update_and_emit_view [OF u2 v1] summary_patch [of "[(''status'', PStr ''succeeded''), (''finished_at'', PStr now')]"] assms(1)
    by simp
  with tbl c v1 u2 show ?thesis by (auto simp: write_succeeded_def)
qed

theorem cancelled_job_can_become_succeeded_witness:
  "\<exists>db1 r1 db2 r2. check_transition ''running'' ''succeeded'' = Inr ()
     \<and> mark_cancelled ''t1'' ''default'' ''job_1'' ''stop'' (sample_jobs ''running'') = Inr (db1, Some r1)
     \<and> job_view db1 sample_path = Some ''cancelled''
     \<and> write_succeeded ''t2'' ''default'' ''job_1'' [] db1 = Inr (db2, Some r2) \<and> job_view db2 sample_path = Some ''succeeded''
     \<and> \<not> job_allowed ''cancelled'' ''succeeded''"
  by (rule cancelled_job_can_become_succeeded [OF sample_job_path _ sample_view]) simp_all

end
