(* ===== verification/Job_Runner.thy ===== *)
theory Job_Runner
  imports Job_Histories
begin

text \<open>
  Execution of jobs: \<open>jobs/runner.py\<close>, the filesystem queue of \<open>jobs/queue.py\<close> and one iteration of
  the worker (\<open>jobs/worker.py\<close>, \<open>run_once\<close>).

  An action changes the job database and returns a value or raises; when it raises, the changes made
  so far stay. The services that a job calls (the agent, reports, the knowledge index, network inspections,
  workflows) are a parameter, the record \<open>job_world\<close>: what each call returns or raises, and how the
  database has changed when it returns, since other processes run meanwhile. In the summary of a finished job a
  field that is no list counts as empty; the code takes the length of a text and raises on a number, and then the job
  is settled as failed.
\<close>

section \<open>Actions\<close>

type_synonym 'a act = "job_db \<Rightarrow> job_db \<times> 'a res"

definition ret :: "'a \<Rightarrow> 'a act" where
  "ret x db = (db, Inr x)"

definition throw :: "py_error \<Rightarrow> 'a act" where
  "throw e db = (db, Inl e)"

definition abind :: "'a act \<Rightarrow> ('a \<Rightarrow> 'b act) \<Rightarrow> 'b act" where
  "abind m f db = (case m db of (db', Inl e) \<Rightarrow> (db', Inl e) | (db', Inr x) \<Rightarrow> f x db')"

text \<open>\<open>try: m except Exception as e: h(e)\<close>.\<close>

definition catch :: "'a act \<Rightarrow> (py_error \<Rightarrow> 'a act) \<Rightarrow> 'a act" where
  "catch m h db = (case m db of (db', Inl e) \<Rightarrow> h e db' | (db', Inr x) \<Rightarrow> (db', Inr x))"

definition lift_op :: "(job_db \<Rightarrow> (job_db \<times> 'a) res) \<Rightarrow> 'a act" where
  "lift_op f db = (case f db of Inl e \<Rightarrow> (db, Inl e) | Inr (db', x) \<Rightarrow> (db', Inr x))"

definition lift_unit :: "(job_db \<Rightarrow> job_db res) \<Rightarrow> unit act" where
  "lift_unit f db = (case f db of Inl e \<Rightarrow> (db, Inl e) | Inr db' \<Rightarrow> (db', Inr ()))"

definition lift_read :: "(job_db \<Rightarrow> 'a res) \<Rightarrow> 'a act" where
  "lift_read f db = (db, f db)"

definition or_else :: "string \<Rightarrow> string \<Rightarrow> string" where
  "or_else s fallback = (if s \<noteq> [] then s else fallback)"

text \<open>\<open>d[k]\<close>.\<close>

definition dreq :: "pydict \<Rightarrow> string \<Rightarrow> pyval res" where
  "dreq d k = rbind (rguard (din k d) (KeyError k)) (\<lambda>_. Inr (dget d k))"

section \<open>The services\<close>

record report_result =
  rr_ok :: bool
  rr_artifact_id :: string
  rr_report_id :: string
  rr_format :: string
  rr_error :: string

record job_world =
  jw_submit :: "pyval \<Rightarrow> string \<Rightarrow> pydict \<Rightarrow> pydict act"
  jw_create_report :: "string \<Rightarrow> pydict \<Rightarrow> report_result act"
  jw_reindex_source :: "string \<Rightarrow> string \<Rightarrow> pydict act"
  jw_import_file :: "pydict \<Rightarrow> pydict act"
  jw_execute_inspection :: "string \<Rightarrow> string \<Rightarrow> string \<Rightarrow> pydict act"
  jw_finalize_inspection :: "string \<Rightarrow> string \<Rightarrow> string \<Rightarrow> bool act"
  jw_execute_workflow :: "string \<Rightarrow> string \<Rightarrow> pyval \<Rightarrow> string \<Rightarrow> pydict act"

section \<open>The handlers\<close>

text \<open>Progress messages, in UTF-8.\<close>

definition msg_indexing :: string where
  "msg_indexing =
     [CHR 0xE6, CHR 0xAD, CHR 0xA3, CHR 0xE5, CHR 0x9C, CHR 0xA8, CHR 0xE6, CHR 0x9E, CHR 0x84, CHR 0xE5,
      CHR 0xBB, CHR 0xBA, CHR 0xE7, CHR 0x9F, CHR 0xA5, CHR 0xE8, CHR 0xAF, CHR 0x86, CHR 0xE7, CHR 0xB4,
      CHR 0xA2, CHR 0xE5, CHR 0xBC, CHR 0x95]"

definition msg_indexed :: string where
  "msg_indexed =
     [CHR 0xE7, CHR 0x9F, CHR 0xA5, CHR 0xE8, CHR 0xAF, CHR 0x86, CHR 0xE7, CHR 0xB4, CHR 0xA2, CHR 0xE5,
      CHR 0xBC, CHR 0x95, CHR 0xE5, CHR 0xB7, CHR 0xB2, CHR 0xE6, CHR 0x9B, CHR 0xB4, CHR 0xE6, CHR 0x96,
      CHR 0xB0]"

definition msg_inspecting :: string where
  "msg_inspecting =
     [CHR 0xE6, CHR 0xAD, CHR 0xA3, CHR 0xE5, CHR 0x9C, CHR 0xA8, CHR 0xE6, CHR 0x89, CHR 0xA7, CHR 0xE8,
      CHR 0xA1, CHR 0x8C, CHR 0xE7, CHR 0xBD, CHR 0x91, CHR 0xE7, CHR 0xBB, CHR 0x9C, CHR 0xE5, CHR 0xB7,
      CHR 0xA1, CHR 0xE6, CHR 0xA3, CHR 0x80]"

definition msg_inspected :: string where
  "msg_inspected =
     [CHR 0xE7, CHR 0xBD, CHR 0x91, CHR 0xE7, CHR 0xBB, CHR 0x9C, CHR 0xE5, CHR 0xB7, CHR 0xA1, CHR 0xE6,
      CHR 0xA3, CHR 0x80, CHR 0xE5, CHR 0xB7, CHR 0xB2, CHR 0xE5, CHR 0xAE, CHR 0x8C, CHR 0xE6, CHR 0x88,
      CHR 0x90]"

definition a_update :: "string \<Rightarrow> string \<Rightarrow> string \<Rightarrow> pydict \<Rightarrow> pydict option act" where
  "a_update now ws_id job_id patch = lift_op (update_job now ws_id job_id patch)"

definition a_log :: "string \<Rightarrow> string \<Rightarrow> string \<Rightarrow> string \<Rightarrow> string \<Rightarrow> unit act" where
  "a_log now ws_id job_id message level = lift_unit (append_log now ws_id job_id message level [])"

definition a_progress :: "string \<Rightarrow> string \<Rightarrow> string \<Rightarrow> int \<Rightarrow> int \<Rightarrow> string \<Rightarrow> unit act" where
  "a_progress now ws_id job_id current whole message =
     lift_unit (update_progress now ws_id job_id (Some current) (Some whole) message [])"

definition a_fail :: "string \<Rightarrow> string \<Rightarrow> string \<Rightarrow> string \<Rightarrow> unit act" where
  "a_fail now ws_id job_id error =
     abind (lift_op (mark_failed now ws_id job_id error [])) (\<lambda>_. ret ())"

definition a_cancelled :: "string \<Rightarrow> string \<Rightarrow> string \<Rightarrow> string \<Rightarrow> unit act" where
  "a_cancelled now ws_id job_id message =
     abind (lift_op (mark_cancelled now ws_id job_id message)) (\<lambda>_. ret ())"

definition cancel_check :: "string \<Rightarrow> pydict \<Rightarrow> bool act" where
  "cancel_check now rec =
     (let ws = gets rec ''workspace_id''; jid = gets rec ''job_id'' in
      abind (lift_read (get_job ws jid)) (\<lambda>freshest.
      case freshest of
        None \<Rightarrow> ret False
      | Some r \<Rightarrow>
          if \<not> py_truthy (dget r ''cancel_requested'') then ret False
          else if job_status r = ''running''
          then abind (a_cancelled now ws jid ''Job cancelled'') (\<lambda>_. ret True)
          else ret True))"

definition outcome_field :: "pydict \<Rightarrow> string \<Rightarrow> bool \<Rightarrow> pyval" where
  "outcome_field result k ok =
     PStr (gets_or (as_dict (dget result ''metadata'')) k (if ok then ''complete'' else ''failed''))"

definition run_agent_job :: "job_world \<Rightarrow> string \<Rightarrow> pydict \<Rightarrow> unit act" where
  "run_agent_job w now rec =
     (let ws = gets rec ''workspace_id''; jid = gets rec ''job_id''; payload = as_dict (dget rec ''payload'') in
      abind (cancel_check now rec) (\<lambda>stop.
      if stop then ret ()
      else
        abind (jw_submit w (dget_or payload ''message'' (PStr [])) ws
                 [(''intent'', dget_or payload ''intent'' (PStr [])), (''job_id'', PStr jid)]) (\<lambda>result.
        let ok = py_truthy (dget result ''ok'') \<and> \<not> py_truthy (dget result ''errors'') in
        abind (a_update now ws jid
            [(''run_ids'', PList [dget_or result ''run_id'' (PStr [])]),
             (''trace_ids'', PList [dget_or result ''trace_id'' (PStr [])]),
             (''output_artifacts'', dget_or result ''output_artifacts'' (PList [])),
             (''report_artifacts'', dget_or result ''report_artifacts'' (PList [])),
             (''result_summary'', PDict
                [(''ok'', PBool ok), (''execution_outcome'', outcome_field result ''execution_outcome'' ok),
                 (''tool_execution_outcome'', outcome_field result ''tool_execution_outcome'' ok)])]) (\<lambda>_.
        abind (lift_unit (append_event ws jid
            (dset ''run_id'' (dget_or result ''run_id'' (PStr []))
              (JobEvent now ws jid (if ok then ''job_run_finished'' else ''job_run_failed'')
                 (if ok then ''Agent run completed'' else ''Agent run failed''))))) (\<lambda>_.
        if ok then ret ()
        else
          let raw_error = py_str (hd (as_list (py_or (dget result ''errors'') (PList [PStr ''agent_run_failed''])))) in
          a_fail now ws jid (or_else (take 300 (redact_text raw_error)) ''agent_run_failed''))))))"

definition run_export_report :: "job_world \<Rightarrow> string \<Rightarrow> pydict \<Rightarrow> unit act" where
  "run_export_report w now rec =
     (let ws = gets rec ''workspace_id''; jid = gets rec ''job_id''; payload = as_dict (dget rec ''payload'') in
      abind (cancel_check now rec) (\<lambda>stop.
      if stop then ret ()
      else
        catch
          (abind (jw_create_report w ws payload) (\<lambda>result.
           if rr_ok result then
             abind (a_update now ws jid
                 [(''report_artifacts'', PList [PStr (rr_artifact_id result)]),
                  (''result_summary'', PDict [(''report_id'', PStr (rr_report_id result)), (''format'', PStr (rr_format result))])]) (\<lambda>_.
             lift_unit (append_event ws jid
               (dset ''artifact_id'' (PStr (rr_artifact_id result)) (JobEvent now ws jid ''job_report_created'' []))))
           else a_fail now ws jid (rr_error result)))
          (\<lambda>e. a_fail now ws jid (or_else (take 300 (redact_text (exc_str e))) ''report_generation_failed''))))"

definition import_arguments :: "string \<Rightarrow> string \<Rightarrow> pydict \<Rightarrow> pydict res" where
  "import_arguments ws file_id payload =
     (let raw_tags = py_or (dget payload ''tags'') (PList []) in
      rbind (rguard (is_list raw_tags) (ValueError ''knowledge_index tags must be a list'')) (\<lambda>_.
      Inr [(''workspace_id'', PStr ws), (''source'', PStr []), (''file_id'', PStr file_id),
           (''title'', PStr (gets payload ''title'')),
           (''source_type'', PStr (gets_or payload ''source_type'' ''project_doc'')),
           (''scope'', PStr (gets_or payload ''scope'' ''workspace'')),
           (''language'', PStr (gets_or payload ''language'' ''zh'')),
           (''tags'', PList (map (PStr \<circ> py_str) (filter (\<lambda>t. py_strip (py_str t) \<noteq> []) (as_list raw_tags))))]))"

definition run_knowledge_index :: "job_world \<Rightarrow> string \<Rightarrow> pydict \<Rightarrow> unit act" where
  "run_knowledge_index w now rec =
     (let ws = gets rec ''workspace_id''; jid = gets rec ''job_id''; payload = as_dict (dget rec ''payload'');
          source_id = py_strip (gets payload ''source_id''); file_id = py_strip (gets payload ''file_id'') in
      abind (cancel_check now rec) (\<lambda>stop.
      if stop then ret ()
      else
        abind (a_progress now ws jid 0 1 msg_indexing) (\<lambda>_.
        abind (if source_id \<noteq> [] then jw_reindex_source w ws source_id
               else if file_id \<noteq> [] then abind (lift_read (\<lambda>_. import_arguments ws file_id payload)) (jw_import_file w)
               else throw (ValueError ''knowledge_index requires source_id or file_id'')) (\<lambda>result.
        if \<not> py_truthy (dget result ''ok'') then
          throw (RuntimeError (py_str (hd (as_list (py_or (dget result ''errors'')
            (PList [py_or (dget result ''error'') (PStr ''knowledge_index_failed'')]))))))
        else
          abind (a_progress now ws jid 1 1 msg_indexed) (\<lambda>_.
          abind (lift_read (\<lambda>_. py_int (py_or (dget result ''chunk_count'') (PInt 0)))) (\<lambda>chunk_count.
          abind (a_update now ws jid [(''result_summary'', PDict
              [(''status'', PStr ''completed''), (''job_type'', PStr ''knowledge_index''),
               (''source_id'', py_or (dget result ''source_id'') (PStr source_id)),
               (''chunk_count'', PInt chunk_count)])]) (\<lambda>_. ret ())))))))"

definition run_network_inspection :: "job_world \<Rightarrow> string \<Rightarrow> pydict \<Rightarrow> unit act" where
  "run_network_inspection w now rec =
     (let ws = gets rec ''workspace_id''; jid = gets rec ''job_id'';
          task_id = py_strip (gets (as_dict (dget rec ''payload'')) ''task_id'') in
      if task_id = [] then throw (ValueError ''network_inspection task_id is required'')
      else
        abind (cancel_check now rec) (\<lambda>stop.
        if stop then ret ()
        else
          abind (a_progress now ws jid 0 1 msg_inspecting) (\<lambda>_.
          abind (jw_execute_inspection w ws task_id jid) (\<lambda>task.
          abind (a_update now ws jid
              [(''output_artifacts'', PList (if py_truthy (dget task ''artifact_id'') then [dget task ''artifact_id''] else [])),
               (''result_summary'', PDict
                  [(''task_id'', PStr task_id), (''inspection_status'', dget task ''status''),
                   (''succeeded'', dget_or task ''succeeded'' (PInt 0)), (''failed'', dget_or task ''failed'' (PInt 0))])]) (\<lambda>_.
          abind (a_progress now ws jid 1 1 msg_inspected) (\<lambda>_.
          if dget task ''status'' = PStr ''cancelled'' then a_cancelled now ws jid ''Network inspection cancelled''
          else if dget task ''status'' = PStr ''failed''
          then throw (RuntimeError (gets_or task ''error'' ''network_inspection_failed''))
          else ret ()))))))"

definition run_workflow_job :: "job_world \<Rightarrow> string \<Rightarrow> pydict \<Rightarrow> unit act" where
  "run_workflow_job w now rec =
     (let ws = gets rec ''workspace_id''; jid = gets rec ''job_id''; payload = as_dict (dget rec ''payload'') in
      abind (jw_execute_workflow w ws (gets payload ''workflow_id'') (py_or (dget payload ''inputs'') (PDict [])) jid) (\<lambda>result.
      abind (lift_read (\<lambda>_. dreq result ''workflow_id'')) (\<lambda>workflow_id.
      abind (lift_read (\<lambda>_. dreq result ''run_id'')) (\<lambda>run_id.
      abind (lift_read (\<lambda>_. dreq result ''status'')) (\<lambda>status.
      abind (a_update now ws jid [(''result_summary'', PDict
          [(''workflow_id'', workflow_id), (''workflow_run_id'', run_id), (''status'', status)])]) (\<lambda>_.
      if status = PStr ''cancelled'' then a_cancelled now ws jid ''Workflow run cancelled''
      else if status \<noteq> PStr ''succeeded'' then throw (RuntimeError ''workflow_run_failed'')
      else ret ()))))))"

definition run_handler :: "job_world \<Rightarrow> string \<Rightarrow> pydict \<Rightarrow> unit act" where
  "run_handler w now rec =
     (let job_type = gets rec ''job_type'' in
      if job_type \<in> {''agent_run'', ''generic_agent_task''} then run_agent_job w now rec
      else if job_type = ''export_report'' then run_export_report w now rec
      else if job_type = ''knowledge_index'' then run_knowledge_index w now rec
      else if job_type = ''workflow_run'' then run_workflow_job w now rec
      else if job_type = ''network_inspection'' then run_network_inspection w now rec
      else ret ())"

section \<open>One job\<close>

definition final_summary :: "pydict \<Rightarrow> pydict" where
  "final_summary r =
     dupdate (as_dict (dget r ''result_summary''))
       [(''run_count'', PInt (int (length (as_list (dget r ''run_ids''))))),
        (''artifact_count'', PInt (int (length (as_list (dget r ''output_artifacts'')))))]"

text \<open>The body of the \<open>try\<close> statement, and the \<open>except\<close> clause.\<close>

definition run_body :: "job_world \<Rightarrow> string \<Rightarrow> string \<Rightarrow> string \<Rightarrow> pydict \<Rightarrow> unit act" where
  "run_body w now ws_id job_id rec =
     abind (a_log now ws_id job_id (''Starting '' @ gets rec ''job_type'' @ '' job'') ''info'') (\<lambda>_.
     abind (run_handler w now rec) (\<lambda>_.
     abind (lift_read (get_job ws_id job_id)) (\<lambda>final.
     case final of
       None \<Rightarrow> ret ()
     | Some r \<Rightarrow>
         if job_status r \<in> {''failed'', ''cancelled''} then ret ()
         else abind (lift_op (mark_succeeded now ws_id job_id (final_summary r))) (\<lambda>_. ret ()))))"

definition run_error :: "string \<Rightarrow> string \<Rightarrow> string \<Rightarrow> py_error \<Rightarrow> unit act" where
  "run_error now ws_id job_id e =
     (let error_msg = or_else (take 300 (redact_text (exc_str e))) ''job_execution_failed'' in
      abind (a_fail now ws_id job_id error_msg) (\<lambda>_.
      a_log now ws_id job_id (''Job failed: '' @ error_msg) ''error''))"

text \<open>\<open>try: m finally: f\<close>; an exception of \<open>f\<close> wins.\<close>

definition finally_do :: "unit act \<Rightarrow> unit act \<Rightarrow> unit act" where
  "finally_do m f db = (case m db of (db', r) \<Rightarrow> (case f db' of (db'', Inl e) \<Rightarrow> (db'', Inl e) | (db'', Inr _) \<Rightarrow> (db'', r)))"

definition inspection_cleanup :: "job_world \<Rightarrow> string \<Rightarrow> string \<Rightarrow> string \<Rightarrow> pydict \<Rightarrow> unit act" where
  "inspection_cleanup w now ws_id job_id rec =
     (if gets rec ''job_type'' \<noteq> ''network_inspection'' then ret ()
      else catch (abind (jw_finalize_inspection w ws_id (gets (as_dict (dget rec ''payload'')) ''task_id'') job_id) (\<lambda>_. ret ()))
             (\<lambda>_. a_log now ws_id job_id ''Inspection Job cleanup deferred'' ''warning''))"

definition run_job :: "job_world \<Rightarrow> string \<Rightarrow> string \<Rightarrow> string \<Rightarrow> unit act" where
  "run_job w now ws_id job_id =
     abind (lift_op (claim_job_for_execution now ws_id job_id)) (\<lambda>claimed.
     case claimed of
       None \<Rightarrow> ret ()
     | Some rec \<Rightarrow>
         finally_do (catch (run_body w now ws_id job_id rec) (run_error now ws_id job_id))
           (inspection_cleanup w now ws_id job_id rec))"

section \<open>Actions keep jobs\<close>

text \<open>A job with a proper status still has one after the action, whether it returns or raises.\<close>

definition keeps_job :: "string \<times> string \<Rightarrow> 'a act \<Rightarrow> bool" where
  "keeps_job k m \<longleftrightarrow> (\<forall>db. job_view db k \<noteq> None \<longrightarrow> job_view (fst (m db)) k \<noteq> None)"

named_theorems keeps_intros \<open>introduction rules for actions that keep a job\<close>

lemma keeps_ret [keeps_intros]: "keeps_job k (ret x)"
  by (simp add: keeps_job_def ret_def)

lemma keeps_throw [keeps_intros]: "keeps_job k (throw e)"
  by (simp add: keeps_job_def throw_def)

lemma keeps_lift_read [keeps_intros]: "keeps_job k (lift_read f)"
  by (simp add: keeps_job_def lift_read_def)

lemma keeps_abind [keeps_intros]: "keeps_job k m \<Longrightarrow> (\<And>x. keeps_job k (f x)) \<Longrightarrow> keeps_job k (abind m f)"
  by (fastforce simp: keeps_job_def abind_def split: prod.splits sum.splits)

lemma keeps_catch [keeps_intros]: "keeps_job k m \<Longrightarrow> (\<And>e. keeps_job k (h e)) \<Longrightarrow> keeps_job k (catch m h)"
  by (fastforce simp: keeps_job_def catch_def split: prod.splits sum.splits)

lemma keeps_if [keeps_intros]: "keeps_job k m \<Longrightarrow> keeps_job k m' \<Longrightarrow> keeps_job k (if b then m else m')"
  by simp

lemma keeps_case_option [keeps_intros]:
  "keeps_job k m \<Longrightarrow> (\<And>x. keeps_job k (f x)) \<Longrightarrow> keeps_job k (case y of None \<Rightarrow> m | Some x \<Rightarrow> f x)"
  by (cases y) auto

lemma keeps_lift_op:
  assumes "\<And>db db' x s. f db = Inr (db', x) \<Longrightarrow> job_view db k = Some s \<Longrightarrow> job_view db' k \<noteq> None"
  shows "keeps_job k (lift_op f)"
  unfolding keeps_job_def lift_op_def
proof (intro allI impI)
  fix db assume "job_view db k \<noteq> None"
  then obtain s where "job_view db k = Some s" by blast
  with assms [of db] show "job_view (fst (case f db of Inl e \<Rightarrow> (db, Inl e) | Inr (db', x) \<Rightarrow> (db', Inr x))) k \<noteq> None"
    by (cases "f db") auto
qed

lemma keeps_lift_unit:
  assumes "\<And>db db' s. f db = Inr db' \<Longrightarrow> job_view db k = Some s \<Longrightarrow> job_view db' k \<noteq> None"
  shows "keeps_job k (lift_unit f)"
  unfolding keeps_job_def lift_unit_def
proof (intro allI impI)
  fix db assume "job_view db k \<noteq> None"
  then obtain s where "job_view db k = Some s" by blast
  with assms [of db] show "job_view (fst (case f db of Inl e \<Rightarrow> (db, Inl e) | Inr db' \<Rightarrow> (db', Inr ()))) k \<noteq> None"
    by (cases "f db") auto
qed

lemma moved_view: "moved db db' k t s \<Longrightarrow> job_view db' k \<noteq> None"
  by (auto simp: moved_def)

lemma append_log_view: "append_log now ws_id job_id m l meta db = Inr db' \<Longrightarrow> job_view db' k = job_view db k"
  by (auto simp: append_log_def)

lemma keeps_append_event [keeps_intros]: "keeps_job k (lift_unit (append_event ws_id job_id e))"
  by (rule keeps_lift_unit) simp

lemma keeps_log [keeps_intros]: "keeps_job k (a_log now ws_id job_id m l)"
  unfolding a_log_def by (rule keeps_lift_unit) (simp add: append_log_view)

lemma keeps_progress [keeps_intros]: "keeps_job k (a_progress now ws_id job_id c w m)"
  unfolding a_progress_def by (rule keeps_lift_unit) (simp add: update_progress_view)

lemma keeps_fail [keeps_intros]: "keeps_job k (a_fail now ws_id job_id e)"
  unfolding a_fail_def by (intro keeps_intros keeps_lift_op) (blast dest: mark_failed_moved moved_view)

lemma keeps_cancelled [keeps_intros]: "keeps_job k (a_cancelled now ws_id job_id m)"
  unfolding a_cancelled_def by (intro keeps_intros keeps_lift_op) (blast dest: mark_cancelled_moved moved_view)

lemma keeps_update [keeps_intros]:
  "distinct (map fst patch) \<Longrightarrow> map_of patch ''status'' = None \<Longrightarrow> keeps_job k (a_update now ws_id job_id patch)"
  unfolding a_update_def by (rule keeps_lift_op) (simp add: update_job_keeps_view)

lemma keeps_cancel_check [keeps_intros]: "keeps_job k (cancel_check now rec)"
  unfolding cancel_check_def Let_def by (intro keeps_intros)

text \<open>The services leave the job in place while a handler waits for them.\<close>

definition world_keeps :: "string \<times> string \<Rightarrow> job_world \<Rightarrow> bool" where
  "world_keeps k w \<longleftrightarrow>
     (\<forall>a b c. keeps_job k (jw_submit w a b c)) \<and> (\<forall>a b. keeps_job k (jw_create_report w a b))
     \<and> (\<forall>a b. keeps_job k (jw_reindex_source w a b)) \<and> (\<forall>a. keeps_job k (jw_import_file w a))
     \<and> (\<forall>a b c. keeps_job k (jw_execute_inspection w a b c)) \<and> (\<forall>a b c d. keeps_job k (jw_execute_workflow w a b c d))"

lemma keeps_world:
  assumes "world_keeps k w"
  shows "keeps_job k (jw_submit w a b c)" "keeps_job k (jw_create_report w a' b')" "keeps_job k (jw_reindex_source w a2 b2)"
    "keeps_job k (jw_import_file w a3)" "keeps_job k (jw_execute_inspection w a4 b4 c4)"
    "keeps_job k (jw_execute_workflow w a5 b5 c5 d5)"
  using assms unfolding world_keeps_def by blast+

lemma keeps_handler:
  assumes "world_keeps k w"
  shows "keeps_job k (run_handler w now rec)"
proof -
  note world = keeps_world [OF assms]
  have "keeps_job k (run_agent_job w now rec)"
    unfolding run_agent_job_def Let_def by (intro keeps_intros world) simp_all
  moreover have "keeps_job k (run_export_report w now rec)"
    unfolding run_export_report_def Let_def by (intro keeps_intros world) simp_all
  moreover have "keeps_job k (run_knowledge_index w now rec)"
    unfolding run_knowledge_index_def Let_def by (intro keeps_intros world) simp_all
  moreover have "keeps_job k (run_network_inspection w now rec)"
    unfolding run_network_inspection_def Let_def by (intro keeps_intros world) simp_all
  moreover have "keeps_job k (run_workflow_job w now rec)"
    unfolding run_workflow_job_def Let_def by (intro keeps_intros world) simp_all
  ultimately show ?thesis unfolding run_handler_def Let_def by (intro keeps_intros)
qed

section \<open>A claimed job is settled\<close>

definition unsettled :: "string set" where
  "unsettled = {''running'', ''queued'', ''paused''}"

lemma mark_failed_outcome:
  assumes "job_path ws_id job_id = Inr k" "job_id \<noteq> []" "job_view db k = Some s"
  shows "\<exists>db' t r. lift_op (mark_failed now ws_id job_id e summary) db = (db', r) \<and> job_view db' k = Some t \<and> t \<notin> unsettled"
proof -
  from job_viewD [OF assms(3)] obtain d where d: "st_get (jd_jobs db) k = Some d" "s \<in> set JOB_STATUSES" "job_status (load_job d) = s" by blast
  have get: "get_job ws_id job_id db = Inr (Some (load_job d))" using assms d(1) by (simp add: get_job_def)
  have table: "list_all (\<lambda>s. s \<notin> unsettled \<or> job_allowed s ''failed'') JOB_STATUSES"
    unfolding unsettled_def by code_simp
  let ?patch = "with_summary summary [(''status'', PStr ''failed''), (''finished_at'', PStr now), (''error'', PStr (take 500 e))]"
  show ?thesis
  proof (cases "check_transition s ''failed''")
    case (Inl err)
    then have "s \<notin> unsettled" using table d(2) by (auto simp: check_transition_def rguard_def list_all_iff split: if_splits)
    moreover have "mark_failed now ws_id job_id e summary db = Inl err"
      using get d(3) Inl by (simp add: mark_failed_def checked_mark_def Let_def)
    ultimately show ?thesis using assms(3) by (auto simp: lift_op_def)
  next
    case (Inr u)
    from update_and_emit_total [OF assms(1) d(1)] obtain db' r where
      up: "update_and_emit now ws_id job_id ?patch ''job_failed'' (''Job failed: '' @ take 100 (take 500 e)) db = Inr (db', Some r)" by blast
    have "job_view db' k = Some ''failed''"
      using update_and_emit_view [OF up assms(3)] assms(1)
        summary_patch [of "[(''status'', PStr ''failed''), (''finished_at'', PStr now), (''error'', PStr (take 500 e))]"] by simp
    moreover have "mark_failed now ws_id job_id e summary db = Inr (db', Some r)"
      using get d(3) Inr up by (simp add: mark_failed_def checked_mark_def Let_def)
    ultimately show ?thesis by (auto simp: lift_op_def unsettled_def)
  qed
qed

lemma a_log_view: "job_view (fst (a_log now ws_id job_id m l db)) k = job_view db k"
  by (auto simp: a_log_def lift_unit_def append_log_view split: sum.splits)

lemma run_error_settles:
  assumes "job_path ws_id job_id = Inr k" "job_id \<noteq> []" "job_view db k = Some s"
  shows "\<exists>t. job_view (fst (run_error now ws_id job_id e db)) k = Some t \<and> t \<notin> unsettled"
proof -
  let ?m = "or_else (take 300 (redact_text (exc_str e))) ''job_execution_failed''"
  from mark_failed_outcome [OF assms, of now ?m "[]"] obtain db1 t r where
    m: "lift_op (mark_failed now ws_id job_id ?m []) db = (db1, r)" "job_view db1 k = Some t" "t \<notin> unsettled" by blast
  have "job_view (fst (run_error now ws_id job_id e db)) k = job_view db1 k"
    using m(1) a_log_view [where k = k]
    by (cases r) (simp_all add: run_error_def Let_def a_fail_def abind_def ret_def)
  with m show ?thesis by auto
qed

lemma mark_succeeded_view:
  assumes "mark_succeeded now ws_id job_id summary db = Inr (db', r)" "job_path ws_id job_id = Inr k" "job_id \<noteq> []"
    and "job_view db k = Some s"
  shows "job_view db' k = Some ''succeeded''"
proof -
  from job_viewD [OF assms(4)] obtain d where "st_get (jd_jobs db) k = Some d" by blast
  then have "get_job ws_id job_id db = Inr (Some (load_job d))" using assms(2,3) by (simp add: get_job_def)
  with assms(1) have "update_and_emit now ws_id job_id
       (with_summary summary [(''status'', PStr ''succeeded''), (''finished_at'', PStr now)]) ''job_succeeded'' ''Job succeeded'' db = Inr (db', r)"
    by (auto simp: mark_succeeded_def checked_mark_def write_succeeded_def)
  from update_and_emit_view [OF this assms(4)] assms(2)
    summary_patch [of "[(''status'', PStr ''succeeded''), (''finished_at'', PStr now)]"] show ?thesis by simp
qed

text \<open>The body of the \<open>try\<close>: it returns with a settled job, or it raises and the job is still there.\<close>

lemma run_body_outcome:
  assumes "world_keeps k w" "job_path ws_id job_id = Inr k" "job_id \<noteq> []" "job_view db k \<noteq> None"
  shows "\<exists>db' r t. run_body w now ws_id job_id rec db = (db', r) \<and> job_view db' k = Some t \<and> (r = Inr () \<longrightarrow> t \<notin> unsettled)"
proof -
  let ?start = "abind (a_log now ws_id job_id (''Starting '' @ gets rec ''job_type'' @ '' job'') ''info'') (\<lambda>_. run_handler w now rec)"
  have body: "run_body w now ws_id job_id rec db = abind ?start (\<lambda>_.
     abind (lift_read (get_job ws_id job_id)) (\<lambda>final.
     case final of None \<Rightarrow> ret ()
     | Some r \<Rightarrow> if job_status r \<in> {''failed'', ''cancelled''} then ret ()
         else abind (lift_op (mark_succeeded now ws_id job_id (final_summary r))) (\<lambda>_. ret ()))) db"
    by (simp add: run_body_def abind_def split: prod.splits sum.splits)
  have "keeps_job k ?start" by (intro keeps_intros keeps_handler assms(1))
  with assms(4) obtain db1 r1 u where s: "?start db = (db1, r1)" "job_view db1 k = Some u"
    by (cases "?start db") (fastforce simp: keeps_job_def)
  from job_viewD [OF s(2)] obtain d where d: "st_get (jd_jobs db1) k = Some d" "job_status (load_job d) = u" by blast
  then have get: "get_job ws_id job_id db1 = Inr (Some (load_job d))" using assms(2,3) by (simp add: get_job_def)
  let ?mark = "mark_succeeded now ws_id job_id (final_summary (load_job d)) db1"
  show ?thesis
  proof (cases r1)
    case (Inl e)
    with s show ?thesis by (simp add: body abind_def)
  next
    case (Inr v)
    show ?thesis
    proof (cases "u \<in> {''failed'', ''cancelled''}")
      case True
      with s Inr get d(2) show ?thesis by (auto simp: body abind_def lift_read_def ret_def unsettled_def)
    next
      case False
      show ?thesis
      proof (cases ?mark)
        case (Inl e)
        with s Inr get d(2) False show ?thesis by (auto simp: body abind_def lift_read_def lift_op_def)
      next
        case (Inr x)
        then obtain db2 r2 where m: "?mark = Inr (db2, r2)" by (cases x) auto
        from mark_succeeded_view [OF m assms(2,3) s(2)] m s \<open>r1 = Inr v\<close> get d(2) False show ?thesis
          by (auto simp: body abind_def lift_read_def lift_op_def ret_def unsettled_def)
      qed
    qed
  qed
qed

text \<open>C16: when a worker has claimed a job, the job is not left running, queued or paused, whatever the
  handler and the services do and however they fail, provided that nobody deletes the job
  meanwhile. (An inspection job is removed by its own clean-up afterwards.)\<close>

theorem run_job_settles:
  assumes "world_keeps k w" "job_path ws_id job_id = Inr k" "job_id \<noteq> []"
    and "claim_job_for_execution now ws_id job_id db = Inr (db1, Some rec)" "gets rec ''job_type'' \<noteq> ''network_inspection''"
  shows "\<exists>t. job_view (fst (run_job w now ws_id job_id db)) k = Some t \<and> t \<notin> {''running'', ''queued'', ''paused''}"
proof -
  have v1: "job_view db1 k = Some ''running''" by (rule claim_succeeds [OF assms(4,2)])
  from run_body_outcome [OF assms(1-3)] v1 obtain db2 r t where
    b: "run_body w now ws_id job_id rec db1 = (db2, r)" "job_view db2 k = Some t" "r = Inr () \<longrightarrow> t \<notin> unsettled" by fastforce
  have "\<exists>t. job_view (fst (catch (run_body w now ws_id job_id rec) (run_error now ws_id job_id) db1)) k = Some t \<and> t \<notin> unsettled"
  proof (cases r)
    case (Inl e)
    with b run_error_settles [OF assms(2,3) b(2)] show ?thesis by (simp add: catch_def)
  next
    case (Inr u)
    with b show ?thesis by (simp add: catch_def)
  qed
  then show ?thesis
    using assms(4,5) by (auto simp: run_job_def abind_def lift_op_def finally_do_def inspection_cleanup_def ret_def unsettled_def split: prod.splits)
qed

text \<open>An instance of the services: everything fails.\<close>

definition failing_world :: job_world where
  "failing_world =
     \<lparr>jw_submit = \<lambda>_ _ _. throw (RuntimeError ''down''), jw_create_report = \<lambda>_ _. throw (RuntimeError ''down''),
      jw_reindex_source = \<lambda>_ _. throw (RuntimeError ''down''), jw_import_file = \<lambda>_. throw (RuntimeError ''down''),
      jw_execute_inspection = \<lambda>_ _ _. throw (RuntimeError ''down''),
      jw_finalize_inspection = \<lambda>_ _ _. throw (RuntimeError ''down''),
      jw_execute_workflow = \<lambda>_ _ _ _. throw (RuntimeError ''down'')\<rparr>"

lemma failing_world_keeps: "world_keeps k failing_world"
  by (simp add: world_keeps_def failing_world_def keeps_throw)

lemma sample_claim:
  "\<exists>db1 rec. claim_job_for_execution now ''default'' ''job_1'' (sample_jobs ''queued'') = Inr (db1, Some rec)
     \<and> gets rec ''job_type'' \<noteq> ''network_inspection''"
proof -
  let ?d = "[(''job_id'', PStr ''job_1''), (''workspace_id'', PStr ''default''), (''status'', PStr ''queued'')]"
  have d: "st_get (jd_jobs (sample_jobs ''queued'')) sample_path = Some ?d" by code_simp
  have q: "job_status (load_job ?d) = ''queued''" by code_simp
  obtain r where r: "claim_body now (load_job ?d) = Some r" "dget r ''job_type'' = PStr ''agent_run''"
    using q by (simp add: claim_body_def dget_load_job dget_or_def JobRecord_def job_fields_def dget_dset)
  have "clean_text ''agent_run'' = ''agent_run''" by (rule clean_text_word) code_simp+
  then have "dget (sanitize_record r) ''job_type'' = PStr ''agent_run''"
    using dget_sanitize_field [of "''job_type''" r] r(2) by (simp add: job_fields_def JobRecord_def)
  then have jt: "gets (sanitize_record r) ''job_type'' = ''agent_run''" by (rule gets_eq_of_dget)
  show ?thesis
    using section_saved [where body = "claim_body now", OF sample_job_path d r(1)] append_event_ok [OF sample_job_path] jt
    by (fastforce simp: claim_job_for_execution_def)
qed

theorem run_job_settles_witness:
  "\<exists>t. job_view (fst (run_job failing_world ''t'' ''default'' ''job_1'' (sample_jobs ''queued''))) sample_path = Some t
     \<and> t \<notin> {''running'', ''queued'', ''paused''}"
proof -
  from sample_claim obtain db1 rec where
    "claim_job_for_execution ''t'' ''default'' ''job_1'' (sample_jobs ''queued'') = Inr (db1, Some rec)"
    "gets rec ''job_type'' \<noteq> ''network_inspection''" by blast
  from run_job_settles [OF failing_world_keeps sample_job_path _ this] show ?thesis by simp
qed

section \<open>The filesystem queue and the worker\<close>

text \<open>The job databases of the storage principals; \<open>current\<close> is the principal of the worker process
  and \<open>known\<close> the list of \<open>known_storage_principals\<close>.\<close>

type_synonym principals = "(string \<times> job_db) list"

record queue_receipt =
  qr_workspace_id :: string
  qr_job_id :: string
  qr_lease_id :: string
  qr_attempt :: int
  qr_principal :: string

definition empty_db :: job_db where
  "empty_db = \<lparr>jd_jobs = [], jd_events = [], jd_logs = [], jd_index = []\<rparr>"

definition db_of :: "principals \<Rightarrow> string \<Rightarrow> job_db" where
  "db_of dbs p = (case map_of dbs p of None \<Rightarrow> empty_db | Some db \<Rightarrow> db)"

text \<open>\<open>FileJobQueue.claim\<close>; \<open>enqueue\<close>, \<open>ack\<close>, \<open>retry\<close>, \<open>heartbeat\<close> and \<open>reclaim_stale\<close> of this queue
  do nothing.\<close>

fun file_claim :: "string list \<Rightarrow> principals \<Rightarrow> queue_receipt option res" where
  "file_claim [] dbs = Inr None"
| "file_claim (p # ps) dbs =
     (case get_next_queued_job (db_of dbs p) of
        None \<Rightarrow> file_claim ps dbs
      | Some job \<Rightarrow>
          rbind (geti job ''retry_count'') (\<lambda>n.
          Inr (Some \<lparr>qr_workspace_id = gets job ''workspace_id'', qr_job_id = gets job ''job_id'',
                     qr_lease_id = ''file:'' @ gets job ''job_id'', qr_attempt = n + 1, qr_principal = p\<rparr>)))"

definition queue_claim :: "string \<Rightarrow> string list \<Rightarrow> principals \<Rightarrow> queue_receipt option res" where
  "queue_claim current known dbs = file_claim (fromkeys (current # known)) dbs"

datatype worker_result =
    Idle
  | Locked
  | LeaseExpired string
  | Missing string
  | Completed string
  | Raised py_error

text \<open>\<open>run_once\<close> with the filesystem queue: the host lock is free or not; the receipt's principal is
  entered unless it is empty. The state record of the worker and the heartbeat thread are left out.\<close>

definition scope_of :: "string \<Rightarrow> queue_receipt \<Rightarrow> string" where
  "scope_of current receipt = (if qr_principal receipt \<noteq> [] then qr_principal receipt else current)"

definition run_receipt :: "job_world \<Rightarrow> string \<Rightarrow> queue_receipt \<Rightarrow> job_db \<Rightarrow> job_db \<times> worker_result" where
  "run_receipt w now receipt db =
     (let ws = qr_workspace_id receipt; jid = qr_job_id receipt in
      case get_job ws jid db of
        Inl e \<Rightarrow> (db, Raised e)
      | Inr job \<Rightarrow>
          (case fence_reclaimed_running_job now ws jid (qr_lease_id receipt) (qr_attempt receipt) db of
             Inl e \<Rightarrow> (db, Raised e)
           | Inr (db1, Some fenced) \<Rightarrow> (db1, LeaseExpired (gets fenced ''job_id''))
           | Inr (db1, None) \<Rightarrow>
               (case job of
                  None \<Rightarrow> (db1, Missing jid)
                | Some j \<Rightarrow>
                    (case run_job w now (gets j ''workspace_id'') (gets j ''job_id'') db1 of
                       (db2, Inl e) \<Rightarrow> (db2, Raised e)
                     | (db2, Inr _) \<Rightarrow> (db2, Completed (gets j ''job_id''))))))"

definition run_once ::
  "job_world \<Rightarrow> string \<Rightarrow> bool \<Rightarrow> string \<Rightarrow> string list \<Rightarrow> principals \<Rightarrow> principals \<times> worker_result" where
  "run_once w now lock_free current known dbs =
     (if \<not> lock_free then (dbs, Locked)
      else
        (case queue_claim current known dbs of
           Inl e \<Rightarrow> (dbs, Raised e)
         | Inr None \<Rightarrow> (dbs, Idle)
         | Inr (Some receipt) \<Rightarrow>
             (let p = scope_of current receipt; (db', result) = run_receipt w now receipt (db_of dbs p)
              in (AList.update p db' dbs, result))))"

text \<open>A record lies in the directory of its own workspace and job, and has one of the statuses.\<close>

definition good_record :: "job_db \<Rightarrow> string \<times> string \<Rightarrow> pydict \<Rightarrow> bool" where
  "good_record db k d \<longleftrightarrow>
     gets (load_job d) ''workspace_id'' = fst k \<and> gets (load_job d) ''job_id'' = snd k \<and> job_path (fst k) (snd k) = Inr k
     \<and> job_view db k \<noteq> None"

definition good_db :: "job_db \<Rightarrow> bool" where
  "good_db db \<longleftrightarrow> list_all (\<lambda>(k, d). good_record db k d) (jd_jobs db)"

lemma find_SomeD: "find P xs = Some x \<Longrightarrow> P x \<and> x \<in> set xs"
  by (induction xs) (auto split: if_splits)

lemma next_queued_Some:
  assumes "get_next_queued_job db = Some j"
  obtains k d where "st_get (jd_jobs db) k = Some d" "(k, d) \<in> set (jd_jobs db)" "j = load_job d" "job_status j = ''queued''"
proof -
  let ?paths = "concat (map (\<lambda>ws. map (Pair ws) (sort (map (snd \<circ> fst) (filter (\<lambda>((w, _), _). w = ws) (jd_jobs db)))))
                    (rev (sorted_set (map (fst \<circ> fst) (jd_jobs db)))))"
  from assms have find: "find (\<lambda>j. job_status j = ''queued'') (map (\<lambda>p. load_job (the (st_get (jd_jobs db) p))) ?paths) = Some j"
    by (simp add: get_next_queued_job_def Let_def)
  from find_SomeD [OF find] have q: "job_status j = ''queued''"
    and "j \<in> set (map (\<lambda>p. load_job (the (st_get (jd_jobs db) p))) ?paths)" by blast+
  then obtain k where k: "k \<in> set ?paths" "j = load_job (the (st_get (jd_jobs db) k))" unfolding set_map by blast
  from k(1) have "k \<in> fst ` set (jd_jobs db)" by (auto simp: image_iff) force
  then obtain d where d: "st_get (jd_jobs db) k = Some d"
    by (cases "st_get (jd_jobs db) k") (auto simp: st_get_def map_of_eq_None_iff)
  have "(k, d) \<in> set (jd_jobs db)" using d by (simp add: st_get_def map_of_SomeD)
  with d k(2) q show ?thesis by (intro that [of k d]) simp_all
qed

lemma file_claim_Some:
  assumes "file_claim ps dbs = Inr (Some receipt)" "\<And>p. p \<in> set ps \<Longrightarrow> good_db (db_of dbs p)"
  shows "let db = db_of dbs (qr_principal receipt); k = (qr_workspace_id receipt, qr_job_id receipt)
         in job_view db k = Some ''queued'' \<and> job_path (qr_workspace_id receipt) (qr_job_id receipt) = Inr k
            \<and> (\<exists>d. st_get (jd_jobs db) k = Some d \<and> good_record db k d)"
  using assms
proof (induction ps dbs rule: file_claim.induct)
  case (2 p ps dbs)
  show ?case
  proof (cases "get_next_queued_job (db_of dbs p)")
    case None
    with 2 show ?thesis by simp
  next
    case (Some j)
    then show ?thesis
    proof (rule next_queued_Some)
      fix k d assume d: "st_get (jd_jobs (db_of dbs p)) k = Some d" "(k, d) \<in> set (jd_jobs (db_of dbs p))" "j = load_job d"
        and q: "job_status j = ''queued''"
      from 2(3) [of p] d(2) have good: "good_record (db_of dbs p) k d" by (auto simp: good_db_def list_all_iff)
      then obtain s where s: "job_view (db_of dbs p) k = Some s" by (auto simp: good_record_def)
      from job_viewD [OF s] d q have sq: "s = ''queued''" by auto
      from 2(2) Some have "qr_principal receipt = p" "qr_workspace_id receipt = gets j ''workspace_id''" "qr_job_id receipt = gets j ''job_id''"
        by auto
      with good d s sq show ?thesis by (auto simp: good_record_def Let_def)
    qed
  qed
qed simp

text \<open>one iteration of the worker takes the next queued job of the principals in order, executes it
  and leaves it settled; without a queued job, or when another worker holds the host lock, it
  changes nothing.\<close>

theorem run_once_settles_next_job:
  assumes "queue_claim current known dbs = Inr (Some receipt)" "\<And>p. p \<in> set (current # known) \<Longrightarrow> good_db (db_of dbs p)"
    and "qr_principal receipt = [] \<Longrightarrow> current = []"
    and "world_keeps (qr_workspace_id receipt, qr_job_id receipt) w"
    and "\<And>d. st_get (jd_jobs (db_of dbs (qr_principal receipt))) (qr_workspace_id receipt, qr_job_id receipt) = Some d
           \<Longrightarrow> gets (sanitize_record (the (claim_body now (load_job d)))) ''job_type'' \<noteq> ''network_inspection''"
  shows "\<exists>t. job_view (db_of (fst (run_once w now True current known dbs)) (qr_principal receipt))
               (qr_workspace_id receipt, qr_job_id receipt) = Some t
           \<and> t \<notin> {''running'', ''queued'', ''paused''}"
proof -
  let ?k = "(qr_workspace_id receipt, qr_job_id receipt)"
  let ?db = "db_of dbs (qr_principal receipt)"
  have scope: "scope_of current receipt = qr_principal receipt" using assms(3) by (auto simp: scope_of_def)
  from file_claim_Some [OF assms(1) [unfolded queue_claim_def]] assms(2) obtain d where
    v: "job_view ?db ?k = Some ''queued''" and path: "job_path (qr_workspace_id receipt) (qr_job_id receipt) = Inr ?k"
    and d: "st_get (jd_jobs ?db) ?k = Some d" "good_record ?db ?k d" by (fastforce simp: Let_def)
  have jid: "qr_job_id receipt \<noteq> []"
    using path by (auto simp: job_path_def validate_job_id_def validate_run_id_def py_strip_def)
  have get: "get_job (qr_workspace_id receipt) (qr_job_id receipt) ?db = Inr (Some (load_job d))"
    using path d(1) jid by (simp add: get_job_def)
  from job_viewD [OF v] d(1) have st: "job_status (load_job d) = ''queued''" by auto
  have fence: "fence_reclaimed_running_job now (qr_workspace_id receipt) (qr_job_id receipt) l a ?db = Inr (?db, None)" for l a
    using path d(1) st by (simp add: fence_reclaimed_running_job_def job_section_def fence_body_def)
  obtain r where r: "claim_body now (load_job d) = Some r" using st by (simp add: claim_body_def)
  obtain db1 where claim: "claim_job_for_execution now (qr_workspace_id receipt) (qr_job_id receipt) ?db = Inr (db1, Some (sanitize_record r))"
    using section_saved [where body = "claim_body now", OF path d(1) r] append_event_ok [OF path]
    by (fastforce simp: claim_job_for_execution_def)
  have "gets (sanitize_record r) ''job_type'' \<noteq> ''network_inspection''" using assms(5) [OF d(1)] r by simp
  from run_job_settles [OF assms(4) path jid claim this] obtain t where
    t: "job_view (fst (run_job w now (qr_workspace_id receipt) (qr_job_id receipt) ?db)) ?k = Some t" "t \<notin> {''running'', ''queued'', ''paused''}"
    by blast
  have fields: "gets (load_job d) ''workspace_id'' = qr_workspace_id receipt" "gets (load_job d) ''job_id'' = qr_job_id receipt"
    using d(2) by (simp_all add: good_record_def)
  have "fst (run_receipt w now receipt ?db) = fst (run_job w now (qr_workspace_id receipt) (qr_job_id receipt) ?db)"
    using get fence fields by (simp add: run_receipt_def Let_def split: prod.splits sum.splits)
  then have "db_of (fst (run_once w now True current known dbs)) (qr_principal receipt)
      = fst (run_job w now (qr_workspace_id receipt) (qr_job_id receipt) ?db)"
    using assms(1) scope
    by (cases "run_receipt w now receipt ?db") (simp add: run_once_def db_of_def [of "AList.update _ _ _"] update_conv' Let_def)
  with t show ?thesis by simp
qed

theorem run_once_settles_next_job_witness:
  "\<exists>t. job_view (db_of (fst (run_once failing_world ''t'' True [] [] [([], sample_jobs ''queued'')])) []) sample_path = Some t
     \<and> t \<notin> {''running'', ''queued'', ''paused''}"
proof -
  let ?dbs = "[([], sample_jobs ''queued'')]"
  let ?receipt = "\<lparr>qr_workspace_id = ''default'', qr_job_id = ''job_1'', qr_lease_id = ''file:job_1'', qr_attempt = 1, qr_principal = []\<rparr>"
  have q: "queue_claim [] [] ?dbs = Inr (Some ?receipt)" by code_simp
  have db: "db_of ?dbs [] = sample_jobs ''queued''" by (simp add: db_of_def)
  have "good_db (sample_jobs ''queued'')" by code_simp
  then have good: "good_db (db_of ?dbs p)" if "p \<in> set [[]]" for p using that db by simp
  have jt: "gets (sanitize_record (the (claim_body ''t'' (load_job d)))) ''job_type'' \<noteq> ''network_inspection''"
    if d: "st_get (jd_jobs (db_of ?dbs (qr_principal ?receipt))) (qr_workspace_id ?receipt, qr_job_id ?receipt) = Some d" for d
  proof -
    obtain db1 rec where c: "claim_job_for_execution ''t'' ''default'' ''job_1'' (sample_jobs ''queued'') = Inr (db1, Some rec)"
      "gets rec ''job_type'' \<noteq> ''network_inspection''" using sample_claim by blast
    from d have d': "st_get (jd_jobs (sample_jobs ''queued'')) sample_path = Some d" by (simp add: db sample_path_def)
    have "job_status (load_job d) = ''queued''" using job_viewD [OF sample_view [of "''queued''"]] d' by auto
    then obtain r where r: "claim_body ''t'' (load_job d) = Some r" by (simp add: claim_body_def)
    from c(1) section_saved [where body = "claim_body ''t''", OF sample_job_path d' r] have "rec = sanitize_record r"
      by (auto simp: claim_job_for_execution_def)
    with c(2) r show ?thesis by simp
  qed
  show ?thesis
    using run_once_settles_next_job [OF q good _ failing_world_keeps jt] by (simp add: sample_path_def)
qed

end
