(* ===== verification/Workflow_Definition.thy ===== *)
theory Workflow_Definition
  imports Layering Redaction Py_Json Storage_Ids
begin

text \<open>
  Workflow definitions (\<open>workflows/service.py\<close>): validation of a DAG of tool calls, references
  between nodes, rejection of secrets, and templates. A normalized definition has fixed keys, so it is a
  record; \<open>definition_dict\<close> is the dictionary that is stored.

  Parameters: the ids of the enabled tools (\<open>_tool_client().list_tools()\<close>) and the fresh id of a new
  workflow. The limits of \<open>SSOTRuntimeConfig()\<close> are its defaults.
\<close>

section \<open>Data\<close>

record wf_node =
  wn_id :: string
  wn_name :: string
  wn_tool :: string
  wn_args :: pydict
  wn_deps :: "string list"
  wn_when :: pyval

record wf_definition =
  wd_id :: string
  wd_name :: string
  wd_description :: string
  wd_version :: int
  wd_status :: string
  wd_policy :: string
  wd_nodes :: "wf_node list"
  wd_order :: "string list"
  wd_layers :: "string list list"
  wd_template :: string

definition node_dict :: "wf_node \<Rightarrow> pyval" where
  "node_dict n = PDict
     [(''node_id'', PStr (wn_id n)), (''name'', PStr (wn_name n)), (''tool_id'', PStr (wn_tool n)),
      (''arguments'', PDict (wn_args n)), (''depends_on'', PList (map PStr (wn_deps n))), (''when'', wn_when n)]"

definition definition_dict :: "wf_definition \<Rightarrow> pydict" where
  "definition_dict d =
     [(''workflow_id'', PStr (wd_id d)), (''name'', PStr (wd_name d)), (''description'', PStr (wd_description d)),
      (''version'', PInt (wd_version d)), (''status'', PStr (wd_status d)), (''failure_policy'', PStr (wd_policy d)),
      (''nodes'', PList (map node_dict (wd_nodes d))), (''execution_order'', PList (map PStr (wd_order d))),
      (''execution_layers'', PList (map (\<lambda>l. PList (map PStr l)) (wd_layers d)))]
     @ (if wd_template d \<noteq> [] then [(''template_id'', PStr (wd_template d))] else [])"

definition WORKFLOW_ID_RE :: "string \<Rightarrow> bool" where
  "WORKFLOW_ID_RE s \<longleftrightarrow> 1 \<le> length s \<and> length s \<le> 80 \<and> list_all is_idchar s"

definition wf_id :: "string \<Rightarrow> string \<Rightarrow> string res" where
  "wf_id value label =
     (let result = py_strip value in
      rbind (rguard (WORKFLOW_ID_RE result) (WorkflowError (''invalid '' @ label))) (\<lambda>_. Inr result))"

section \<open>Templates\<close>

text \<open>\<open>\<dollar>{[^{}]+}\<close> at the start of a text: the expression and the rest.\<close>

definition template_at :: "string \<Rightarrow> (string \<times> string) option" where
  "template_at s =
     (if take 2 s \<noteq> [CHR 0x24, CHR 0x7B] then None
      else
        let body = drop 2 s; ok = (\<lambda>c. c \<noteq> CHR 0x7B \<and> c \<noteq> CHR 0x7D);
            expr = takeWhile ok body; rest = dropWhile ok body
        in if expr \<noteq> [] \<and> take 1 rest = [CHR 0x7D] then Some (expr, drop 1 rest) else None)"

definition template_search :: "string \<Rightarrow> bool" where
  "template_search s \<longleftrightarrow> list_ex (\<lambda>i. template_at (drop i s) \<noteq> None) [0..<length s]"

lemma length_dropWhile_le': "length (dropWhile P xs) \<le> length xs"
  by (induction xs) auto

lemma template_at_shorter: "template_at s = Some (e, r) \<Longrightarrow> length r < length s"
proof -
  assume "template_at s = Some (e, r)"
  then have "take 2 s = [CHR 0x24, CHR 0x7B]" "r = drop 1 (dropWhile (\<lambda>c. c \<noteq> CHR 0x7B \<and> c \<noteq> CHR 0x7D) (drop 2 s))"
    by (auto simp: template_at_def Let_def split: if_splits)
  moreover from this(1) have "2 \<le> length s" by (metis length_Cons length_take list.size(3) min.cobounded1 numeral_2_eq_2 One_nat_def)
  ultimately show ?thesis
    using length_dropWhile_le' [of "\<lambda>c. c \<noteq> CHR 0x7B \<and> c \<noteq> CHR 0x7D" "drop 2 s"] by simp
qed

fun lookup_path :: "string \<Rightarrow> string list \<Rightarrow> pyval \<Rightarrow> pyval res" where
  "lookup_path expression [] value = Inr value"
| "lookup_path expression (part # parts) value =
     (case value of
        PDict d \<Rightarrow>
          if din part d then lookup_path expression parts (dget d part)
          else Inl (WorkflowError (''workflow template value not found: '' @ expression))
      | _ \<Rightarrow> Inl (WorkflowError (''workflow template value not found: '' @ expression)))"

definition wf_lookup :: "pydict \<Rightarrow> string \<Rightarrow> pyval res" where
  "wf_lookup scope expression = lookup_path expression (py_split (CHR ''.'') expression) (PDict scope)"

text \<open>\<open>_TEMPLATE.sub\<close>.\<close>

function resolve_text :: "pydict \<Rightarrow> string \<Rightarrow> string res" where
  "resolve_text scope s =
     (case template_at s of
        Some (e, r) \<Rightarrow> rbind (wf_lookup scope e) (\<lambda>v. rbind (resolve_text scope r) (\<lambda>t. Inr (py_str v @ t)))
      | None \<Rightarrow> (case s of [] \<Rightarrow> Inr [] | c # s' \<Rightarrow> rbind (resolve_text scope s') (\<lambda>t. Inr (c # t))))"
  by pat_completeness auto
termination
  by (relation "measure (\<lambda>(scope, s). length s)") (auto dest: template_at_shorter)

declare resolve_text.simps [simp del]

fun resolve :: "pydict \<Rightarrow> pyval \<Rightarrow> pyval res" where
  "resolve scope (PDict d) =
     rbind (rmapM (\<lambda>(k, v). rbind (resolve scope v) (\<lambda>v'. Inr (k, v'))) d) (\<lambda>d'. Inr (PDict d'))"
| "resolve scope (PList xs) = rbind (rmapM (resolve scope) xs) (\<lambda>ys. Inr (PList ys))"
| "resolve scope (PStr s) =
     (case template_at s of
        Some (e, []) \<Rightarrow> wf_lookup scope e
      | _ \<Rightarrow> rbind (resolve_text scope s) (\<lambda>t. Inr (PStr t)))"
| "resolve scope v = Inr v"

section \<open>Secrets\<close>

text \<open>\<open>_reject_static_secrets\<close> and \<open>_reject_runtime_secrets\<close> raise for these values.\<close>

fun static_secret :: "string \<Rightarrow> pyval \<Rightarrow> bool" where
  "static_secret key (PDict d) = list_ex (\<lambda>(k, v). static_secret k v) d"
| "static_secret key (PList xs) = list_ex (static_secret key) xs"
| "static_secret key v =
     (is_sensitive_field key \<and> \<not> (case v of PStr s \<Rightarrow> template_search s | _ \<Rightarrow> False))"

fun runtime_secret :: "string \<Rightarrow> pyval \<Rightarrow> bool" where
  "runtime_secret key (PDict d) = list_ex (\<lambda>(k, v). runtime_secret k v) d"
| "runtime_secret key (PList xs) = list_ex (runtime_secret key) xs"
| "runtime_secret key v = (is_sensitive_field key \<and> v \<noteq> PNone \<and> v \<noteq> PStr [])"

definition validate_workflow_inputs :: "pyval \<Rightarrow> pydict res" where
  "validate_workflow_inputs inputs =
     (let normalized = py_or inputs (PDict []) in
      rbind (rguard (is_dict normalized) (WorkflowError ''workflow inputs must be an object'')) (\<lambda>_.
      rbind (rguard (\<not> runtime_secret [] normalized)
        (WorkflowError ''workflow inputs cannot contain raw secrets; use a secret reference or a preconfigured asset'')) (\<lambda>_.
      rbind (rguard (int (length (json_default normalized)) \<le> 1048576) (WorkflowError ''workflow inputs are too large'')) (\<lambda>_.
      Inr (as_dict normalized)))))"

section \<open>References\<close>

text \<open>\<open>\<dollar>{nodes.ID.\<close> at the start of a text.\<close>

definition reference_at :: "string \<Rightarrow> string option" where
  "reference_at s =
     (let prefix = [CHR 0x24, CHR 0x7B] @ ''nodes.'' in
      if take (length prefix) s \<noteq> prefix then None
      else
        let ident = takeWhile is_idchar (drop (length prefix) s); rest = dropWhile is_idchar (drop (length prefix) s)
        in if ident \<noteq> [] \<and> take 1 rest = ''.'' then Some ident else None)"

definition text_references :: "string \<Rightarrow> string list" where
  "text_references s = List.map_filter (\<lambda>i. reference_at (drop i s)) [0..<length s]"

fun references :: "pyval \<Rightarrow> string list" where
  "references (PDict d) = concat (map (\<lambda>(k, v). references v) d)"
| "references (PList xs) = concat (map references xs)"
| "references (PStr s) = text_references s"
| "references v = []"

text \<open>The work list of \<open>ancestors\<close>; a dependency that is not a node would be a \<open>KeyError\<close>.\<close>

type_synonym dep_graph = "(string \<times> string list) list"

function ancestors_loop :: "dep_graph \<Rightarrow> string list \<Rightarrow> string list \<Rightarrow> string list res" where
  "ancestors_loop g result [] = Inr result"
| "ancestors_loop g result (d # pending) =
     (if d \<in> set result then ancestors_loop g result pending
      else (case map_of g d of
              None \<Rightarrow> Inl (KeyError d)
            | Some ds \<Rightarrow> ancestors_loop g (d # result) (rev ds @ pending)))"
  by pat_completeness auto
termination
proof (relation "measures [\<lambda>(g, result, pending). card (fst ` set g - set result), \<lambda>(g, result, pending). length pending]", goal_cases)
  case (3 g result d pending ds)
  then have "d \<in> fst ` set g - set result" by (force dest: map_of_SomeD)
  then have "card (fst ` set g - set (d # result)) < card (fst ` set g - set result)"
    by (intro psubset_card_mono) auto
  then show ?case by simp
qed auto

definition ancestors :: "dep_graph \<Rightarrow> string \<Rightarrow> string list res" where
  "ancestors g node_id =
     (case map_of g node_id of None \<Rightarrow> Inl (KeyError node_id) | Some ds \<Rightarrow> ancestors_loop g [] (rev ds))"

definition node_graph :: "wf_node list \<Rightarrow> dep_graph" where
  "node_graph nodes = map (\<lambda>n. (wn_id n, wn_deps n)) nodes"

definition check_references :: "dep_graph \<Rightarrow> wf_node \<Rightarrow> unit res" where
  "check_references g n =
     rbind (ancestors g (wn_id n)) (\<lambda>anc.
     let invalid = filter (\<lambda>r. r \<notin> set anc) (references (PDict (wn_args n)) @ references (wn_when n)) in
     rguard (invalid = [])
       (WorkflowError (''node '' @ wn_id n @ '' references nodes outside its dependencies: '' @ repr_strs (sorted_set invalid))))"

definition validate_references :: "wf_node list \<Rightarrow> unit res" where
  "validate_references nodes =
     rbind (rmapM (check_references (node_graph nodes)) nodes) (\<lambda>_. Inr ())"

definition execution_layers :: "wf_node list \<Rightarrow> string list list res" where
  "execution_layers nodes =
     (case kahn_layers id (node_graph nodes) of
        None \<Rightarrow> Inl (WorkflowError ''workflow graph contains a cycle'')
      | Some layers \<Rightarrow> Inr layers)"

section \<open>Validation\<close>

definition max_nodes :: nat where
  "max_nodes = 0"

definition max_depth :: nat where
  "max_depth = 0"

definition normalize_node :: "string list \<Rightarrow> string list \<Rightarrow> pyval \<Rightarrow> wf_node res" where
  "normalize_node tools seen raw =
     rbind (rguard (is_dict raw) (WorkflowError ''workflow nodes must be objects'')) (\<lambda>_.
     let d = as_dict raw in
     rbind (wf_id (gets d ''node_id'') ''node_id'') (\<lambda>node_id.
     rbind (rguard (node_id \<notin> set seen) (WorkflowError (''duplicate workflow node: '' @ node_id))) (\<lambda>_.
     let tool_id = py_strip (gets d ''tool_id'') in
     rbind (rguard (tool_id \<in> set tools) (WorkflowError (''unknown or disabled workflow tool: '' @ tool_id))) (\<lambda>_.
     let arguments = py_or (dget d ''arguments'') (PDict []) in
     rbind (rguard (is_dict arguments) (WorkflowError (''node arguments must be an object: '' @ node_id))) (\<lambda>_.
     rbind (rguard (\<not> static_secret [] arguments)
       (WorkflowError (''node '' @ node_id @ '' contains a static secret; use a secret reference or a preconfigured asset''))) (\<lambda>_.
     let depends_on = py_or (dget d ''depends_on'') (PList []) in
     rbind (rguard (is_list depends_on) (WorkflowError (''node dependencies must be a list: '' @ node_id))) (\<lambda>_.
     Inr \<lparr>wn_id = node_id, wn_name = take 120 (gets_or d ''name'' node_id), wn_tool = tool_id, wn_args = as_dict arguments,
          wn_deps = map py_str (as_list depends_on), wn_when = dget_or d ''when'' (PBool True)\<rparr>)))))))"

fun normalize_nodes :: "string list \<Rightarrow> string list \<Rightarrow> pyval list \<Rightarrow> wf_node list res" where
  "normalize_nodes tools seen [] = Inr []"
| "normalize_nodes tools seen (raw # raws) =
     rbind (normalize_node tools seen raw) (\<lambda>n.
     rbind (normalize_nodes tools (wn_id n # seen) raws) (\<lambda>ns. Inr (n # ns)))"

definition check_deps :: "string list \<Rightarrow> wf_node \<Rightarrow> unit res" where
  "check_deps node_ids n =
     (let missing = filter (\<lambda>d. d \<notin> set node_ids) (wn_deps n) in
      rguard (missing = [] \<and> wn_id n \<notin> set (wn_deps n))
        (WorkflowError (''invalid dependencies for '' @ wn_id n @ '': '' @ repr_strs (sorted_set missing))))"

definition wf_version :: "pyval \<Rightarrow> int res" where
  "wf_version v =
     (case py_int (py_or v (PInt 1)) of
        Inl _ \<Rightarrow> Inl (WorkflowError ''workflow version must be a positive integer'')
      | Inr n \<Rightarrow> if n < 1 then Inl (WorkflowError ''workflow version must be a positive integer'') else Inr n)"

definition validate_definition :: "string list \<Rightarrow> string \<Rightarrow> pyval \<Rightarrow> wf_definition res" where
  "validate_definition tools fresh payload =
     rbind (rguard (is_dict payload) (WorkflowError ''workflow definition must be an object'')) (\<lambda>_.
     let p = as_dict payload in
     rbind (wf_id (gets_or p ''workflow_id'' (''workflow_'' @ fresh)) ''workflow_id'') (\<lambda>workflow_id.
     let name = py_strip (gets p ''name'') in
     rbind (rguard (name \<noteq> []) (WorkflowError ''workflow name is required'')) (\<lambda>_.
     let nodes = dget p ''nodes'' in
     rbind (rguard (is_list nodes \<and> 1 \<le> length (as_list nodes) \<and> \<not> (max_nodes > 0 \<and> length (as_list nodes) > max_nodes))
       (WorkflowError (''workflow must contain 1 to '' @ (if max_nodes > 0 then nat_str max_nodes else ''unlimited'') @ '' nodes''))) (\<lambda>_.
     rbind (normalize_nodes tools [] (as_list nodes)) (\<lambda>normalized.
     rbind (rmapM (check_deps (map wn_id normalized)) normalized) (\<lambda>_.
     rbind (execution_layers normalized) (\<lambda>layers.
     rbind (rguard (\<not> (max_depth > 0 \<and> length layers > max_depth))
       (WorkflowError (''workflow depth exceeds runtime limit: '' @ nat_str max_depth))) (\<lambda>_.
     let failure_policy = gets_or p ''failure_policy'' ''continue'' in
     rbind (rguard (failure_policy = ''continue'') (WorkflowError ''failure_policy must be continue'')) (\<lambda>_.
     rbind (wf_version (dget p ''version'')) (\<lambda>version.
     let status = gets_or p ''status'' ''active'' in
     rbind (rguard (status \<in> {''draft'', ''active'', ''archived''})
       (WorkflowError ''workflow status must be draft, active, or archived'')) (\<lambda>_.
     rbind (validate_references normalized) (\<lambda>_.
     let template_id = py_strip (gets p ''template_id'') in
     rbind (if template_id \<noteq> [] then wf_id template_id ''template_id'' else Inr []) (\<lambda>template.
     Inr \<lparr>wd_id = workflow_id, wd_name = take 120 name, wd_description = take 1000 (gets p ''description''),
          wd_version = version, wd_status = status, wd_policy = failure_policy, wd_nodes = normalized,
          wd_order = concat layers, wd_layers = layers, wd_template = template\<rparr>)))))))))))))"

section \<open>Ancestors\<close>

text \<open>What the work list returns: the start, closed under dependencies, and nothing else.\<close>

lemma ancestors_loop_sound:
  "ancestors_loop g result pending = Inr out \<Longrightarrow>
     set result \<union> set pending \<subseteq> set out
     \<and> set out \<subseteq> set result \<union> {x. \<exists>p \<in> set pending. (x, p) \<in> (dep_rel g)\<^sup>*}
     \<and> ((\<forall>r \<in> set result. \<forall>ds. map_of g r = Some ds \<longrightarrow> set ds \<subseteq> set result \<union> set pending) \<longrightarrow>
        (\<forall>r \<in> set out. \<forall>ds. map_of g r = Some ds \<longrightarrow> set ds \<subseteq> set out))"
proof (induction g result pending rule: ancestors_loop.induct)
  case (1 g result)
  then show ?case by auto
next
  case (2 g result d pending)
  show ?case
  proof (cases "d \<in> set result")
    case True
    with 2(1) [OF True] 2(3) show ?thesis by (auto simp: insert_absorb)
  next
    case False
    with 2(3) obtain ds where ds: "map_of g d = Some ds" "ancestors_loop g (d # result) (rev ds @ pending) = Inr out"
      by (auto split: option.splits)
    note IH = 2(2) [OF False ds(1) ds(2)]
    have step: "(x, d) \<in> (dep_rel g)\<^sup>*" if "p \<in> set ds" "(x, p) \<in> (dep_rel g)\<^sup>*" for x p
    proof -
      have "(p, d) \<in> dep_rel g" using ds(1) that(1) by (auto simp: dep_rel_def)
      with that(2) show ?thesis by (rule rtrancl_into_rtrancl)
    qed
    have "set out \<subseteq> set result \<union> {x. \<exists>p \<in> set (d # pending). (x, p) \<in> (dep_rel g)\<^sup>*}"
    proof
      fix x assume "x \<in> set out"
      with IH consider "x \<in> set (d # result)" | p where "p \<in> set ds \<union> set pending" "(x, p) \<in> (dep_rel g)\<^sup>*" by fastforce
      then show "x \<in> set result \<union> {x. \<exists>p \<in> set (d # pending). (x, p) \<in> (dep_rel g)\<^sup>*}"
        by cases (auto intro: step)
    qed
    moreover have "(\<forall>r \<in> set result. \<forall>es. map_of g r = Some es \<longrightarrow> set es \<subseteq> set result \<union> set (d # pending)) \<longrightarrow>
        (\<forall>r \<in> set out. \<forall>es. map_of g r = Some es \<longrightarrow> set es \<subseteq> set out)"
    proof
      assume closed: "\<forall>r \<in> set result. \<forall>es. map_of g r = Some es \<longrightarrow> set es \<subseteq> set result \<union> set (d # pending)"
      have "\<forall>r \<in> set (d # result). \<forall>es. map_of g r = Some es \<longrightarrow> set es \<subseteq> set (d # result) \<union> set (rev ds @ pending)"
        using closed ds(1) by fastforce
      with IH show "\<forall>r \<in> set out. \<forall>es. map_of g r = Some es \<longrightarrow> set es \<subseteq> set out" by blast
    qed
    ultimately show ?thesis using IH by auto
  qed
qed

lemma ancestors_loop_total:
  "deps_closed g \<Longrightarrow> set pending \<subseteq> fst ` set g \<Longrightarrow> \<exists>out. ancestors_loop g result pending = Inr out"
proof (induction g result pending rule: ancestors_loop.induct)
  case (2 g result d pending)
  show ?case
  proof (cases "d \<in> set result")
    case True
    with 2 show ?thesis by simp
  next
    case False
    from 2(4) obtain ds where ds: "map_of g d = Some ds"
      by (cases "map_of g d") (auto simp: map_of_eq_None_iff)
    then have "set ds \<subseteq> fst ` set g" using 2(3) by (auto simp: deps_closed_def dest!: map_of_SomeD)
    with 2(2) [OF False ds 2(3)] 2(4) False ds show ?thesis by simp
  qed
qed simp

lemma dep_rel_trancl_closed:
  assumes "(x, n) \<in> (dep_rel g)\<^sup>+" "\<And>ds. map_of g n = Some ds \<Longrightarrow> set ds \<subseteq> A"
    and "\<And>r ds. r \<in> A \<Longrightarrow> map_of g r = Some ds \<Longrightarrow> set ds \<subseteq> A"
  shows "x \<in> A"
  using assms(1)
proof (induction rule: converse_trancl_induct)
  case (base y)
  with assms(2) show ?case by (auto simp: dep_rel_def)
next
  case (step y z)
  with assms(3) show ?case by (auto simp: dep_rel_def)
qed

lemma ancestors_Inr:
  assumes "ancestors g n = Inr anc"
  shows "set anc = {d. (d, n) \<in> (dep_rel g)\<^sup>+}"
proof -
  from assms obtain ds where ds: "map_of g n = Some ds" and anc: "ancestors_loop g [] (rev ds) = Inr anc"
    by (auto simp: ancestors_def split: option.splits)
  from ancestors_loop_sound [OF anc] have a: "set ds \<subseteq> set anc"
    "set anc \<subseteq> {x. \<exists>p \<in> set ds. (x, p) \<in> (dep_rel g)\<^sup>*}"
    "\<And>r es. r \<in> set anc \<Longrightarrow> map_of g r = Some es \<Longrightarrow> set es \<subseteq> set anc" by auto
  show ?thesis
  proof (intro equalityI subsetI CollectI)
    fix x assume "x \<in> set anc"
    with a(2) obtain p where "p \<in> set ds" "(x, p) \<in> (dep_rel g)\<^sup>*" by blast
    moreover have "(p, n) \<in> dep_rel g" using ds \<open>p \<in> set ds\<close> by (auto simp: dep_rel_def)
    ultimately show "(x, n) \<in> (dep_rel g)\<^sup>+" by (simp add: rtrancl_into_trancl1)
  next
    fix x assume "x \<in> {d. (d, n) \<in> (dep_rel g)\<^sup>+}"
    then show "x \<in> set anc" using ds a(1) by (intro dep_rel_trancl_closed [of x n g "set anc", OF _ _ a(3)]) auto
  qed
qed

lemma ancestors_total:
  assumes "deps_closed g" "n \<in> fst ` set g"
  shows "\<exists>anc. ancestors g n = Inr anc"
proof -
  from assms(2) obtain ds where ds: "map_of g n = Some ds" by (cases "map_of g n") (auto simp: map_of_eq_None_iff)
  then have "set (rev ds) \<subseteq> fst ` set g" using assms(1) by (auto simp: deps_closed_def dest!: map_of_SomeD)
  from ancestors_loop_total [OF assms(1) this, of "[]"] ds show ?thesis by (simp add: ancestors_def)
qed

text \<open>C34: the work list of the reference check computes exactly the transitive dependencies of a node,
  and on a graph whose dependencies are nodes it never fails.\<close>

theorem ancestors_are_transitive_dependencies:
  assumes "deps_closed g" "n \<in> fst ` set g"
  shows "\<exists>anc. ancestors g n = Inr anc \<and> set anc = {d. (d, n) \<in> (dep_rel g)\<^sup>+}"
  using ancestors_total [OF assms] ancestors_Inr by blast

theorem ancestors_are_transitive_dependencies_witness:
  "\<exists>anc. ancestors [(''a'', []), (''b'', [''a'']), (''c'', [''b''])] ''c'' = Inr anc
     \<and> set anc = {d. (d, ''c'') \<in> (dep_rel [(''a'', []), (''b'', [''a'']), (''c'', [''b''])])\<^sup>+}"
  by (rule ancestors_are_transitive_dependencies) (simp_all add: deps_closed_def)

section \<open>What an accepted definition guarantees\<close>

lemma wf_id_Inr: "wf_id v label = Inr s \<Longrightarrow> WORKFLOW_ID_RE s \<and> s = py_strip v"
  by (auto simp: wf_id_def Let_def)

text \<open>A node as the normalization leaves it.\<close>

definition good_node :: "string list \<Rightarrow> wf_node \<Rightarrow> bool" where
  "good_node tools n \<longleftrightarrow>
     WORKFLOW_ID_RE (wn_id n) \<and> wn_tool n \<in> set tools \<and> py_strip (wn_tool n) = wn_tool n
     \<and> \<not> static_secret [] (PDict (wn_args n)) \<and> wn_name n \<noteq> [] \<and> length (wn_name n) \<le> 120"

lemma dropWhile_strip: "dropWhile P (rev (dropWhile P (rev (dropWhile P xs)))) = rev (dropWhile P (rev (dropWhile P xs)))"
proof (cases "dropWhile P xs")
  case Nil
  show ?thesis unfolding Nil by simp
next
  case (Cons y ys)
  then have y: "\<not> P y" by (metis dropWhile_eq_Cons_conv)
  have "dropWhile P (rev ys @ [y]) = dropWhile P (rev ys) @ [y]" using y by (simp add: dropWhile_append)
  with Cons y show ?thesis by simp
qed

lemma py_strip_idem [simp]: "py_strip (py_strip s) = py_strip s"
  by (simp add: py_strip_def dropWhile_strip)

lemma nat_str_not_Nil [simp]: "nat_str n \<noteq> []"
  by (subst nat_str.simps) simp

lemma py_str_truthy: "py_truthy v \<Longrightarrow> py_str v \<noteq> []"
  by (cases v) (auto simp: py_str_def int_str_def)

lemma gets_or_not_Nil: "x \<noteq> [] \<Longrightarrow> gets_or d k x \<noteq> []"
  by (simp add: gets_or_def py_or_def py_str_truthy)

lemma normalize_node_Inr:
  assumes "normalize_node tools seen raw = Inr n"
  shows "good_node tools n" "wn_id n \<notin> set seen"
proof -
  from assms obtain id where id: "wf_id (gets (as_dict raw) ''node_id'') ''node_id'' = Inr id" "wn_id n = id"
    and tool: "wn_tool n \<in> set tools" "wn_tool n = py_strip (gets (as_dict raw) ''tool_id'')"
    and args: "is_dict (py_or (dget (as_dict raw) ''arguments'') (PDict []))"
      "wn_args n = as_dict (py_or (dget (as_dict raw) ''arguments'') (PDict []))"
      "\<not> static_secret [] (py_or (dget (as_dict raw) ''arguments'') (PDict []))"
    and name: "wn_name n = take 120 (gets_or (as_dict raw) ''name'' id)" and seen: "id \<notin> set seen"
    by (auto simp: normalize_node_def Let_def)
  have "id \<noteq> []" using wf_id_Inr [OF id(1)] by (auto simp: WORKFLOW_ID_RE_def)
  then have "wn_name n \<noteq> [] \<and> length (wn_name n) \<le> 120"
    using gets_or_not_Nil [of id] by (simp add: name)
  moreover have "PDict (wn_args n) = py_or (dget (as_dict raw) ''arguments'') (PDict [])"
    using args(1,2) by (cases "py_or (dget (as_dict raw) ''arguments'') (PDict [])") auto
  ultimately show "good_node tools n" "wn_id n \<notin> set seen"
    using wf_id_Inr [OF id(1)] id(2) tool args(3) seen by (auto simp: good_node_def)
qed

lemma normalize_nodes_Inr:
  "normalize_nodes tools seen raws = Inr ns \<Longrightarrow>
     list_all (good_node tools) ns \<and> distinct (map wn_id ns) \<and> set (map wn_id ns) \<inter> set seen = {}"
proof (induction tools seen raws arbitrary: ns rule: normalize_nodes.induct)
  case (2 tools seen raw raws)
  from 2(2) obtain n ns' where n: "normalize_node tools seen raw = Inr n"
    and ns: "normalize_nodes tools (wn_id n # seen) raws = Inr ns'" "ns = n # ns'" by auto
  from 2(1) [OF n ns(1)] normalize_node_Inr [OF n] ns(2) show ?case by auto
qed simp

lemma normalize_nodes_length: "normalize_nodes tools seen raws = Inr ns \<Longrightarrow> length ns = length raws"
  by (induction tools seen raws arbitrary: ns rule: normalize_nodes.induct) auto

lemma validate_definition_Inr:
  assumes "validate_definition tools fresh payload = Inr D"
  shows "normalize_nodes tools [] (as_list (dget (as_dict payload) ''nodes'')) = Inr (wd_nodes D)"
    "\<exists>us. rmapM (check_deps (map wn_id (wd_nodes D))) (wd_nodes D) = Inr us"
    "execution_layers (wd_nodes D) = Inr (wd_layers D)" "wd_order D = concat (wd_layers D)"
    "\<exists>u. validate_references (wd_nodes D) = Inr u"
    "WORKFLOW_ID_RE (wd_id D)" "wd_nodes D \<noteq> []" "wd_policy D = ''continue''" "1 \<le> wd_version D"
    "wd_status D \<in> {''draft'', ''active'', ''archived''}" "wd_name D \<noteq> []" "length (wd_name D) \<le> 120"
    "length (wd_description D) \<le> 1000" "wd_template D = [] \<or> WORKFLOW_ID_RE (wd_template D)"
proof -
  let ?p = "as_dict payload"
  from assms obtain wid us layers ver u tmpl where
    wid: "wf_id (gets_or ?p ''workflow_id'' (''workflow_'' @ fresh)) ''workflow_id'' = Inr wid"
    and name: "py_strip (gets ?p ''name'') \<noteq> []"
    and len: "1 \<le> length (as_list (dget ?p ''nodes''))"
    and nodes: "normalize_nodes tools [] (as_list (dget ?p ''nodes'')) = Inr (wd_nodes D)"
    and us: "rmapM (check_deps (map wn_id (wd_nodes D))) (wd_nodes D) = Inr us"
    and layers: "execution_layers (wd_nodes D) = Inr layers"
    and policy: "gets_or ?p ''failure_policy'' ''continue'' = ''continue''"
    and ver: "wf_version (dget ?p ''version'') = Inr ver"
    and status: "gets_or ?p ''status'' ''active'' \<in> {''draft'', ''active'', ''archived''}"
    and u: "validate_references (wd_nodes D) = Inr u"
    and tmpl: "(if py_strip (gets ?p ''template_id'') \<noteq> [] then wf_id (py_strip (gets ?p ''template_id'')) ''template_id'' else Inr []) = Inr tmpl"
    and D: "D = \<lparr>wd_id = wid, wd_name = take 120 (py_strip (gets ?p ''name'')), wd_description = take 1000 (gets ?p ''description''),
          wd_version = ver, wd_status = gets_or ?p ''status'' ''active'', wd_policy = gets_or ?p ''failure_policy'' ''continue'',
          wd_nodes = wd_nodes D, wd_order = concat layers, wd_layers = layers, wd_template = tmpl\<rparr>"
    unfolding validate_definition_def Let_def rbind_eq_Inr rguard_eq_Inr sum.inject
    by (elim exE conjE) (use that in force)
  from D have f: "wd_id D = wid" "wd_name D = take 120 (py_strip (gets ?p ''name''))" "wd_description D = take 1000 (gets ?p ''description'')"
    "wd_version D = ver" "wd_status D = gets_or ?p ''status'' ''active''" "wd_policy D = gets_or ?p ''failure_policy'' ''continue''"
    "wd_order D = concat layers" "wd_layers D = layers" "wd_template D = tmpl"
    by (metis wf_definition.select_convs)+
  show "normalize_nodes tools [] (as_list (dget ?p ''nodes'')) = Inr (wd_nodes D)" by (rule nodes)
  show "\<exists>us. rmapM (check_deps (map wn_id (wd_nodes D))) (wd_nodes D) = Inr us" using us by blast
  show "execution_layers (wd_nodes D) = Inr (wd_layers D)" using layers by (simp add: f)
  show "wd_order D = concat (wd_layers D)" by (simp add: f)
  show "\<exists>u. validate_references (wd_nodes D) = Inr u" using u by blast
  show "WORKFLOW_ID_RE (wd_id D)" unfolding f(1) by (rule conjunct1 [OF wf_id_Inr [OF wid]])
  show "wd_nodes D \<noteq> []" using normalize_nodes_length [OF nodes] len by auto
  show "wd_policy D = ''continue''" using policy by (simp add: f)
  show "1 \<le> wd_version D" using ver by (auto simp: f wf_version_def split: sum.splits if_splits)
  show "wd_status D \<in> {''draft'', ''active'', ''archived''}" using status by (simp only: f)
  show "wd_name D \<noteq> []" using name by (simp add: f)
  show "length (wd_name D) \<le> 120" "length (wd_description D) \<le> 1000" by (simp_all add: f)
  show "wd_template D = [] \<or> WORKFLOW_ID_RE (wd_template D)" using tmpl by (auto simp: f dest: wf_id_Inr split: if_splits)
qed

lemma node_graph_keys [simp]: "map fst (node_graph ns) = map wn_id ns"
  by (simp add: node_graph_def comp_def)

lemma node_graph_nodes: "fst ` set (node_graph ns) = wn_id ` set ns"
  by (simp add: node_graph_def image_image)

lemma node_graph_lookup:
  "distinct (map wn_id ns) \<Longrightarrow> n \<in> set ns \<Longrightarrow> map_of (node_graph ns) (wn_id n) = Some (wn_deps n)"
  by (intro map_of_is_SomeI) (auto simp: node_graph_def comp_def)

lemma validate_references_Inr:
  assumes "validate_references ns = Inr u" "n \<in> set ns"
  shows "set (references (PDict (wn_args n))) \<union> set (references (wn_when n)) \<subseteq> {d. (d, wn_id n) \<in> (dep_rel (node_graph ns))\<^sup>+}"
proof -
  from assms obtain us where "rmapM (check_references (node_graph ns)) ns = Inr us" by (auto simp: validate_references_def)
  from rmapM_image [OF this assms(2)] obtain u' where "check_references (node_graph ns) n = Inr u'" by blast
  then obtain anc where "ancestors (node_graph ns) (wn_id n) = Inr anc"
    and "filter (\<lambda>r. r \<notin> set anc) (references (PDict (wn_args n)) @ references (wn_when n)) = []"
    by (auto simp: check_references_def Let_def)
  with ancestors_Inr show ?thesis by (fastforce simp: filter_empty_conv)
qed

lemma check_deps_Inr:
  "check_deps ids n = Inr u \<Longrightarrow> set (wn_deps n) \<subseteq> set ids \<and> wn_id n \<notin> set (wn_deps n)"
  by (auto simp: check_deps_def Let_def filter_empty_conv)

text \<open>The nodes and the layers of an accepted definition.\<close>

lemma accepted_layers:
  assumes "validate_definition tools fresh payload = Inr D"
  shows "list_all (good_node tools) (wd_nodes D)" "distinct (map wn_id (wd_nodes D))"
    and "kahn_layers id (node_graph (wd_nodes D)) = Some (wd_layers D)"
    and "distinct (concat (wd_layers D))" "set (concat (wd_layers D)) = wn_id ` set (wd_nodes D)"
proof -
  note v = validate_definition_Inr [OF assms]
  show good: "list_all (good_node tools) (wd_nodes D)" "distinct (map wn_id (wd_nodes D))" using normalize_nodes_Inr [OF v(1)] by auto
  show kahn: "kahn_layers id (node_graph (wd_nodes D)) = Some (wd_layers D)"
    using v(3) by (simp add: execution_layers_def split: option.splits)
  have "distinct (map fst (node_graph (wd_nodes D)))" using good(2) by simp
  from kahn.layers_nodes [OF this kahn] node_graph_nodes [of "wd_nodes D"]
  show "distinct (concat (wd_layers D))" "set (concat (wd_layers D)) = wn_id ` set (wd_nodes D)" by metis+
qed

text \<open>C20: an accepted definition has nodes with distinct, well-formed ids, enabled tools and no literal
  secret; its layers contain every node once and put a node after its dependencies; and the node
  outputs that arguments and conditions name with a field come from transitive dependencies.\<close>

theorem accepted_definition_is_executable:
  assumes "validate_definition tools fresh payload = Inr D"
  shows "distinct (map wn_id (wd_nodes D))
    \<and> (\<forall>n \<in> set (wd_nodes D). WORKFLOW_ID_RE (wn_id n) \<and> wn_tool n \<in> set tools \<and> \<not> static_secret [] (PDict (wn_args n))
         \<and> set (references (PDict (wn_args n))) \<union> set (references (wn_when n))
             \<subseteq> {d. (d, wn_id n) \<in> (dep_rel (node_graph (wd_nodes D)))\<^sup>+})
    \<and> wd_order D = concat (wd_layers D) \<and> distinct (wd_order D) \<and> set (wd_order D) = wn_id ` set (wd_nodes D)
    \<and> (\<forall>n \<in> set (wd_nodes D). \<forall>i < length (wd_layers D). wn_id n \<in> set (wd_layers D ! i) \<longrightarrow>
         (\<forall>d \<in> set (wn_deps n). \<exists>j<i. d \<in> set (wd_layers D ! j)))"
proof -
  note v = validate_definition_Inr [OF assms]
  note good = accepted_layers(1,2) [OF assms] and kahn = accepted_layers(3) [OF assms] and nodes = accepted_layers(4,5) [OF assms]
  have keys: "distinct (map fst (node_graph (wd_nodes D)))" using good(2) by simp
  have order: "\<exists>j<i. d \<in> set (wd_layers D ! j)"
    if "n \<in> set (wd_nodes D)" "i < length (wd_layers D)" "wn_id n \<in> set (wd_layers D ! i)" "d \<in> set (wn_deps n)" for n i d
    by (rule kahn.layers_respect [OF keys kahn that(2,3) node_graph_lookup [OF good(2) that(1)] that(4)])
  have refs: "set (references (PDict (wn_args n))) \<union> set (references (wn_when n)) \<subseteq> {d. (d, wn_id n) \<in> (dep_rel (node_graph (wd_nodes D)))\<^sup>+}"
    if "n \<in> set (wd_nodes D)" for n
    using v(5) validate_references_Inr that by blast
  have gn: "WORKFLOW_ID_RE (wn_id n) \<and> wn_tool n \<in> set tools \<and> \<not> static_secret [] (PDict (wn_args n))" if "n \<in> set (wd_nodes D)" for n
    using good(1) that unfolding good_node_def list_all_iff by blast
  show ?thesis using good(2) gn refs v(4) nodes order by (simp del: set_concat static_secret.simps references.simps) 
qed

definition sample_definition :: pyval where
  "sample_definition = PDict
     [(''workflow_id'', PStr ''wf''), (''name'', PStr ''demo''),
      (''nodes'', PList
         [PDict [(''node_id'', PStr ''b''), (''tool_id'', PStr ''t''), (''depends_on'', PList [PStr ''a'']),
                 (''arguments'', PDict [(''x'', PStr ([CHR 0x24, CHR 0x7B] @ ''nodes.a.output.y'' @ [CHR 0x7D]))])],
          PDict [(''node_id'', PStr ''a''), (''tool_id'', PStr ''t'')]])]"

lemma sample_definition_ok: "\<not> isl (validate_definition [''t''] ''1'' sample_definition)"
  by code_simp

theorem accepted_definition_is_executable_witness:
  "\<exists>D. validate_definition [''t''] ''1'' sample_definition = Inr D \<and> wd_layers D = [[''a''], [''b'']]
     \<and> distinct (map wn_id (wd_nodes D)) \<and> set (wd_order D) = wn_id ` set (wd_nodes D)"
proof -
  have ok: "validate_definition [''t''] ''1'' sample_definition = Inr (projr (validate_definition [''t''] ''1'' sample_definition))"
    using sample_definition_ok by (simp add: isl_def sum.exhaust_sel)
  moreover have "wd_layers (projr (validate_definition [''t''] ''1'' sample_definition)) = [[''a''], [''b'']]" by code_simp
  ultimately show ?thesis using accepted_definition_is_executable [OF ok] by blast
qed

text \<open>When the nodes and their dependencies are in order, the layering succeeds exactly for
  acyclic graphs.\<close>

theorem execution_layers_iff_acyclic:
  assumes "normalize_nodes tools [] raws = Inr ns" "rmapM (check_deps (map wn_id ns)) ns = Inr us"
  shows "(\<exists>layers. execution_layers ns = Inr layers) \<longleftrightarrow> acyclic (dep_rel (node_graph ns))"
proof -
  from normalize_nodes_Inr [OF assms(1)] have "distinct (map fst (node_graph ns))" by simp
  moreover have "deps_closed (node_graph ns)"
    unfolding deps_closed_def
  proof (clarify)
    fix k ds x assume "(k, ds) \<in> set (node_graph ns)" "x \<in> set ds"
    then obtain n where n: "n \<in> set ns" "x \<in> set (wn_deps n)" by (auto simp: node_graph_def)
    from rmapM_image [OF assms(2) n(1)] check_deps_Inr n(2) have "x \<in> set (map wn_id ns)" by blast
    then show "x \<in> fst ` set (node_graph ns)" by (simp add: node_graph_def image_image)
  qed
  ultimately have "(\<exists>ls. kahn_layers id (node_graph ns) = Some ls) \<longleftrightarrow> acyclic (dep_rel (node_graph ns))"
    by (rule kahn.schedule_iff_acyclic)
  then show ?thesis by (auto simp: execution_layers_def split: option.splits)
qed

definition cyclic_nodes :: "wf_node list" where
  "cyclic_nodes =
     [\<lparr>wn_id = ''a'', wn_name = ''a'', wn_tool = ''t'', wn_args = [], wn_deps = [''b''], wn_when = PBool True\<rparr>,
      \<lparr>wn_id = ''b'', wn_name = ''b'', wn_tool = ''t'', wn_args = [], wn_deps = [''a''], wn_when = PBool True\<rparr>]"

theorem execution_layers_iff_acyclic_witness:
  "execution_layers cyclic_nodes = Inl (WorkflowError ''workflow graph contains a cycle'') \<and> \<not> acyclic (dep_rel (node_graph cyclic_nodes))"
proof -
  have n: "normalize_nodes [''t''] [] (map node_dict cyclic_nodes) = Inr cyclic_nodes" by code_simp
  have d: "rmapM (check_deps (map wn_id cyclic_nodes)) cyclic_nodes = Inr [(), ()]" by code_simp
  have e: "execution_layers cyclic_nodes = Inl (WorkflowError ''workflow graph contains a cycle'')" by code_simp
  with execution_layers_iff_acyclic [OF n d] show ?thesis by simp
qed

section \<open>Stored definitions\<close>

lemma WORKFLOW_ID_strip: "WORKFLOW_ID_RE s \<Longrightarrow> py_strip s = s \<and> s \<noteq> []"
  by (auto simp: WORKFLOW_ID_RE_def list_all_iff not_space_idchar intro!: py_strip_id)

lemma wf_id_valid: "WORKFLOW_ID_RE s \<Longrightarrow> wf_id s label = Inr s"
  by (simp add: wf_id_def Let_def WORKFLOW_ID_strip)

lemma gets_text [simp]: "gets_or ((k, PStr s) # d) k x = (if s = [] then x else s)"
  by (simp add: gets_or_def)

lemma gets_or_Cons: "k' \<noteq> k \<Longrightarrow> gets_or ((k, v) # d) k' x = gets_or d k' x"
  by (simp add: gets_or_def)

lemma renormalize_node:
  assumes "good_node tools n" "wn_id n \<notin> set seen"
  shows "normalize_node tools seen (node_dict n) = Inr n"
proof -
  have f: "gets (as_dict (node_dict n)) ''node_id'' = wn_id n" "gets (as_dict (node_dict n)) ''tool_id'' = wn_tool n"
    "gets_or (as_dict (node_dict n)) ''name'' (wn_id n) = wn_name n"
    "dget (as_dict (node_dict n)) ''arguments'' = PDict (wn_args n)"
    "dget (as_dict (node_dict n)) ''depends_on'' = PList (map PStr (wn_deps n))"
    "dget_or (as_dict (node_dict n)) ''when'' (PBool True) = wn_when n"
    using assms(1) by (simp_all add: node_dict_def gets_def gets_or_def dget_or_def good_node_def)
  have o: "py_or (PDict (wn_args n)) (PDict []) = PDict (wn_args n)"
    "py_or (PList (map PStr (wn_deps n))) (PList []) = PList (map PStr (wn_deps n))" by (simp_all add: py_or_def)
  have m: "map py_str (map PStr (wn_deps n)) = wn_deps n" by (simp add: comp_def)
  have "is_dict (node_dict n)" by (simp add: node_dict_def)
  with assms show ?thesis
    unfolding normalize_node_def Let_def f o good_node_def
    by (simp add: wf_id_valid m f(3) del: static_secret.simps map_map)
qed

lemma renormalize_nodes:
  "list_all (good_node tools) ns \<Longrightarrow> distinct (map wn_id ns) \<Longrightarrow> set (map wn_id ns) \<inter> set seen = {} \<Longrightarrow>
     normalize_nodes tools seen (map node_dict ns) = Inr ns"
proof (induction ns arbitrary: seen)
  case (Cons n ns)
  then have "normalize_node tools seen (node_dict n) = Inr n" by (intro renormalize_node) auto
  moreover have "normalize_nodes tools (wn_id n # seen) (map node_dict ns) = Inr ns" using Cons by auto
  ultimately show ?case by simp
qed simp

text \<open>C33: a stored definition is accepted again with the same result, so that a workflow is executed
  as it was saved, provided that cutting its name to 120 characters leaves no space at the end.
  The dictionary may have further keys such as the time stamps.\<close>

theorem stored_definition_roundtrip:
  assumes "validate_definition tools fresh payload = Inr D" "py_strip (wd_name D) = wd_name D"
    and "fst ` set extra \<subseteq> {''created_at'', ''updated_at''}"
  shows "validate_definition tools fresh' (PDict (definition_dict D @ extra)) = Inr D"
proof -
  note v = validate_definition_Inr [OF assms(1)]
  let ?p = "definition_dict D @ extra"
  have ex: "map_of extra k = None" if "k \<notin> {''created_at'', ''updated_at''}" for k
    using assms(3) that by (auto simp: map_of_eq_None_iff)
  have fields: "dget ?p ''workflow_id'' = PStr (wd_id D)" "dget ?p ''name'' = PStr (wd_name D)"
    "dget ?p ''description'' = PStr (wd_description D)" "dget ?p ''version'' = PInt (wd_version D)"
    "dget ?p ''status'' = PStr (wd_status D)" "dget ?p ''failure_policy'' = PStr (wd_policy D)"
    "dget ?p ''nodes'' = PList (map node_dict (wd_nodes D))"
    by (simp_all add: definition_dict_def dget_def)
  have tmpl: "gets ?p ''template_id'' = wd_template D"
    using ex [of "''template_id''"] by (auto simp: definition_dict_def gets_def gets_or_def dget_def py_or_def py_str_def)
  have texts: "gets_or ?p ''workflow_id'' x = wd_id D" "gets ?p ''name'' = wd_name D" "gets ?p ''description'' = wd_description D"
    "gets_or ?p ''status'' y = wd_status D" "gets_or ?p ''failure_policy'' z = wd_policy D" for x y z
    using v(6,8,10) WORKFLOW_ID_strip [OF v(6)] by (auto simp: gets_def gets_or_def fields)
  have nodes: "normalize_nodes tools [] (map node_dict (wd_nodes D)) = Inr (wd_nodes D)"
    using normalize_nodes_Inr [OF v(1)] by (intro renormalize_nodes) auto
  from v(2) obtain us where us: "rmapM (check_deps (map wn_id (wd_nodes D))) (wd_nodes D) = Inr us" by blast
  from v(5) obtain u where u: "validate_references (wd_nodes D) = Inr u" by blast
  have ver: "wf_version (PInt (wd_version D)) = Inr (wd_version D)" using v(9) by (simp add: wf_version_def py_or_def)
  have strip: "py_strip (wd_template D) = wd_template D" using v(14) WORKFLOW_ID_strip by (auto simp: py_strip_def)
  have template: "(if wd_template D \<noteq> [] then wf_id (wd_template D) ''template_id'' else Inr []) = Inr (wd_template D)"
    using v(14) by (auto simp: wf_id_valid)
  have cuts: "take 120 (wd_name D) = wd_name D" "take 1000 (wd_description D) = wd_description D" using v(12,13) by simp_all
  have len: "1 \<le> length (map node_dict (wd_nodes D))" using v(7) by (simp add: Suc_le_eq)
  have "validate_definition tools fresh' (PDict ?p)
      = Inr \<lparr>wd_id = wd_id D, wd_name = wd_name D, wd_description = wd_description D, wd_version = wd_version D, wd_status = wd_status D,
             wd_policy = wd_policy D, wd_nodes = wd_nodes D, wd_order = concat (wd_layers D), wd_layers = wd_layers D, wd_template = wd_template D\<rparr>"
    unfolding validate_definition_def Let_def as_dict.simps fields texts tmpl strip assms(2) template as_list.simps nodes ver
      rbind_simps wf_id_valid [OF v(6)] us v(3) u cuts
    using len v(8,10,11) by (simp add: max_nodes_def max_depth_def)
  then show ?thesis using v(4) by simp
qed

theorem stored_definition_roundtrip_witness:
  "\<exists>D. validate_definition [''t''] ''1'' sample_definition = Inr D
     \<and> validate_definition [''t''] ''2'' (PDict (definition_dict D @ [(''created_at'', PStr ''now'')])) = Inr D"
proof -
  have ok: "validate_definition [''t''] ''1'' sample_definition = Inr (projr (validate_definition [''t''] ''1'' sample_definition))"
    using sample_definition_ok by (simp add: isl_def sum.exhaust_sel)
  have "py_strip (wd_name (projr (validate_definition [''t''] ''1'' sample_definition))) = wd_name (projr (validate_definition [''t''] ''1'' sample_definition))"
    by code_simp
  from stored_definition_roundtrip [OF ok this, of "[(''created_at'', PStr ''now'')]" "''2''"] ok show ?thesis by auto
qed

section \<open>References that the check does not see\<close>

definition escaping_definition :: pyval where
  "escaping_definition = PDict
     [(''workflow_id'', PStr ''wf''), (''name'', PStr ''demo''),
      (''nodes'', PList
         [PDict [(''node_id'', PStr ''a''), (''tool_id'', PStr ''t'')],
          PDict [(''node_id'', PStr ''c''), (''tool_id'', PStr ''t'')],
          PDict [(''node_id'', PStr ''b''), (''tool_id'', PStr ''t''), (''depends_on'', PList [PStr ''c'']),
                 (''arguments'', PDict [(''x'', PStr ([CHR 0x24, CHR 0x7B] @ ''nodes.a'' @ [CHR 0x7D]))])]])]"

text \<open>the check of references only sees templates that select a field of a node. A template that
  names the whole node is accepted although the node is not a dependency, and at run time it
  resolves to the output of that node.\<close>

theorem whole_node_template_escapes_check:
  "\<exists>D n. validate_definition [''t''] ''1'' escaping_definition = Inr D \<and> n \<in> set (wd_nodes D) \<and> wn_id n = ''b''
     \<and> (''a'', ''b'') \<notin> (dep_rel (node_graph (wd_nodes D)))\<^sup>+
     \<and> resolve [(''nodes'', PDict [(''a'', PDict [(''output'', PStr ''secret'')])])] (PDict (wn_args n))
         = Inr (PDict [(''x'', PDict [(''output'', PStr ''secret'')])])"
proof -
  let ?v = "validate_definition [''t''] ''1'' escaping_definition"
  let ?D = "projr ?v"
  let ?n = "\<lparr>wn_id = ''b'', wn_name = ''b'', wn_tool = ''t'', wn_args = [(''x'', PStr ([CHR 0x24, CHR 0x7B] @ ''nodes.a'' @ [CHR 0x7D]))],
             wn_deps = [''c''], wn_when = PBool True\<rparr>"
  have "\<not> isl ?v" by code_simp
  then have ok: "?v = Inr ?D" by (simp add: isl_def sum.exhaust_sel)
  have nodes: "wd_nodes ?D = [\<lparr>wn_id = ''a'', wn_name = ''a'', wn_tool = ''t'', wn_args = [], wn_deps = [], wn_when = PBool True\<rparr>,
      \<lparr>wn_id = ''c'', wn_name = ''c'', wn_tool = ''t'', wn_args = [], wn_deps = [], wn_when = PBool True\<rparr>, ?n]" by code_simp
  have "ancestors [(''a'', []), (''c'', []), (''b'', [''c''])] ''b'' = Inr [''c'']" by code_simp
  from ancestors_Inr [OF this, symmetric] have "''a'' \<notin> {d. (d, ''b'') \<in> (dep_rel [(''a'', []), (''c'', []), (''b'', [''c''])])\<^sup>+}"
    by (simp del: mem_Collect_eq)
  then have "(''a'', ''b'') \<notin> (dep_rel (node_graph (wd_nodes ?D)))\<^sup>+"
    unfolding nodes by (simp add: node_graph_def)
  moreover have "resolve [(''nodes'', PDict [(''a'', PDict [(''output'', PStr ''secret'')])])] (PDict (wn_args ?n))
         = Inr (PDict [(''x'', PDict [(''output'', PStr ''secret'')])])" by code_simp
  ultimately show ?thesis using ok nodes by (intro exI [of _ ?D] exI [of _ ?n]) simp
qed

end
