(* ===== verification/Workflow_Run.thy ===== *)
theory Workflow_Run
  imports Workflow_Definition Record_Store
begin

text \<open>
  Workflow records and their execution (\<open>workflows/service.py\<close>). Definitions and runs are JSON
  records under (workspace id, id).

  Parameters: the tool runtime, a record \<open>wf_runtime\<close> (each node is invoked at most once in a run, so
  its answer may be taken as a function of the node); and what other requests do to the run
  records and the job before each layer, \<open>others\<close> and \<open>job_cancelled\<close>. Reads of one group run
  concurrently in the code; they do not see each other's outputs, so their results are those of the
  sequential evaluation, in order. \<open>now\<close> is the time stamp. The review record of a failed run and the
  budget counters, which never stop a run, are left out.
\<close>

section \<open>Records\<close>

type_synonym wf_store = "(string \<times> string) store"

definition wf_path :: "string \<Rightarrow> string \<Rightarrow> string \<Rightarrow> (string \<times> string) res" where
  "wf_path label workspace_id ident =
     rbind (wf_id ident label) (\<lambda>i. rbind (validate_workspace_id (PStr workspace_id)) (\<lambda>ws. Inr (ws, i)))"

definition get_workflow :: "string \<Rightarrow> string \<Rightarrow> wf_store \<Rightarrow> pydict option res" where
  "get_workflow workspace_id workflow_id defs =
     rbind (wf_path ''workflow_id'' workspace_id workflow_id) (\<lambda>path.
     Inr (map_option (dset ''failure_policy'' (PStr ''continue'')) (st_get defs path)))"

definition save_workflow ::
  "string list \<Rightarrow> string \<Rightarrow> string \<Rightarrow> string \<Rightarrow> pyval \<Rightarrow> wf_store \<Rightarrow> (wf_store \<times> pydict) res" where
  "save_workflow tools fresh now workspace_id payload defs =
     rbind (validate_definition tools fresh payload) (\<lambda>definition0.
     rbind (wf_path ''workflow_id'' workspace_id (wd_id definition0)) (\<lambda>path.
     rbind (get_workflow workspace_id (wd_id definition0) defs) (\<lambda>existing.
     let created = gets_or (case existing of None \<Rightarrow> [] | Some e \<Rightarrow> e) ''created_at'' now;
         stored = dset ''updated_at'' (PStr now) (dset ''created_at'' (PStr created) (definition_dict definition0))
     in Inr (st_put path stored defs, stored))))"

text \<open>Listings visit the files of the directory in the order of their names.\<close>

definition workspace_files :: "string \<Rightarrow> wf_store \<Rightarrow> (string \<times> pydict) list" where
  "workspace_files ws st =
     map (\<lambda>i. (i, the (st_get st (ws, i)))) (sort (map (snd \<circ> fst) (filter (\<lambda>((w, _), _). w = ws) st)))"

definition list_workflows :: "string \<Rightarrow> wf_store \<Rightarrow> pydict list" where
  "list_workflows workspace_id defs =
     filter (\<lambda>v. dget v ''status'' \<noteq> PStr ''archived'')
       (map (dset ''failure_policy'' (PStr ''continue'') \<circ> snd) (workspace_files workspace_id defs))"

definition get_run :: "string \<Rightarrow> string \<Rightarrow> wf_store \<Rightarrow> pydict option res" where
  "get_run workspace_id run_id runs =
     rbind (wf_path ''run_id'' workspace_id run_id) (\<lambda>path. Inr (st_get runs path))"

definition list_runs :: "string \<Rightarrow> string \<Rightarrow> int \<Rightarrow> wf_store \<Rightarrow> pydict list" where
  "list_runs workspace_id workflow_id limit runs =
     take (nat (max 1 (min limit 500)))
       (filter (\<lambda>v. v \<noteq> [] \<and> (workflow_id = [] \<or> dget v ''workflow_id'' = PStr workflow_id))
         (map snd (rev (workspace_files workspace_id runs))))"

definition all_runs_for_workflow :: "string \<Rightarrow> string \<Rightarrow> wf_store \<Rightarrow> pydict list" where
  "all_runs_for_workflow workspace_id workflow_id runs =
     filter (\<lambda>v. v \<noteq> [] \<and> dget v ''workflow_id'' = PStr workflow_id) (map snd (workspace_files workspace_id runs))"

definition run_paths :: "string \<Rightarrow> pydict list \<Rightarrow> (string \<times> string) list res" where
  "run_paths workspace_id rs =
     rmapM (\<lambda>r. wf_path ''run_id'' workspace_id (gets r ''run_id'')) (filter (\<lambda>r. py_truthy (dget r ''run_id'')) rs)"

definition delete_workflow ::
  "string \<Rightarrow> string \<Rightarrow> wf_store \<times> wf_store \<Rightarrow> ((wf_store \<times> wf_store) \<times> nat) res" where
  "delete_workflow workspace_id workflow_id = (\<lambda>(defs, runs).
     rbind (get_workflow workspace_id workflow_id defs) (\<lambda>current.
     rbind (rguard (current \<noteq> None) (WorkflowError ''workflow not found'')) (\<lambda>_.
     let mine = all_runs_for_workflow workspace_id workflow_id runs in
     rbind (rguard (\<not> list_ex (\<lambda>r. dget r ''status'' \<in> {PStr ''queued'', PStr ''running''}) mine)
       (WorkflowError ''workflow_has_active_runs'')) (\<lambda>_.
     rbind (wf_path ''workflow_id'' workspace_id workflow_id) (\<lambda>path.
     rbind (run_paths workspace_id mine) (\<lambda>removable.
     let present = filter (\<lambda>p. st_get runs p \<noteq> None) (fromkeys removable)
     in Inr ((st_del path defs, fold st_del removable runs), length present)))))))"

text \<open>\<open>_save_run\<close> merges a cancellation that another request has stored.\<close>

definition save_run :: "string \<Rightarrow> string \<times> string \<Rightarrow> pydict \<Rightarrow> wf_store \<Rightarrow> wf_store \<times> pydict" where
  "save_run now path r0 runs =
     (let r1 = dset ''updated_at'' (PStr now) r0;
          stored = (case st_get runs path of None \<Rightarrow> [] | Some c \<Rightarrow> c);
          r2 = (if py_truthy (dget stored ''cancel_requested'') then dset ''cancel_requested'' (PBool True) r1 else r1)
      in (st_put path r2 runs, r2))"

text \<open>\<open>cancel_run\<close>: it reads the record, and saves it with the flag; the two halves are separate, since
  the read is not under the lock.\<close>

definition cancel_snapshot :: "string \<Rightarrow> string \<Rightarrow> wf_store \<Rightarrow> ((string \<times> string) \<times> pydict) res" where
  "cancel_snapshot workspace_id run_id runs =
     rbind (wf_path ''run_id'' workspace_id run_id) (\<lambda>path.
     case st_get runs path of
       None \<Rightarrow> Inl (WorkflowError ''workflow run not found'')
     | Some r \<Rightarrow> if r = [] then Inl (WorkflowError ''workflow run not found'') else Inr (path, r))"

definition cancel_write :: "string \<Rightarrow> string \<times> string \<Rightarrow> pydict \<Rightarrow> wf_store \<Rightarrow> wf_store \<times> pydict" where
  "cancel_write now path r runs =
     (if dget r ''status'' \<in> {PStr ''running'', PStr ''queued''}
      then save_run now path (dset ''cancel_requested'' (PBool True) r) runs
      else (runs, r))"

definition cancel_run :: "string \<Rightarrow> string \<Rightarrow> string \<Rightarrow> wf_store \<Rightarrow> (wf_store \<times> pydict) res" where
  "cancel_run now workspace_id run_id runs =
     rbind (cancel_snapshot workspace_id run_id runs) (\<lambda>(path, r). Inr (cancel_write now path r runs))"

definition cancel_requested :: "string \<times> string \<Rightarrow> bool \<Rightarrow> wf_store \<Rightarrow> bool" where
  "cancel_requested path job_flag runs \<longleftrightarrow>
     (case st_get runs path of None \<Rightarrow> False | Some r \<Rightarrow> py_truthy (dget r ''cancel_requested'')) \<or> job_flag"

section \<open>One node\<close>

record tool_outcome =
  to_status :: string
  to_summary :: string
  to_output :: pydict
  to_errors :: "string list"
  to_duration :: int

record wf_runtime =
  wr_canonicalize :: "string \<Rightarrow> string \<Rightarrow> pyval \<Rightarrow> pyval res"
  wr_invoke :: "string \<Rightarrow> string \<Rightarrow> pyval \<Rightarrow> tool_outcome res"
  wr_read_only :: "string \<Rightarrow> pyval \<Rightarrow> bool"
  wr_project :: "pydict \<Rightarrow> pyval \<times> bool"

text \<open>User-visible texts, in UTF-8.\<close>

definition msg_input_failed :: string where
  "msg_input_failed =
     [CHR 0xE6, CHR 0xAD, CHR 0xA5, CHR 0xE9, CHR 0xAA, CHR 0xA4, CHR 0xE8, CHR 0xBE, CHR 0x93, CHR 0xE5,
      CHR 0x85, CHR 0xA5, CHR 0xE8, CHR 0xA7, CHR 0xA3, CHR 0xE6, CHR 0x9E, CHR 0x90, CHR 0xE5, CHR 0xA4,
      CHR 0xB1, CHR 0xE8, CHR 0xB4, CHR 0xA5]"

definition msg_tool_failed :: string where
  "msg_tool_failed =
     [CHR 0xE5, CHR 0xB7, CHR 0xA5, CHR 0xE5, CHR 0x85, CHR 0xB7, CHR 0xE6, CHR 0x89, CHR 0xA7, CHR 0xE8,
      CHR 0xA1, CHR 0x8C, CHR 0xE5, CHR 0xBC, CHR 0x82, CHR 0xE5, CHR 0xB8, CHR 0xB8]"

definition msg_dependency_failed :: string where
  "msg_dependency_failed =
     [CHR 0xE4, CHR 0xBE, CHR 0x9D, CHR 0xE8, CHR 0xB5, CHR 0x96, CHR 0xE6, CHR 0xAD, CHR 0xA5, CHR 0xE9,
      CHR 0xAA, CHR 0xA4, CHR 0xE6, CHR 0x9C, CHR 0xAA, CHR 0xE6, CHR 0x88, CHR 0x90, CHR 0xE5, CHR 0x8A,
      CHR 0x9F, CHR 0xEF, CHR 0xBC, CHR 0x8C, CHR 0xE5, CHR 0xBD, CHR 0x93, CHR 0xE5, CHR 0x89, CHR 0x8D,
      CHR 0xE6, CHR 0xAD, CHR 0xA5, CHR 0xE9, CHR 0xAA, CHR 0xA4, CHR 0xE6, CHR 0x9C, CHR 0xAA, CHR 0xE6,
      CHR 0x89, CHR 0xA7, CHR 0xE8, CHR 0xA1, CHR 0x8C]"

definition safe_persisted_output :: "wf_runtime \<Rightarrow> pydict \<Rightarrow> pydict" where
  "safe_persisted_output rt out =
     (let (safe, truncated) = wr_project rt (redact_dict out);
          d = (case safe of PDict d \<Rightarrow> d | v \<Rightarrow> [(''value'', v)])
      in if truncated then dset ''_workflow_projection'' (PDict [(''truncated'', PBool True)]) d else d)"

definition node_entry :: "string \<Rightarrow> string \<Rightarrow> string \<Rightarrow> pydict \<Rightarrow> pydict" where
  "node_entry node_id tool_id status details =
     [(''node_id'', PStr node_id), (''tool_id'', PStr tool_id), (''status'', PStr status)] @ details"

definition stamps :: "string \<Rightarrow> pydict" where
  "stamps now = [(''started_at'', PStr now), (''finished_at'', PStr now)]"

definition failed_entry :: "string \<Rightarrow> wf_node \<Rightarrow> string \<Rightarrow> py_error \<Rightarrow> pydict" where
  "failed_entry now n summary e =
     node_entry (wn_id n) (wn_tool n) ''failed''
       ([(''summary'', PStr summary), (''errors'', PList [PStr (take 500 (exc_str e))])] @ stamps now)"

definition run_scope :: "pydict \<Rightarrow> (string \<times> pydict) list \<Rightarrow> pydict" where
  "run_scope inputs outputs =
     [(''input'', PDict inputs), (''nodes'', PDict (map (\<lambda>(k, v). (k, PDict [(''output'', PDict v)])) outputs))]"

text \<open>The first \<open>try\<close> block: skip the node (\<open>None\<close>), or its arguments.\<close>

definition node_arguments :: "wf_runtime \<Rightarrow> pydict \<Rightarrow> wf_node \<Rightarrow> pyval option res" where
  "node_arguments rt scope n =
     rbind (resolve scope (wn_when n)) (\<lambda>cond.
     if \<not> py_truthy cond then Inr None
     else
       rbind (resolve scope (PDict (wn_args n))) (\<lambda>raw.
       rbind (wr_canonicalize rt (wn_id n) (wn_tool n) raw) (\<lambda>arguments.
       rbind (rguard (int (length (json_default arguments)) \<le> 1048576)
         (WorkflowError (''resolved arguments are too large: '' @ wn_id n))) (\<lambda>_. Inr (Some arguments)))))"

definition node_success :: "tool_outcome \<Rightarrow> bool" where
  "node_success r \<longleftrightarrow> to_status r \<in> {''succeeded'', ''dry_run''}"

definition execute_node ::
  "wf_runtime \<Rightarrow> string \<Rightarrow> pydict \<Rightarrow> (string \<times> pydict) list \<Rightarrow> wf_node \<Rightarrow> pydict \<times> pydict \<times> bool" where
  "execute_node rt now inputs outputs n =
     (case node_arguments rt (run_scope inputs outputs) n of
        Inl e \<Rightarrow> (failed_entry now n msg_input_failed e, [], False)
      | Inr None \<Rightarrow> (node_entry (wn_id n) (wn_tool n) ''skipped'' (stamps now), [], True)
      | Inr (Some arguments) \<Rightarrow>
          (case wr_invoke rt (wn_id n) (wn_tool n) arguments of
             Inl e \<Rightarrow> (failed_entry now n msg_tool_failed e, [], False)
           | Inr r \<Rightarrow>
               (node_entry (wn_id n) (wn_tool n) (to_status r)
                  ([(''summary'', PStr (take 1000 (to_summary r))),
                    (''output'', PDict (safe_persisted_output rt (to_output r))),
                    (''errors'', PList (map (PStr \<circ> take 500) (take 20 (to_errors r)))),
                    (''duration_ms'', PInt (to_duration r))] @ stamps now),
                if node_success r then to_output r else [], node_success r)))"

section \<open>The run\<close>

record run_state =
  rs_record :: pydict
  rs_runs :: wf_store
  rs_outputs :: "(string \<times> pydict) list"
  rs_outcomes :: "(string \<times> bool) list"
  rs_failed :: bool

definition orchestration_of :: "nat \<Rightarrow> bool \<Rightarrow> wf_node \<Rightarrow> pyval" where
  "orchestration_of layer par n =
     PDict [(''layer'', PInt (int layer)), (''parallel'', PBool par), (''depends_on'', PList (map PStr (wn_deps n)))]"

definition add_entry :: "pydict \<Rightarrow> pydict \<Rightarrow> pydict" where
  "add_entry entry r = dset ''nodes'' (PList (as_list (dget r ''nodes'') @ [PDict entry])) r"

definition save_state :: "string \<Rightarrow> string \<times> string \<Rightarrow> run_state \<Rightarrow> run_state" where
  "save_state now path st =
     (let (runs, r) = save_run now path (rs_record st) (rs_runs st) in st\<lparr>rs_record := r, rs_runs := runs\<rparr>)"

definition failed_dependencies :: "run_state \<Rightarrow> wf_node \<Rightarrow> string list" where
  "failed_dependencies st n = filter (\<lambda>d. map_of (rs_outcomes st) d \<noteq> Some True) (wn_deps n)"

definition skip_node :: "string \<Rightarrow> nat \<Rightarrow> wf_node \<Rightarrow> run_state \<Rightarrow> run_state" where
  "skip_node now layer n st =
     st\<lparr>rs_record := add_entry
          (node_entry (wn_id n) (wn_tool n) ''skipped''
             ([(''summary'', PStr msg_dependency_failed),
               (''errors'', PList [PStr (''failed dependencies: '' @ repr_strs (failed_dependencies st n))])]
              @ stamps now @ [(''orchestration'', orchestration_of layer False n)])) (rs_record st),
        rs_outputs := AList.update (wn_id n) [] (rs_outputs st),
        rs_outcomes := AList.update (wn_id n) False (rs_outcomes st)\<rparr>"

text \<open>The nodes of a layer that can run; the others are recorded as skipped.\<close>

fun split_layer :: "string \<Rightarrow> nat \<Rightarrow> wf_node list \<Rightarrow> run_state \<Rightarrow> wf_node list \<times> run_state" where
  "split_layer now layer [] st = ([], st)"
| "split_layer now layer (n # ns) st =
     (if map_of (rs_outcomes st) (wn_id n) \<noteq> None then split_layer now layer ns st
      else if failed_dependencies st n = []
      then (let (runnable, st') = split_layer now layer ns st in (n # runnable, st'))
      else split_layer now layer ns (skip_node now layer n st))"

text \<open>Consecutive reads form a group, every other node is a group of its own.\<close>

definition previews_read_only :: "wf_runtime \<Rightarrow> pydict \<Rightarrow> wf_node \<Rightarrow> bool" where
  "previews_read_only rt scope n =
     wr_read_only rt (wn_tool n)
       (case resolve scope (PDict (wn_args n)) of Inl _ \<Rightarrow> PDict (wn_args n) | Inr v \<Rightarrow> v)"

fun group_nodes :: "(wf_node \<Rightarrow> bool) \<Rightarrow> wf_node list \<Rightarrow> wf_node list \<Rightarrow> (bool \<times> wf_node list) list" where
  "group_nodes ro reads [] = (if reads \<noteq> [] then [(True, reads)] else [])"
| "group_nodes ro reads (n # ns) =
     (if ro n then group_nodes ro (reads @ [n]) ns
      else (if reads \<noteq> [] then [(True, reads)] else []) @ (False, [n]) # group_nodes ro [] ns)"

definition record_result :: "nat \<Rightarrow> bool \<Rightarrow> wf_node \<times> pydict \<times> pydict \<times> bool \<Rightarrow> run_state \<Rightarrow> run_state" where
  "record_result layer par = (\<lambda>(n, entry, out, success) st.
     st\<lparr>rs_record := add_entry (entry @ [(''orchestration'', orchestration_of layer par n)]) (rs_record st),
        rs_outputs := AList.update (wn_id n) out (rs_outputs st),
        rs_outcomes := AList.update (wn_id n)
          (success \<and> dget entry ''status'' \<notin> {PStr ''skipped'', PStr ''cancelled''}) (rs_outcomes st),
        rs_failed := rs_failed st \<or> \<not> success\<rparr>)"

definition run_group ::
  "wf_runtime \<Rightarrow> string \<Rightarrow> pydict \<Rightarrow> string \<times> string \<Rightarrow> nat \<Rightarrow> bool \<times> wf_node list \<Rightarrow> run_state \<Rightarrow> run_state" where
  "run_group rt now inputs path layer = (\<lambda>(par, ns) st.
     let completed = map (\<lambda>n. (n, execute_node rt now inputs (rs_outputs st) n)) ns
     in save_state now path (fold (record_result layer (par \<and> length ns > 1)) completed st))"

definition run_layer ::
  "wf_runtime \<Rightarrow> string \<Rightarrow> pydict \<Rightarrow> string \<times> string \<Rightarrow> nat \<Rightarrow> wf_node list \<Rightarrow> run_state \<Rightarrow> run_state" where
  "run_layer rt now inputs path layer ns st =
     (let (runnable, st1) = split_layer now layer ns st;
          st2 = (if length runnable \<noteq> length ns then save_state now path st1 else st1);
          groups = group_nodes (previews_read_only rt (run_scope inputs (rs_outputs st2))) [] runnable
      in fold (run_group rt now inputs path layer) groups st2)"

fun run_layers ::
  "wf_runtime \<Rightarrow> string \<Rightarrow> pydict \<Rightarrow> string \<times> string \<Rightarrow> (nat \<Rightarrow> wf_store \<Rightarrow> wf_store) \<Rightarrow> (nat \<Rightarrow> bool) \<Rightarrow>
   nat \<Rightarrow> wf_node list list \<Rightarrow> run_state \<Rightarrow> run_state" where
  "run_layers rt now inputs path others job_cancelled layer [] st = st"
| "run_layers rt now inputs path others job_cancelled layer (ns # rest) st =
     (let st1 = st\<lparr>rs_runs := others layer (rs_runs st)\<rparr> in
      if cancel_requested path (job_cancelled layer) (rs_runs st1)
      then st1\<lparr>rs_record := dset ''status'' (PStr ''cancelled'') (rs_record st1)\<rparr>
      else run_layers rt now inputs path others job_cancelled (Suc layer) rest
             (run_layer rt now inputs path layer ns st1))"

definition initial_record :: "string \<Rightarrow> string \<Rightarrow> string \<Rightarrow> int \<Rightarrow> string \<Rightarrow> string \<Rightarrow> pydict \<Rightarrow> pydict" where
  "initial_record now run_id workflow_id version workspace_id job_id inputs =
     [(''run_id'', PStr run_id), (''workflow_id'', PStr workflow_id), (''workflow_version'', PInt version),
      (''workspace_id'', PStr workspace_id), (''job_id'', PStr job_id), (''status'', PStr ''running''),
      (''inputs'', PDict (redact_dict inputs)), (''nodes'', PList []), (''started_at'', PStr now), (''updated_at'', PStr now)]"

definition finish_run :: "string \<Rightarrow> string \<times> string \<Rightarrow> run_state \<Rightarrow> run_state" where
  "finish_run now path st =
     (let r1 = (if dget (rs_record st) ''status'' = PStr ''running''
                then dset ''status'' (PStr (if rs_failed st then ''failed'' else ''succeeded'')) (rs_record st) else rs_record st)
      in save_state now path (st\<lparr>rs_record := dset ''finished_at'' (PStr now) r1\<rparr>))"

text \<open>The nodes of each layer, by their ids.\<close>

definition layer_nodes :: "wf_definition \<Rightarrow> wf_node list list" where
  "layer_nodes d = map (map (\<lambda>i. the (find (\<lambda>n. wn_id n = i) (wd_nodes d)))) (wd_layers d)"

definition execute_definition ::
  "wf_runtime \<Rightarrow> string \<Rightarrow> (nat \<Rightarrow> wf_store \<Rightarrow> wf_store) \<Rightarrow> (nat \<Rightarrow> bool) \<Rightarrow> wf_definition \<Rightarrow> pydict \<Rightarrow> string \<times> string \<Rightarrow>
   pydict \<Rightarrow> wf_store \<Rightarrow> run_state" where
  "execute_definition rt now others job_cancelled d inputs path r0 runs =
     (let st0 = save_state now path \<lparr>rs_record = r0, rs_runs = runs, rs_outputs = [], rs_outcomes = [], rs_failed = False\<rparr>
      in finish_run now path (run_layers rt now inputs path others job_cancelled 1 (layer_nodes d) st0))"

definition execute_workflow ::
  "wf_runtime \<Rightarrow> string list \<Rightarrow> string \<Rightarrow> string \<Rightarrow> (nat \<Rightarrow> wf_store \<Rightarrow> wf_store) \<Rightarrow> (nat \<Rightarrow> bool) \<Rightarrow>
   string \<Rightarrow> string \<Rightarrow> pyval \<Rightarrow> string \<Rightarrow> string \<Rightarrow> wf_store \<times> wf_store \<Rightarrow> (wf_store \<times> pydict) res" where
  "execute_workflow rt tools fresh now others job_cancelled workspace_id workflow_id inputs0 job_id run_id0 = (\<lambda>(defs, runs).
     rbind (get_workflow workspace_id workflow_id defs) (\<lambda>found.
     case found of
       None \<Rightarrow> Inl (WorkflowError ''workflow not found or inactive'')
     | Some stored \<Rightarrow>
         if dget stored ''status'' \<noteq> PStr ''active'' then Inl (WorkflowError ''workflow not found or inactive'')
         else
           rbind (validate_definition tools fresh (PDict stored)) (\<lambda>d.
           rbind (validate_workflow_inputs inputs0) (\<lambda>inputs.
           rbind (wf_id (if run_id0 \<noteq> [] then run_id0 else ''wfrun_'' @ fresh) ''run_id'') (\<lambda>run_id.
           rbind (wf_path ''run_id'' workspace_id run_id) (\<lambda>path.
           rbind (rguard (\<not> (run_id0 \<noteq> [] \<and> st_get runs path \<noteq> None)) (WorkflowError ''workflow run already exists'')) (\<lambda>_.
           let st = execute_definition rt now others job_cancelled d inputs path
                      (initial_record now run_id workflow_id (wd_version d) workspace_id job_id inputs) runs
           in Inr (rs_runs st, rs_record st))))))))"

section \<open>The log of a run\<close>

text \<open>The nodes of the record, as pairs of the node id and the status.\<close>

definition entry_of :: "pyval \<Rightarrow> string \<times> string" where
  "entry_of e = (gets (as_dict e) ''node_id'', gets (as_dict e) ''status'')"

definition record_log :: "pydict \<Rightarrow> (string \<times> string) list" where
  "record_log r = map entry_of (as_list (dget r ''nodes''))"

definition ok_statuses :: "string set" where
  "ok_statuses = {''succeeded'', ''dry_run''}"

lemma record_log_dset [simp]: "k \<noteq> ''nodes'' \<Longrightarrow> record_log (dset k v r) = record_log r"
  by (simp add: record_log_def dget_dset)

lemma record_log_add [simp]: "record_log (add_entry e r) = record_log r @ [entry_of (PDict e)]"
  by (simp add: record_log_def add_entry_def dget_dset)

lemma save_state_simps [simp]:
  "record_log (rs_record (save_state now path st)) = record_log (rs_record st)"
  "rs_outputs (save_state now path st) = rs_outputs st" "rs_outcomes (save_state now path st) = rs_outcomes st"
  "rs_failed (save_state now path st) = rs_failed st"
  "dget (rs_record (save_state now path st)) ''status'' = dget (rs_record st) ''status''"
  by (simp_all add: save_state_def save_run_def Let_def dget_dset)

text \<open>In an ordered log a node that was not skipped comes after the successes of its dependencies.\<close>

definition ordered_log :: "(string \<Rightarrow> string list) \<Rightarrow> (string \<times> string) list \<Rightarrow> bool" where
  "ordered_log deps log \<longleftrightarrow>
     (\<forall>k < length log. snd (log ! k) \<noteq> ''skipped'' \<longrightarrow>
        (\<forall>d \<in> set (deps (fst (log ! k))). \<exists>t \<in> ok_statuses. (d, t) \<in> set (take k log)))"

lemma ordered_log_Nil [simp]: "ordered_log deps []"
  by (simp add: ordered_log_def)

lemma ordered_log_snoc:
  "ordered_log deps (log @ [(i, s)]) \<longleftrightarrow>
     ordered_log deps log \<and> (s \<noteq> ''skipped'' \<longrightarrow> (\<forall>d \<in> set (deps i). \<exists>t \<in> ok_statuses. (d, t) \<in> set log))"
proof -
  have all: "(\<forall>k < length (log @ [(i, s)]). P k) \<longleftrightarrow> (\<forall>k < length log. P k) \<and> P (length log)" for P
    by (auto simp: less_Suc_eq)
  show ?thesis unfolding ordered_log_def all by (simp add: nth_append cong: conj_cong)
qed

text \<open>What holds of the log at every moment: each node once, the outcomes agree with it, it is ordered,
  and without a failure nothing failed.\<close>

definition run_inv :: "(string \<Rightarrow> string list) \<Rightarrow> run_state \<Rightarrow> bool" where
  "run_inv deps st \<longleftrightarrow>
     distinct (map fst (record_log (rs_record st)))
     \<and> dom (map_of (rs_outcomes st)) = fst ` set (record_log (rs_record st))
     \<and> (\<forall>(i, s) \<in> set (record_log (rs_record st)).
          (map_of (rs_outcomes st) i = Some True \<longleftrightarrow> s \<in> ok_statuses)
          \<and> (\<not> rs_failed st \<longrightarrow> s \<in> insert ''skipped'' ok_statuses))
     \<and> ordered_log deps (record_log (rs_record st))"

lemma run_inv_dom: "run_inv deps st \<Longrightarrow> fst ` set (record_log (rs_record st)) = dom (map_of (rs_outcomes st))"
  unfolding run_inv_def by blast

lemma run_inv_success:
  assumes "run_inv deps st" "map_of (rs_outcomes st) d = Some True"
  shows "\<exists>t \<in> ok_statuses. (d, t) \<in> set (record_log (rs_record st))"
proof -
  have "d \<in> fst ` set (record_log (rs_record st))" using assms unfolding run_inv_def by (metis domI)
  then obtain t where "(d, t) \<in> set (record_log (rs_record st))" by force
  with assms show ?thesis unfolding run_inv_def by blast
qed

lemma run_inv_add:
  assumes "run_inv deps st" "map_of (rs_outcomes st) i = None"
    and "record_log (rs_record st') = record_log (rs_record st) @ [(i, s)]"
    and "rs_outcomes st' = AList.update i b (rs_outcomes st)" "b \<longleftrightarrow> s \<in> ok_statuses"
    and "s \<noteq> ''skipped'' \<Longrightarrow> \<forall>d \<in> set (deps i). map_of (rs_outcomes st) d = Some True"
    and "rs_failed st' \<longleftrightarrow> rs_failed st \<or> f" "\<not> f \<Longrightarrow> s \<in> insert ''skipped'' ok_statuses"
  shows "run_inv deps st'"
proof -
  have new: "i \<notin> fst ` set (record_log (rs_record st))" using assms(1,2) unfolding run_inv_def by (metis domIff)
  have out: "map_of (rs_outcomes st') j = (if j = i then Some b else map_of (rs_outcomes st) j)" for j
    by (simp add: assms(4) update_conv')
  have old: "(map_of (rs_outcomes st') j = Some True \<longleftrightarrow> t \<in> ok_statuses) \<and> (\<not> rs_failed st' \<longrightarrow> t \<in> insert ''skipped'' ok_statuses)"
    if "(j, t) \<in> set (record_log (rs_record st))" for j t
  proof -
    have "j \<noteq> i" using new that by force
    then show ?thesis using assms(1,7) that out unfolding run_inv_def by fastforce
  qed
  have new_entry: "(map_of (rs_outcomes st') i = Some True \<longleftrightarrow> s \<in> ok_statuses) \<and> (\<not> rs_failed st' \<longrightarrow> s \<in> insert ''skipped'' ok_statuses)"
    using assms(5,7,8) out by auto
  have "ordered_log deps (record_log (rs_record st'))"
    unfolding assms(3) ordered_log_snoc using assms(1,6) run_inv_success [OF assms(1)] by (auto simp: run_inv_def)
  moreover have "insert i (dom (map_of (rs_outcomes st))) = dom (map_of (rs_outcomes st'))" by (auto simp: out split: if_splits)
  then have "dom (map_of (rs_outcomes st')) = fst ` set (record_log (rs_record st'))"
    using assms(1) by (simp add: run_inv_def assms(3))
  moreover have "distinct (map fst (record_log (rs_record st')))" using assms(1) new by (simp add: run_inv_def assms(3))
  ultimately show ?thesis unfolding run_inv_def using old new_entry by (auto simp: assms(3))
qed

lemma run_inv_cong:
  assumes "run_inv deps st" "record_log (rs_record st') = record_log (rs_record st)" "rs_outcomes st' = rs_outcomes st"
    "rs_failed st' = rs_failed st"
  shows "run_inv deps st'"
  using assms by (simp add: run_inv_def)

lemma run_inv_save [simp]: "run_inv deps (save_state now path st) = run_inv deps st"
  by (simp add: run_inv_def)

lemma skip_node_inv:
  assumes "run_inv deps st" "map_of (rs_outcomes st) (wn_id n) = None"
  shows "run_inv deps (skip_node now layer n st)"
  by (rule run_inv_add [OF assms, where s = "''skipped''" and b = False and f = False])
    (simp_all add: skip_node_def entry_of_def node_entry_def gets_def gets_or_def ok_statuses_def py_or_def)

text \<open>The entry of a node that is executed.\<close>

lemma execute_node_entry:
  assumes "execute_node rt now inputs outputs n = (entry, out, success)"
  shows "\<exists>s details. entry = node_entry (wn_id n) (wn_tool n) s details
           \<and> (success \<and> dget entry ''status'' \<notin> {PStr ''skipped'', PStr ''cancelled''} \<longleftrightarrow> s \<in> ok_statuses)
           \<and> (success \<longrightarrow> s \<in> insert ''skipped'' ok_statuses)"
proof (cases "node_arguments rt (run_scope inputs outputs) n")
  case (Inl e)
  with assms show ?thesis by (auto simp: execute_node_def failed_entry_def ok_statuses_def)
next
  case (Inr a)
  show ?thesis
  proof (cases a)
    case None
    with assms Inr show ?thesis by (auto simp: execute_node_def node_entry_def ok_statuses_def)
  next
    case (Some args)
    with assms Inr show ?thesis
      by (cases "wr_invoke rt (wn_id n) (wn_tool n) args")
        (auto simp: execute_node_def failed_entry_def node_entry_def ok_statuses_def node_success_def)
  qed
qed

lemma record_result_inv:
  assumes "run_inv deps st" "map_of (rs_outcomes st) (wn_id n) = None" "execute_node rt now inputs outputs n = (entry, out, success)"
    and "\<forall>d \<in> set (deps (wn_id n)). map_of (rs_outcomes st) d = Some True"
  shows "run_inv deps (record_result layer p (n, entry, out, success) st)"
proof -
  from execute_node_entry [OF assms(3)] obtain s details where
    e: "entry = node_entry (wn_id n) (wn_tool n) s details"
    and b: "success \<and> dget entry ''status'' \<notin> {PStr ''skipped'', PStr ''cancelled''} \<longleftrightarrow> s \<in> ok_statuses"
    and f: "success \<longrightarrow> s \<in> insert ''skipped'' ok_statuses" by blast
  have log: "entry_of (PDict (entry @ [x])) = (wn_id n, s)" for x
    by (simp add: e entry_of_def node_entry_def gets_def gets_or_def py_or_def)
  show ?thesis
    by (rule run_inv_add [OF assms(1,2), where s = s and f = "\<not> success"])
      (use b f assms(4) in \<open>simp_all add: record_result_def log\<close>)
qed

text \<open>The state \<open>st'\<close> has outcomes for the nodes \<open>ids\<close> besides those of \<open>st\<close>.\<close>

definition extends :: "string set \<Rightarrow> run_state \<Rightarrow> run_state \<Rightarrow> bool" where
  "extends ids st st' \<longleftrightarrow>
     dom (map_of (rs_outcomes st')) = dom (map_of (rs_outcomes st)) \<union> ids
     \<and> (\<forall>d. map_of (rs_outcomes st) d = Some True \<longrightarrow> map_of (rs_outcomes st') d = Some True)"

lemma extends_refl: "extends {} st st"
  by (simp add: extends_def)

lemma extends_trans: "extends A st st1 \<Longrightarrow> extends B st1 st2 \<Longrightarrow> extends (A \<union> B) st st2"
  by (auto simp: extends_def)

lemma extends_update:
  "map_of (rs_outcomes st) i = None \<Longrightarrow> rs_outcomes st' = AList.update i b (rs_outcomes st) \<Longrightarrow> extends {i} st st'"
  by (auto simp: extends_def update_conv' split: if_splits)

lemma extends_save [simp]:
  "extends A st (save_state now path st') = extends A st st'" "extends A (save_state now path st) st' = extends A st st'"
  by (simp_all add: extends_def)

definition all_done :: "(string \<Rightarrow> string list) \<Rightarrow> run_state \<Rightarrow> string \<Rightarrow> bool" where
  "all_done deps st i \<longleftrightarrow> (\<forall>d \<in> set (deps i). map_of (rs_outcomes st) d = Some True)"

lemma all_done_extends: "extends A st st' \<Longrightarrow> all_done deps st i \<Longrightarrow> all_done deps st' i"
  by (auto simp: all_done_def extends_def)

lemma new_extends:
  "extends A st st' \<Longrightarrow> map_of (rs_outcomes st) i = None \<Longrightarrow> i \<notin> A \<Longrightarrow> map_of (rs_outcomes st') i = None"
  unfolding extends_def by (metis UnE domIff)

lemma record_results_inv:
  assumes "run_inv deps st" "distinct (map wn_id ns)"
    and "\<And>n. n \<in> set ns \<Longrightarrow> map_of (rs_outcomes st) (wn_id n) = None \<and> all_done deps st (wn_id n)"
  shows "run_inv deps (fold (record_result layer p) (map (\<lambda>n. (n, execute_node rt now inputs outputs n)) ns) st)
       \<and> extends (wn_id ` set ns) st (fold (record_result layer p) (map (\<lambda>n. (n, execute_node rt now inputs outputs n)) ns) st)"
  using assms
proof (induction ns arbitrary: st)
  case (Cons n ns)
  obtain entry out success where x: "execute_node rt now inputs outputs n = (entry, out, success)" by (metis prod.collapse)
  let ?st = "record_result layer p (n, entry, out, success) st"
  have new: "map_of (rs_outcomes st) (wn_id n) = None" "all_done deps st (wn_id n)" using Cons.prems(3) by simp_all
  have ext: "extends {wn_id n} st ?st" by (rule extends_update [OF new(1)]) (simp add: record_result_def)
  have inv: "run_inv deps ?st" by (rule record_result_inv [OF Cons.prems(1) new(1) x]) (use new(2) in \<open>simp add: all_done_def\<close>)
  have "map_of (rs_outcomes ?st) (wn_id m) = None \<and> all_done deps ?st (wn_id m)" if m: "m \<in> set ns" for m
  proof
    have "wn_id m \<notin> {wn_id n}" using Cons.prems(2) m by (auto simp: image_iff)
    then show "map_of (rs_outcomes ?st) (wn_id m) = None" using Cons.prems(3) m by (intro new_extends [OF ext]) auto
    show "all_done deps ?st (wn_id m)" using Cons.prems(3) m by (intro all_done_extends [OF ext]) auto
  qed
  with Cons.IH [OF inv] Cons.prems(2) have
    "run_inv deps (fold (record_result layer p) (map (\<lambda>n. (n, execute_node rt now inputs outputs n)) ns) ?st)"
    "extends (wn_id ` set ns) ?st (fold (record_result layer p) (map (\<lambda>n. (n, execute_node rt now inputs outputs n)) ns) ?st)" by simp_all
  with extends_trans [OF ext this(2)] show ?case by (simp add: x)
qed (simp add: extends_refl)

lemma run_group_inv:
  assumes "run_inv deps st" "distinct (map wn_id ns)"
    and "\<And>n. n \<in> set ns \<Longrightarrow> map_of (rs_outcomes st) (wn_id n) = None \<and> all_done deps st (wn_id n)"
  shows "run_inv deps (run_group rt now inputs path layer (p, ns) st) \<and> extends (wn_id ` set ns) st (run_group rt now inputs path layer (p, ns) st)"
  using record_results_inv [OF assms] by (simp add: run_group_def Let_def)

lemma run_groups_inv:
  assumes "run_inv deps st" "distinct (map wn_id (concat (map snd gs)))"
    and "\<And>n. n \<in> set (concat (map snd gs)) \<Longrightarrow> map_of (rs_outcomes st) (wn_id n) = None \<and> all_done deps st (wn_id n)"
  shows "run_inv deps (fold (run_group rt now inputs path layer) gs st)
       \<and> extends (wn_id ` set (concat (map snd gs))) st (fold (run_group rt now inputs path layer) gs st)"
  using assms
proof (induction gs arbitrary: st)
  case (Cons g gs)
  obtain p ns where g: "g = (p, ns)" by (cases g)
  let ?st = "run_group rt now inputs path layer (p, ns) st"
  have r: "run_inv deps ?st \<and> extends (wn_id ` set ns) st ?st"
  proof (rule run_group_inv [OF Cons.prems(1)])
    show "distinct (map wn_id ns)" using Cons.prems(2) by (simp add: g)
    show "map_of (rs_outcomes st) (wn_id n) = None \<and> all_done deps st (wn_id n)" if "n \<in> set ns" for n
      using Cons.prems(3) [of n] that by (simp add: g)
  qed
  have "map_of (rs_outcomes ?st) (wn_id m) = None \<and> all_done deps ?st (wn_id m)" if m: "m \<in> set (concat (map snd gs))" for m
  proof
    have "wn_id m \<notin> wn_id ` set ns" using Cons.prems(2) m g by (auto simp: image_iff)
    then show "map_of (rs_outcomes ?st) (wn_id m) = None"
      by (rule new_extends [OF conjunct2 [OF r] conjunct1 [OF Cons.prems(3)], rotated]) (use m in simp)
    show "all_done deps ?st (wn_id m)"
      by (rule all_done_extends [OF conjunct2 [OF r] conjunct2 [OF Cons.prems(3)]]) (use m in simp)
  qed
  with Cons.IH [of ?st] Cons.prems(2) r g have
    "run_inv deps (fold (run_group rt now inputs path layer) gs ?st)"
    "extends (wn_id ` set (concat (map snd gs))) ?st (fold (run_group rt now inputs path layer) gs ?st)" by simp_all
  with extends_trans [OF conjunct2 [OF r] this(2)] show ?case by (simp add: g image_Un)
qed (simp add: extends_refl)

lemma group_nodes_concat: "concat (map snd (group_nodes ro reads ns)) = reads @ ns"
  by (induction ro reads ns rule: group_nodes.induct) auto

lemma split_layer_inv:
  assumes "run_inv deps st" "distinct (map wn_id ns)" "\<And>n. n \<in> set ns \<Longrightarrow> map_of (rs_outcomes st) (wn_id n) = None"
    and "\<And>n. n \<in> set ns \<Longrightarrow> deps (wn_id n) = wn_deps n" "split_layer now layer ns st = (runnable, st')"
  shows "run_inv deps st' \<and> set runnable \<subseteq> set ns \<and> distinct (map wn_id runnable)
    \<and> extends (wn_id ` set ns - wn_id ` set runnable) st st' \<and> (\<forall>n \<in> set runnable. map_of (rs_outcomes st') (wn_id n) = None \<and> all_done deps st' (wn_id n))"
  using assms
proof (induction ns arbitrary: st runnable)
  case (Cons n ns)
  have new: "map_of (rs_outcomes st) (wn_id n) = None" using Cons.prems(3) by simp
  have d: "wn_id n \<notin> wn_id ` set ns" "distinct (map wn_id ns)" using Cons.prems(2) by auto
  show ?case
  proof (cases "failed_dependencies st n = []")
    case True
    then obtain rs where rs: "split_layer now layer ns st = (rs, st')" "runnable = n # rs"
      using Cons.prems(5) new by (auto split: prod.splits)
    have IH: "run_inv deps st' \<and> set rs \<subseteq> set ns \<and> distinct (map wn_id rs)
      \<and> extends (wn_id ` set ns - wn_id ` set rs) st st' \<and> (\<forall>n \<in> set rs. map_of (rs_outcomes st') (wn_id n) = None \<and> all_done deps st' (wn_id n))"
      by (rule Cons.IH [OF Cons.prems(1) d(2) _ _ rs(1)]) (use Cons.prems(3,4) in simp_all)
    have dn: "all_done deps st (wn_id n)"
      using True Cons.prems(4) [of n] by (auto simp: all_done_def failed_dependencies_def filter_empty_conv)
    from IH have ext: "extends (wn_id ` set ns - wn_id ` set rs) st st'" and sub: "set rs \<subseteq> set ns" by blast+
    have n': "map_of (rs_outcomes st') (wn_id n) = None" by (rule new_extends [OF ext new]) (use d(1) in blast)
    have nr: "wn_id n \<notin> wn_id ` set rs" using sub d(1) by blast
    moreover have "wn_id ` set (n # ns) - wn_id ` set (n # rs) = wn_id ` set ns - wn_id ` set rs" using d(1) nr by auto
    moreover have "set (n # rs) \<subseteq> set (n # ns)" using sub by auto
    ultimately show ?thesis using IH n' all_done_extends [OF ext dn] unfolding rs(2) by simp
  next
    case False
    then have s: "split_layer now layer ns (skip_node now layer n st) = (runnable, st')" using Cons.prems(5) new by simp
    have ext: "extends {wn_id n} st (skip_node now layer n st)" by (rule extends_update [OF new]) (simp add: skip_node_def)
    have other: "map_of (rs_outcomes (skip_node now layer n st)) (wn_id m) = None" if "m \<in> set ns" for m
    proof (rule new_extends [OF ext])
      show "wn_id m \<notin> {wn_id n}" using d(1) that by (auto simp: image_iff)
    qed (use Cons.prems(3) that in simp)
    have IH: "run_inv deps st' \<and> set runnable \<subseteq> set ns \<and> distinct (map wn_id runnable)
      \<and> extends (wn_id ` set ns - wn_id ` set runnable) (skip_node now layer n st) st'
      \<and> (\<forall>n \<in> set runnable. map_of (rs_outcomes st') (wn_id n) = None \<and> all_done deps st' (wn_id n))"
      by (rule Cons.IH [OF skip_node_inv [OF Cons.prems(1) new] d(2) other _ s]) (use Cons.prems(4) in simp_all)
    have "wn_id n \<notin> wn_id ` set runnable" using IH d(1) by auto
    then have "{wn_id n} \<union> (wn_id ` set ns - wn_id ` set runnable) = wn_id ` set (n # ns) - wn_id ` set runnable" by auto
    with IH extends_trans [OF ext, of "wn_id ` set ns - wn_id ` set runnable" st'] show ?thesis by auto
  qed
qed (simp add: extends_refl)

text \<open>A layer whose nodes are new gives each of them exactly one entry.\<close>

lemma run_layer_inv:
  assumes "run_inv deps st" "distinct (map wn_id ns)" "\<And>n. n \<in> set ns \<Longrightarrow> map_of (rs_outcomes st) (wn_id n) = None"
    and "\<And>n. n \<in> set ns \<Longrightarrow> deps (wn_id n) = wn_deps n"
  shows "run_inv deps (run_layer rt now inputs path layer ns st)
       \<and> extends (wn_id ` set ns) st (run_layer rt now inputs path layer ns st)"
proof -
  obtain runnable st1 where s: "split_layer now layer ns st = (runnable, st1)" by (metis prod.collapse)
  define st2 where "st2 = (if length runnable \<noteq> length ns then save_state now path st1 else st1)"
  let ?gs = "group_nodes (previews_read_only rt (run_scope inputs (rs_outputs st2))) [] runnable"
  from split_layer_inv [OF assms s] have i1: "run_inv deps st1" and sub: "set runnable \<subseteq> set ns"
    and d: "distinct (map wn_id runnable)" and e1: "extends (wn_id ` set ns - wn_id ` set runnable) st st1"
    and r: "\<forall>n \<in> set runnable. map_of (rs_outcomes st1) (wn_id n) = None \<and> all_done deps st1 (wn_id n)" by blast+
  have i2: "run_inv deps st2" and e2: "extends (wn_id ` set ns - wn_id ` set runnable) st st2" using i1 e1 by (simp_all add: st2_def)
  have r2: "map_of (rs_outcomes st2) (wn_id n) = None \<and> all_done deps st2 (wn_id n)" if "n \<in> set runnable" for n
    using r that by (simp add: st2_def all_done_def)
  have g: "run_inv deps (fold (run_group rt now inputs path layer) ?gs st2)
      \<and> extends (wn_id ` set runnable) st2 (fold (run_group rt now inputs path layer) ?gs st2)"
    using run_groups_inv [OF i2, of ?gs] d r2 unfolding group_nodes_concat append_Nil by blast
  have "wn_id ` set ns - wn_id ` set runnable \<union> wn_id ` set runnable = wn_id ` set ns" using sub by blast
  with g extends_trans [OF e2 conjunct2 [OF g]] show ?thesis by (simp add: run_layer_def s Let_def flip: st2_def)
qed

text \<open>A layer keeps the status of the record.\<close>

lemma status_add_entry [simp]: "dget (add_entry e r) ''status'' = dget r ''status''"
  by (simp add: add_entry_def dget_dset)

lemma split_layer_status:
  "split_layer now layer ns st = (runnable, st') \<Longrightarrow> dget (rs_record st') ''status'' = dget (rs_record st) ''status''"
  by (induction now layer ns st arbitrary: runnable rule: split_layer.induct)
    (auto simp: skip_node_def split: if_splits prod.splits)

lemma record_results_status:
  "dget (rs_record (fold (record_result layer p) xs st)) ''status'' = dget (rs_record st) ''status''"
  by (rule fold_invariant [where Q = "\<lambda>_. True"]) (auto simp: record_result_def)

lemma run_groups_status:
  "dget (rs_record (fold (run_group rt now inputs path layer) gs st)) ''status'' = dget (rs_record st) ''status''"
  by (rule fold_invariant [where Q = "\<lambda>_. True"]) (auto simp: run_group_def Let_def record_results_status)

lemma run_layer_status [simp]:
  "dget (rs_record (run_layer rt now inputs path layer ns st)) ''status'' = dget (rs_record st) ''status''"
  by (auto simp: run_layer_def Let_def run_groups_status split: prod.splits dest: split_layer_status)

lemma run_inv_runs [simp]: "run_inv deps (st\<lparr>rs_runs := r\<rparr>) = run_inv deps st"
  by (simp add: run_inv_def)

lemma run_layers_inv:
  assumes "run_inv deps st" "distinct (map wn_id (concat ls))" "\<And>n. n \<in> set (concat ls) \<Longrightarrow> map_of (rs_outcomes st) (wn_id n) = None"
    and "\<And>n. n \<in> set (concat ls) \<Longrightarrow> deps (wn_id n) = wn_deps n" "dget (rs_record st) ''status'' = PStr ''running''"
    and "st' = run_layers rt now inputs path others job_cancelled layer ls st"
  shows "run_inv deps st'
    \<and> dom (map_of (rs_outcomes st')) \<subseteq> dom (map_of (rs_outcomes st)) \<union> wn_id ` set (concat ls)
    \<and> (dget (rs_record st') ''status'' = PStr ''cancelled''
       \<or> dget (rs_record st') ''status'' = PStr ''running''
         \<and> dom (map_of (rs_outcomes st')) = dom (map_of (rs_outcomes st)) \<union> wn_id ` set (concat ls))"
  using assms
proof (induction ls arbitrary: st layer)
  case (Cons ns ls)
  let ?st1 = "st\<lparr>rs_runs := others layer (rs_runs st)\<rparr>"
  show ?case
  proof (cases "cancel_requested path (job_cancelled layer) (rs_runs ?st1)")
    case True
    then show ?thesis using Cons.prems(1,6) by (auto simp: run_inv_def dget_dset)
  next
    case False
    let ?st2 = "run_layer rt now inputs path layer ns ?st1"
    have l: "run_inv deps ?st2 \<and> extends (wn_id ` set ns) ?st1 ?st2"
      by (rule run_layer_inv) (use Cons.prems in \<open>simp_all\<close>)
    from l have dom2: "dom (map_of (rs_outcomes ?st2)) = dom (map_of (rs_outcomes st)) \<union> wn_id ` set ns" by (simp add: extends_def)
    have "map_of (rs_outcomes ?st2) (wn_id n) = None" if n: "n \<in> set (concat ls)" for n
    proof (rule new_extends [OF conjunct2 [OF l]])
      show "wn_id n \<notin> wn_id ` set ns" using Cons.prems(2) n by (auto simp: image_iff)
    qed (use Cons.prems(3) n in simp)
    from Cons.IH [OF conjunct1 [OF l] _ this _ _, of "Suc layer"] Cons.prems False
    have "run_inv deps st' \<and> dom (map_of (rs_outcomes st')) \<subseteq> dom (map_of (rs_outcomes ?st2)) \<union> wn_id ` set (concat ls)
      \<and> (dget (rs_record st') ''status'' = PStr ''cancelled''
       \<or> dget (rs_record st') ''status'' = PStr ''running''
         \<and> dom (map_of (rs_outcomes st')) = dom (map_of (rs_outcomes ?st2)) \<union> wn_id ` set (concat ls))" by simp
    then show ?thesis unfolding dom2 by (simp add: image_Un Un_assoc)
  qed
qed simp

text \<open>The final record of an execution.\<close>

lemma finish_run_simps:
  "record_log (rs_record (finish_run now path st)) = record_log (rs_record st)"
  "dget (rs_record (finish_run now path st)) ''status'' =
     (if dget (rs_record st) ''status'' = PStr ''running'' then PStr (if rs_failed st then ''failed'' else ''succeeded'')
      else dget (rs_record st) ''status'')"
  by (simp_all add: finish_run_def Let_def dget_dset)

lemma execute_definition_log:
  assumes "distinct (map wn_id ns)" "concat (layer_nodes d) = ns" "\<And>n. n \<in> set ns \<Longrightarrow> deps (wn_id n) = wn_deps n"
    and "dget r0 ''status'' = PStr ''running''" "record_log r0 = []"
    and "st = execute_definition rt now others job_cancelled d inputs path r0 runs"
  shows "distinct (map fst (record_log (rs_record st))) \<and> fst ` set (record_log (rs_record st)) \<subseteq> wn_id ` set ns
    \<and> ordered_log deps (record_log (rs_record st))
    \<and> (dget (rs_record st) ''status'' = PStr ''cancelled''
       \<or> dget (rs_record st) ''status'' \<in> {PStr ''failed'', PStr ''succeeded''}
         \<and> fst ` set (record_log (rs_record st)) = wn_id ` set ns)
    \<and> (dget (rs_record st) ''status'' = PStr ''succeeded'' \<longrightarrow> snd ` set (record_log (rs_record st)) \<subseteq> insert ''skipped'' ok_statuses)"
proof -
  define st0 where "st0 = save_state now path \<lparr>rs_record = r0, rs_runs = runs, rs_outputs = [], rs_outcomes = [], rs_failed = False\<rparr>"
  define st1 where "st1 = run_layers rt now inputs path others job_cancelled 1 (layer_nodes d) st0"
  have "run_inv deps st0" by (simp add: st0_def run_inv_def assms(5))
  from run_layers_inv [OF this _ _ _ _ st1_def, unfolded assms(2)] assms(1,3,4)
  have inv: "run_inv deps st1" and sub: "dom (map_of (rs_outcomes st1)) \<subseteq> wn_id ` set ns"
    and s: "dget (rs_record st1) ''status'' = PStr ''cancelled''
       \<or> dget (rs_record st1) ''status'' = PStr ''running'' \<and> dom (map_of (rs_outcomes st1)) = wn_id ` set ns"
    by (simp_all add: st0_def)
  have st: "st = finish_run now path st1" by (simp add: assms(6) execute_definition_def st0_def st1_def Let_def)
  show ?thesis
    unfolding st finish_run_simps using inv sub s by (auto simp: run_inv_def)
qed

lemma find_node:
  assumes "distinct (map wn_id ns)" "n \<in> set ns"
  shows "find (\<lambda>m. wn_id m = wn_id n) ns = Some n"
  using assms by (induction ns) (auto simp: image_iff)

lemma layer_nodes_accepted:
  assumes "validate_definition tools fresh payload = Inr D"
  shows "set (concat (layer_nodes D)) = set (wd_nodes D)" "distinct (map wn_id (concat (layer_nodes D)))"
proof -
  note a = accepted_layers [OF assms]
  let ?f = "\<lambda>i. the (find (\<lambda>n. wn_id n = i) (wd_nodes D))"
  have c: "concat (layer_nodes D) = map ?f (concat (wd_layers D))" by (simp add: layer_nodes_def map_concat)
  have f: "?f (wn_id n) = n" if "n \<in> set (wd_nodes D)" for n using find_node [OF a(2) that] by simp
  have "set (concat (layer_nodes D)) = ?f ` wn_id ` set (wd_nodes D)" unfolding c set_map a(5) ..
  also have "\<dots> = set (wd_nodes D)" using f by force
  finally show "set (concat (layer_nodes D)) = set (wd_nodes D)" .
  have "wn_id (?f i) = i" if "i \<in> set (concat (wd_layers D))" for i using that f unfolding a(5) by auto
  then have "map (wn_id \<circ> ?f) (concat (wd_layers D)) = map id (concat (wd_layers D))" by (intro map_cong) (simp_all del: set_concat)
  then show "distinct (map wn_id (concat (layer_nodes D)))" unfolding c map_map using a(4) by simp
qed

lemma initial_record_simps:
  "dget (initial_record now run_id workflow_id version workspace_id job_id inputs) ''status'' = PStr ''running''"
  "record_log (initial_record now run_id workflow_id version workspace_id job_id inputs) = []"
  by (simp_all add: initial_record_def record_log_def)

lemma execute_workflow_Inr:
  assumes "execute_workflow rt tools fresh now others job_cancelled workspace_id workflow_id inputs0 job_id run_id0 (defs, runs) = Inr (runs', r)"
  obtains stored d inputs run_id path st where
    "get_workflow workspace_id workflow_id defs = Inr (Some stored)" "validate_definition tools fresh (PDict stored) = Inr d"
    "validate_workflow_inputs inputs0 = Inr inputs" "wf_path ''run_id'' workspace_id run_id = Inr path"
    "st = execute_definition rt now others job_cancelled d inputs path
            (initial_record now run_id workflow_id (wd_version d) workspace_id job_id inputs) runs"
    "runs' = rs_runs st" "r = rs_record st"
  using assms unfolding execute_workflow_def case_prod_conv Let_def
  by (auto split: option.splits if_splits)

text \<open>C19: the record of a workflow run has at most one entry per node of the definition. A node that
  was not skipped comes after successful entries of all its dependencies. A run that is not
  cancelled has an entry for every node, and in a succeeded run nothing failed.\<close>

theorem workflow_run_respects_definition:
  assumes "execute_workflow rt tools fresh now others job_cancelled workspace_id workflow_id inputs job_id run_id (defs, runs) = Inr (runs', r)"
  shows "\<exists>stored d. get_workflow workspace_id workflow_id defs = Inr (Some stored) \<and> validate_definition tools fresh (PDict stored) = Inr d
    \<and> distinct (map fst (record_log r)) \<and> fst ` set (record_log r) \<subseteq> wn_id ` set (wd_nodes d)
    \<and> ordered_log (\<lambda>i. the (map_of (node_graph (wd_nodes d)) i)) (record_log r)
    \<and> (dget r ''status'' = PStr ''cancelled''
       \<or> dget r ''status'' \<in> {PStr ''failed'', PStr ''succeeded''} \<and> fst ` set (record_log r) = wn_id ` set (wd_nodes d))
    \<and> (dget r ''status'' = PStr ''succeeded'' \<longrightarrow> snd ` set (record_log r) \<subseteq> {''skipped'', ''succeeded'', ''dry_run''})"
proof (rule execute_workflow_Inr [OF assms])
  fix stored d inputs' run_id' path st
  assume g: "get_workflow workspace_id workflow_id defs = Inr (Some stored)" and v: "validate_definition tools fresh (PDict stored) = Inr d"
    and st: "st = execute_definition rt now others job_cancelled d inputs' path
            (initial_record now run_id' workflow_id (wd_version d) workspace_id job_id inputs') runs" and r: "r = rs_record st"
  note l = layer_nodes_accepted [OF v]
  have deps: "the (map_of (node_graph (wd_nodes d)) (wn_id n)) = wn_deps n" if "n \<in> set (concat (layer_nodes d))" for n
    using node_graph_lookup [OF accepted_layers(2) [OF v]] that unfolding l(1) by simp
  have ok: "insert ''skipped'' ok_statuses = {''skipped'', ''succeeded'', ''dry_run''}" by (auto simp: ok_statuses_def)
  note log = execute_definition_log [where deps = "\<lambda>i. the (map_of (node_graph (wd_nodes d)) i)", OF l(2) refl deps initial_record_simps st, unfolded l(1) ok]
  show ?thesis unfolding r by (rule exI [of _ stored], rule exI [of _ d], rule conjI [OF g conjI [OF v log]])
qed

definition sample_runtime :: wf_runtime where
  "sample_runtime =
     \<lparr>wr_canonicalize = \<lambda>node tool v. Inr v,
      wr_invoke = \<lambda>node tool v. Inr \<lparr>to_status = ''succeeded'', to_summary = ''ok'', to_output = [(''y'', PList [])], to_errors = [], to_duration = 1\<rparr>,
      wr_read_only = \<lambda>tool v. True, wr_project = \<lambda>d. (PDict d, False)\<rparr>"

definition sample_nodes :: "wf_node list" where
  "sample_nodes =
     [\<lparr>wn_id = ''b'', wn_name = ''b'', wn_tool = ''t'', wn_args = [], wn_deps = [''a''], wn_when = PBool True\<rparr>,
      \<lparr>wn_id = ''a'', wn_name = ''a'', wn_tool = ''t'', wn_args = [], wn_deps = [], wn_when = PBool True\<rparr>]"

definition sample_workflow :: wf_definition where
  "sample_workflow =
     \<lparr>wd_id = ''wf'', wd_name = ''demo'', wd_description = [], wd_version = 1, wd_status = ''active'', wd_policy = ''continue'',
      wd_nodes = sample_nodes, wd_order = [''a'', ''b''], wd_layers = [[''a''], [''b'']], wd_template = []\<rparr>"

lemma sample_execution:
  defines "st \<equiv> execute_definition sample_runtime ''now'' (\<lambda>_ runs. runs) (\<lambda>_. False) sample_workflow [] (''ws'', ''wfrun_2'')
                   (initial_record ''now'' ''wfrun_2'' ''wf'' 1 ''ws'' ''job'' []) []"
  shows "execute_workflow sample_runtime [''t''] ''2'' ''now'' (\<lambda>_ runs. runs) (\<lambda>_. False) ''ws'' ''wf'' (PDict []) ''job'' []
       ([((''ws'', ''wf''), definition_dict sample_workflow)], []) = Inr (rs_runs st, rs_record st)"
    "record_log (rs_record st) = [(''a'', ''succeeded''), (''b'', ''succeeded'')]"
proof -
  have g: "get_workflow ''ws'' ''wf'' [((''ws'', ''wf''), definition_dict sample_workflow)] = Inr (Some (definition_dict sample_workflow))"
    by code_simp
  have v: "validate_definition [''t''] ''2'' (PDict (definition_dict sample_workflow)) = Inr sample_workflow" by code_simp
  have i: "validate_workflow_inputs (PDict []) = Inr []" by code_simp
  have w: "wf_id (''wfrun_'' @ ''2'') ''run_id'' = Inr ''wfrun_2''" by code_simp
  have p: "wf_path ''run_id'' ''ws'' ''wfrun_2'' = Inr (''ws'', ''wfrun_2'')" by code_simp
  have a: "dget (definition_dict sample_workflow) ''status'' = PStr ''active''" "wd_version sample_workflow = 1" by code_simp+
  show "execute_workflow sample_runtime [''t''] ''2'' ''now'' (\<lambda>_ runs. runs) (\<lambda>_. False) ''ws'' ''wf'' (PDict []) ''job'' []
       ([((''ws'', ''wf''), definition_dict sample_workflow)], []) = Inr (rs_runs st, rs_record st)"
    unfolding execute_workflow_def case_prod_conv g rbind_simps option.case a v i not_True_eq_False if_False st_def
    using w p by (simp add: Let_def a rguard_def)
  show "record_log (rs_record st) = [(''a'', ''succeeded''), (''b'', ''succeeded'')]" unfolding st_def by code_simp
qed

theorem workflow_run_respects_definition_witness:
  "\<exists>runs' r. \<exists>d :: wf_definition. execute_workflow sample_runtime [''t''] ''2'' ''now'' (\<lambda>_ runs. runs) (\<lambda>_. False) ''ws'' ''wf'' (PDict []) ''job'' []
       ([((''ws'', ''wf''), definition_dict sample_workflow)], []) = Inr (runs', r)
     \<and> record_log r = [(''a'', ''succeeded''), (''b'', ''succeeded'')]
     \<and> ordered_log (\<lambda>i. the (map_of (node_graph (wd_nodes d)) i)) (record_log r)"
proof -
  let ?r = "rs_record (execute_definition sample_runtime ''now'' (\<lambda>_ runs. runs) (\<lambda>_. False) sample_workflow [] (''ws'', ''wfrun_2'')
                   (initial_record ''now'' ''wfrun_2'' ''wf'' 1 ''ws'' ''job'' []) [])"
  from workflow_run_respects_definition [OF sample_execution(1)]
  obtain d :: wf_definition where "ordered_log (\<lambda>i. the (map_of (node_graph (wd_nodes d)) i)) (record_log ?r)" by (elim exE conjE) (rule that, assumption)
  then show ?thesis using sample_execution by (intro exI [of _ d] exI conjI)
qed

section \<open>Reads and writes of a layer\<close>

text \<open>The groups of a layer keep the order of its nodes; nodes run together only if they are reads,
  and every other node runs alone.\<close>

theorem groups_isolate_writes:
  "concat (map snd (group_nodes ro [] ns)) = ns
   \<and> (\<forall>(par, g) \<in> set (group_nodes ro [] ns). if par then g \<noteq> [] \<and> (\<forall>n \<in> set g. ro n) else (\<exists>n. g = [n] \<and> \<not> ro n))"
proof -
  define P where "P = (\<lambda>(par, g). if par then g \<noteq> [] \<and> (\<forall>n \<in> set g. ro n) else (\<exists>n. g = [n] \<and> \<not> ro n))"
  have "list_all P (group_nodes ro reads ns)" if "\<forall>n \<in> set reads. ro n" for reads
    using that by (induction ns arbitrary: reads) (auto simp: P_def)
  then have "list_all P (group_nodes ro [] ns)" by simp
  then show ?thesis unfolding P_def list_all_iff group_nodes_concat append_Nil by (intro conjI refl)
qed

theorem groups_isolate_writes_witness:
  "concat (map snd (group_nodes (\<lambda>n. wn_id n = ''a'') [] sample_nodes)) = sample_nodes
     \<and> group_nodes (\<lambda>n. wn_id n = ''a'') [] sample_nodes = [(False, [hd sample_nodes]), (True, tl sample_nodes)]"
  using groups_isolate_writes [of "\<lambda>n. wn_id n = ''a''" sample_nodes] by (simp add: sample_nodes_def)

section \<open>Cancellation\<close>

lemma run_layers_cancelled:
  assumes "\<forall>runs. cancel_requested path (job_cancelled k) (others k runs)" "layer \<le> k" "k < layer + length ls"
  shows "dget (rs_record (run_layers rt now inputs path others job_cancelled layer ls st)) ''status'' = PStr ''cancelled''
    \<and> record_log (rs_record (run_layers rt now inputs path others job_cancelled layer ls st))
        = record_log (rs_record (run_layers rt now inputs path others job_cancelled layer (take (k - layer) ls) st))"
  using assms(2,3)
proof (induction ls arbitrary: layer st)
  case (Cons ns ls)
  show ?case
  proof (cases "layer = k")
    case True
    then show ?thesis using assms(1) by (simp add: dget_dset)
  next
    case False
    then have k: "take (k - layer) (ns # ls) = ns # take (k - Suc layer) ls" using Cons.prems(1) by (simp add: take_Cons' Suc_le_eq)
    show ?thesis unfolding k using Cons.IH [of "Suc layer"] Cons.prems False by (simp add: Let_def dget_dset)
  qed
qed simp

text \<open>when the cancellation of a run is visible at the start of layer \<open>k\<close>, in the run record or in
  the job, the run ends as cancelled and has entries only for nodes of the earlier layers.\<close>

theorem cancellation_stops_run:
  assumes "validate_definition tools fresh payload = Inr d"
    and "\<forall>runs'. cancel_requested path (job_cancelled k) (others k runs')" "1 \<le> k" "k \<le> length (layer_nodes d)"
    and "st = execute_definition rt now others job_cancelled d inputs path
               (initial_record now run_id workflow_id version workspace_id job_id inputs) runs"
  shows "dget (rs_record st) ''status'' = PStr ''cancelled''
    \<and> fst ` set (record_log (rs_record st)) \<subseteq> wn_id ` set (concat (take (k - 1) (layer_nodes d)))"
proof -
  let ?r0 = "initial_record now run_id workflow_id version workspace_id job_id inputs"
  define st0 where "st0 = save_state now path \<lparr>rs_record = ?r0, rs_runs = runs, rs_outputs = [], rs_outcomes = [], rs_failed = False\<rparr>"
  define deps where "deps = (\<lambda>i. the (map_of (node_graph (wd_nodes d)) i))"
  let ?run = "\<lambda>ls. run_layers rt now inputs path others job_cancelled 1 ls st0"
  have c: "dget (rs_record (?run (layer_nodes d))) ''status'' = PStr ''cancelled''"
    "record_log (rs_record (?run (layer_nodes d))) = record_log (rs_record (?run (take (k - 1) (layer_nodes d))))"
    using run_layers_cancelled [where job_cancelled = job_cancelled and others = others and k = k and layer = 1 and ls = "layer_nodes d", OF assms(2,3)] assms(4) by auto
  have st: "st = finish_run now path (?run (layer_nodes d))" by (simp add: assms(5) execute_definition_def st0_def Let_def)
  note l = layer_nodes_accepted [OF assms(1)]
  have sub: "set (concat (take (k - 1) (layer_nodes d))) \<subseteq> set (wd_nodes d)"
    unfolding l(1) [symmetric] using set_take_subset [of "k - 1" "layer_nodes d"] by auto
  have "distinct (map wn_id (concat (take (k - 1) (layer_nodes d))))"
    using l(2) append_take_drop_id [of "k - 1" "layer_nodes d"] by (metis concat_append distinct_append map_append)
  moreover have "run_inv deps st0" "rs_outcomes st0 = []" "dget (rs_record st0) ''status'' = PStr ''running''"
    by (simp_all add: st0_def run_inv_def initial_record_simps)
  moreover have "deps (wn_id n) = wn_deps n" if "n \<in> set (concat (take (k - 1) (layer_nodes d)))" for n
    using node_graph_lookup [OF accepted_layers(2) [OF assms(1)]] that sub unfolding deps_def by (simp add: subsetD)
  ultimately have inv: "run_inv deps (?run (take (k - 1) (layer_nodes d)))
      \<and> dom (map_of (rs_outcomes (?run (take (k - 1) (layer_nodes d))))) \<subseteq> wn_id ` set (concat (take (k - 1) (layer_nodes d)))"
    using run_layers_inv [of deps st0 "take (k - 1) (layer_nodes d)", OF _ _ _ _ _ refl] by simp
  then show ?thesis unfolding st finish_run_simps c run_inv_dom [OF conjunct1 [OF inv]] by simp
qed

theorem cancellation_stops_run_witness:
  "validate_definition [''t''] ''2'' (PDict (definition_dict sample_workflow)) = Inr sample_workflow
   \<and> (let st = execute_definition sample_runtime ''now'' (\<lambda>_ runs. runs) (\<lambda>i. i = 2) sample_workflow [] (''ws'', ''r'')
                 (initial_record ''now'' ''r'' ''wf'' 1 ''ws'' ''job'' []) []
      in dget (rs_record st) ''status'' = PStr ''cancelled'' \<and> fst ` set (record_log (rs_record st)) \<subseteq> {''a''})"
proof -
  have v: "validate_definition [''t''] ''2'' (PDict (definition_dict sample_workflow)) = Inr sample_workflow" by code_simp
  have ln: "layer_nodes sample_workflow = [[sample_nodes ! 1], [sample_nodes ! 0]]" by code_simp
  have a: "wn_id (sample_nodes ! Suc 0) = ''a''" by code_simp
  have "\<forall>runs'. cancel_requested (''ws'', ''r'') (2 = (2::nat)) runs'" by (simp add: cancel_requested_def)
  from cancellation_stops_run [OF v, of "(''ws'', ''r'')" "\<lambda>i. i = 2" 2 "\<lambda>_ runs. runs", OF this _ _ refl] v
  show ?thesis by (simp add: ln a Let_def)
qed

text \<open>\<open>cancel_run\<close> decides on a record that it read before it took the lock. When the run finishes
  between the read and the write, the stored record becomes \<open>running\<close> again and keeps the flag.\<close>

theorem cancel_run_revives_finished_run:
  assumes "cancel_snapshot workspace_id run_id runs = Inr (path, r)" "dget r ''status'' = PStr ''running''"
  shows "\<exists>stored. st_get (fst (cancel_write now path r (rs_runs (finish_run now path st)))) path = Some stored
     \<and> dget stored ''status'' = PStr ''running'' \<and> dget stored ''cancel_requested'' = PBool True"
  using assms by (auto simp: cancel_write_def save_run_def Let_def dget_dset)

theorem cancel_run_revives_finished_run_witness:
  "\<exists>runs path r st. cancel_snapshot ''ws'' ''r'' runs = Inr (path, r) \<and> rs_record st = r \<and> rs_runs st = runs
     \<and> map_option (\<lambda>d. dget d ''status'') (st_get (rs_runs (finish_run ''now'' path st)) path) = Some (PStr ''succeeded'')
     \<and> (\<exists>stored. st_get (fst (cancel_write ''now'' path r (rs_runs (finish_run ''now'' path st)))) path = Some stored
          \<and> dget stored ''status'' = PStr ''running'')"
proof -
  let ?r = "[(''run_id'', PStr ''r''), (''status'', PStr ''running'')]"
  let ?runs = "[((''ws'', ''r''), ?r)]"
  let ?st = "\<lparr>rs_record = ?r, rs_runs = ?runs, rs_outputs = [], rs_outcomes = [], rs_failed = False\<rparr>"
  have s: "cancel_snapshot ''ws'' ''r'' ?runs = Inr ((''ws'', ''r''), ?r)" by code_simp
  have "map_option (\<lambda>d. dget d ''status'') (st_get (rs_runs (finish_run ''now'' (''ws'', ''r'') ?st)) (''ws'', ''r'')) = Some (PStr ''succeeded'')"
    by code_simp
  with cancel_run_revives_finished_run [OF s, of "''now''" ?st] s show ?thesis
    by (intro exI [of _ ?runs] exI [of _ "(''ws'', ''r'')"] exI [of _ ?r] exI [of _ ?st]) auto
qed

end
