(* ===== verification/Task_State.thy ===== *)
theory Task_State
  imports Record_Store Storage_Ids Py_Json
begin

text \<open>
  The durable task state of a session (\<open>agent/runtime/task_state.py\<close>, \<open>append_jsonl_once\<close> of
  \<open>storage/records.py\<close>). A session has one snapshot, whose revision is the base of a compare-and-swap,
  and a log of lifecycle events that is written before the snapshot.

  Parameters: \<open>sha256\<close>; \<open>now\<close>, the time stamp of a call; \<open>classify\<close>, the classification of the user's
  text into a continuation relation (\<open>_continuation_relation\<close>, patterns over Chinese text); and \<open>from_iso\<close>,
  the instant that a time stamp denotes (none if it cannot be parsed). A contract is a dictionary; the
  empty one stands for \<open>None\<close> too, since the code only tests its truth.
\<close>

section \<open>Values\<close>

definition SCHEMA :: string where
  "SCHEMA = ''runtime.task_state.v1''"

definition EVENT_SCHEMA :: string where
  "EVENT_SCHEMA = ''runtime.task_event.v1''"

definition TASK_RESUMABLE :: "string list" where
  "TASK_RESUMABLE = [''active'', ''completed'', ''partial'', ''replan_required'', ''waiting_user'', ''interrupted'']"

text \<open>\<open>int(d.get(k) or 0)\<close> and \<open>dict(v or {})\<close>.\<close>

definition getn :: "pydict \<Rightarrow> string \<Rightarrow> int res" where
  "getn d k = py_int (py_or (dget d k) (PInt 0))"

definition py_dict :: "pyval \<Rightarrow> pydict res" where
  "py_dict v =
     (case py_or v (PDict []) of PDict d \<Rightarrow> Inr d | _ \<Rightarrow> Inl (TypeError ''cannot convert to a dictionary''))"

definition bounded_text :: "pyval \<Rightarrow> nat \<Rightarrow> string" where
  "bounded_text v limit = take limit (py_strip (filter (\<lambda>c. c \<noteq> CHR 0x00) (py_str (py_or v (PStr [])))))"

definition dict_items :: "pyval list \<Rightarrow> pydict list" where
  "dict_items xs = map as_dict (filter is_dict xs)"

definition relationship_kind :: "pyval \<Rightarrow> string" where
  "relationship_kind v = (case v of PDict d \<Rightarrow> gets_or d ''kind'' ''initial'' | _ \<Rightarrow> ''initial'')"

definition assertion_state :: "pyval \<Rightarrow> string" where
  "assertion_state v =
     (case v of PDict d \<Rightarrow> bounded_text (py_or (dget d ''status'') (PStr ''not_required'')) 80 | _ \<Rightarrow> ''not_required'')"

fun is_scalar :: "pyval \<Rightarrow> bool" where
  "is_scalar (PStr _) = True"
| "is_scalar (PInt _) = True"
| "is_scalar (PBool _) = True"
| "is_scalar _ = False"

definition bounded_goal_target :: "pyval \<Rightarrow> pydict" where
  "bounded_goal_target v =
     fold (\<lambda>(raw_key, raw_value) bounded.
         let key = bounded_text (PStr raw_key) 80 in
         if key = [] \<or> \<not> is_scalar raw_value then bounded
         else dset key (case raw_value of PStr s \<Rightarrow> PStr (bounded_text (PStr s) 240) | _ \<Rightarrow> raw_value) bounded)
       (take 24 (as_dict v)) []"

definition task_id_of :: "(string \<Rightarrow> string) \<Rightarrow> string \<Rightarrow> string \<Rightarrow> string" where
  "task_id_of sha256 run_id user_input = ''tsk_'' @ take 20 (sha256 (run_id @ [CHR 0x0A] @ user_input))"

definition new_task :: "(string \<Rightarrow> string) \<Rightarrow> string \<Rightarrow> string \<Rightarrow> string \<Rightarrow> pydict" where
  "new_task sha256 now run_id user_input =
     [(''task_id'', PStr (task_id_of sha256 run_id user_input)), (''objective'', PStr (bounded_text (PStr user_input) 1200)),
      (''constraints'', PList []), (''relationship'', PDict [(''kind'', PStr ''initial'')]), (''plan_revision'', PInt 1),
      (''replan_attempts'', PInt 0), (''nodes'', PList []), (''evidence_refs'', PList []), (''unknowns'', PList []),
      (''assertions'', PDict []), (''recovery_goals'', PList []), (''failure'', PDict []), (''created_at'', PStr now)]"

section \<open>The session files\<close>

record task_db =
  td_states :: "(string \<times> string) store"
  td_events :: "((string \<times> string) \<times> pydict list) list"

definition SESSION_ID_RE :: "string \<Rightarrow> bool" where
  "SESSION_ID_RE s \<longleftrightarrow> s \<noteq> [] \<and> length s \<le> 160 \<and> list_all is_idchar s"

definition validate_task_session :: "string \<Rightarrow> string res" where
  "validate_task_session session_id =
     (let t = py_strip session_id in
      if SESSION_ID_RE t then Inr t else Inl (ValueError ''invalid_task_state_session_id''))"

definition state_path :: "string \<Rightarrow> string \<Rightarrow> (string \<times> string) res" where
  "state_path workspace_id session_id =
     rbind (validate_task_session session_id) (\<lambda>_.
     rbind (validate_workspace_id (PStr workspace_id)) (\<lambda>ws.
     rbind (safe_part (PStr session_id) False) (\<lambda>sid. Inr (ws, sid))))"

definition read_unlocked :: "task_db \<Rightarrow> string \<times> string \<Rightarrow> pydict" where
  "read_unlocked db path =
     (case st_get (td_states db) path of
        None \<Rightarrow> []
      | Some v \<Rightarrow> if dget v ''schema'' \<noteq> PStr SCHEMA then [] else if \<not> is_dict (dget v ''task'') then [] else v)"

definition load_task_state :: "string \<Rightarrow> string \<Rightarrow> task_db \<Rightarrow> pydict res" where
  "load_task_state workspace_id session_id db =
     rbind (state_path workspace_id session_id) (\<lambda>path. Inr (read_unlocked db path))"

definition session_events :: "task_db \<Rightarrow> string \<times> string \<Rightarrow> pydict list" where
  "session_events db path = (case map_of (td_events db) path of None \<Rightarrow> [] | Some ls \<Rightarrow> ls)"

definition list_task_events :: "string \<Rightarrow> string \<Rightarrow> int \<Rightarrow> task_db \<Rightarrow> pydict list res" where
  "list_task_events workspace_id session_id limit db =
     rbind (state_path workspace_id session_id) (\<lambda>path.
     Inr (last_n (nat (max 1 (min (if limit = 0 then 100 else limit) 500))) (session_events db path)))"

text \<open>\<open>append_jsonl_once\<close>: an event whose identity is already in the log is not appended again, and must
  agree with the logged one up to the time.\<close>

definition event_identity :: "pydict \<Rightarrow> string" where
  "event_identity e = py_strip (gets e ''event_id'')"

definition append_once :: "pydict \<Rightarrow> pydict list \<Rightarrow> pydict list res" where
  "append_once event log =
     (let ident = event_identity event in
      case (if ident = [] then None else find (\<lambda>e. event_identity e = ident) log) of
        None \<Rightarrow> Inr (log @ [event])
      | Some old \<Rightarrow>
          if py_eq (PDict (dpop ''at'' old)) (PDict (dpop ''at'' event)) then Inr log
          else Inl (ValueError ''jsonl_identity_conflict''))"

text \<open>The event is written before the snapshot; an exception in between leaves the event.\<close>

definition log_event :: "string \<times> string \<Rightarrow> pydict \<Rightarrow> task_db \<Rightarrow> task_db res" where
  "log_event path event db =
     rbind (append_once event (session_events db path)) (\<lambda>log.
     Inr (db\<lparr>td_events := AList.update path log (td_events db)\<rparr>))"

definition publish :: "string \<times> string \<Rightarrow> pydict \<Rightarrow> pydict \<Rightarrow> task_db \<Rightarrow> task_db res" where
  "publish path event snapshot db =
     rbind (log_event path event db) (\<lambda>db'. Inr (db'\<lparr>td_states := st_put path snapshot (td_states db')\<rparr>))"

definition snapshot_of :: "string \<Rightarrow> string \<Rightarrow> int \<Rightarrow> pydict \<Rightarrow> string \<Rightarrow> pydict" where
  "snapshot_of workspace_id session_id revision task now =
     [(''schema'', PStr SCHEMA), (''workspace_id'', PStr workspace_id), (''session_id'', PStr session_id),
      (''revision'', PInt revision), (''task'', PDict task), (''updated_at'', PStr now)]"

text \<open>The identity of an event: the task, the revision, the run and what happened.\<close>

definition event_id :: "(string \<Rightarrow> string) \<Rightarrow> pydict \<Rightarrow> int \<Rightarrow> string \<Rightarrow> string \<Rightarrow> string" where
  "event_id sha256 task revision run_id sfx =
     ''evt_'' @ take 20 (sha256 (py_str (dget_or task ''task_id'' (PStr [])) @ '':'' @ int_str revision @ '':'' @ run_id @ sfx))"

definition task_event ::
  "(string \<Rightarrow> string) \<Rightarrow> string \<Rightarrow> string \<Rightarrow> pydict \<Rightarrow> int \<Rightarrow> string \<Rightarrow> string \<Rightarrow> nat \<Rightarrow> nat \<Rightarrow> string \<Rightarrow> string \<Rightarrow> pydict" where
  "task_event sha256 now event_type task revision run_id sfx tool_count successful next_action outcome =
     [(''schema'', PStr EVENT_SCHEMA), (''event_id'', PStr (event_id sha256 task revision run_id sfx)),
      (''event_type'', PStr event_type), (''task_id'', PStr (gets task ''task_id'')), (''revision'', PInt revision),
      (''run_id'', PStr run_id), (''at'', PStr now), (''status'', PStr (gets task ''status'')),
      (''relationship'', PStr (relationship_kind (dget task ''relationship''))), (''tool_count'', PInt (int tool_count)),
      (''successful_tool_count'', PInt (int successful)), (''assertion_status'', PStr (assertion_state (dget task ''assertions''))),
      (''next_action'', PStr next_action), (''run_ok'', PBool False), (''execution_outcome'', PStr outcome)]"

section \<open>Contracts\<close>

definition contract_failure :: "pyval \<Rightarrow> pydict res" where
  "contract_failure v =
     (case v of
        PDict d \<Rightarrow>
          rbind (getn d ''failed_node_count'') (\<lambda>n.
          Inr [(''classification'', PStr (bounded_text (dget d ''classification'') 80)), (''failed_node_count'', PInt (max 0 n)),
               (''retryable'', PBool (py_truthy (dget d ''retryable'')))])
      | _ \<Rightarrow> Inr [])"

definition contract_goal :: "pydict \<Rightarrow> pyval res" where
  "contract_goal item =
     rbind (getn item ''attempts'') (\<lambda>attempts.
     rbind (getn item ''final_replan_attempts'') (\<lambda>final_replan_attempts.
     Inr (PDict
       [(''goal_id'', PStr (bounded_text (dget item ''goal_id'') 96)),
        (''status'', PStr (bounded_text (py_or (dget item ''status'') (PStr ''pending'')) 32)),
        (''description'', PStr (bounded_text (dget item ''description'') 180)),
        (''goal_type'', PStr (bounded_text (dget item ''goal_type'') 48)),
        (''evidence_kind'', PStr (bounded_text (dget item ''evidence_kind'') 80)),
        (''fact'', PStr (bounded_text (dget item ''fact'') 120)),
        (''target'', PDict (bounded_goal_target (dget item ''target''))),
        (''source_tool_id'', PStr (bounded_text (dget item ''source_tool_id'') 160)),
        (''attempts'', PInt attempts), (''max_attempts'', PNone),
        (''final_replan_attempts'', PInt final_replan_attempts),
        (''assertion_status'', PStr (bounded_text (dget item ''assertion_status'') 32)),
        (''blocked_reason'', PStr (bounded_text (dget item ''blocked_reason'') 120))])))"

definition contract_from_state :: "pydict \<Rightarrow> pydict \<Rightarrow> string \<Rightarrow> pydict option \<Rightarrow> pydict res" where
  "contract_from_state state task recovery_status relationship =
     rbind (getn state ''revision'') (\<lambda>base_revision.
     rbind (case relationship of Some r \<Rightarrow> Inr r | None \<Rightarrow> py_dict (dget task ''relationship'')) (\<lambda>relation.
     rbind (getn task ''plan_revision'') (\<lambda>plan_revision.
     rbind (getn task ''replan_attempts'') (\<lambda>replan_attempts.
     rbind (contract_failure (dget task ''failure'')) (\<lambda>failure.
     rbind (rmapM contract_goal (dict_items (last_n 64 (as_list (dget task ''recovery_goals''))))) (\<lambda>goals.
     Inr [(''schema'', PStr SCHEMA), (''task_id'', PStr (gets task ''task_id'')), (''base_revision'', PInt base_revision),
          (''relationship'', PDict relation), (''status'', PStr (gets task ''status'')),
          (''recovery_status'', PStr (if recovery_status \<noteq> [] then recovery_status else gets task ''active_from_status'')),
          (''plan_revision'', PInt plan_revision), (''replan_attempts'', PInt replan_attempts),
          (''evidence_count'', PInt (int (length (as_list (dget task ''evidence_refs''))))),
          (''unknown_count'', PInt (int (length (as_list (dget task ''unknowns''))))),
          (''assertion_status'', PStr (assertion_state (dget task ''assertions''))),
          (''next_action'', PStr (gets task ''next_action'')), (''source_run_id'', PStr (gets task ''source_run_id'')),
          (''failure'', PDict failure), (''recovery_goals'', PList goals)]))))))"

text \<open>The compare of the compare-and-swap: the same task and the same revision.\<close>

definition contract_matches :: "pydict \<Rightarrow> pydict \<Rightarrow> int \<Rightarrow> bool res" where
  "contract_matches contract previous_task revision =
     (if previous_task = [] \<or> gets previous_task ''task_id'' \<noteq> gets contract ''task_id'' then Inr False
      else rbind (getn contract ''base_revision'') (\<lambda>base. Inr (revision = base)))"

section \<open>Operations\<close>

text \<open>An operation answers with the new files, also when it raises after it has written them. Each
  first computes the transition from the stored snapshot: the new task and the event.\<close>

type_synonym 'a task_act = "task_db \<Rightarrow> task_db \<times> 'a res"

definition begin_task ::
  "(string \<Rightarrow> string) \<Rightarrow> string \<Rightarrow> string \<Rightarrow> string \<Rightarrow> pydict \<Rightarrow> pydict \<Rightarrow> int \<Rightarrow> pydict option res" where
  "begin_task sha256 now run_id user_input contract previous_task revision =
     rbind (if contract = [] then Inr (Some (new_task sha256 now run_id user_input))
            else
              rbind (contract_matches contract previous_task revision) (\<lambda>ok.
              if \<not> ok then Inr None
              else
                rbind (py_dict (dget contract ''relationship'')) (\<lambda>relation.
                rbind (getn previous_task ''plan_revision'') (\<lambda>plan_revision.
                let task = dset ''plan_revision'' (PInt (plan_revision + 1)) (dset ''relationship'' (PDict relation) previous_task)
                in Inr (Some (dset ''active_from_status'' (PStr (gets task ''status'')) task)))))) (\<lambda>started.
     Inr (map_option (\<lambda>task. dupdate task
       [(''source_run_id'', PStr run_id), (''last_run_id'', PStr run_id), (''status'', PStr ''active''),
        (''next_action'', PStr ''run_query_loop''), (''updated_at'', PStr now), (''revision'', PInt (revision + 1))]) started))"

definition begin_task_state ::
  "(string \<Rightarrow> string) \<Rightarrow> string \<Rightarrow> string \<Rightarrow> string \<Rightarrow> string \<Rightarrow> string \<Rightarrow> pydict \<Rightarrow> pydict option task_act" where
  "begin_task_state sha256 now workspace_id session_id run_id user_input contract db =
     (if py_strip run_id = [] then (db, Inr None)
      else
        case state_path workspace_id session_id of Inl e \<Rightarrow> (db, Inl e) | Inr path \<Rightarrow>
        let previous = read_unlocked db path; previous_task = as_dict (dget previous ''task'') in
        case getn previous ''revision'' of Inl e \<Rightarrow> (db, Inl e) | Inr revision \<Rightarrow>
        case begin_task sha256 now run_id user_input contract previous_task revision of
          Inl e \<Rightarrow> (db, Inl e)
        | Inr None \<Rightarrow> (db, Inr None)
        | Inr (Some task) \<Rightarrow>
            let snapshot = snapshot_of workspace_id session_id (revision + 1) task now;
                event = task_event sha256 now ''task_started'' task (revision + 1) run_id '':started'' 0 0 ''run_query_loop'' ''in_progress'' in
            case publish path event snapshot db of
              Inl e \<Rightarrow> (db, Inl e)
            | Inr db' \<Rightarrow>
                (db', rbind (contract_from_state snapshot task (gets task ''active_from_status'') None) (\<lambda>c. Inr (Some c))))"

definition checkpoint_task_state_execution ::
  "(string \<Rightarrow> string) \<Rightarrow> string \<Rightarrow> string \<Rightarrow> string \<Rightarrow> string \<Rightarrow> pydict \<Rightarrow> string \<Rightarrow> pyval list \<Rightarrow> pydict option task_act" where
  "checkpoint_task_state_execution sha256 now workspace_id session_id run_id contract phase manifest db =
     (if phase \<notin> {''prepared'', ''settled''} then (db, Inl (ValueError ''invalid_task_state_checkpoint_phase''))
      else
        case state_path workspace_id session_id of Inl e \<Rightarrow> (db, Inl e) | Inr path \<Rightarrow>
        let entries = dict_items manifest; current = read_unlocked db path; task = as_dict (dget current ''task'') in
        if task = [] \<or> gets task ''task_id'' \<noteq> gets contract ''task_id'' then (db, Inr None)
        else
          case getn current ''revision'' of Inl e \<Rightarrow> (db, Inl e) | Inr revision \<Rightarrow>
          case contract_matches contract task revision of
            Inl e \<Rightarrow> (db, Inl e)
          | Inr ok \<Rightarrow>
              if \<not> ok \<or> gets task ''status'' \<noteq> ''active'' \<or> gets task ''source_run_id'' \<noteq> run_id then (db, Inr None)
              else
                let task' = dset ''updated_at'' (PStr now) (dset ''revision'' (PInt (revision + 1)) task);
                    snapshot = snapshot_of workspace_id session_id (revision + 1) task' now;
                    event = task_event sha256 now (if phase = ''prepared'' then ''task_tool_prepared'' else ''task_tool_settled'')
                      task' (revision + 1) run_id ('':'' @ phase) (length entries)
                      (length (filter (\<lambda>e. py_truthy (dget e ''ok'')) entries)) ''run_query_loop'' ''in_progress'' in
                case publish path event snapshot db of
                  Inl e \<Rightarrow> (db, Inl e)
                | Inr db' \<Rightarrow>
                    (db', rbind (contract_from_state snapshot task' (gets task' ''active_from_status'') None) (\<lambda>c. Inr (Some c))))"

text \<open>One session of \<open>reconcile_active_task_states\<close>; the counters are the interrupted and the skipped
  sessions.\<close>

definition started_later :: "(string \<Rightarrow> int option) \<Rightarrow> string \<Rightarrow> string \<Rightarrow> bool" where
  "started_later from_iso started_before task_time \<longleftrightarrow>
     started_before \<noteq> [] \<and> task_time \<noteq> []
     \<and> (case (from_iso task_time, from_iso started_before) of (Some t, Some s) \<Rightarrow> s \<le> t | _ \<Rightarrow> False)"

definition reconcile_session ::
  "(string \<Rightarrow> string) \<Rightarrow> (string \<Rightarrow> int option) \<Rightarrow> string \<Rightarrow> string \<Rightarrow> string \<Rightarrow> string \<Rightarrow> nat \<times> nat \<Rightarrow> (nat \<times> nat) task_act" where
  "reconcile_session sha256 from_iso now started_before workspace_id session_id = (\<lambda>(interrupted, skipped) db.
     if isl (validate_task_session session_id) then (db, Inr (interrupted, skipped + 1))
     else
       case state_path workspace_id session_id of Inl e \<Rightarrow> (db, Inl e) | Inr path \<Rightarrow>
       let state = read_unlocked db path; task = as_dict (dget state ''task'') in
       if task = [] \<or> gets task ''status'' \<noteq> ''active'' then (db, Inr (interrupted, skipped))
       else if started_later from_iso started_before (py_str (py_or (py_or (dget task ''updated_at'') (dget state ''updated_at'')) (PStr [])))
       then (db, Inr (interrupted, skipped + 1))
       else
         case getn state ''revision'' of Inl e \<Rightarrow> (db, Inl e) | Inr revision \<Rightarrow>
         let task' = dupdate task
               [(''status'', PStr ''interrupted''), (''next_action'', PStr ''resume_after_service_restart''),
                (''interrupted_reason'', PStr ''service_restart''), (''updated_at'', PStr now), (''revision'', PInt (revision + 1))];
             run_id = py_str (dget_or task' ''source_run_id'' (PStr []));
             event = dset ''run_id'' (PStr (gets task' ''source_run_id''))
               (task_event sha256 now ''task_interrupted'' task' (revision + 1) run_id '':interrupted'' 0 0
                  ''resume_after_service_restart'' ''interrupted'') in
         case publish path event (snapshot_of workspace_id session_id (revision + 1) task' now) db of
           Inl e \<Rightarrow> (db, Inl e)
         | Inr db' \<Rightarrow> (db', Inr (interrupted + 1, skipped)))"

text \<open>\<open>children\<close> are the names of the directories of the sessions.\<close>

fun reconcile_sessions ::
  "(string \<Rightarrow> string) \<Rightarrow> (string \<Rightarrow> int option) \<Rightarrow> string \<Rightarrow> string \<Rightarrow> string \<Rightarrow> string list \<Rightarrow> nat \<times> nat \<Rightarrow> (nat \<times> nat) task_act" where
  "reconcile_sessions sha256 from_iso now started_before workspace_id [] counts db = (db, Inr counts)"
| "reconcile_sessions sha256 from_iso now started_before workspace_id (session_id # rest) counts db =
     (case reconcile_session sha256 from_iso now started_before workspace_id session_id counts db of
        (db', Inl e) \<Rightarrow> (db', Inl e)
      | (db', Inr counts') \<Rightarrow> reconcile_sessions sha256 from_iso now started_before workspace_id rest counts' db')"

definition reconcile_active_task_states ::
  "(string \<Rightarrow> string) \<Rightarrow> (string \<Rightarrow> int option) \<Rightarrow> string \<Rightarrow> string \<Rightarrow> string \<Rightarrow> string list \<Rightarrow> (nat \<times> nat) task_act" where
  "reconcile_active_task_states sha256 from_iso now started_before workspace_id children db =
     (case validate_workspace_id (PStr workspace_id) of
        Inl e \<Rightarrow> (db, Inl e)
      | Inr _ \<Rightarrow> reconcile_sessions sha256 from_iso now started_before workspace_id children (0, 0) db)"

section \<open>Resumption\<close>

definition latest_complete_exchange :: "pyval list \<Rightarrow> (pydict \<times> pydict) option" where
  "latest_complete_exchange messages =
     (let ordered = dict_items messages in
      find (\<lambda>(user, assistant). gets user ''role'' = ''user'' \<and> gets assistant ''role'' = ''assistant'')
        (rev (zip ordered (tl ordered))))"

definition last_user_message :: "pyval list \<Rightarrow> pydict option" where
  "last_user_message messages = find (\<lambda>m. gets m ''role'' = ''user'') (rev (dict_items messages))"

definition may_resume :: "pydict \<Rightarrow> pyval list \<Rightarrow> bool" where
  "may_resume task messages \<longleftrightarrow>
     (if gets task ''status'' = ''interrupted'' then
        (case last_user_message messages of None \<Rightarrow> False | Some m \<Rightarrow> gets m ''run_id'' = gets task ''source_run_id'')
      else
        (case latest_complete_exchange messages of
           None \<Rightarrow> False
         | Some (user, assistant) \<Rightarrow>
             user \<noteq> [] \<and> assistant \<noteq> [] \<and> gets assistant ''run_id'' = gets task ''source_run_id''))"

definition resolve_task_state ::
  "(string \<Rightarrow> pydict option) \<Rightarrow> string \<Rightarrow> string \<Rightarrow> string \<Rightarrow> pyval list \<Rightarrow> task_db \<Rightarrow> pydict option res" where
  "resolve_task_state classify workspace_id session_id user_input messages db =
     rbind (load_task_state workspace_id session_id db) (\<lambda>state.
     let task = as_dict (dget state ''task'') in
     if task = [] \<or> gets task ''status'' \<notin> set TASK_RESUMABLE then Inr None
     else
       case classify user_input of
         None \<Rightarrow> Inr None
       | Some relation \<Rightarrow>
           if \<not> may_resume task messages then Inr None
           else rbind (contract_from_state state task [] (Some relation)) (\<lambda>c. Inr (Some c)))"

text \<open>\<open>f"{d.get(k, '')}"\<close> in the lines of the guidance.\<close>

definition shown :: "pydict \<Rightarrow> string \<Rightarrow> string" where
  "shown d k = py_str (dget_or d k (PStr []))"

definition number_line :: "pydict \<Rightarrow> string \<Rightarrow> string res" where
  "number_line contract k = rbind (getn contract k) (\<lambda>n. Inr (k @ ''='' @ int_str n))"

definition failure_line :: "pydict \<Rightarrow> string list res" where
  "failure_line failure =
     (if failure = [] then Inr []
      else rbind (getn failure ''failed_node_count'') (\<lambda>n.
        Inr [''failure='' @ bounded_text (PStr (py_str (py_or (dget failure ''classification'') (PStr ''runtime_failure''))
               @ ''; failed_nodes='' @ int_str n)) 220]))"

definition goal_lines :: "pydict \<Rightarrow> string list" where
  "goal_lines contract =
     (let pending = map (\<lambda>g. gets g ''goal_id'')
            (filter (\<lambda>g. gets g ''status'' \<noteq> ''passed'') (dict_items (as_list (dget contract ''recovery_goals'')))) in
      if pending = [] then []
      else [''open_recovery_goal_ids='' @ py_join '','' (take 24 pending),
            ''Replacement calls should include matching ids in plan_goal_ids for correlation; ''
            @ ''the runtime still requires compatible targets and successful terminal evidence.''])"

definition closing_line :: "pydict \<Rightarrow> string list" where
  "closing_line contract =
     (if gets contract ''status'' = ''replan_required'' \<or> gets contract ''recovery_status'' = ''replan_required''
      then [''Replan from the recorded failure and available evidence. The model may choose the next recovery step, including a retry when appropriate.'']
      else if relationship_kind (dget contract ''relationship'') = ''resume''
      then [''Resume the existing task using all recorded evidence and tool results.'']
      else [])"

definition render_task_state_guidance :: "pydict \<Rightarrow> string res" where
  "render_task_state_guidance contract =
     rbind (number_line contract ''base_revision'') (\<lambda>base.
     rbind (number_line contract ''plan_revision'') (\<lambda>plan.
     rbind (number_line contract ''replan_attempts'') (\<lambda>replan.
     rbind (number_line contract ''evidence_count'') (\<lambda>evidence.
     rbind (number_line contract ''unknown_count'') (\<lambda>unknown.
     rbind (py_dict (dget contract ''failure'')) (\<lambda>failure.
     rbind (failure_line failure) (\<lambda>failure_lines.
     let next_action = py_strip (gets contract ''next_action'') in
     Inr (py_join [CHR 0x0A]
       ([''Server-derived generic task state. It authorizes no tool and contains no historic user prose or model reasoning.'',
         ''task_id='' @ shown contract ''task_id'', base,
         ''relationship='' @ relationship_kind (dget contract ''relationship''),
         ''prior_status='' @ shown contract ''status'', ''recovery_status='' @ shown contract ''recovery_status'',
         plan, replan, evidence, unknown, ''assertion_status='' @ shown contract ''assertion_status'']
        @ (if next_action \<noteq> [] then [''next_action='' @ take 180 next_action] else [])
        @ failure_lines @ goal_lines contract @ closing_line contract)))))))))"

section \<open>The terminal commit\<close>

definition call_key :: "(string \<Rightarrow> string) \<Rightarrow> nat \<Rightarrow> pydict \<Rightarrow> string \<Rightarrow> string \<Rightarrow> string" where
  "call_key sha256 index call call_id tool_id =
     (if call_id \<noteq> [] then call_id
      else take 16 (sha256 (tool_id @ '':'' @ nat_str index @ '':'' @ json_sorted (py_or (dget call ''arguments'') (PDict [])))))"

definition tool_node :: "(string \<Rightarrow> string) \<Rightarrow> nat \<Rightarrow> pydict \<Rightarrow> string \<times> pydict" where
  "tool_node sha256 index call =
     (let call_id = py_str (py_or (py_or (dget call ''call_id'') (dget call ''id'')) (PStr []));
          tool_id = py_str (py_or (py_or (py_or (dget call ''tool_id'') (dget call ''tool'')) (dget call ''name'')) (PStr ''tool''));
          node_id = ''tool:'' @ call_key sha256 index call call_id tool_id
      in (node_id,
          [(''node_id'', PStr node_id), (''kind'', PStr ''tool''), (''tool_id'', PStr (take 160 tool_id)),
           (''call_id'', PStr (take 160 call_id)),
           (''status'', PStr (if py_truthy (dget call ''ok'') then ''succeeded'' else ''failed'')),
           (''side_effecting'', PBool (py_truthy (py_or (dget call ''side_effecting'') (dget call ''mutation'')))),
           (''result_ref'', PStr (bounded_text (py_or (py_or (dget call ''result_ref'') (dget call ''summary'')) (dget call ''error'')) 240))]))"

fun replace_node :: "string \<Rightarrow> pydict \<Rightarrow> pydict list \<Rightarrow> pydict list" where
  "replace_node node_id node [] = []"
| "replace_node node_id node (n # ns) =
     (if dget n ''node_id'' = PStr node_id then node # ns else n # replace_node node_id node ns)"

definition place_node :: "string \<times> pydict \<Rightarrow> pydict list \<times> string list \<Rightarrow> pydict list \<times> string list" where
  "place_node = (\<lambda>(node_id, node) (nodes, seen).
     if node_id \<in> set seen then (replace_node node_id node nodes, seen) else (nodes @ [node], node_id # seen))"

definition merge_nodes :: "(string \<Rightarrow> string) \<Rightarrow> pyval list \<Rightarrow> pydict list \<Rightarrow> pydict list" where
  "merge_nodes sha256 existing tool_calls =
     (let nodes = last_n 96 (dict_items existing) in
      last_n 128 (fst (fold place_node (map (\<lambda>(i, c). tool_node sha256 i c) (List.enumerate 0 tool_calls))
        (nodes, map (\<lambda>n. gets n ''node_id'') nodes))))"

definition metadata_evidence :: "pyval \<Rightarrow> pydict list" where
  "metadata_evidence evidence =
     (case evidence of
        PDict d \<Rightarrow>
          map (\<lambda>item.
              [(''evidence_id'', PStr (bounded_text (py_or (dget item ''evidence_id'') (dget item ''id'')) 160)),
               (''kind'', PStr (bounded_text (py_or (dget item ''kind'') (PStr ''tool'')) 80)),
               (''source'', PStr (bounded_text (py_or (dget item ''source'') (dget item ''tool'')) 160))])
            (dict_items (as_list (py_or (dget d ''items'') (dget d ''evidence''))))
      | _ \<Rightarrow> [])"

definition call_evidence :: "pydict \<Rightarrow> pydict" where
  "call_evidence call =
     [(''evidence_id'', PStr (bounded_text (py_or (dget call ''call_id'') (dget call ''id'')) 160)), (''kind'', PStr ''tool_result''),
      (''source'', PStr (bounded_text (py_or (py_or (py_or (dget call ''tool_id'') (dget call ''tool'')) (dget call ''name'')) (PStr ''tool'')) 160)),
      (''result_ref'', PStr (bounded_text (py_or (dget call ''result_ref'') (dget call ''summary'')) 240))]"

definition add_evidence :: "pydict \<Rightarrow> pydict list \<times> string list \<Rightarrow> pydict list \<times> string list" where
  "add_evidence item = (\<lambda>(merged, seen).
     let fingerprint = json_sorted (PDict item) in
     if fingerprint \<in> set seen then (merged, seen) else (merged @ [item], fingerprint # seen))"

definition merge_evidence :: "pyval list \<Rightarrow> pyval \<Rightarrow> pydict list \<Rightarrow> pydict list" where
  "merge_evidence existing evidence tool_calls =
     (let merged = last_n 96 (dict_items existing);
          candidates = metadata_evidence evidence @ map call_evidence (filter (\<lambda>c. py_truthy (dget c ''ok'')) tool_calls)
      in last_n 128 (fst (fold add_evidence candidates (merged, map (\<lambda>m. json_sorted (PDict m)) merged))))"

definition unknowns_from_metadata :: "pydict \<Rightarrow> pydict list res" where
  "unknowns_from_metadata metadata =
     (let unknown = dget metadata ''unknown_outcome''; u = as_dict unknown; cognitive = as_dict (dget metadata ''cognitive'') in
      if is_dict unknown \<and> gets u ''status'' = ''reconciled'' then Inr []
      else if u \<noteq> [] then
        Inr [[(''kind'', PStr (bounded_text (py_or (dget u ''kind'') (PStr ''unknown_outcome'')) 80)),
              (''reason'', PStr (bounded_text (py_or (dget u ''reason'') (dget u ''message'')) 240))]]
      else rbind (getn cognitive ''unknown_count'') (\<lambda>n.
        Inr (if n > 0 then [[(''kind'', PStr ''reported_unknown''), (''reason'', PStr ''runtime_reported_unknown'')]] else [])))"

definition assertions_from_metadata :: "pydict \<Rightarrow> pydict" where
  "assertions_from_metadata metadata =
     (case dget metadata ''goal_assertions'' of
        PDict a \<Rightarrow>
          [(''required'', PBool (py_truthy (dget a ''required''))),
           (''status'', PStr (bounded_text (py_or (dget a ''status'') (PStr ''not_required'')) 80)),
           (''failed'', PList (map (\<lambda>x. PStr (bounded_text x 160)) (take 12 (as_list (py_or (dget a ''failed'') (dget a ''issues''))))))]
      | _ \<Rightarrow> [(''required'', PBool False), (''status'', PStr ''not_required''), (''failed'', PList [])])"

definition failure_from_metadata :: "pydict \<Rightarrow> bool \<Rightarrow> pydict list \<Rightarrow> pydict" where
  "failure_from_metadata metadata run_ok tool_calls =
     (let failed = filter (\<lambda>c. \<not> py_truthy (dget c ''ok'')) tool_calls;
          execution = bounded_text (dget metadata ''execution_outcome'') 80 in
      if run_ok \<and> failed = [] \<and> execution \<notin> {''failed'', ''partial'', ''unknown''} then []
      else [(''classification'', PStr (if failed \<noteq> [] then ''tool_failure'' else if execution \<noteq> [] then execution else ''runtime_failure'')),
            (''failed_node_count'', PInt (int (length failed))), (''retryable'', PBool (failed \<noteq> []))])"

definition replan_requested :: "pydict \<Rightarrow> pydict \<Rightarrow> bool" where
  "replan_requested task metadata \<longleftrightarrow>
     (let failure = as_dict (dget task ''failure''); decision = gets (as_dict (dget metadata ''cognitive'')) ''outcome'' in
      if decision \<noteq> [] then decision = ''continue_replan'' else failure \<noteq> [] \<and> py_truthy (dget failure ''retryable''))"

definition derive_status :: "pydict \<Rightarrow> pydict \<Rightarrow> bool \<Rightarrow> string \<times> string" where
  "derive_status task metadata run_ok =
     (let assertions = as_dict (dget task ''assertions'');
          runtime_errors = map (\<lambda>e. py_lower (py_strip (py_str e))) (as_list (dget metadata ''runtime_errors'')) in
      if ''cancelled_by_user'' \<in> set runtime_errors then (''cancelled'', ''cancelled_by_user'')
      else if gets metadata ''execution_outcome'' = ''waiting_external_input'' then (''waiting_user'', ''await_external_decision'')
      else if replan_requested task metadata then (''replan_required'', ''propose_alternative_plan'')
      else if \<not> run_ok then (''failed'', ''task_failed'')
      else if py_truthy (dget assertions ''required'') \<and> gets assertions ''status'' \<noteq> ''passed''
      then (''replan_required'', ''satisfy_goal_assertions'')
      else (''completed'', ''await_user_or_continuation''))"

definition event_type_of :: "string \<Rightarrow> string" where
  "event_type_of status =
     (case map_of [(''completed'', ''task_completed''), (''partial'', ''task_partially_completed''), (''replan_required'', ''replan_required''),
        (''waiting_user'', ''task_waiting_user''), (''failed'', ''task_failed''), (''cancelled'', ''task_cancelled''),
        (''interrupted'', ''task_interrupted'')] status of None \<Rightarrow> ''task_updated'' | Some t \<Rightarrow> t)"

definition event_from_transition ::
  "(string \<Rightarrow> string) \<Rightarrow> string \<Rightarrow> pydict \<Rightarrow> string \<Rightarrow> bool \<Rightarrow> pydict \<Rightarrow> pydict list \<Rightarrow> pydict \<Rightarrow> int \<Rightarrow> pydict" where
  "event_from_transition sha256 now task run_id run_ok metadata tool_calls contract revision =
     [(''schema'', PStr EVENT_SCHEMA), (''event_id'', PStr (event_id sha256 task revision run_id [])),
      (''event_type'', PStr (event_type_of (gets task ''status''))), (''task_id'', PStr (gets task ''task_id'')),
      (''revision'', PInt revision), (''run_id'', PStr run_id), (''at'', PStr now), (''status'', PStr (gets task ''status'')),
      (''relationship'', PStr (relationship_kind (py_or (dget contract ''relationship'') (dget task ''relationship'')))),
      (''tool_count'', PInt (int (length tool_calls))),
      (''successful_tool_count'', PInt (int (length (filter (\<lambda>c. py_truthy (dget c ''ok'')) tool_calls)))),
      (''assertion_status'', PStr (assertion_state (dget task ''assertions''))), (''next_action'', PStr (gets task ''next_action'')),
      (''run_ok'', PBool run_ok), (''execution_outcome'', PStr (bounded_text (dget metadata ''execution_outcome'') 80))]"

definition base_task :: "(string \<Rightarrow> string) \<Rightarrow> string \<Rightarrow> string \<Rightarrow> string \<Rightarrow> pydict \<Rightarrow> pydict \<Rightarrow> pydict res" where
  "base_task sha256 now run_id user_input contract previous_task =
     (if contract \<noteq> [] \<and> previous_task \<noteq> [] then
        rbind (py_dict (dget contract ''relationship'')) (\<lambda>relation.
        rbind (getn previous_task ''plan_revision'') (\<lambda>plan_revision.
        Inr (dset ''plan_revision'' (PInt (plan_revision + 1)) (dset ''relationship'' (PDict relation) previous_task))))
      else Inr (new_task sha256 now run_id user_input))"

definition count_replan :: "pydict \<Rightarrow> pydict \<Rightarrow> pydict \<Rightarrow> pydict res" where
  "count_replan previous_task metadata task =
     (if replan_requested task metadata then
        rbind (getn previous_task ''replan_attempts'') (\<lambda>prior_attempts.
        let prior_replan = gets previous_task ''status'' = ''replan_required'' \<or> gets previous_task ''active_from_status'' = ''replan_required''
        in Inr (dset ''replan_attempts'' (PInt (if prior_replan then prior_attempts + 1 else 1)) task))
      else if previous_task = [] \<or> gets previous_task ''status'' \<noteq> ''replan_required''
      then Inr (dset ''replan_attempts'' (PInt 0) task) else Inr task)"

definition merged_task ::
  "(string \<Rightarrow> string) \<Rightarrow> string \<Rightarrow> bool \<Rightarrow> pydict \<Rightarrow> pydict list \<Rightarrow> pydict list \<Rightarrow> pydict \<Rightarrow> pydict" where
  "merged_task sha256 run_id run_ok metadata tool_calls unknowns task =
     dupdate task
       [(''source_run_id'', PStr run_id), (''last_run_id'', PStr run_id),
        (''nodes'', PList (map PDict (merge_nodes sha256 (as_list (dget task ''nodes'')) tool_calls))),
        (''evidence_refs'', PList (map PDict (merge_evidence (as_list (dget task ''evidence_refs'')) (dget metadata ''evidence'') tool_calls))),
        (''unknowns'', PList (map PDict unknowns)), (''assertions'', PDict (assertions_from_metadata metadata)),
        (''recovery_goals'', PList (map (\<lambda>g. PDict (dset ''target'' (PDict (bounded_goal_target (dget g ''target''))) g))
           (dict_items (last_n 64 (as_list (dget metadata ''recovery_goals'')))))),
        (''failure'', PDict (failure_from_metadata metadata run_ok tool_calls))]"

definition finished_task :: "pydict \<Rightarrow> bool \<Rightarrow> pydict \<Rightarrow> pydict" where
  "finished_task metadata run_ok task =
     (let (status, next_action) = derive_status task metadata run_ok in
      dpop ''active_from_status'' (dset ''next_action'' (PStr next_action) (dset ''status'' (PStr status) task)))"

definition evolve_task ::
  "(string \<Rightarrow> string) \<Rightarrow> string \<Rightarrow> pydict \<Rightarrow> string \<Rightarrow> string \<Rightarrow> bool \<Rightarrow> pydict \<Rightarrow> pydict list \<Rightarrow> pydict \<Rightarrow> pydict res" where
  "evolve_task sha256 now previous_task user_input run_id run_ok metadata tool_calls contract =
     rbind (base_task sha256 now run_id user_input contract previous_task) (\<lambda>task.
     rbind (unknowns_from_metadata metadata) (\<lambda>unknowns.
     rbind (count_replan previous_task metadata (merged_task sha256 run_id run_ok metadata tool_calls unknowns task)) (\<lambda>counted.
     Inr (finished_task metadata run_ok counted))))"

definition commit_task_state ::
  "(string \<Rightarrow> string) \<Rightarrow> string \<Rightarrow> string \<Rightarrow> string \<Rightarrow> string \<Rightarrow> string \<Rightarrow> bool \<Rightarrow> pydict \<Rightarrow> pyval list \<Rightarrow> pydict \<Rightarrow> pydict option task_act" where
  "commit_task_state sha256 now workspace_id session_id run_id user_input run_ok metadata tool_calls contract db =
     (if py_strip run_id = [] then (db, Inr None)
      else
        case state_path workspace_id session_id of Inl e \<Rightarrow> (db, Inl e) | Inr path \<Rightarrow>
        let calls = dict_items tool_calls; previous = read_unlocked db path; previous_task = as_dict (dget previous ''task'') in
        case getn previous ''revision'' of Inl e \<Rightarrow> (db, Inl e) | Inr revision \<Rightarrow>
        case (if contract = [] then Inr True else contract_matches contract previous_task revision) of
          Inl e \<Rightarrow> (db, Inl e)
        | Inr False \<Rightarrow> (db, Inr None)
        | Inr True \<Rightarrow>
            case evolve_task sha256 now previous_task user_input run_id run_ok metadata calls contract of
              Inl e \<Rightarrow> (db, Inl e)
            | Inr evolved \<Rightarrow>
                let task = dset ''updated_at'' (PStr now) (dset ''revision'' (PInt (revision + 1)) evolved);
                    event = event_from_transition sha256 now task run_id run_ok metadata calls contract (revision + 1);
                    snapshot = snapshot_of workspace_id session_id (revision + 1) task now in
                case publish path event snapshot db of
                  Inl e \<Rightarrow> (db, Inl e)
                | Inr db' \<Rightarrow> (db', Inr (Some snapshot)))"

end
