(* ===== verification/Task_Histories.thy ===== *)
theory Task_Histories
  imports Task_State
begin

text \<open>
  Histories of task-state operations. A step is an operation at a time, which may be cut off by a crash
  after its event was logged and before the snapshot was replaced. The plan of an operation, that is what it
  decides to log and to store, depends on the stored snapshots only, and the time occurs in it only in
  time stamps; the properties of all operations follow from this.
\<close>

section \<open>Tasks up to time stamps\<close>

definition same_task :: "pydict \<Rightarrow> pydict \<Rightarrow> bool" where
  "same_task a b \<longleftrightarrow> (\<forall>k. k \<notin> {''created_at'', ''updated_at''} \<longrightarrow> map_of a k = map_of b k)"

lemma same_task_refl [simp]: "same_task a a"
  by (simp add: same_task_def)

lemma same_task_dget: "same_task a b \<Longrightarrow> k \<notin> {''created_at'', ''updated_at''} \<Longrightarrow> dget a k = dget b k"
  by (simp add: same_task_def dget_def)

lemma same_task_dget_or: "same_task a b \<Longrightarrow> k \<notin> {''created_at'', ''updated_at''} \<Longrightarrow> dget_or a k x = dget_or b k x"
  by (simp add: same_task_def dget_or_def)

lemma same_task_gets: "same_task a b \<Longrightarrow> k \<notin> {''created_at'', ''updated_at''} \<Longrightarrow> gets a k = gets b k"
  by (simp add: gets_def gets_or_def same_task_dget)

lemma same_task_dset [intro]: "same_task a b \<Longrightarrow> same_task (dset k v a) (dset k v b)"
  by (simp add: same_task_def dset_def update_conv')

lemma same_task_updated [intro]: "same_task a b \<Longrightarrow> same_task (dset ''updated_at'' v a) (dset ''updated_at'' w b)"
  by (simp add: same_task_def dset_def update_conv')

lemma same_task_dpop [intro]: "same_task a b \<Longrightarrow> same_task (dpop k a) (dpop k b)"
  by (simp add: same_task_def dpop_def delete_conv')

lemma same_task_dupdate: "same_task a b \<Longrightarrow> same_task (dupdate a e) (dupdate b e)"
  by (induction a e arbitrary: b rule: dupdate.induct) auto

lemma new_task_same: "same_task (new_task sha256 now run_id user_input) (new_task sha256 now' run_id user_input)"
  by (simp add: same_task_def new_task_def)

lemmas same_task_fields = same_task_dget same_task_dget_or same_task_gets

section \<open>Events\<close>

lemma strip_nonempty: "\<not> is_space c \<Longrightarrow> py_strip (c # s) \<noteq> []"
  by (auto simp: py_strip_def dropWhile_eq_Nil_conv)

text \<open>What an event says of a task and a revision.\<close>

definition describes :: "pydict \<Rightarrow> pydict \<Rightarrow> int \<Rightarrow> bool" where
  "describes ev task revision \<longleftrightarrow>
     dget ev ''revision'' = PInt revision \<and> dget ev ''task_id'' = PStr (gets task ''task_id'')
     \<and> dget ev ''status'' = PStr (gets task ''status'') \<and> event_identity ev \<noteq> []"

lemma event_id_not_Nil: "event_id sha256 task revision run_id sfx \<noteq> []"
  by (simp add: event_id_def)

lemma event_id_nonempty: "py_strip (event_id sha256 task revision run_id sfx) \<noteq> []"
  unfolding event_id_def append_Cons append_Nil by (rule strip_nonempty) (simp add: is_space_def)

lemma task_event_describes:
  "describes (task_event sha256 now event_type task revision run_id sfx n m next_action outcome) task revision"
  by (simp add: describes_def task_event_def event_identity_def gets_def gets_or_def event_id_nonempty event_id_not_Nil)

lemma transition_event_describes:
  "describes (event_from_transition sha256 now task run_id run_ok metadata calls contract revision) task revision"
  by (simp add: describes_def event_from_transition_def event_identity_def gets_def gets_or_def event_id_nonempty event_id_not_Nil)

lemma describes_run_id: "describes ev task revision \<Longrightarrow> describes (dset ''run_id'' v ev) task revision"
  by (simp add: describes_def dget_dset event_identity_def gets_dset)

lemma task_event_times:
  assumes "same_task task task'"
  shows "dpop ''at'' (task_event sha256 now event_type task revision run_id sfx n m next_action outcome)
       = dpop ''at'' (task_event sha256 now' event_type task' revision run_id sfx n m next_action outcome)"
  by (simp add: task_event_def dpop_def event_id_def same_task_fields [OF assms])

lemma transition_event_times:
  assumes "same_task task task'"
  shows "dpop ''at'' (event_from_transition sha256 now task run_id run_ok metadata calls contract revision)
       = dpop ''at'' (event_from_transition sha256 now' task' run_id run_ok metadata calls contract revision)"
  by (simp add: event_from_transition_def dpop_def event_id_def same_task_fields [OF assms])

section \<open>Plans\<close>

definition apply_plan :: "string \<times> string \<Rightarrow> pydict \<Rightarrow> pydict \<Rightarrow> task_db \<Rightarrow> task_db" where
  "apply_plan path ev snapshot db = (case publish path ev snapshot db of Inl _ \<Rightarrow> db | Inr db' \<Rightarrow> db')"

definition stored :: "(string \<times> string) store \<Rightarrow> string \<times> string \<Rightarrow> pydict" where
  "stored states path = read_unlocked \<lparr>td_states = states, td_events = []\<rparr> path"

lemma read_stored: "read_unlocked db path = stored (td_states db) path"
  by (simp add: stored_def read_unlocked_def)

definition planned :: "(string \<Rightarrow> task_db \<Rightarrow> task_db) \<Rightarrow> bool" where
  "planned f \<longleftrightarrow>
     (\<forall>states. (\<forall>now db. td_states db = states \<longrightarrow> f now db = db)
      \<or> (\<exists>path revision ws sid task ev. getn (stored states path) ''revision'' = Inr revision
           \<and> (\<forall>now now'. dpop ''at'' (ev now) = dpop ''at'' (ev now'))
           \<and> (\<forall>now. describes (ev now) (task now) (revision + 1))
           \<and> (\<forall>now db. td_states db = states \<longrightarrow>
                f now db = apply_plan path (ev now) (snapshot_of ws sid (revision + 1) (task now) now) db)))"

lemma plannedI_none: "(\<And>now db. f now db = db) \<Longrightarrow> planned f"
  by (simp add: planned_def)

text \<open>The relation of two results of one computation at different times.\<close>

definition same_result :: "pydict res \<Rightarrow> pydict res \<Rightarrow> bool" where
  "same_result = rel_sum (\<lambda>_ _. True) same_task"

lemma begin_task_times:
  "rel_sum (\<lambda>_ _. True) (rel_option same_task)
     (begin_task sha256 now run_id user_input contract previous_task revision)
     (begin_task sha256 now' run_id user_input contract previous_task revision)"
proof -
  have d: "same_task (dupdate a [(''source_run_id'', x1), (''last_run_id'', x2), (''status'', x3), (''next_action'', x4), (''updated_at'', t), (''revision'', x5)])
      (dupdate b [(''source_run_id'', x1), (''last_run_id'', x2), (''status'', x3), (''next_action'', x4), (''updated_at'', t'), (''revision'', x5)])"
    if "same_task a b" for a b x1 x2 x3 x4 x5 t t'
    using that by (simp add: same_task_def dset_def update_conv')
  show ?thesis
  proof (cases "contract = []")
    case True
    then show ?thesis by (simp add: begin_task_def d new_task_same del: dupdate.simps)
  next
    case False
    then show ?thesis
      by (auto simp: begin_task_def Let_def rbind_def d split: sum.splits simp del: dupdate.simps)
  qed
qed

lemma rel_sum_all:
  assumes "\<And>now now'. rel_sum (\<lambda>_ _. True) R (F now) (F now')"
  shows "(\<forall>now. isl (F now)) \<or> (\<exists>T. \<forall>now. F now = Inr (T now) \<and> (\<forall>now'. R (T now) (T now')))"
proof (cases "F undefined")
  case (Inl e)
  then have "isl (F now)" for now using assms [of undefined now] by (cases "F now") auto
  then show ?thesis by blast
next
  case (Inr x)
  then have "F now = Inr (projr (F now))" for now using assms [of undefined now] by (cases "F now") auto
  moreover from this have "R (projr (F now)) (projr (F now'))" for now now' using assms [of now now'] by (metis rel_sum_simps(4))
  ultimately show ?thesis by (intro disjI2 exI [of _ "\<lambda>now. projr (F now)"]) simp
qed

lemma fst_publish:
  "fst (case publish path ev snapshot db of Inl e \<Rightarrow> (db, Inl e) | Inr db' \<Rightarrow> (db', g db')) = apply_plan path ev snapshot db"
  by (simp add: apply_plan_def split: sum.splits)

lemma plannedI:
  assumes "\<And>now db. isl (getn (stored (td_states db) path) ''revision'') \<Longrightarrow> f now db = db"
    and "\<And>states revision. getn (stored states path) ''revision'' = Inr revision \<Longrightarrow>
       (\<forall>now db. td_states db = states \<longrightarrow> f now db = db)
       \<or> (\<exists>task ev. (\<forall>now now'. dpop ''at'' (ev now) = dpop ''at'' (ev now')) \<and> (\<forall>now. describes (ev now) (task now) (revision + 1))
            \<and> (\<forall>now db. td_states db = states \<longrightarrow> f now db = apply_plan path (ev now) (snapshot_of ws sid (revision + 1) (task now) now) db))"
  shows "planned f"
  unfolding planned_def
proof
  fix states
  show "(\<forall>now db. td_states db = states \<longrightarrow> f now db = db)
      \<or> (\<exists>path revision ws sid task ev. getn (stored states path) ''revision'' = Inr revision
           \<and> (\<forall>now now'. dpop ''at'' (ev now) = dpop ''at'' (ev now'))
           \<and> (\<forall>now. describes (ev now) (task now) (revision + 1))
           \<and> (\<forall>now db. td_states db = states \<longrightarrow>
                f now db = apply_plan path (ev now) (snapshot_of ws sid (revision + 1) (task now) now) db))"
  proof (cases "getn (stored states path) ''revision''")
    case (Inl e)
    then show ?thesis using assms(1) by auto
  next
    case (Inr revision)
    from assms(2) [OF Inr] show ?thesis using Inr by blast
  qed
qed

lemma begin_planned:
  "planned (\<lambda>now db. fst (begin_task_state sha256 now workspace_id session_id run_id user_input contract db))"
proof (cases "py_strip run_id = [] \<or> isl (state_path workspace_id session_id)")
  case True
  then show ?thesis by (intro plannedI_none) (auto simp: begin_task_state_def isl_def)
next
  case False
  then obtain path where p: "py_strip run_id \<noteq> []" "state_path workspace_id session_id = Inr path"
    by (cases "state_path workspace_id session_id") auto
  show ?thesis
  proof (rule plannedI [where path = path and ws = workspace_id and sid = session_id])
    show "fst (begin_task_state sha256 now workspace_id session_id run_id user_input contract db) = db"
      if "isl (getn (stored (td_states db) path) ''revision'')" for now db
      using that by (cases "getn (stored (td_states db) path) ''revision''") (auto simp: begin_task_state_def p Let_def read_stored)
  next
    fix states revision assume r: "getn (stored states path) ''revision'' = Inr revision"
    let ?B = "\<lambda>now. begin_task sha256 now run_id user_input contract (as_dict (dget (stored states path) ''task'')) revision"
    let ?f = "\<lambda>now db. fst (begin_task_state sha256 now workspace_id session_id run_id user_input contract db)"
    consider "\<forall>now. isl (?B now)" | T where "\<forall>now. ?B now = Inr (T now) \<and> (\<forall>now'. rel_option same_task (T now) (T now'))"
      using rel_sum_all [where F = ?B, OF begin_task_times] by blast
    then show "(\<forall>now db. td_states db = states \<longrightarrow> ?f now db = db)
       \<or> (\<exists>task ev. (\<forall>now now'. dpop ''at'' (ev now) = dpop ''at'' (ev now')) \<and> (\<forall>now. describes (ev now) (task now) (revision + 1))
            \<and> (\<forall>now db. td_states db = states \<longrightarrow> ?f now db = apply_plan path (ev now) (snapshot_of workspace_id session_id (revision + 1) (task now) now) db))"
    proof cases
      case 1
      have "?f now db = db" if "td_states db = states" for now db
      proof -
        obtain e where "?B now = Inl e" using 1 [rule_format, of now] by (cases "?B now") auto
        then show ?thesis using that by (simp add: begin_task_state_def p Let_def read_stored r)
      qed
      then show ?thesis by blast
    next
      case 2
      show ?thesis
      proof (cases "T undefined")
        case None
        then have "T now = None" for now using 2 by (metis rel_option_None1)
        then have "?f now db = db" if "td_states db = states" for now db
          using that 2 by (simp add: begin_task_state_def p Let_def read_stored r)
        then show ?thesis by blast
      next
        case (Some t)
        have T: "T now = Some (the (T now))" for now using 2 Some by (metis option.exhaust_sel option.rel_distinct(2))
        have same: "same_task (the (T now)) (the (T now'))" for now now' using 2 T [of now] T [of now'] by (metis option.rel_inject(2))
        let ?ev = "\<lambda>now. task_event sha256 now ''task_started'' (the (T now)) (revision + 1) run_id '':started'' 0 0 ''run_query_loop'' ''in_progress''"
        have "?f now db = apply_plan path (?ev now) (snapshot_of workspace_id session_id (revision + 1) (the (T now)) now) db"
          if "td_states db = states" for now db
        proof -
          have B: "?B now = Inr (Some (the (T now)))" using 2 T [of now] by simp
          show ?thesis by (simp add: begin_task_state_def p Let_def read_stored that r B fst_publish)
        qed
        then show ?thesis
          by (intro disjI2 exI [of _ "\<lambda>now. the (T now)"] exI [of _ ?ev] conjI allI impI task_event_times task_event_describes same)
      qed
    qed
  qed
qed

lemma base_task_times:
  "rel_sum (\<lambda>_ _. True) same_task (base_task sha256 now run_id user_input contract previous_task)
     (base_task sha256 now' run_id user_input contract previous_task)"
  by (auto simp: base_task_def rbind_def new_task_same split: sum.splits)

lemma replan_same: "same_task a b \<Longrightarrow> replan_requested a metadata = replan_requested b metadata"
  by (simp add: replan_requested_def same_task_dget)

lemma derive_status_same: "same_task a b \<Longrightarrow> derive_status a metadata run_ok = derive_status b metadata run_ok"
  by (simp add: derive_status_def replan_same same_task_dget cong: if_cong)

lemma count_replan_times:
  "same_task a b \<Longrightarrow> rel_sum (\<lambda>_ _. True) same_task (count_replan previous_task metadata a) (count_replan previous_task metadata b)"
  by (auto simp: count_replan_def rbind_def replan_same split: sum.splits)

lemma rel_sum_eq: "rel_sum (\<lambda>_ _. True) (=) x x"
  by (cases x) auto

lemma rel_sum_rbind:
  "rel_sum (\<lambda>_ _. True) R x y \<Longrightarrow> (\<And>a b. R a b \<Longrightarrow> rel_sum (\<lambda>_ _. True) S (f a) (g b)) \<Longrightarrow> rel_sum (\<lambda>_ _. True) S (rbind x f) (rbind y g)"
  by (cases x; cases y) auto

lemma evolve_task_times:
  "rel_sum (\<lambda>_ _. True) same_task
     (evolve_task sha256 now previous_task user_input run_id run_ok metadata calls contract)
     (evolve_task sha256 now' previous_task user_input run_id run_ok metadata calls contract)"
  unfolding evolve_task_def
proof (intro rel_sum_rbind [OF base_task_times] rel_sum_rbind [OF rel_sum_eq], goal_cases)
  case (1 a b u u')
  then have "same_task (merged_task sha256 run_id run_ok metadata calls u a) (merged_task sha256 run_id run_ok metadata calls u' b)"
    unfolding merged_task_def by (simp add: same_task_dget same_task_dupdate del: dupdate.simps)
  then show ?case by (intro rel_sum_rbind [OF count_replan_times]) (auto simp: finished_task_def derive_status_same split: prod.splits)
qed

lemma commit_planned:
  "planned (\<lambda>now db. fst (commit_task_state sha256 now workspace_id session_id run_id user_input run_ok metadata tool_calls contract db))"
proof (cases "py_strip run_id = [] \<or> isl (state_path workspace_id session_id)")
  case True
  then show ?thesis by (intro plannedI_none) (auto simp: commit_task_state_def isl_def)
next
  case False
  then obtain path where p: "py_strip run_id \<noteq> []" "state_path workspace_id session_id = Inr path"
    by (cases "state_path workspace_id session_id") auto
  let ?f = "\<lambda>now db. fst (commit_task_state sha256 now workspace_id session_id run_id user_input run_ok metadata tool_calls contract db)"
  show ?thesis
  proof (rule plannedI [where path = path and ws = workspace_id and sid = session_id])
    show "?f now db = db" if "isl (getn (stored (td_states db) path) ''revision'')" for now db
      using that by (cases "getn (stored (td_states db) path) ''revision''") (auto simp: commit_task_state_def p Let_def read_stored)
  next
    fix states revision assume r: "getn (stored states path) ''revision'' = Inr revision"
    let ?prev = "as_dict (dget (stored states path) ''task'')"
    let ?E = "\<lambda>now. evolve_task sha256 now ?prev user_input run_id run_ok metadata (dict_items tool_calls) contract"
    let ?m = "if contract = [] then Inr True else contract_matches contract ?prev revision"
    consider "isl ?m \<or> ?m = Inr False \<or> (\<forall>now. isl (?E now))"
      | T where "?m = Inr True" "\<forall>now. ?E now = Inr (T now) \<and> (\<forall>now'. same_task (T now) (T now'))"
      using rel_sum_all [where F = ?E, OF evolve_task_times] by (cases ?m) auto
    then show "(\<forall>now db. td_states db = states \<longrightarrow> ?f now db = db)
       \<or> (\<exists>task ev. (\<forall>now now'. dpop ''at'' (ev now) = dpop ''at'' (ev now')) \<and> (\<forall>now. describes (ev now) (task now) (revision + 1))
            \<and> (\<forall>now db. td_states db = states \<longrightarrow> ?f now db = apply_plan path (ev now) (snapshot_of workspace_id session_id (revision + 1) (task now) now) db))"
    proof cases
      case 1
      have "?f now db = db" if "td_states db = states" for now db
        using that 1 spec [of "\<lambda>now. isl (?E now)" now]
        by (cases ?m; cases "?E now") (auto simp: commit_task_state_def p Let_def read_stored r split: bool.splits)
      then show ?thesis by blast
    next
      case 2
      let ?task = "\<lambda>now. dset ''updated_at'' (PStr now) (dset ''revision'' (PInt (revision + 1)) (T now))"
      let ?ev = "\<lambda>now. event_from_transition sha256 now (?task now) run_id run_ok metadata (dict_items tool_calls) contract (revision + 1)"
      have "?f now db = apply_plan path (?ev now) (snapshot_of workspace_id session_id (revision + 1) (?task now) now) db"
        if "td_states db = states" for now db
        using 2 that by (simp add: commit_task_state_def p Let_def read_stored r fst_publish)
      moreover have "same_task (?task now) (?task now')" for now now' using 2 by (intro same_task_updated same_task_dset) blast
      ultimately show ?thesis
        by (intro disjI2 exI [of _ ?task] exI [of _ ?ev] conjI allI impI transition_event_times transition_event_describes)
    qed
  qed
qed

lemma checkpoint_planned:
  "planned (\<lambda>now db. fst (checkpoint_task_state_execution sha256 now workspace_id session_id run_id contract phase manifest db))"
proof (cases "phase \<notin> {''prepared'', ''settled''} \<or> isl (state_path workspace_id session_id)")
  case True
  then show ?thesis by (intro plannedI_none) (auto simp: checkpoint_task_state_execution_def isl_def)
next
  case False
  then obtain path where p: "phase \<in> {''prepared'', ''settled''}" "state_path workspace_id session_id = Inr path"
    by (cases "state_path workspace_id session_id") auto
  let ?f = "\<lambda>now db. fst (checkpoint_task_state_execution sha256 now workspace_id session_id run_id contract phase manifest db)"
  show ?thesis
  proof (rule plannedI [where path = path and ws = workspace_id and sid = session_id])
    show "?f now db = db" if "isl (getn (stored (td_states db) path) ''revision'')" for now db
      using that p by (cases "getn (stored (td_states db) path) ''revision''")
        (auto simp: checkpoint_task_state_execution_def Let_def read_stored)
  next
    fix states revision assume r: "getn (stored states path) ''revision'' = Inr revision"
    let ?prev = "as_dict (dget (stored states path) ''task'')"
    let ?task = "\<lambda>now. dset ''updated_at'' (PStr now) (dset ''revision'' (PInt (revision + 1)) ?prev)"
    let ?ev = "\<lambda>now. task_event sha256 now (if phase = ''prepared'' then ''task_tool_prepared'' else ''task_tool_settled'')
                      (?task now) (revision + 1) run_id ('':'' @ phase) (length (dict_items manifest))
                      (length (filter (\<lambda>e. py_truthy (dget e ''ok'')) (dict_items manifest))) ''run_query_loop'' ''in_progress''"
    let ?go = "?prev \<noteq> [] \<and> gets ?prev ''task_id'' = gets contract ''task_id'' \<and> contract_matches contract ?prev revision = Inr True
      \<and> gets ?prev ''status'' = ''active'' \<and> gets ?prev ''source_run_id'' = run_id"
    have "?f now db = (if ?go then apply_plan path (?ev now) (snapshot_of workspace_id session_id (revision + 1) (?task now) now) db else db)"
      if "td_states db = states" for now db
      using that p r by (cases "contract_matches contract ?prev revision")
        (auto simp: checkpoint_task_state_execution_def Let_def read_stored fst_publish simp del: append.simps)
    moreover have "same_task (?task now) (?task now')" for now now' by (intro same_task_updated same_task_refl)
    ultimately show "(\<forall>now db. td_states db = states \<longrightarrow> ?f now db = db)
       \<or> (\<exists>task ev. (\<forall>now now'. dpop ''at'' (ev now) = dpop ''at'' (ev now')) \<and> (\<forall>now. describes (ev now) (task now) (revision + 1))
            \<and> (\<forall>now db. td_states db = states \<longrightarrow> ?f now db = apply_plan path (ev now) (snapshot_of workspace_id session_id (revision + 1) (task now) now) db))"
      by (cases ?go) (simp, intro disjI2 exI [of _ ?task] exI [of _ ?ev] conjI allI impI task_event_times task_event_describes, simp_all)
  qed
qed

lemma reconcile_planned:
  "planned (\<lambda>now db. fst (reconcile_session sha256 from_iso now started_before workspace_id session_id counts db))"
proof (cases "isl (validate_task_session session_id) \<or> isl (state_path workspace_id session_id)")
  case True
  then show ?thesis by (intro plannedI_none) (auto simp: reconcile_session_def isl_def split: prod.splits)
next
  case False
  then obtain path where p: "\<not> isl (validate_task_session session_id)" "state_path workspace_id session_id = Inr path"
    by (cases "state_path workspace_id session_id") auto
  let ?f = "\<lambda>now db. fst (reconcile_session sha256 from_iso now started_before workspace_id session_id counts db)"
  show ?thesis
  proof (rule plannedI [where path = path and ws = workspace_id and sid = session_id])
    show "?f now db = db" if "isl (getn (stored (td_states db) path) ''revision'')" for now db
      using that p by (cases "getn (stored (td_states db) path) ''revision''")
        (auto simp: reconcile_session_def Let_def read_stored split: prod.splits)
  next
    fix states revision assume r: "getn (stored states path) ''revision'' = Inr revision"
    let ?state = "stored states path"
    let ?prev = "as_dict (dget ?state ''task'')"
    let ?task = "\<lambda>now. dupdate ?prev
               [(''status'', PStr ''interrupted''), (''next_action'', PStr ''resume_after_service_restart''),
                (''interrupted_reason'', PStr ''service_restart''), (''updated_at'', PStr now), (''revision'', PInt (revision + 1))]"
    let ?ev0 = "\<lambda>now. task_event sha256 now ''task_interrupted'' (?task now) (revision + 1)
        (py_str (dget_or (?task now) ''source_run_id'' (PStr []))) '':interrupted'' 0 0 ''resume_after_service_restart'' ''interrupted''"
    let ?ev = "\<lambda>now. dset ''run_id'' (PStr (gets (?task now) ''source_run_id'')) (?ev0 now)"
    let ?go = "?prev \<noteq> [] \<and> gets ?prev ''status'' = ''active''
      \<and> \<not> started_later from_iso started_before (py_str (py_or (py_or (dget ?prev ''updated_at'') (dget ?state ''updated_at'')) (PStr [])))"
    have f: "?f now db = (if ?go then apply_plan path (?ev now) (snapshot_of workspace_id session_id (revision + 1) (?task now) now) db else db)"
      if "td_states db = states" for now db
      using that p r by (simp add: reconcile_session_def Let_def read_stored fst_publish split: prod.splits del: dupdate.simps)
    have same: "same_task (?task now) (?task now')" for now now' by (simp add: same_task_def dset_def update_conv')
    have ev: "dpop ''at'' (?ev now) = dpop ''at'' (?ev now')" for now now'
      by (simp add: task_event_def dpop_def dset_def event_id_def same_task_fields [OF same [of now now']] del: dupdate.simps)
    show "(\<forall>now db. td_states db = states \<longrightarrow> ?f now db = db)
       \<or> (\<exists>task ev. (\<forall>now now'. dpop ''at'' (ev now) = dpop ''at'' (ev now')) \<and> (\<forall>now. describes (ev now) (task now) (revision + 1))
            \<and> (\<forall>now db. td_states db = states \<longrightarrow> ?f now db = apply_plan path (ev now) (snapshot_of workspace_id session_id (revision + 1) (task now) now) db))"
    proof (cases ?go)
      case True
      show ?thesis
        by (intro disjI2 exI [of _ ?task] exI [of _ ?ev] conjI allI impI ev describes_run_id task_event_describes)
          (simp only: f True if_True simp_thms)
    next
      case False
      show ?thesis by (intro disjI1 allI impI) (simp only: f if_not_P [OF False])
    qed
  qed
qed

section \<open>Histories\<close>

datatype task_op =
    Begin string string string string pydict
  | Checkpoint string string string pydict string "pyval list"
  | Commit string string string string bool pydict "pyval list" pydict
  | Reconcile string string string

fun exec_task_op :: "(string \<Rightarrow> string) \<Rightarrow> (string \<Rightarrow> int option) \<Rightarrow> task_op \<Rightarrow> string \<Rightarrow> task_db \<Rightarrow> task_db" where
  "exec_task_op sha256 from_iso (Begin ws sid run_id user_input contract) now db =
     fst (begin_task_state sha256 now ws sid run_id user_input contract db)"
| "exec_task_op sha256 from_iso (Checkpoint ws sid run_id contract phase manifest) now db =
     fst (checkpoint_task_state_execution sha256 now ws sid run_id contract phase manifest db)"
| "exec_task_op sha256 from_iso (Commit ws sid run_id user_input run_ok metadata calls contract) now db =
     fst (commit_task_state sha256 now ws sid run_id user_input run_ok metadata calls contract db)"
| "exec_task_op sha256 from_iso (Reconcile ws sid started_before) now db =
     fst (reconcile_session sha256 from_iso now started_before ws sid (0, 0) db)"

text \<open>A step: whether a crash cuts it off after the event, the time, and the operation.\<close>

definition task_step ::
  "(string \<Rightarrow> string) \<Rightarrow> (string \<Rightarrow> int option) \<Rightarrow> bool \<times> string \<times> task_op \<Rightarrow> task_db \<Rightarrow> task_db" where
  "task_step sha256 from_iso = (\<lambda>(crash, now, op) db.
     let db' = exec_task_op sha256 from_iso op now db in if crash then db\<lparr>td_events := td_events db'\<rparr> else db')"

lemma exec_planned: "planned (exec_task_op sha256 from_iso op)"
  by (cases op) (use begin_planned checkpoint_planned commit_planned reconcile_planned in \<open>simp_all add: exec_task_op.simps [abs_def]\<close>)

lemma publish_Inr:
  "publish path ev snapshot db = Inr db' \<longleftrightarrow>
     (\<exists>log. append_once ev (session_events db path) = Inr log
        \<and> db' = db\<lparr>td_states := st_put path snapshot (td_states db), td_events := AList.update path log (td_events db)\<rparr>)"
  by (auto simp: publish_def log_event_def)

text \<open>The revision of a session, and what a step does to it.\<close>

definition revision_at :: "task_db \<Rightarrow> string \<times> string \<Rightarrow> int" where
  "revision_at db path = (case getn (read_unlocked db path) ''revision'' of Inl _ \<Rightarrow> 0 | Inr r \<Rightarrow> r)"

lemma read_snapshot:
  "read_unlocked (db\<lparr>td_states := st_put path (snapshot_of ws sid r task now) states, td_events := evs\<rparr>) path = snapshot_of ws sid r task now"
  by (simp add: read_unlocked_def snapshot_of_def)

lemma getn_snapshot [simp]: "getn (snapshot_of ws sid r task now) ''revision'' = Inr r"
  by (simp add: getn_def snapshot_of_def py_or_def)

lemma exec_effect:
  obtains "exec_task_op sha256 from_iso op now db = db"
  | path revision ws sid task ev log where "getn (read_unlocked db path) ''revision'' = Inr revision" "describes ev task (revision + 1)"
      "append_once ev (session_events db path) = Inr log"
      "exec_task_op sha256 from_iso op now db = db\<lparr>td_states := st_put path (snapshot_of ws sid (revision + 1) task now) (td_states db),
         td_events := AList.update path log (td_events db)\<rparr>"
proof -
  from exec_planned [of sha256 from_iso op, unfolded planned_def, rule_format, of "td_states db"]
  consider "exec_task_op sha256 from_iso op now db = db"
    | path revision ws sid task ev where "getn (stored (td_states db) path) ''revision'' = Inr revision" "describes ev task (revision + 1)"
        "exec_task_op sha256 from_iso op now db = apply_plan path ev (snapshot_of ws sid (revision + 1) task now) db" by blast
  then show thesis
  proof cases
    case 1
    then show thesis by (rule that(1))
  next
    case (2 path revision ws sid task ev)
    show thesis
    proof (cases "publish path ev (snapshot_of ws sid (revision + 1) task now) db")
      case (Inl e)
      with 2(3) show thesis by (intro that(1)) (simp add: apply_plan_def)
    next
      case (Inr db')
      then obtain log where "append_once ev (session_events db path) = Inr log"
        "db' = db\<lparr>td_states := st_put path (snapshot_of ws sid (revision + 1) task now) (td_states db), td_events := AList.update path log (td_events db)\<rparr>"
        unfolding publish_Inr by blast
      then show thesis using that(2) [of path revision ev task log ws sid] 2 Inr by (simp add: apply_plan_def read_stored)
    qed
  qed
qed

text \<open>A store whose version grows by one whenever a snapshot changes: the version identifies the
  snapshot, so that comparing versions is enough for a compare-and-swap.\<close>

locale versioned_store =
  fixes snapshot :: "'st \<Rightarrow> 'p \<Rightarrow> 'r"
    and version :: "'st \<Rightarrow> 'p \<Rightarrow> int"
    and step :: "'op \<Rightarrow> 'st \<Rightarrow> 'st"
  assumes version_snapshot: "snapshot st p = snapshot st' p \<Longrightarrow> version st p = version st' p"
    and step_version: "snapshot (step op st) p = snapshot st p \<or> version (step op st) p = version st p + 1"
begin

lemma version_mono: "version st p \<le> version (fold step ops st) p"
proof (induction ops arbitrary: st)
  case (Cons op ops)
  have "version st p \<le> version (step op st) p" using step_version [of op st p] version_snapshot [of "step op st" p st] by auto
  with Cons [of "step op st"] show ?case by simp
qed simp

lemma version_identifies_snapshot:
  "version (fold step ops st) p = version st p \<Longrightarrow> snapshot (fold step ops st) p = snapshot st p"
proof (induction ops arbitrary: st)
  case (Cons op ops)
  from step_version [of op st p] consider "snapshot (step op st) p = snapshot st p" | "version (step op st) p = version st p + 1" by blast
  then show ?case
  proof cases
    case 1
    with Cons version_snapshot [OF 1] show ?thesis by simp
  next
    case 2
    with version_mono [where st = "step op st" and ops = ops and p = p] Cons.prems show ?thesis by simp
  qed
qed simp

end

interpretation tasks: versioned_store read_unlocked revision_at "task_step sha256 from_iso"
  for sha256 from_iso
proof
  fix db db' :: task_db and p assume "read_unlocked db p = read_unlocked db' p"
  then show "revision_at db p = revision_at db' p" by (simp add: revision_at_def)
next
  fix s :: "bool \<times> string \<times> task_op" and db p
  obtain crash now op where s: "s = (crash, now, op)" by (metis prod.collapse)
  show "read_unlocked (task_step sha256 from_iso s db) p = read_unlocked db p
    \<or> revision_at (task_step sha256 from_iso s db) p = revision_at db p + 1"
  proof (rule exec_effect [of sha256 from_iso op now db])
    assume "exec_task_op sha256 from_iso op now db = db"
    then show ?thesis by (simp add: s task_step_def)
  next
    fix path revision ws sid task ev log
    assume a: "getn (read_unlocked db path) ''revision'' = Inr revision"
      "exec_task_op sha256 from_iso op now db = db\<lparr>td_states := st_put path (snapshot_of ws sid (revision + 1) task now) (td_states db),
         td_events := AList.update path log (td_events db)\<rparr>"
    show ?thesis
      by (cases "p = path"; cases crash)
        (use a in \<open>auto simp: s task_step_def revision_at_def read_snapshot\<close>, auto simp: read_unlocked_def a(2) split: option.splits)
  qed
qed

text \<open>Along every history, with crashes, the revision of a session never decreases, and as long as it is
  the same the snapshot is the same, so that a revision identifies a snapshot.\<close>

theorem task_revision_identifies_snapshot:
  "revision_at db path \<le> revision_at (fold (task_step sha256 from_iso) steps db) path
   \<and> (revision_at (fold (task_step sha256 from_iso) steps db) path = revision_at db path \<longrightarrow>
        read_unlocked (fold (task_step sha256 from_iso) steps db) path = read_unlocked db path)"
  using tasks.version_mono tasks.version_identifies_snapshot by blast

definition empty_task_db :: task_db where
  "empty_task_db = \<lparr>td_states = [], td_events = []\<rparr>"

theorem task_revision_identifies_snapshot_witness:
  "revision_at (fold (task_step (\<lambda>s. s) (\<lambda>_. None)) [(True, ''t'', Begin ''ws'' ''s'' ''r'' ''hi'' [])] empty_task_db) (''ws'', ''s'') = 0
   \<and> read_unlocked (fold (task_step (\<lambda>s. s) (\<lambda>_. None)) [(True, ''t'', Begin ''ws'' ''s'' ''r'' ''hi'' [])] empty_task_db) (''ws'', ''s'') = []
   \<and> revision_at (fold (task_step (\<lambda>s. s) (\<lambda>_. None)) [(False, ''t'', Begin ''ws'' ''s'' ''r'' ''hi'' [])] empty_task_db) (''ws'', ''s'') = 1"
proof -
  have 0: "revision_at empty_task_db (''ws'', ''s'') = 0" "read_unlocked empty_task_db (''ws'', ''s'') = []" by code_simp+
  have 1: "revision_at (fold (task_step (\<lambda>s. s) (\<lambda>_. None)) [(True, ''t'', Begin ''ws'' ''s'' ''r'' ''hi'' [])] empty_task_db) (''ws'', ''s'') = 0"
    by code_simp
  have 2: "revision_at (fold (task_step (\<lambda>s. s) (\<lambda>_. None)) [(False, ''t'', Begin ''ws'' ''s'' ''r'' ''hi'' [])] empty_task_db) (''ws'', ''s'') = 1"
    by code_simp
  from task_revision_identifies_snapshot [of empty_task_db "(''ws'', ''s'')" "\<lambda>s. s" "\<lambda>_. None"
      "[(True, ''t'', Begin ''ws'' ''s'' ''r'' ''hi'' [])]"] 0 1 2
  show ?thesis by simp
qed

text \<open>A readable revision stays readable.\<close>

lemma step_readable:
  assumes "getn (read_unlocked db p) ''revision'' = Inr r"
  shows "\<exists>r'. getn (read_unlocked (task_step sha256 from_iso s db) p) ''revision'' = Inr r'"
proof -
  obtain crash now op where s: "s = (crash, now, op)" by (metis prod.collapse)
  show ?thesis
  proof (rule exec_effect [of sha256 from_iso op now db])
    assume "exec_task_op sha256 from_iso op now db = db"
    then show ?thesis using assms by (simp add: s task_step_def)
  next
    fix path revision ws sid task ev log
    assume e: "exec_task_op sha256 from_iso op now db = db\<lparr>td_states := st_put path (snapshot_of ws sid (revision + 1) task now) (td_states db),
         td_events := AList.update path log (td_events db)\<rparr>"
    have other: "read_unlocked (db\<lparr>td_states := st_put path x (td_states db), td_events := y\<rparr>) p = read_unlocked db p" if "p \<noteq> path" for x y
      using that by (simp add: read_unlocked_def)
    show ?thesis
      by (cases "p = path"; cases crash) (use assms in \<open>auto simp: s task_step_def e read_snapshot other\<close>, auto simp: read_unlocked_def)
  qed
qed

lemma history_readable:
  "getn (read_unlocked db p) ''revision'' = Inr r \<Longrightarrow> \<exists>r'. getn (read_unlocked (fold (task_step sha256 from_iso) steps db) p) ''revision'' = Inr r'"
proof (induction steps arbitrary: db r)
  case (Cons s steps)
  from step_readable [OF Cons.prems] obtain r' where
    "getn (read_unlocked (task_step sha256 from_iso s db) p) ''revision'' = Inr r'" by blast
  from Cons.IH [OF this] show ?case by simp
qed simp

lemma commit_Some:
  assumes "commit_task_state sha256 now ws sid run_id user_input run_ok metadata calls contract db = (db', Inr (Some snap))"
  obtains path revision evolved log where "state_path ws sid = Inr path" "getn (read_unlocked db path) ''revision'' = Inr revision"
    "contract = [] \<or> contract_matches contract (as_dict (dget (read_unlocked db path) ''task'')) revision = Inr True"
    "evolve_task sha256 now (as_dict (dget (read_unlocked db path) ''task'')) user_input run_id run_ok metadata (dict_items calls) contract = Inr evolved"
    "snap = snapshot_of ws sid (revision + 1) (dset ''updated_at'' (PStr now) (dset ''revision'' (PInt (revision + 1)) evolved)) now"
    "db' = db\<lparr>td_states := st_put path snap (td_states db), td_events := AList.update path log (td_events db)\<rparr>"
  using assms unfolding commit_task_state_def Let_def
  by (auto split: if_splits sum.splits bool.splits simp: publish_Inr)

lemma stale_contract:
  assumes "getn (read_unlocked db path) ''revision'' = Inr r" "getn contract ''base_revision'' = Inr b" "b < r"
  shows "contract_matches contract task r = Inr False"
  using assms by (simp add: contract_matches_def)

text \<open>C21: a contract is used at most once. After a commit with a contract, whatever operations and crashes
  follow, every other use of that contract is refused and changes nothing.\<close>

theorem contract_used_once:
  assumes "commit_task_state sha256 now ws sid run_id user_input run_ok metadata calls contract db = (db1, Inr (Some snap))" "contract \<noteq> []"
    and "db2 = fold (task_step sha256 from_iso) steps db1"
  shows "commit_task_state sha256 now' ws sid run_id' user_input' run_ok' metadata' calls' contract db2 = (db2, Inr None)
    \<and> begin_task_state sha256 now' ws sid run_id' user_input' contract db2 = (db2, Inr None)
    \<and> (phase \<in> {''prepared'', ''settled''} \<longrightarrow>
         checkpoint_task_state_execution sha256 now' ws sid run_id' contract phase manifest db2 = (db2, Inr None))"
proof (rule commit_Some [OF assms(1)])
  fix path revision evolved log
  assume p: "state_path ws sid = Inr path"
    and m: "contract = [] \<or> contract_matches contract (as_dict (dget (read_unlocked db path) ''task'')) revision = Inr True"
    and s: "snap = snapshot_of ws sid (revision + 1) (dset ''updated_at'' (PStr now) (dset ''revision'' (PInt (revision + 1)) evolved)) now"
    and d: "db1 = db\<lparr>td_states := st_put path snap (td_states db), td_events := AList.update path log (td_events db)\<rparr>"
  have b: "getn contract ''base_revision'' = Inr revision"
    using m assms(2) by (auto simp: contract_matches_def split: if_splits)
  have r1: "getn (read_unlocked db1 path) ''revision'' = Inr (revision + 1)" by (simp add: d s read_snapshot)
  from history_readable [OF r1] obtain r where r: "getn (read_unlocked db2 path) ''revision'' = Inr r" unfolding assms(3) by blast
  have "revision_at db1 path \<le> revision_at db2 path" unfolding assms(3) by (rule tasks.version_mono)
  then have "revision < r" by (simp add: revision_at_def r r1)
  from stale_contract [OF r b this] have st: "contract_matches contract task r = Inr False" for task .
  have "commit_task_state sha256 now' ws sid run_id' user_input' run_ok' metadata' calls' contract db2 = (db2, Inr None)"
    using assms(2) by (simp add: commit_task_state_def p r st Let_def)
  moreover have "begin_task_state sha256 now' ws sid run_id' user_input' contract db2 = (db2, Inr None)"
    using assms(2) by (simp add: begin_task_state_def begin_task_def p r st Let_def)
  moreover have "checkpoint_task_state_execution sha256 now' ws sid run_id' contract phase manifest db2 = (db2, Inr None)"
    if "phase \<in> {''prepared'', ''settled''}"
    using that by (simp add: checkpoint_task_state_execution_def p r st Let_def)
  ultimately show ?thesis by blast
qed

definition sample_hash :: "string \<Rightarrow> string" where
  "sample_hash s = ''h'' @ rev s"

definition sample_started :: task_db where
  "sample_started = fst (begin_task_state sample_hash ''t0'' ''ws'' ''s'' ''r'' ''hi'' [] empty_task_db)"

definition sample_contract :: pydict where
  "sample_contract = [(''task_id'', PStr (task_id_of sample_hash ''r'' ''hi'')), (''base_revision'', PInt 1)]"

definition sample_commit :: "task_db \<Rightarrow> task_db \<times> pydict option res" where
  "sample_commit = commit_task_state sample_hash ''t1'' ''ws'' ''s'' ''r'' ''hi'' True [] [] sample_contract"

lemma sample_commit_Some: "\<exists>db1 snap. sample_commit sample_started = (db1, Inr (Some snap))"
proof -
  have "case snd (sample_commit sample_started) of Inr (Some _) \<Rightarrow> True | _ \<Rightarrow> False" by code_simp
  then show ?thesis by (cases "sample_commit sample_started") (auto split: sum.splits option.splits)
qed

theorem contract_used_once_witness:
  "\<exists>db1 snap. sample_commit sample_started = (db1, Inr (Some snap)) \<and> sample_commit db1 = (db1, Inr None)"
proof -
  from sample_commit_Some obtain db1 snap where c: "sample_commit sample_started = (db1, Inr (Some snap))" by blast
  have "sample_contract \<noteq> []" by (simp add: sample_contract_def)
  from contract_used_once [OF c [unfolded sample_commit_def] this, of db1 "\<lambda>_. None" "[]"] c show ?thesis
    unfolding sample_commit_def by auto
qed

section \<open>The event log\<close>

lemma map_of_insort_key: "map_of (insort_key fst x xs) = map_of (x # xs)"
  by (induction xs) (auto simp: fun_eq_iff)

lemma map_of_sort_key: "map_of (sort_key fst xs) = map_of xs"
  by (induction xs) (auto simp: map_of_insort_key fun_eq_iff)

lemma map_of_norm: "map_of (map (\<lambda>(k, v). (k, py_norm v)) d) k = map_option py_norm (map_of d k)"
  by (induction d) auto

text \<open>Equal dictionaries have equal values.\<close>

lemma py_eq_dget: "py_eq (PDict a) (PDict b) \<Longrightarrow> py_eq (dget a k) (dget b k)"
proof -
  assume "py_eq (PDict a) (PDict b)"
  then have "map_of (sort_key fst (map (\<lambda>(k, v). (k, py_norm v)) a)) k = map_of (sort_key fst (map (\<lambda>(k, v). (k, py_norm v)) b)) k"
    by (simp add: py_eq_def)
  then have "map_option py_norm (map_of a k) = map_option py_norm (map_of b k)" by (simp add: map_of_sort_key map_of_norm)
  then show ?thesis by (auto simp: py_eq_def dget_def split: option.splits)
qed

lemma py_eq_trans: "py_eq a b \<Longrightarrow> py_eq b c \<Longrightarrow> py_eq a c"
  by (simp add: py_eq_def)

lemma dget_dpop_other: "k \<noteq> k' \<Longrightarrow> dget (dpop k' d) k = dget d k"
  by (simp add: dget_dpop)

text \<open>An event covers a snapshot: the same revision, task and status.\<close>

definition covers :: "pydict \<Rightarrow> pydict \<Rightarrow> bool" where
  "covers e snap \<longleftrightarrow>
     py_eq (dget e ''revision'') (dget snap ''revision'')
     \<and> dget e ''task_id'' = PStr (gets (as_dict (dget snap ''task'')) ''task_id'')
     \<and> dget e ''status'' = PStr (gets (as_dict (dget snap ''task'')) ''status'')"

lemma describes_covers: "describes ev task r \<Longrightarrow> covers ev (snapshot_of ws sid r task now)"
  by (simp add: describes_def covers_def snapshot_of_def)

lemma equal_event_covers:
  assumes "py_eq (PDict (dpop ''at'' old)) (PDict (dpop ''at'' ev))" "covers ev snap"
  shows "covers old snap"
proof -
  have e: "py_eq (dget old k) (dget ev k)" if "k \<noteq> ''at''" for k
    using py_eq_dget [OF assms(1), of k] that by (simp add: dget_dpop)
  show ?thesis
    using e [of "''revision''"] e [of "''task_id''"] e [of "''status''"] assms(2) by (auto simp: covers_def intro: py_eq_trans)
qed

lemma append_once_Inr:
  assumes "append_once ev log = Inr log'" "distinct (map event_identity log)" "event_identity ev \<noteq> []" "covers ev snap"
  shows "distinct (map event_identity log') \<and> set log \<subseteq> set log' \<and> (\<exists>e \<in> set log'. covers e snap)"
proof (cases "find (\<lambda>e. event_identity e = event_identity ev) log")
  case None
  then have "event_identity ev \<notin> event_identity ` set log" by (force simp: find_None_iff)
  with None assms show ?thesis by (auto simp: append_once_def)
next
  case (Some old)
  then have "old \<in> set log" by (auto simp: find_Some_iff)
  with assms Some show ?thesis by (auto simp: append_once_def intro: equal_event_covers split: if_splits)
qed

definition log_inv :: "task_db \<Rightarrow> bool" where
  "log_inv db \<longleftrightarrow>
     (\<forall>path. distinct (map event_identity (session_events db path))
        \<and> (\<forall>snap. st_get (td_states db) path = Some snap \<longrightarrow> (\<exists>e \<in> set (session_events db path). covers e snap)))"

lemma log_invD:
  assumes "log_inv db"
  shows "distinct (map event_identity (session_events db path))"
    and "st_get (td_states db) path = Some snap \<Longrightarrow> \<exists>e \<in> set (session_events db path). covers e snap"
  using assms unfolding log_inv_def by blast+

lemma session_events_update:
  "session_events (db\<lparr>td_states := x, td_events := AList.update path log (td_events db)\<rparr>) p = (if p = path then log else session_events db p)"
  "session_events (db\<lparr>td_events := AList.update path log (td_events db)\<rparr>) p = (if p = path then log else session_events db p)"
  by (simp_all add: session_events_def update_conv')

lemma step_log_inv:
  assumes "log_inv db"
  shows "log_inv (task_step sha256 from_iso s db)"
proof -
  obtain crash now op where s: "s = (crash, now, op)" by (metis prod.collapse)
  show ?thesis
  proof (rule exec_effect [of sha256 from_iso op now db])
    assume "exec_task_op sha256 from_iso op now db = db"
    then show ?thesis using assms by (simp add: s task_step_def)
  next
    fix path revision ws sid task ev log
    let ?snap = "snapshot_of ws sid (revision + 1) task now"
    assume d: "describes ev task (revision + 1)" and a: "append_once ev (session_events db path) = Inr log"
      and e: "exec_task_op sha256 from_iso op now db = db\<lparr>td_states := st_put path ?snap (td_states db),
         td_events := AList.update path log (td_events db)\<rparr>"
    have "distinct (map event_identity log) \<and> set (session_events db path) \<subseteq> set log \<and> (\<exists>e \<in> set log. covers e ?snap)"
      by (rule append_once_Inr [OF a log_invD(1) [OF assms] _ describes_covers [OF d]]) (use d in \<open>simp add: describes_def\<close>)
    then have new: "distinct (map event_identity log)" "set (session_events db path) \<subseteq> set log" "\<exists>e \<in> set log. covers e ?snap" by blast+
    show ?thesis
      unfolding log_inv_def
    proof (intro allI conjI impI)
      fix p
      show "distinct (map event_identity (session_events (task_step sha256 from_iso s db) p))"
        using new(1) log_invD(1) [OF assms] by (cases crash) (simp_all add: s task_step_def e session_events_update)
      fix snap assume "st_get (td_states (task_step sha256 from_iso s db)) p = Some snap"
      then show "\<exists>e \<in> set (session_events (task_step sha256 from_iso s db) p). covers e snap"
        using new log_invD(2) [OF assms, of p snap]
        by (cases crash; cases "p = path") (auto simp: s task_step_def e session_events_update)
    qed
  qed
qed

text \<open>in every history from the empty store, with crashes, every stored snapshot is described by an event
  of the session's log, and the log has no two events with the same identity.\<close>

theorem task_log_covers_snapshots:
  assumes "db = fold (task_step sha256 from_iso) steps empty_task_db"
  shows "distinct (map event_identity (session_events db path))
    \<and> (\<forall>snap. st_get (td_states db) path = Some snap \<longrightarrow>
         (\<exists>e \<in> set (session_events db path). py_eq (dget e ''revision'') (dget snap ''revision'')
            \<and> dget e ''task_id'' = PStr (gets (as_dict (dget snap ''task'')) ''task_id'')
            \<and> dget e ''status'' = PStr (gets (as_dict (dget snap ''task'')) ''status'')))"
proof -
  have "log_inv empty_task_db" by (simp add: log_inv_def empty_task_db_def session_events_def st_get_def)
  then have "log_inv db" unfolding assms by (rule fold_invariant [where Q = "\<lambda>_. True", rotated]) (auto intro: step_log_inv)
  note log_invD [OF this, of path, unfolded covers_def]
  then show ?thesis by blast
qed

theorem task_log_covers_snapshots_witness:
  "\<exists>snap. st_get (td_states sample_started) (''ws'', ''s'') = Some snap
     \<and> (\<exists>e \<in> set (session_events sample_started (''ws'', ''s'')). py_eq (dget e ''revision'') (dget snap ''revision''))"
proof -
  have s: "sample_started = fold (task_step sample_hash (\<lambda>_. None)) [(False, ''t0'', Begin ''ws'' ''s'' ''r'' ''hi'' [])] empty_task_db"
    by (simp add: sample_started_def task_step_def)
  have "st_get (td_states sample_started) (''ws'', ''s'') \<noteq> None" by code_simp
  then obtain snap where "st_get (td_states sample_started) (''ws'', ''s'') = Some snap" by blast
  with task_log_covers_snapshots [OF s, of "(''ws'', ''s'')"] show ?thesis by blast
qed

text \<open>Logging an event again, at another time, changes nothing.\<close>

lemma identity_times: "dpop ''at'' ev = dpop ''at'' ev' \<Longrightarrow> event_identity ev = event_identity ev'"
  using dget_dpop_other [of "''event_id''" "''at''" ev] dget_dpop_other [of "''event_id''" "''at''" ev']
  by (simp add: event_identity_def gets_def gets_or_def)

lemma find_snoc_hit: "find P xs = None \<Longrightarrow> P x \<Longrightarrow> find P (xs @ [x]) = Some x"
  by (induction xs) (auto split: if_splits)

lemma append_once_again:
  assumes "append_once ev log = Inr log'" "dpop ''at'' ev' = dpop ''at'' ev" "event_identity ev \<noteq> []"
  shows "append_once ev' log' = Inr log'"
proof -
  have i: "event_identity ev' = event_identity ev" by (rule identity_times [OF assms(2)])
  show ?thesis
  proof (cases "find (\<lambda>e. event_identity e = event_identity ev) log")
    case None
    then have "log' = log @ [ev]" using assms(1,3) by (simp add: append_once_def Let_def)
    moreover have "find (\<lambda>e. event_identity e = event_identity ev) (log @ [ev]) = Some ev" using None by (rule find_snoc_hit) simp
    ultimately show ?thesis using assms(2,3) by (simp add: append_once_def i)
  next
    case (Some old)
    then show ?thesis using assms by (auto simp: append_once_def i split: if_splits)
  qed
qed

lemma append_once_times:
  assumes "dpop ''at'' ev' = dpop ''at'' ev"
  shows "isl (append_once ev' log) = isl (append_once ev log)"
  using assms identity_times [OF assms] by (auto simp: append_once_def Let_def split: option.splits)

text \<open>C22: the crash of an operation between its event and its snapshot is repaired by running the operation
  again, at any time: the snapshots are as if there had been no crash, and the event is not logged twice.\<close>

theorem retry_repairs_crash:
  "let crashed = task_step sha256 from_iso (True, now, op) db; retried = task_step sha256 from_iso (False, now', op) crashed
   in td_states crashed = td_states db
      \<and> td_states retried = td_states (task_step sha256 from_iso (False, now', op) db)
      \<and> session_events retried path = session_events crashed path"
proof -
  let ?f = "exec_task_op sha256 from_iso op"
  from exec_planned [of sha256 from_iso op, unfolded planned_def, rule_format, of "td_states db"]
  consider "\<forall>now db'. td_states db' = td_states db \<longrightarrow> ?f now db' = db'"
    | q revision ws sid task ev where "\<forall>now now'. dpop ''at'' (ev now) = dpop ''at'' (ev now')" "\<forall>now. describes (ev now) (task now) (revision + 1)"
        "\<forall>now db'. td_states db' = td_states db \<longrightarrow> ?f now db' = apply_plan q (ev now) (snapshot_of ws sid (revision + 1) (task now) now) db'"
    by blast
  then show ?thesis
  proof cases
    case 1
    then have "?f now db = db" "?f now' db = db" by blast+
    then show ?thesis by (simp add: task_step_def Let_def)
  next
    case (2 q revision ws sid task ev)
    define snap where "snap = (\<lambda>now. snapshot_of ws sid (revision + 1) (task now) now)"
    have f: "?f t db' = apply_plan q (ev t) (snap t) db'" if "td_states db' = td_states db" for t db' using 2(3) that by (simp add: snap_def)
    have same: "dpop ''at'' (ev now') = dpop ''at'' (ev now)" using 2(1) by blast
    show ?thesis
    proof (cases "append_once (ev now) (session_events db q)")
      case (Inl e)
      moreover obtain e' where "append_once (ev now') (session_events db q) = Inl e'"
        using append_once_times [OF same, of "session_events db q"] Inl by (cases "append_once (ev now') (session_events db q)") auto
      ultimately have "?f now db = db" "?f now' db = db" by (simp_all add: f apply_plan_def publish_def log_event_def)
      then show ?thesis by (simp add: task_step_def Let_def)
    next
      case (Inr log)
      obtain log' where log': "append_once (ev now') (session_events db q) = Inr log'"
        using append_once_times [OF same, of "session_events db q"] Inr by (cases "append_once (ev now') (session_events db q)") auto
      have again: "append_once (ev now') log = Inr log"
        by (rule append_once_again [OF Inr same]) (use 2(2) in \<open>auto simp: describes_def\<close>)
      let ?crashed = "db\<lparr>td_events := AList.update q log (td_events db)\<rparr>"
      have c: "task_step sha256 from_iso (True, now, op) db = ?crashed"
        by (simp add: task_step_def f apply_plan_def publish_def log_event_def Inr)
      have "task_step sha256 from_iso (False, now', op) ?crashed
          = ?crashed\<lparr>td_states := st_put q (snap now') (td_states db), td_events := AList.update q log (td_events ?crashed)\<rparr>"
        by (simp add: task_step_def f apply_plan_def publish_def log_event_def session_events_update again)
      moreover have "td_states (task_step sha256 from_iso (False, now', op) db) = st_put q (snap now') (td_states db)"
        by (simp add: task_step_def f apply_plan_def publish_def log_event_def log')
      ultimately show ?thesis unfolding c Let_def by (simp add: session_events_def update_conv')
    qed
  qed
qed

section \<open>What a commit stores\<close>

lemma status_of_derived:
  assumes "derive_status task metadata run_ok = (status, next_action)"
  shows "status \<in> {''cancelled'', ''waiting_user'', ''replan_required'', ''failed'', ''completed''}"
    and "status = ''completed'' \<Longrightarrow> run_ok \<and> \<not> replan_requested task metadata
      \<and> (py_truthy (dget (as_dict (dget task ''assertions'')) ''required'') \<longrightarrow> gets (as_dict (dget task ''assertions'')) ''status'' = ''passed'')"
  using assms by (auto simp: derive_status_def Let_def split: if_splits)

lemma count_replan_dget:
  "count_replan previous_task metadata task = Inr counted \<Longrightarrow> k \<noteq> ''replan_attempts'' \<Longrightarrow> dget counted k = dget task k"
  by (auto simp: count_replan_def Let_def dget_dset split: if_splits)

lemma evolve_task_Inr:
  assumes "evolve_task sha256 now previous_task user_input run_id run_ok metadata calls contract = Inr evolved"
  obtains base unknowns counted where "unknowns_from_metadata metadata = Inr unknowns"
    "\<And>k. k \<noteq> ''replan_attempts'' \<Longrightarrow> dget counted k = dget (merged_task sha256 run_id run_ok metadata calls unknowns base) k"
    "evolved = finished_task metadata run_ok counted"
  using assms unfolding evolve_task_def by (auto dest: count_replan_dget)

lemma unknowns_length: "unknowns_from_metadata metadata = Inr us \<Longrightarrow> length us \<le> 1"
  by (auto simp: unknowns_from_metadata_def Let_def split: if_splits)

lemma finished_task_fields:
  "dget (finished_task metadata run_ok t) k =
     (if k = ''active_from_status'' then PNone
      else if k = ''next_action'' then PStr (snd (derive_status t metadata run_ok))
      else if k = ''status'' then PStr (fst (derive_status t metadata run_ok)) else dget t k)"
  by (simp add: finished_task_def dget_dpop dget_dset split: prod.splits)

lemma dict_items_length: "length (dict_items xs) \<le> length xs"
  by (simp add: dict_items_def)

text \<open>C32: what a commit stores is bounded, has a terminal status, and is completed only if the run
  succeeded and its required assertions passed.\<close>

theorem committed_task_is_bounded:
  assumes "commit_task_state sha256 now ws sid run_id user_input run_ok metadata calls contract db = (db', Inr (Some snap))"
    and "task = as_dict (dget snap ''task'')"
  shows "length (as_list (dget task ''nodes'')) \<le> 128 \<and> length (as_list (dget task ''evidence_refs'')) \<le> 128
    \<and> length (as_list (dget task ''recovery_goals'')) \<le> 64 \<and> length (as_list (dget task ''unknowns'')) \<le> 1
    \<and> gets task ''status'' \<in> {''cancelled'', ''waiting_user'', ''replan_required'', ''failed'', ''completed''}
    \<and> (gets task ''status'' = ''completed'' \<longrightarrow> run_ok
         \<and> (py_truthy (dget (assertions_from_metadata metadata) ''required'') \<longrightarrow> gets (assertions_from_metadata metadata) ''status'' = ''passed''))"
proof (rule commit_Some [OF assms(1)])
  fix path revision evolved log
  assume ev: "evolve_task sha256 now (as_dict (dget (read_unlocked db path) ''task'')) user_input run_id run_ok metadata (dict_items calls) contract = Inr evolved"
    and s: "snap = snapshot_of ws sid (revision + 1) (dset ''updated_at'' (PStr now) (dset ''revision'' (PInt (revision + 1)) evolved)) now"
  from evolve_task_Inr [OF ev] obtain base unknowns counted where
    u: "unknowns_from_metadata metadata = Inr unknowns"
    and c: "\<And>k. k \<noteq> ''replan_attempts'' \<Longrightarrow> dget counted k = dget (merged_task sha256 run_id run_ok metadata (dict_items calls) unknowns base) k"
    and f: "evolved = finished_task metadata run_ok counted" by blast
  obtain status next_action where st: "derive_status counted metadata run_ok = (status, next_action)" by fastforce
  have t: "dget task k = dget evolved k" if "k \<notin> {''updated_at'', ''revision''}" for k
    using that by (simp add: assms(2) s snapshot_of_def dget_dset)
  have a: "dget counted ''assertions'' = PDict (assertions_from_metadata metadata)" by (simp add: c merged_task_def dget_dset)
  have status: "dget task ''status'' = PStr status" by (simp add: t f finished_task_fields st)
  have goals: "length (dict_items (last_n 64 xs)) \<le> 64" for xs using dict_items_length length_last_n le_trans by blast
  have lists: "length (as_list (dget task ''nodes'')) \<le> 128" "length (as_list (dget task ''evidence_refs'')) \<le> 128"
    "length (as_list (dget task ''recovery_goals'')) \<le> 64" "length (as_list (dget task ''unknowns'')) \<le> 1"
    using unknowns_length [OF u]
    by (simp_all add: t f finished_task_fields c merged_task_def dget_dset merge_nodes_def merge_evidence_def Let_def length_last_n goals)
  have "gets task ''status'' = status" by (rule gets_eq_of_dget [OF status])
  with lists status_of_derived [OF st, unfolded a] show ?thesis by auto
qed

theorem committed_task_is_bounded_witness:
  "\<exists>db' snap. sample_commit sample_started = (db', Inr (Some snap)) \<and> gets (as_dict (dget snap ''task'')) ''status'' = ''completed''
     \<and> length (as_list (dget (as_dict (dget snap ''task'')) ''nodes'')) \<le> 128"
proof -
  from sample_commit_Some obtain db1 snap where c: "sample_commit sample_started = (db1, Inr (Some snap))" by blast
  have "gets (as_dict (dget (the (projr (snd (sample_commit sample_started)))) ''task'')) ''status'' = ''completed''" by code_simp
  with committed_task_is_bounded [OF c [unfolded sample_commit_def] refl] c show ?thesis by auto
qed

section \<open>Restart\<close>

definition task_status :: "task_db \<Rightarrow> string \<times> string \<Rightarrow> string" where
  "task_status db path = gets (as_dict (dget (read_unlocked db path) ''task'')) ''status''"

text \<open>What a restart may do to a session.\<close>

definition restarted :: "task_db \<Rightarrow> task_db \<Rightarrow> string \<times> string \<Rightarrow> bool" where
  "restarted db db' path \<longleftrightarrow>
     read_unlocked db' path = read_unlocked db path
     \<or> task_status db path = ''active'' \<and> task_status db' path = ''interrupted'' \<and> revision_at db' path = revision_at db path + 1"

lemma restarted_trans: "restarted a b p \<Longrightarrow> restarted b c p \<Longrightarrow> restarted a c p"
  by (auto simp: restarted_def task_status_def revision_at_def)

lemma restarted_inactive: "restarted a b p \<Longrightarrow> task_status a p \<noteq> ''active'' \<Longrightarrow> task_status b p \<noteq> ''active''"
  by (auto simp: restarted_def task_status_def)

lemma reconcile_session_Inr:
  assumes "reconcile_session sha256 from_iso now started_before ws sid counts db = (db', Inr counts')" "state_path ws sid = Inr path"
  obtains "db' = db" "started_before = [] \<longrightarrow> task_status db path \<noteq> ''active''"
  | revision log task where "task_status db path = ''active''" "getn (read_unlocked db path) ''revision'' = Inr revision"
      "gets task ''status'' = ''interrupted''"
      "db' = db\<lparr>td_states := st_put path (snapshot_of ws sid (revision + 1) task now) (td_states db), td_events := AList.update path log (td_events db)\<rparr>"
proof -
  obtain n k where nk: "counts = (n, k)" by (cases counts)
  let ?state = "read_unlocked db path"
  let ?task = "as_dict (dget ?state ''task'')"
  let ?later = "started_later from_iso started_before (py_str (py_or (py_or (dget ?task ''updated_at'') (dget ?state ''updated_at'')) (PStr [])))"
  have v: "\<not> isl (validate_task_session sid)" using assms(2) by (auto simp: state_path_def)
  note d = assms(1) [unfolded reconcile_session_def nk case_prod_conv Let_def if_not_P [OF v] assms(2) sum.case]
  show thesis
  proof (cases "?task = [] \<or> gets ?task ''status'' \<noteq> ''active'' \<or> ?later")
    case True
    then have "db' = db" using d by (auto split: if_splits)
    moreover have "started_before = [] \<longrightarrow> task_status db path \<noteq> ''active''"
      using True by (auto simp: task_status_def started_later_def gets_def gets_or_def py_or_def)
    ultimately show thesis by (rule that(1))
  next
    case False
    obtain revision where r: "getn ?state ''revision'' = Inr revision" using d False by (cases "getn ?state ''revision''") auto
    let ?t = "dupdate ?task
               [(''status'', PStr ''interrupted''), (''next_action'', PStr ''resume_after_service_restart''),
                (''interrupted_reason'', PStr ''service_restart''), (''updated_at'', PStr now), (''revision'', PInt (revision + 1))]"
    obtain ev where e: "(case publish path ev (snapshot_of ws sid (revision + 1) ?t now) db of
        Inl e \<Rightarrow> (db, Inl e) | Inr db' \<Rightarrow> (db', Inr (n + 1, k))) = (db', Inr counts')"
      using d False r by (simp del: dupdate.simps)
    then obtain log where "db' = db\<lparr>td_states := st_put path (snapshot_of ws sid (revision + 1) ?t now) (td_states db), td_events := AList.update path log (td_events db)\<rparr>"
      by (cases "publish path ev (snapshot_of ws sid (revision + 1) ?t now) db") (auto simp: publish_Inr simp del: dupdate.simps)
    moreover have "gets ?t ''status'' = ''interrupted''" by (simp add: gets_dset py_or_def)
    ultimately show thesis using False r by (intro that(2)) (simp_all add: task_status_def del: dupdate.simps)
  qed
qed

lemma reconcile_session_restarts:
  assumes "reconcile_session sha256 from_iso now started_before ws sid counts db = (db', Inr counts')"
  shows "restarted db db' p"
    and "started_before = [] \<Longrightarrow> state_path ws sid = Inr p \<Longrightarrow> task_status db' p \<noteq> ''active''"
proof -
  have snap: "task_status (db\<lparr>td_states := st_put path (snapshot_of ws sid r task now) x, td_events := y\<rparr>) path = gets task ''status''"
    "revision_at (db\<lparr>td_states := st_put path (snapshot_of ws sid r task now) x, td_events := y\<rparr>) path = r" for path r task x y
    by (simp_all add: task_status_def revision_at_def read_snapshot) (simp add: snapshot_of_def)
  show "restarted db db' p"
  proof (cases "state_path ws sid")
    case (Inl e)
    then have "db' = db" using assms by (auto simp: reconcile_session_def split: prod.splits if_splits)
    then show ?thesis by (simp add: restarted_def)
  next
    case (Inr path)
    show ?thesis
    proof (rule reconcile_session_Inr [OF assms Inr])
      assume "db' = db"
      then show ?thesis by (simp add: restarted_def)
    next
      fix revision log task
      assume a: "task_status db path = ''active''" "getn (read_unlocked db path) ''revision'' = Inr revision" "gets task ''status'' = ''interrupted''"
        "db' = db\<lparr>td_states := st_put path (snapshot_of ws sid (revision + 1) task now) (td_states db), td_events := AList.update path log (td_events db)\<rparr>"
      show ?thesis
      proof (cases "p = path")
        case True
        then show ?thesis using a by (simp add: restarted_def snap) (simp add: revision_at_def)
      next
        case False
        then show ?thesis by (simp add: restarted_def a(4) read_unlocked_def)
      qed
    qed
  qed
  show "task_status db' p \<noteq> ''active''" if "started_before = []" "state_path ws sid = Inr p"
    by (rule reconcile_session_Inr [OF assms that(2)]) (use that(1) snap in auto)
qed

lemma reconcile_sessions_restart:
  assumes "reconcile_sessions sha256 from_iso now started_before ws children counts db = (db', Inr counts')"
  shows "restarted db db' p \<and> (started_before = [] \<longrightarrow> (\<forall>sid \<in> set children. state_path ws sid = Inr p \<longrightarrow> task_status db' p \<noteq> ''active''))"
  using assms
proof (induction children arbitrary: counts db)
  case Nil
  then show ?case by (simp add: restarted_def)
next
  case (Cons sid children)
  obtain db1 res1 where r: "reconcile_session sha256 from_iso now started_before ws sid counts db = (db1, res1)" by fastforce
  with Cons.prems obtain counts1 where c: "res1 = Inr counts1" by (cases res1) auto
  have rest: "reconcile_sessions sha256 from_iso now started_before ws children counts1 db1 = (db', Inr counts')"
    using Cons.prems r c by simp
  note one = reconcile_session_restarts [OF r [unfolded c]] and IH = Cons.IH [OF rest]
  have "task_status db' p \<noteq> ''active''" if "started_before = []" "state_path ws sid = Inr p"
    using restarted_inactive [OF conjunct1 [OF IH] one(2) [OF that]] .
  then show ?case using restarted_trans [OF one(1) conjunct1 [OF IH]] IH by auto
qed

text \<open>after the reconciliation at a restart no session of the workspace has an active task. A session whose
  task was active is interrupted, in the next revision; every other session is unchanged.\<close>

theorem restart_leaves_no_active_task:
  assumes "reconcile_active_task_states sha256 from_iso now [] ws children db = (db', Inr counts)"
    and "sid \<in> set children" "state_path ws sid = Inr path"
  shows "task_status db' path = (if task_status db path = ''active'' then ''interrupted'' else task_status db path)
    \<and> (if task_status db path = ''active'' then revision_at db' path = revision_at db path + 1
       else read_unlocked db' path = read_unlocked db path)"
proof -
  have "reconcile_sessions sha256 from_iso now [] ws children (0, 0) db = (db', Inr counts)"
    using assms(1) by (simp add: reconcile_active_task_states_def split: sum.splits)
  from reconcile_sessions_restart [OF this, of path] assms(2,3)
  have "restarted db db' path" "task_status db' path \<noteq> ''active''" by blast+
  then show ?thesis by (auto simp: restarted_def task_status_def)
qed

theorem restart_leaves_no_active_task_witness:
  "\<exists>db' counts. reconcile_active_task_states sample_hash (\<lambda>_. None) ''t1'' [] ''ws'' [''s''] sample_started = (db', Inr counts)
     \<and> task_status sample_started (''ws'', ''s'') = ''active'' \<and> task_status db' (''ws'', ''s'') = ''interrupted''"
proof -
  let ?v = "reconcile_active_task_states sample_hash (\<lambda>_. None) ''t1'' [] ''ws'' [''s''] sample_started"
  have "\<not> isl (snd ?v)" by code_simp
  then obtain db' counts where v: "?v = (db', Inr counts)" by (cases ?v; cases "snd ?v") auto
  have "state_path ''ws'' ''s'' = Inr (''ws'', ''s'')" "task_status sample_started (''ws'', ''s'') = ''active''" by code_simp+
  with restart_leaves_no_active_task [OF v, of "''s''" "(''ws'', ''s'')"] v show ?thesis by simp
qed

end
