(* ===== verification/Tool_Contracts.thy ===== *)
theory Tool_Contracts
  imports Runtime_Types
begin

text \<open>
  Tool contracts and their use for scheduling and retries (\<open>core/runtime_engine/contracts.py\<close>), with the
  table of action-level execution contracts (\<open>core/tools/action_requirements.py\<close>).

  The contract table is a dictionary from tool ids to records. It starts as \<open>BUILTIN_CONTRACTS\<close>, whose
  descriptions and schemas are taken from the canonical registry, and grows when extension tools are
  loaded. Two parameters stand for what is read from elsewhere: \<open>registry\<close>, the description and input schema
  of each entry of \<open>CANONICAL_REGISTRY\<close>, and \<open>ext\<close>, the contracts that \<open>get_extension_tool_specs\<close> registers
  (\<open>None\<close> when it raises). The entries of \<open>action_profiles\<close> in tool metadata are dictionaries.
\<close>

section \<open>Contracts\<close>

record tool_contract =
  ct_name :: string
  ct_display_name :: string
  ct_description :: string
  ct_input_schema :: pydict
  ct_output_schema :: pydict
  ct_side_effect :: string
  ct_risk_level :: string
  ct_idempotent :: bool
  ct_timeout_seconds :: int
  ct_max_retries :: int
  ct_concurrency_group :: "string option"
  ct_rollback_supported :: bool
  ct_optional :: bool
  ct_priority :: string
  ct_always_read_only :: bool
  ct_read_only_actions :: "string list"
  ct_action_contracts :: pydict

type_synonym contracts = "(string \<times> tool_contract) list"

text \<open>A contract with the dataclass defaults.\<close>

definition ToolContract :: "string \<Rightarrow> tool_contract" where
  "ToolContract name =
     \<lparr>ct_name = name, ct_display_name = [], ct_description = [], ct_input_schema = [], ct_output_schema = [],
      ct_side_effect = ''unknown'', ct_risk_level = ''low'', ct_idempotent = False, ct_timeout_seconds = 60,
      ct_max_retries = 0, ct_concurrency_group = None, ct_rollback_supported = False, ct_optional = False,
      ct_priority = ''normal'', ct_always_read_only = False, ct_read_only_actions = [], ct_action_contracts = []\<rparr>"

definition action_schema :: pydict where
  "action_schema =
     [(''required'', PList [PStr ''action'']),
      (''properties'', PDict [(''action'', PDict [(''type'', PStr ''string'')])])]"

definition BUILTIN_CONTRACTS :: contracts where
  "BUILTIN_CONTRACTS =
    [(''exec.run'', (ToolContract ''exec.run'')\<lparr>ct_display_name := ''Local Execution'',
        ct_description := ''Execute local shell, Python, or slash commands.'',
        ct_input_schema := [(''required'', PList [PStr ''command'']), (''properties'', PDict [(''command'',
          PDict [(''type'', PStr ''string'')])])],
        ct_output_schema := [(''properties'', PDict [(''stdout'', PDict [(''type'', PStr ''string'')]),
          (''stderr'', PDict [(''type'', PStr ''string'')]), (''exit_code'', PDict [(''type'', PStr ''number'')]),
          (''structured_output'', PDict [])])],
        ct_side_effect := ''execute_command'', ct_risk_level := ''medium'', ct_timeout_seconds := 120,
        ct_concurrency_group := Some ''shell''\<rparr>),
     (''browser.manage'', (ToolContract ''browser.manage'')\<lparr>ct_display_name := ''Browser Automation'',
          ct_description := ''Automate browser interactions.'',
        ct_input_schema := action_schema, ct_side_effect := ''external_request'',
        ct_risk_level := ''medium'', ct_timeout_seconds := 90, ct_concurrency_group := Some ''browser''\<rparr>),
     (''web.manage'', (ToolContract ''web.manage'')\<lparr>ct_display_name := ''Web'',
          ct_description := ''Web search, page fetch, weather, and deep search.'',
        ct_input_schema := action_schema, ct_side_effect := ''external_request'', ct_idempotent := True,
        ct_timeout_seconds := 90, ct_concurrency_group := Some ''external_http'', ct_max_retries := 1\<rparr>),
     (''location.manage'', (ToolContract ''location.manage'')\<lparr>ct_display_name := ''Location Resolution'',
        ct_description := ''Resolve place names, addresses, and coordinates into canonical geographic entities.'',
        ct_input_schema := action_schema, ct_side_effect := ''external_request'', ct_idempotent := True,
        ct_timeout_seconds := 90, ct_concurrency_group := Some ''external_http'', ct_max_retries := 1\<rparr>),
     (''data.manage'', (ToolContract ''data.manage'')\<lparr>ct_display_name := ''Data'',
          ct_description := ''Process structured data.'',
        ct_input_schema := action_schema, ct_side_effect := ''read'', ct_idempotent := True,
        ct_timeout_seconds := 30, ct_max_retries := 1\<rparr>),
     (''report.manage'', (ToolContract ''report.manage'')\<lparr>ct_display_name := ''Report'',
          ct_description := ''Save, diff, and render reports.'',
        ct_input_schema := action_schema, ct_side_effect := ''write_file'', ct_idempotent := True,
        ct_timeout_seconds := 60\<rparr>),
     (''knowledge.manage'', (ToolContract ''knowledge.manage'')\<lparr>ct_display_name := ''Knowledge'',
          ct_description := ''Search, read, import, and manage knowledge.'',
        ct_input_schema := action_schema, ct_side_effect := ''read'', ct_idempotent := True,
        ct_timeout_seconds := 300, ct_max_retries := 1\<rparr>),
     (''memory.manage'', (ToolContract ''memory.manage'')\<lparr>ct_display_name := ''Memory'',
          ct_description := ''Search and manage memory.'',
        ct_input_schema := action_schema, ct_side_effect := ''mutate_local'', ct_timeout_seconds := 30,
        ct_rollback_supported := True\<rparr>),
     (''skill.manage'', (ToolContract ''skill.manage'')\<lparr>ct_display_name := ''Skill'',
          ct_description := ''List, search, load, and inspect skills.'',
        ct_input_schema := action_schema, ct_side_effect := ''read'', ct_idempotent := True,
        ct_timeout_seconds := 10, ct_max_retries := 1\<rparr>),
     (''agent.manage'', (ToolContract ''agent.manage'')\<lparr>ct_display_name := ''Agent'',
          ct_description := ''Manage subagents.'',
        ct_input_schema := action_schema, ct_side_effect := ''read'', ct_idempotent := True,
        ct_timeout_seconds := 120, ct_concurrency_group := Some ''subagent''\<rparr>),
     (''system.manage'', (ToolContract ''system.manage'')\<lparr>ct_display_name := ''System'',
          ct_description := ''Runtime diagnostics and session operations.'',
        ct_input_schema := action_schema, ct_side_effect := ''read'', ct_idempotent := True,
        ct_timeout_seconds := 300, ct_max_retries := 1\<rparr>),
     (''text.analyze'', (ToolContract ''text.analyze'')\<lparr>ct_display_name := ''Text'',
          ct_description := ''Redact, extract, and match text.'',
        ct_input_schema := action_schema, ct_side_effect := ''read'', ct_idempotent := True,
        ct_timeout_seconds := 30, ct_max_retries := 1\<rparr>),
     (''workspace.file'', (ToolContract ''workspace.file'')\<lparr>ct_display_name := ''Workspace File'',
        ct_description := ''Read, extract managed attachments, write, edit, glob, and delete workspace files.'',
        ct_input_schema := action_schema, ct_side_effect := ''write_file'', ct_risk_level := ''medium'',
        ct_timeout_seconds := 30, ct_concurrency_group := Some ''filesystem'', ct_rollback_supported := True\<rparr>),
     (''workspace.artifact'', (ToolContract ''workspace.artifact'')\<lparr>ct_display_name := ''Workspace Artifact'',
        ct_description := ''List, read, save, tag, and delete artifacts.'', ct_input_schema := action_schema,
        ct_side_effect := ''mutate_local'', ct_timeout_seconds := 30, ct_rollback_supported := True\<rparr>),
     (''workspace.filestore'', (ToolContract ''workspace.filestore'')\<lparr>ct_display_name := ''FileStore'',
          ct_description := ''Reference and import FileStore items.'',
        ct_input_schema := action_schema, ct_side_effect := ''read'', ct_idempotent := True,
        ct_timeout_seconds := 20, ct_max_retries := 1\<rparr>),
     (''workspace.metadata.get'', (ToolContract ''workspace.metadata.get'')\<lparr>ct_display_name := ''Workspace Metadata'', ct_description := ''Retrieve workspace metadata.'',
        ct_side_effect := ''read'', ct_idempotent := True, ct_timeout_seconds := 10, ct_max_retries := 1\<rparr>),
     (''workspace.document.pdf.extract_text'',
          (ToolContract ''workspace.document.pdf.extract_text'')\<lparr>ct_display_name := ''PDF Text Extraction'',
          ct_description := ''Extract text from PDF documents.'',
        ct_input_schema := [(''required'', PList [PStr ''filepath'']), (''properties'', PDict [(''filepath'',
          PDict [(''type'', PStr ''string'')])])],
        ct_side_effect := ''read'', ct_idempotent := True, ct_timeout_seconds := 60, ct_max_retries := 1\<rparr>)]"

definition sync_contract :: "string \<times> string \<times> pydict \<Rightarrow> contracts \<Rightarrow> contracts" where
  "sync_contract = (\<lambda>(tool_id, description, input_schema) table.
     case map_of table tool_id of
       None \<Rightarrow> table
     | Some contract \<Rightarrow> AList.update tool_id
         (contract\<lparr>ct_description := (if description = [] then ct_description contract else description),
                   ct_input_schema := input_schema\<rparr>) table)"

definition sync_contracts_from_canonical_registry ::
  "(string \<times> string \<times> pydict) list \<Rightarrow> contracts \<Rightarrow> contracts" where
  "sync_contracts_from_canonical_registry registry table = fold sync_contract registry table"

definition ALWAYS_READ_ONLY_TOOLS :: "string list" where
  "ALWAYS_READ_ONLY_TOOLS =
     [''web.manage'', ''location.manage'', ''data.manage'', ''text.analyze'', ''workspace.metadata.get'',
      ''workspace.document.pdf.extract_text'']"

section \<open>Action-level execution contracts\<close>

definition READ_CONTRACT :: pydict where
  "READ_CONTRACT =
     [(''action_class'', PStr ''read''), (''risk_level'', PStr ''low''), (''side_effects'', PStr ''none''),
          (''idempotency'', PStr ''safe_to_retry''), (''read_only'', PBool True)]"

definition WRITE_CONTRACT :: pydict where
  "WRITE_CONTRACT =
     [(''action_class'', PStr ''write''), (''risk_level'', PStr ''medium''), (''side_effects'',
          PStr ''workspace''), (''idempotency'', PStr ''unsafe_to_retry''), (''read_only'', PBool False)]"

definition EXECUTE_CONTRACT :: pydict where
  "EXECUTE_CONTRACT =
     [(''action_class'', PStr ''execute''), (''risk_level'', PStr ''medium''), (''side_effects'',
          PStr ''task_state''), (''idempotency'', PStr ''unsafe_to_retry''), (''read_only'', PBool False)]"

definition NETWORK_READ_CONTRACT :: pydict where
  "NETWORK_READ_CONTRACT =
     [(''action_class'', PStr ''network''), (''risk_level'', PStr ''low''), (''side_effects'',
          PStr ''external_read''), (''idempotency'', PStr ''safe_to_retry''), (''read_only'', PBool True)]"

definition BROWSER_EXECUTE_CONTRACT :: pydict where
  "BROWSER_EXECUTE_CONTRACT =
     [(''action_class'', PStr ''network''), (''risk_level'', PStr ''medium''), (''side_effects'',
          PStr ''browser_state''), (''idempotency'', PStr ''unsafe_to_retry''), (''read_only'', PBool False)]"

definition LOCAL_EXECUTE_CONTRACT :: pydict where
  "LOCAL_EXECUTE_CONTRACT =
     [(''action_class'', PStr ''execute''), (''risk_level'', PStr ''medium''), (''side_effects'',
          PStr ''local_process''), (''idempotency'', PStr ''unsafe_to_retry''), (''read_only'', PBool False)]"

definition DELETE_CONTRACT :: pydict where
  "DELETE_CONTRACT =
     [(''action_class'', PStr ''delete''), (''risk_level'', PStr ''high''), (''side_effects'', PStr ''workspace''),
          (''idempotency'', PStr ''unsafe_to_retry''), (''read_only'', PBool False), (''destructive'', PBool True)]"

type_synonym action_table = "((string \<times> string) \<times> pydict) list"

definition action_contracts :: "string \<Rightarrow> string list \<Rightarrow> pydict \<Rightarrow> action_table" where
  "action_contracts tool_id actions contract = map (\<lambda>action. ((tool_id, action), contract)) actions"

text \<open>The \<open>update\<close> calls of the module, in their order.\<close>

definition ACTION_CONTRACT_UPDATES :: "action_table list" where
  "ACTION_CONTRACT_UPDATES =
     [action_contracts ''exec.run'' [''shell'', ''python'', ''slash''] LOCAL_EXECUTE_CONTRACT,
      action_contracts ''browser.manage'' [''snapshot'', ''extract'', ''wait'', ''network'',
          ''console''] NETWORK_READ_CONTRACT,
      action_contracts ''browser.manage'' [''navigate'', ''screenshot'', ''click'', ''type'', ''scroll'',
          ''hover'', ''press_key'', ''select_option'', ''evaluate'', ''tabs'', ''navigate_back'',
          ''close''] BROWSER_EXECUTE_CONTRACT,
      action_contracts ''web.manage'' [''search'', ''fetch'', ''weather'', ''weather_batch'',
          ''deep_search''] READ_CONTRACT,
      action_contracts ''location.manage'' [''resolve'', ''resolve_batch'', ''reverse''] READ_CONTRACT,
      action_contracts ''data.manage'' [''parse'', ''stats'', ''distinct'', ''aggregate'', ''filter'', ''sort'',
          ''render'', ''pivot'', ''join''] READ_CONTRACT,
      action_contracts ''workspace.file'' [''list'', ''read'', ''read_image'', ''extract_document'',
          ''extract_document_image'', ''extract_document_images'', ''glob''] READ_CONTRACT,
      action_contracts ''workspace.file'' [''write'', ''write_artifact'', ''edit'', ''patch''] WRITE_CONTRACT,
      action_contracts ''workspace.file'' [''delete''] DELETE_CONTRACT,
      action_contracts ''workspace.artifact'' [''list'', ''read''] READ_CONTRACT,
      action_contracts ''workspace.artifact'' [''save'', ''tag''] WRITE_CONTRACT,
      action_contracts ''workspace.artifact'' [''delete''] DELETE_CONTRACT,
      action_contracts ''workspace.filestore'' [''references'', ''reconcile_trash_preview''] READ_CONTRACT,
      action_contracts ''workspace.filestore'' [''import'', ''reconcile_trash''] WRITE_CONTRACT,
      action_contracts ''agent.manage'' [''list'', ''get'', ''status''] READ_CONTRACT,
      action_contracts ''agent.manage'' [''spawn'', ''cancel'', ''merge''] EXECUTE_CONTRACT,
      action_contracts ''knowledge.manage'' [''search'', ''read'', ''list'', ''chunk''] READ_CONTRACT,
      action_contracts ''knowledge.manage'' [''import'', ''reindex''] WRITE_CONTRACT,
      action_contracts ''memory.manage'' [''search'', ''review'', ''profile_get''] READ_CONTRACT,
      action_contracts ''memory.manage'' [''create'', ''update'', ''confirm'', ''profile_set''] WRITE_CONTRACT,
      action_contracts ''memory.manage'' [''delete''] DELETE_CONTRACT,
      action_contracts ''skill.manage'' [''list'', ''find'', ''load'', ''inspect'', ''mcp_list_tools''] READ_CONTRACT,
      action_contracts ''skill.manage'' [''mcp_call''] EXECUTE_CONTRACT,
      action_contracts ''report.manage'' [''diff'', ''document''] READ_CONTRACT,
      action_contracts ''report.manage'' [''save''] WRITE_CONTRACT,
      action_contracts ''system.manage'' [''diagnostics'', ''health'', ''selfcheck'', ''local_info'', ''tasks'',
          ''audit_log'', ''run_get'', ''session_get'', ''session_export'', ''session_snapshot''] READ_CONTRACT,
      action_contracts ''system.manage'' [''session_checkpoint''] WRITE_CONTRACT,
      action_contracts ''system.manage'' [''session_rewind''] DELETE_CONTRACT,
      action_contracts ''text.analyze'' [''redact'', ''extract_entities'', ''match''] READ_CONTRACT]"

definition ACTION_EXECUTION_CONTRACTS :: action_table where
  "ACTION_EXECUTION_CONTRACTS =
     fold (fold (\<lambda>(key, contract). AList.update key contract)) ACTION_CONTRACT_UPDATES []"

definition action_execution_contract :: "string \<Rightarrow> string \<Rightarrow> pydict" where
  "action_execution_contract tool_id action =
     (case map_of ACTION_EXECUTION_CONTRACTS (py_strip tool_id, py_lower (py_strip action)) of
        None \<Rightarrow> [] | Some contract \<Rightarrow> contract)"

text \<open>\<open>grouped.get(tool, frozenset())\<close>, and one iteration of the loop that groups the reading actions.\<close>

definition actions_of :: "(string \<times> string list) list \<Rightarrow> string \<Rightarrow> string list" where
  "actions_of grouped tool = (case map_of grouped tool of None \<Rightarrow> [] | Some actions \<Rightarrow> actions)"

definition group_read_only ::
  "(string \<times> string) \<times> pydict \<Rightarrow> (string \<times> string list) list \<Rightarrow> (string \<times> string list) list" where
  "group_read_only = (\<lambda>((tool_id, action), contract) grouped.
     if dget contract ''read_only'' = PBool True
     then AList.update tool_id (actions_of grouped tool_id @ [action]) grouped
     else grouped)"

definition base_read_only_actions :: "action_table \<Rightarrow> (string \<times> string list) list" where
  "base_read_only_actions table = fold group_read_only table []"

definition READ_ONLY_ACTIONS :: "(string \<times> string list) list" where
  "READ_ONLY_ACTIONS = base_read_only_actions ACTION_EXECUTION_CONTRACTS"

section \<open>Looking up a contract\<close>

definition register_contract :: "tool_contract \<Rightarrow> contracts \<Rightarrow> contracts" where
  "register_contract contract table = AList.update (ct_name contract) contract table"

definition get_contract ::
  "tool_contract list option \<Rightarrow> string \<Rightarrow> contracts \<Rightarrow> contracts \<times> tool_contract option" where
  "get_contract ext tool_name table =
     (let normalized = canonical_tool_id tool_name in
      case map_of table normalized of
        Some contract \<Rightarrow> (table, Some contract)
      | None \<Rightarrow>
          (case ext of
             None \<Rightarrow> (table, None)
           | Some specs \<Rightarrow>
               (let table' = fold register_contract specs table in (table', map_of table' normalized))))"

abbreviation contract_of :: "tool_contract list option \<Rightarrow> contracts \<Rightarrow> string \<Rightarrow> tool_contract option" where
  "contract_of ext table tool_name \<equiv> snd (get_contract ext tool_name table)"

definition get_risk_level :: "tool_contract list option \<Rightarrow> contracts \<Rightarrow> string \<Rightarrow> string" where
  "get_risk_level ext table tool_name =
     (case contract_of ext table tool_name of None \<Rightarrow> ''medium'' | Some contract \<Rightarrow> ct_risk_level contract)"

section \<open>Read-only calls\<close>

definition profile_read_only :: "string \<Rightarrow> pydict \<Rightarrow> bool" where
  "profile_read_only action profile \<longleftrightarrow>
     py_lower (gets profile ''action'') = action
     \<and> (dget profile ''read_only'' = PBool True \<or> py_lower (gets profile ''permission_action'') = ''read'')"

definition is_read_only_call ::
  "tool_contract list option \<Rightarrow> contracts \<Rightarrow> string \<Rightarrow> pydict \<Rightarrow> pydict \<Rightarrow> bool" where
  "is_read_only_call ext table tool_name arguments tool_metadata =
     (let normalized = canonical_tool_id tool_name;
          contract = contract_of ext table normalized;
          action = py_strip (py_lower (gets arguments ''action''));
          action_contract = action_execution_contract normalized action;
          declared = (case contract of None \<Rightarrow> [] | Some c \<Rightarrow> as_dict (dget (ct_action_contracts c) action))
      in if (case contract of None \<Rightarrow> False | Some c \<Rightarrow> ct_always_read_only c) then True
         else if normalized \<in> set ALWAYS_READ_ONLY_TOOLS then True
         else if action_contract \<noteq> [] then dget action_contract ''read_only'' = PBool True
         else if declared \<noteq> [] then dget declared ''read_only'' = PBool True
         else if (case contract of None \<Rightarrow> False | Some c \<Rightarrow> action \<in> set (ct_read_only_actions c)) then True
         else if list_ex (\<lambda>profile. profile_read_only action (as_dict profile))
                   (py_iter (py_or (dget tool_metadata ''action_profiles'') (PList []))) then True
         else action \<in> set (actions_of READ_ONLY_ACTIONS normalized))"

text \<open>The contract under which a failed call may be repeated: it depends on the call, not only on the tool.\<close>

definition get_retry_contract ::
  "tool_contract list option \<Rightarrow> contracts \<Rightarrow> string \<Rightarrow> pydict \<Rightarrow> tool_contract option" where
  "get_retry_contract ext table tool_name arguments =
     (case contract_of ext table tool_name of
        None \<Rightarrow> None
      | Some contract \<Rightarrow>
          Some (if is_read_only_call ext table tool_name arguments []
                then contract\<lparr>ct_side_effect := ''read'', ct_idempotent := True,
                              ct_max_retries := max 1 (ct_max_retries contract)\<rparr>
                else contract\<lparr>ct_side_effect := (if ct_side_effect contract \<notin> {''read'', ''none'', []}
                                                 then ct_side_effect contract else ''mutate_local''),
                              ct_idempotent := False, ct_max_retries := 0\<rparr>))"

section \<open>What the tables determine\<close>

lemma actions_of_group:
  "action \<in> set (actions_of (group_read_only ((t, a), c) grouped) tool) \<longleftrightarrow>
     action \<in> set (actions_of grouped tool) \<or> (tool, action) = (t, a) \<and> dget c ''read_only'' = PBool True"
  by (auto simp: group_read_only_def actions_of_def update_conv')

lemma actions_of_groups:
  "action \<in> set (actions_of (fold group_read_only table grouped) tool) \<longleftrightarrow>
   action \<in> set (actions_of grouped tool)
   \<or> (\<exists>contract. ((tool, action), contract) \<in> set table \<and> dget contract ''read_only'' = PBool True)"
proof (induction table arbitrary: grouped)
  case (Cons e table)
  obtain t a c where e: "e = ((t, a), c)" by (metis prod.exhaust)
  show ?case unfolding e fold_simps o_apply Cons.IH actions_of_group by auto
qed simp

lemma read_only_actions_mem:
  "action \<in> set (actions_of (base_read_only_actions table) tool) \<longleftrightarrow>
   (\<exists>contract. ((tool, action), contract) \<in> set table \<and> dget contract ''read_only'' = PBool True)"
  unfolding base_read_only_actions_def actions_of_groups by (simp add: actions_of_def)

lemma distinct_fold_update:
  "distinct (map fst table) \<Longrightarrow> distinct (map fst (fold (\<lambda>(key, contract). AList.update key contract) entries table))"
  by (induction entries arbitrary: table) (auto simp: distinct_update)

lemma distinct_fold_groups:
  "distinct (map fst table) \<Longrightarrow>
     distinct (map fst (fold (fold (\<lambda>(key, contract). AList.update key contract)) groups table))"
  by (induction groups arbitrary: table) (simp_all add: distinct_fold_update)

lemma distinct_action_table: "distinct (map fst ACTION_EXECUTION_CONTRACTS)"
  unfolding ACTION_EXECUTION_CONTRACTS_def by (rule distinct_fold_groups) simp

lemma fold_invariant_all:
  "list_all P table \<Longrightarrow> (\<And>e table. list_all P table \<Longrightarrow> list_all P (f e table)) \<Longrightarrow> list_all P (fold f es table)"
  by (induction es arbitrary: table) simp_all

lemma list_all_update: "list_all P table \<Longrightarrow> P (k, v) \<Longrightarrow> list_all P (AList.update k v table)"
  by (induction table) auto

lemma list_all_fold_groups:
  assumes "list_all P table" and "list_all (list_all P) groups"
  shows "list_all P (fold (fold (\<lambda>(key, contract). AList.update key contract)) groups table)"
proof -
  have "list_all P (fold (\<lambda>(key, contract). AList.update key contract) entries table)"
    if "list_all P table" "list_all P entries" for table entries
    using that by (induction entries arbitrary: table) (auto intro: list_all_update)
  with assms show ?thesis by (induction groups arbitrary: table) auto
qed

lemma action_table_normal:
  "list_all (\<lambda>((tool_id, action), contract). py_strip tool_id = tool_id \<and> py_lower (py_strip action) = action \<and> contract \<noteq> [])
     ACTION_EXECUTION_CONTRACTS"
  unfolding ACTION_EXECUTION_CONTRACTS_def by (rule list_all_fold_groups) code_simp+

lemma action_table_lookup:
  assumes "((tool_id, action), contract) \<in> set ACTION_EXECUTION_CONTRACTS"
  shows "action_execution_contract tool_id action = contract" and "contract \<noteq> []"
proof -
  from assms have n: "py_strip tool_id = tool_id" "py_lower (py_strip action) = action" "contract \<noteq> []"
    using action_table_normal unfolding list_all_iff by fastforce+
  from assms distinct_action_table have "map_of ACTION_EXECUTION_CONTRACTS (tool_id, action) = Some contract"
    by (rule map_of_is_SomeI [rotated])
  with n show "action_execution_contract tool_id action = contract" "contract \<noteq> []"
    by (simp_all add: action_execution_contract_def)
qed

text \<open>The last line of \<open>is_read_only_call\<close> decides nothing: an action it finds has a contract in the table.\<close>

lemma read_only_actions_listed:
  "action \<in> set (actions_of READ_ONLY_ACTIONS tool) \<Longrightarrow>
     action_execution_contract tool action \<noteq> []"
  unfolding READ_ONLY_ACTIONS_def read_only_actions_mem using action_table_lookup by blast

section \<open>The contract table\<close>

lemma map_of_register_all:
  "map_of (fold register_contract specs table) name =
     (case find (\<lambda>c. ct_name c = name) (rev specs) of None \<Rightarrow> map_of table name | Some c \<Rightarrow> Some c)"
proof (induction specs rule: rev_induct)
  case (snoc c specs)
  then show ?case by (simp add: register_contract_def update_conv')
qed simp

text \<open>Loading the extensions as a side effect of one lookup does not change the answer of a later one, as
  long as no extension takes the name of a tool that has a contract already.\<close>

lemma get_contract_again:
  assumes "ct_name ` set (case ext of None \<Rightarrow> [] | Some specs \<Rightarrow> specs) \<inter> fst ` set table = {}"
  shows "contract_of ext (fst (get_contract ext name table)) name' = contract_of ext table name'"
proof (cases "\<exists>specs. ext = Some specs \<and> map_of table (canonical_tool_id name) = None")
  case True
  then obtain specs where ext: "ext = Some specs" and n: "map_of table (canonical_tool_id name) = None" by blast
  let ?t = "fold register_contract specs table" and ?n = "canonical_tool_id name'"
  have twice: "map_of (fold register_contract specs ?t) ?n = map_of ?t ?n"
    by (simp add: map_of_register_all split: option.splits)
  have known: "map_of ?t ?n = Some c" if "map_of table ?n = Some c" for c
  proof -
    from that have "?n \<in> fst ` set table" by (metis domI dom_map_of_conv_image_fst)
    with assms ext have "?n \<notin> ct_name ` set specs" by auto
    then have "find (\<lambda>c. ct_name c = ?n) (rev specs) = None" by (simp add: find_None_iff) (metis imageI)
    with that show ?thesis by (simp add: map_of_register_all)
  qed
  show ?thesis
    by (cases "map_of table ?n") (auto simp: get_contract_def Let_def ext n twice known split: option.splits)
next
  case False
  then have "fst (get_contract ext name table) = table"
    by (auto simp: get_contract_def Let_def split: option.splits)
  then show ?thesis by simp
qed

text \<open>What a built-in contract leaves open: it declares no action, so the action table decides.\<close>

definition undeclared :: "tool_contract \<Rightarrow> bool" where
  "undeclared c \<longleftrightarrow> \<not> ct_always_read_only c \<and> ct_read_only_actions c = [] \<and> ct_action_contracts c = []"

lemma builtin_undeclared: "list_all (\<lambda>(_, c). undeclared c) BUILTIN_CONTRACTS"
  by (simp add: BUILTIN_CONTRACTS_def ToolContract_def undeclared_def)

lemma sync_undeclared:
  assumes "list_all (\<lambda>(_, c). undeclared c) table"
  shows "list_all (\<lambda>(_, c). undeclared c) (sync_contracts_from_canonical_registry registry table)"
  unfolding sync_contracts_from_canonical_registry_def
proof (rule fold_invariant_all [OF assms])
  fix e :: "string \<times> string \<times> pydict" and table :: contracts
  assume t: "list_all (\<lambda>(_, c). undeclared c) table"
  obtain k d sc where e: "e = (k, d, sc)" by (metis prod.exhaust)
  show "list_all (\<lambda>(_, c). undeclared c) (sync_contract e table)"
  proof (cases "map_of table k")
    case None
    with t show ?thesis by (simp add: sync_contract_def e)
  next
    case (Some c)
    with t have "undeclared c" by (auto simp: list_all_iff dest: map_of_SomeD)
    with t Some show ?thesis by (simp add: sync_contract_def e list_all_update undeclared_def)
  qed
qed

text \<open>Which calls of the built-in tools are read-only, exactly: those of the tools that only read, and those
  whose action the table lists as reading. An unknown or a missing action is not.\<close>

lemma read_only_undeclared:
  assumes "\<forall>c. contract_of ext table (canonical_tool_id tool) = Some c \<longrightarrow> undeclared c"
  shows "is_read_only_call ext table tool arguments [] \<longleftrightarrow>
    canonical_tool_id tool \<in> set ALWAYS_READ_ONLY_TOOLS
    \<or> dget (action_execution_contract (canonical_tool_id tool) (py_strip (py_lower (gets arguments ''action'')))) ''read_only'' = PBool True"
  using assms read_only_actions_listed [of _ "canonical_tool_id tool"]
  by (auto simp: is_read_only_call_def Let_def undeclared_def py_or_def split: option.splits)

text \<open>With the built-in contracts, however they were synchronised with the tool registry, a call is read-only
  exactly when its tool is one of the always reading ones or the action table lists its action as
  reading: an action that is not listed is a write.\<close>

theorem builtin_read_only_calls:
  "is_read_only_call None (sync_contracts_from_canonical_registry registry BUILTIN_CONTRACTS) tool arguments [] \<longleftrightarrow>
     canonical_tool_id tool \<in> set ALWAYS_READ_ONLY_TOOLS
     \<or> dget (action_execution_contract (canonical_tool_id tool) (py_strip (py_lower (gets arguments ''action'')))) ''read_only'' = PBool True"
proof (rule read_only_undeclared, intro allI impI)
  let ?table = "sync_contracts_from_canonical_registry registry BUILTIN_CONTRACTS"
  fix c assume "contract_of None ?table (canonical_tool_id tool) = Some c"
  then have "(canonical_tool_id (canonical_tool_id tool), c) \<in> set ?table"
    by (auto simp: get_contract_def Let_def split: option.splits dest: map_of_SomeD)
  with sync_undeclared [OF builtin_undeclared] show "undeclared c" unfolding list_all_iff by blast
qed

section \<open>Evaluation\<close>

text \<open>Equations that evaluate a lookup without building the tables.\<close>

lemma map_of_fold_update:
  "map_of (fold (\<lambda>(key, contract). AList.update key contract) entries table) k = (map_of table ++ map_of (rev entries)) k"
  by (induction entries arbitrary: table) (auto simp: update_conv' map_add_def split: option.splits)

lemma map_of_fold_groups:
  "map_of (fold (fold (\<lambda>(key, contract). AList.update key contract)) groups table) k =
     (map_of table ++ map_of (rev (concat groups))) k"
  by (induction groups arbitrary: table) (simp_all add: map_of_fold_update map_add_def split: option.splits)

lemma action_tools_dotted: "list_all (\<lambda>((tool_id, _), _). CHR 0x2E \<in> set tool_id) (concat ACTION_CONTRACT_UPDATES)"
  by code_simp

lemma action_execution_contract_code [code]:
  "action_execution_contract tool_id action =
     (let tool_id = py_strip tool_id in
      if CHR 0x2E \<notin> set tool_id then []
      else case map_of (rev (concat ACTION_CONTRACT_UPDATES)) (tool_id, py_lower (py_strip action)) of
             None \<Rightarrow> [] | Some contract \<Rightarrow> contract)"
proof -
  have "map_of (rev (concat ACTION_CONTRACT_UPDATES)) (t, a) = None" if "CHR 0x2E \<notin> set t" for t a
    using that action_tools_dotted unfolding list_all_iff map_of_eq_None_iff by force
  then show ?thesis
    by (simp add: action_execution_contract_def ACTION_EXECUTION_CONTRACTS_def map_of_fold_groups Let_def)
qed

lemma is_read_only_call_code [code]:
  "is_read_only_call ext table tool_name arguments tool_metadata =
     (let normalized = canonical_tool_id tool_name;
          contract = contract_of ext table normalized;
          action = py_strip (py_lower (gets arguments ''action''));
          action_contract = action_execution_contract normalized action;
          declared = (case contract of None \<Rightarrow> [] | Some c \<Rightarrow> as_dict (dget (ct_action_contracts c) action))
      in if (case contract of None \<Rightarrow> False | Some c \<Rightarrow> ct_always_read_only c) then True
         else if normalized \<in> set ALWAYS_READ_ONLY_TOOLS then True
         else if action_contract \<noteq> [] then dget action_contract ''read_only'' = PBool True
         else if declared \<noteq> [] then dget declared ''read_only'' = PBool True
         else if (case contract of None \<Rightarrow> False | Some c \<Rightarrow> action \<in> set (ct_read_only_actions c)) then True
         else list_ex (\<lambda>profile. profile_read_only action (as_dict profile))
                   (py_iter (py_or (dget tool_metadata ''action_profiles'') (PList []))))"
  using read_only_actions_listed unfolding is_read_only_call_def Let_def by auto

end
