(* ===== verification/Tool_Runtime.thy ===== *)
theory Tool_Runtime
  imports Tool_Contracts Operation_Ledger
begin

text \<open>
  Execution of one tool call (\<open>core/runtime_engine/tool_runtime.py\<close>, with \<open>ExecutionNode\<close> and \<open>ToolResult\<close> of
  \<open>models.py\<close> and the error codes of \<open>runtime_contracts.py\<close>).

  The handlers are a parameter, and so are the answer of the cancellation callback before the start (a
  callback that raises counts as not cancelled) and whether the call exceeded its time limit. Latencies are floats that decide nothing and are left out.
\<close>

section \<open>Data\<close>

record exec_node =
  en_id :: string
  en_tool :: string
  en_args :: pydict
  en_retry_count :: int
  en_step_id :: string
  en_depends_on :: "string list"
  en_result_bindings :: "(string \<times> string) list"
  en_failure_policy :: string
  en_goal_ids :: "string list"

text \<open>A node with the dataclass defaults.\<close>

definition ExecutionNode :: "string \<Rightarrow> string \<Rightarrow> pydict \<Rightarrow> exec_node" where
  "ExecutionNode i tool arguments =
     \<lparr>en_id = i, en_tool = tool, en_args = arguments, en_retry_count = 0, en_step_id = [], en_depends_on = [],
      en_result_bindings = [], en_failure_policy = ''replan'', en_goal_ids = []\<rparr>"

record node_result =
  nr_node_id :: string
  nr_tool :: string
  nr_success :: bool
  nr_data :: pyval
  nr_error :: "string option"
  nr_error_code :: string
  nr_retry_count :: int
  nr_metadata :: pydict
  nr_error_code_raw :: string
  nr_error_code_norm :: string

text \<open>What a handler does: it returns, or raises an exception of a type with a message.\<close>

type_synonym handler_outcome = "(string \<times> string) + pyval"

type_synonym tool_handlers = "string \<Rightarrow> (pydict \<Rightarrow> handler_outcome) option"

section \<open>The verdict on a handler's return value\<close>

definition resolve_tool_outcome :: "pyval \<Rightarrow> string \<times> string option \<times> pyval" where
  "resolve_tool_outcome result =
     (case result of
        PNone \<Rightarrow> (''FAIL'', Some ''NULL_RESULT'', PDict [])
      | PDict d \<Rightarrow>
          if dget d ''ok'' = PBool False
          then (''FAIL'', Some (gets_or d ''error_code'' ''TOOL_RETURNED_NOT_OK''), result)
          else if dget d ''ok'' = PBool True then (''SUCCESS'', None, result)
          else (''FAIL'', Some ''TOOL_RESULT_INVALID'', result)
      | _ \<Rightarrow> (''FAIL'', Some ''TOOL_RESULT_INVALID'', result))"

fun stringify_errors :: "pyval \<Rightarrow> string" where
  "stringify_errors (PStr s) = s"
| "stringify_errors (PList xs) =
     py_join ''; '' (filter (\<lambda>part. part \<noteq> []) (map stringify_errors (filter (\<lambda>e. e \<noteq> PNone \<and> e \<noteq> PStr []) xs)))"
| "stringify_errors (PDict d) = (if d = [] then [] else json_default (PDict d))"
| "stringify_errors v = (if py_truthy v then py_str v else [])"

definition extract_error :: "pyval \<Rightarrow> string" where
  "extract_error result =
     (case result of
        PDict d \<Rightarrow>
          if py_truthy (dget d ''error'') then py_str (dget d ''error'')
          else if py_truthy (dget d ''errors'') \<and> stringify_errors (dget d ''errors'') \<noteq> []
          then stringify_errors (dget d ''errors'')
          else if py_truthy (dget d ''message'') then py_str (dget d ''message'')
          else py_str (py_or (py_or (dget d ''error_code'') (dget d ''code'')) (PStr []))
      | _ \<Rightarrow> [])"

text \<open>The code that the handler itself reported.\<close>

definition raw_error_code :: "pyval \<Rightarrow> string" where
  "raw_error_code result =
     (case result of
        PDict d \<Rightarrow> py_str (py_or (py_or (dget d ''error_code'') (dget d ''code'')) (PStr []))
      | _ \<Rightarrow> [])"

definition normalize_result :: "exec_node \<Rightarrow> pyval \<Rightarrow> node_result" where
  "normalize_result node result =
     (let (status, error_code, normalized) = resolve_tool_outcome result;
          success = (status = ''SUCCESS'');
          error_code_norm = (case error_code of None \<Rightarrow> [] | Some code \<Rightarrow> code);
          error_message = (if success then [] else extract_error result)
      in \<lparr>nr_node_id = en_id node, nr_tool = en_tool node, nr_success = success, nr_data = normalized,
          nr_error = (if error_message = [] then None else Some error_message),
          nr_error_code = error_code_norm, nr_retry_count = en_retry_count node, nr_metadata = [],
          nr_error_code_raw = raw_error_code result, nr_error_code_norm = error_code_norm\<rparr>)"

section \<open>Executing a node\<close>

text \<open>The results that the runtime builds itself: the handler did not return.\<close>

definition runtime_failure :: "exec_node \<Rightarrow> int \<Rightarrow> pyval \<Rightarrow> string \<Rightarrow> string \<Rightarrow> pydict \<Rightarrow> node_result" where
  "runtime_failure node retry_count data code error metadata =
     \<lparr>nr_node_id = en_id node, nr_tool = en_tool node, nr_success = False, nr_data = data, nr_error = Some error,
      nr_error_code = code, nr_retry_count = retry_count, nr_metadata = metadata,
      nr_error_code_raw = [], nr_error_code_norm = code\<rparr>"

text \<open>\<open>"$dep.<node>..."\<close> as an argument stands for the data of an earlier result.\<close>

definition merge_dep_results :: "pydict \<Rightarrow> (string \<times> node_result) list \<Rightarrow> pydict" where
  "merge_dep_results arguments dep_results =
     map (\<lambda>(key, v).
       (key,
        case v of
          PStr s \<Rightarrow>
            if py_startswith s ''$dep.''
            then (case map_of dep_results (hd (py_split (CHR ''.'') (py_replace ''$dep.'' [] s))) of
                    None \<Rightarrow> v
                  | Some r \<Rightarrow> nr_data r)
            else v
        | _ \<Rightarrow> v)) arguments"

text \<open>The limit of one call: the contract of the tool may be stricter than the configuration.\<close>

definition node_timeout_ms :: "int \<Rightarrow> tool_contract option \<Rightarrow> int" where
  "node_timeout_ms single_node_timeout_ms contract =
     (let contract_ms = (case contract of None \<Rightarrow> 0 | Some c \<Rightarrow> ct_timeout_seconds c) * 1000
      in if contract_ms > 0 then min single_node_timeout_ms contract_ms else single_node_timeout_ms)"

definition timeout_failure :: "exec_node \<Rightarrow> int \<Rightarrow> node_result" where
  "timeout_failure node timeout_ms =
     runtime_failure node (en_retry_count node) PNone ''TOOL_TIMEOUT_UNCERTAIN''
       (''Tool execution timed out after '' @ int_str timeout_ms @
        ''ms; the underlying operation may still be finishing'')
       [(''execution_may_continue'', PBool True), (''automatic_retry_allowed'', PBool False)]"

text \<open>The handler's exception is given by its class and message. \<open>asyncio.TimeoutError\<close> is the built-in
  \<open>TimeoutError\<close> (Python 3.11 and later), so a handler that raises it, or a subclass of it, ends in the same branch as
  an exceeded limit.\<close>

definition runtime_execute_node ::
  "int \<Rightarrow> tool_contract list option \<Rightarrow> contracts \<Rightarrow> tool_handlers \<Rightarrow> bool \<Rightarrow> bool \<Rightarrow>
   exec_node \<Rightarrow> (string \<times> node_result) list \<Rightarrow> node_result" where
  "runtime_execute_node single_node_timeout_ms ext table handlers cancelled timed_out node dep_results =
     (if cancelled then
        runtime_failure node (en_retry_count node)
          (PDict [(''ok'', PBool False), (''executed'', PBool False), (''cancelled'', PBool True)])
          ''TOOL_CANCELLED'' ''tool execution cancelled before start''
          [(''executed'', PBool False), (''automatic_retry_allowed'', PBool False)]
      else
        case handlers (en_tool node) of
          None \<Rightarrow>
            runtime_failure node 0 PNone ''TOOL_NOT_REGISTERED''
              (''Tool '' @ [CHR 0x27] @ en_tool node @ [CHR 0x27] @ '' has no registered handler'') []
        | Some handler \<Rightarrow>
            (let timeout_ms = node_timeout_ms single_node_timeout_ms (contract_of ext table (en_tool node)) in
             if timed_out then timeout_failure node timeout_ms
             else
               case handler (merge_dep_results (en_args node) dep_results) of
                 Inr result \<Rightarrow> normalize_result node result
               | Inl (name, message) \<Rightarrow>
                   if name = ''TimeoutError'' then timeout_failure node timeout_ms
                   else runtime_failure node (en_retry_count node) PNone ''TOOL_EXCEPTION'' (name @ '': '' @ message) []))"

text \<open>\<open>invoke_raw\<close>: the call without a node, for callers that have no context.\<close>

definition invoke_raw :: "tool_handlers \<Rightarrow> string \<Rightarrow> pydict \<Rightarrow> pydict" where
  "invoke_raw handlers tool_id arguments =
     (case handlers tool_id of
        None \<Rightarrow> [(''ok'', PBool False), (''error'', PStr (''Tool not found: '' @ tool_id))]
      | Some handler \<Rightarrow>
          (case handler arguments of
             Inr (PDict d) \<Rightarrow> d
           | Inr v \<Rightarrow> [(''ok'', PBool True), (''data'', v)]
           | Inl (_, message) \<Rightarrow> [(''ok'', PBool False), (''error'', PStr message)]))"

section \<open>Late results\<close>

text \<open>When the caller timed out, the eventual outcome of the handler settles the operation in the ledger
  (\<open>None\<close> for a cancelled task). A ledger error is swallowed.\<close>

definition late_resource :: "pydict \<Rightarrow> string \<times> string" where
  "late_resource payload =
     (let resource_id = py_str (py_or (py_or (py_or (dget payload ''subtask_id'') (dget payload ''task_id''))
                          (dget payload ''job_id'')) (PStr []));
          domain = gets (as_dict (dget payload ''tracking'')) ''domain'';
          kind = (if domain = [] \<and> py_truthy (dget payload ''subtask_id'') then ''subagent''
                  else if domain = [] \<and> py_truthy (dget payload ''job_id'') then ''job''
                  else domain)
      in (kind, resource_id))"

definition settle_detached_operation ::
  "(string \<Rightarrow> string) \<Rightarrow> string \<Rightarrow> handler_outcome option \<Rightarrow> string \<times> string \<times> string \<Rightarrow> ledger \<Rightarrow> ledger" where
  "settle_detached_operation redact now finished correlation st =
     (case finished of
        None \<Rightarrow> st
      | Some outcome \<Rightarrow>
          (let raw = (case outcome of
                        Inr v \<Rightarrow> v
                      | Inl (name, message) \<Rightarrow>
                          PDict [(''ok'', PBool False), (''error'', PStr (name @ '': '' @ message))]);
               (status, error_code, normalized) = resolve_tool_outcome raw;
               payload = as_dict normalized;
               (kind, ident) = late_resource payload
           in case settle_operation redact now (fst correlation) (fst (snd correlation))
                     \<lparr>sm_status = (if status = ''SUCCESS'' then ''succeeded'' else ''failed''),
                      sm_resolved_by = ''timed_out_handler'',
                      sm_error_code = (case error_code of Some code \<Rightarrow> code | None \<Rightarrow> gets payload ''error_code''),
                      sm_error = extract_error (PDict payload), sm_result_summary = gets payload ''summary'',
                      sm_resource_kind = kind, sm_resource_id = ident, sm_resolution_reason = [],
                      sm_require_unresolved = False\<rparr> st of
                Inl _ \<Rightarrow> st
              | Inr (st', _) \<Rightarrow> st'))"

section \<open>The truth of a result\<close>

lemma nat_str_ne [simp]: "nat_str n \<noteq> []"
  by (subst nat_str.simps) simp

lemma truthy_str_not_Nil: "py_truthy v \<Longrightarrow> py_str v \<noteq> []"
  by (cases v) (auto simp: py_str_def int_str_def)

lemma resolve_tool_outcome_cases:
  assumes "resolve_tool_outcome v = (status, code, normalized)"
  shows "(\<exists>d. v = PDict d \<and> dget d ''ok'' = PBool True \<and> status = ''SUCCESS'' \<and> code = None \<and> normalized = v)
    \<or> (\<not> (\<exists>d. v = PDict d \<and> dget d ''ok'' = PBool True) \<and> status = ''FAIL'' \<and> (\<exists>c. code = Some c \<and> c \<noteq> []))"
  using assms truthy_str_not_Nil
  by (auto simp: resolve_tool_outcome_def gets_or_def py_or_def split: pyval.splits if_splits)

lemma normalize_result_cases:
  "(\<exists>d. v = PDict d \<and> dget d ''ok'' = PBool True \<and>
        nr_success (normalize_result node v) \<and> nr_error_code (normalize_result node v) = []
        \<and> nr_error (normalize_result node v) = None \<and> nr_data (normalize_result node v) = v)
   \<or> (\<not> (\<exists>d. v = PDict d \<and> dget d ''ok'' = PBool True) \<and>
        \<not> nr_success (normalize_result node v) \<and> nr_error_code (normalize_result node v) \<noteq> [])"
proof -
  obtain status code normalized where r: "resolve_tool_outcome v = (status, code, normalized)"
    by (metis prod.exhaust)
  have "nr_success (normalize_result node v) \<longleftrightarrow> status = ''SUCCESS''"
    "nr_error_code (normalize_result node v) = (case code of None \<Rightarrow> [] | Some c \<Rightarrow> c)"
    "status = ''SUCCESS'' \<Longrightarrow> nr_error (normalize_result node v) = None"
    "nr_data (normalize_result node v) = normalized"
    by (simp_all add: normalize_result_def r Let_def)
  with resolve_tool_outcome_cases [OF r] show ?thesis by (elim disjE exE conjE) simp_all
qed

text \<open>A node succeeds exactly when it was not cancelled, did not time out, has a registered handler, and that
  handler returned a dictionary whose \<open>ok\<close> is \<open>True\<close>; then the result carries exactly that dictionary and no
  error. A failed node has an error code, and its normalised code is the same.\<close>

theorem execute_node_truth:
  "let result = runtime_execute_node limit ext table handlers cancelled timed_out node deps in
     (nr_success result \<longleftrightarrow>
        \<not> cancelled \<and> \<not> timed_out \<and>
        (\<exists>handler d. handlers (en_tool node) = Some handler \<and>
           handler (merge_dep_results (en_args node) deps) = Inr (PDict d) \<and> dget d ''ok'' = PBool True
           \<and> nr_data result = PDict d \<and> nr_error result = None))
     \<and> (nr_success result \<longleftrightarrow> nr_error_code result = [])
     \<and> nr_error_code_norm result = nr_error_code result \<and> nr_node_id result = en_id node"
proof (cases "\<not> cancelled \<and> \<not> timed_out \<and>
    (\<exists>handler v. handlers (en_tool node) = Some handler \<and> handler (merge_dep_results (en_args node) deps) = Inr v)")
  case True
  then obtain handler v where h: "\<not> cancelled" "\<not> timed_out" "handlers (en_tool node) = Some handler"
    "handler (merge_dep_results (en_args node) deps) = Inr v" by blast
  then have r: "runtime_execute_node limit ext table handlers cancelled timed_out node deps = normalize_result node v"
    by (simp add: runtime_execute_node_def)
  have norm: "nr_error_code_norm (normalize_result node v) = nr_error_code (normalize_result node v)"
    "nr_node_id (normalize_result node v) = en_id node"
    by (simp_all add: normalize_result_def Let_def split: prod.splits)
  show ?thesis unfolding Let_def r using normalize_result_cases [of v node] h norm by auto
next
  case False
  then have "\<not> nr_success (runtime_execute_node limit ext table handlers cancelled timed_out node deps)"
    "nr_error_code (runtime_execute_node limit ext table handlers cancelled timed_out node deps) \<noteq> []"
    "nr_error_code_norm (runtime_execute_node limit ext table handlers cancelled timed_out node deps) =
     nr_error_code (runtime_execute_node limit ext table handlers cancelled timed_out node deps)"
    "nr_node_id (runtime_execute_node limit ext table handlers cancelled timed_out node deps) = en_id node"
    by (auto simp: runtime_execute_node_def timeout_failure_def runtime_failure_def Let_def split: option.splits sum.splits)
  with False show ?thesis by (auto simp: Let_def)
qed

end
