(* ===== verification/Tool_Retry.thy ===== *)
theory Tool_Retry
  imports Tool_Runtime Py_Regex
begin

text \<open>
  Repetition of failed tool calls: the policy (\<open>core/runtime_engine/tool_retry_policy.py\<close>), the execution
  budget (\<open>budget_controller.py\<close>), and the retry loop of one call with its audit records
  (\<open>StreamingToolExecutor._execute_one\<close>, \<open>_maybe_retry_node\<close> and their helpers in \<open>query_loop.py\<close>).

  Clock readings are integers in milliseconds and a parameter; the durations that the loop adds to its
  records are left out. \<open>ctx.extras\<close> is a dictionary of which this theory uses \<open>retry_events\<close> and
  \<open>retry_summary\<close>.
\<close>

section \<open>The execution budget\<close>

record budget_controller =
  bc_start_time :: int
  bc_llm_calls :: int
  bc_nodes_used :: int
  bc_tool_elapsed_ms :: int
  bc_tool_stage_started_at :: "int option"

record budget_status =
  bs_ok :: bool
  bs_exceeded :: string
  bs_elapsed_total_ms :: int
  bs_llm_calls_used :: int
  bs_nodes_used :: int

definition BudgetStatus :: "int \<Rightarrow> budget_status" where
  "BudgetStatus elapsed =
     \<lparr>bs_ok = True, bs_exceeded = [], bs_elapsed_total_ms = elapsed, bs_llm_calls_used = 0, bs_nodes_used = 0\<rparr>"

definition check_planner :: "int \<Rightarrow> int \<Rightarrow> budget_controller \<Rightarrow> budget_status" where
  "check_planner max_planner_seconds now b =
     (let elapsed = now - bc_start_time b; limit_ms = max_planner_seconds * 1000 in
      if limit_ms > 0 \<and> elapsed > limit_ms
      then (BudgetStatus elapsed)\<lparr>bs_ok := False, bs_exceeded := ''PLANNER_TIMEOUT''\<rparr>
      else BudgetStatus elapsed)"

definition check_llm_call :: "int \<Rightarrow> budget_controller \<Rightarrow> budget_controller \<times> budget_status" where
  "check_llm_call now b =
     (let b' = b\<lparr>bc_llm_calls := bc_llm_calls b + 1\<rparr>
      in (b', (BudgetStatus (now - bc_start_time b))\<lparr>bs_llm_calls_used := bc_llm_calls b'\<rparr>))"

definition check_execution :: "int \<Rightarrow> budget_controller \<Rightarrow> budget_status" where
  "check_execution now b = BudgetStatus (now - bc_start_time b)"

definition reserve_execution_batch ::
  "int \<Rightarrow> int \<Rightarrow> int \<Rightarrow> int \<Rightarrow> budget_controller \<Rightarrow> budget_controller \<times> budget_status" where
  "reserve_execution_batch now node_count depth parallel_width b =
     (let status = check_execution now b in
      if \<not> bs_ok status then (b, status\<lparr>bs_nodes_used := bc_nodes_used b\<rparr>)
      else
        let b' = b\<lparr>bc_nodes_used := bc_nodes_used b + max 0 node_count\<rparr>
        in (b', (BudgetStatus (bs_elapsed_total_ms status))\<lparr>bs_nodes_used := bc_nodes_used b'\<rparr>))"

text \<open>The remaining time in seconds; \<open>None\<close> is infinity.\<close>

definition remaining_execution_seconds :: "budget_controller \<Rightarrow> int option" where
  "remaining_execution_seconds b = None"

definition begin_execution :: "int \<Rightarrow> budget_controller \<Rightarrow> budget_controller" where
  "begin_execution now b =
     (if bc_tool_stage_started_at b = None then b\<lparr>bc_tool_stage_started_at := Some now\<rparr> else b)"

definition end_execution :: "int \<Rightarrow> budget_controller \<Rightarrow> budget_controller" where
  "end_execution now b =
     (case bc_tool_stage_started_at b of
        None \<Rightarrow> b
      | Some started \<Rightarrow>
          b\<lparr>bc_tool_elapsed_ms := bc_tool_elapsed_ms b + (now - started), bc_tool_stage_started_at := None\<rparr>)"

section \<open>The policy\<close>

definition ALLOWED_RETRY_ERRORS :: "string list" where
  "ALLOWED_RETRY_ERRORS =
     [''TOOL_TIMEOUT'', ''TOOL_EXCEPTION'', ''TEMPORARY_NETWORK_ERROR'', ''CONNECTION_RESET'', ''RATE_LIMITED'',
      ''PROVIDER_TIMEOUT'', ''READ_ONLY_TOOL_FAILED'', ''HTTP_429'', ''HTTP_500'', ''HTTP_502'', ''HTTP_503'', ''HTTP_504'']"

definition FORBIDDEN_RETRY_ERRORS :: "string list" where
  "FORBIDDEN_RETRY_ERRORS =
     [''TOOL_TIMEOUT_UNCERTAIN'', ''FORBIDDEN_COMMAND'', ''POLICY_BLOCKED'', ''CRITICAL_RISK'', ''PATH_TRAVERSAL'',
      ''SYSTEM_DIRECTORY_WRITE'', ''CREDENTIAL_ACCESS'', ''FORBIDDEN_ARG'', ''FORBIDDEN_OPERATION'', ''DANGEROUS_OPERATION'',
      ''BUDGET_EXCEEDED'', ''TOOL_NOT_ALLOWED'', ''CALLER_NOT_ALLOWED'', ''ARGS_INVALID'', ''ARGS_MISSING'',
      ''ARGS_TYPE_MISMATCH'', ''TOOL_ARGUMENT_VALIDATION_FAILED'', ''ARG_ENUM_INVALID'', ''ARG_TYPE_MISMATCH'',
      ''ARG_RANGE_INVALID'', ''ARG_LENGTH_INVALID'', ''MISSING_REQUIRED_ARG'', ''UNKNOWN_ARGUMENT'']"

definition RETRYABLE_SIDE_EFFECTS :: "string list" where
  "RETRYABLE_SIDE_EFFECTS = [''read'', ''none'', []]"

text \<open>The patterns of \<open>redact_sensitive_text\<close>. \<open>^\<close> is a position with nothing before it.\<close>

definition CRED_NAME :: re where
  "CRED_NAME = RSeq RBound (RAlts
     [RSeqs [RLitI ''api'', ROpt (RCh (\<lambda>c. c = CHR ''_'' \<or> c = CHR ''-'')), RLitI ''key''],
      RLitI ''secret'', RLitI ''password'', RLitI ''passwd'', RLitI ''token'', RLitI ''bearer'', RLitI ''authorization'',
      RSeqs [RLitI ''access'', ROpt (RCh (\<lambda>c. c = CHR ''_'' \<or> c = CHR ''-'')), RLitI ''key''],
      RSeqs [RLitI ''private'', ROpt (RCh (\<lambda>c. c = CHR ''_'' \<or> c = CHR ''-'')), RLitI ''key''],
      RLitI ''credential''])"

definition is_quote :: "char \<Rightarrow> bool" where
  "is_quote c \<longleftrightarrow> c = CHR 0x22 \<or> c = CHR 0x27"

definition CRED_VALUE :: re where
  "CRED_VALUE = RSeqs [RStar True RSpace, RCh (\<lambda>c. c = CHR '':'' \<or> c = CHR ''=''), RStar True RSpace, ROpt (RCh is_quote),
     RPlus (RCh (\<lambda>c. \<not> is_space c \<and> \<not> is_quote c \<and> c \<notin> {CHR '','', CHR '';'', CHR 0x7D})), ROpt (RCh is_quote)]"

definition RStars :: re where
  "RStars = RSeqs [RPlus (RLit ''*''), RLit ''*'']"

definition CRED_BEARER_TOKEN_RE :: re where
  "CRED_BEARER_TOKEN_RE = RSeqs
     [RAlt (RSeqs [RLitI ''authorization'', RStar True RSpace, RCh (\<lambda>c. c = CHR '':'' \<or> c = CHR ''=''), RStar True RSpace,
                   RStars, RLitI ''REDACTED'', RStars])
           (RSeqs [RLitI ''bearer'', RStar True RSpace, RLit ''='', RStars, RLitI ''REDACTED'', RStars]),
      RPlus RSpace, RCh is_alnum, RAtLeast 10 (RCh (\<lambda>c. is_alnum c \<or> c \<in> {CHR ''.'', CHR ''_'', CHR ''-''}))]"

definition is_hex :: "char \<Rightarrow> bool" where
  "is_hex c \<longleftrightarrow> is_hex_lower (char_lower c)"

definition CRED_ORPHAN_TOKEN_RE :: re where
  "CRED_ORPHAN_TOKEN_RE = RSeq
     (RAlt (RNotBehind (\<lambda>_. True)) (RCh (\<lambda>c. is_space c \<or> is_quote c \<or> c = CHR '':'' \<or> c = CHR ''='')))
     (RAlts
       [RSeqs (RLitI ''AKIA'' # replicate 16 (RCh is_alnum)),
        RSeqs (RLitI ''sk-'' # replicate 36 (RCh is_hex)),
        RSeqs (RLitI ''ghp_'' # replicate 36 (RCh is_alnum)),
        RSeqs [RLitI ''xox'', RCh (\<lambda>c. char_lower c \<in> {CHR ''b'', CHR ''p'', CHR ''s'', CHR ''a''}), RLit ''-'',
               RPlus (RCh (\<lambda>c. is_alnum c \<or> c = CHR ''-''))],
        RSeq (RLitI ''eyJ'') (RAtLeast 20 (RCh (\<lambda>c. is_alnum c \<or> c \<in> {CHR ''_'', CHR ''%'', CHR ''-''})))])"

definition redact_sensitive_text :: "string \<Rightarrow> string" where
  "redact_sensitive_text s =
     (let out1 = re_sub_group CRED_NAME CRED_VALUE (\<lambda>name. name @ ''=***REDACTED***'') s;
          out2 = re_sub_all CRED_BEARER_TOKEN_RE ''***REDACTED***'' out1;
          out3 = re_sub_all CRED_ORPHAN_TOKEN_RE ''***REDACTED***'' out2
      in re_sub_group (RLitI ''bearer'')
           (RSeqs [RPlus RSpace, RCh is_alnum, RAtLeast 8 (RCh (\<lambda>c. is_alnum c \<or> c \<in> {CHR ''.'', CHR ''_'', CHR ''-''}))])
           (\<lambda>name. name @ '' ***REDACTED***'') out3)"

definition normalize_error_code :: "string \<Rightarrow> string" where
  "normalize_error_code error_code = py_upper (py_strip error_code)"

record retry_decision =
  rd_retry_allowed :: bool
  rd_reason :: string
  rd_retry_count :: int
  rd_max_retries :: int
  rd_backoff_ms :: int
  rd_error_code :: string
  rd_idempotent :: bool
  rd_side_effect :: string
  rd_blocked_by_policy :: bool
  rd_notes :: pydict

definition decision_dict :: "retry_decision \<Rightarrow> pydict" where
  "decision_dict d = dupdate
     [(''retry_allowed'', PBool (rd_retry_allowed d)), (''reason'', PStr (rd_reason d)),
      (''retry_count'', PInt (rd_retry_count d)), (''max_retries'', PInt (rd_max_retries d)),
      (''backoff_ms'', PInt (rd_backoff_ms d)), (''error_code'', PStr (rd_error_code d)),
      (''idempotent'', PBool (rd_idempotent d)), (''side_effect'', PStr (rd_side_effect d)),
      (''blocked_by_policy'', PBool (rd_blocked_by_policy d))] (rd_notes d)"

definition backoff_for_attempt :: "int \<Rightarrow> int" where
  "backoff_for_attempt attempt = (if attempt \<le> 0 then 200 else if attempt = 1 then 500 else 1000)"

definition effective_max_retries :: "tool_contract option \<Rightarrow> int \<Rightarrow> int" where
  "effective_max_retries contract global_max =
     (case contract of None \<Rightarrow> 0 | Some c \<Rightarrow> min (max 0 (ct_max_retries c)) (max 0 global_max))"

text \<open>A refusal by policy before the retry count is looked at.\<close>

definition refuse :: "string \<Rightarrow> string \<Rightarrow> int \<Rightarrow> bool \<Rightarrow> string \<Rightarrow> pydict \<Rightarrow> retry_decision" where
  "refuse reason error_code effective_max idempotent side_effect notes =
     \<lparr>rd_retry_allowed = False, rd_reason = reason, rd_retry_count = 0, rd_max_retries = effective_max,
      rd_backoff_ms = 0, rd_error_code = error_code, rd_idempotent = idempotent, rd_side_effect = side_effect,
      rd_blocked_by_policy = True, rd_notes = notes\<rparr>"

definition should_retry_tool_failure ::
  "exec_node \<Rightarrow> tool_contract option \<Rightarrow> string \<Rightarrow> string \<Rightarrow> int \<Rightarrow> int option \<Rightarrow> bool \<Rightarrow> retry_decision" where
  "should_retry_tool_failure node contract code0 error_message config_max_retries global_max budget_ok =
     (let global_max = (case global_max of None \<Rightarrow> config_max_retries | Some n \<Rightarrow> n);
          code = normalize_error_code code0;
          notes = [(''original_error'', PStr (redact_sensitive_text (take 200 error_message)))]
      in if \<not> budget_ok then refuse ''budget_exceeded'' code 0 False ''unknown'' notes
         else case contract of
           None \<Rightarrow> refuse ''no_tool_contract'' code 0 False ''unknown'' notes
         | Some c \<Rightarrow>
             (let idempotent = ct_idempotent c;
                  side_effect = (if ct_side_effect c = [] then ''unknown'' else ct_side_effect c);
                  effective_max = min (max 0 (ct_max_retries c)) (max 0 global_max);
                  attempted = en_retry_count node;
                  verdict = (\<lambda>allowed reason blocked backoff.
                    (refuse reason code effective_max idempotent side_effect notes)
                      \<lparr>rd_retry_allowed := allowed, rd_retry_count := attempted, rd_backoff_ms := backoff,
                       rd_blocked_by_policy := blocked\<rparr>)
              in if code \<in> set FORBIDDEN_RETRY_ERRORS
                 then refuse (''forbidden_error:'' @ code) code effective_max idempotent side_effect notes
                 else if \<not> idempotent then refuse ''non_idempotent'' code effective_max idempotent side_effect notes
                 else if side_effect \<notin> set RETRYABLE_SIDE_EFFECTS
                 then refuse (if side_effect = ''execute_command'' then ''execute_command_not_retryable''
                              else ''side_effect_not_retryable:'' @ side_effect)
                        code effective_max idempotent side_effect notes
                 else if code \<noteq> [] \<and> code \<notin> set ALLOWED_RETRY_ERRORS
                 then refuse (''error_code_not_retryable:'' @ code) code effective_max idempotent side_effect notes
                 else if attempted \<ge> effective_max then verdict False ''max_retries_exhausted'' False 0
                 else if effective_max \<le> 0 then verdict False ''zero_max_retries'' True 0
                 else verdict True ''transient_failure_on_idempotent_read_tool'' False (backoff_for_attempt attempted)))"

section \<open>Audit records of retries\<close>

text \<open>\<open>list(ctx.extras.get("retry_events") or [])\<close> and the counters of the summary, which are integers.\<close>

definition retry_events :: "pydict \<Rightarrow> pydict list" where
  "retry_events extras = map as_dict (py_iter (py_or (dget extras ''retry_events'') (PList [])))"

definition set_retry_events :: "pydict list \<Rightarrow> pydict \<Rightarrow> pydict" where
  "set_retry_events events extras = dset ''retry_events'' (PList (map PDict events)) extras"

definition EMPTY_RETRY_SUMMARY :: pydict where
  "EMPTY_RETRY_SUMMARY =
     [(''retry_attempts'', PInt 0), (''retried_nodes'', PList []), (''retry_succeeded'', PInt 0),
      (''retry_failed'', PInt 0), (''retry_blocked'', PInt 0)]"

definition retry_summary :: "pydict \<Rightarrow> pydict \<Rightarrow> pydict" where
  "retry_summary fallback extras = as_dict (py_or (dget extras ''retry_summary'') (PDict fallback))"

definition counter :: "pydict \<Rightarrow> string \<Rightarrow> int" where
  "counter summary k = (case dget summary k of PInt i \<Rightarrow> i | _ \<Rightarrow> 0)"

definition bump :: "string \<Rightarrow> pydict \<Rightarrow> pydict" where
  "bump k summary = dset k (PInt (counter summary k + 1)) summary"

text \<open>The last event of a node, searching from the end.\<close>

definition last_event_of :: "string \<Rightarrow> pydict list \<Rightarrow> nat option" where
  "last_event_of node_id events =
     find (\<lambda>i. dget (events ! i) ''node_id'' = PStr node_id) (rev [0..<length events])"

definition record_retry_decision :: "exec_node \<Rightarrow> retry_decision \<Rightarrow> pydict \<Rightarrow> nat \<times> pydict" where
  "record_retry_decision node decision extras =
     (let events = retry_events extras;
          found = (if rd_reason decision = ''max_retries_exhausted'' then last_event_of (en_id node) events else None)
      in case found of
           Some i \<Rightarrow>
             (i, set_retry_events (events[i := dupdate (events ! i)
                  [(''exhausted'', PBool True), (''terminal_reason'', PStr (rd_reason decision))]]) extras)
         | None \<Rightarrow>
             (let event = dupdate (decision_dict decision) [(''node_id'', PStr (en_id node)), (''tool_id'', PStr (en_tool node))];
                  summary = retry_summary EMPTY_RETRY_SUMMARY extras;
                  summary' = (if rd_retry_allowed decision then summary else bump ''retry_blocked'' summary)
              in (length events,
                  dset ''retry_summary'' (PDict summary') (set_retry_events (events @ [event]) extras))))"

definition record_retry_result :: "exec_node \<Rightarrow> node_result \<Rightarrow> nat \<Rightarrow> pydict \<Rightarrow> pydict" where
  "record_retry_result node result event_index extras =
     (let summary = bump ''retry_attempts'' (retry_summary EMPTY_RETRY_SUMMARY extras);
          nodes = as_list (py_or (dget summary ''retried_nodes'') (PList []));
          nodes' = (if PStr (en_id node) \<in> set nodes then nodes else nodes @ [PStr (en_id node)]);
          summary' = bump (if nr_success result then ''retry_succeeded'' else ''retry_failed'')
                       (dset ''retried_nodes'' (PList nodes') summary);
          extras' = dset ''retry_summary'' (PDict summary') extras;
          events = retry_events extras'
      in if event_index < length events
         then set_retry_events (events[event_index := dupdate (events ! event_index)
                [(''attempt'', PInt (en_retry_count node)),
                 (''final_status'', PStr (if nr_success result then ''succeeded'' else ''failed'')),
                 (''result_error_code'', PStr (nr_error_code result))]]) extras'
         else extras')"

definition record_retry_aborted :: "nat \<Rightarrow> string \<Rightarrow> pydict \<Rightarrow> pydict" where
  "record_retry_aborted event_index reason extras =
     (let events = retry_events extras;
          extras' = (if event_index < length events
                     then set_retry_events (events[event_index := dupdate (events ! event_index)
                            [(''retry_allowed'', PBool False), (''blocked_by_policy'', PBool False),
                             (''final_status'', PStr ''aborted''), (''reason'', PStr reason)]]) extras
                     else extras)
      in dset ''retry_summary'' (PDict (bump ''retry_blocked'' (retry_summary [] extras'))) extras')"

section \<open>One call with its retries\<close>

text \<open>What the loop of one call depends on: the configuration, the contracts, the tool registry, the handlers
  with the cancellation and time-out of each attempt, and the budget with its clock (read when a retry is
  decided and again after the back-off).\<close>

record retry_env =
  re_single_node_timeout_ms :: int
  re_max_retries_per_node :: int
  re_extensions :: "tool_contract list option"
  re_contracts :: contracts
  re_registry :: pydict
  re_handlers :: "exec_node \<Rightarrow> tool_handlers"
  re_cancelled :: "exec_node \<Rightarrow> bool"
  re_timed_out :: "exec_node \<Rightarrow> bool"
  re_budget :: "budget_controller option"
  re_clock :: "bool \<Rightarrow> exec_node \<Rightarrow> int"

definition run_node :: "retry_env \<Rightarrow> exec_node \<Rightarrow> node_result" where
  "run_node env node =
     runtime_execute_node (re_single_node_timeout_ms env) (re_extensions env) (re_contracts env)
       (re_handlers env node) (re_cancelled env node) (re_timed_out env node) node []"

definition budget_ok :: "retry_env \<Rightarrow> bool \<Rightarrow> exec_node \<Rightarrow> bool" where
  "budget_ok env after_backoff node =
     (case re_budget env of None \<Rightarrow> True | Some b \<Rightarrow> bs_ok (check_execution (re_clock env after_backoff node) b))"

text \<open>An uncertain timeout of a read is an ordinary timeout.\<close>

definition normalize_read_timeout_for_retry :: "retry_env \<Rightarrow> exec_node \<Rightarrow> node_result \<Rightarrow> node_result" where
  "normalize_read_timeout_for_retry env node result =
     (if nr_success result \<or> py_upper (nr_error_code result) \<noteq> ''TOOL_TIMEOUT_UNCERTAIN'' then result
      else if \<not> is_read_only_call (re_extensions env) (re_contracts env) (en_tool node) (en_args node)
                 (as_dict (dget (re_registry env) (canonical_tool_id (en_tool node)))) then result
      else result\<lparr>nr_metadata := dupdate (nr_metadata result)
                    [(''read_only'', PBool True),
                     (''read_execution_may_continue'',
                      PBool (py_truthy (dget_or (nr_metadata result) ''execution_may_continue'' (PBool True)))),
                     (''execution_may_continue'', PBool False), (''timeout_normalized_for_retry'', PBool True)],
                  nr_error_code := ''TOOL_TIMEOUT'', nr_error_code_norm := ''TOOL_TIMEOUT''\<rparr>)"

text \<open>The class of a generic failure, inferred from the tokens in its error text.\<close>

definition infer_error_code :: "(string list \<Rightarrow> bool) \<Rightarrow> string" where
  "infer_error_code any_in =
     (if any_in [''authentication'', ''permission denied'', ''password'', ''credential''] then ''CREDENTIAL_ACCESS''
      else if any_in [''security check failed'', ''forbidden'', ''policy blocked'', ''not allowed'', ''blocked:'', ''workspace_mismatch'']
      then ''POLICY_BLOCKED''
      else if any_in [''timeout'', ''timed out''] then ''TOOL_TIMEOUT''
      else if any_in [''rate''] \<and> any_in [''limit''] then ''RATE_LIMITED''
      else if any_in [''connection''] \<and> any_in [''reset''] then ''CONNECTION_RESET''
      else (case find (\<lambda>status. any_in [''http '' @ status, ''status '' @ status]) [''429'', ''500'', ''502'', ''503'', ''504''] of
              Some status \<Rightarrow> ''HTTP_'' @ status
            | None \<Rightarrow>
                if any_in ['' is required'', ''invalid '', ''unknown action'', ''unsupported '', ''not found'', ''no such '',
                           ''does not exist'', ''_not_found'', ''not_found'', ''_required'', ''unsupported_'', ''unknown_'',
                           ''artifact_empty'', ''empty_document'']
                then ''ARGS_INVALID'' else ''TOOL_EXCEPTION''))"

definition retry_error_code :: "node_result \<Rightarrow> string" where
  "retry_error_code result =
     (let error_code = py_upper (py_strip (nr_error_code result));
          err = py_lower (case nr_error result of None \<Rightarrow> [] | Some e \<Rightarrow> e)
      in if error_code \<noteq> [] \<and> error_code \<noteq> ''TOOL_RETURNED_NOT_OK'' then error_code
         else infer_error_code (list_ex (\<lambda>token. py_contains token err)))"

definition has_safe_read_recovery :: "node_result \<Rightarrow> bool" where
  "has_safe_read_recovery result =
     (let payload = as_dict (nr_data result);
          directives = (case dget payload ''runtime_recoveries'' of
                          PList published \<Rightarrow> published | _ \<Rightarrow> [dget payload ''runtime_recovery''])
      in list_ex (\<lambda>directive. is_dict directive
           \<and> dget (as_dict directive) ''kind'' \<in> {PStr ''safe_read_fallback'', PStr ''documentation_read_fallback''}
           \<and> is_dict (dget (as_dict directive) ''arguments'')) directives)"

definition decide_retry :: "retry_env \<Rightarrow> exec_node \<Rightarrow> node_result \<Rightarrow> retry_decision" where
  "decide_retry env node result =
     (let contract = get_retry_contract (re_extensions env) (re_contracts env) (en_tool node) (en_args node)
      in should_retry_tool_failure node contract (retry_error_code result)
           (case nr_error result of None \<Rightarrow> [] | Some e \<Rightarrow> e)
           (case contract of None \<Rightarrow> 0 | Some c \<Rightarrow> ct_max_retries c)
           (Some (re_max_retries_per_node env)) (budget_ok env False node))"

text \<open>The result of a repeated attempt, with the provenance of the retry.\<close>

definition retried_result :: "retry_env \<Rightarrow> exec_node \<Rightarrow> retry_decision \<Rightarrow> node_result" where
  "retried_result env node decision =
     (let result = normalize_read_timeout_for_retry env node (run_node env node)
      in result\<lparr>nr_retry_count := en_retry_count node,
                nr_metadata := dupdate (nr_metadata result)
                  [(''retried'', PBool True), (''retry_count'', PInt (en_retry_count node)),
                   (''retry_reason'', PStr (rd_reason decision)), (''retry_backoff_ms'', PInt (rd_backoff_ms decision)),
                   (''retry_error_code'', PStr (rd_error_code decision)),
                   (''retry_original_error'', dget_or (rd_notes decision) ''original_error'' (PStr []))]\<rparr>)"

lemma retry_allowed_less:
  assumes "rd_retry_allowed (should_retry_tool_failure node contract code msg config (Some global_max) ok)"
  shows "\<exists>c. contract = Some c \<and> en_retry_count node < min (max 0 (ct_max_retries c)) (max 0 global_max)"
  using assms by (auto simp: should_retry_tool_failure_def refuse_def Let_def split: option.splits if_splits)

text \<open>The loop. Beside the result and the records it returns the attempts that it made, in order.\<close>

function maybe_retry_node ::
  "retry_env \<Rightarrow> exec_node \<Rightarrow> node_result \<Rightarrow> pydict \<Rightarrow> node_result \<times> pydict \<times> exec_node list" where
  "maybe_retry_node env node result extras =
     (if nr_success result then (result, extras, [])
      else
        let result1 = normalize_read_timeout_for_retry env node result;
            decision = decide_retry env node result1;
            (event_index, extras1) = record_retry_decision node decision extras
        in if \<not> rd_retry_allowed decision then (result1, extras1, [])
           else if \<not> budget_ok env True node
           then (result1, record_retry_aborted event_index ''budget_exceeded_after_backoff'' extras1, [])
           else
             let node' = node\<lparr>en_retry_count := en_retry_count node + 1\<rparr>;
                 result' = retried_result env node' decision;
                 extras2 = record_retry_result node' result' event_index extras1;
                 (final, extras3, attempts) = maybe_retry_node env node' result' extras2
             in (final, extras3, node' # attempts))"
  by pat_completeness auto
termination
proof (relation "measure (\<lambda>(env, node, result, extras).
    nat (effective_max_retries (get_retry_contract (re_extensions env) (re_contracts env) (en_tool node) (en_args node))
           (re_max_retries_per_node env) - en_retry_count node))", goal_cases)
  case 1
  then show ?case by simp
next
  case (2 env node result extras result1 decision)
  then have "rd_retry_allowed (decide_retry env node (normalize_read_timeout_for_retry env node result))" by simp
  from retry_allowed_less [OF this [unfolded decide_retry_def Let_def]] show ?case
    by (auto simp: effective_max_retries_def 2)
qed

declare maybe_retry_node.simps [simp del]

definition from_tool_result :: "node_result \<Rightarrow> string \<Rightarrow> tool_result" where
  "from_tool_result result fallback_call_id =
     (let output0 = (case nr_data result of PDict d \<Rightarrow> d | v \<Rightarrow> [(''data'', v)]);
          output1 = (case nr_error result of
                       Some e \<Rightarrow> if \<not> nr_success result \<and> e \<noteq> [] then dset ''error'' (PStr e) output0 else output0
                     | None \<Rightarrow> output0);
          metadata = (if nr_retry_count result \<noteq> 0 then dset ''retry_count'' (PInt (nr_retry_count result)) (nr_metadata result)
                      else nr_metadata result);
          output2 = (if metadata \<noteq> [] then dset ''metadata'' (PDict metadata) output1 else output1)
      in \<lparr>tr_tool_name = nr_tool result,
          tr_call_id = (if nr_node_id result = [] then fallback_call_id else nr_node_id result),
          tr_output = PDict output2, tr_ok = nr_success result, tr_error = nr_error result,
          tr_error_code = nr_error_code result,
          tr_execution_may_continue = (py_truthy (dget metadata ''execution_may_continue'')
            \<or> py_truthy (dget output2 ''execution_may_continue'')),
          tr_summary = []\<rparr>)"

text \<open>\<open>_execute_one\<close> with a context: the first attempt, then either the typed recovery of the handler, which
  forbids a repetition, or the retry loop.\<close>

definition safe_recovery_event :: "exec_node \<Rightarrow> pydict" where
  "safe_recovery_event node =
     [(''tool_id'', PStr (en_tool node)), (''node_id'', PStr (en_id node)), (''retry_allowed'', PBool False),
      (''reason'', PStr ''safe_read_recovery_requires_changed_call''), (''error_code'', PStr ''SAFE_READ_RECOVERY'')]"

definition call_node :: "llm_tool_call \<Rightarrow> exec_node" where
  "call_node tc = ExecutionNode (tc_id tc) (canonical_tool_id (tc_name tc)) (tc_arguments tc)"

definition execute_one :: "retry_env \<Rightarrow> llm_tool_call \<Rightarrow> pydict \<Rightarrow> tool_result \<times> pydict \<times> exec_node list" where
  "execute_one env tc extras =
     (let node = call_node tc;
          result = normalize_read_timeout_for_retry env node (run_node env node);
          (final, extras', attempts) =
            (if nr_success result then (result, extras, [])
             else if has_safe_read_recovery result
             then (result, set_retry_events (retry_events extras @ [safe_recovery_event node]) extras, [])
             else maybe_retry_node env node result extras)
      in (from_tool_result final (tc_id tc), extras', node # attempts))"

section \<open>When a call is repeated\<close>

lemma last_py_strip: "py_strip s \<noteq> [] \<Longrightarrow> \<not> is_space (last (py_strip s))"
  using hd_dropWhile [of is_space "rev (dropWhile is_space s)"] by (simp add: py_strip_def last_rev)

lemma py_strip_Nil: "py_strip s = [] \<longleftrightarrow> list_all is_space s"
proof -
  have "dropWhile is_space s = []" if "list_all is_space (dropWhile is_space s)"
    using that hd_dropWhile [of is_space s] by (cases "dropWhile is_space s") auto
  moreover have "py_strip s = [] \<longleftrightarrow> list_all is_space (dropWhile is_space s)"
    by (simp add: py_strip_def list_all_iff)
  ultimately have "py_strip s = [] \<longleftrightarrow> dropWhile is_space s = []" by fastforce
  then show ?thesis by (simp add: list_all_iff)
qed

lemma is_space_char_upper [simp]: "is_space (char_upper c) \<longleftrightarrow> is_space c"
proof (cases "is_lower c")
  case True
  then have "97 \<le> (of_char c :: nat)" "(of_char c :: nat) \<le> 122" by (simp_all add: less_eq_char_def)
  then show ?thesis using True by (simp add: char_upper_def is_space_def Let_def) arith
next
  case False
  then show ?thesis unfolding char_upper_def by (simp only: if_False)
qed

lemma normalize_error_code_again:
  "normalize_error_code (py_upper (py_strip s)) = [] \<longleftrightarrow> py_strip s = []"
proof -
  have "list_all is_space (py_strip s) \<longleftrightarrow> py_strip s = []"
    by (metis last_in_set last_py_strip list.pred_inject(1) list_all_iff)
  then show ?thesis by (simp add: normalize_error_code_def py_upper_def py_strip_Nil [of "map _ _"] list_all_iff)
qed

lemma infer_error_code_cases:
  "infer_error_code A \<in> {''CREDENTIAL_ACCESS'', ''POLICY_BLOCKED'', ''TOOL_TIMEOUT'', ''RATE_LIMITED'', ''CONNECTION_RESET'',
     ''HTTP_429'', ''HTTP_500'', ''HTTP_502'', ''HTTP_503'', ''HTTP_504'', ''ARGS_INVALID'', ''TOOL_EXCEPTION''}"
  by (simp add: infer_error_code_def)

lemma normalize_retry_error_code: "normalize_error_code (retry_error_code result) \<noteq> []"
proof (cases "py_upper (py_strip (nr_error_code result)) \<noteq> [] \<and> py_upper (py_strip (nr_error_code result)) \<noteq> ''TOOL_RETURNED_NOT_OK''")
  case True
  then have "py_strip (nr_error_code result) \<noteq> []" by (auto simp: py_upper_def)
  with True show ?thesis using normalize_error_code_again by (simp only: retry_error_code_def Let_def if_True not_False_eq_True simp_thms)
next
  case False
  then have r: "retry_error_code result = infer_error_code
      (list_ex (\<lambda>token. py_contains token (py_lower (case nr_error result of None \<Rightarrow> [] | Some e \<Rightarrow> e))))"
    by (simp only: retry_error_code_def Let_def if_False)
  have "list_all (\<lambda>code. normalize_error_code code \<noteq> [])
      [''CREDENTIAL_ACCESS'', ''POLICY_BLOCKED'', ''TOOL_TIMEOUT'', ''RATE_LIMITED'', ''CONNECTION_RESET'',
       ''HTTP_429'', ''HTTP_500'', ''HTTP_502'', ''HTTP_503'', ''HTTP_504'', ''ARGS_INVALID'', ''TOOL_EXCEPTION'']"
    by code_simp
  then show ?thesis using infer_error_code_cases unfolding r list_all_iff set_simps by blast
qed

lemma forbidden_not_allowed: "set FORBIDDEN_RETRY_ERRORS \<inter> set ALLOWED_RETRY_ERRORS = {}"
  by code_simp

lemma should_retry_iff:
  assumes "0 \<le> en_retry_count node"
  shows "rd_retry_allowed (should_retry_tool_failure node contract code msg config (Some global_max) ok) \<longleftrightarrow>
     ok \<and> (\<exists>c. contract = Some c \<and> ct_idempotent c \<and> ct_side_effect c \<in> {''read'', ''none''}
            \<and> (normalize_error_code code = [] \<or> normalize_error_code code \<in> set ALLOWED_RETRY_ERRORS)
            \<and> en_retry_count node < min (max 0 (ct_max_retries c)) (max 0 global_max))"
proof (cases contract)
  case (Some c)
  let ?code = "normalize_error_code code"
  define m where "m = min (max 0 (ct_max_retries c)) (max 0 global_max)"
  have left: "rd_retry_allowed (should_retry_tool_failure node contract code msg config (Some global_max) ok) \<longleftrightarrow>
     ok \<and> ?code \<notin> set FORBIDDEN_RETRY_ERRORS \<and> ct_idempotent c \<and>
     (if ct_side_effect c = [] then ''unknown'' else ct_side_effect c) \<in> set RETRYABLE_SIDE_EFFECTS \<and>
     \<not> (?code \<noteq> [] \<and> ?code \<notin> set ALLOWED_RETRY_ERRORS) \<and> \<not> m \<le> en_retry_count node \<and> \<not> m \<le> 0"
    by (simp add: should_retry_tool_failure_def Some Let_def refuse_def m_def [symmetric])
  have empty: "[] \<notin> set FORBIDDEN_RETRY_ERRORS" by code_simp
  have effect: "(if ct_side_effect c = [] then ''unknown'' else ct_side_effect c) \<in> set RETRYABLE_SIDE_EFFECTS \<longleftrightarrow>
      ct_side_effect c \<in> {''read'', ''none''}"
    by (simp add: RETRYABLE_SIDE_EFFECTS_def)
  have code: "?code \<notin> set FORBIDDEN_RETRY_ERRORS \<and> \<not> (?code \<noteq> [] \<and> ?code \<notin> set ALLOWED_RETRY_ERRORS) \<longleftrightarrow>
      ?code = [] \<or> ?code \<in> set ALLOWED_RETRY_ERRORS"
    using empty forbidden_not_allowed by (metis disjoint_iff)
  have count: "\<not> m \<le> en_retry_count node \<and> \<not> m \<le> 0 \<longleftrightarrow> en_retry_count node < m" using assms by linarith
  have right: "(\<exists>c'. contract = Some c' \<and> P c') \<longleftrightarrow> P c" for P by (simp add: Some)
  show ?thesis unfolding left effect right m_def [symmetric] count [symmetric] code [symmetric] by blast
qed (simp add: should_retry_tool_failure_def refuse_def Let_def)

text \<open>The exact condition under which the loop repeats a call. The inferred code is never empty, so that the
  policy's acceptance of an empty code plays no role here.\<close>

lemma decide_retry_iff:
  assumes "0 \<le> en_retry_count node"
  shows "rd_retry_allowed (decide_retry env node result) \<longleftrightarrow>
    budget_ok env False node
    \<and> (\<exists>c. contract_of (re_extensions env) (re_contracts env) (en_tool node) = Some c \<and>
         en_retry_count node < min (max 1 (ct_max_retries c)) (max 0 (re_max_retries_per_node env)))
    \<and> is_read_only_call (re_extensions env) (re_contracts env) (en_tool node) (en_args node) []
    \<and> normalize_error_code (retry_error_code result) \<in> set ALLOWED_RETRY_ERRORS"
  using normalize_retry_error_code [of result]
  unfolding decide_retry_def Let_def should_retry_iff [OF assms]
  by (auto simp: get_retry_contract_def split: option.splits if_splits)

text \<open>A call is repeated exactly when the budget allows it, the tool has a contract, the call is read-only,
  the error is one of the transient errors, and fewer than the allowed number of repetitions were made (at
  least one by contract for a read, and at most the configured number). Forbidden errors are never among the
  transient ones.\<close>

theorem retry_granted_iff:
  assumes "0 \<le> en_retry_count node"
  shows "(rd_retry_allowed (decide_retry env node result) \<longleftrightarrow>
      budget_ok env False node
      \<and> (\<exists>c. contract_of (re_extensions env) (re_contracts env) (en_tool node) = Some c \<and>
           en_retry_count node < min (max 1 (ct_max_retries c)) (max 0 (re_max_retries_per_node env)))
      \<and> is_read_only_call (re_extensions env) (re_contracts env) (en_tool node) (en_args node) []
      \<and> normalize_error_code (retry_error_code result) \<in> set ALLOWED_RETRY_ERRORS)
    \<and> set FORBIDDEN_RETRY_ERRORS \<inter> set ALLOWED_RETRY_ERRORS = {}"
  using decide_retry_iff [OF assms] forbidden_not_allowed by blast

text \<open>A small environment to evaluate in: one tool that may read, whose first attempts time out.\<close>

definition demo_retry_env :: retry_env where
  "demo_retry_env =
     \<lparr>re_single_node_timeout_ms = 1000, re_max_retries_per_node = 2, re_extensions = None,
      re_contracts = [(''probe'', (ToolContract ''probe'')\<lparr>ct_read_only_actions := [''read'']\<rparr>)], re_registry = [],
      re_handlers = (\<lambda>node name. if name = ''probe'' then Some (\<lambda>arguments. Inr (PDict [(''ok'', PBool True)])) else None),
      re_cancelled = (\<lambda>node. False), re_timed_out = (\<lambda>node. en_retry_count node = 0), re_budget = None,
      re_clock = (\<lambda>after_backoff node. 0)\<rparr>"

definition demo_read :: llm_tool_call where
  "demo_read = (LLMToolCall ''c1'' ''probe'' [(''action'', PStr ''read'')])\<lparr>tc_step_id := ''s1''\<rparr>"

definition demo_write :: llm_tool_call where
  "demo_write = (LLMToolCall ''c2'' ''probe'' [(''action'', PStr ''write'')])\<lparr>tc_step_id := ''s2'', tc_depends_on := [''s1'']\<rparr>"

lemma demo_read_only:
  "is_read_only_call None (re_contracts demo_retry_env) ''probe'' [(''action'', PStr ''read'')] []"
  "\<not> is_read_only_call None (re_contracts demo_retry_env) ''probe'' [(''action'', PStr ''write'')] []"
  by code_simp+

theorem retry_granted_iff_witness:
  "rd_retry_allowed (decide_retry demo_retry_env (call_node demo_read)
       (normalize_read_timeout_for_retry demo_retry_env (call_node demo_read) (run_node demo_retry_env (call_node demo_read))))
   \<and> \<not> rd_retry_allowed (decide_retry demo_retry_env (call_node demo_write) (run_node demo_retry_env (call_node demo_write)))"
proof -
  let ?r = "call_node demo_read" and ?w = "call_node demo_write"
  have args: "en_args ?r = [(''action'', PStr ''read'')]" "en_args ?w = [(''action'', PStr ''write'')]"
    "en_tool ?r = ''probe''" "en_tool ?w = ''probe''" "en_retry_count ?r = 0" "en_retry_count ?w = 0"
    by code_simp+
  have env: "re_extensions demo_retry_env = None" "re_max_retries_per_node demo_retry_env = 2" by (simp_all add: demo_retry_env_def)
  have c: "contract_of None (re_contracts demo_retry_env) ''probe'' = Some ((ToolContract ''probe'')\<lparr>ct_read_only_actions := [''read'']\<rparr>)"
    by code_simp
  have code: "normalize_error_code (retry_error_code (normalize_read_timeout_for_retry demo_retry_env ?r (run_node demo_retry_env ?r)))
      \<in> set ALLOWED_RETRY_ERRORS" by code_simp
  have budget: "budget_ok demo_retry_env False ?r" by (simp add: budget_ok_def demo_retry_env_def)
  show ?thesis
    using retry_granted_iff [of ?r demo_retry_env] retry_granted_iff [of ?w demo_retry_env]
      code budget c demo_read_only by (simp add: args env)
qed

section \<open>The attempts of one call\<close>

lemma normalize_read_timeout_success [simp]:
  "nr_success (normalize_read_timeout_for_retry env node result) = nr_success result"
  by (simp add: normalize_read_timeout_for_retry_def)

lemma retried_result_success [simp]: "nr_success (retried_result env node decision) = nr_success (run_node env node)"
  by (simp add: retried_result_def Let_def)

text \<open>One round of the loop: it stops, or makes the next attempt.\<close>

lemma maybe_retry_node_round:
  assumes "maybe_retry_node env node result extras = (final, extras', attempts)"
  obtains "nr_success result" "final = result" "attempts = []"
    | "\<not> nr_success result" "final = normalize_read_timeout_for_retry env node result" "attempts = []"
    | node' decision extras1 rest where "\<not> nr_success result"
        "node' = node\<lparr>en_retry_count := en_retry_count node + 1\<rparr>"
        "decision = decide_retry env node (normalize_read_timeout_for_retry env node result)" "rd_retry_allowed decision"
        "maybe_retry_node env node' (retried_result env node' decision) extras1 = (final, extras', rest)"
        "attempts = node' # rest"
proof (cases "nr_success result")
  case True
  with assms have "final = result \<and> attempts = []" by (subst (asm) maybe_retry_node.simps) simp
  with True show thesis by (intro that(1)) auto
next
  case False
  let ?d = "decide_retry env node (normalize_read_timeout_for_retry env node result)"
  let ?node' = "node\<lparr>en_retry_count := en_retry_count node + 1\<rparr>"
  obtain i extras1 where rec: "record_retry_decision node ?d extras = (i, extras1)" by (metis prod.exhaust)
  show thesis
  proof (cases "rd_retry_allowed ?d \<and> budget_ok env True node")
    case True
    let ?e = "record_retry_result ?node' (retried_result env ?node' ?d) i extras1"
    obtain f e rest where next_round: "maybe_retry_node env ?node' (retried_result env ?node' ?d) ?e = (f, e, rest)"
      by (metis prod.exhaust)
    from assms False True have "(final, extras', attempts) = (f, e, ?node' # rest)"
      by (subst (asm) maybe_retry_node.simps) (simp add: Let_def rec next_round)
    with next_round True False show thesis by (intro that(3) [of ?node' ?d ?e rest]) auto
  next
    case stop: False
    from assms False stop have "final = normalize_read_timeout_for_retry env node result \<and> attempts = []"
      by (subst (asm) maybe_retry_node.simps) (auto simp: Let_def rec split: if_splits)
    with False show thesis by (intro that(2)) auto
  qed
qed

abbreviation attempt :: "exec_node \<Rightarrow> int \<Rightarrow> exec_node" where
  "attempt node k \<equiv> node\<lparr>en_retry_count := k\<rparr>"

text \<open>The contract and the classification do not depend on the retry count.\<close>

definition retry_limit :: "retry_env \<Rightarrow> exec_node \<Rightarrow> int" where
  "retry_limit env node =
     (case contract_of (re_extensions env) (re_contracts env) (en_tool node) of
        None \<Rightarrow> 0
      | Some c \<Rightarrow>
          if is_read_only_call (re_extensions env) (re_contracts env) (en_tool node) (en_args node) []
          then min (max 1 (ct_max_retries c)) (max 0 (re_max_retries_per_node env)) else 0)"

lemma retry_limit_attempt [simp]: "retry_limit env (attempt node k) = retry_limit env node"
  by (simp add: retry_limit_def split: option.splits)

lemma attempts_Cons:
  assumes "rest = map (\<lambda>k. attempt node (c + 1 + int k)) [0..<length rest]"
  shows "attempt node c # rest = map (\<lambda>k. attempt node (c + int k)) [0..<Suc (length rest)]"
proof (rule nth_equalityI)
  fix i assume i: "i < length (attempt node c # rest)"
  have "rest ! j = attempt node (c + 1 + int j)" if "j < length rest" for j
    by (subst assms) (use that in simp)
  with i show "(attempt node c # rest) ! i = map (\<lambda>k. attempt node (c + int k)) [0..<Suc (length rest)] ! i"
    by (cases i) (simp_all del: upt_Suc add: add.assoc)
qed simp

lemma decide_retry_limit:
  "0 \<le> en_retry_count node \<Longrightarrow> rd_retry_allowed (decide_retry env node result) \<Longrightarrow>
     en_retry_count node < retry_limit env node"
  by (auto simp: decide_retry_iff retry_limit_def)

lemma retry_limit_bounds: "0 \<le> retry_limit env node" "retry_limit env node \<le> max 0 (re_max_retries_per_node env)"
  by (auto simp: retry_limit_def split: option.splits)

lemma maybe_retry_attempts:
  assumes "maybe_retry_node env node result extras = (final, extras', attempts)" and "0 \<le> en_retry_count node"
  shows "attempts = map (\<lambda>k. attempt node (en_retry_count node + 1 + int k)) [0..<length attempts]
    \<and> (attempts \<noteq> [] \<longrightarrow> en_retry_count node + int (length attempts) \<le> retry_limit env node)
    \<and> nr_success final = nr_success (if attempts = [] then result else run_node env (last attempts))
    \<and> (attempts \<noteq> [] \<longrightarrow> \<not> nr_success result) \<and> (\<forall>a \<in> set (butlast attempts). \<not> nr_success (run_node env a))"
  using assms
proof (induction "length attempts" arbitrary: node result extras attempts)
  case 0
  from 0(2) show ?case using 0(1) by (cases rule: maybe_retry_node_round) auto
next
  case (Suc n)
  from Suc.prems(1) show ?case
  proof (cases rule: maybe_retry_node_round)
    case (3 node' decision extras1 rest)
    have "n = length rest" "0 \<le> en_retry_count node'" using Suc.hyps(2) Suc.prems(2) 3 by simp_all
    note ih = Suc.hyps(1) [OF this(1) 3(5) this(2)]
    have limit: "en_retry_count node < retry_limit env node"
      using decide_retry_limit [OF Suc.prems(2)] 3 by simp
    have rest: "rest = map (\<lambda>k. attempt node (en_retry_count node + 1 + 1 + int k)) [0..<length rest]"
      using conjunct1 [OF ih] unfolding 3(2) by simp
    have "attempts = map (\<lambda>k. attempt node (en_retry_count node + 1 + int k)) [0..<length attempts]"
      using attempts_Cons [OF rest] unfolding 3(6) 3(2) by simp
    moreover have "en_retry_count node + int (length attempts) \<le> retry_limit env node"
      using ih limit unfolding 3(6) by (cases "rest = []") (simp_all add: 3(2))
    moreover have "nr_success final = nr_success (run_node env (last attempts))"
      using ih unfolding 3(6) by (cases "rest = []") simp_all
    moreover have "\<forall>a \<in> set (butlast attempts). \<not> nr_success (run_node env a)"
      using ih unfolding 3(6) by (cases "rest = []") simp_all
    ultimately show ?thesis using 3(1,6) by simp
  qed (use Suc.hyps(2) in simp_all)
qed

text \<open>C5: One tool call makes its attempts one after the other, unchanged except for the attempt counter: the first
  attempt always, further ones only after failures, at most the retry limit, and none after a success. The
  result is that of the last attempt. A call that is not read-only is executed exactly once, whatever
  happens.\<close>

theorem write_is_never_repeated:
  assumes "execute_one env tc extras = (result, extras', attempts)"
  shows "attempts = map (\<lambda>k. attempt (call_node tc) (int k)) [0..<length attempts]
    \<and> 1 \<le> length attempts \<and> int (length attempts) \<le> 1 + max 0 (re_max_retries_per_node env)
    \<and> (\<not> is_read_only_call (re_extensions env) (re_contracts env) (canonical_tool_id (tc_name tc)) (tc_arguments tc) []
         \<longrightarrow> attempts = [call_node tc])
    \<and> tr_ok result = nr_success (run_node env (last attempts))
    \<and> (\<forall>a \<in> set (butlast attempts). \<not> nr_success (run_node env a))"
proof -
  let ?node = "call_node tc"
  let ?first = "normalize_read_timeout_for_retry env ?node (run_node env ?node)"
  have zero: "en_retry_count ?node = 0" by (simp add: call_node_def ExecutionNode_def)
  then have self: "attempt ?node 0 = ?node" by simp
  have ok: "tr_ok (from_tool_result r i) = nr_success r" for r i by (simp add: from_tool_result_def Let_def)
  obtain final rest where final: "result = from_tool_result final (tc_id tc)" and attempts: "attempts = ?node # rest"
    and cases: "rest = [] \<and> final = ?first \<or> (\<exists>e e'. maybe_retry_node env ?node ?first e = (final, e', rest))"
    using assms by (auto simp: execute_one_def Let_def split: if_splits prod.splits)
  have rest: "rest = map (\<lambda>k. attempt ?node (1 + int k)) [0..<length rest]
      \<and> (rest \<noteq> [] \<longrightarrow> int (length rest) \<le> retry_limit env ?node)
      \<and> nr_success final = nr_success (if rest = [] then ?first else run_node env (last rest))
      \<and> (rest \<noteq> [] \<longrightarrow> \<not> nr_success ?first) \<and> (\<forall>a \<in> set (butlast rest). \<not> nr_success (run_node env a))"
    using cases
  proof
    assume "\<exists>e e'. maybe_retry_node env ?node ?first e = (final, e', rest)"
    then obtain e e' where "maybe_retry_node env ?node ?first e = (final, e', rest)" by blast
    from maybe_retry_attempts [OF this] show ?thesis by (simp add: zero)
  qed auto
  have list: "attempts = map (\<lambda>k. attempt ?node (int k)) [0..<length attempts]"
    using attempts_Cons [where node = ?node and c = 0 and rest = rest] conjunct1 [OF rest] unfolding attempts by (simp add: self)
  have read: "rest = []" if "\<not> is_read_only_call (re_extensions env) (re_contracts env) (canonical_tool_id (tc_name tc)) (tc_arguments tc) []"
  proof -
    from that have "retry_limit env ?node = 0"
      by (simp add: retry_limit_def call_node_def ExecutionNode_def split: option.splits)
    with rest show ?thesis by auto
  qed
  have bound: "int (length attempts) \<le> 1 + max 0 (re_max_retries_per_node env)"
    using rest retry_limit_bounds [of env ?node] unfolding attempts by (cases "rest = []") simp_all
  have success: "tr_ok result = nr_success (run_node env (last attempts))"
    using rest unfolding attempts final ok by (cases "rest = []") simp_all
  have failed: "\<forall>a \<in> set (butlast attempts). \<not> nr_success (run_node env a)"
    using rest unfolding attempts by (cases "rest = []") simp_all
  have "1 \<le> length attempts" by (simp add: attempts)
  moreover have "attempts = [?node]" if "rest = []" using that by (simp add: attempts)
  ultimately show ?thesis using list read bound success failed by blast
qed

theorem write_is_never_repeated_witness:
  "\<exists>result extras'. execute_one demo_retry_env demo_write [] = (result, extras', [call_node demo_write])"
proof -
  obtain result extras' attempts where run: "execute_one demo_retry_env demo_write [] = (result, extras', attempts)"
    by (metis prod.exhaust)
  have "canonical_tool_id (tc_name demo_write) = ''probe''" "tc_arguments demo_write = [(''action'', PStr ''write'')]"
    "re_extensions demo_retry_env = None" by code_simp+
  with write_is_never_repeated [OF run] demo_read_only(2) have "attempts = [call_node demo_write]" by simp
  with run show ?thesis by blast
qed

end
