(* ===== verification/Retry_Interleaving.thy ===== *)
theory Retry_Interleaving
  imports Tool_Retry
begin

text \<open>
  Concurrent reads. A group of read-only calls runs as asyncio tasks (\<open>asyncio.gather\<close> in
  \<open>StreamingToolExecutor._execute_independent_calls\<close>), each of them \<open>_execute_one\<close> with its retry loop. The
  tasks share \<open>ctx.extras\<close> and can be interleaved where the code awaits: while the tool runs, and during the
  back-off. A task is a program counter at one of these points, and a step of the group runs one task from
  one await to the next. The semaphore of the group only removes interleavings, so it is not part of the
  step relation; what is shown for all interleavings holds for those it admits.
\<close>

section \<open>Tasks\<close>

datatype task_pc =
    Running exec_node "(retry_decision \<times> nat) option"
  | Sleeping exec_node node_result retry_decision nat
  | Finished node_result

text \<open>From a result to the next await: the head of the loop of \<open>_maybe_retry_node\<close>.\<close>

definition loop_head :: "retry_env \<Rightarrow> exec_node \<Rightarrow> node_result \<Rightarrow> pydict \<Rightarrow> task_pc \<times> pydict" where
  "loop_head env node result extras =
     (if nr_success result then (Finished result, extras)
      else
        let result1 = normalize_read_timeout_for_retry env node result;
            decision = decide_retry env node result1;
            (event_index, extras1) = record_retry_decision node decision extras
        in if rd_retry_allowed decision then (Sleeping node result1 decision event_index, extras1)
           else (Finished result1, extras1))"

fun retry_task_step :: "retry_env \<Rightarrow> task_pc \<Rightarrow> pydict \<Rightarrow> task_pc \<times> pydict" where
  "retry_task_step env (Running node None) extras =
     (let result = normalize_read_timeout_for_retry env node (run_node env node) in
      if nr_success result then (Finished result, extras)
      else if has_safe_read_recovery result
      then (Finished result, set_retry_events (retry_events extras @ [safe_recovery_event node]) extras)
      else loop_head env node result extras)"
| "retry_task_step env (Running node (Some (decision, event_index))) extras =
     (let result = retried_result env node decision
      in loop_head env node result (record_retry_result node result event_index extras))"
| "retry_task_step env (Sleeping node result decision event_index) extras =
     (if budget_ok env True node
      then (Running (node\<lparr>en_retry_count := en_retry_count node + 1\<rparr>) (Some (decision, event_index)), extras)
      else (Finished result, record_retry_aborted event_index ''budget_exceeded_after_backoff'' extras))"
| "retry_task_step env (Finished result) extras = (Finished result, extras)"

definition finished :: "task_pc \<Rightarrow> bool" where
  "finished pc \<longleftrightarrow> (\<exists>result. pc = Finished result)"

type_synonym group_state = "task_pc list \<times> pydict"

inductive group_step :: "retry_env \<Rightarrow> group_state \<Rightarrow> group_state \<Rightarrow> bool" for env where
  step: "i < length pcs \<Longrightarrow> \<not> finished (pcs ! i) \<Longrightarrow> retry_task_step env (pcs ! i) extras = (pc, extras') \<Longrightarrow>
    group_step env (pcs, extras) (pcs[i := pc], extras')"

inductive_cases group_stepE: "group_step env s t"

definition start_group :: "llm_tool_call list \<Rightarrow> task_pc list" where
  "start_group calls = map (\<lambda>tc. Running (call_node tc) None) calls"

section \<open>The result of a task\<close>

text \<open>The shared records influence no result: neither the decisions nor the attempts look at them.\<close>

lemma maybe_retry_extras:
  "fst (maybe_retry_node env node result extras) = fst (maybe_retry_node env node result extras')
   \<and> snd (snd (maybe_retry_node env node result extras)) = snd (snd (maybe_retry_node env node result extras'))"
proof (induction env node result extras arbitrary: extras' rule: maybe_retry_node.induct)
  case (1 env node result extras)
  let ?d = "decide_retry env node (normalize_read_timeout_for_retry env node result)"
  let ?node' = "node\<lparr>en_retry_count := en_retry_count node + 1\<rparr>"
  obtain i e where rec: "record_retry_decision node ?d extras = (i, e)" by (metis prod.exhaust)
  obtain i' e' where rec': "record_retry_decision node ?d extras' = (i', e')" by (metis prod.exhaust)
  show ?case
  proof (cases "nr_success result \<or> \<not> rd_retry_allowed ?d \<or> \<not> budget_ok env True node")
    case True
    then show ?thesis
      by (subst (1 2 3 4) maybe_retry_node.simps) (auto simp: Let_def rec rec')
  next
    case False
    have "fst (maybe_retry_node env ?node' (retried_result env ?node' ?d)
             (record_retry_result ?node' (retried_result env ?node' ?d) i e)) =
          fst (maybe_retry_node env ?node' (retried_result env ?node' ?d)
             (record_retry_result ?node' (retried_result env ?node' ?d) i' e')) \<and>
          snd (snd (maybe_retry_node env ?node' (retried_result env ?node' ?d)
             (record_retry_result ?node' (retried_result env ?node' ?d) i e))) =
          snd (snd (maybe_retry_node env ?node' (retried_result env ?node' ?d)
             (record_retry_result ?node' (retried_result env ?node' ?d) i' e')))"
      by (rule "1.IH") (use False rec in simp_all)
    with False show ?thesis
      by (subst (1 2 3 4) maybe_retry_node.simps) (simp add: Let_def rec rec' case_prod_unfold)
  qed
qed

definition loop_result :: "retry_env \<Rightarrow> exec_node \<Rightarrow> node_result \<Rightarrow> node_result" where
  "loop_result env node result = fst (maybe_retry_node env node result [])"

lemma loop_result_extras: "fst (maybe_retry_node env node result extras) = loop_result env node result"
  unfolding loop_result_def using maybe_retry_extras by blast

lemma loop_result_unfold:
  "loop_result env node result =
     (if nr_success result then result
      else
        let result1 = normalize_read_timeout_for_retry env node result;
            decision = decide_retry env node result1
        in if \<not> rd_retry_allowed decision \<or> \<not> budget_ok env True node then result1
           else
             let node' = node\<lparr>en_retry_count := en_retry_count node + 1\<rparr>
             in loop_result env node' (retried_result env node' decision))"
proof -
  let ?d = "decide_retry env node (normalize_read_timeout_for_retry env node result)"
  obtain i e where rec: "record_retry_decision node ?d [] = (i, e)" by (metis prod.exhaust)
  show ?thesis
    by (subst loop_result_def, subst maybe_retry_node.simps)
      (simp add: Let_def rec loop_result_extras case_prod_unfold)
qed

lemma loop_result_success [simp]: "nr_success result \<Longrightarrow> loop_result env node result = result"
  by (subst loop_result_unfold) simp

text \<open>What a task will return, read off its program counter.\<close>

fun outcome :: "retry_env \<Rightarrow> task_pc \<Rightarrow> node_result" where
  "outcome env (Running node None) =
     (let result = normalize_read_timeout_for_retry env node (run_node env node)
      in if \<not> nr_success result \<and> has_safe_read_recovery result then result else loop_result env node result)"
| "outcome env (Running node (Some (decision, _))) = loop_result env node (retried_result env node decision)"
| "outcome env (Sleeping node result decision _) =
     (if budget_ok env True node
      then let node' = node\<lparr>en_retry_count := en_retry_count node + 1\<rparr>
           in loop_result env node' (retried_result env node' decision)
      else result)"
| "outcome env (Finished result) = result"

lemma loop_head_outcome: "outcome env (fst (loop_head env node result extras)) = loop_result env node result"
  by (subst loop_result_unfold) (simp add: loop_head_def Let_def split: prod.splits)

lemma retry_task_step_outcome: "outcome env (fst (retry_task_step env pc extras)) = outcome env pc"
proof (induction env pc extras rule: retry_task_step.induct)
  case (1 env node extras)
  then show ?case by (simp add: Let_def loop_head_outcome)
qed (simp_all add: Let_def loop_head_outcome)

lemma execute_one_outcome:
  "fst (execute_one env tc extras) = from_tool_result (outcome env (Running (call_node tc) None)) (tc_id tc)"
  by (simp add: execute_one_def Let_def loop_result_extras case_prod_unfold)

section \<open>All interleavings\<close>

lemma group_step_outcomes:
  assumes "group_step env (pcs, extras) (pcs', extras')"
  shows "map (outcome env) pcs' = map (outcome env) pcs"
  using assms
proof (cases rule: group_step.cases)
  case (step i pc)
  have "outcome env pc = outcome env (pcs ! i)"
    using retry_task_step_outcome [of env "pcs ! i" extras] step(4) by simp
  then show ?thesis unfolding step(1) map_update
    by (metis list_update_id map_update nth_map step(2) length_map)
qed

lemma group_run_outcomes:
  "(group_step env)\<^sup>*\<^sup>* (pcs, extras) (pcs', extras') \<Longrightarrow> map (outcome env) pcs' = map (outcome env) pcs"
  by (induction rule: rtranclp_induct2) (simp_all add: group_step_outcomes)

text \<open>A step of the group lowers the number of awaits that the tasks still have before them.\<close>

fun awaits :: "retry_env \<Rightarrow> task_pc \<Rightarrow> nat" where
  "awaits env (Running node _) = 2 * nat (retry_limit env node - en_retry_count node) + 2"
| "awaits env (Sleeping node _ _ _) = 2 * nat (retry_limit env node - en_retry_count node) + 1"
| "awaits env (Finished _) = 0"

text \<open>A task sleeps only before an attempt that it may make.\<close>

fun pc_ok :: "retry_env \<Rightarrow> task_pc \<Rightarrow> bool" where
  "pc_ok env (Running node _) = (0 \<le> en_retry_count node)"
| "pc_ok env (Sleeping node _ _ _) = (0 \<le> en_retry_count node \<and> en_retry_count node < retry_limit env node)"
| "pc_ok env (Finished _) = True"

lemma loop_head_ok:
  assumes "0 \<le> en_retry_count node"
  shows "pc_ok env (fst (loop_head env node result extras))"
    and "awaits env (fst (loop_head env node result extras)) < awaits env (Running node x)"
  using assms decide_retry_limit [OF assms, of env]
  by (auto simp: loop_head_def Let_def split: prod.splits)

lemma retry_task_step_ok:
  assumes "pc_ok env pc"
  shows "pc_ok env (fst (retry_task_step env pc extras))"
    and "\<not> finished pc \<Longrightarrow> awaits env (fst (retry_task_step env pc extras)) < awaits env pc"
proof -
  have "pc_ok env (fst (retry_task_step env pc extras)) \<and>
     (\<not> finished pc \<longrightarrow> awaits env (fst (retry_task_step env pc extras)) < awaits env pc)"
    using assms
  proof (induction env pc extras rule: retry_task_step.induct)
    case (1 env node extras)
    then show ?case using loop_head_ok [of node env] by (auto simp: Let_def)
  next
    case (2 env node decision event_index extras)
    then show ?case using loop_head_ok [of node env] by (auto simp: Let_def)
  next
    case (3 env node result decision event_index extras)
    then show ?case by auto
  qed (simp add: finished_def)
  then show "pc_ok env (fst (retry_task_step env pc extras))"
    "\<not> finished pc \<Longrightarrow> awaits env (fst (retry_task_step env pc extras)) < awaits env pc" by auto
qed

lemma sum_list_update_less:
  "i < length xs \<Longrightarrow> f y < (f (xs ! i) :: nat) \<Longrightarrow> sum_list (map f (xs[i := y])) < sum_list (map f xs)"
  by (induction xs arbitrary: i) (auto split: nat.splits)

lemma group_run_bounded:
  assumes "(group_step env ^^ n) (pcs, extras) (pcs', extras')" and "list_all (pc_ok env) pcs"
  shows "list_all (pc_ok env) pcs' \<and> sum_list (map (awaits env) pcs') + n \<le> sum_list (map (awaits env) pcs)"
  using assms
proof (induction n arbitrary: pcs' extras')
  case (Suc n)
  from Suc.prems(1) obtain pcs1 extras1 where
    run: "(group_step env ^^ n) (pcs, extras) (pcs1, extras1)" and last: "group_step env (pcs1, extras1) (pcs', extras')"
    by (auto elim!: relpowp_Suc_E)
  note ih = Suc.IH [OF run Suc.prems(2)]
  from last show ?case
  proof (cases rule: group_step.cases)
    case (step i pc)
    have ok: "pc_ok env (pcs1 ! i)" using ih step(2) by (simp add: list_all_length)
    have pc: "pc_ok env pc" "awaits env pc < awaits env (pcs1 ! i)"
      using retry_task_step_ok [OF ok, of extras1] step by simp_all
    have "list_all (pc_ok env) pcs'"
      using ih pc(1) unfolding step(1) by (auto simp: list_all_iff dest: set_update_subset_insert [THEN subsetD])
    moreover have "sum_list (map (awaits env) pcs') < sum_list (map (awaits env) pcs1)"
      unfolding step(1) using pc(2) step(2) by (rule sum_list_update_less [rotated])
    ultimately show ?thesis using ih by simp
  qed
qed simp

lemma start_group_ok: "list_all (pc_ok env) (start_group calls)"
  by (simp add: start_group_def list_all_iff call_node_def ExecutionNode_def)

text \<open>C6: Whatever the interleaving of a group of concurrent calls, the result of each call is that of executing it
  alone, and the group is finished after a bounded number of steps: twice the retry limit of each call plus
  two, with no task waiting for another.\<close>

theorem concurrent_calls_are_isolated:
  assumes run: "(group_step env ^^ n) (start_group calls, extras) (pcs, extras')"
  shows "length pcs = length calls
    \<and> (\<forall>i < length calls. \<forall>result. pcs ! i = Finished result \<longrightarrow>
         from_tool_result result (tc_id (calls ! i)) = fst (execute_one env (calls ! i) extras))
    \<and> int n \<le> (\<Sum>tc \<leftarrow> calls. 2 * retry_limit env (call_node tc) + 2)
    \<and> ((\<nexists>s. group_step env (pcs, extras') s) \<longleftrightarrow> list_all finished pcs)"
proof -
  from run have "(group_step env)\<^sup>*\<^sup>* (start_group calls, extras) (pcs, extras')" by (rule relpowp_imp_rtranclp)
  then have outcomes: "map (outcome env) pcs = map (outcome env) (start_group calls)" by (rule group_run_outcomes)
  then have len: "length pcs = length calls" by (metis length_map start_group_def)
  have results: "from_tool_result result (tc_id (calls ! i)) = fst (execute_one env (calls ! i) extras)"
    if "i < length calls" "pcs ! i = Finished result" for i result
  proof -
    have "outcome env (pcs ! i) = outcome env (start_group calls ! i)"
      using outcomes that(1) len by (metis length_map nth_map start_group_def)
    then have "result = outcome env (Running (call_node (calls ! i)) None)"
      using that by (simp add: start_group_def)
    then show ?thesis by (simp add: execute_one_outcome)
  qed
  have zero: "en_retry_count (call_node tc) = 0" for tc by (simp add: call_node_def ExecutionNode_def)
  have "int (sum_list (map (awaits env) (start_group calls))) = (\<Sum>tc \<leftarrow> calls. 2 * retry_limit env (call_node tc) + 2)"
    by (induction calls) (simp_all add: start_group_def zero retry_limit_bounds)
  then have bound: "int n \<le> (\<Sum>tc \<leftarrow> calls. 2 * retry_limit env (call_node tc) + 2)"
    using group_run_bounded [OF run start_group_ok] by linarith
  have "(\<exists>s. group_step env (pcs, extras') s) \<longleftrightarrow> \<not> list_all finished pcs"
  proof
    assume "\<not> list_all finished pcs"
    then obtain i where "i < length pcs" "\<not> finished (pcs ! i)" by (auto simp: list_all_length)
    moreover obtain pc e where "retry_task_step env (pcs ! i) extras' = (pc, e)" by (metis prod.exhaust)
    ultimately show "\<exists>s. group_step env (pcs, extras') s" by (blast intro: group_step.step)
  qed (auto simp: list_all_length elim: group_step.cases)
  with len results bound show ?thesis by blast
qed

text \<open>Two calls that both time out, run one after the other.\<close>

abbreviation (input) demo_calls :: "llm_tool_call list" where
  "demo_calls \<equiv> [demo_write, demo_write\<lparr>tc_id := ''c3''\<rparr>]"

lemma demo_write_step:
  "\<exists>r e. retry_task_step demo_retry_env (Running (call_node (demo_write\<lparr>tc_id := i\<rparr>)) None) extras = (Finished r, e)"
proof -
  let ?n = "call_node (demo_write\<lparr>tc_id := i\<rparr>)"
  have "canonical_tool_id ''probe'' = ''probe''" by code_simp
  then have n: "en_tool ?n = ''probe''" "en_args ?n = [(''action'', PStr ''write'')]" "en_retry_count ?n = 0"
    by (simp_all add: call_node_def ExecutionNode_def demo_write_def LLMToolCall_def)
  have "re_extensions demo_retry_env = None" by (simp add: demo_retry_env_def)
  with n decide_retry_iff [of ?n demo_retry_env] demo_read_only(2)
  have "\<not> rd_retry_allowed (decide_retry demo_retry_env ?n res)" for res by simp
  then have "\<exists>r e. loop_head demo_retry_env ?n res extras = (Finished r, e)" for res extras
    by (simp add: loop_head_def Let_def case_prod_unfold)
  then show ?thesis by (simp add: Let_def)
qed

lemma demo_group_run:
  "\<exists>r1 r2 extras'. (group_step demo_retry_env ^^ 2) (start_group demo_calls, []) ([Finished r1, Finished r2], extras')"
proof -
  let ?pc1 = "Running (call_node demo_write) None" and ?pc2 = "Running (call_node (demo_write\<lparr>tc_id := ''c3''\<rparr>)) None"
  have "demo_write = demo_write\<lparr>tc_id := ''c2''\<rparr>" by (simp add: demo_write_def LLMToolCall_def)
  with demo_write_step [of "''c2''"] obtain r1 e1 where s1: "retry_task_step demo_retry_env ?pc1 [] = (Finished r1, e1)" by metis
  obtain r2 e2 where s2: "retry_task_step demo_retry_env ?pc2 e1 = (Finished r2, e2)" using demo_write_step by blast
  have "group_step demo_retry_env ([?pc1, ?pc2], []) ([?pc1, ?pc2][0 := Finished r1], e1)"
    by (rule group_step.step) (use s1 in \<open>simp_all add: finished_def\<close>)
  moreover have "group_step demo_retry_env ([Finished r1, ?pc2], e1) ([Finished r1, ?pc2][1 := Finished r2], e2)"
    by (rule group_step.step) (use s2 in \<open>simp_all add: finished_def\<close>)
  ultimately have "(group_step demo_retry_env ^^ 2) (start_group demo_calls, []) ([Finished r1, Finished r2], e2)"
    by (auto simp: start_group_def numeral_2_eq_2)
  then show ?thesis by blast
qed

theorem concurrent_calls_are_isolated_witness:
  "\<exists>r1 r2 extras'. (group_step demo_retry_env ^^ 2) (start_group demo_calls, []) ([Finished r1, Finished r2], extras')
     \<and> from_tool_result r1 ''c2'' = fst (execute_one demo_retry_env demo_write [])
     \<and> from_tool_result r2 ''c3'' = fst (execute_one demo_retry_env (demo_write\<lparr>tc_id := ''c3''\<rparr>) [])"
proof -
  obtain r1 r2 extras' where run: "(group_step demo_retry_env ^^ 2) (start_group demo_calls, []) ([Finished r1, Finished r2], extras')"
    using demo_group_run by blast
  note r = concurrent_calls_are_isolated [OF run, THEN conjunct2, THEN conjunct1]
  have "tc_id demo_write = ''c2''" by (simp add: demo_write_def LLMToolCall_def)
  with r [rule_format, of 0 r1] r [rule_format, of 1 r2] run show ?thesis by auto
qed

section \<open>The audit records of a call\<close>

lemma retry_events_set [simp]: "retry_events (set_retry_events events extras) = events"
  by (cases events) (simp_all add: retry_events_def set_retry_events_def dget_dset py_or_def comp_def)

lemma retry_events_summary [simp]: "retry_events (dset ''retry_summary'' v extras) = retry_events extras"
  by (simp add: retry_events_def dget_dset)

abbreviation of_node :: "string \<Rightarrow> pydict \<Rightarrow> bool" where
  "of_node i e \<equiv> dget e ''node_id'' = PStr i"

definition events_of :: "string \<Rightarrow> pydict list \<Rightarrow> pydict list" where
  "events_of i events = filter (of_node i) events"

lemma last_event_split:
  assumes "last_event_of i events = Some k"
  obtains pre e post where "events = pre @ e # post" "length pre = k" "of_node i e" "\<forall>x \<in> set post. \<not> of_node i x"
proof -
  from assms [unfolded last_event_of_def find_Some_iff] obtain j where
    j: "j < length events" "k = length events - Suc j" "of_node i (events ! k)"
    "\<forall>m < j. \<not> of_node i (events ! (rev [0..<length events] ! m))"
    by (auto simp: rev_nth)
  have "\<not> of_node i x" if x: "x \<in> set (drop (Suc k) events)" for x
  proof -
    from x obtain m where m: "m < length events - Suc k" "x = events ! (Suc k + m)"
      by (auto simp: in_set_conv_nth)
    then have "length events - Suc (Suc k + m) < j" "rev [0..<length events] ! (length events - Suc (Suc k + m)) = Suc k + m"
      using j(1,2) by (simp_all add: rev_nth)
    with j(4) m(2) show ?thesis by metis
  qed
  moreover have "events = take k events @ events ! k # drop (Suc k) events" "length (take k events) = k"
    using j(1,2) by (simp_all add: id_take_nth_drop)
  ultimately show thesis using that j(3) by blast
qed

lemma last_event_splitI:
  assumes "of_node i e" "\<forall>x \<in> set post. \<not> of_node i x"
  shows "last_event_of i (pre @ e # post) = Some (length pre)"
  using assms
proof (induction post rule: rev_induct)
  case Nil
  then show ?case by (simp add: last_event_of_def)
next
  case (snoc x post)
  have "last_event_of i (events @ [x]) = last_event_of i events" if "\<not> of_node i x" for events
  proof -
    have "find (\<lambda>k. of_node i ((events @ [x]) ! k)) (rev [0..<length events]) =
        find (\<lambda>k. of_node i (events ! k)) (rev [0..<length events])"
      by (rule find_cong) (auto simp: nth_append)
    with that show ?thesis by (simp add: last_event_of_def)
  qed
  from this [of "pre @ e # post"] snoc show ?case by simp
qed

text \<open>Changing the last event of a node, or appending one: the events of the node, and of any other.\<close>

definition amend_last :: "('a \<Rightarrow> 'a) \<Rightarrow> 'a list \<Rightarrow> 'a list" where
  "amend_last f xs = (if xs = [] then [] else butlast xs @ [f (last xs)])"

lemma update_event:
  assumes last: "last_event_of i events = Some k" and f: "of_node i (f (events ! k))"
  shows "k < length events"
    and "events_of i (events[k := f (events ! k)]) = amend_last f (events_of i events)"
    and "last_event_of i (events[k := f (events ! k)]) = Some k"
    and "j \<noteq> i \<Longrightarrow> events_of j (events[k := f (events ! k)]) = events_of j events"
    and "j \<noteq> i \<Longrightarrow> last_event_of j (events[k := f (events ! k)]) = last_event_of j events"
proof -
  from last_event_split [OF last] obtain pre e post where
    ev: "events = pre @ e # post" "length pre = k" "of_node i e" and post: "\<forall>x \<in> set post. \<not> of_node i x" by metis
  have upd: "events[k := f (events ! k)] = pre @ f e # post" "events ! k = e"
    unfolding ev(1) ev(2) [symmetric] by simp_all
  have fe: "of_node i (f e)" using f upd(2) by simp
  have none: "filter (of_node i) post = []" using post by simp
  show "k < length events" using ev by simp
  show "events_of i (events[k := f (events ! k)]) = amend_last f (events_of i events)"
    unfolding upd(1) unfolding ev(1) by (simp add: events_of_def none ev(3) fe amend_last_def)
  show "last_event_of i (events[k := f (events ! k)]) = Some k"
    unfolding upd(1) using last_event_splitI [OF fe post, of pre] ev(2) by simp
  assume j: "j \<noteq> i"
  show "events_of j (events[k := f (events ! k)]) = events_of j events"
    unfolding upd(1) unfolding ev(1) using ev(3) fe j by (simp add: events_of_def)
  have "of_node j (events[k := f (events ! k)] ! m) \<longleftrightarrow> of_node j (events ! m)" if "m < length events" for m
    using that ev(3) fe j upd(2) by (cases "m = k") simp_all
  then show "last_event_of j (events[k := f (events ! k)]) = last_event_of j events"
    unfolding last_event_of_def by (intro find_cong) simp_all
qed

lemma append_event:
  assumes "of_node i e"
  shows "events_of i (events @ [e]) = events_of i events @ [e]" and "last_event_of i (events @ [e]) = Some (length events)"
    and "j \<noteq> i \<Longrightarrow> events_of j (events @ [e]) = events_of j events"
    and "j \<noteq> i \<Longrightarrow> last_event_of j (events @ [e]) = last_event_of j events"
proof -
  show "events_of i (events @ [e]) = events_of i events @ [e]" "j \<noteq> i \<Longrightarrow> events_of j (events @ [e]) = events_of j events"
    using assms by (simp_all add: events_of_def)
  show "last_event_of i (events @ [e]) = Some (length events)" using last_event_splitI [OF assms, of "[]" events] by simp
  assume "j \<noteq> i"
  with assms have "\<not> of_node j e" by simp
  moreover have "find (\<lambda>k. of_node j ((events @ [e]) ! k)) (rev [0..<length events]) =
      find (\<lambda>k. of_node j (events ! k)) (rev [0..<length events])"
    by (rule find_cong) (auto simp: nth_append)
  ultimately show "last_event_of j (events @ [e]) = last_event_of j events" by (simp add: last_event_of_def)
qed

lemma last_event_None: "last_event_of i events = None \<longleftrightarrow> events_of i events = []"
  by (auto simp: last_event_of_def events_of_def find_None_iff filter_empty_conv all_set_conv_all_nth [of events])

text \<open>What the three record operations do to the events of the node itself, and of another one.\<close>

definition decision_event :: "exec_node \<Rightarrow> retry_decision \<Rightarrow> pydict" where
  "decision_event node d = dupdate (decision_dict d) [(''node_id'', PStr (en_id node)), (''tool_id'', PStr (en_tool node))]"

definition exhausted_event :: "retry_decision \<Rightarrow> pydict \<Rightarrow> pydict" where
  "exhausted_event d e = dupdate e [(''exhausted'', PBool True), (''terminal_reason'', PStr (rd_reason d))]"

definition own_decision :: "exec_node \<Rightarrow> retry_decision \<Rightarrow> pydict list \<Rightarrow> pydict list" where
  "own_decision node d events =
     (if rd_reason d = ''max_retries_exhausted'' \<and> events \<noteq> [] then amend_last (exhausted_event d) events
      else events @ [decision_event node d])"

lemma record_decision_events:
  assumes "record_retry_decision node d extras = (k, extras')"
  shows "events_of (en_id node) (retry_events extras') = own_decision node d (events_of (en_id node) (retry_events extras))
    \<and> last_event_of (en_id node) (retry_events extras') = Some k
    \<and> (\<forall>j. j \<noteq> en_id node \<longrightarrow> events_of j (retry_events extras') = events_of j (retry_events extras)
         \<and> last_event_of j (retry_events extras') = last_event_of j (retry_events extras))"
proof (cases "rd_reason d = ''max_retries_exhausted'' \<and> last_event_of (en_id node) (retry_events extras) \<noteq> None")
  case True
  then obtain m where m: "last_event_of (en_id node) (retry_events extras) = Some m" by blast
  with assms True have r: "k = m" "retry_events extras' = (retry_events extras)[m := exhausted_event d (retry_events extras ! m)]"
    by (auto simp: record_retry_decision_def Let_def exhausted_event_def)
  from last_event_split [OF m] have "of_node (en_id node) (retry_events extras ! m)" by (metis nth_append_length)
  then have own: "of_node (en_id node) (exhausted_event d (retry_events extras ! m))"
    by (simp add: exhausted_event_def pysimps)
  have "events_of (en_id node) (retry_events extras) \<noteq> []" using m last_event_None by (metis option.distinct(1))
  then show ?thesis using True update_event [OF m, of "exhausted_event d", OF own] by (simp add: r own_decision_def)
next
  case False
  then have "(if rd_reason d = ''max_retries_exhausted'' then last_event_of (en_id node) (retry_events extras) else None) = None"
    by auto
  with assms have r: "k = length (retry_events extras)" "retry_events extras' = retry_events extras @ [decision_event node d]"
    by (auto simp: record_retry_decision_def Let_def decision_event_def)
  have own: "of_node (en_id node) (decision_event node d)" by (simp add: decision_event_def pysimps)
  have "\<not> (rd_reason d = ''max_retries_exhausted'' \<and> events_of (en_id node) (retry_events extras) \<noteq> [])"
    using False last_event_None by blast
  then show ?thesis using append_event [OF own, where events = "retry_events extras"] by (auto simp: r own_decision_def)
qed

definition own_result :: "exec_node \<Rightarrow> node_result \<Rightarrow> pydict \<Rightarrow> pydict" where
  "own_result node result e = dupdate e
     [(''attempt'', PInt (en_retry_count node)),
      (''final_status'', PStr (if nr_success result then ''succeeded'' else ''failed'')),
      (''result_error_code'', PStr (nr_error_code result))]"

definition own_aborted :: "string \<Rightarrow> pydict \<Rightarrow> pydict" where
  "own_aborted reason e = dupdate e
     [(''retry_allowed'', PBool False), (''blocked_by_policy'', PBool False), (''final_status'', PStr ''aborted''),
      (''reason'', PStr reason)]"

lemma record_result_retry_events:
  "k < length (retry_events extras) \<Longrightarrow> retry_events (record_retry_result node result k extras) =
     (retry_events extras)[k := own_result node result (retry_events extras ! k)]"
  by (simp add: record_retry_result_def Let_def own_result_def)

lemma record_aborted_retry_events:
  "k < length (retry_events extras) \<Longrightarrow> retry_events (record_retry_aborted k reason extras) =
     (retry_events extras)[k := own_aborted reason (retry_events extras ! k)]"
  by (simp add: record_retry_aborted_def Let_def own_aborted_def)

lemma own_update_events:
  assumes last: "last_event_of i (retry_events extras) = Some k"
    and upd: "k < length (retry_events extras) \<Longrightarrow> retry_events extras' = (retry_events extras)[k := f (retry_events extras ! k)]"
    and keep: "\<And>e. dget (f e) ''node_id'' = dget e ''node_id''"
  shows "events_of i (retry_events extras') = amend_last f (events_of i (retry_events extras))
    \<and> last_event_of i (retry_events extras') = Some k
    \<and> (\<forall>j. j \<noteq> i \<longrightarrow> events_of j (retry_events extras') = events_of j (retry_events extras)
         \<and> last_event_of j (retry_events extras') = last_event_of j (retry_events extras))"
proof -
  from last_event_split [OF last] have "of_node i (retry_events extras ! k)" by (metis nth_append_length)
  then have own: "of_node i (f (retry_events extras ! k))" by (simp add: keep)
  note u = update_event [OF last, of f, OF own]
  show ?thesis unfolding upd [OF u(1)] using u(2-5) by blast
qed

lemma own_keep: "dget (own_result node result e) ''node_id'' = dget e ''node_id''"
  "dget (own_aborted reason e) ''node_id'' = dget e ''node_id''"
  by (simp_all add: own_result_def own_aborted_def pysimps)

lemmas record_result_events =
  own_update_events [where f = "own_result node result", OF _ record_result_retry_events own_keep(1)] for node result
lemmas record_aborted_events =
  own_update_events [where f = "own_aborted reason", OF _ record_aborted_retry_events own_keep(2)] for reason

text \<open>Completing a task alone, from its program counter on.\<close>

abbreviation loop_extras :: "retry_env \<Rightarrow> exec_node \<Rightarrow> node_result \<Rightarrow> pydict \<Rightarrow> pydict" where
  "loop_extras env node result extras \<equiv> fst (snd (maybe_retry_node env node result extras))"

fun complete :: "retry_env \<Rightarrow> task_pc \<Rightarrow> pydict \<Rightarrow> pydict" where
  "complete env (Running node None) extras =
     (let result = normalize_read_timeout_for_retry env node (run_node env node) in
      if nr_success result then extras
      else if has_safe_read_recovery result then set_retry_events (retry_events extras @ [safe_recovery_event node]) extras
      else loop_extras env node result extras)"
| "complete env (Running node (Some (decision, k))) extras =
     (let result = retried_result env node decision
      in loop_extras env node result (record_retry_result node result k extras))"
| "complete env (Sleeping node result decision k) extras =
     (if budget_ok env True node
      then let node' = node\<lparr>en_retry_count := en_retry_count node + 1\<rparr>; result' = retried_result env node' decision
           in loop_extras env node' result' (record_retry_result node' result' k extras)
      else record_retry_aborted k ''budget_exceeded_after_backoff'' extras)"
| "complete env (Finished result) extras = extras"

lemma loop_head_complete:
  "complete env (fst (loop_head env node result extras)) (snd (loop_head env node result extras)) =
     loop_extras env node result extras"
proof -
  let ?d = "decide_retry env node (normalize_read_timeout_for_retry env node result)"
  obtain k e where rec: "record_retry_decision node ?d extras = (k, e)" by (metis prod.exhaust)
  show ?thesis
    by (subst maybe_retry_node.simps) (simp add: loop_head_def Let_def rec case_prod_unfold)
qed

lemma retry_task_step_complete:
  "complete env (fst (retry_task_step env pc extras)) (snd (retry_task_step env pc extras)) = complete env pc extras"
  by (induction env pc extras rule: retry_task_step.induct) (simp_all add: Let_def loop_head_complete)

lemma execute_one_complete: "fst (snd (execute_one env tc extras)) = complete env (Running (call_node tc) None) extras"
  by (simp add: execute_one_def Let_def case_prod_unfold)

lemma loop_extras_cong:
  assumes "events_of (en_id node) (retry_events e1) = events_of (en_id node) (retry_events e2)"
  shows "events_of (en_id node) (retry_events (loop_extras env node result e1)) =
         events_of (en_id node) (retry_events (loop_extras env node result e2))"
  using assms
proof (induction env node result e1 arbitrary: e2 rule: maybe_retry_node.induct)
  case (1 env node result e1)
  let ?d = "decide_retry env node (normalize_read_timeout_for_retry env node result)"
  let ?node' = "node\<lparr>en_retry_count := en_retry_count node + 1\<rparr>"
  let ?r = "retried_result env ?node' ?d"
  obtain k1 f1 where rec1: "record_retry_decision node ?d e1 = (k1, f1)" by (metis prod.exhaust)
  obtain k2 f2 where rec2: "record_retry_decision node ?d e2 = (k2, f2)" by (metis prod.exhaust)
  note ev1 = record_decision_events [OF rec1] and ev2 = record_decision_events [OF rec2]
  have eq: "events_of (en_id node) (retry_events f1) = events_of (en_id node) (retry_events f2)"
    using ev1 ev2 "1.prems" by simp
  show ?case
  proof (cases "nr_success result \<or> \<not> rd_retry_allowed ?d")
    case True
    then show ?thesis using "1.prems" eq by (subst (1 2) maybe_retry_node.simps) (auto simp: Let_def rec1 rec2)
  next
    case more: False
    show ?thesis
    proof (cases "budget_ok env True node")
      case True
      have "events_of (en_id node) (retry_events (record_retry_result ?node' ?r k1 f1)) =
          events_of (en_id node) (retry_events (record_retry_result ?node' ?r k2 f2))"
        using record_result_events [of "en_id node" f1 k1 ?node' ?r] record_result_events [of "en_id node" f2 k2 ?node' ?r]
          ev1 ev2 eq by metis
      then have "events_of (en_id ?node') (retry_events (loop_extras env ?node' ?r (record_retry_result ?node' ?r k1 f1))) =
          events_of (en_id ?node') (retry_events (loop_extras env ?node' ?r (record_retry_result ?node' ?r k2 f2)))"
        by (intro "1.IH") (use more True rec1 in simp_all)
      with more True show ?thesis
        by (subst (1 2) maybe_retry_node.simps) (simp add: Let_def rec1 rec2 case_prod_unfold)
    next
      case False
      have "events_of (en_id node) (retry_events (record_retry_aborted k1 ''budget_exceeded_after_backoff'' f1)) =
          events_of (en_id node) (retry_events (record_retry_aborted k2 ''budget_exceeded_after_backoff'' f2))"
        using record_aborted_events [of "en_id node" f1 k1] record_aborted_events [of "en_id node" f2 k2] ev1 ev2 eq by metis
      with more False show ?thesis by (subst (1 2) maybe_retry_node.simps) (simp add: Let_def rec1 rec2)
    qed
  qed
qed

text \<open>A task knows the last event of its node, unless it has none yet.\<close>

fun task_of :: "string \<Rightarrow> pydict \<Rightarrow> task_pc \<Rightarrow> bool" where
  "task_of i extras (Running node waiting) =
     (en_id node = i \<and> (case waiting of None \<Rightarrow> True | Some (_, k) \<Rightarrow> last_event_of i (retry_events extras) = Some k))"
| "task_of i extras (Sleeping node result decision k) =
     (en_id node = i \<and> last_event_of i (retry_events extras) = Some k)"
| "task_of i extras (Finished result) = True"

definition same_events :: "string \<Rightarrow> pydict \<Rightarrow> pydict \<Rightarrow> bool" where
  "same_events i e1 e2 \<longleftrightarrow> events_of i (retry_events e1) = events_of i (retry_events e2)
     \<and> last_event_of i (retry_events e1) = last_event_of i (retry_events e2)"

lemma task_of_same: "same_events i e1 e2 \<Longrightarrow> task_of i e1 pc = task_of i e2 pc"
  by (cases pc) (auto simp: same_events_def split: option.splits)

lemma complete_cong:
  assumes "task_of i e1 pc" and "same_events i e1 e2"
  shows "events_of i (retry_events (complete env pc e1)) = events_of i (retry_events (complete env pc e2))"
proof (cases "(env, pc, e1)" rule: complete.cases)
  case (1 env' node extras)
  have own: "of_node (en_id node) (safe_recovery_event node)" by (simp add: safe_recovery_event_def)
  show ?thesis using assms 1 loop_extras_cong [of node e1 e2] append_event(1) [OF own]
    by (auto simp: Let_def same_events_def)
next
  case (2 env' node decision k extras)
  let ?r = "retried_result env node decision"
  from assms 2 have i: "en_id node = i" "last_event_of i (retry_events e1) = Some k" "last_event_of i (retry_events e2) = Some k"
    "events_of i (retry_events e1) = events_of i (retry_events e2)" by (auto simp: same_events_def)
  have "events_of (en_id node) (retry_events (record_retry_result node ?r k e1)) =
      events_of (en_id node) (retry_events (record_retry_result node ?r k e2))"
    using record_result_events [OF i(2), of node ?r] record_result_events [OF i(3), of node ?r] i(1,4) by simp
  from loop_extras_cong [OF this, of env ?r] have "events_of i (retry_events (complete env (Running node (Some (decision, k))) e1)) =
      events_of i (retry_events (complete env (Running node (Some (decision, k))) e2))"
    by (simp only: complete.simps Let_def i(1))
  with 2 show ?thesis by simp
next
  case (3 env' node result decision k extras)
  let ?node' = "node\<lparr>en_retry_count := en_retry_count node + 1\<rparr>"
  let ?r = "retried_result env ?node' decision"
  from assms 3 have i: "en_id node = i" "last_event_of i (retry_events e1) = Some k" "last_event_of i (retry_events e2) = Some k"
    "events_of i (retry_events e1) = events_of i (retry_events e2)" by (auto simp: same_events_def)
  have "events_of (en_id ?node') (retry_events (record_retry_result ?node' ?r k e1)) =
      events_of (en_id ?node') (retry_events (record_retry_result ?node' ?r k e2))"
    using record_result_events [OF i(2), of ?node' ?r] record_result_events [OF i(3), of ?node' ?r] i(1,4) by simp
  from loop_extras_cong [OF this, of env ?r]
  have "events_of i (retry_events (loop_extras env ?node' ?r (record_retry_result ?node' ?r k e1))) =
      events_of i (retry_events (loop_extras env ?node' ?r (record_retry_result ?node' ?r k e2)))"
    using i(1) by simp
  moreover have "events_of i (retry_events (record_retry_aborted k ''budget_exceeded_after_backoff'' e1)) =
      events_of i (retry_events (record_retry_aborted k ''budget_exceeded_after_backoff'' e2))"
    using record_aborted_events [OF i(2)] record_aborted_events [OF i(3)] i(4) by simp
  ultimately show ?thesis using 3 by (simp add: Let_def)
next
  case (4 env' result extras)
  with assms show ?thesis by (simp add: same_events_def)
qed

text \<open>A step of a task keeps its own knowledge and touches the events of no other node.\<close>

lemma loop_head_events:
  assumes "loop_head env node result extras = (pc, extras')"
  shows "task_of (en_id node) extras' pc \<and> (\<forall>j. j \<noteq> en_id node \<longrightarrow> same_events j extras extras')"
proof -
  let ?d = "decide_retry env node (normalize_read_timeout_for_retry env node result)"
  obtain k e where rec: "record_retry_decision node ?d extras = (k, e)" by (metis prod.exhaust)
  from assms show ?thesis using record_decision_events [OF rec]
    by (auto simp: loop_head_def Let_def rec same_events_def split: if_splits)
qed

lemma retry_task_step_events:
  assumes "task_of i extras pc" and "retry_task_step env pc extras = (pc', extras')" and "\<not> finished pc"
  shows "task_of i extras' pc' \<and> (\<forall>j. j \<noteq> i \<longrightarrow> same_events j extras extras')"
  using assms
proof (induction env pc extras rule: retry_task_step.induct)
  case (1 env node extras)
  have own: "of_node (en_id node) (safe_recovery_event node)" by (simp add: safe_recovery_event_def)
  from 1 show ?case using loop_head_events append_event(3,4) [OF own]
    by (auto simp: Let_def same_events_def split: if_splits)
next
  case (2 env node decision k extras)
  let ?r = "retried_result env node decision"
  from 2 have i: "en_id node = i" "last_event_of i (retry_events extras) = Some k"
    and head: "loop_head env node ?r (record_retry_result node ?r k extras) = (pc', extras')" by (auto simp: Let_def)
  from record_result_events [OF i(2), of node ?r] loop_head_events [OF head] i(1) show ?case
    by (auto simp: same_events_def)
next
  case (3 env node result decision k extras)
  then have i: "en_id node = i" "last_event_of i (retry_events extras) = Some k" by auto
  from 3 record_aborted_events [OF i(2)] i show ?case by (auto simp: same_events_def split: if_splits)
qed (auto simp: finished_def)

lemma group_step_events:
  assumes step: "group_step env (pcs, extras) (pcs', extras')" and len: "length pcs = length ids" and dist: "distinct ids"
    and tasks: "\<forall>m < length ids. task_of (ids ! m) extras (pcs ! m)"
  shows "length pcs' = length ids \<and> (\<forall>m < length ids. task_of (ids ! m) extras' (pcs' ! m)
    \<and> events_of (ids ! m) (retry_events (complete env (pcs' ! m) extras')) =
      events_of (ids ! m) (retry_events (complete env (pcs ! m) extras)))"
  using step
proof (cases rule: group_step.cases)
  case (step n pc)
  have n: "n < length ids" using step(2) len by simp
  note own = retry_task_step_events [OF tasks [rule_format, OF n] step(4) step(3)]
  have "task_of (ids ! m) extras' (pcs' ! m)
    \<and> events_of (ids ! m) (retry_events (complete env (pcs' ! m) extras')) =
      events_of (ids ! m) (retry_events (complete env (pcs ! m) extras))" if m: "m < length ids" for m
  proof (cases "m = n")
    case True
    then show ?thesis using own step(2) retry_task_step_complete [of env "pcs ! n" extras] unfolding step(1) step(4) by simp
  next
    case False
    with m n dist have "ids ! m \<noteq> ids ! n" by (simp add: nth_eq_iff_index_eq)
    with own have same: "same_events (ids ! m) extras extras'" by blast
    have "pcs' ! m = pcs ! m" using False unfolding step(1) by simp
    moreover have "task_of (ids ! m) extras' (pcs ! m)" using task_of_same [OF same] tasks m by blast
    ultimately show ?thesis using complete_cong [OF tasks [rule_format, OF m] same] by simp
  qed
  then show ?thesis using len unfolding step(1) by simp
qed

lemma group_run_events:
  assumes "(group_step env)\<^sup>*\<^sup>* (pcs, extras) (pcs', extras')" and "length pcs = length ids" and "distinct ids"
    and "\<forall>m < length ids. task_of (ids ! m) extras (pcs ! m)"
  shows "length pcs' = length ids \<and> (\<forall>m < length ids. task_of (ids ! m) extras' (pcs' ! m)
    \<and> events_of (ids ! m) (retry_events (complete env (pcs' ! m) extras')) =
      events_of (ids ! m) (retry_events (complete env (pcs ! m) extras)))"
  using assms(1)
proof (induction rule: rtranclp_induct2)
  case refl
  then show ?case using assms(2,4) by simp
next
  case (step pcs1 extras1 pcs2 extras2)
  have tasks: "\<forall>m < length ids. task_of (ids ! m) extras1 (pcs1 ! m)" using step.IH by blast
  show ?case using group_step_events [OF step.hyps(2) conjunct1 [OF step.IH] assms(3) tasks] step.IH by simp
qed

text \<open>The audit records of concurrent calls are not mixed up: when a group of calls with distinct ids has
  finished, in any interleaving, the retry events of each call are those of executing it alone.\<close>

theorem concurrent_audit_is_separate:
  assumes run: "(group_step env)\<^sup>*\<^sup>* (start_group calls, extras) (pcs, extras')" and all_done: "list_all finished pcs"
    and dist: "distinct (map tc_id calls)" and tc: "tc \<in> set calls"
  shows "events_of (tc_id tc) (retry_events extras') =
    events_of (tc_id tc) (retry_events (fst (snd (execute_one env tc extras))))"
proof -
  let ?ids = "map tc_id calls"
  from tc obtain m where m: "m < length calls" "calls ! m = tc" by (auto simp: in_set_conv_nth)
  have start: "\<forall>m < length ?ids. task_of (?ids ! m) extras (start_group calls ! m)"
    by (simp add: start_group_def call_node_def ExecutionNode_def)
  have len: "length (start_group calls) = length ?ids" by (simp add: start_group_def)
  note end_state = group_run_events [OF run len dist start]
  from all_done end_state m obtain result where "pcs ! m = Finished result"
    by (auto simp: list_all_length finished_def)
  with end_state m have "events_of (tc_id tc) (retry_events extras') =
      events_of (tc_id tc) (retry_events (complete env (start_group calls ! m) extras))" by force
  then show ?thesis using m by (simp add: start_group_def execute_one_complete)
qed

theorem concurrent_audit_is_separate_witness:
  "\<exists>pcs extras'. (group_step demo_retry_env)\<^sup>*\<^sup>* (start_group demo_calls, []) (pcs, extras') \<and> list_all finished pcs
     \<and> events_of ''c2'' (retry_events extras') =
         events_of ''c2'' (retry_events (fst (snd (execute_one demo_retry_env demo_write []))))"
proof -
  obtain r1 r2 extras' where run: "(group_step demo_retry_env ^^ 2) (start_group demo_calls, []) ([Finished r1, Finished r2], extras')"
    using demo_group_run by blast
  have id: "tc_id demo_write = ''c2''" by (simp add: demo_write_def LLMToolCall_def)
  have fin: "list_all finished [Finished r1, Finished r2]" by (simp add: finished_def)
  from relpowp_imp_rtranclp [OF run] have star: "(group_step demo_retry_env)\<^sup>*\<^sup>* (start_group demo_calls, []) ([Finished r1, Finished r2], extras')" .
  have "events_of (tc_id demo_write) (retry_events extras') =
      events_of (tc_id demo_write) (retry_events (fst (snd (execute_one demo_retry_env demo_write []))))"
    by (rule concurrent_audit_is_separate [OF star fin]) (simp_all add: id)
  with star fin id show ?thesis by (intro exI [of _ "[Finished r1, Finished r2]"] exI [of _ extras'] conjI) simp_all
qed

end
