(* ===== verification/Action_Alias.thy ===== *)
theory Action_Alias
  imports Tool_Contracts
begin

text \<open>
  Aliases of tool actions (\<open>core/runtime_engine/action_alias.py\<close>): the names that models use for an action are
  rewritten to the canonical one before validation. The table of tool-independent aliases is empty in the
  code.
\<close>

section \<open>Tables\<close>

record alias_resolution =
  ar_matched :: bool
  ar_original_action :: string
  ar_canonical_action :: string
  ar_operation :: "string option"
  ar_source :: string

definition CANONICAL_ALIASES_BY_TOOL :: "(string \<times> (string \<times> string \<times> string option) list) list" where
  "CANONICAL_ALIASES_BY_TOOL =
     [(''system.manage'',
       [(''get_session'', ''session_get'', Some ''get_history''), (''session_history'', ''session_get'',
        Some ''get_history''), (''history_get'', ''session_get'', Some ''get_history''), (''audit_get'',
        ''audit_log'', Some ''get''), (''get'', ''tasks'', Some ''get''), (''tasks_get'', ''tasks'',
        Some ''get''), (''get_run'', ''run_get'', Some ''get''), (''self_check'', ''selfcheck'', None),
        (''check_health'', ''health'', None), (''do_diagnostics'', ''diagnostics'', None), (''diag'',
        ''diagnostics'', None), (''local_ip'', ''local_info'', None), (''local_info'', ''local_info'', None),
        (''host_info'', ''local_info'', None), (''system_info'', ''local_info'', None)]),
      (''workspace.file'',
       [(''ls'', ''list'', None), (''cat'', ''read'', None)]),
      (''knowledge.manage'',
       [(''knowledge_get'', ''read'', None), (''knowledge_search'', ''search'', None), (''knowledge_read'',
        ''read'', None), (''read_knowledge'', ''read'', None), (''knowledge_import'', ''import'', None),
        (''import_knowledge'', ''import'', None), (''find_knowledge'', ''search'', None), (''search_knowledge'',
        ''search'', None), (''manage'', ''reindex'', None), (''reindex_knowledge'', ''reindex'', None)]),
      (''agent.manage'',
       [(''agent_list'', ''list'', None)]),
      (''memory.manage'',
       [(''memory_search'', ''search'', None), (''search_memory'', ''search'', None), (''memory_create'',
        ''create'', None), (''create_memory'', ''create'', None), (''memory_delete'', ''delete'', None),
        (''delete_memory'', ''delete'', None)]),
      (''web.manage'',
       [(''search_web'', ''search'', None), (''web_search'', ''search'', None), (''fetch_page'', ''fetch'',
        None), (''page'', ''fetch'', None), (''deep_web_search'', ''deep_search'', None), (''list'', ''search'',
        None)]),
      (''report.manage'',
       [(''render_report'', ''document'', None), (''generate_report'', ''document'', None), (''save_report'',
        ''save'', None)]),
      (''text.analyze'',
       [(''extract'', ''extract_entities'', None)]),
      (''skill.manage'',
       [(''search'', ''find'', None)])]"

definition CANONICAL_ACTIONS :: "(string \<times> string list) list" where
  "CANONICAL_ACTIONS =
     [(''exec.run'', [''shell'', ''python'', ''slash'']),
      (''system.manage'', [''diagnostics'', ''health'', ''selfcheck'', ''local_info'', ''tasks'', ''audit_log'', ''run_get'',
        ''session_get'', ''session_checkpoint'', ''session_rewind'', ''session_export'', ''session_snapshot'']),
      (''workspace.file'', [''list'', ''read'', ''read_image'', ''extract_document'', ''extract_document_image'',
        ''extract_document_images'', ''edit'', ''patch'', ''write'', ''write_artifact'', ''glob'', ''delete'']),
      (''knowledge.manage'', [''search'', ''read'', ''list'', ''chunk'', ''import'', ''reindex'']),
      (''agent.manage'', [''spawn'', ''list'', ''get'', ''cancel'', ''status'', ''merge'']),
      (''browser.manage'', [''navigate'', ''snapshot'', ''screenshot'', ''click'', ''type'', ''extract'', ''scroll'', ''hover'',
        ''press_key'', ''select_option'', ''evaluate'', ''wait'', ''tabs'', ''network'', ''console'',
        ''navigate_back'', ''close'']),
      (''web.manage'', [''search'', ''fetch'', ''weather'', ''weather_batch'', ''deep_search'']),
      (''location.manage'', [''resolve'', ''resolve_batch'', ''reverse'']),
      (''data.manage'', [''parse'', ''stats'', ''distinct'', ''aggregate'', ''filter'', ''sort'', ''render'', ''pivot'',
        ''join'']),
      (''report.manage'', [''save'', ''diff'', ''document'']),
      (''text.analyze'', [''redact'', ''extract_entities'', ''match'']),
      (''memory.manage'', [''search'', ''create'', ''update'', ''confirm'', ''delete'', ''review'', ''profile_get'',
        ''profile_set'']),
      (''skill.manage'', [''list'', ''find'', ''load'', ''inspect'', ''mcp_list_tools'', ''mcp_call'']),
      (''workspace.artifact'', [''list'', ''read'', ''save'', ''tag'', ''delete'']),
      (''workspace.filestore'', [''references'', ''import'', ''reconcile_trash_preview'', ''reconcile_trash''])]"

definition CANONICAL_ALIASES_GLOBAL :: "(string \<times> string \<times> string option) list" where
  "CANONICAL_ALIASES_GLOBAL = []"

section \<open>Resolution\<close>

definition canonical_actions :: "string \<Rightarrow> string list" where
  "canonical_actions tool_id = (case map_of CANONICAL_ACTIONS tool_id of None \<Rightarrow> [] | Some actions \<Rightarrow> actions)"

definition resolve_action_alias :: "string \<Rightarrow> pyval \<Rightarrow> alias_resolution" where
  "resolve_action_alias tool_id action =
     (let original = (case action of PStr s \<Rightarrow> py_strip s | _ \<Rightarrow> []);
          rewritten = (\<lambda>(canonical, op).
            \<lparr>ar_matched = True, ar_original_action = original, ar_canonical_action = canonical,
             ar_operation = op, ar_source = ''canonical''\<rparr>);
          kept = (\<lambda>source.
            \<lparr>ar_matched = False, ar_original_action = original, ar_canonical_action = original,
             ar_operation = None, ar_source = source\<rparr>)
      in if original = [] then kept ''none''
         else if original \<in> set (canonical_actions tool_id) then kept ''canonical''
         else case map_of (case map_of CANONICAL_ALIASES_BY_TOOL tool_id of None \<Rightarrow> [] | Some t \<Rightarrow> t) original of
                Some entry \<Rightarrow> rewritten entry
              | None \<Rightarrow>
                  (case map_of CANONICAL_ALIASES_GLOBAL original of
                     Some entry \<Rightarrow> rewritten entry
                   | None \<Rightarrow> kept ''none''))"

section \<open>The tables are consistent\<close>

lemma alias_targets:
  "list_all (\<lambda>(tool, entries). list_all (\<lambda>(_, canonical, _). canonical \<in> set (canonical_actions tool)) entries)
     CANONICAL_ALIASES_BY_TOOL"
  by code_simp

lemma canonical_actions_stripped:
  "list_all (\<lambda>(_, actions). list_all (\<lambda>a. py_strip a = a \<and> a \<noteq> []) actions) CANONICAL_ACTIONS"
  by code_simp

lemma canonical_actions_mem:
  assumes "a \<in> set (canonical_actions tool)"
  obtains actions where "(tool, actions) \<in> set CANONICAL_ACTIONS" "a \<in> set actions"
proof (cases "map_of CANONICAL_ACTIONS tool")
  case None
  with assms show ?thesis by (simp add: canonical_actions_def)
next
  case (Some actions)
  with assms show ?thesis by (intro that [of actions]) (simp_all add: canonical_actions_def map_of_SomeD)
qed

lemma canonical_action_plain:
  assumes "a \<in> set (canonical_actions tool)"
  shows "py_strip a = a \<and> a \<noteq> []"
proof -
  obtain actions where mem: "(tool, actions) \<in> set CANONICAL_ACTIONS" "a \<in> set actions" using assms by (rule canonical_actions_mem)
  from bspec [OF canonical_actions_stripped [unfolded list_all_iff] mem(1)] mem(2) show ?thesis by simp
qed

lemma alias_target_canonical:
  assumes "map_of CANONICAL_ALIASES_BY_TOOL tool = Some entries" and "map_of entries original = Some (canonical, op)"
  shows "canonical \<in> set (canonical_actions tool)"
  using alias_targets map_of_SomeD [OF assms(1)] map_of_SomeD [OF assms(2)] unfolding list_all_iff by fastforce

lemma py_strip_again [simp]: "py_strip (py_strip s) = py_strip s"
proof -
  have drop: "dropWhile is_space (dropWhile is_space t) = dropWhile is_space t" for t by (induction t) auto
  let ?t = "dropWhile is_space (rev (dropWhile is_space s))"
  have "dropWhile is_space (rev ?t) = rev ?t"
  proof (cases "rev ?t")
    case (Cons c cs)
    have "prefix (rev ?t) (dropWhile is_space s)"
      by (metis rev_rev_ident suffix_dropWhile suffix_to_prefix)
    then obtain zs where zs: "dropWhile is_space s = c # zs" unfolding Cons by (auto simp: prefix_def)
    then have "\<not> is_space c" using hd_dropWhile [of is_space s] by (metis list.sel(1) list.distinct(1))
    then show ?thesis unfolding Cons by simp
  next
    case Nil
    then show ?thesis unfolding Nil by simp
  qed
  then show ?thesis by (simp add: py_strip_def drop)
qed

lemma resolve_twice:
  "let r = resolve_action_alias tool action; a = ar_canonical_action r in
     resolve_action_alias tool (PStr a) =
       \<lparr>ar_matched = False, ar_original_action = a, ar_canonical_action = a, ar_operation = None, ar_source = ar_source r\<rparr>"
proof -
  let ?r = "resolve_action_alias tool action"
  have kept: "resolve_action_alias tool (PStr a) =
      \<lparr>ar_matched = False, ar_original_action = a, ar_canonical_action = a, ar_operation = None, ar_source = ''canonical''\<rparr>"
    if "a \<in> set (canonical_actions tool)" for a
    using that canonical_action_plain [OF that] by (simp add: resolve_action_alias_def Let_def)
  obtain original where o: "(case action of PStr s \<Rightarrow> py_strip s | _ \<Rightarrow> []) = original" "py_strip original = original"
    by (cases action) (simp_all, simp_all add: py_strip_def)
  consider "original = []" | "original \<in> set (canonical_actions tool)"
    | entries canonical op where "original \<noteq> []" "original \<notin> set (canonical_actions tool)"
        "map_of CANONICAL_ALIASES_BY_TOOL tool = Some entries" "map_of entries original = Some (canonical, op)"
    | "original \<noteq> []" "original \<notin> set (canonical_actions tool)"
        "map_of (case map_of CANONICAL_ALIASES_BY_TOOL tool of None \<Rightarrow> [] | Some t \<Rightarrow> t) original = None"
    by (cases "map_of (case map_of CANONICAL_ALIASES_BY_TOOL tool of None \<Rightarrow> [] | Some t \<Rightarrow> t) original")
      (auto split: option.splits)
  then show ?thesis
  proof cases
    case 1
    then show ?thesis by (simp add: resolve_action_alias_def Let_def o(1) py_strip_def)
  next
    case 2
    then have "ar_canonical_action ?r = original" "ar_source ?r = ''canonical''"
      using canonical_action_plain [OF 2] by (simp_all add: resolve_action_alias_def Let_def o)
    with kept [OF 2] show ?thesis by (simp add: Let_def)
  next
    case 3
    then have "ar_canonical_action ?r = canonical" "ar_source ?r = ''canonical''"
      by (simp_all add: resolve_action_alias_def Let_def o)
    with kept [OF alias_target_canonical [OF 3(3,4)]] show ?thesis by (simp add: Let_def)
  next
    case 4
    then show ?thesis by (simp add: resolve_action_alias_def Let_def o CANONICAL_ALIASES_GLOBAL_def)
  qed
qed

text \<open>The actions that are canonical are those with an execution contract.\<close>

lemma canonical_actions_contracts:
  "list_all (\<lambda>((tool, a), _). a \<in> set (canonical_actions tool)) (concat ACTION_CONTRACT_UPDATES)"
  "list_all (\<lambda>(tool, actions). list_all (\<lambda>a. (tool, a) \<in> set (map fst (concat ACTION_CONTRACT_UPDATES))) actions) CANONICAL_ACTIONS"
  by code_simp+

lemma action_table_keys:
  "(tool, a) \<in> set (map fst ACTION_EXECUTION_CONTRACTS) \<longleftrightarrow> (tool, a) \<in> set (map fst (concat ACTION_CONTRACT_UPDATES))"
proof -
  have "(tool, a) \<in> set (map fst ACTION_EXECUTION_CONTRACTS) \<longleftrightarrow> map_of ACTION_EXECUTION_CONTRACTS (tool, a) \<noteq> None"
    by (simp add: map_of_eq_None_iff)
  also have "\<dots> \<longleftrightarrow> map_of (rev (concat ACTION_CONTRACT_UPDATES)) (tool, a) \<noteq> None"
    by (simp add: ACTION_EXECUTION_CONTRACTS_def map_of_fold_groups)
  finally show ?thesis by (simp add: map_of_eq_None_iff)
qed

lemma canonical_iff_contract:
  "a \<in> set (canonical_actions tool) \<longleftrightarrow> (\<exists>contract. ((tool, a), contract) \<in> set ACTION_EXECUTION_CONTRACTS)"
proof -
  have "(tool, a) \<in> set (map fst (concat ACTION_CONTRACT_UPDATES))" if a: "a \<in> set (canonical_actions tool)"
  proof -
    obtain actions where "(tool, actions) \<in> set CANONICAL_ACTIONS" "a \<in> set actions" using a by (rule canonical_actions_mem)
    with bspec [OF canonical_actions_contracts(2) [unfolded list_all_iff [of _ CANONICAL_ACTIONS]]] show ?thesis
      unfolding list_all_iff by (metis (no_types, lifting) case_prod_conv)
  qed
  moreover have "a \<in> set (canonical_actions tool)" if "(tool, a) \<in> set (map fst (concat ACTION_CONTRACT_UPDATES))"
  proof -
    from that obtain contract where "((tool, a), contract) \<in> set (concat ACTION_CONTRACT_UPDATES)" unfolding set_map by (elim imageE) (metis prod.collapse)
    from bspec [OF canonical_actions_contracts(1) [unfolded list_all_iff] this] show ?thesis by simp
  qed
  moreover have "(tool, a) \<in> set (map fst table) \<longleftrightarrow> (\<exists>contract. ((tool, a), contract) \<in> set table)" for table :: action_table
    by (induction table) auto
  ultimately show ?thesis using action_table_keys by metis
qed

text \<open>Resolving an action twice changes nothing more: whatever the model wrote, the action that the resolution
  answers is kept by a second resolution, with the same source and no operation hint.\<close>

theorem alias_resolution_is_stable:
  "let r = resolve_action_alias tool action; a = ar_canonical_action r in
     resolve_action_alias tool (PStr a) =
       \<lparr>ar_matched = False, ar_original_action = a, ar_canonical_action = a, ar_operation = None, ar_source = ar_source r\<rparr>"
  by (rule resolve_twice)

end
