(* ===== verification/Schema_Validation.thy ===== *)
theory Schema_Validation
  imports Py_Base
begin

text \<open>
  Validation of arguments against a published schema (\<open>_validate_field\<close>, \<open>validate_schema_value\<close>,
  \<open>_validate_arguments\<close> and \<open>canonicalize_tool_arguments\<close> in \<open>core/tools/executor.py\<close>), the last gate before a
  handler runs and, through \<open>validate_schema_value\<close>, a part of the planning check. Schemas are the program's
  own data: sub-schemas are dictionaries, bounds are integers, and the lists of required fields hold strings; a
  sub-schema that is no dictionary is read as the empty one.

  \<open>conforms\<close> is the declarative meaning of a schema, without field paths and error texts; the validator
  decides it.
\<close>

section \<open>Checks of one value\<close>

fun type_name :: "pyval \<Rightarrow> string" where
  "type_name PNone = ''NoneType''"
| "type_name (PBool _) = ''bool''"
| "type_name (PInt _) = ''int''"
| "type_name (PStr _) = ''str''"
| "type_name (PList _) = ''list''"
| "type_name (PDict _) = ''dict''"

definition quoted :: "string \<Rightarrow> string" where
  "quoted s = [CHR 0x27] @ s @ [CHR 0x27]"

definition type_mismatch :: "pyval \<Rightarrow> pyval \<Rightarrow> bool" where
  "type_mismatch expected value \<longleftrightarrow>
     (expected = PStr ''string'' \<and> type_name value \<noteq> ''str'')
     \<or> (expected \<in> {PStr ''number'', PStr ''integer''} \<and> type_name value \<noteq> ''int'')
     \<or> (expected = PStr ''boolean'' \<and> type_name value \<noteq> ''bool'')
     \<or> (expected = PStr ''object'' \<and> type_name value \<noteq> ''dict'')
     \<or> (expected = PStr ''array'' \<and> type_name value \<noteq> ''list'')"

text \<open>\<open>value in allowed\<close>.\<close>

definition py_member :: "pyval \<Rightarrow> pyval \<Rightarrow> bool" where
  "py_member value allowed = list_ex (py_eq value) (py_iter allowed)"

definition below :: "int \<Rightarrow> pydict \<Rightarrow> string \<Rightarrow> bool" where
  "below n schema key = (case dget schema key of PInt b \<Rightarrow> n < b | _ \<Rightarrow> False)"

definition above :: "int \<Rightarrow> pydict \<Rightarrow> string \<Rightarrow> bool" where
  "above n schema key = (case dget schema key of PInt b \<Rightarrow> n > b | _ \<Rightarrow> False)"

text \<open>The strings of a list such as \<open>required\<close>.\<close>

definition strings_of :: "pyval \<Rightarrow> string list" where
  "strings_of v = map py_str (as_list v)"

definition enum_errors :: "string \<Rightarrow> pyval \<Rightarrow> pydict \<Rightarrow> string list" where
  "enum_errors field value schema =
     (let allowed = dget schema ''enum'' in
      if allowed \<noteq> PNone \<and> \<not> py_member value allowed
      then [''Field '' @ quoted field @ '' value '' @ quoted (py_str value) @ '' not in allowed: '' @ py_str allowed]
      else [])"

definition bound_errors :: "string \<Rightarrow> pyval \<Rightarrow> pydict \<Rightarrow> string list" where
  "bound_errors field value schema =
     (let low = (\<lambda>n key t. if below n schema key then [''Field '' @ quoted field @ t @ py_str (dget schema key)] else []);
          high = (\<lambda>n key t. if above n schema key then [''Field '' @ quoted field @ t @ py_str (dget schema key)] else []);
          expected = dget_or schema ''type'' (PStr []) in
      case value of
        PInt n \<Rightarrow>
          if expected \<in> {PStr ''integer'', PStr ''number''}
          then low n ''minimum'' ('' value '' @ int_str n @ '' below minimum '')
               @ high n ''maximum'' ('' value '' @ int_str n @ '' above maximum '')
          else []
      | PStr s \<Rightarrow>
          if expected = PStr ''string''
          then (let n = int (length s) in
                low n ''minLength'' ('' length '' @ int_str n @ '' below minimum '')
                @ high n ''maxLength'' ('' length '' @ int_str n @ '' above maximum ''))
          else []
      | PList xs \<Rightarrow>
          if expected = PStr ''array''
          then (let n = int (length xs) in
                low n ''minItems'' ('' has '' @ int_str n @ '' item(s), below minimum '')
                @ high n ''maxItems'' ('' has '' @ int_str n @ '' item(s), above maximum ''))
          else []
      | _ \<Rightarrow> [])"

definition closed_errors :: "string \<Rightarrow> pydict \<Rightarrow> pydict \<Rightarrow> pydict \<Rightarrow> string list" where
  "closed_errors path value props schema =
     (if dget schema ''additionalProperties'' = PBool False
      then map (\<lambda>k. ''Unknown field: '' @ quoted (path @ k)) (filter (\<lambda>k. \<not> din k props) (map fst value))
      else [])"

definition missing_errors :: "string \<Rightarrow> pydict \<Rightarrow> pydict \<Rightarrow> string list" where
  "missing_errors path value schema =
     map (\<lambda>k. ''Missing required field: '' @ quoted (path @ k))
       (filter (\<lambda>k. \<not> din k value) (strings_of (dget_or schema ''required'' (PList []))))"

definition dependent_errors :: "string \<Rightarrow> pydict \<Rightarrow> pydict \<Rightarrow> string list" where
  "dependent_errors path value schema =
     concat (map (\<lambda>(dependency, dependents).
       if din dependency value
       then map (\<lambda>d. ''Field '' @ quoted (path @ dependency) @ '' requires '' @ quoted (path @ d))
              (filter (\<lambda>d. \<not> din d value) (strings_of dependents))
       else []) (as_dict (py_or (dget schema ''dependentRequired'') (PDict []))))"

section \<open>The recursive validator\<close>

abbreviation schema_size :: "pydict \<Rightarrow> nat" where
  "schema_size \<equiv> size_list (size_prod (\<lambda>_. 0) size)"

lemma schema_size_entry: "(k, v) \<in> set d \<Longrightarrow> size v < schema_size d"
  by (induction d) auto

lemma schema_size_dget: "dget d k = v \<Longrightarrow> v \<noteq> PNone \<Longrightarrow> size v < schema_size d"
  by (auto simp: dget_def split: option.splits dest: map_of_SomeD schema_size_entry)

lemma schema_size_as_dict: "schema_size (as_dict v) \<le> size v"
  by (cases v) simp_all

lemma schema_size_member: "v \<in> set (as_list w) \<Longrightarrow> schema_size (as_dict v) < size w"
  using schema_size_as_dict [of v] by (cases w) (auto dest: size_list_estimation' [where f = size and y = "size v"])

function validate_field :: "string \<Rightarrow> pyval \<Rightarrow> pydict \<Rightarrow> string list" where
  "validate_field field value schema =
     (if as_list (dget schema ''oneOf'') \<noteq> [] then
        (let candidates = map (\<lambda>alternative. validate_field field value (as_dict alternative)) (as_list (dget schema ''oneOf''))
         in if [] \<in> set candidates then []
            else [''Field '' @ quoted field @ '' does not match any allowed schema: '' @
                  py_join '' | '' (map (\<lambda>c. py_join ''; '' (take 3 c)) candidates)])
      else
        (let expected = dget_or schema ''type'' (PStr []) in
         if type_mismatch expected value
         then [''Field '' @ quoted field @ '' expected '' @ py_str expected @ '', got '' @ type_name value]
         else
           enum_errors field value schema @ bound_errors field value schema @
           (if expected = PStr ''array''
            then (case dget schema ''items'' of
                    PDict items \<Rightarrow>
                      if items = [] then []
                      else concat (map (\<lambda>(i, item). validate_field (field @ ''['' @ nat_str i @ '']'') item items)
                                     (enumerate 0 (as_list value)))
                  | _ \<Rightarrow> [])
            else []) @
           (if expected = PStr ''object''
            then (case dget schema ''properties'' of
                    PDict props \<Rightarrow>
                      closed_errors (field @ ''.'') (as_dict value) props schema @
                      missing_errors (field @ ''.'') (as_dict value) schema @
                      concat (map (\<lambda>(nf, nv).
                        case map_of props nf of
                          None \<Rightarrow> []
                        | Some s \<Rightarrow> validate_field (field @ ''.'' @ nf) nv (as_dict s)) (as_dict value)) @
                      dependent_errors (field @ ''.'') (as_dict value) schema
                  | _ \<Rightarrow> [])
            else [])))"
  by pat_completeness auto

termination
proof (relation "measure (\<lambda>(field, value, schema). schema_size schema)", goal_cases)
  case (2 f v schema alternative)
  from 2(2) have "schema_size (as_dict alternative) < size (dget schema ''oneOf'')" by (rule schema_size_member)
  also have "\<dots> < schema_size schema" using 2(2) by (intro schema_size_dget) auto
  finally show ?case by simp
next
  case (3 f v schema expected its entry i item)
  then have "size (PDict its) < schema_size schema" by (intro schema_size_dget) auto
  then show ?case by simp
next
  case (4 f v schema expected props entry nf nv sub)
  then have "size (PDict props) < schema_size schema" by (intro schema_size_dget) auto
  moreover have "size sub < schema_size props" using 4(8) by (auto dest: map_of_SomeD schema_size_entry)
  ultimately show ?case using schema_size_as_dict [of sub] by simp
qed simp

declare validate_field.simps [simp del]

definition validate_schema_value :: "string \<Rightarrow> pyval \<Rightarrow> pydict \<Rightarrow> string list" where
  "validate_schema_value field value schema = validate_field field value schema"

section \<open>Validation of the arguments of a call\<close>

definition present_errors :: "pydict \<Rightarrow> pydict \<Rightarrow> string list \<Rightarrow> string list" where
  "present_errors arguments props required =
     concat (map (\<lambda>(k, v). if din k props \<and> k \<notin> set required then validate_field k v (as_dict (dget props k)) else []) arguments)"

definition required_errors :: "pydict \<Rightarrow> pydict \<Rightarrow> string list \<Rightarrow> string list" where
  "required_errors arguments props required =
     concat (map (\<lambda>k. if din k arguments then validate_field k (dget arguments k) (as_dict (dget props k))
                      else [''Missing required field: '' @ quoted k]) required)"

definition apply_default :: "string \<times> pyval \<Rightarrow> pydict \<Rightarrow> pydict" where
  "apply_default = (\<lambda>(k, s) arguments.
     if \<not> din k arguments \<and> din ''default'' (as_dict s) then dset k (dget (as_dict s) ''default'') arguments else arguments)"

text \<open>The arguments are completed with defaults in place, also when there are errors.\<close>

definition validate_arguments :: "pydict \<Rightarrow> pydict \<Rightarrow> pydict \<times> string list" where
  "validate_arguments arguments schema =
     (if schema = [] then (arguments, [])
      else
        let required = strings_of (dget_or schema ''required'' (PList []));
            props = as_dict (dget_or schema ''properties'' (PDict []))
        in (fold apply_default props arguments,
            closed_errors [] arguments props schema @ required_errors arguments props required
            @ present_errors arguments props required))"

definition canonicalize_tool_arguments :: "pydict \<Rightarrow> pydict \<Rightarrow> pydict" where
  "canonicalize_tool_arguments arguments schema = fst (validate_arguments arguments schema)"

section \<open>What a schema means\<close>

definition in_enum :: "pydict \<Rightarrow> pyval \<Rightarrow> bool" where
  "in_enum schema v \<longleftrightarrow> dget schema ''enum'' = PNone \<or> py_member v (dget schema ''enum'')"

definition within :: "pydict \<Rightarrow> string \<Rightarrow> string \<Rightarrow> int \<Rightarrow> bool" where
  "within schema low high n \<longleftrightarrow> (\<forall>b. dget schema low = PInt b \<longrightarrow> b \<le> n) \<and> (\<forall>b. dget schema high = PInt b \<longrightarrow> n \<le> b)"

fun within_bounds :: "pydict \<Rightarrow> pyval \<Rightarrow> bool" where
  "within_bounds schema (PInt n) \<longleftrightarrow>
     (dget_or schema ''type'' (PStr []) \<in> {PStr ''integer'', PStr ''number''} \<longrightarrow> within schema ''minimum'' ''maximum'' n)"
| "within_bounds schema (PStr t) \<longleftrightarrow>
     (dget_or schema ''type'' (PStr []) = PStr ''string'' \<longrightarrow> within schema ''minLength'' ''maxLength'' (int (length t)))"
| "within_bounds schema (PList xs) \<longleftrightarrow>
     (dget_or schema ''type'' (PStr []) = PStr ''array'' \<longrightarrow> within schema ''minItems'' ''maxItems'' (int (length xs)))"
| "within_bounds schema _ \<longleftrightarrow> True"

definition closed_ok :: "pydict \<Rightarrow> pydict \<Rightarrow> pydict \<Rightarrow> bool" where
  "closed_ok schema props d \<longleftrightarrow> dget schema ''additionalProperties'' = PBool False \<longrightarrow> fst ` set d \<subseteq> fst ` set props"

definition required_ok :: "pydict \<Rightarrow> pydict \<Rightarrow> bool" where
  "required_ok schema d \<longleftrightarrow> set (strings_of (dget_or schema ''required'' (PList []))) \<subseteq> fst ` set d"

definition dependents_ok :: "pydict \<Rightarrow> pydict \<Rightarrow> bool" where
  "dependents_ok schema d \<longleftrightarrow> (\<forall>(k, ds) \<in> set (as_dict (py_or (dget schema ''dependentRequired'') (PDict []))).
     k \<in> fst ` set d \<longrightarrow> set (strings_of ds) \<subseteq> fst ` set d)"

inductive conforms :: "pydict \<Rightarrow> pyval \<Rightarrow> bool" where
  one_of: "alternative \<in> set (as_list (dget schema ''oneOf'')) \<Longrightarrow> conforms (as_dict alternative) v \<Longrightarrow> conforms schema v"
| plain: "as_list (dget schema ''oneOf'') = [] \<Longrightarrow> \<not> type_mismatch (dget_or schema ''type'' (PStr [])) v \<Longrightarrow>
    in_enum schema v \<Longrightarrow> within_bounds schema v \<Longrightarrow>
    (\<forall>its. dget_or schema ''type'' (PStr []) = PStr ''array'' \<and> dget schema ''items'' = PDict its \<and> its \<noteq> [] \<longrightarrow>
       (\<forall>item \<in> set (as_list v). conforms its item)) \<Longrightarrow>
    (\<forall>props. dget_or schema ''type'' (PStr []) = PStr ''object'' \<and> dget schema ''properties'' = PDict props \<longrightarrow>
       closed_ok schema props (as_dict v) \<and> required_ok schema (as_dict v) \<and> dependents_ok schema (as_dict v) \<and>
       (\<forall>(k, x) \<in> set (as_dict v). \<forall>s. map_of props k = Some s \<longrightarrow> conforms (as_dict s) x)) \<Longrightarrow>
    conforms schema v"

named_theorems schema_ok \<open>when a check of the validator reports nothing\<close>

lemma din_keys: "din k d \<longleftrightarrow> k \<in> fst ` set d"
  by (metis din_def map_of_eq_None_iff)

lemma enum_errors_ok [schema_ok]: "enum_errors field v schema = [] \<longleftrightarrow> in_enum schema v"
  by (simp add: enum_errors_def in_enum_def Let_def)

lemma below_above_ok:
  "\<not> below n schema low \<and> \<not> above n schema high \<longleftrightarrow> within schema low high n"
  by (auto simp: below_def above_def within_def split: pyval.splits)

lemma bound_errors_ok [schema_ok]: "bound_errors field v schema = [] \<longleftrightarrow> within_bounds schema v"
  by (cases v) (simp_all add: bound_errors_def Let_def below_above_ok [symmetric])

lemma closed_errors_ok [schema_ok]: "closed_errors path d props schema = [] \<longleftrightarrow> closed_ok schema props d"
  by (auto simp: closed_errors_def closed_ok_def filter_empty_conv din_keys)

lemma missing_errors_ok [schema_ok]: "missing_errors path d schema = [] \<longleftrightarrow> required_ok schema d"
  by (auto simp: missing_errors_def required_ok_def filter_empty_conv din_keys)

lemma concat_map_Nil: "concat (map f xs) = [] \<longleftrightarrow> (\<forall>x \<in> set xs. f x = [])"
  by auto

lemma dependent_errors_ok [schema_ok]: "dependent_errors path d schema = [] \<longleftrightarrow> dependents_ok schema d"
  unfolding dependent_errors_def dependents_ok_def concat_map_Nil
  by (rule ball_cong [OF refl], simp only: case_prod_unfold) (auto simp: din_keys filter_empty_conv)

text \<open>The validator of one value decides whether the value conforms to the schema; in particular its verdict
  does not depend on the path of the field.\<close>

lemma validate_field_conforms: "validate_field field v schema = [] \<longleftrightarrow> conforms schema v"
proof (induction field v schema rule: validate_field.induct)
  case (1 field v schema)
  let ?type = "dget_or schema ''type'' (PStr [])"
  show ?case
  proof (cases "as_list (dget schema ''oneOf'') = []")
    case False
    have "validate_field field v schema = [] \<longleftrightarrow> (\<exists>a \<in> set (as_list (dget schema ''oneOf'')). validate_field field v (as_dict a) = [])"
      by (subst validate_field.simps) (use False in \<open>simp add: Let_def image_iff eq_commute [of "[]"]\<close>)
    also have "\<dots> \<longleftrightarrow> (\<exists>a \<in> set (as_list (dget schema ''oneOf'')). conforms (as_dict a) v)"
      using "1.IH"(1) [OF False] by blast
    also have "\<dots> \<longleftrightarrow> conforms schema v" by (subst (2) conforms.simps) (use False in auto)
    finally show ?thesis .
  next
    case True
    show ?thesis
    proof (cases "type_mismatch ?type v")
      case mismatch: True
      then show ?thesis by (subst validate_field.simps, subst conforms.simps) (simp add: True Let_def)
    next
      case False
      let ?items = "if ?type = PStr ''array''
            then (case dget schema ''items'' of
                    PDict items \<Rightarrow>
                      if items = [] then []
                      else concat (map (\<lambda>(i, item). validate_field (field @ ''['' @ nat_str i @ '']'') item items)
                                     (enumerate 0 (as_list v)))
                  | _ \<Rightarrow> []) else []"
      let ?props = "if ?type = PStr ''object''
            then (case dget schema ''properties'' of
                    PDict props \<Rightarrow>
                      closed_errors (field @ ''.'') (as_dict v) props schema @
                      missing_errors (field @ ''.'') (as_dict v) schema @
                      concat (map (\<lambda>(nf, nv). case map_of props nf of None \<Rightarrow> []
                        | Some s \<Rightarrow> validate_field (field @ ''.'' @ nf) nv (as_dict s)) (as_dict v)) @
                      dependent_errors (field @ ''.'') (as_dict v) schema
                  | _ \<Rightarrow> []) else []"
      have parts: "validate_field field v schema = enum_errors field v schema @ bound_errors field v schema @ ?items @ ?props"
        by (subst validate_field.simps) (simp only: True False Let_def simp_thms if_False)
      have items: "?items = [] \<longleftrightarrow> (\<forall>its. ?type = PStr ''array'' \<and> dget schema ''items'' = PDict its \<and> its \<noteq> [] \<longrightarrow>
          (\<forall>item \<in> set (as_list v). conforms its item))"
      proof (cases "\<exists>its. ?type = PStr ''array'' \<and> dget schema ''items'' = PDict its \<and> its \<noteq> []")
        case True
        then obtain its where its: "?type = PStr ''array''" "dget schema ''items'' = PDict its" "its \<noteq> []" by blast
        have "validate_field (field @ ''['' @ nat_str i @ '']'') item its = [] \<longleftrightarrow> conforms its item"
          if "(i, item) \<in> set (enumerate 0 (as_list v))" for i item
          by (rule "1.IH"(2)) (use \<open>as_list (dget schema ''oneOf'') = []\<close> False its that in auto)
        then have "concat (map (\<lambda>(i, item). validate_field (field @ ''['' @ nat_str i @ '']'') item its) (enumerate 0 (as_list v))) = []
            \<longleftrightarrow> (\<forall>(i, item) \<in> set (enumerate 0 (as_list v)). conforms its item)"
          unfolding concat_map_Nil by fast
        then have "?items = [] \<longleftrightarrow> (\<forall>(i, item) \<in> set (enumerate 0 (as_list v)). conforms its item)"
          using its by simp
        also have "\<dots> \<longleftrightarrow> (\<forall>item \<in> set (as_list v). conforms its item)"
          unfolding all_set_conv_all_nth [of "as_list v"] by (auto simp: in_set_enumerate_eq)
        finally show ?thesis using its by simp
      next
        case no: False
        then show ?thesis by (auto split: pyval.splits)
      qed
      have props: "?props = [] \<longleftrightarrow> (\<forall>props. ?type = PStr ''object'' \<and> dget schema ''properties'' = PDict props \<longrightarrow>
       closed_ok schema props (as_dict v) \<and> required_ok schema (as_dict v) \<and> dependents_ok schema (as_dict v) \<and>
       (\<forall>(k, x) \<in> set (as_dict v). \<forall>s. map_of props k = Some s \<longrightarrow> conforms (as_dict s) x))"
      proof (cases "\<exists>props. ?type = PStr ''object'' \<and> dget schema ''properties'' = PDict props")
        case True
        then obtain props where props: "?type = PStr ''object''" "dget schema ''properties'' = PDict props" by blast
        have "validate_field (field @ ''.'' @ k) x (as_dict s) = [] \<longleftrightarrow> conforms (as_dict s) x"
          if "(k, x) \<in> set (as_dict v)" "map_of props k = Some s" for k x s
          by (rule "1.IH"(3)) (use \<open>as_list (dget schema ''oneOf'') = []\<close> False props that in auto)
        then have "(case map_of props k of None \<Rightarrow> [] | Some s \<Rightarrow> validate_field (field @ ''.'' @ k) x (as_dict s)) = [] \<longleftrightarrow>
            (\<forall>s. map_of props k = Some s \<longrightarrow> conforms (as_dict s) x)" if "(k, x) \<in> set (as_dict v)" for k x
          using that by (auto split: option.splits)
        then have nested: "concat (map (\<lambda>(nf, nv). case map_of props nf of None \<Rightarrow> []
              | Some s \<Rightarrow> validate_field (field @ ''.'' @ nf) nv (as_dict s)) (as_dict v)) = [] \<longleftrightarrow>
            (\<forall>(k, x) \<in> set (as_dict v). \<forall>s. map_of props k = Some s \<longrightarrow> conforms (as_dict s) x)"
          unfolding concat_map_Nil by fast
        have eq: "?props = closed_errors (field @ ''.'') (as_dict v) props schema @ missing_errors (field @ ''.'') (as_dict v) schema @
            concat (map (\<lambda>(nf, nv). case map_of props nf of None \<Rightarrow> []
              | Some s \<Rightarrow> validate_field (field @ ''.'' @ nf) nv (as_dict s)) (as_dict v)) @
            dependent_errors (field @ ''.'') (as_dict v) schema" using props by simp
        have "?props = [] \<longleftrightarrow> closed_ok schema props (as_dict v) \<and> required_ok schema (as_dict v) \<and>
            (\<forall>(k, x) \<in> set (as_dict v). \<forall>s. map_of props k = Some s \<longrightarrow> conforms (as_dict s) x) \<and> dependents_ok schema (as_dict v)"
          unfolding eq append_is_Nil_conv schema_ok nested ..
        then show ?thesis using props by (simp only: pyval.inject) blast
      next
        case no: False
        then show ?thesis by (auto split: pyval.splits)
      qed
      have "conforms schema v \<longleftrightarrow> in_enum schema v \<and> within_bounds schema v \<and> ?items = [] \<and> ?props = []"
        unfolding items props by (subst conforms.simps) (simp add: True False)
      then show ?thesis unfolding parts by (simp only: append_is_Nil_conv schema_ok)
    qed
  qed
qed

section \<open>The gate before execution\<close>

abbreviation properties_of :: "pydict \<Rightarrow> pydict" where
  "properties_of schema \<equiv> as_dict (dget_or schema ''properties'' (PDict []))"

lemma conforms_empty [simp]: "conforms [] v"
proof (rule conforms.plain)
  show "within_bounds [] v" by (cases v) (simp_all add: dget_or_def)
qed (auto simp: type_mismatch_def in_enum_def dget_def dget_or_def)

lemma required_errors_ok:
  "required_errors arguments props required = [] \<longleftrightarrow>
     (\<forall>k \<in> set required. din k arguments \<and> conforms (as_dict (dget props k)) (dget arguments k))"
  unfolding required_errors_def concat_map_Nil by (auto simp: validate_field_conforms)

lemma present_errors_ok:
  "present_errors arguments props required = [] \<longleftrightarrow>
     (\<forall>(k, v) \<in> set arguments. din k props \<and> k \<notin> set required \<longrightarrow> conforms (as_dict (dget props k)) v)"
  unfolding present_errors_def concat_map_Nil
  by (rule ball_cong [OF refl]) (auto simp: validate_field_conforms split: if_splits)

lemma dget_entry: "distinct (map fst d) \<Longrightarrow> (k, v) \<in> set d \<Longrightarrow> dget d k = v"
  by (simp add: dget_def map_of_is_SomeI)

text \<open>C29: The gate before a handler decides the published schema: arguments pass exactly when no argument is outside of
  a closed schema, every required one is present, and every argument conforms to the schema of its name.\<close>

theorem gate_decides_schema:
  assumes "distinct (map fst arguments)"
  shows "snd (validate_arguments arguments schema) = [] \<longleftrightarrow>
    schema = [] \<or> closed_ok schema (properties_of schema) arguments \<and> required_ok schema arguments
      \<and> (\<forall>(k, v) \<in> set arguments. conforms (as_dict (dget (properties_of schema) k)) v)"
proof (cases "schema = []")
  case False
  let ?props = "properties_of schema" and ?required = "strings_of (dget_or schema ''required'' (PList []))"
  have undeclared: "conforms (as_dict (dget ?props k)) v" if "\<not> din k ?props" for k v
    using that by (simp add: din_def dget_def)
  have fields_ok: "(\<forall>k \<in> set ?required. din k arguments \<and> conforms (as_dict (dget ?props k)) (dget arguments k))
      \<and> (\<forall>(k, v) \<in> set arguments. din k ?props \<and> k \<notin> set ?required \<longrightarrow> conforms (as_dict (dget ?props k)) v)
    \<longleftrightarrow> required_ok schema arguments \<and> (\<forall>(k, v) \<in> set arguments. conforms (as_dict (dget ?props k)) v)" (is "?l \<longleftrightarrow> ?r")
  proof
    assume l: ?l
    have "conforms (as_dict (dget ?props k)) v" if "(k, v) \<in> set arguments" for k v
      using l that undeclared dget_entry [OF assms that] by (cases "k \<in> set ?required"; cases "din k ?props") auto
    with l show ?r by (auto simp: required_ok_def din_keys)
  next
    assume r: ?r
    have "din k arguments \<and> conforms (as_dict (dget ?props k)) (dget arguments k)" if k: "k \<in> set ?required" for k
    proof -
      from r k obtain v where v: "(k, v) \<in> set arguments" by (auto simp: required_ok_def)
      with r have "conforms (as_dict (dget ?props k)) v" by blast
      with v show ?thesis using dget_entry [OF assms v] by (auto simp: din_keys intro: rev_image_eqI)
    qed
    with r show ?l by blast
  qed
  have "snd (validate_arguments arguments schema) = [] \<longleftrightarrow> closed_ok schema ?props arguments
      \<and> required_errors arguments ?props ?required = [] \<and> present_errors arguments ?props ?required = []"
    using False by (simp add: validate_arguments_def Let_def schema_ok)
  then show ?thesis unfolding required_errors_ok present_errors_ok using fields_ok False by simp
qed (simp add: validate_arguments_def)

theorem gate_decides_schema_witness:
  "let schema = [(''type'', PStr ''object''), (''required'', PList [PStr ''n'']), (''additionalProperties'', PBool False),
         (''properties'', PDict [(''n'', PDict [(''type'', PStr ''integer''), (''minimum'', PInt 1)])])] in
     snd (validate_arguments [(''n'', PInt 3)] schema) = [] \<and> required_ok schema [(''n'', PInt 3)]
     \<and> conforms [(''type'', PStr ''integer''), (''minimum'', PInt 1)] (PInt 3)"
proof -
  let ?schema = "[(''type'', PStr ''object''), (''required'', PList [PStr ''n'']), (''additionalProperties'', PBool False),
         (''properties'', PDict [(''n'', PDict [(''type'', PStr ''integer''), (''minimum'', PInt 1)])])]"
  have "snd (validate_arguments [(''n'', PInt 3)] ?schema) = []" by code_simp
  with gate_decides_schema [of "[(''n'', PInt 3)]" ?schema] show ?thesis by (simp add: dget_def dget_or_def)
qed

text \<open>Completion with defaults keeps what the caller gave, and completing twice is completing once.\<close>

lemma apply_default_extends: "map_of a \<subseteq>\<^sub>m map_of (apply_default e a)"
  by (cases e) (auto simp: apply_default_def dset_def din_def update_conv' map_le_def)

lemma apply_defaults_extend: "map_of a \<subseteq>\<^sub>m map_of (fold apply_default props a)"
proof (induction props arbitrary: a)
  case (Cons e props)
  show ?case using map_le_trans [OF apply_default_extends Cons.IH] by simp
qed simp

lemma defaults_present:
  "(k, s) \<in> set props \<Longrightarrow> din ''default'' (as_dict s) \<Longrightarrow> din k (fold apply_default props a)"
proof (induction props arbitrary: a)
  case (Cons e props)
  show ?case
  proof (cases "e = (k, s)")
    case True
    have "din k (apply_default e a)" using Cons.prems(2) by (auto simp: True apply_default_def dset_def din_def update_conv')
    then show ?thesis using apply_defaults_extend [of "apply_default e a" props]
      by (auto simp: din_def map_le_def dom_def)
  qed (use Cons in simp)
qed simp

lemma no_defaults_left: "\<forall>(k, s) \<in> set props. din ''default'' (as_dict s) \<longrightarrow> din k a \<Longrightarrow> fold apply_default props a = a"
  by (induction props arbitrary: a) (auto simp: apply_default_def)

text \<open>Canonicalisation of arguments is stable: it keeps every argument that was given, and applying it to its own
  result changes nothing.\<close>

theorem canonical_arguments_are_stable:
  "canonicalize_tool_arguments (canonicalize_tool_arguments arguments schema) schema = canonicalize_tool_arguments arguments schema
   \<and> map_of arguments \<subseteq>\<^sub>m map_of (canonicalize_tool_arguments arguments schema)"
proof -
  have "fold apply_default props (fold apply_default props a) = fold apply_default props a" for props a
    by (rule no_defaults_left) (use defaults_present in blast)
  then show ?thesis
    by (simp add: canonicalize_tool_arguments_def validate_arguments_def Let_def apply_defaults_extend)
qed

end
