(* ===== verification/Semantic_Validator.thy ===== *)
theory Semantic_Validator
  imports Tool_Runtime Action_Alias Schema_Validation
begin

text \<open>
  The planning check of a batch of calls (\<open>core/runtime_engine/semantic_validator.py\<close>, with the requirement tables of
  \<open>core/tools/action_requirements.py\<close>): a call must name a known tool, its arguments must match the published schema,
  the arguments that its action needs must be there, and references must be of the right kind. The registry of
  tools is an argument. \<open>Schema_Validation\<close> says what is assumed of schemas.
\<close>

section \<open>Requirements of actions\<close>

definition ACTION_REQUIRED_ALL :: "((string \<times> string) \<times> string list) list" where
  "ACTION_REQUIRED_ALL =
     [((''exec.run'', ''shell''), [''command'']),
      ((''exec.run'', ''slash''), [''command'']),
      ((''exec.run'', ''python''), [''code'']),
      ((''browser.manage'', ''navigate''), [''url'']),
      ((''browser.manage'', ''type''), [''text'']),
      ((''browser.manage'', ''press_key''), [''key'']),
      ((''browser.manage'', ''select_option''), [''value'']),
      ((''browser.manage'', ''evaluate''), [''script'']),
      ((''web.manage'', ''search''), [''query'']),
      ((''web.manage'', ''deep_search''), [''query'']),
      ((''web.manage'', ''fetch''), [''url'']),
      ((''web.manage'', ''weather_batch''), [''locations'']),
      ((''location.manage'', ''resolve''), [''query'']),
      ((''location.manage'', ''resolve_batch''), [''queries'']),
      ((''location.manage'', ''reverse''), [''latitude'', ''longitude'']),
      ((''data.manage'', ''distinct''), [''column'']),
      ((''data.manage'', ''filter''), [''conditions'']),
      ((''data.manage'', ''sort''), [''by'']),
      ((''data.manage'', ''pivot''), [''index'', ''columns'']),
      ((''data.manage'', ''join''), [''on'']),
      ((''report.manage'', ''save''), [''content'']),
      ((''report.manage'', ''diff''), [''text_a'', ''text_b'']),
      ((''report.manage'', ''document''), [''summary'']),
      ((''knowledge.manage'', ''search''), [''query'']),
      ((''knowledge.manage'', ''import''), [''artifact_id'']),
      ((''knowledge.manage'', ''reindex''), [''source_id'']),
      ((''memory.manage'', ''create''), [''content'']),
      ((''memory.manage'', ''update''), [''memory_id'', ''content'']),
      ((''memory.manage'', ''confirm''), [''memory_id'']),
      ((''memory.manage'', ''delete''), [''memory_id'']),
      ((''memory.manage'', ''profile_set''), [''field'', ''value'']),
      ((''skill.manage'', ''find''), [''query'']),
      ((''skill.manage'', ''load''), [''skill_name'']),
      ((''skill.manage'', ''inspect''), [''skill_name'']),
      ((''skill.manage'', ''mcp_list_tools''), [''provider_id'']),
      ((''skill.manage'', ''mcp_call''), [''provider_id'', ''tool_name'']),
      ((''agent.manage'', ''spawn''), [''instruction'']),
      ((''agent.manage'', ''cancel''), [''subtask_id'']),
      ((''agent.manage'', ''merge''), [''parent_task_id'']),
      ((''system.manage'', ''run_get''), [''run_id'']),
      ((''system.manage'', ''session_get''), [''session_id'']),
      ((''system.manage'', ''session_checkpoint''), [''session_id'']),
      ((''system.manage'', ''session_rewind''), [''session_id'', ''snapshot_id'']),
      ((''system.manage'', ''session_export''), [''session_id'']),
      ((''system.manage'', ''session_snapshot''), [''session_id'']),
      ((''text.analyze'', ''redact''), [''text'']),
      ((''text.analyze'', ''extract_entities''), [''text'']),
      ((''text.analyze'', ''match''), [''text'', ''pattern'']),
      ((''workspace.file'', ''read''), [''filepath'']),
      ((''workspace.file'', ''read_image''), [''filepath'']),
      ((''workspace.file'', ''extract_document''), [''file_id'']),
      ((''workspace.file'', ''extract_document_image''), [''file_id'', ''image_index'']),
      ((''workspace.file'', ''extract_document_images''), [''file_id'']),
      ((''workspace.file'', ''write''), [''filename'', ''content'']),
      ((''workspace.file'', ''write_artifact''), [''filename'', ''content'']),
      ((''workspace.file'', ''edit''), [''filepath'', ''old_string'', ''new_string'']),
      ((''workspace.file'', ''patch''), [''filepath'', ''patch_text'']),
      ((''workspace.file'', ''delete''), [''filepath'']),
      ((''workspace.artifact'', ''read''), [''artifact_id'']),
      ((''workspace.artifact'', ''save''), [''content'']),
      ((''workspace.artifact'', ''tag''), [''artifact_id'', ''tags'']),
      ((''workspace.artifact'', ''delete''), [''artifact_id'']),
      ((''workspace.filestore'', ''references''), [''file_id'']),
      ((''workspace.filestore'', ''import''), [''filepath''])]"

definition ACTION_REQUIRED_ANY :: "((string \<times> string) \<times> string list list) list" where
  "ACTION_REQUIRED_ANY =
     [((''browser.manage'', ''click''), [[''selector'', ''ref'']]),
      ((''browser.manage'', ''type''), [[''selector'', ''ref'']]),
      ((''browser.manage'', ''hover''), [[''selector'', ''ref'']]),
      ((''browser.manage'', ''select_option''), [[''selector'', ''ref'']]),
      ((''knowledge.manage'', ''read''), [[''chunk_id'', ''source_id'']]),
      ((''web.manage'', ''weather''), [[''location'', ''latitude''], [''location'', ''longitude'']]),
      ((''data.manage'', ''parse''), [[''text'', ''rows''], [''text'', ''rows'']]),
      ((''data.manage'', ''stats''), [[''text'', ''rows''], [''text'', ''rows'']]),
      ((''data.manage'', ''distinct''), [[''text'', ''rows''], [''text'', ''rows'']]),
      ((''data.manage'', ''aggregate''), [[''text'', ''rows''], [''text'', ''rows'']]),
      ((''data.manage'', ''filter''), [[''text'', ''rows''], [''text'', ''rows'']]),
      ((''data.manage'', ''sort''), [[''text'', ''rows''], [''text'', ''rows'']]),
      ((''data.manage'', ''render''), [[''text'', ''rows''], [''text'', ''rows'']]),
      ((''data.manage'', ''pivot''), [[''text'', ''rows''], [''text'', ''rows'']]),
      ((''data.manage'', ''join''), [[''text'', ''rows''], [''right_text'', ''right_rows''], [''text'', ''rows''], [''right_text'', ''right_rows'']]),
      ((''agent.manage'', ''get''), [[''subtask_id'']]),
      ((''agent.manage'', ''merge''), [[''subtask_id'']])]"

definition has_argument_value :: "pydict \<Rightarrow> string \<Rightarrow> bool" where
  "has_argument_value arguments field_name =
     (case dget arguments field_name of
        PNone \<Rightarrow> False
      | PStr s \<Rightarrow> py_strip s \<noteq> []
      | PList xs \<Rightarrow> xs \<noteq> []
      | PDict d \<Rightarrow> d \<noteq> []
      | _ \<Rightarrow> True)"

section \<open>Results\<close>

record semantic_error =
  sx_node_id :: string
  sx_code :: string
  sx_message :: string
  sx_details :: pydict

definition mk_semantic_error :: "exec_node \<Rightarrow> string \<Rightarrow> string \<Rightarrow> pydict \<Rightarrow> semantic_error" where
  "mk_semantic_error node code message details =
     \<lparr>sx_node_id = en_id node, sx_code = code, sx_message = message, sx_details = details\<rparr>"

record semantic_validation_result =
  sv_valid :: bool
  sv_errors :: "semantic_error list"
  sv_risk_level :: string

definition on_arg :: "exec_node \<Rightarrow> string \<Rightarrow> string" where
  "on_arg node name = ''Node '' @ quoted (en_id node) @ '' arg '' @ quoted name"

section \<open>Arguments against the schema\<close>

definition bounded_errors ::
  "exec_node \<Rightarrow> string \<Rightarrow> string \<Rightarrow> int \<Rightarrow> pydict \<Rightarrow> (string \<times> string \<times> string) \<times> (string \<times> string \<times> string) \<Rightarrow>
   pydict \<Rightarrow> semantic_error list" where
  "bounded_errors node name code n schema = (\<lambda>((low, low_text, low_end), (high, high_text, high_end)) details.
     (if below n schema low
      then [mk_semantic_error node code (on_arg node name @ low_text @ py_str (dget schema low) @ low_end)
              ((''field'', PStr name) # details @ [(low, dget schema low)])] else [])
     @ (if above n schema high
        then [mk_semantic_error node code (on_arg node name @ high_text @ py_str (dget schema high) @ high_end)
                ((''field'', PStr name) # details @ [(high, dget schema high)])] else []))"

definition item_errors :: "exec_node \<Rightarrow> string \<Rightarrow> pyval list \<Rightarrow> pydict \<Rightarrow> semantic_error list" where
  "item_errors node name xs item_schema =
     (if dget item_schema ''type'' = PStr ''string'' \<and> list_ex (\<lambda>x. type_name x \<noteq> ''str'') xs
      then [mk_semantic_error node ''ARG_TYPE_MISMATCH'' (on_arg node name @ '' items must be string'')
              [(''field'', PStr name), (''item_type'', PStr ''string'')]] else [])
     @ (if is_list (dget item_schema ''oneOf'')
        then concat (map (\<lambda>(i, item).
               let path = name @ ''['' @ nat_str i @ '']''; errors = validate_schema_value path item item_schema in
               if errors \<noteq> []
               then [mk_semantic_error node ''ARG_TYPE_MISMATCH'' (on_arg node path @ '' does not match its published item schema'')
                       [(''field'', PStr name), (''item_index'', PInt (int i)), (''schema_errors'', PList (map PStr (take 5 errors)))]]
               else []) (enumerate 0 xs))
        else [])"

definition value_errors :: "exec_node \<Rightarrow> string \<Rightarrow> pyval \<Rightarrow> pydict \<Rightarrow> semantic_error list" where
  "value_errors node name v schema =
     (case v of
        PInt n \<Rightarrow>
          bounded_errors node name ''ARG_RANGE_INVALID'' n schema
            ((''minimum'', '' must be >= '', []), (''maximum'', '' must be <= '', [])) [(''value'', v)]
      | PStr s \<Rightarrow>
          bounded_errors node name ''ARG_LENGTH_INVALID'' (int (length s)) schema
            ((''minLength'', '' length must be >= '', []), (''maxLength'', '' length must be <= '', []))
            [(''length'', PInt (int (length s)))]
      | PList xs \<Rightarrow>
          bounded_errors node name ''ARG_LENGTH_INVALID'' (int (length xs)) schema
            ((''minItems'', '' requires at least '', '' item(s)''), (''maxItems'', '' allows at most '', '' item(s)''))
            [(''length'', PInt (int (length xs)))]
          @ item_errors node name xs (as_dict (py_or (dget schema ''items'') (PDict [])))
      | _ \<Rightarrow> [])"

definition enum_semantic_errors :: "exec_node \<Rightarrow> string \<Rightarrow> pyval \<Rightarrow> pydict \<Rightarrow> semantic_error list" where
  "enum_semantic_errors node name v schema =
     (let allowed = dget schema ''enum''; resolution = resolve_action_alias (en_tool node) (PStr (py_str v)) in
      if \<not> py_truthy allowed \<or> py_member v allowed then []
      else if name = ''action'' \<and> ar_matched resolution
      then [mk_semantic_error node ''ACTION_ALIAS_NOT_NORMALIZED''
              (on_arg node name @ '' value '' @ quoted (py_str v) @ '' is a known alias ('' @ [CHR 0xE2, CHR 0x86, CHR 0x92] @ '' '' @
               quoted (ar_canonical_action resolution) @ '') but was not normalized by QueryLoop.'')
              [(''field'', PStr name), (''invalid_value'', v), (''canonical_value'', PStr (ar_canonical_action resolution)),
               (''allowed_values'', PList (py_iter allowed))]]
      else [mk_semantic_error node ''ARG_ENUM_INVALID''
              (on_arg node name @ '' value '' @ quoted (py_str v) @ '' not in allowed enum: '' @ py_str allowed)
              [(''field'', PStr name), (''invalid_value'', v), (''allowed_values'', PList (py_iter allowed))]])"

definition field_errors :: "exec_node \<Rightarrow> string \<Rightarrow> pyval \<Rightarrow> pydict \<Rightarrow> semantic_error list" where
  "field_errors node name v schema =
     (let schema_errors = validate_schema_value name v schema;
          report = (\<lambda>code message. if schema_errors = [] then []
            else [mk_semantic_error node code (on_arg node name @ message)
                    [(''field'', PStr name), (''schema_errors'', PList (map PStr (take 5 schema_errors)))]]) in
      if is_list (dget schema ''oneOf'') then report ''ARG_TYPE_MISMATCH'' '' does not match its published schema''
      else
        let expected = dget schema ''type''; mismatch = type_mismatch expected v in
        (if mismatch
         then [mk_semantic_error node ''ARG_TYPE_MISMATCH''
                 (on_arg node name @ '' expected '' @ py_str expected @ '', got '' @ type_name v)
                 [(''field'', PStr name), (''expected_type'', expected), (''actual_type'', PStr (type_name v))]]
         else
           (if expected = PStr ''object'' \<and> is_dict (dget schema ''properties'')
            then report ''ARG_SCHEMA_INVALID'' '' does not match its published nested schema'' else [])
           @ value_errors node name v schema)
        @ enum_semantic_errors node name v schema)"

abbreviation INVALID_JSON_KEY :: string where
  "INVALID_JSON_KEY \<equiv> ''__invalid_tool_arguments_json__''"

definition published_schema ::
  "pydict \<Rightarrow> tool_contract option \<Rightarrow> exec_node \<Rightarrow> pyval" where
  "published_schema registry contract node =
     (case contract of
        Some c \<Rightarrow> PDict (ct_input_schema c)
      | None \<Rightarrow>
          (let item = as_dict (py_or (dget registry (en_tool node)) (PDict []))
           in py_or (py_or (dget item ''args_schema'') (dget item ''input_schema'')) (PDict [])))"

definition args_errors :: "exec_node \<Rightarrow> pydict \<Rightarrow> semantic_error list" where
  "args_errors node schema =
     (let required = strings_of (dget_or schema ''required'' (PList []));
          props = as_dict (dget_or schema ''properties'' (PDict [])) in
      concat (map (\<lambda>name.
        if dget (en_args node) name = PNone \<and> name \<notin> fst ` set (en_result_bindings node)
        then [mk_semantic_error node ''MISSING_REQUIRED_ARG''
                (''Node '' @ quoted (en_id node) @ '' missing required arg '' @ quoted name)
                [(''field'', PStr name), (''required'', PBool True)]]
        else []) required)
      @ concat (map (\<lambda>(name, v).
          if din name props then field_errors node name v (as_dict (dget props name))
          else if name \<noteq> INVALID_JSON_KEY \<and> dget schema ''additionalProperties'' = PBool False
          then [mk_semantic_error node ''UNKNOWN_ARGUMENT''
                  (on_arg node name @ '' is not supported by '' @ en_tool node @ ''; use only arguments published in the tool schema'')
                  [(''field'', PStr name), (''allowed_fields'', PList (map PStr (sort (map fst props))))]]
          else []) (en_args node)))"

definition validate_args :: "pydict \<Rightarrow> tool_contract option \<Rightarrow> exec_node \<Rightarrow> semantic_error list" where
  "validate_args registry contract node =
     (case published_schema registry contract node of
        PDict schema \<Rightarrow>
          (let parse_error = dget (en_args node) INVALID_JSON_KEY in
           if py_truthy parse_error
           then [mk_semantic_error node ''INVALID_TOOL_ARGUMENTS_JSON''
                   (''Node '' @ quoted (en_id node) @ '' supplied malformed JSON tool arguments: '' @ take 240 (py_str parse_error)) []]
           else args_errors node schema)
      | _ \<Rightarrow> [])"

section \<open>Requirements of the action and kinds of references\<close>

definition metadata_of :: "pydict \<Rightarrow> string \<Rightarrow> pydict" where
  "metadata_of registry tool =
     as_dict (py_or (dget (as_dict (py_or (dget registry tool) (PDict []))) ''metadata'') (PDict []))"

definition required_all :: "pydict \<Rightarrow> string \<Rightarrow> string \<Rightarrow> string list" where
  "required_all registry tool action =
     (case map_of ACTION_REQUIRED_ALL (tool, action) of None \<Rightarrow> [] | Some names \<Rightarrow> names)
     @ map py_str (py_iter (dget (as_dict (dget (as_dict (dget (metadata_of registry tool) ''action_requirements'')) ''all'')) action))"

definition required_any :: "pydict \<Rightarrow> string \<Rightarrow> string \<Rightarrow> string list list" where
  "required_any registry tool action =
     (case map_of ACTION_REQUIRED_ANY (tool, action) of None \<Rightarrow> [] | Some alternatives \<Rightarrow> alternatives)
     @ map (\<lambda>v. map py_str (py_iter v))
         (py_iter (dget (as_dict (dget (as_dict (dget (metadata_of registry tool) ''action_requirements'')) ''any'')) action))"

definition supplied :: "exec_node \<Rightarrow> string \<Rightarrow> bool" where
  "supplied node name \<longleftrightarrow> has_argument_value (en_args node) name \<or> name \<in> fst ` set (en_result_bindings node)"

definition action_of :: "exec_node \<Rightarrow> string \<Rightarrow> string" where
  "action_of node fallback = py_lower (py_strip (gets_or (en_args node) ''action'' fallback))"

definition validate_action_specific_required_args :: "pydict \<Rightarrow> exec_node \<Rightarrow> semantic_error list" where
  "validate_action_specific_required_args registry node =
     (let tool = en_tool node; action = action_of node ''shell'';
          context_text = '' for '' @ tool @ '' action='' @ action;
          context = [(''tool_id'', PStr tool), (''action'', PStr action)] in
      map (\<lambda>name. mk_semantic_error node ''MISSING_REQUIRED_ARG''
              (''Node '' @ quoted (en_id node) @ '' missing required arg '' @ quoted name @ context_text) ((''field'', PStr name) # context))
        (filter (\<lambda>name. \<not> supplied node name) (required_all registry tool action))
      @ map (\<lambda>names. mk_semantic_error node ''MISSING_REQUIRED_ARG''
              (''Node '' @ quoted (en_id node) @ '' requires one of '' @ repr_strs names @ context_text)
              ((''one_of_fields'', PList (map PStr names)) # context))
          (filter (\<lambda>names. \<not> list_ex (supplied node) names) (required_any registry tool action)))"

definition is_managed_file :: "string \<Rightarrow> bool" where
  "is_managed_file s \<longleftrightarrow> length s = 21 \<and> py_lower (take 5 s) = ''file_''
     \<and> list_all (\<lambda>c. char_lower c \<in> set ''0123456789abcdef'') (drop 5 s)"

definition validate_reference_kinds :: "pydict \<Rightarrow> exec_node \<Rightarrow> semantic_error list" where
  "validate_reference_kinds registry node =
     (let fields = as_dict (dget (as_dict (dget (metadata_of registry (en_tool node)) ''reference_kinds'')) (action_of node [])) in
      concat (map (\<lambda>(name, kind).
        case dget (en_args node) name of
          PStr s \<Rightarrow>
            (let managed = is_managed_file (py_strip s); received = (if managed then ''managed_file'' else ''workspace_path'') in
             if py_strip s \<noteq> [] \<and> (kind = PStr ''managed_file'' \<and> \<not> managed \<or> kind = PStr ''workspace_path'' \<and> managed)
             then [mk_semantic_error node ''ARG_REFERENCE_KIND_MISMATCH''
                     (on_arg node name @ '' expects '' @ py_str kind @ '', but received '' @ received @ '' reference.'')
                     [(''field'', PStr name), (''expected_kind'', kind), (''received_kind'', PStr received)]]
             else [])
        | _ \<Rightarrow> []) fields))"

section \<open>A batch of calls\<close>

definition validate_node ::
  "tool_contract list option \<Rightarrow> contracts \<Rightarrow> pydict \<Rightarrow> exec_node \<Rightarrow> semantic_error list" where
  "validate_node ext table registry node =
     (if map_of table (en_tool node) = None \<and> \<not> din (en_tool node) registry
      then [mk_semantic_error node ''TOOL_NOT_FOUND'' (''Tool '' @ quoted (en_tool node) @ '' not found in registry or contracts'') []]
      else
        validate_args registry (contract_of ext table (en_tool node)) node
        @ (if py_truthy (dget (en_args node) INVALID_JSON_KEY) then []
           else validate_action_specific_required_args registry node @ validate_reference_kinds registry node))"

definition raise_risk :: "string \<Rightarrow> string \<Rightarrow> string" where
  "raise_risk node_risk max_risk =
     (if node_risk = ''critical'' then ''critical''
      else if node_risk = ''high'' \<and> max_risk \<noteq> ''critical'' then ''high'' else max_risk)"

definition count_effects ::
  "tool_contract list option \<Rightarrow> contracts \<Rightarrow> string list \<Rightarrow> exec_node list \<Rightarrow> nat" where
  "count_effects ext table effects nodes =
     length (filter (\<lambda>n. case contract_of ext table (en_tool n) of None \<Rightarrow> False | Some c \<Rightarrow> ct_side_effect c \<in> set effects) nodes)"

definition compute_risk_level :: "tool_contract list option \<Rightarrow> contracts \<Rightarrow> exec_node list \<Rightarrow> string" where
  "compute_risk_level ext table nodes =
     (let max_risk = fold (\<lambda>n. raise_risk (get_risk_level ext table (en_tool n))) nodes ''low'';
          write_count = count_effects ext table [''write_file'', ''mutate_local''] nodes;
          exec_count = count_effects ext table [''execute_command''] nodes;
          after_writes = (if write_count \<ge> 3 \<and> max_risk = ''medium'' then ''high'' else max_risk);
          after_execs = (if exec_count \<ge> 2 \<and> after_writes \<noteq> ''critical'' then ''high'' else after_writes)
      in if exec_count \<ge> 3 then ''critical'' else after_execs)"

definition semantic_validate ::
  "tool_contract list option \<Rightarrow> contracts \<Rightarrow> pydict \<Rightarrow> exec_node list \<Rightarrow> semantic_validation_result" where
  "semantic_validate ext table registry nodes =
     (let errors = concat (map (validate_node ext table registry) nodes)
      in \<lparr>sv_valid = (errors = []), sv_errors = errors, sv_risk_level = compute_risk_level ext table nodes\<rparr>)"

section \<open>What an accepted batch guarantees\<close>

lemma accepted_node_complete:
  assumes "sv_valid (semantic_validate ext table registry nodes)" and "node \<in> set nodes"
  shows "(map_of table (en_tool node) \<noteq> None \<or> din (en_tool node) registry)
    \<and> (py_truthy (dget (en_args node) INVALID_JSON_KEY)
       \<or> set (required_all registry (en_tool node) (action_of node ''shell'')) \<subseteq> Collect (supplied node)
         \<and> (\<forall>names \<in> set (required_any registry (en_tool node) (action_of node ''shell'')). set names \<inter> Collect (supplied node) \<noteq> {}))"
proof -
  have none: "validate_node ext table registry node = []"
    using assms unfolding semantic_validate_def Let_def by simp
  then have known: "map_of table (en_tool node) \<noteq> None \<or> din (en_tool node) registry"
    by (auto simp: validate_node_def split: if_splits)
  have "validate_action_specific_required_args registry node = []" if "\<not> py_truthy (dget (en_args node) INVALID_JSON_KEY)"
    using none known that by (auto simp: validate_node_def split: if_splits)
  then have "set (required_all registry (en_tool node) (action_of node ''shell'')) \<subseteq> Collect (supplied node)
         \<and> (\<forall>names \<in> set (required_any registry (en_tool node) (action_of node ''shell'')). set names \<inter> Collect (supplied node) \<noteq> {})"
    if "\<not> py_truthy (dget (en_args node) INVALID_JSON_KEY)"
    using that by (fastforce simp: validate_action_specific_required_args_def Let_def filter_empty_conv list_ex_iff)
  with known show ?thesis by blast
qed

text \<open>C30: In a batch that the planning check accepts, every call names a known tool, and unless its arguments could not be
  parsed it supplies every argument that its action requires, and one of each group of alternatives, with a value
  or with a binding.\<close>

theorem accepted_batch_is_complete:
  assumes "sv_valid (semantic_validate ext table registry nodes)" and "node \<in> set nodes"
  shows "(map_of table (en_tool node) \<noteq> None \<or> din (en_tool node) registry)
    \<and> (py_truthy (dget (en_args node) INVALID_JSON_KEY)
       \<or> set (required_all registry (en_tool node) (action_of node ''shell'')) \<subseteq> Collect (supplied node)
         \<and> (\<forall>names \<in> set (required_any registry (en_tool node) (action_of node ''shell'')). set names \<inter> Collect (supplied node) \<noteq> {}))"
  using assms by (rule accepted_node_complete)

definition demo_search :: exec_node where
  "demo_search = ExecutionNode ''n1'' ''probe'' [(''action'', PStr ''find''), (''query'', PStr ''q'')]"

definition demo_registry :: pydict where
  "demo_registry =
     [(''probe'', PDict [(''metadata'', PDict [(''action_requirements'', PDict
        [(''all'', PDict [(''find'', PList [PStr ''query''])]), (''any'', PDict [(''find'', PList [PList [PStr ''query'', PStr ''id'']])])])])])]"

theorem accepted_batch_is_complete_witness:
  "sv_valid (semantic_validate None [] demo_registry [demo_search])
   \<and> required_all demo_registry ''probe'' ''find'' = [''query''] \<and> supplied demo_search ''query''
   \<and> {''query'', ''id''} \<inter> Collect (supplied demo_search) \<noteq> {}"
proof -
  have ok: "sv_valid (semantic_validate None [] demo_registry [demo_search])"
    and facts: "required_all demo_registry ''probe'' ''find'' = [''query'']" "required_any demo_registry ''probe'' ''find'' = [[''query'', ''id'']]"
      "en_tool demo_search = ''probe''" "action_of demo_search ''shell'' = ''find''" "\<not> py_truthy (dget (en_args demo_search) INVALID_JSON_KEY)"
    by code_simp+
  from ok facts accepted_batch_is_complete [OF ok, of demo_search] show ?thesis by simp
qed

section \<open>Planning check and gate\<close>

text \<open>The schema part of the planning check (\<open>args_errors\<close>, the rest of \<open>_validate_args\<close> after the test for malformed JSON)
  looks at bounds and items whatever the type of the field, the gate only under the type that they belong to; on
  schemas that write them there, the schema part of planning is the weaker one. The requirements of actions and the
  kinds of references are asked by planning alone.\<close>

definition typed_schema :: "pydict \<Rightarrow> bool" where
  "typed_schema s \<longleftrightarrow>
     (dget s ''minimum'' \<noteq> PNone \<or> dget s ''maximum'' \<noteq> PNone \<longrightarrow> dget s ''type'' \<in> {PStr ''integer'', PStr ''number''})
     \<and> (dget s ''minLength'' \<noteq> PNone \<or> dget s ''maxLength'' \<noteq> PNone \<longrightarrow> dget s ''type'' = PStr ''string'')
     \<and> (dget s ''minItems'' \<noteq> PNone \<or> dget s ''maxItems'' \<noteq> PNone \<or> dget s ''items'' \<noteq> PNone \<longrightarrow> dget s ''type'' = PStr ''array'')
     \<and> (as_list (dget (as_dict (dget s ''items'')) ''oneOf'') \<noteq> [] \<longrightarrow> dget (as_dict (dget s ''items'')) ''type'' \<noteq> PStr ''string'')"

lemma dget_or_type: "dget s ''type'' = PStr t \<Longrightarrow> dget_or s ''type'' (PStr []) = PStr t"
  by (auto simp: dget_def dget_or_def split: option.splits)

lemma type_mismatch_default: "type_mismatch (dget s ''type'') v = type_mismatch (dget_or s ''type'' (PStr [])) v"
  by (auto simp: type_mismatch_def dget_def dget_or_def split: option.splits)

lemma bounded_errors_ok:
  "within schema low high n \<Longrightarrow> bounded_errors node name code n schema ((low, a, b), (high, c, d)) details = []"
  by (simp add: bounded_errors_def below_above_ok [symmetric])

lemma within_unbounded: "dget schema low = PNone \<Longrightarrow> dget schema high = PNone \<Longrightarrow> within schema low high n"
  by (simp add: within_def)

lemma item_errors_ok:
  assumes "\<forall>x \<in> set xs. conforms its x" and "as_list (dget its ''oneOf'') \<noteq> [] \<longrightarrow> dget its ''type'' \<noteq> PStr ''string''"
  shows "item_errors node name xs its = []"
proof -
  have "type_name x = ''str''" if "dget its ''type'' = PStr ''string''" "x \<in> set xs" for x
  proof -
    from assms(1) that(2) have "conforms its x" by blast
    then have "\<not> type_mismatch (dget_or its ''type'' (PStr [])) x"
      using assms(2) that(1) by (cases rule: conforms.cases) auto
    with dget_or_type [OF that(1)] show ?thesis by (simp add: type_mismatch_def)
  qed
  then have strings: "\<not> (dget its ''type'' = PStr ''string'' \<and> list_ex (\<lambda>x. type_name x \<noteq> ''str'') xs)"
    by (auto simp: list_ex_iff)
  have "validate_schema_value path x its = []" if "(i, x) \<in> set (enumerate 0 xs)" for path i x
    using assms(1) that unfolding validate_schema_value_def validate_field_conforms
    by (auto simp: in_set_enumerate_eq)
  then show ?thesis using strings by (auto simp: item_errors_def Let_def concat_map_Nil)
qed

lemma value_errors_ok:
  assumes "within_bounds schema v" and "typed_schema schema"
    and "\<forall>its. dget_or schema ''type'' (PStr []) = PStr ''array'' \<and> dget schema ''items'' = PDict its \<and> its \<noteq> [] \<longrightarrow>
       (\<forall>item \<in> set (as_list v). conforms its item)"
  shows "value_errors node name v schema = []"
proof (cases v)
  case (PInt n)
  have "within schema ''minimum'' ''maximum'' n"
    using assms(1,2) PInt within_unbounded by (auto simp: typed_schema_def dest: dget_or_type)
  then show ?thesis by (simp add: value_errors_def PInt bounded_errors_ok)
next
  case (PStr t)
  have "within schema ''minLength'' ''maxLength'' (int (length t))"
    using assms(1,2) PStr within_unbounded by (auto simp: typed_schema_def dest: dget_or_type)
  then show ?thesis by (simp add: value_errors_def PStr bounded_errors_ok)
next
  case (PList xs)
  have bounds: "within schema ''minItems'' ''maxItems'' (int (length xs))"
    using assms(1,2) PList within_unbounded by (auto simp: typed_schema_def dest: dget_or_type)
  let ?its = "as_dict (py_or (dget schema ''items'') (PDict []))"
  have its: "?its = as_dict (dget schema ''items'')" by (cases "dget schema ''items''") (simp_all add: py_or_def)
  have "conforms ?its x" if "x \<in> set xs" for x
  proof (cases "\<exists>d. dget schema ''items'' = PDict d \<and> d \<noteq> []")
    case True
    then obtain d where d: "dget schema ''items'' = PDict d" "d \<noteq> []" by blast
    then have "dget schema ''type'' = PStr ''array''" using assms(2) by (simp add: typed_schema_def)
    then have "conforms d x" using assms(3) d dget_or_type that PList by simp
    then show ?thesis unfolding its using d(1) by simp
  next
    case False
    then have "?its = []" unfolding its by (cases "dget schema ''items''") simp_all
    then show ?thesis by simp
  qed
  moreover have "as_list (dget ?its ''oneOf'') \<noteq> [] \<longrightarrow> dget ?its ''type'' \<noteq> PStr ''string''"
    using assms(2) unfolding its by (simp add: typed_schema_def)
  ultimately show ?thesis using bounds by (simp add: value_errors_def PList bounded_errors_ok item_errors_ok)
qed (simp_all add: value_errors_def)

lemma field_errors_ok:
  assumes "conforms schema v" and "typed_schema schema"
  shows "field_errors node name v schema = []"
proof -
  have none: "validate_schema_value name v schema = []"
    using assms(1) by (simp add: validate_schema_value_def validate_field_conforms)
  show ?thesis
  proof (cases "is_list (dget schema ''oneOf'')")
    case True
    then show ?thesis by (simp add: field_errors_def none)
  next
    case False
    then have "as_list (dget schema ''oneOf'') = []" by (cases "dget schema ''oneOf''") simp_all
    with assms(1) have plain: "\<not> type_mismatch (dget_or schema ''type'' (PStr [])) v" "in_enum schema v" "within_bounds schema v"
      "\<forall>its. dget_or schema ''type'' (PStr []) = PStr ''array'' \<and> dget schema ''items'' = PDict its \<and> its \<noteq> [] \<longrightarrow>
         (\<forall>item \<in> set (as_list v). conforms its item)"
      by (auto elim: conforms.cases)
    have "enum_semantic_errors node name v schema = []"
      using plain(2) by (auto simp: enum_semantic_errors_def in_enum_def Let_def)
    with False none plain(1) value_errors_ok [OF plain(3) assms(2) plain(4)] show ?thesis
      by (simp add: field_errors_def Let_def type_mismatch_default)
  qed
qed

text \<open>The schema part of the planning check rejects nothing that the gate accepts.\<close>

lemma args_errors_gate:
  assumes "snd (validate_arguments (en_args node) schema) = []" and "distinct (map fst (en_args node))"
    and "\<forall>(k, v) \<in> set (en_args node). v \<noteq> PNone" and "\<forall>(k, s) \<in> set (properties_of schema). typed_schema (as_dict s)"
  shows "args_errors node schema = []"
proof (cases "schema = []")
  case True
  then show ?thesis by (auto simp: args_errors_def Let_def dget_or_def dget_def din_def strings_of_def concat_map_Nil)
next
  case False
  let ?props = "properties_of schema"
  have gate: "closed_ok schema ?props (en_args node)" "required_errors (en_args node) ?props (strings_of (dget_or schema ''required'' (PList []))) = []"
    "present_errors (en_args node) ?props (strings_of (dget_or schema ''required'' (PList []))) = []"
    using assms(1) False by (simp_all add: validate_arguments_def Let_def schema_ok)
  have present: "dget (en_args node) k \<noteq> PNone" if "k \<in> set (strings_of (dget_or schema ''required'' (PList [])))" for k
  proof -
    from gate(2) that have "din k (en_args node)" unfolding required_errors_ok by blast
    then obtain v where "(k, v) \<in> set (en_args node)" by (auto simp: din_keys)
    with assms(3) dget_entry [OF assms(2)] show ?thesis by fastforce
  qed
  have fields_ok: "field_errors node k v (as_dict (dget ?props k)) = []" if kv: "(k, v) \<in> set (en_args node)" "din k ?props" for k v
  proof -
    from kv(2) obtain s where found: "map_of ?props k = Some s" by (auto simp: din_def)
    from map_of_SomeD [OF found] found have s: "(k, s) \<in> set ?props" "dget ?props k = s" by (simp_all add: dget_def)
    have "typed_schema (as_dict s)" using assms(4) s(1) by blast
    moreover have "conforms (as_dict (dget ?props k)) v"
    proof (cases "k \<in> set (strings_of (dget_or schema ''required'' (PList [])))")
      case True
      with gate(2) dget_entry [OF assms(2) kv(1)] show ?thesis unfolding required_errors_ok by auto
    next
      case False
      with gate(3) kv show ?thesis unfolding present_errors_ok by blast
    qed
    ultimately show ?thesis using s(2) by (simp add: field_errors_ok)
  qed
  have known: "din k ?props" if "(k, v) \<in> set (en_args node)" "dget schema ''additionalProperties'' = PBool False" for k v
    using gate(1) that by (force simp: closed_ok_def din_keys)
  show ?thesis
    unfolding args_errors_def Let_def append_is_Nil_conv concat_map_Nil using present fields_ok known by auto
qed

lemma action_requirements_ok:
  "validate_action_specific_required_args registry node = [] \<longleftrightarrow>
     set (required_all registry (en_tool node) (action_of node ''shell'')) \<subseteq> Collect (supplied node)
     \<and> (\<forall>names \<in> set (required_any registry (en_tool node) (action_of node ''shell'')). set names \<inter> Collect (supplied node) \<noteq> {})"
  by (fastforce simp: validate_action_specific_required_args_def Let_def filter_empty_conv list_ex_iff)

text \<open>The kinds of references that the registry declares for the action of a call.\<close>

definition declared_references :: "pydict \<Rightarrow> exec_node \<Rightarrow> pydict" where
  "declared_references registry node =
     as_dict (dget (as_dict (dget (metadata_of registry (en_tool node)) ''reference_kinds'')) (action_of node []))"

definition references_ok :: "pydict \<Rightarrow> exec_node \<Rightarrow> bool" where
  "references_ok registry node \<longleftrightarrow>
     (\<forall>(name, kind) \<in> set (declared_references registry node). \<forall>s. dget (en_args node) name = PStr s \<and> py_strip s \<noteq> [] \<longrightarrow>
        (kind = PStr ''managed_file'' \<longrightarrow> is_managed_file (py_strip s)) \<and> (kind = PStr ''workspace_path'' \<longrightarrow> \<not> is_managed_file (py_strip s)))"

lemma reference_kinds_ok: "validate_reference_kinds registry node = [] \<longleftrightarrow> references_ok registry node"
proof -
  have "(case dget (en_args node) name of
          PStr s \<Rightarrow>
            (let managed = is_managed_file (py_strip s); received = (if managed then ''managed_file'' else ''workspace_path'') in
             if py_strip s \<noteq> [] \<and> (kind = PStr ''managed_file'' \<and> \<not> managed \<or> kind = PStr ''workspace_path'' \<and> managed)
             then [mk_semantic_error node ''ARG_REFERENCE_KIND_MISMATCH''
                     (on_arg node name @ '' expects '' @ py_str kind @ '', but received '' @ received @ '' reference.'')
                     [(''field'', PStr name), (''expected_kind'', kind), (''received_kind'', PStr received)]]
             else [])
        | _ \<Rightarrow> []) = [] \<longleftrightarrow>
      (\<forall>s. dget (en_args node) name = PStr s \<and> py_strip s \<noteq> [] \<longrightarrow>
        (kind = PStr ''managed_file'' \<longrightarrow> is_managed_file (py_strip s)) \<and> (kind = PStr ''workspace_path'' \<longrightarrow> \<not> is_managed_file (py_strip s)))" for name kind
    by (cases "dget (en_args node) name") (auto simp: Let_def)
  then show ?thesis
    unfolding validate_reference_kinds_def references_ok_def declared_references_def [symmetric] Let_def concat_map_Nil
    by (simp add: case_prod_beta)
qed

text \<open>C31: What planning asks beyond the gate. For a call of a known tool whose arguments the gate before execution accepts
  (no argument null, bounds and items beside the type that they belong to), the whole planning check passes exactly
  if the arguments could be parsed, every argument that the action requires is there, with one of each group of
  alternatives, and every reference is of the kind that the registry declares. So the schema part of planning never
  refuses arguments that would run, and a plan is refused for nothing else than these three checks.\<close>

theorem planning_adds_only_action_checks:
  assumes "map_of table (en_tool node) \<noteq> None \<or> din (en_tool node) registry"
    and "published_schema registry (contract_of ext table (en_tool node)) node = PDict schema"
    and "snd (validate_arguments (en_args node) schema) = []" and "distinct (map fst (en_args node))"
    and "\<forall>(k, v) \<in> set (en_args node). v \<noteq> PNone" and "\<forall>(k, s) \<in> set (properties_of schema). typed_schema (as_dict s)"
  shows "sv_valid (semantic_validate ext table registry [node]) \<longleftrightarrow>
    \<not> py_truthy (dget (en_args node) INVALID_JSON_KEY)
    \<and> set (required_all registry (en_tool node) (action_of node ''shell'')) \<subseteq> Collect (supplied node)
    \<and> (\<forall>names \<in> set (required_any registry (en_tool node) (action_of node ''shell'')). set names \<inter> Collect (supplied node) \<noteq> {})
    \<and> references_ok registry node"
proof -
  have "validate_args registry (contract_of ext table (en_tool node)) node = [] \<longleftrightarrow> \<not> py_truthy (dget (en_args node) INVALID_JSON_KEY)"
    using args_errors_gate [OF assms(3-6)] by (simp add: validate_args_def assms(2) Let_def)
  moreover have "sv_valid (semantic_validate ext table registry [node]) \<longleftrightarrow>
      validate_args registry (contract_of ext table (en_tool node)) node = []
      \<and> (\<not> py_truthy (dget (en_args node) INVALID_JSON_KEY) \<longrightarrow>
           validate_action_specific_required_args registry node = [] \<and> validate_reference_kinds registry node = [])"
    using assms(1) by (auto simp: semantic_validate_def Let_def validate_node_def)
  ultimately show ?thesis unfolding action_requirements_ok reference_kinds_ok by blast
qed

text \<open>A search without its query passes the gate of a schema that requires no field, and only the requirement of its action
  makes planning refuse it; with the query it is accepted.\<close>

theorem planning_adds_only_action_checks_witness:
  "let schema = [(''type'', PStr ''object''), (''properties'', PDict [(''query'', PDict [(''type'', PStr ''string''), (''maxLength'', PInt 5)])])];
       registry = [(''knowledge.manage'', PDict [(''args_schema'', PDict schema)])];
       search = (\<lambda>args. ExecutionNode ''n1'' ''knowledge.manage'' ((''action'', PStr ''search'') # args)) in
     snd (validate_arguments (en_args (search [])) schema) = [] \<and> \<not> sv_valid (semantic_validate None [] registry [search []])
     \<and> snd (validate_arguments (en_args (search [(''query'', PStr ''q'')])) schema) = []
     \<and> sv_valid (semantic_validate None [] registry [search [(''query'', PStr ''q'')]])"
proof -
  let ?schema = "[(''type'', PStr ''object''), (''properties'', PDict [(''query'', PDict [(''type'', PStr ''string''), (''maxLength'', PInt 5)])])]"
  let ?registry = "[(''knowledge.manage'', PDict [(''args_schema'', PDict ?schema)])]"
  let ?search = "\<lambda>args. ExecutionNode ''n1'' ''knowledge.manage'' ((''action'', PStr ''search'') # args)"
  have known: "map_of [] (en_tool (?search args)) \<noteq> None \<or> din (en_tool (?search args)) ?registry" for args
    by (simp add: ExecutionNode_def din_def)
  have schema: "published_schema ?registry (contract_of None [] (en_tool (?search []))) (?search []) = PDict ?schema"
      "published_schema ?registry (contract_of None [] (en_tool (?search [(''query'', PStr ''q'')]))) (?search [(''query'', PStr ''q'')]) = PDict ?schema"
    by code_simp+
  have gate: "snd (validate_arguments (en_args (?search [])) ?schema) = []"
      "snd (validate_arguments (en_args (?search [(''query'', PStr ''q'')])) ?schema) = []" by code_simp+
  have args: "distinct (map fst (en_args (?search [])))" "\<forall>(k, v) \<in> set (en_args (?search [])). v \<noteq> PNone"
      "distinct (map fst (en_args (?search [(''query'', PStr ''q'')])))" "\<forall>(k, v) \<in> set (en_args (?search [(''query'', PStr ''q'')])). v \<noteq> PNone"
    by (simp_all add: ExecutionNode_def)
  have typed: "\<forall>(k, s) \<in> set (properties_of ?schema). typed_schema (as_dict s)"
    by (simp add: typed_schema_def dget_def dget_or_def)
  have needs: "required_all ?registry ''knowledge.manage'' ''search'' = [''query'']" "required_any ?registry ''knowledge.manage'' ''search'' = []"
      "\<not> supplied (?search []) ''query''" "supplied (?search [(''query'', PStr ''q'')]) ''query''"
      "action_of (?search []) ''shell'' = ''search''" "action_of (?search [(''query'', PStr ''q'')]) ''shell'' = ''search''"
      "en_tool (?search []) = ''knowledge.manage''" "en_tool (?search [(''query'', PStr ''q'')]) = ''knowledge.manage''"
      "\<not> py_truthy (dget (en_args (?search [(''query'', PStr ''q'')])) INVALID_JSON_KEY)"
      "declared_references ?registry (?search [(''query'', PStr ''q'')]) = []" by code_simp+
  from planning_adds_only_action_checks [OF known schema(1) gate(1) args(1,2) typed]
  have "\<not> sv_valid (semantic_validate None [] ?registry [?search []])" unfolding needs(1,5,7) using needs(3) by simp
  moreover from planning_adds_only_action_checks [OF known schema(2) gate(2) args(3,4) typed]
  have "sv_valid (semantic_validate None [] ?registry [?search [(''query'', PStr ''q'')]])"
    unfolding needs(1,2,6,8) references_ok_def needs(10) using needs(4,9) by simp
  ultimately show ?thesis using gate by (simp only: Let_def simp_thms)
qed

definition demo_rows_schema :: pydict where
  "demo_rows_schema = [(''type'', PStr ''object''), (''properties'', PDict [(''rows'', PDict [(''type'', PStr ''array''),
     (''items'', PDict [(''type'', PStr ''object''), (''required'', PList [PStr ''id'']),
       (''properties'', PDict [(''id'', PDict [(''type'', PStr ''string'')])])])])])]"

text \<open>The converse fails for arrays of objects: the planning check accepts a batch with an item that lacks a required
  field, and the gate rejects the same arguments, so the call is refused only when it is attempted.\<close>

theorem planning_misses_nested_items:
  "sv_valid (semantic_validate None [] [(''probe'', PDict [(''args_schema'', PDict demo_rows_schema)])]
       [ExecutionNode ''n1'' ''probe'' [(''rows'', PList [PDict []])]])
   \<and> snd (validate_arguments [(''rows'', PList [PDict []])] demo_rows_schema) \<noteq> []"
  by code_simp

end
