(* ===== verification/Tool_Executor.thy ===== *)
theory Tool_Executor
  imports Orchestration Tool_Retry Semantic_Validator
begin

text \<open>
  Execution of one round of tool calls (\<open>StreamingToolExecutor\<close> in \<open>core/runtime_engine/query_loop.py\<close>, with
  the interception seam of \<open>execution_interceptors.py\<close>): the calls form an incremental dependency graph; its
  layers run one after the other; in a layer consecutive reads run together and every write is a barrier,
  entered in the operation ledger before it starts and settled after it ends.

  The state is the ledger, the part of \<open>ctx.extras\<close> that is JSON, the step evidence and the depths (also kept
  in \<open>ctx.extras\<close>), the budget, and a list of the calls that were handed to the tool runtime, in order, which
  the code does not keep. Reads of a group are executed in call order here; by the theory of their
  interleavings the results are the same in every order. Parameters: the environment of the retry loop,
  the hooks of the extensions, whether a read group exceeded its time limit and which retry records the
  interrupted tasks leave, what the handlers and late results do to the ledger while a call runs, the
  redaction of texts, time and hash. A call whose arguments were bound is checked again by the planning check
  of \<open>Semantic_Validator\<close>. Events sent to the emitter are left out, as is the float \<open>occurred_at\<close> of an unknown
  outcome.
\<close>

section \<open>Environment and state\<close>

record exec_env =
  xe_retry :: retry_env
  xe_ctx :: op_ctx
  xe_sha256 :: "string \<Rightarrow> string"
  xe_redact :: "string \<Rightarrow> string"
  xe_redact_output :: "string \<Rightarrow> string"
  xe_now :: "string \<Rightarrow> string \<Rightarrow> string"
  xe_hooks :: "(string \<times> (pydict \<Rightarrow> pyval option)) list"
  xe_group_timeout :: "string list \<Rightarrow> bool"
  xe_interrupted :: "string list \<Rightarrow> pydict \<Rightarrow> pydict"
  xe_background :: "string \<Rightarrow> ledger \<Rightarrow> ledger"
  xe_max_layer_concurrency :: int
  xe_max_global_concurrency :: int

record exec_state =
  xs_ledger :: ledger
  xs_extras :: pydict
  xs_evidence :: "(string \<times> step_evidence) list"
  xs_depths :: "(string \<times> int) list"
  xs_budget :: "budget_controller option"
  xs_max_parallel_width :: int
  xs_started :: "llm_tool_call list"

text \<open>A section of the executor answers with the new state, also when it raises.\<close>

type_synonym 'a exec_act = "exec_state \<Rightarrow> exec_state \<times> 'a res"

definition xret :: "'a \<Rightarrow> 'a exec_act" where
  "xret x st = (st, Inr x)"

definition xbind :: "'a exec_act \<Rightarrow> ('a \<Rightarrow> 'b exec_act) \<Rightarrow> 'b exec_act" where
  "xbind m f st = (case m st of (st', Inl e) \<Rightarrow> (st', Inl e) | (st', Inr x) \<Rightarrow> f x st')"

text \<open>An operation of the ledger: if it raises, the ledger is as before.\<close>

definition xledger :: "(ledger \<Rightarrow> (ledger \<times> 'a) res) \<Rightarrow> 'a exec_act" where
  "xledger f st =
     (case f (xs_ledger st) of
        Inl e \<Rightarrow> (st, Inl e)
      | Inr (ledger', x) \<Rightarrow> (st\<lparr>xs_ledger := ledger'\<rparr>, Inr x))"

type_synonym results = "(string \<times> tool_result) list"

abbreviation (input) read_only :: "exec_env \<Rightarrow> llm_tool_call \<Rightarrow> bool" where
  "read_only env tc \<equiv>
     is_read_only_call (re_extensions (xe_retry env)) (re_contracts (xe_retry env)) (tc_name tc) (tc_arguments tc)
       (as_dict (dget (re_registry (xe_retry env)) (canonical_tool_id (tc_name tc))))"

definition executor_is_read_only :: "exec_env \<Rightarrow> llm_tool_call \<Rightarrow> bool" where
  "executor_is_read_only env tc = read_only env tc"

definition redact_tool_error :: "exec_env \<Rightarrow> string \<Rightarrow> string" where
  "redact_tool_error env error =
     (let v = xe_redact_output env error in if v = [] then ''tool execution failed'' else v)"

section \<open>Uncertain outcomes\<close>

definition result_may_continue :: "tool_result \<Rightarrow> bool" where
  "result_may_continue result =
     (if tr_execution_may_continue result then True
      else
        let out = as_dict (tr_output result); metadata = as_dict (dget out ''metadata'')
        in py_truthy (dget out ''execution_may_continue'') \<or> py_truthy (dget metadata ''execution_may_continue''))"

definition is_reliable_network_readback :: "tool_result \<Rightarrow> llm_tool_call \<Rightarrow> pydict \<Rightarrow> bool" where
  "is_reliable_network_readback result tc pending =
     (let out = as_dict (tr_output result); connection_id = gets (tc_arguments tc) ''connection_id'' in
      tr_ok result \<and> dget out ''connection_ok'' = PBool True
      \<and> connection_id \<noteq> [] \<and> connection_id = gets pending ''connection_id''
      \<and> (case dget out ''evidence_claims'' of
           PList claims \<Rightarrow> list_ex (\<lambda>claim. is_dict claim
             \<and> py_lower (gets (as_dict claim) ''status'') = ''collected''
             \<and> gets (as_dict (py_or (dget (as_dict claim) ''target'') (PDict []))) ''connection_id'' = connection_id) claims
         | _ \<Rightarrow> False))"

definition mark_unknown_write_outcome :: "llm_tool_call \<Rightarrow> tool_result \<Rightarrow> pydict \<Rightarrow> pydict" where
  "mark_unknown_write_outcome tc result extras =
     (let out = as_dict (tr_output result);
          error0 = (case tr_error result of None \<Rightarrow> [] | Some e \<Rightarrow> e);
          record = [(''status'', PStr ''unknown''), (''tool_id'', PStr (canonical_tool_id (tc_name tc))), (''call_id'', PStr (tc_id tc)),
                    (''error_code'', PStr (if tr_error_code result \<noteq> [] then tr_error_code result
                                           else gets_or out ''error_code'' ''TOOL_TIMEOUT_UNCERTAIN'')),
                    (''error'', PStr (if error0 \<noteq> [] then error0 else gets_or out ''error'' ''tool outcome may still be running'')),
                    (''execution_may_continue'', PBool True),
                    (''connection_id'', PStr (gets (tc_arguments tc) ''connection_id'')),
                    (''operation_id'', PStr (gets out ''operation_id''))]
      in case dget extras ''unknown_outcome'' of
           PDict current \<Rightarrow> if current \<noteq> [] then extras else dset ''unknown_outcome'' (PDict record) extras
         | _ \<Rightarrow> dset ''unknown_outcome'' (PDict record) extras)"

text \<open>The fixed summary of a settlement by read-back, in UTF-8.\<close>

definition readback_summary :: string where
  "readback_summary =
     [CHR 0xE5, CHR 0x90, CHR 0x8C, CHR 0xE8, CHR 0xBF, CHR 0x9E, CHR 0xE6, CHR 0x8E, CHR 0xA5, CHR 0xE5, CHR 0x8F, CHR 0xAA,
      CHR 0xE8, CHR 0xAF, CHR 0xBB, CHR 0xE5, CHR 0x9B, CHR 0x9E, CHR 0xE8, CHR 0xAF, CHR 0xBB, CHR 0xE5, CHR 0xB7, CHR 0xB2,
      CHR 0xE5, CHR 0xAE, CHR 0x8C, CHR 0xE6, CHR 0x88, CHR 0x90, CHR 0xEF, CHR 0xBC, CHR 0x9B, CHR 0xE5, CHR 0x86, CHR 0x99,
      CHR 0xE5, CHR 0x85, CHR 0xA5, CHR 0xE7, CHR 0xBB, CHR 0x93, CHR 0xE6, CHR 0x9E, CHR 0x9C, CHR 0xE4, CHR 0xBB, CHR 0xA5,
      CHR 0xE5, CHR 0x9B, CHR 0x9E, CHR 0xE8, CHR 0xAF, CHR 0xBB, CHR 0xE8, CHR 0xAF, CHR 0x81, CHR 0xE6, CHR 0x8D, CHR 0xAE,
      CHR 0xE4, CHR 0xB8, CHR 0xBA, CHR 0xE5, CHR 0x87, CHR 0x86]"

definition readback_settlement :: "string \<Rightarrow> settlement" where
  "readback_settlement call_id =
     \<lparr>sm_status = ''reconciled'', sm_resolved_by = ''network_readback'', sm_error_code = [], sm_error = [],
      sm_result_summary = readback_summary, sm_resource_kind = [], sm_resource_id = [],
      sm_resolution_reason = ''same_connection_readback:'' @ call_id, sm_require_unresolved = True\<rparr>"

text \<open>The pending uncertain write, if any: a reconciliation shadows the original record.\<close>

definition pending_outcome :: "pydict \<Rightarrow> pyval" where
  "pending_outcome extras = py_or (dget extras ''unknown_outcome_reconciliation'') (dget extras ''unknown_outcome'')"

definition reconciles :: "llm_tool_call \<Rightarrow> tool_result \<Rightarrow> pydict \<Rightarrow> bool" where
  "reconciles tc result pending \<longleftrightarrow>
     is_reliable_network_readback result tc pending
     \<and> gets pending ''status'' = ''unknown''
     \<and> canonical_tool_id (tc_name tc) = gets pending ''tool_id''
     \<and> gets (tc_arguments tc) ''action'' \<in> {''read'', ''collect''}
     \<and> gets (tc_arguments tc) ''connection_id'' \<noteq> []
     \<and> gets (tc_arguments tc) ''connection_id'' = gets pending ''connection_id''"

definition settle_by_readback :: "exec_env \<Rightarrow> llm_tool_call \<Rightarrow> tool_result \<Rightarrow> unit exec_act" where
  "settle_by_readback env tc result st =
     (case pending_outcome (xs_extras st) of
        PDict pending \<Rightarrow>
          if reconciles tc result pending
          then
            let st' = st\<lparr>xs_extras := dset ''unknown_outcome_reconciliation''
                    (PDict (dupdate pending [(''status'', PStr ''reconciled''), (''reconciled_by_call_id'', PStr (tc_id tc))]))
                    (xs_extras st)\<rparr>;
                op_id = gets pending ''operation_id''
            in if op_id = [] then (st', Inr ())
               else xbind (xledger (settle_operation (xe_redact env) (xe_now env ''settle'' (tc_id tc))
                                     (oc_workspace_id (xe_ctx env)) op_id (readback_settlement (tc_id tc))))
                      (\<lambda>_. xret ()) st'
          else (st, Inr ())
      | _ \<Rightarrow> (st, Inr ()))"

section \<open>A group of reads\<close>

definition layer_timeout_result :: "llm_tool_call \<Rightarrow> tool_result" where
  "layer_timeout_result tc =
     (let error = ''parallel read-only tool layer exceeded its execution budget'' in
      \<lparr>tr_tool_name = tc_name tc, tr_call_id = tc_id tc,
       tr_output = PDict [(''ok'', PBool False), (''error_code'', PStr ''PARALLEL_LAYER_TIMEOUT''), (''error'', PStr error),
                          (''retryable'', PBool False), (''execution_may_continue'', PBool False)],
       tr_ok = False, tr_error = Some error, tr_error_code = ''PARALLEL_LAYER_TIMEOUT'',
       tr_execution_may_continue = False, tr_summary = []\<rparr>)"

fun execute_reads :: "retry_env \<Rightarrow> llm_tool_call list \<Rightarrow> pydict \<Rightarrow> tool_result list \<times> pydict" where
  "execute_reads env [] extras = ([], extras)"
| "execute_reads env (tc # tcs) extras =
     (let (result, extras1, _) = execute_one env tc extras;
          (results, extras2) = execute_reads env tcs extras1
      in (result # results, extras2))"

definition mark_read :: "tool_result \<Rightarrow> tool_result" where
  "mark_read result =
     (if result_may_continue result
      then result\<lparr>tr_output := PDict (dset ''read_only'' (PBool True) (as_dict (tr_output result)))\<rparr>
      else result)"

fun settle_reads :: "exec_env \<Rightarrow> (llm_tool_call \<times> tool_result) list \<Rightarrow> results \<Rightarrow> results exec_act" where
  "settle_reads env [] results = xret results"
| "settle_reads env ((tc, result) # rest) results =
     (let result' = mark_read result
      in xbind (settle_by_readback env tc result')
           (\<lambda>_. settle_reads env rest (AList.update (tc_id tc) result' results)))"

definition concurrency_limit :: "exec_env \<Rightarrow> int" where
  "concurrency_limit env = min (max 1 (xe_max_layer_concurrency env)) (max 1 (xe_max_global_concurrency env))"

definition execute_read_group :: "exec_env \<Rightarrow> llm_tool_call list \<Rightarrow> results \<Rightarrow> results exec_act" where
  "execute_read_group env reads results st =
     (if reads = [] then (st, Inr results)
      else
        let width = max (xs_max_parallel_width st) (min (int (length reads)) (concurrency_limit env));
            ids = map tc_id reads;
            (outcomes, extras') =
              (if xe_group_timeout env ids
               then (map layer_timeout_result reads, xe_interrupted env ids (xs_extras st))
               else execute_reads ((xe_retry env)\<lparr>re_budget := xs_budget st\<rparr>) reads (xs_extras st))
        in settle_reads env (zip reads outcomes) results
             (st\<lparr>xs_max_parallel_width := width, xs_extras := extras', xs_started := xs_started st @ reads\<rparr>))"

section \<open>A write\<close>

record interception =
  ix_extension_id :: string
  ix_interruption_id :: string
  ix_kind :: string
  ix_summary :: string
  ix_payload :: pydict

definition as_tool_output :: "interception \<Rightarrow> pydict" where
  "as_tool_output ix =
     [(''ok'', PBool True), (''executed'', PBool False), (''status'', PStr ''waiting_external_input''),
      (''external_interruption'', PDict
         [(''extension_id'', PStr (ix_extension_id ix)), (''interruption_id'', PStr (ix_interruption_id ix)),
          (''kind'', PStr (ix_kind ix)), (''summary'', PStr (ix_summary ix)), (''payload'', PDict (ix_payload ix))])]"

definition waiting_summary :: string where
  "waiting_summary =
     [CHR 0xE7, CHR 0xAD, CHR 0x89, CHR 0xE5, CHR 0xBE, CHR 0x85, CHR 0xE5, CHR 0xA4, CHR 0x96,
      CHR 0xE9, CHR 0x83, CHR 0xA8, CHR 0xE5, CHR 0x86, CHR 0xB3, CHR 0xE5, CHR 0xAE, CHR 0x9A]"

text \<open>The answer of one hook: a hook that raises, or whose answer is not a well-formed suspension, is
  skipped. The payload of a suspension is a dictionary.\<close>

definition interception_of :: "string \<Rightarrow> pyval \<Rightarrow> interception option" where
  "interception_of extension_id answer =
     (case answer of
        PDict answered \<Rightarrow>
          (let interruption_id = py_strip (gets answered ''interruption_id'');
               kind = py_strip (gets_or answered ''kind'' ''external_input'') in
           if dget answered ''action'' \<noteq> PStr ''suspend'' \<or> interruption_id = [] \<or> kind = [] then None
           else Some \<lparr>ix_extension_id = gets_or answered ''extension_id'' extension_id, ix_interruption_id = interruption_id,
                      ix_kind = kind, ix_summary = gets_or answered ''summary'' waiting_summary,
                      ix_payload = as_dict (py_or (dget answered ''payload'') (PDict []))\<rparr>)
      | _ \<Rightarrow> None)"

fun first_interception :: "(string \<times> (pydict \<Rightarrow> pyval option)) list \<Rightarrow> pydict \<Rightarrow> interception option" where
  "first_interception [] request = None"
| "first_interception ((extension_id, hook) # hooks) request =
     (case (case hook request of None \<Rightarrow> None | Some answer \<Rightarrow> interception_of extension_id answer) of
        Some ix \<Rightarrow> Some ix
      | None \<Rightarrow> first_interception hooks request)"

definition before_tool_execution :: "exec_env \<Rightarrow> llm_tool_call \<Rightarrow> pydict \<Rightarrow> interception option" where
  "before_tool_execution env tc extras =
     first_interception (xe_hooks env)
       [(''tool_id'', PStr (canonical_tool_id (tc_name tc))), (''call_id'', PStr (tc_id tc)),
        (''arguments'', PDict (tc_arguments tc)), (''workspace_id'', PStr (oc_workspace_id (xe_ctx env))),
        (''session_id'', PStr (oc_session_id (xe_ctx env))), (''run_id'', PStr []),
        (''request_id'', PStr (oc_request_id (xe_ctx env))),
        (''workbench_context'', PDict (as_dict (py_or (dget extras ''workbench_context'') (PDict []))))]"

definition execution_budget_timeout :: "llm_tool_call \<Rightarrow> tool_result" where
  "execution_budget_timeout tc =
     (let error = ''tool execution was not started because the remaining request budget was exhausted'' in
      \<lparr>tr_tool_name = tc_name tc, tr_call_id = tc_id tc,
       tr_output = PDict [(''ok'', PBool False), (''executed'', PBool False), (''error_code'', PStr ''TOOL_BUDGET_EXHAUSTED''),
                          (''error'', PStr error), (''retryable'', PBool False), (''execution_may_continue'', PBool False)],
       tr_ok = False, tr_error = Some error, tr_error_code = ''TOOL_BUDGET_EXHAUSTED'',
       tr_execution_may_continue = False, tr_summary = []\<rparr>)"

definition budget_exhausted :: "exec_state \<Rightarrow> bool" where
  "budget_exhausted st =
     (case xs_budget st of
        None \<Rightarrow> False
      | Some b \<Rightarrow> (case remaining_execution_seconds b of None \<Rightarrow> False | Some s \<Rightarrow> s \<le> 0))"

text \<open>The run of a started write, during which handlers and late results may use the ledger.\<close>

definition run_write :: "exec_env \<Rightarrow> llm_tool_call \<Rightarrow> tool_result exec_act" where
  "run_write env tc st =
     (let (result, extras', _) = execute_one ((xe_retry env)\<lparr>re_budget := xs_budget st\<rparr>) tc (xs_extras st)
      in (st\<lparr>xs_extras := extras', xs_ledger := xe_background env (tc_id tc) (xs_ledger st),
             xs_started := xs_started st @ [tc]\<rparr>, Inr result))"

definition start_and_run :: "exec_env \<Rightarrow> llm_tool_call \<Rightarrow> string \<Rightarrow> tool_result exec_act" where
  "start_and_run env tc op_id st =
     (if budget_exhausted st then (st, Inr (execution_budget_timeout tc))
      else
        xbind (xledger (start_operation (xe_now env ''start'' (tc_id tc)) (oc_workspace_id (xe_ctx env)) op_id))
          (\<lambda>_. run_write env tc) (st\<lparr>xs_max_parallel_width := max (xs_max_parallel_width st) 1\<rparr>))"

definition finish_write :: "exec_env \<Rightarrow> llm_tool_call \<Rightarrow> string \<Rightarrow> tool_result \<Rightarrow> tool_result exec_act" where
  "finish_write env tc op_id result =
     xbind (xledger (finish_operation (xe_redact env) (xe_now env ''finish'' (tc_id tc)) (oc_workspace_id (xe_ctx env)) op_id result))
       (\<lambda>record st.
          case map_of record ''operation_id'' of
            None \<Rightarrow> (st, Inl (KeyError ''operation_id''))
          | Some final_id \<Rightarrow>
              let result' = result\<lparr>tr_output := PDict (dset ''operation_id'' final_id (as_dict (tr_output result)))\<rparr>
              in (if result_may_continue result' \<and> \<not> executor_is_read_only env tc
                  then st\<lparr>xs_extras := mark_unknown_write_outcome tc result' (xs_extras st)\<rparr> else st,
                  Inr result'))"

definition execute_write :: "exec_env \<Rightarrow> llm_tool_call \<Rightarrow> tool_result exec_act" where
  "execute_write env tc st =
     (case before_tool_execution env tc (xs_extras st) of
        Some ix \<Rightarrow>
          (st, Inr \<lparr>tr_tool_name = tc_name tc, tr_call_id = tc_id tc, tr_output = PDict (as_tool_output ix), tr_ok = True,
                    tr_error = None, tr_error_code = [], tr_execution_may_continue = False, tr_summary = ix_summary ix\<rparr>)
      | None \<Rightarrow>
          xbind (xledger (plan_operation (xe_sha256 env) (xe_now env ''plan'' (tc_id tc))
                            ((xe_ctx env)\<lparr>oc_extras := xs_extras st\<rparr>) (canonical_tool_id (tc_name tc)) (tc_id tc) (tc_arguments tc)))
            (\<lambda>operation.
               case map_of operation ''operation_id'' of
                 None \<Rightarrow> (\<lambda>st. (st, Inl (KeyError ''operation_id'')))
               | Some op_id \<Rightarrow> xbind (start_and_run env tc (py_str op_id)) (finish_write env tc (py_str op_id))) st)"

section \<open>One layer\<close>

fun execute_calls :: "exec_env \<Rightarrow> llm_tool_call list \<Rightarrow> llm_tool_call list \<Rightarrow> results \<Rightarrow> results exec_act" where
  "execute_calls env [] reads results = execute_read_group env reads results"
| "execute_calls env (tc # tcs) reads results =
     (if executor_is_read_only env tc then execute_calls env tcs (reads @ [tc]) results
      else
        xbind (execute_read_group env reads results) (\<lambda>results1.
        xbind (execute_write env tc) (\<lambda>result.
        execute_calls env tcs [] (AList.update (tc_id tc) result results1))))"

text \<open>\<open>[result_by_id[tc.id] for tc in tool_calls]\<close>.\<close>

definition collect :: "llm_tool_call list \<Rightarrow> results \<Rightarrow> tool_result list res" where
  "collect calls results =
     rmapM (\<lambda>tc. case map_of results (tc_id tc) of None \<Rightarrow> Inl (KeyError (tc_id tc)) | Some r \<Rightarrow> Inr r) calls"

definition execute_independent_calls :: "exec_env \<Rightarrow> llm_tool_call list \<Rightarrow> tool_result list exec_act" where
  "execute_independent_calls env calls =
     xbind (execute_calls env calls [] []) (\<lambda>results st. (st, collect calls results))"

section \<open>A round\<close>

text \<open>Steps that run in one concurrent read group, and the peak number of concurrent calls.\<close>

definition flush_reads :: "string list \<Rightarrow> string list \<Rightarrow> string list" where
  "flush_reads read_group found = (if length read_group > 1 then found @ read_group else found)"

fun parallel_step_ids :: "exec_env \<Rightarrow> (string \<times> llm_tool_call) list \<Rightarrow> string list \<Rightarrow> string list \<Rightarrow> string list" where
  "parallel_step_ids env [] read_group found = flush_reads read_group found"
| "parallel_step_ids env ((step_id, tc) # steps) read_group found =
     (if executor_is_read_only env tc then parallel_step_ids env steps (read_group @ [step_id]) found
      else parallel_step_ids env steps [] (flush_reads read_group found))"

fun parallel_width :: "exec_env \<Rightarrow> llm_tool_call list \<Rightarrow> int \<Rightarrow> int \<Rightarrow> int" where
  "parallel_width env [] peak current_reads = peak"
| "parallel_width env (tc # tcs) peak current_reads =
     (if executor_is_read_only env tc then parallel_width env tcs (max peak (current_reads + 1)) (current_reads + 1)
      else parallel_width env tcs (max peak 1) 0)"

definition validate_resolved_call :: "exec_env \<Rightarrow> llm_tool_call \<Rightarrow> pydict \<Rightarrow> string" where
  "validate_resolved_call env tc resolved_args =
     (if tc_result_bindings tc = [] then []
      else
        let node = ExecutionNode (tc_id tc) (canonical_tool_id (tc_name tc)) resolved_args; retry = xe_retry env;
            validation = semantic_validate (re_extensions retry) (re_contracts retry) (re_registry retry) [node]
        in if sv_valid validation then []
           else py_join ''; '' (map (\<lambda>e. sx_code e @ '': '' @ sx_message e) (sv_errors validation)))"

definition orchestration_info :: "string \<Rightarrow> llm_tool_call \<Rightarrow> nat \<Rightarrow> bool \<Rightarrow> pyval" where
  "orchestration_info step_id tc layer is_parallel =
     PDict [(''step_id'', PStr step_id), (''depends_on'', PList (map PStr (tc_depends_on tc))), (''layer'', PInt (int layer)),
            (''parallel'', PBool is_parallel), (''failure_policy'', PStr (tc_failure_policy tc))]"

definition step_failure :: "llm_tool_call \<Rightarrow> string \<Rightarrow> string \<Rightarrow> pydict \<Rightarrow> tool_result" where
  "step_failure tc code error details =
     \<lparr>tr_tool_name = tc_name tc, tr_call_id = tc_id tc,
      tr_output = PDict ([(''ok'', PBool False), (''executed'', PBool False), (''error_code'', PStr code), (''error'', PStr error)] @ details),
      tr_ok = False, tr_error = Some error, tr_error_code = [], tr_execution_may_continue = False, tr_summary = []\<rparr>"

definition failed_step_dependencies :: "llm_tool_call \<Rightarrow> (string \<times> step_evidence) list \<Rightarrow> string list" where
  "failed_step_dependencies tc evidence =
     filter (\<lambda>dep. case map_of evidence dep of None \<Rightarrow> False | Some ev \<Rightarrow> \<not> se_ok ev) (tc_depends_on tc)"

text \<open>What becomes of a step when its layer is reached: a failure with the error kept as evidence, or the call
  with its bindings resolved.\<close>

definition prepare_step ::
  "exec_env \<Rightarrow> nat \<Rightarrow> string \<Rightarrow> llm_tool_call \<Rightarrow> (string \<times> step_evidence) list \<Rightarrow> (tool_result \<times> string) + llm_tool_call" where
  "prepare_step env layer step_id tc evidence =
     (let info = [(''_orchestration'', orchestration_info step_id tc layer False)];
          failed = failed_step_dependencies tc evidence in
      if failed \<noteq> [] then
        (let error = ''failed dependencies: '' @ repr_strs failed
         in Inl (step_failure tc ''DEPENDENCY_FAILED'' error
                   ((''failed_dependencies'', PList (map PStr failed)) # info), error))
      else
        (case resolve_bindings (tc_arguments tc) (tc_result_bindings tc) evidence of
           Inl e \<Rightarrow> Inl (step_failure tc ''RESULT_BINDING_FAILED'' (redact_tool_error env (exc_str e)) info, exc_str e)
         | Inr resolved \<Rightarrow>
             (let binding_error = validate_resolved_call env tc resolved in
              if binding_error \<noteq> []
              then Inl (step_failure tc ''RESULT_BINDING_INVALID'' binding_error info, binding_error)
              else Inr (tc\<lparr>tc_arguments := resolved, tc_step_id := step_id\<rparr>))))"

definition evidence_of :: "string \<Rightarrow> llm_tool_call \<Rightarrow> tool_result \<Rightarrow> string \<Rightarrow> step_evidence" where
  "evidence_of step_id tc result error =
     \<lparr>se_step_id = step_id, se_call_id = tc_id tc, se_tool_id = tc_name tc, se_ok = tr_ok result, se_output = tr_output result,
      se_error = error, se_action = gets (tc_arguments tc) ''action''\<rparr>"

record round_state =
  rn_evidence :: "(string \<times> step_evidence) list"
  rn_results :: results

fun prepare_layer ::
  "exec_env \<Rightarrow> nat \<Rightarrow> (string \<times> llm_tool_call) list \<Rightarrow> round_state \<Rightarrow> llm_tool_call list \<Rightarrow> round_state \<times> llm_tool_call list" where
  "prepare_layer env layer [] rn runnable = (rn, runnable)"
| "prepare_layer env layer ((step_id, tc) # steps) rn runnable =
     (case prepare_step env layer step_id tc (rn_evidence rn) of
        Inl (result, error) \<Rightarrow>
          prepare_layer env layer steps
            (rn\<lparr>rn_results := AList.update (tc_id tc) result (rn_results rn),
                rn_evidence := AList.update step_id (evidence_of step_id tc result error) (rn_evidence rn)\<rparr>) runnable
      | Inr tc' \<Rightarrow> prepare_layer env layer steps rn (runnable @ [tc']))"

text \<open>After the layer has run: the orchestration data are added to each result, which becomes evidence.\<close>

definition record_layer_result ::
  "nat \<Rightarrow> string list \<Rightarrow> llm_tool_call \<times> tool_result \<Rightarrow> round_state \<Rightarrow> round_state" where
  "record_layer_result layer parallel_steps = (\<lambda>(tc, result) rn.
     let step_id = call_step_id tc;
         result' = result\<lparr>tr_output := PDict (dset ''_orchestration''
                     (orchestration_info step_id tc layer (step_id \<in> set parallel_steps))
                     (as_dict (tr_output result)))\<rparr>
     in rn\<lparr>rn_results := AList.update (tc_id tc) result' (rn_results rn),
           rn_evidence := AList.update step_id
             (evidence_of step_id tc result' (case tr_error result of None \<Rightarrow> [] | Some e \<Rightarrow> e)) (rn_evidence rn)\<rparr>)"

definition steps_of :: "(string \<times> llm_tool_call) list \<Rightarrow> string list \<Rightarrow> (string \<times> llm_tool_call) list" where
  "steps_of calls_by_step layer =
     concat (map (\<lambda>s. case map_of calls_by_step s of None \<Rightarrow> [] | Some tc \<Rightarrow> [(s, tc)]) layer)"

definition execute_layer ::
  "exec_env \<Rightarrow> (string \<times> llm_tool_call) list \<Rightarrow> nat \<Rightarrow> string list \<Rightarrow> round_state \<Rightarrow> (round_state \<times> string list) exec_act" where
  "execute_layer env calls_by_step layer_index layer rn =
     (let (rn1, runnable) = prepare_layer env layer_index (steps_of calls_by_step layer) rn [];
          parallel_steps = parallel_step_ids env (map (\<lambda>tc. (call_step_id tc, tc)) runnable) [] []
      in xbind (execute_independent_calls env runnable)
           (\<lambda>results. xret (fold (record_layer_result layer_index parallel_steps) (zip runnable results) rn1, parallel_steps)))"

fun execute_layers ::
  "exec_env \<Rightarrow> (string \<times> llm_tool_call) list \<Rightarrow> nat \<Rightarrow> string list list \<Rightarrow> round_state \<Rightarrow> (round_state \<times> string list list) exec_act" where
  "execute_layers env calls_by_step n [] rn = xret (rn, [])"
| "execute_layers env calls_by_step n (layer # layers) rn =
     xbind (execute_layer env calls_by_step n layer rn) (\<lambda>(rn1, steps).
     xbind (execute_layers env calls_by_step (Suc n) layers rn1) (\<lambda>(rn2, rest).
     xret (rn2, steps # rest)))"

fun step_depths ::
  "(string \<times> llm_tool_call) list \<Rightarrow> (string \<times> int) list \<Rightarrow> (string \<times> int) list" where
  "step_depths [] depths = depths"
| "step_depths ((step_id, tc) # steps) depths =
     (let deps = map (\<lambda>d. case map_of depths d of None \<Rightarrow> 0 | Some n \<Rightarrow> n) (tc_depends_on tc)
      in step_depths steps (AList.update step_id (1 + (case deps of [] \<Rightarrow> 0 | _ \<Rightarrow> Max (set deps))) depths))"

definition invalid_plan_result :: "exec_env \<Rightarrow> py_error \<Rightarrow> llm_tool_call \<Rightarrow> tool_result" where
  "invalid_plan_result env e tc =
     (let error = redact_tool_error env (exc_str e)
      in step_failure tc ''ORCHESTRATION_INVALID'' error [(''retryable'', PBool True)])"

definition append_batch :: "string list list \<Rightarrow> string list list \<Rightarrow> nat \<Rightarrow> pydict \<Rightarrow> pydict" where
  "append_batch layers parallel_steps step_count extras =
     dset ''orchestration_batches''
       (PList (as_list (dget extras ''orchestration_batches'') @
          [PDict [(''layers'', PList (map (\<lambda>l. PList (map PStr l)) layers)),
                  (''parallel_steps'', PList (map (\<lambda>l. PList (map PStr (sorted_set l))) parallel_steps)),
                  (''step_count'', PInt (int step_count))]])) extras"

text \<open>The reservation in the budget: the number of calls, the depth of the graph, the peak concurrency.\<close>

definition max_or_0 :: "int list \<Rightarrow> int" where
  "max_or_0 xs = (case xs of [] \<Rightarrow> 0 | _ \<Rightarrow> Max (set xs))"

definition reserve_batch ::
  "exec_env \<Rightarrow> llm_tool_call list \<Rightarrow> (string \<times> llm_tool_call) list \<Rightarrow> (string \<times> int) list \<Rightarrow> string list list \<Rightarrow>
   budget_controller \<Rightarrow> budget_controller" where
  "reserve_batch env calls calls_by_step depths layers b =
     (let depth = max_or_0 (map (\<lambda>(s, _). case map_of depths s of None \<Rightarrow> 0 | Some n \<Rightarrow> n) calls_by_step);
          peak = max_or_0 (map (\<lambda>layer. min (parallel_width env (map snd (steps_of calls_by_step layer)) 0 0)
                                   (concurrency_limit env)) layers)
      in fst (reserve_execution_batch 0 (int (length calls)) depth
                (if peak = 0 then min 1 (int (length calls)) else peak) b))"

definition execute :: "exec_env \<Rightarrow> llm_tool_call list \<Rightarrow> tool_result list exec_act" where
  "execute env calls st =
     (case validate_incremental_graph calls (xs_evidence st)
             (Some (binding_target_allowed (re_registry (xe_retry env))))
             (Some (binding_source_allowed (re_registry (xe_retry env)))) of
        Inl e \<Rightarrow> (st, Inr (map (invalid_plan_result env e) calls))
      | Inr layers \<Rightarrow>
          (let calls_by_step = map (\<lambda>tc. (call_step_id tc, tc)) calls;
               depths = step_depths (steps_of calls_by_step (concat layers)) (xs_depths st);
               st1 = st\<lparr>xs_budget := map_option (reserve_batch env calls calls_by_step depths layers) (xs_budget st)\<rparr>
           in xbind (execute_layers env calls_by_step 1 layers \<lparr>rn_evidence = xs_evidence st, rn_results = []\<rparr>)
                (\<lambda>(rn, parallel_steps) st2.
                   (st2\<lparr>xs_evidence := rn_evidence rn, xs_depths := depths,
                        xs_extras := append_batch layers parallel_steps (length calls) (xs_extras st2)\<rparr>,
                    collect calls (rn_results rn))) st1))"

end
