(* ===== verification/Executor_Rounds.thy ===== *)
theory Executor_Rounds
  imports Tool_Executor
begin

text \<open>
  What a round of tool calls guarantees: one result per call in the order of the calls, no call before its
  dependencies have succeeded, every write entered in the ledger and settled there.
\<close>

section \<open>Atomic moves\<close>

text \<open>What the executor does to the ledger and to the list of started calls is a sequence of atomic moves: one
  locked section of the ledger, what the background does to the ledger during a call, and the start of a
  group of calls.\<close>

inductive executor_move :: "exec_env \<Rightarrow> exec_state \<Rightarrow> exec_state \<Rightarrow> bool" for env where
  silent: "xs_ledger st' = xs_ledger st \<Longrightarrow> xs_started st' = xs_started st \<Longrightarrow> executor_move env st st'"
| ledger_section: "exec_ledger_op (xe_sha256 env) (xe_redact env) now op (xs_ledger st) = Inr (ledger', x) \<Longrightarrow>
    executor_move env st (st\<lparr>xs_ledger := ledger'\<rparr>)"
| background: "executor_move env st (st\<lparr>xs_ledger := xe_background env call_id (xs_ledger st)\<rparr>)"
| start: "executor_move env st (st\<lparr>xs_started := xs_started st @ tcs\<rparr>)"

abbreviation executor_moves :: "exec_env \<Rightarrow> exec_state \<Rightarrow> exec_state \<Rightarrow> bool" where
  "executor_moves env \<equiv> (executor_move env)\<^sup>*\<^sup>*"

lemmas move_simps [intro] = executor_move.intros [THEN r_into_rtranclp [of "executor_move env"]] for env

lemma xbind_simps [simp]:
  "m st = (st', Inr x) \<Longrightarrow> xbind m f st = f x st'"
  "m st = (st', Inl e) \<Longrightarrow> xbind m f st = (st', Inl e)"
  by (simp_all add: xbind_def)

lemma xbind_Inr:
  assumes "xbind m f st = (st', Inr y)"
  obtains st1 x where "m st = (st1, Inr x)" "f x st1 = (st', Inr y)"
  using assms by (auto simp: xbind_def split: prod.splits sum.splits)

lemma moves_xbind:
  assumes "executor_moves env st (fst (m st))" and "\<And>x st'. executor_moves env st' (fst (f x st'))"
  shows "executor_moves env st (fst (xbind m f st))"
proof (cases "m st")
  case (Pair st1 r)
  then show ?thesis using assms(1) assms(2) [of st1]
    by (cases r) (auto intro: rtranclp_trans)
qed

lemma moves_xret [simp]: "executor_moves env st (fst (xret x st))"
  by (simp add: xret_def)

lemma moves_xledger:
  assumes "\<And>ledger' x. f (xs_ledger st) = Inr (ledger', x) \<Longrightarrow>
    \<exists>now op y. exec_ledger_op (xe_sha256 env) (xe_redact env) now op (xs_ledger st) = Inr (ledger', y)"
  shows "executor_moves env st (fst (xledger f st))"
  using assms by (fastforce simp: xledger_def split: sum.splits prod.splits)

text \<open>The four ledger operations of the executor are sections of the ledger.\<close>

lemma moves_plan: "executor_moves env st (fst (xledger (plan_operation (xe_sha256 env) now ctx tool call_id arguments) st))"
  by (rule moves_xledger) (rule exI [of _ now], rule exI [of _ "Plan ctx tool call_id arguments"], simp)

lemma moves_start: "executor_moves env st (fst (xledger (start_operation now ws op_id) st))"
  by (rule moves_xledger) (rule exI [of _ now], rule exI [of _ "Start ws op_id"], simp)

lemma moves_finish: "executor_moves env st (fst (xledger (finish_operation (xe_redact env) now ws op_id result) st))"
  by (rule moves_xledger) (rule exI [of _ now], rule exI [of _ "Finish ws op_id result"], simp)

lemma moves_settle: "executor_moves env st (fst (xledger (settle_operation (xe_redact env) now ws op_id a) st))"
  by (rule moves_xledger) (rule exI [of _ now], rule exI [of _ "Settle ws op_id a"], simp)

lemma moves_settle_by_readback: "executor_moves env st (fst (settle_by_readback env tc result st))"
proof -
  have "executor_moves env st (fst (xbind (xledger (settle_operation (xe_redact env) now ws op_id a)) (\<lambda>_. xret ()) (st\<lparr>xs_extras := e\<rparr>)))"
    for now ws op_id a e
    by (rule rtranclp_trans [of _ _ "st\<lparr>xs_extras := e\<rparr>"]) (auto intro: moves_xbind moves_settle)
  moreover have "executor_moves env st (st\<lparr>xs_extras := e\<rparr>)" for e by (rule move_simps) simp_all
  ultimately show ?thesis by (simp add: settle_by_readback_def Let_def split: pyval.splits)
qed

lemma moves_settle_reads: "executor_moves env st (fst (settle_reads env pairs results st))"
  by (induction env pairs results arbitrary: st rule: settle_reads.induct)
    (auto simp: Let_def intro!: moves_xbind moves_settle_by_readback)

lemma moves_read_group: "executor_moves env st (fst (execute_read_group env reads results st))"
proof (cases "reads = []")
  case False
  obtain outcomes extras' where o: "(if xe_group_timeout env (map tc_id reads)
      then (map layer_timeout_result reads, xe_interrupted env (map tc_id reads) (xs_extras st))
      else execute_reads ((xe_retry env)\<lparr>re_budget := xs_budget st\<rparr>) reads (xs_extras st)) = (outcomes, extras')"
    by (metis prod.exhaust)
  let ?w = "max (xs_max_parallel_width st) (min (int (length reads)) (concurrency_limit env))"
  let ?st1 = "st\<lparr>xs_started := xs_started st @ reads\<rparr>"
  let ?st2 = "st\<lparr>xs_max_parallel_width := ?w, xs_extras := extras', xs_started := xs_started st @ reads\<rparr>"
  have "executor_moves env st ?st1" by blast
  moreover have "executor_moves env ?st1 ?st2" by (rule move_simps(1)) simp_all
  moreover have "fst (execute_read_group env reads results st) = fst (settle_reads env (zip reads outcomes) results ?st2)"
    using False by (simp add: execute_read_group_def Let_def o)
  ultimately show ?thesis using moves_settle_reads [of env ?st2] by (metis rtranclp_trans)
qed (simp add: execute_read_group_def)

lemma moves_run_write: "executor_moves env st (fst (run_write env tc st))"
proof -
  obtain result extras' attempts where o: "execute_one ((xe_retry env)\<lparr>re_budget := xs_budget st\<rparr>) tc (xs_extras st) = (result, extras', attempts)"
    by (metis prod.exhaust)
  let ?st1 = "st\<lparr>xs_ledger := xe_background env (tc_id tc) (xs_ledger st)\<rparr>"
  let ?st2 = "?st1\<lparr>xs_started := xs_started ?st1 @ [tc]\<rparr>"
  have "executor_moves env st ?st1" "executor_moves env ?st1 ?st2" by blast+
  moreover have "executor_moves env ?st2 (fst (run_write env tc st))"
    by (rule move_simps(1)) (simp_all add: run_write_def o)
  ultimately show ?thesis by (meson rtranclp_trans)
qed

lemma moves_start_and_run: "executor_moves env st (fst (start_and_run env tc op_id st))"
proof (cases "budget_exhausted st")
  case False
  let ?st1 = "st\<lparr>xs_max_parallel_width := max (xs_max_parallel_width st) 1\<rparr>"
  have "executor_moves env st ?st1" by (rule move_simps(1)) simp_all
  moreover have "executor_moves env ?st1 (fst (start_and_run env tc op_id st))"
    using False by (simp add: start_and_run_def moves_xbind moves_start moves_run_write)
  ultimately show ?thesis by (rule rtranclp_trans)
qed (simp add: start_and_run_def)

lemma moves_finish_write: "executor_moves env st (fst (finish_write env tc op_id result st))"
  unfolding finish_write_def
proof (rule moves_xbind [OF moves_finish])
  fix entry st'
  show "executor_moves env st' (fst ((case map_of entry ''operation_id'' of
            None \<Rightarrow> (st', Inl (KeyError ''operation_id''))
          | Some final_id \<Rightarrow>
              let result' = result\<lparr>tr_output := PDict (dset ''operation_id'' final_id (as_dict (tr_output result)))\<rparr>
              in (if result_may_continue result' \<and> \<not> executor_is_read_only env tc
                  then st'\<lparr>xs_extras := mark_unknown_write_outcome tc result' (xs_extras st')\<rparr> else st',
                  Inr result'))))"
    by (auto simp: Let_def split: option.splits intro!: move_simps(1))
qed

lemma moves_execute_write: "executor_moves env st (fst (execute_write env tc st))"
  by (auto simp: execute_write_def split: option.splits
      intro!: moves_xbind moves_plan moves_start_and_run moves_finish_write)

lemma moves_execute_calls: "executor_moves env st (fst (execute_calls env calls reads results st))"
  by (induction env calls reads results arbitrary: st rule: execute_calls.induct)
    (auto intro!: moves_xbind moves_read_group moves_execute_write)

lemma moves_independent: "executor_moves env st (fst (execute_independent_calls env calls st))"
  unfolding execute_independent_calls_def by (rule moves_xbind [OF moves_execute_calls]) simp

lemma moves_layer: "executor_moves env st (fst (execute_layer env cbs n layer rn st))"
  by (simp add: execute_layer_def Let_def case_prod_unfold moves_xbind moves_independent)

lemma moves_layers: "executor_moves env st (fst (execute_layers env cbs n layers rn st))"
  by (induction env cbs n layers rn arbitrary: st rule: execute_layers.induct)
    (auto simp: case_prod_unfold intro!: moves_xbind moves_layer)

lemma moves_execute: "executor_moves env st (fst (execute env calls st))"
proof (cases "validate_incremental_graph calls (xs_evidence st)
             (Some (binding_target_allowed (re_registry (xe_retry env))))
             (Some (binding_source_allowed (re_registry (xe_retry env))))")
  case (Inr layers)
  let ?cbs = "map (\<lambda>tc. (call_step_id tc, tc)) calls"
  let ?depths = "step_depths (steps_of ?cbs (concat layers)) (xs_depths st)"
  let ?st1 = "st\<lparr>xs_budget := map_option (reserve_batch env calls ?cbs ?depths layers) (xs_budget st)\<rparr>"
  have "executor_moves env st ?st1" by (rule move_simps(1)) simp_all
  moreover have "executor_moves env ?st1 (fst (execute env calls st))"
    unfolding execute_def Inr sum.case Let_def
    by (rule moves_xbind [OF moves_layers]) (auto simp: case_prod_unfold intro!: move_simps(1))
  ultimately show ?thesis by (rule rtranclp_trans)
qed (simp add: execute_def)

section \<open>One result per call\<close>

lemma execute_node_id: "nr_node_id (runtime_execute_node limit ext table handlers cancelled timed_out node deps) = en_id node"
  by (auto simp: runtime_execute_node_def timeout_failure_def runtime_failure_def normalize_result_def Let_def split: option.splits sum.splits prod.splits)

lemma normalize_read_timeout_id [simp]:
  "nr_node_id (normalize_read_timeout_for_retry env node result) = nr_node_id result"
  by (simp add: normalize_read_timeout_for_retry_def)

lemma run_node_id [simp]: "nr_node_id (run_node env node) = en_id node"
  by (simp add: run_node_def execute_node_id)

lemma retried_result_id [simp]: "nr_node_id (retried_result env node decision) = en_id node"
  by (simp add: retried_result_def Let_def)

lemma maybe_retry_id:
  assumes "maybe_retry_node env node result extras = (final, extras', attempts)" and "nr_node_id result = en_id node"
  shows "nr_node_id final = en_id node"
  using assms
proof (induction "length attempts" arbitrary: node result extras attempts)
  case 0
  from 0(2) show ?case using 0(1,3) by (cases rule: maybe_retry_node_round) auto
next
  case (Suc n)
  from Suc.prems(1) show ?case
  proof (cases rule: maybe_retry_node_round)
    case (3 node' decision extras1 rest)
    have "n = length rest" using Suc.hyps(2) 3(6) by simp
    from Suc.hyps(1) [OF this 3(5)] show ?thesis by (simp add: 3(2))
  qed (use Suc.hyps(2) in simp_all)
qed

lemma execute_one_result:
  assumes "execute_one env tc extras = (result, extras', attempts)"
  shows "tr_call_id result = tc_id tc" and "is_dict (tr_output result)"
proof -
  have node: "en_id (call_node tc) = tc_id tc" by (simp add: call_node_def ExecutionNode_def)
  from assms obtain final where final: "result = from_tool_result final (tc_id tc)" and "nr_node_id final = tc_id tc"
    using maybe_retry_id [of env "call_node tc" _ _ _ _] node
    by (auto simp: execute_one_def Let_def split: if_splits prod.splits)
  then show "tr_call_id result = tc_id tc" "is_dict (tr_output result)"
    by (simp_all add: from_tool_result_def Let_def)
qed

definition results_ok :: "results \<Rightarrow> bool" where
  "results_ok results \<longleftrightarrow> (\<forall>k r. map_of results k = Some r \<longrightarrow> tr_call_id r = k \<and> is_dict (tr_output r))"

lemma results_ok_Nil [simp]: "results_ok []"
  by (simp add: results_ok_def)

lemma results_ok_update:
  "results_ok results \<Longrightarrow> tr_call_id r = k \<Longrightarrow> is_dict (tr_output r) \<Longrightarrow> results_ok (AList.update k r results)"
  by (simp add: results_ok_def update_conv')

lemma dom_update_results: "dom (map_of (AList.update k r results)) = insert k (dom (map_of results))"
  by (auto simp: update_conv')

lemma mark_read_result: "tr_call_id (mark_read result) = tr_call_id result"
  "is_dict (tr_output result) \<Longrightarrow> is_dict (tr_output (mark_read result))"
  by (simp_all add: mark_read_def)

lemma settle_by_readback_started: "xs_started (fst (settle_by_readback env tc result st)) = xs_started st"
  by (auto simp: settle_by_readback_def Let_def xbind_def xledger_def xret_def split: pyval.splits sum.splits prod.splits)

lemma settle_reads_started: "xs_started (fst (settle_reads env pairs results st)) = xs_started st"
proof (induction env pairs results arbitrary: st rule: settle_reads.induct)
  case (2 env tc result rest results)
  obtain st1 r where s: "settle_by_readback env tc (mark_read result) st = (st1, r)" by (metis prod.exhaust)
  have "xs_started st1 = xs_started st" using settle_by_readback_started [of env tc "mark_read result" st] by (simp add: s)
  then show ?case using 2 s by (cases r) (simp_all add: Let_def)
qed (simp add: xret_def)

lemma settle_reads_results:
  assumes "settle_reads env pairs results st = (st', Inr results')" and "results_ok results"
    and "\<forall>(tc, r) \<in> set pairs. tr_call_id r = tc_id tc \<and> is_dict (tr_output r)"
  shows "results_ok results' \<and> dom (map_of results') = dom (map_of results) \<union> (\<lambda>(tc, r). tc_id tc) ` set pairs"
  using assms
proof (induction env pairs results arbitrary: st rule: settle_reads.induct)
  case (2 env tc result rest results)
  from 2(2) obtain st1 where "settle_reads env rest (AList.update (tc_id tc) (mark_read result) results) st1 = (st', Inr results')"
    by (auto simp: Let_def elim!: xbind_Inr)
  from "2.IH" [OF refl this] 2(3,4) show ?case
    by (simp add: results_ok_update mark_read_result dom_update_results)
qed (auto simp: xret_def)

lemma execute_reads_results:
  "execute_reads env reads extras = (outcomes, extras') \<Longrightarrow>
     length outcomes = length reads \<and> (\<forall>(tc, r) \<in> set (zip reads outcomes). tr_call_id r = tc_id tc \<and> is_dict (tr_output r))"
proof (induction reads arbitrary: extras outcomes extras')
  case (Cons tc tcs)
  obtain result e1 attempts where o: "execute_one env tc extras = (result, e1, attempts)" by (metis prod.exhaust)
  obtain results e2 where r: "execute_reads env tcs e1 = (results, e2)" by (metis prod.exhaust)
  from Cons.prems have "outcomes = result # results" by (simp add: Let_def o r)
  with Cons.IH [OF r] execute_one_result [OF o] show ?case by simp
qed simp

lemma read_group_started:
  "xs_started (fst (execute_read_group env reads results st)) = xs_started st @ reads"
  by (simp add: execute_read_group_def Let_def case_prod_unfold settle_reads_started)

lemma read_group_results:
  assumes "execute_read_group env reads results st = (st', Inr results')" and "results_ok results"
  shows "results_ok results' \<and> dom (map_of results') = dom (map_of results) \<union> tc_id ` set reads"
proof (cases "reads = []")
  case False
  obtain outcomes extras' where o: "(if xe_group_timeout env (map tc_id reads)
      then (map layer_timeout_result reads, xe_interrupted env (map tc_id reads) (xs_extras st))
      else execute_reads ((xe_retry env)\<lparr>re_budget := xs_budget st\<rparr>) reads (xs_extras st)) = (outcomes, extras')"
    by (metis prod.exhaust)
  have len: "length outcomes = length reads \<and>
      (\<forall>(tc, r) \<in> set (zip reads outcomes). tr_call_id r = tc_id tc \<and> is_dict (tr_output r))"
  proof (cases "xe_group_timeout env (map tc_id reads)")
    case True
    then show ?thesis using o by (auto simp: zip_map2 zip_same_conv_map layer_timeout_result_def Let_def)
  next
    case False
    then show ?thesis using execute_reads_results o by (metis (mono_tags, lifting))
  qed
  from assms(1) False obtain st1 where "settle_reads env (zip reads outcomes) results st1 = (st', Inr results')"
    by (auto simp: execute_read_group_def Let_def o)
  from settle_reads_results [OF this assms(2)] len have
    r: "results_ok results' \<and> dom (map_of results') = dom (map_of results) \<union> (\<lambda>(tc, r). tc_id tc) ` set (zip reads outcomes)"
    by blast
  have "(\<lambda>(tc, r). tc_id tc) ` set (zip reads outcomes) = tc_id ` set reads"
    using len by (metis (no_types, lifting) case_prod_unfold image_cong image_image list.set_map map_fst_zip)
  with r show ?thesis by simp
qed (use assms in \<open>simp add: execute_read_group_def\<close>)

lemma xledger_started [simp]: "xs_started (fst (xledger f st)) = xs_started st"
  by (simp add: xledger_def split: sum.splits prod.splits)

lemma run_write_result:
  assumes "run_write env tc st = (st', Inr result)"
  shows "tr_call_id result = tc_id tc" and "is_dict (tr_output result)" and "xs_started st' = xs_started st @ [tc]"
proof -
  obtain res e a where o: "execute_one ((xe_retry env)\<lparr>re_budget := xs_budget st\<rparr>) tc (xs_extras st) = (res, e, a)"
    by (metis prod.exhaust)
  with assms have "res = result" "xs_started st' = xs_started st @ [tc]" by (auto simp: run_write_def)
  with execute_one_result [OF o] show "tr_call_id result = tc_id tc" "is_dict (tr_output result)"
    "xs_started st' = xs_started st @ [tc]" by simp_all
qed

lemma start_and_run_started:
  "xs_started (fst (start_and_run env tc op_id st)) \<in> {xs_started st, xs_started st @ [tc]}"
proof -
  let ?st1 = "st\<lparr>xs_max_parallel_width := max (xs_max_parallel_width st) 1\<rparr>"
  let ?s = "xledger (start_operation (xe_now env ''start'' (tc_id tc)) (oc_workspace_id (xe_ctx env)) op_id)"
  obtain st1 r where s: "?s ?st1 = (st1, r)" by (metis prod.exhaust)
  have "xs_started st1 = xs_started st" using xledger_started [of "start_operation (xe_now env ''start'' (tc_id tc)) (oc_workspace_id (xe_ctx env)) op_id" ?st1]
    by (simp add: s)
  moreover have "xs_started (fst (run_write env tc st1)) = xs_started st1 @ [tc]"
    by (simp add: run_write_def case_prod_unfold Let_def)
  ultimately show ?thesis using s by (cases r) (simp_all add: start_and_run_def)
qed

lemma start_and_run_result:
  assumes "start_and_run env tc op_id st = (st', Inr result)"
  shows "tr_call_id result = tc_id tc" and "is_dict (tr_output result)"
  using assms run_write_result
  by (auto simp: start_and_run_def execution_budget_timeout_def Let_def split: if_splits elim!: xbind_Inr)

lemma finish_write_started: "xs_started (fst (finish_write env tc op_id result st)) = xs_started st"
proof -
  let ?f = "xledger (finish_operation (xe_redact env) (xe_now env ''finish'' (tc_id tc)) (oc_workspace_id (xe_ctx env)) op_id result)"
  obtain st1 r where s: "?f st = (st1, r)" by (metis prod.exhaust)
  have "xs_started st1 = xs_started st"
    using xledger_started [of "finish_operation (xe_redact env) (xe_now env ''finish'' (tc_id tc)) (oc_workspace_id (xe_ctx env)) op_id result" st]
    by (simp add: s)
  with s show ?thesis by (cases r) (simp_all add: finish_write_def Let_def split: option.splits)
qed

lemma finish_write_result:
  assumes "finish_write env tc op_id result st = (st', Inr result')"
  shows "tr_call_id result' = tr_call_id result" and "is_dict (tr_output result')"
  using assms by (auto simp: finish_write_def Let_def split: option.splits elim!: xbind_Inr)

lemma execute_write_started: "xs_started (fst (execute_write env tc st)) \<in> {xs_started st, xs_started st @ [tc]}"
proof (cases "before_tool_execution env tc (xs_extras st)")
  case None
  let ?p = "plan_operation (xe_sha256 env) (xe_now env ''plan'' (tc_id tc))
              ((xe_ctx env)\<lparr>oc_extras := xs_extras st\<rparr>) (canonical_tool_id (tc_name tc)) (tc_id tc) (tc_arguments tc)"
  obtain st1 r where s: "xledger ?p st = (st1, r)" by (metis prod.exhaust)
  have st1: "xs_started st1 = xs_started st" using xledger_started [of ?p st] by (simp add: s)
  show ?thesis
  proof (cases "\<exists>operation op_id. r = Inr operation \<and> map_of operation ''operation_id'' = Some op_id")
    case True
    then obtain operation op_id where r: "r = Inr operation" "map_of operation ''operation_id'' = Some op_id" by blast
    obtain st2 r2 where s2: "start_and_run env tc (py_str op_id) st1 = (st2, r2)" by (metis prod.exhaust)
    have "xs_started st2 \<in> {xs_started st, xs_started st @ [tc]}"
      using start_and_run_started [of env tc "py_str op_id" st1] s2 st1 by simp
    then show ?thesis using None s s2 r finish_write_started [of env tc "py_str op_id" _ st2]
      by (cases r2) (simp_all add: execute_write_def)
  next
    case False
    then show ?thesis using None s st1 by (cases r) (auto simp: execute_write_def split: option.splits)
  qed
qed (simp add: execute_write_def)

lemma execute_write_result:
  assumes "execute_write env tc st = (st', Inr result)"
  shows "tr_call_id result = tc_id tc" and "is_dict (tr_output result)"
proof (atomize (full), cases "before_tool_execution env tc (xs_extras st)")
  case None
  from assms None obtain op_id st1 st2 r where
    "start_and_run env tc op_id st1 = (st2, Inr r)" "finish_write env tc op_id r st2 = (st', Inr result)"
    by (auto simp: execute_write_def split: option.splits elim!: xbind_Inr)
  then show "tr_call_id result = tc_id tc \<and> is_dict (tr_output result)"
    using start_and_run_result finish_write_result by metis
next
  case (Some ix)
  with assms show "tr_call_id result = tc_id tc \<and> is_dict (tr_output result)" by (auto simp: execute_write_def)
qed

text \<open>A layer starts its calls in order, each at most once, and has a result for each.\<close>

lemma execute_calls_started:
  "\<exists>started. xs_started (fst (execute_calls env calls reads results st)) = xs_started st @ started \<and> subseq started (reads @ calls)"
proof (induction env calls reads results arbitrary: st rule: execute_calls.induct)
  case (1 env reads results)
  then show ?case by (simp add: read_group_started)
next
  case (2 env tc tcs reads results)
  show ?case
  proof (cases "executor_is_read_only env tc")
    case True
    with "2.IH"(1) [OF True] show ?thesis by simp
  next
    case False
    obtain st1 r1 where g: "execute_read_group env reads results st = (st1, r1)" by (metis prod.exhaust)
    have s1: "xs_started st1 = xs_started st @ reads" using read_group_started [of env reads results st] by (simp add: g)
    obtain st2 r2 where w: "execute_write env tc st1 = (st2, r2)" by (metis prod.exhaust)
    have s2: "xs_started st2 \<in> {xs_started st1, xs_started st1 @ [tc]}" using execute_write_started [of env tc st1] by (simp add: w)
    show ?thesis
    proof (cases "\<exists>results1 result. r1 = Inr results1 \<and> r2 = Inr result")
      case True
      then obtain results1 result where r: "r1 = Inr results1" "r2 = Inr result" by blast
      from "2.IH"(2) [OF False, of result results1 st2] obtain started where
        i: "xs_started (fst (execute_calls env tcs [] (AList.update (tc_id tc) result results1) st2)) = xs_started st2 @ started"
        "subseq started tcs" by auto
      have run: "fst (execute_calls env (tc # tcs) reads results st) =
          fst (execute_calls env tcs [] (AList.update (tc_id tc) result results1) st2)"
        using False g w r by simp
      from s2 show ?thesis
      proof
        assume "xs_started st2 = xs_started st1"
        then show ?thesis using run i s1 by (intro exI [of _ "reads @ started"]) (auto intro: list_emb_append_mono)
      next
        assume "xs_started st2 \<in> {xs_started st1 @ [tc]}"
        then show ?thesis using run i s1 by (intro exI [of _ "reads @ tc # started"]) (auto intro: list_emb_append_mono)
      qed
    next
      case no_result: False
      have "fst (execute_calls env (tc # tcs) reads results st) \<in> {st1, st2}"
        using False g w no_result by (cases r1; cases r2) auto
      with s1 s2 have "xs_started (fst (execute_calls env (tc # tcs) reads results st)) \<in> {xs_started st @ reads, xs_started st @ (reads @ [tc])}"
        by auto
      moreover have "subseq reads (reads @ tc # tcs)" "subseq (reads @ [tc]) (reads @ tc # tcs)"
        by (auto intro: list_emb_append_mono [of _ reads reads "[tc]" "tc # tcs"])
      ultimately show ?thesis by blast
    qed
  qed
qed

lemma execute_calls_results:
  assumes "execute_calls env calls reads results st = (st', Inr results')" and "results_ok results"
  shows "results_ok results' \<and> dom (map_of results') = dom (map_of results) \<union> tc_id ` set (reads @ calls)"
  using assms
proof (induction env calls reads results arbitrary: st rule: execute_calls.induct)
  case (1 env reads results)
  then show ?case using read_group_results by simp
next
  case (2 env tc tcs reads results)
  show ?case
  proof (cases "executor_is_read_only env tc")
    case True
    with "2.IH"(1) [OF True] "2.prems" show ?thesis by simp
  next
    case False
    with "2.prems"(1) obtain results1 result st1 st2 where
      g: "execute_read_group env reads results st = (st1, Inr results1)" and w: "execute_write env tc st1 = (st2, Inr result)"
      and rest: "execute_calls env tcs [] (AList.update (tc_id tc) result results1) st2 = (st', Inr results')"
      by (auto elim!: xbind_Inr)
    note g' = read_group_results [OF g "2.prems"(2)]
    have "results_ok (AList.update (tc_id tc) result results1)"
      using results_ok_update g' execute_write_result [OF w] by blast
    from "2.IH"(2) [OF False rest this] g' show ?thesis by (auto simp: dom_update_results)
  qed
qed

lemma collect_total:
  assumes "results_ok results" and "tc_id ` set calls \<subseteq> dom (map_of results)"
  shows "\<exists>rs. collect calls results = Inr rs \<and> map tr_call_id rs = map tc_id calls \<and> list_all (\<lambda>r. is_dict (tr_output r)) rs
     \<and> length rs = length calls \<and> (\<forall>i < length calls. map_of results (tc_id (calls ! i)) = Some (rs ! i))"
  using assms(2)
proof (induction calls)
  case (Cons tc calls)
  then obtain rs where rs: "collect calls results = Inr rs" "map tr_call_id rs = map tc_id calls"
    "list_all (\<lambda>r. is_dict (tr_output r)) rs" "length rs = length calls"
    "\<forall>i < length calls. map_of results (tc_id (calls ! i)) = Some (rs ! i)" by auto
  from Cons.prems obtain r where r: "map_of results (tc_id tc) = Some r" by auto
  with assms(1) have "tr_call_id r = tc_id tc" "is_dict (tr_output r)" by (auto simp: results_ok_def)
  with rs r show ?case by (auto simp: collect_def nth_Cons split: nat.splits)
qed (simp add: collect_def)

lemma independent_calls_results:
  assumes "execute_calls env calls [] [] st = (st', Inr results)"
  obtains rs where "execute_independent_calls env calls st = (st', Inr rs)" "length rs = length calls"
    "\<forall>i < length calls. tr_call_id (rs ! i) = tc_id (calls ! i) \<and> is_dict (tr_output (rs ! i))"
proof -
  note r = execute_calls_results [OF assms results_ok_Nil]
  then have "tc_id ` set calls \<subseteq> dom (map_of results)" by simp
  from collect_total [OF conjunct1 [OF r] this] obtain rs where
    rs: "collect calls results = Inr rs" "map tr_call_id rs = map tc_id calls" "list_all (\<lambda>r. is_dict (tr_output r)) rs"
    "length rs = length calls" by blast
  show thesis
  proof (rule that)
    show "execute_independent_calls env calls st = (st', Inr rs)"
      using assms rs(1) by (simp add: execute_independent_calls_def)
    show "\<forall>i < length calls. tr_call_id (rs ! i) = tc_id (calls ! i) \<and> is_dict (tr_output (rs ! i))"
      using rs(2,3,4) by (auto simp: list_all_length dest: arg_cong [of _ _ "\<lambda>xs. xs ! _"]) (metis nth_map)
  qed (rule rs)
qed

section \<open>Layers\<close>

text \<open>A call is ready when no dependency has failed and its bindings resolve; the call that runs is the planned
  one with the resolved arguments.\<close>

definition ready :: "llm_tool_call \<Rightarrow> llm_tool_call \<Rightarrow> (string \<times> step_evidence) list \<Rightarrow> bool" where
  "ready tc tc' evidence \<longleftrightarrow> failed_step_dependencies tc evidence = []
     \<and> (\<exists>resolved. resolve_bindings (tc_arguments tc) (tc_result_bindings tc) evidence = Inr resolved
          \<and> tc' = tc\<lparr>tc_arguments := resolved, tc_step_id := call_step_id tc\<rparr>)"

lemma ready_ids:
  assumes "ready tc tc' evidence"
  shows "tc_id tc' = tc_id tc" "tc_name tc' = tc_name tc" "tc_depends_on tc' = tc_depends_on tc"
    "call_step_id tc' = call_step_id tc" "tc_result_bindings tc' = tc_result_bindings tc"
  using assms by (auto simp: ready_def call_step_id_def)

lemma prepare_step_Inr:
  "prepare_step env n (call_step_id tc) tc evidence = Inr tc' \<Longrightarrow> ready tc tc' evidence"
  by (auto simp: prepare_step_def Let_def ready_def split: if_splits sum.splits)

lemma prepare_step_Inl:
  "prepare_step env n s tc evidence = Inl (result, error) \<Longrightarrow> tr_call_id result = tc_id tc \<and> is_dict (tr_output result)"
  by (auto simp: prepare_step_def Let_def step_failure_def split: if_splits sum.splits)

abbreviation (input) agree_outside :: "string set \<Rightarrow> (string \<times> step_evidence) list \<Rightarrow> (string \<times> step_evidence) list \<Rightarrow> bool" where
  "agree_outside S ev ev' \<equiv> \<forall>d. d \<notin> S \<longrightarrow> map_of ev' d = map_of ev d"

lemma prepare_layer_spec:
  assumes "prepare_layer env n steps rn runnable = (rn', runnable')" and "\<forall>(s, tc) \<in> set steps. s = call_step_id tc"
    and "results_ok (rn_results rn)"
  shows "\<exists>calls. runnable' = runnable @ calls
    \<and> subseq (map call_step_id calls) (map fst steps)
    \<and> (\<forall>tc' \<in> set calls. \<exists>tc ev. (call_step_id tc, tc) \<in> set steps \<and> ready tc tc' ev
         \<and> agree_outside (fst ` set steps) (rn_evidence rn) ev)
    \<and> agree_outside (fst ` set steps) (rn_evidence rn) (rn_evidence rn')
    \<and> (\<forall>(s, tc) \<in> set steps. (s, tc_id tc) \<in> (\<lambda>c. (call_step_id c, tc_id c)) ` set calls
         \<or> map_of (rn_evidence rn') s \<noteq> None \<and> tc_id tc \<in> dom (map_of (rn_results rn')))
    \<and> results_ok (rn_results rn') \<and> dom (map_of (rn_results rn)) \<subseteq> dom (map_of (rn_results rn'))
    \<and> dom (map_of (rn_evidence rn)) \<subseteq> dom (map_of (rn_evidence rn'))"
  using assms
proof (induction steps arbitrary: rn runnable)
  case Nil
  then show ?case by auto
next
  case (Cons e steps)
  obtain s tc where e: "e = (s, tc)" by (cases e)
  have s: "s = call_step_id tc" using Cons.prems(2) e by simp
  show ?case
  proof (cases "prepare_step env n s tc (rn_evidence rn)")
    case (Inl p)
    obtain result error where p: "p = (result, error)" by (cases p)
    let ?rn = "rn\<lparr>rn_results := AList.update (tc_id tc) result (rn_results rn),
                rn_evidence := AList.update s (evidence_of s tc result error) (rn_evidence rn)\<rparr>"
    have ok: "results_ok (rn_results ?rn)"
      using prepare_step_Inl [OF Inl [unfolded p]] Cons.prems(3) by (simp add: results_ok_update)
    have run: "prepare_layer env n steps ?rn runnable = (rn', runnable')" using Cons.prems(1) by (simp add: e Inl p)
    from Cons.IH [OF run _ ok] Cons.prems(2) obtain calls where c: "runnable' = runnable @ calls"
      "subseq (map call_step_id calls) (map fst steps)"
      "\<forall>tc' \<in> set calls. \<exists>tc ev. (call_step_id tc, tc) \<in> set steps \<and> ready tc tc' ev \<and> agree_outside (fst ` set steps) (rn_evidence ?rn) ev"
      "agree_outside (fst ` set steps) (rn_evidence ?rn) (rn_evidence rn')"
      "\<forall>(s, tc) \<in> set steps. (s, tc_id tc) \<in> (\<lambda>c. (call_step_id c, tc_id c)) ` set calls
         \<or> map_of (rn_evidence rn') s \<noteq> None \<and> tc_id tc \<in> dom (map_of (rn_results rn'))"
      "results_ok (rn_results rn')" "dom (map_of (rn_results ?rn)) \<subseteq> dom (map_of (rn_results rn'))"
      "dom (map_of (rn_evidence ?rn)) \<subseteq> dom (map_of (rn_evidence rn'))" by auto
    have own: "map_of (rn_evidence rn') s \<noteq> None" "tc_id tc \<in> dom (map_of (rn_results rn'))"
      using c(7,8) by (auto simp: update_conv')
    have outside: "agree_outside (fst ` set (e # steps)) (rn_evidence rn) ev"
      if "agree_outside (fst ` set steps) (rn_evidence ?rn) ev" for ev
      using that by (simp add: e update_conv')
    show ?thesis
    proof (intro exI [of _ calls] conjI)
      show "\<forall>tc' \<in> set calls. \<exists>tc ev. (call_step_id tc, tc) \<in> set (e # steps) \<and> ready tc tc' ev
          \<and> agree_outside (fst ` set (e # steps)) (rn_evidence rn) ev"
        using c(3) outside by (metis list.set_intros(2))
      show "agree_outside (fst ` set (e # steps)) (rn_evidence rn) (rn_evidence rn')" using outside c(4) by blast
      show "\<forall>(s, tc) \<in> set (e # steps). (s, tc_id tc) \<in> (\<lambda>c. (call_step_id c, tc_id c)) ` set calls
         \<or> map_of (rn_evidence rn') s \<noteq> None \<and> tc_id tc \<in> dom (map_of (rn_results rn'))" using c(5) own by (simp add: e)
    qed (use c in \<open>auto simp: e dom_update_results update_conv'\<close>)
  next
    case (Inr tc')
    have rdy: "ready tc tc' (rn_evidence rn)" using prepare_step_Inr Inr s by blast
    have run: "prepare_layer env n steps rn (runnable @ [tc']) = (rn', runnable')" using Cons.prems(1) by (simp add: e Inr)
    from Cons.IH [OF run _ Cons.prems(3)] Cons.prems(2) obtain calls where c: "runnable' = (runnable @ [tc']) @ calls"
      "subseq (map call_step_id calls) (map fst steps)"
      "\<forall>tc' \<in> set calls. \<exists>tc ev. (call_step_id tc, tc) \<in> set steps \<and> ready tc tc' ev \<and> agree_outside (fst ` set steps) (rn_evidence rn) ev"
      "agree_outside (fst ` set steps) (rn_evidence rn) (rn_evidence rn')"
      "\<forall>(s, tc) \<in> set steps. (s, tc_id tc) \<in> (\<lambda>c. (call_step_id c, tc_id c)) ` set calls
         \<or> map_of (rn_evidence rn') s \<noteq> None \<and> tc_id tc \<in> dom (map_of (rn_results rn'))"
      "results_ok (rn_results rn')" "dom (map_of (rn_results rn)) \<subseteq> dom (map_of (rn_results rn'))"
      "dom (map_of (rn_evidence rn)) \<subseteq> dom (map_of (rn_evidence rn'))" by auto
    show ?thesis
    proof (intro exI [of _ "tc' # calls"] conjI)
      show "\<forall>t \<in> set (tc' # calls). \<exists>tc ev. (call_step_id tc, tc) \<in> set (e # steps) \<and> ready tc t ev
          \<and> agree_outside (fst ` set (e # steps)) (rn_evidence rn) ev"
      proof
        fix t assume "t \<in> set (tc' # calls)"
        then consider "t = tc'" | "t \<in> set calls" by auto
        then show "\<exists>tc ev. (call_step_id tc, tc) \<in> set (e # steps) \<and> ready tc t ev
            \<and> agree_outside (fst ` set (e # steps)) (rn_evidence rn) ev"
        proof cases
          case 1
          with rdy s e show ?thesis by (intro exI [of _ tc] exI [of _ "rn_evidence rn"]) simp
        next
          case 2
          with c(3) obtain tc ev where "(call_step_id tc, tc) \<in> set steps" "ready tc t ev"
            "agree_outside (fst ` set steps) (rn_evidence rn) ev" by blast
          then show ?thesis by (intro exI [of _ tc] exI [of _ ev]) simp
        qed
      qed
      show "\<forall>(s, tc) \<in> set (e # steps). (s, tc_id tc) \<in> (\<lambda>c. (call_step_id c, tc_id c)) ` set (tc' # calls)
         \<or> map_of (rn_evidence rn') s \<noteq> None \<and> tc_id tc \<in> dom (map_of (rn_results rn'))"
        using c(5) ready_ids [OF rdy] s by (auto simp: e)
      show "subseq (map call_step_id (tc' # calls)) (map fst (e # steps))"
        using c(2) ready_ids [OF rdy] s by (simp add: e)
    qed (use c in \<open>auto simp: e\<close>)
  qed
qed

lemma subseq_set_subset: "subseq xs ys \<Longrightarrow> set xs \<subseteq> set ys"
  by (auto dest: list_emb_set)

lemma subseq_distinct: "subseq xs ys \<Longrightarrow> distinct ys \<Longrightarrow> distinct xs"
  by (induction rule: list_emb.induct) (auto dest: subseq_set_subset)

lemma record_results_spec:
  assumes "\<forall>(tc, r) \<in> set pairs. tr_call_id r = tc_id tc" and "results_ok (rn_results rn)"
    and "rn' = fold (record_layer_result n parallel_steps) pairs rn"
  shows "agree_outside (call_step_id ` fst ` set pairs) (rn_evidence rn) (rn_evidence rn')
    \<and> dom (map_of (rn_evidence rn')) = dom (map_of (rn_evidence rn)) \<union> call_step_id ` fst ` set pairs
    \<and> dom (map_of (rn_results rn')) = dom (map_of (rn_results rn)) \<union> tc_id ` fst ` set pairs
    \<and> results_ok (rn_results rn')"
  using assms(1,2) unfolding assms(3)
proof (induction pairs arbitrary: rn)
  case (Cons p pairs)
  obtain tc r where p: "p = (tc, r)" by (cases p)
  let ?rn = "record_layer_result n parallel_steps p rn"
  have ok: "results_ok (rn_results ?rn)" using Cons.prems
    by (simp add: p record_layer_result_def Let_def results_ok_update)
  have ev: "map_of (rn_evidence ?rn) d = map_of (rn_evidence rn) d" if "d \<noteq> call_step_id tc" for d
    using that by (simp add: p record_layer_result_def Let_def update_conv')
  have doms: "dom (map_of (rn_evidence ?rn)) = insert (call_step_id tc) (dom (map_of (rn_evidence rn)))"
    "dom (map_of (rn_results ?rn)) = insert (tc_id tc) (dom (map_of (rn_results rn)))"
    by (auto simp: p record_layer_result_def Let_def update_conv')
  have all: "\<forall>(tc, r) \<in> set pairs. tr_call_id r = tc_id tc" using Cons.prems(1) by simp
  note ih = Cons.IH [OF all ok]
  show ?case unfolding fold_simps o_apply using ih ev doms by (auto simp: p)
qed simp

text \<open>One layer: only its steps change evidence, each of them gets evidence and a result, and the calls that
  it starts were ready on the evidence before the layer.\<close>

lemma execute_layer_spec:
  assumes run: "execute_layer env cbs n layer rn st = (st', Inr (rn', steps'))"
    and cbs: "\<forall>s \<in> set layer. \<exists>tc. map_of cbs s = Some tc \<and> call_step_id tc = s"
    and ok: "results_ok (rn_results rn)"
  shows "agree_outside (set layer) (rn_evidence rn) (rn_evidence rn')
    \<and> set layer \<union> dom (map_of (rn_evidence rn)) \<subseteq> dom (map_of (rn_evidence rn'))
    \<and> results_ok (rn_results rn') \<and> dom (map_of (rn_results rn)) \<subseteq> dom (map_of (rn_results rn'))
    \<and> (\<forall>s \<in> set layer. \<forall>tc. map_of cbs s = Some tc \<longrightarrow> tc_id tc \<in> dom (map_of (rn_results rn')))
    \<and> (\<exists>started. xs_started st' = xs_started st @ started \<and> subseq (map call_step_id started) layer
         \<and> (\<forall>tc' \<in> set started. \<exists>tc ev. map_of cbs (call_step_id tc') = Some tc \<and> ready tc tc' ev
              \<and> agree_outside (set layer) (rn_evidence rn) ev))"
proof -
  let ?steps = "steps_of cbs layer"
  obtain rn1 calls where prep: "prepare_layer env n ?steps rn [] = (rn1, calls)" by (metis prod.exhaust)
  let ?par = "parallel_step_ids env (map (\<lambda>tc. (call_step_id tc, tc)) calls) [] []"
  have fsts: "map fst ?steps = layer" using cbs
    by (induction layer) (auto simp: steps_of_def)
  then have dom_steps: "fst ` set ?steps = set layer" by (metis list.set_map)
  have steps: "\<forall>(s, tc) \<in> set ?steps. s = call_step_id tc"
    using cbs by (auto simp: steps_of_def split: option.splits)
  have steps_cbs: "map_of cbs (call_step_id tc) = Some tc" if "(call_step_id tc, tc) \<in> set ?steps" for tc
    using that by (auto simp: steps_of_def split: option.splits)
  from prepare_layer_spec [OF prep steps ok] have
    sub: "subseq (map call_step_id calls) layer"
    and rdy: "\<forall>tc' \<in> set calls. \<exists>tc ev. (call_step_id tc, tc) \<in> set ?steps \<and> ready tc tc' ev \<and> agree_outside (set layer) (rn_evidence rn) ev"
    and ev1: "agree_outside (set layer) (rn_evidence rn) (rn_evidence rn1)"
    and cover: "\<forall>(s, tc) \<in> set ?steps. (s, tc_id tc) \<in> (\<lambda>c. (call_step_id c, tc_id c)) ` set calls
         \<or> map_of (rn_evidence rn1) s \<noteq> None \<and> tc_id tc \<in> dom (map_of (rn_results rn1))"
    and ok1: "results_ok (rn_results rn1)" and doms: "dom (map_of (rn_results rn)) \<subseteq> dom (map_of (rn_results rn1))"
      "dom (map_of (rn_evidence rn)) \<subseteq> dom (map_of (rn_evidence rn1))"
    unfolding fsts dom_steps by simp_all
  from run obtain rs where ind: "execute_independent_calls env calls st = (st', Inr rs)"
    and rn': "rn' = fold (record_layer_result n ?par) (zip calls rs) rn1"
    by (auto simp: execute_layer_def Let_def prep xret_def elim!: xbind_Inr)
  from ind obtain results where calls_run: "execute_calls env calls [] [] st = (st', Inr results)"
    by (auto simp: execute_independent_calls_def elim!: xbind_Inr)
  from independent_calls_results [OF calls_run] ind have
    rs: "length rs = length calls" "\<forall>i < length calls. tr_call_id (rs ! i) = tc_id (calls ! i)" by (metis Pair_inject sum.inject(2))+
  have pairs: "\<forall>(tc, r) \<in> set (zip calls rs). tr_call_id r = tc_id tc" using rs by (auto simp: set_zip)
  have firsts: "fst ` set (zip calls rs) = set calls" using rs(1) by (metis list.set_map map_fst_zip)
  note rec = record_results_spec [OF pairs ok1 rn', unfolded firsts]
  have in_layer: "call_step_id ` set calls \<subseteq> set layer" using subseq_set_subset [OF sub] by simp
  have evidence: "agree_outside (set layer) (rn_evidence rn) (rn_evidence rn')"
  proof (intro allI impI)
    fix d assume "d \<notin> set layer"
    then show "map_of (rn_evidence rn') d = map_of (rn_evidence rn) d" using rec ev1 in_layer by (metis subsetD)
  qed
  have covered: "s \<in> dom (map_of (rn_evidence rn')) \<and> tc_id tc \<in> dom (map_of (rn_results rn'))"
    if "s \<in> set layer" "map_of cbs s = Some tc" for s tc
  proof -
    have "(s, tc) \<in> set ?steps" using that by (auto simp: steps_of_def split: option.splits)
    with cover have "(s, tc_id tc) \<in> (\<lambda>c. (call_step_id c, tc_id c)) ` set calls
         \<or> map_of (rn_evidence rn1) s \<noteq> None \<and> tc_id tc \<in> dom (map_of (rn_results rn1))" by blast
    then show ?thesis using rec by blast
  qed
  from execute_calls_started [of env calls "[]" "[]" st] calls_run obtain started where
    st: "xs_started st' = xs_started st @ started" "subseq started calls" by auto
  have started: "\<forall>tc' \<in> set started. \<exists>tc ev. map_of cbs (call_step_id tc') = Some tc \<and> ready tc tc' ev
      \<and> agree_outside (set layer) (rn_evidence rn) ev"
  proof
    fix tc' assume "tc' \<in> set started"
    then have "tc' \<in> set calls" using subseq_set_subset [OF st(2)] by blast
    from bspec [OF rdy this] obtain tc ev where r: "(call_step_id tc, tc) \<in> set ?steps" "ready tc tc' ev" "agree_outside (set layer) (rn_evidence rn) ev"
      by (elim exE conjE)
    then show "\<exists>tc ev. map_of cbs (call_step_id tc') = Some tc \<and> ready tc tc' ev \<and> agree_outside (set layer) (rn_evidence rn) ev"
      using steps_cbs [OF r(1)] ready_ids(4) [OF r(2)] by metis
  qed
  have order: "subseq (map call_step_id started) layer"
    using subseq_order.trans [OF subseq_map [OF st(2)] sub] .
  have layer: "set layer \<subseteq> dom (map_of (rn_evidence rn'))"
  proof
    fix s assume s: "s \<in> set layer"
    with cbs obtain tc where "map_of cbs s = Some tc" by (elim ballE exE conjE) auto
    with covered [OF s] show "s \<in> dom (map_of (rn_evidence rn'))" by simp
  qed
  show ?thesis
  proof (intro conjI exI [of _ started])
    show "set layer \<union> dom (map_of (rn_evidence rn)) \<subseteq> dom (map_of (rn_evidence rn'))"
      using layer doms(2) conjunct1 [OF conjunct2 [OF rec]] by (simp add: le_supI1)
    show "\<forall>s \<in> set layer. \<forall>tc. map_of cbs s = Some tc \<longrightarrow> tc_id tc \<in> dom (map_of (rn_results rn'))"
      using covered by simp
    show "results_ok (rn_results rn')" "dom (map_of (rn_results rn)) \<subseteq> dom (map_of (rn_results rn'))"
      using doms(1) conjunct2 [OF conjunct2 [OF rec]] by (simp_all add: le_supI1)
  qed (fact evidence st(1) order started)+
qed

text \<open>The order of the layers: a dependency of a step lies in an earlier layer, or outside of the layers with
  evidence at hand.\<close>

definition layers_ordered ::
  "(string \<times> llm_tool_call) list \<Rightarrow> string list list \<Rightarrow> (string \<times> step_evidence) list \<Rightarrow> bool" where
  "layers_ordered cbs layers ev \<longleftrightarrow>
     distinct (concat layers) \<and> (\<forall>s \<in> set (concat layers). \<exists>tc. map_of cbs s = Some tc \<and> call_step_id tc = s)
     \<and> (\<forall>i < length layers. \<forall>s \<in> set (layers ! i). \<forall>tc. map_of cbs s = Some tc \<longrightarrow>
          (\<forall>d \<in> set (tc_depends_on tc). (\<exists>j < i. d \<in> set (layers ! j)) \<or> d \<notin> set (concat layers) \<and> map_of ev d \<noteq> None))"

lemma layers_ordered_tail:
  assumes "layers_ordered cbs (layer # layers) ev"
    and "agree_outside (set layer) ev ev'" and "set layer \<subseteq> dom (map_of ev')"
  shows "layers_ordered cbs layers ev'"
  unfolding layers_ordered_def
proof (intro conjI allI impI ballI)
  show "distinct (concat layers)" using assms(1) by (simp add: layers_ordered_def)
  show "\<exists>tc. map_of cbs s = Some tc \<and> call_step_id tc = s" if "s \<in> set (concat layers)" for s
    using assms(1) that by (simp add: layers_ordered_def)
  fix i s tc d
  assume i: "i < length layers" "s \<in> set (layers ! i)" "map_of cbs s = Some tc" "d \<in> set (tc_depends_on tc)"
  from assms(1) have "(\<exists>j < Suc i. d \<in> set ((layer # layers) ! j)) \<or> d \<notin> set (concat (layer # layers)) \<and> map_of ev d \<noteq> None"
    unfolding layers_ordered_def using i by (metis (no_types, lifting) Suc_mono length_Cons nth_Cons_Suc)
  then consider "d \<in> set layer" | j where "j < i" "d \<in> set (layers ! j)" | "d \<notin> set (concat (layer # layers))" "map_of ev d \<noteq> None"
    by (metis less_Suc_eq_0_disj nth_Cons_0 nth_Cons_Suc)
  then show "(\<exists>j < i. d \<in> set (layers ! j)) \<or> d \<notin> set (concat layers) \<and> map_of ev' d \<noteq> None"
  proof cases
    case 1
    moreover have "d \<notin> set (concat layers)" using 1 assms(1) by (auto simp: layers_ordered_def)
    ultimately show ?thesis using assms(3) by auto
  next
    case 3
    then show ?thesis using assms(2) by simp
  qed auto
qed

lemma layers_ordered_head:
  assumes "layers_ordered cbs (layer # layers) ev" "s \<in> set layer" "map_of cbs s = Some tc" "d \<in> set (tc_depends_on tc)"
  shows "d \<notin> set (concat (layer # layers))" and "map_of ev d \<noteq> None"
  using assms unfolding layers_ordered_def by (metis length_greater_0_conv list.distinct(1) not_less_zero nth_Cons_0)+

text \<open>A call whose bindings read only declared dependencies is ready on any evidence that agrees on these.\<close>

definition bindings_declared :: "llm_tool_call \<Rightarrow> bool" where
  "bindings_declared tc \<longleftrightarrow> (\<forall>(target, reference) \<in> set (tc_result_bindings tc).
     \<exists>source_id path. parse_reference reference = Inr (source_id, path) \<and> source_id \<in> set (tc_depends_on tc))"

lemma resolve_bindings_cong:
  assumes "\<forall>(target, reference) \<in> set bindings. \<exists>i path. parse_reference reference = Inr (i, path) \<and> map_of ev i = map_of ev' i"
  shows "resolve_bindings arguments bindings ev = resolve_bindings arguments bindings ev'"
  using assms
proof (induction bindings arbitrary: arguments)
  case (Cons b bindings)
  obtain target reference where b: "b = (target, reference)" by (cases b)
  have "resolve_binding ev b arguments = resolve_binding ev' b arguments"
    using Cons.prems by (auto simp: b resolve_binding_def)
  with Cons show ?case by (cases "resolve_binding ev' b arguments") (simp_all add: resolve_bindings_def)
qed (simp add: resolve_bindings_def)

lemma ready_cong:
  assumes "bindings_declared tc" and "\<forall>d \<in> set (tc_depends_on tc). map_of ev d = map_of ev' d"
  shows "ready tc tc' ev \<longleftrightarrow> ready tc tc' ev'"
proof -
  have "failed_step_dependencies tc ev = failed_step_dependencies tc ev'"
    unfolding failed_step_dependencies_def by (rule filter_cong) (use assms(2) in auto)
  moreover have "resolve_bindings (tc_arguments tc) (tc_result_bindings tc) ev =
      resolve_bindings (tc_arguments tc) (tc_result_bindings tc) ev'"
    by (rule resolve_bindings_cong) (use assms in \<open>fastforce simp: bindings_declared_def\<close>)
  ultimately show ?thesis by (simp add: ready_def)
qed

lemma execute_layers_spec:
  assumes "execute_layers env cbs n layers rn st = (st', Inr (rn', par))"
    and "layers_ordered cbs layers (rn_evidence rn)" and "results_ok (rn_results rn)"
    and "\<forall>(s, tc) \<in> set cbs. bindings_declared tc"
  shows "agree_outside (set (concat layers)) (rn_evidence rn) (rn_evidence rn')
    \<and> set (concat layers) \<union> dom (map_of (rn_evidence rn)) \<subseteq> dom (map_of (rn_evidence rn'))
    \<and> results_ok (rn_results rn') \<and> dom (map_of (rn_results rn)) \<subseteq> dom (map_of (rn_results rn'))
    \<and> (\<forall>s \<in> set (concat layers). \<forall>tc. map_of cbs s = Some tc \<longrightarrow> tc_id tc \<in> dom (map_of (rn_results rn')))
    \<and> (\<exists>started. xs_started st' = xs_started st @ started \<and> subseq (map call_step_id started) (concat layers)
         \<and> (\<forall>tc' \<in> set started. \<exists>tc. map_of cbs (call_step_id tc') = Some tc \<and> ready tc tc' (rn_evidence rn')
              \<and> (\<forall>d \<in> set (tc_depends_on tc). map_of (rn_evidence rn') d \<noteq> None)))"
  using assms
proof (induction layers arbitrary: n rn st par)
  case Nil
  then show ?case by (auto simp: xret_def)
next
  case (Cons layer layers)
  from Cons.prems(1) obtain rn1 steps st1 par1 where
    one: "execute_layer env cbs n layer rn st = (st1, Inr (rn1, steps))"
    and rest: "execute_layers env cbs (Suc n) layers rn1 st1 = (st', Inr (rn', par1))"
    by (auto simp: xret_def elim!: xbind_Inr)
  have cbs: "\<forall>s \<in> set layer. \<exists>tc. map_of cbs s = Some tc \<and> call_step_id tc = s"
    using Cons.prems(2) by (simp add: layers_ordered_def)
  note o = execute_layer_spec [OF one cbs Cons.prems(3)]
  have ordered: "layers_ordered cbs layers (rn_evidence rn1)"
    by (rule layers_ordered_tail [OF Cons.prems(2)]) (use o in blast)+
  note r = Cons.IH [OF rest ordered _ Cons.prems(4)]
  obtain started1 where s1: "xs_started st1 = xs_started st @ started1" "subseq (map call_step_id started1) layer"
    "\<forall>tc' \<in> set started1. \<exists>tc ev. map_of cbs (call_step_id tc') = Some tc \<and> ready tc tc' ev \<and> agree_outside (set layer) (rn_evidence rn) ev"
    using o by blast
  have r': "agree_outside (set (concat layers)) (rn_evidence rn1) (rn_evidence rn')"
    "set (concat layers) \<union> dom (map_of (rn_evidence rn1)) \<subseteq> dom (map_of (rn_evidence rn'))"
    "results_ok (rn_results rn')" "dom (map_of (rn_results rn1)) \<subseteq> dom (map_of (rn_results rn'))"
    "\<forall>s \<in> set (concat layers). \<forall>tc. map_of cbs s = Some tc \<longrightarrow> tc_id tc \<in> dom (map_of (rn_results rn'))"
    using r o by blast+
  obtain started2 where s2: "xs_started st' = xs_started st1 @ started2" "subseq (map call_step_id started2) (concat layers)"
    "\<forall>tc' \<in> set started2. \<exists>tc. map_of cbs (call_step_id tc') = Some tc \<and> ready tc tc' (rn_evidence rn')
       \<and> (\<forall>d \<in> set (tc_depends_on tc). map_of (rn_evidence rn') d \<noteq> None)"
    using r o by blast
  have outside: "agree_outside (set (concat (layer # layers))) (rn_evidence rn) (rn_evidence rn')" using r'(1) o by simp
  have ready1: "\<exists>tc. map_of cbs (call_step_id tc') = Some tc \<and> ready tc tc' (rn_evidence rn')
       \<and> (\<forall>d \<in> set (tc_depends_on tc). map_of (rn_evidence rn') d \<noteq> None)" if tc': "tc' \<in> set started1" for tc'
  proof -
    from s1(3) tc' obtain tc ev where t: "map_of cbs (call_step_id tc') = Some tc" "ready tc tc' ev"
      "agree_outside (set layer) (rn_evidence rn) ev" by blast
    have in_layer: "call_step_id tc' \<in> set layer" using subseq_set_subset [OF s1(2)] tc' by auto
    have deps: "map_of (rn_evidence rn') d = map_of ev d \<and> map_of (rn_evidence rn') d \<noteq> None" if "d \<in> set (tc_depends_on tc)" for d
      using layers_ordered_head [OF Cons.prems(2) in_layer t(1) that] outside t(3) by auto
    have "bindings_declared tc" using Cons.prems(4) map_of_SomeD [OF t(1)] by auto
    with ready_cong [of tc ev "rn_evidence rn'"] t(2) deps have "ready tc tc' (rn_evidence rn')" by metis
    with t(1) deps show ?thesis by blast
  qed
  have "xs_started st' = xs_started st @ (started1 @ started2)" using s1(1) s2(1) by simp
  moreover have "subseq (map call_step_id (started1 @ started2)) (concat (layer # layers))"
    using list_emb_append_mono [OF s1(2) s2(2)] by simp
  moreover have "\<forall>tc' \<in> set (started1 @ started2). \<exists>tc. map_of cbs (call_step_id tc') = Some tc \<and> ready tc tc' (rn_evidence rn')
       \<and> (\<forall>d \<in> set (tc_depends_on tc). map_of (rn_evidence rn') d \<noteq> None)" using ready1 s2(3) by auto
  moreover have o': "set layer \<union> dom (map_of (rn_evidence rn)) \<subseteq> dom (map_of (rn_evidence rn1))"
    "dom (map_of (rn_results rn)) \<subseteq> dom (map_of (rn_results rn1))"
    "\<forall>s \<in> set layer. \<forall>tc. map_of cbs s = Some tc \<longrightarrow> tc_id tc \<in> dom (map_of (rn_results rn1))"
    using o by blast+
  have all: "set (concat (layer # layers)) = set layer \<union> set (concat layers)" by simp
  moreover have "set (concat (layer # layers)) \<union> dom (map_of (rn_evidence rn)) \<subseteq> dom (map_of (rn_evidence rn'))"
    using o'(1) r'(2) unfolding all by blast
  moreover have "dom (map_of (rn_results rn)) \<subseteq> dom (map_of (rn_results rn'))" using o'(2) r'(4) by blast
  moreover have "\<forall>s \<in> set (concat (layer # layers)). \<forall>tc. map_of cbs s = Some tc \<longrightarrow> tc_id tc \<in> dom (map_of (rn_results rn'))"
    using o'(3) r'(4,5) unfolding all by blast
  ultimately show ?case using outside r'(3) by blast
qed

section \<open>Rounds\<close>

abbreviation (input) plan_check :: "exec_env \<Rightarrow> llm_tool_call list \<Rightarrow> exec_state \<Rightarrow> string list list res" where
  "plan_check env calls st \<equiv> validate_incremental_graph calls (xs_evidence st)
     (Some (binding_target_allowed (re_registry (xe_retry env)))) (Some (binding_source_allowed (re_registry (xe_retry env))))"

lemma accepted_layers_ordered:
  assumes v: "validate_incremental_graph calls prior t u = Inr layers"
  defines "cbs \<equiv> map (\<lambda>tc. (call_step_id tc, tc)) calls"
  shows "layers_ordered cbs layers prior" and "\<forall>(s, tc) \<in> set cbs. bindings_declared tc"
    and "set (concat layers) = call_step_id ` set calls" and "tc \<in> set calls \<Longrightarrow> map_of cbs (call_step_id tc) = Some tc"
proof -
  note lay = validated_layers [OF v]
  have "distinct (map fst cbs)" using validate_Inr_D(1) [OF v] by (simp add: cbs_def comp_def)
  then have look: "map_of cbs (call_step_id tc) = Some tc" if "tc \<in> set calls" for tc
    using that by (intro map_of_is_SomeI) (auto simp: cbs_def)
  have listed: "tc \<in> set calls \<and> call_step_id tc = s" if "map_of cbs s = Some tc" for s tc
    using map_of_SomeD [OF that] by (auto simp: cbs_def)
  show "layers_ordered cbs layers prior"
    unfolding layers_ordered_def
  proof (intro conjI allI impI ballI)
    show "distinct (concat layers)" using lay by blast
    show "\<exists>tc. map_of cbs s = Some tc \<and> call_step_id tc = s" if "s \<in> set (concat layers)" for s
      using lay that look by (metis imageE)
    fix i s tc d
    assume i: "i < length layers" "s \<in> set (layers ! i)" "map_of cbs s = Some tc" "d \<in> set (tc_depends_on tc)"
    with listed have tc: "tc \<in> set calls" "call_step_id tc \<in> set (layers ! i)" by auto
    have "(\<exists>j<i. d \<in> set (layers ! j)) \<or> (d \<notin> call_step_id ` set calls \<and> d \<in> fst ` set prior)"
      using lay tc i(1,4) by blast
    then show "(\<exists>j < i. d \<in> set (layers ! j)) \<or> d \<notin> set (concat layers) \<and> map_of prior d \<noteq> None"
      using lay by (metis map_of_eq_None_iff)
  qed
  show "\<forall>(s, tc) \<in> set cbs. bindings_declared tc"
    using accepted_binding_checked [OF v] by (fastforce simp: cbs_def bindings_declared_def)
  show "set (concat layers) = call_step_id ` set calls" using lay by blast
  show "tc \<in> set calls \<Longrightarrow> map_of cbs (call_step_id tc) = Some tc" by (rule look)
qed

lemma execute_accepted:
  assumes run: "execute env calls st = (st', Inr rs)" and v: "plan_check env calls st = Inr layers"
  shows "map tr_call_id rs = map tc_id calls
    \<and> (\<exists>started. xs_started st' = xs_started st @ started \<and> subseq (map call_step_id started) (concat layers)
         \<and> (\<forall>tc' \<in> set started. \<exists>tc \<in> set calls. ready tc tc' (xs_evidence st')
              \<and> (\<forall>d \<in> set (tc_depends_on tc). map_of (xs_evidence st') d \<noteq> None)))"
proof -
  let ?cbs = "map (\<lambda>tc. (call_step_id tc, tc)) calls"
  let ?depths = "step_depths (steps_of ?cbs (concat layers)) (xs_depths st)"
  let ?st1 = "st\<lparr>xs_budget := map_option (reserve_batch env calls ?cbs ?depths layers) (xs_budget st)\<rparr>"
  let ?rn = "\<lparr>rn_evidence = xs_evidence st, rn_results = []\<rparr>"
  note acc = accepted_layers_ordered [OF v]
  from run v obtain rn par st2 where
    lay: "execute_layers env ?cbs 1 layers ?rn ?st1 = (st2, Inr (rn, par))"
    and st': "xs_evidence st' = rn_evidence rn" "xs_started st' = xs_started st2" and rs: "collect calls (rn_results rn) = Inr rs"
    by (auto simp: execute_def Let_def elim!: xbind_Inr)
  have ordered: "layers_ordered ?cbs layers (rn_evidence ?rn)" using acc(1) by simp
  note spec = execute_layers_spec [OF lay ordered _ acc(2)]
  have ok: "results_ok (rn_results rn)" and cover: "\<forall>s \<in> set (concat layers). \<forall>tc. map_of ?cbs s = Some tc \<longrightarrow> tc_id tc \<in> dom (map_of (rn_results rn))"
    using spec by auto
  have "tc_id ` set calls \<subseteq> dom (map_of (rn_results rn))"
    using cover acc(3,4) by blast
  from collect_total [OF ok this] rs have ids: "map tr_call_id rs = map tc_id calls" by auto
  from spec obtain started where s: "xs_started st2 = xs_started ?st1 @ started" "subseq (map call_step_id started) (concat layers)"
    "\<forall>tc' \<in> set started. \<exists>tc. map_of ?cbs (call_step_id tc') = Some tc \<and> ready tc tc' (rn_evidence rn)
       \<and> (\<forall>d \<in> set (tc_depends_on tc). map_of (rn_evidence rn) d \<noteq> None)" by auto
  have "\<exists>tc \<in> set calls. ready tc tc' (xs_evidence st') \<and> (\<forall>d \<in> set (tc_depends_on tc). map_of (xs_evidence st') d \<noteq> None)"
    if "tc' \<in> set started" for tc'
  proof -
    from s(3) that obtain tc where tc: "map_of ?cbs (call_step_id tc') = Some tc" "ready tc tc' (rn_evidence rn)"
      "\<forall>d \<in> set (tc_depends_on tc). map_of (rn_evidence rn) d \<noteq> None" by blast
    have "tc \<in> set calls" using map_of_SomeD [OF tc(1)] by auto
    with tc st'(1) show ?thesis by auto
  qed
  moreover have "xs_started st' = xs_started st @ started" using s(1) st'(2) by simp
  ultimately show ?thesis using ids s(2) by blast
qed

text \<open>C4: In a round that returns, the calls handed to the tool runtime are calls of the plan, each step at most
  once and in the order of the layers; every dependency of such a call has succeeded, and the arguments it
  runs with are the planned ones with each binding resolved from this evidence. A plan that the validator
  rejects starts nothing. Each call has exactly one result, in the order of the calls.\<close>

theorem round_respects_plan:
  assumes run: "execute env calls st = (st', Inr rs)"
  shows "map tr_call_id rs = map tc_id calls
    \<and> (\<exists>started. xs_started st' = xs_started st @ started \<and> distinct (map call_step_id started)
         \<and> (\<forall>layers. plan_check env calls st = Inr layers \<longrightarrow> subseq (map call_step_id started) (concat layers))
         \<and> (\<forall>e. plan_check env calls st = Inl e \<longrightarrow> started = [] \<and> xs_ledger st' = xs_ledger st)
         \<and> (\<forall>tc' \<in> set started. \<exists>tc \<in> set calls. tc_id tc' = tc_id tc \<and> tc_name tc' = tc_name tc \<and> call_step_id tc' = call_step_id tc
              \<and> (\<forall>d \<in> set (tc_depends_on tc). \<exists>ev. map_of (xs_evidence st') d = Some ev \<and> se_ok ev)
              \<and> resolve_bindings (tc_arguments tc) (tc_result_bindings tc) (xs_evidence st') = Inr (tc_arguments tc')))"
proof (cases "plan_check env calls st")
  case (Inl e)
  with run have r: "st' = st" "rs = map (invalid_plan_result env e) calls" by (simp_all add: execute_def)
  have "map tr_call_id rs = map tc_id calls"
    by (simp add: r(2) invalid_plan_result_def step_failure_def Let_def)
  with Inl r(1) show ?thesis by (intro conjI exI [of _ "[]"]) simp_all
next
  case (Inr layers)
  note acc = execute_accepted [OF run Inr]
  from acc obtain started where s: "xs_started st' = xs_started st @ started" "subseq (map call_step_id started) (concat layers)"
    "\<forall>tc' \<in> set started. \<exists>tc \<in> set calls. ready tc tc' (xs_evidence st')
              \<and> (\<forall>d \<in> set (tc_depends_on tc). map_of (xs_evidence st') d \<noteq> None)" by blast
  have "distinct (concat layers)" using validated_layers [OF Inr] by blast
  with s(2) have dist: "distinct (map call_step_id started)" by (metis subseq_distinct)
  have "\<exists>tc \<in> set calls. tc_id tc' = tc_id tc \<and> tc_name tc' = tc_name tc \<and> call_step_id tc' = call_step_id tc
              \<and> (\<forall>d \<in> set (tc_depends_on tc). \<exists>ev. map_of (xs_evidence st') d = Some ev \<and> se_ok ev)
              \<and> resolve_bindings (tc_arguments tc) (tc_result_bindings tc) (xs_evidence st') = Inr (tc_arguments tc')"
    if tc': "tc' \<in> set started" for tc'
  proof -
    from s(3) tc' obtain tc where tc: "tc \<in> set calls" "ready tc tc' (xs_evidence st')"
      "\<forall>d \<in> set (tc_depends_on tc). map_of (xs_evidence st') d \<noteq> None" by blast
    have "\<exists>ev. map_of (xs_evidence st') d = Some ev \<and> se_ok ev" if d: "d \<in> set (tc_depends_on tc)" for d
    proof -
      from tc(3) d obtain ev where ev: "map_of (xs_evidence st') d = Some ev" by blast
      with tc(2) d show ?thesis by (auto simp: ready_def failed_step_dependencies_def filter_empty_conv)
    qed
    moreover have "resolve_bindings (tc_arguments tc) (tc_result_bindings tc) (xs_evidence st') = Inr (tc_arguments tc')"
      using tc(2) by (auto simp: ready_def)
    ultimately show ?thesis using tc(1) ready_ids [OF tc(2)] by blast
  qed
  with acc s(1,2) dist Inr show ?thesis by auto
qed

text \<open>A round to evaluate: a read, and a write that depends on it.\<close>

definition demo_env :: exec_env where
  "demo_env =
     \<lparr>xe_retry = demo_retry_env\<lparr>re_timed_out := (\<lambda>node. False)\<rparr>,
      xe_ctx = \<lparr>oc_workspace_id = ''w'', oc_request_id = ''t'', oc_session_id = ''s'', oc_extras = []\<rparr>,
      xe_sha256 = (\<lambda>s. replicate 64 (CHR ''0'')), xe_redact = (\<lambda>s. s), xe_redact_output = (\<lambda>s. s),
      xe_now = (\<lambda>section call_id. ''now''), xe_hooks = [], xe_group_timeout = (\<lambda>ids. False),
      xe_interrupted = (\<lambda>ids extras. extras), xe_background = (\<lambda>call_id l. l),
      xe_max_layer_concurrency = 4, xe_max_global_concurrency = 8\<rparr>"

definition demo_state :: exec_state where
  "demo_state = \<lparr>xs_ledger = [], xs_extras = [], xs_evidence = [], xs_depths = [], xs_budget = None,
     xs_max_parallel_width = 0, xs_started = []\<rparr>"

lemma demo_round:
  "case execute demo_env [demo_read, demo_write] demo_state of
     (st', Inr rs) \<Rightarrow> map (\<lambda>tc. (tc_id tc, executor_is_read_only demo_env tc)) (xs_started st') = [(''c1'', True), (''c2'', False)]
   | _ \<Rightarrow> False"
  by code_simp

lemma demo_round_returns:
  obtains st' rs tc1 tc2 where "execute demo_env [demo_read, demo_write] demo_state = (st', Inr rs)"
    "xs_started st' = [tc1, tc2]" "tc_id tc1 = ''c1''" "tc_id tc2 = ''c2''" "\<not> executor_is_read_only demo_env tc2"
  using demo_round by (auto split: prod.splits sum.splits simp: map_eq_Cons_conv)

theorem round_respects_plan_witness:
  "\<exists>st' rs ev. execute demo_env [demo_read, demo_write] demo_state = (st', Inr rs)
     \<and> map tr_call_id rs = [''c1'', ''c2''] \<and> map tc_id (xs_started st') = [''c1'', ''c2'']
     \<and> map_of (xs_evidence st') ''s1'' = Some ev \<and> se_ok ev"
proof -
  obtain st' rs tc1 tc2 where run: "execute demo_env [demo_read, demo_write] demo_state = (st', Inr rs)"
    and started: "xs_started st' = [tc1, tc2]" "tc_id tc1 = ''c1''" "tc_id tc2 = ''c2''" by (rule demo_round_returns)
  have calls: "tc_id demo_read = ''c1''" "tc_id demo_write = ''c2''" "tc_depends_on demo_write = [''s1'']" "xs_started demo_state = []"
    by (simp_all add: demo_read_def demo_write_def demo_state_def LLMToolCall_def)
  note r = round_respects_plan [OF run]
  from conjunct2 [OF r] obtain ran where ran: "xs_started st' = xs_started demo_state @ ran"
    and ready: "\<forall>tc' \<in> set ran. \<exists>tc \<in> set [demo_read, demo_write]. tc_id tc' = tc_id tc \<and> tc_name tc' = tc_name tc
      \<and> call_step_id tc' = call_step_id tc
      \<and> (\<forall>d \<in> set (tc_depends_on tc). \<exists>ev. map_of (xs_evidence st') d = Some ev \<and> se_ok ev)
      \<and> resolve_bindings (tc_arguments tc) (tc_result_bindings tc) (xs_evidence st') = Inr (tc_arguments tc')"
    by (elim exE conjE)
  have "tc2 \<in> set ran" using ran started(1) calls(4) by (metis append_Nil list.set_intros(1,2))
  from bspec [OF ready this] obtain tc where tc: "tc \<in> set [demo_read, demo_write]" "tc_id tc2 = tc_id tc"
    "\<forall>d \<in> set (tc_depends_on tc). \<exists>ev. map_of (xs_evidence st') d = Some ev \<and> se_ok ev" by (elim bexE conjE)
  from tc(1,2) have "tc = demo_write" using started calls by auto
  with tc(3) calls(3) obtain ev where "map_of (xs_evidence st') ''s1'' = Some ev" "se_ok ev" by auto
  moreover have "map tr_call_id rs = [''c1'', ''c2'']" using conjunct1 [OF r] calls by simp
  ultimately show ?thesis using run started by simp
qed

end
