(* ===== verification/Executor_Journal.thy ===== *)
theory Executor_Journal
  imports Executor_Rounds
begin

text \<open>
  The tool executor and the operation ledger together: every call with side effects that reaches the tool
  runtime has been entered in the ledger and marked as started before, and when the round returns the ledger
  no longer shows it as planned or running. While a call runs, handlers, late results and other turns may use
  the ledger through its operations.
\<close>

section \<open>Well-formed ledgers\<close>

text \<open>A record carries its own operation id, and its status is a text.\<close>

definition ledger_wf :: "ledger \<Rightarrow> bool" where
  "ledger_wf l \<longleftrightarrow> (\<forall>ws op r. st_get l (ws, op) = Some r \<longrightarrow>
     dget r ''operation_id'' = PStr op \<and> dget r ''status'' = PStr (gets r ''status''))"

definition keeps_wf :: "pydict \<Rightarrow> pydict \<Rightarrow> bool" where
  "keeps_wf r w \<longleftrightarrow> dget w ''operation_id'' = dget r ''operation_id''
     \<and> (dget r ''status'' = PStr (gets r ''status'') \<longrightarrow> dget w ''status'' = PStr (gets w ''status''))"

lemma with_record_wf:
  assumes "with_record missing k body st = Inr (st', a)" and "ledger_wf st"
    and "\<And>r w a. body r = Inr (Some w, a) \<Longrightarrow> keeps_wf r w"
  shows "ledger_wf st'"
  using assms(1)
proof (rule with_record_Inr)
  fix r w assume r: "st_get st k = Some r" "body r = Inr (w, a)"
    and st': "st' = (case w of None \<Rightarrow> st | Some r' \<Rightarrow> st_put k r' st)"
  show "ledger_wf st'"
  proof (cases w)
    case (Some r')
    have "keeps_wf r r'" using assms(3) r(2) Some by blast
    then show ?thesis using assms(2) r(1) st' Some by (auto simp: ledger_wf_def keeps_wf_def)
  qed (use assms(2) st' in simp)
qed

lemma start_section_wf: "start_section now r = Inr (Some w, a) \<Longrightarrow> keeps_wf r w"
  by (auto simp: start_section_def Let_def keeps_wf_def pysimps split: if_splits)

lemma finish_section_wf: "finish_section redact now result r = Inr (Some w, a) \<Longrightarrow> keeps_wf r w"
  by (auto simp: finish_section_def Let_def keeps_wf_def pysimps result_status_def split: if_splits pyval.splits)

lemma link_section_wf: "link_section now kind ident r = Inr (Some w, a) \<Longrightarrow> keeps_wf r w"
  by (auto simp: link_section_def Let_def keeps_wf_def pysimps split: if_splits)

lemma settle_section_wf:
  "settle_section redact now a r = Inr (Some w, b) \<Longrightarrow> sm_status a \<noteq> [] \<Longrightarrow> keeps_wf r w"
  by (auto simp: settle_section_def settled_record_def Let_def keeps_wf_def pysimps split: if_splits)

lemma new_operation_wf:
  "dget (new_operation sha256 now ctx tool call_id arguments op_id) ''operation_id'' = PStr op_id"
  "gets (new_operation sha256 now ctx tool call_id arguments op_id) ''status'' = ''planned''"
  "dget (new_operation sha256 now ctx tool call_id arguments op_id) ''status'' = PStr ''planned''"
  by (simp_all add: new_operation_def pysimps gets_eq_of_dget)

lemma plan_operation_wf:
  assumes "plan_operation sha256 now ctx tool call_id arguments st = Inr (st', r)" and "ledger_wf st"
  shows "ledger_wf st'"
  using assms new_operation_wf
  by (auto simp: plan_operation_def ledger_path_def ledger_wf_def Let_def split: option.splits if_splits)

lemma ledger_step_wf:
  assumes "ledger_wf st"
  shows "ledger_wf (ledger_step sha256 redact nop st)"
proof -
  obtain now op where nop: "nop = (now, op)" by (cases nop)
  show ?thesis
  proof (cases "exec_ledger_op sha256 redact now op st")
    case (Inr p)
    obtain st' a where p: "p = (st', a)" by (cases p)
    have "ledger_wf st'"
    proof (cases op)
      case (Plan ctx tool_id call_id arguments)
      with Inr p assms show ?thesis by (auto intro: plan_operation_wf)
    next
      case (Start ws op_id)
      with Inr p assms show ?thesis by (auto simp: start_operation_def intro: with_record_wf start_section_wf)
    next
      case (Finish ws op_id result)
      with Inr p assms show ?thesis by (auto simp: finish_operation_def intro: with_record_wf finish_section_wf)
    next
      case (Link ws op_id kind ident)
      with Inr p assms show ?thesis
        by (auto simp: link_operation_resource_def Let_def split: if_splits option.splits intro: with_record_wf link_section_wf)
    next
      case (Settle ws op_id a)
      with Inr p obtain path y where s: "with_record (FileNotFoundError op_id) path (settle_section redact now a) st = Inr (st', y)"
        and "sm_status a \<in> {''succeeded'', ''failed'', ''blocked'', ''reconciled''}"
        by (auto simp: settle_operation_def)
      then have "sm_status a \<noteq> []" by auto
      with s assms show ?thesis by (auto intro: with_record_wf settle_section_wf)
    qed
    then show ?thesis by (simp add: ledger_step_def nop Inr p)
  qed (use assms in \<open>simp add: ledger_step_def nop\<close>)
qed

lemma ledger_run_wf: "ledger_wf st \<Longrightarrow> ledger_wf (fold (ledger_step sha256 redact) ops st)"
  by (induction ops arbitrary: st) (simp_all add: ledger_step_wf)

section \<open>Moves of the executor are histories of the ledger\<close>

abbreviation (input) background_uses_ledger :: "exec_env \<Rightarrow> bool" where
  "background_uses_ledger env \<equiv>
     \<forall>call_id l. \<exists>ops. xe_background env call_id l = fold (ledger_step (xe_sha256 env) (xe_redact env)) ops l"

lemma moves_history:
  assumes "executor_moves env st st'" and "background_uses_ledger env"
  shows "\<exists>ops. xs_ledger st' = fold (ledger_step (xe_sha256 env) (xe_redact env)) ops (xs_ledger st)"
  using assms(1)
proof (induction rule: rtranclp_induct)
  case base
  show ?case by (rule exI [of _ "[]"]) simp
next
  case (step st1 st2)
  from step.IH obtain ops where ops: "xs_ledger st1 = fold (ledger_step (xe_sha256 env) (xe_redact env)) ops (xs_ledger st)" by blast
  have "\<exists>ops. xs_ledger st2 = fold (ledger_step (xe_sha256 env) (xe_redact env)) ops (xs_ledger st1)"
    using step.hyps(2)
  proof (cases rule: executor_move.cases)
    case silent
    then show ?thesis by (intro exI [of _ "[]"]) simp
  next
    case (ledger_section now op ledger' x)
    then show ?thesis by (intro exI [of _ "[(now, op)]"]) (simp add: ledger_step_def)
  next
    case (background call_id)
    then show ?thesis using assms(2) by simp
  next
    case (start tcs)
    then show ?thesis by (intro exI [of _ "[]"]) simp
  qed
  then obtain ops' where "xs_ledger st2 = fold (ledger_step (xe_sha256 env) (xe_redact env)) ops' (xs_ledger st1)" by blast
  with ops show ?case by (intro exI [of _ "ops @ ops'"]) simp
qed

lemma moves_wf: "executor_moves env st st' \<Longrightarrow> background_uses_ledger env \<Longrightarrow> ledger_wf (xs_ledger st) \<Longrightarrow> ledger_wf (xs_ledger st')"
  using moves_history ledger_run_wf by metis

definition operation_key :: "exec_env \<Rightarrow> llm_tool_call \<Rightarrow> string \<times> string" where
  "operation_key env tc = (oc_workspace_id (xe_ctx env),
     operation_id (xe_sha256 env) (oc_workspace_id (xe_ctx env)) (oc_request_id (xe_ctx env)) (tc_id tc))"

text \<open>The ledger has a record of the call, with a status outside of the given ones.\<close>

definition noted :: "string set \<Rightarrow> exec_env \<Rightarrow> ledger \<Rightarrow> llm_tool_call \<Rightarrow> bool" where
  "noted S env l tc \<longleftrightarrow> (\<exists>r. st_get l (operation_key env tc) = Some r \<and> gets r ''status'' \<notin> S)"

abbreviation (input) early :: "string set \<Rightarrow> bool" where
  "early S \<equiv> S = {''planned''} \<or> S = {''planned'', ''running''}"

lemma allowed_late: "outcome_allowed\<^sup>*\<^sup>* oc oc' \<Longrightarrow> early S \<Longrightarrow> fst oc \<notin> S \<Longrightarrow> fst oc' \<notin> S"
  by (induction rule: rtranclp_induct) (auto simp: op_allowed_def)

lemma run_noted:
  assumes "noted S env l tc" and "early S"
  shows "noted S env (fold (ledger_step sha256 redact) ops l) tc"
proof -
  from assms(1) obtain r where r: "st_get l (operation_key env tc) = Some r" "gets r ''status'' \<notin> S" by (auto simp: noted_def)
  then have "map_option op_outcome (st_get l (operation_key env tc)) = Some (op_outcome r)" by simp
  from ledger.run_follows_transitions [OF this, of sha256 redact ops] obtain r' where
    r': "st_get (fold (ledger_step sha256 redact) ops l) (operation_key env tc) = Some r'"
    "outcome_allowed\<^sup>*\<^sup>* (op_outcome r) (op_outcome r')" by auto
  have "fst (op_outcome r') \<notin> S" by (rule allowed_late [OF r'(2) assms(2)]) (use r(2) in \<open>simp add: op_outcome_def\<close>)
  with r'(1) show ?thesis by (auto simp: noted_def op_outcome_def)
qed

lemma moves_noted:
  "executor_moves env st st' \<Longrightarrow> background_uses_ledger env \<Longrightarrow> early S \<Longrightarrow> noted S env (xs_ledger st) tc \<Longrightarrow> noted S env (xs_ledger st') tc"
  using moves_history run_noted by metis

section \<open>Journalling sections\<close>

definition journalled :: "exec_env \<Rightarrow> exec_state \<Rightarrow> bool \<Rightarrow> llm_tool_call \<Rightarrow> bool" where
  "journalled env st raised tc \<longleftrightarrow> executor_is_read_only env tc
     \<or> noted {''planned''} env (xs_ledger st) tc \<and> (raised \<or> noted {''planned'', ''running''} env (xs_ledger st) tc)"

definition journals :: "exec_env \<Rightarrow> 'a exec_act \<Rightarrow> bool" where
  "journals env m \<longleftrightarrow> (\<forall>st. ledger_wf (xs_ledger st) \<longrightarrow> executor_moves env st (fst (m st))
     \<and> (\<exists>started. xs_started (fst (m st)) = xs_started st @ started
          \<and> (\<forall>tc \<in> set started. journalled env (fst (m st)) (isl (snd (m st))) tc)))"

lemma journalsD:
  assumes "journals env m" and "ledger_wf (xs_ledger st)" and "m st = (st', r)"
  shows "\<exists>started. xs_started st' = xs_started st @ started \<and> (\<forall>tc \<in> set started. journalled env st' (isl r) tc)"
  using assms unfolding journals_def by (metis fst_conv snd_conv)

lemma moves_journalled:
  assumes "executor_moves env st st'" "background_uses_ledger env" "journalled env st raised tc" "raised \<Longrightarrow> raised'"
  shows "journalled env st' raised' tc"
  using assms(3,4) moves_noted [OF assms(1,2)] unfolding journalled_def by blast

lemma journals_xbind:
  assumes bg: "background_uses_ledger env" and m: "journals env m" and f: "\<And>x. journals env (f x)"
  shows "journals env (xbind m f)"
  unfolding journals_def
proof (intro allI impI)
  fix st :: exec_state assume wf: "ledger_wf (xs_ledger st)"
  obtain st1 r where s: "m st = (st1, r)" by (metis prod.exhaust)
  from m wf s obtain started1 where m1: "executor_moves env st st1" "xs_started st1 = xs_started st @ started1"
    "\<forall>tc \<in> set started1. journalled env st1 (isl r) tc" by (fastforce simp: journals_def)
  show "executor_moves env st (fst (xbind m f st)) \<and> (\<exists>started. xs_started (fst (xbind m f st)) = xs_started st @ started
          \<and> (\<forall>tc \<in> set started. journalled env (fst (xbind m f st)) (isl (snd (xbind m f st))) tc))"
  proof (cases r)
    case (Inl e)
    then show ?thesis using s m1 by (auto intro!: exI [of _ started1])
  next
    case (Inr x)
    obtain st2 r2 where s2: "f x st1 = (st2, r2)" by (metis prod.exhaust)
    have wf1: "ledger_wf (xs_ledger st1)" using moves_wf [OF m1(1) bg wf] .
    from f [of x] wf1 s2 obtain started2 where m2: "executor_moves env st1 st2" "xs_started st2 = xs_started st1 @ started2"
      "\<forall>tc \<in> set started2. journalled env st2 (isl r2) tc" by (fastforce simp: journals_def)
    have "journalled env st2 (isl r2) tc" if "tc \<in> set started1" for tc
      using moves_journalled [OF m2(1) bg, of "isl r" tc "isl r2"] m1(3) that Inr by simp
    then show ?thesis using s s2 Inr m1(1,2) m2
      by (intro conjI exI [of _ "started1 @ started2"]) (auto intro: rtranclp_trans)
  qed
qed

lemma journals_silent:
  assumes "\<And>st. executor_moves env st (fst (m st))" and "\<And>st. xs_started (fst (m st)) = xs_started st"
  shows "journals env m"
  unfolding journals_def using assms by (auto intro!: exI [of _ "[]"])

lemma journals_xret [simp]: "journals env (xret x)"
  by (rule journals_silent) (simp_all add: xret_def)

section \<open>The executor journals its writes\<close>

lemma journals_read_group:
  assumes "\<forall>tc \<in> set reads. executor_is_read_only env tc"
  shows "journals env (execute_read_group env reads results)"
  unfolding journals_def using assms moves_read_group read_group_started
  by (auto intro!: exI [of _ reads] simp: journalled_def)

lemma plan_record:
  assumes "xledger (plan_operation (xe_sha256 env) now ((xe_ctx env)\<lparr>oc_extras := extras\<rparr>) tool (tc_id tc) arguments) st = (st1, Inr operation)"
    and "ledger_wf (xs_ledger st)"
  shows "st_get (xs_ledger st1) (operation_key env tc) = Some operation
    \<and> map_of operation ''operation_id'' = Some (PStr (snd (operation_key env tc)))"
proof -
  let ?ctx = "(xe_ctx env)\<lparr>oc_extras := extras\<rparr>"
  from assms(1) have p: "plan_operation (xe_sha256 env) now ?ctx tool (tc_id tc) arguments (xs_ledger st) = Inr (xs_ledger st1, operation)"
    by (auto simp: xledger_def split: sum.splits prod.splits)
  from plan_operation_Inr [OF p] have r: "st_get (xs_ledger st1) (operation_key env tc) = Some operation"
    by (simp add: Let_def operation_key_def)
  moreover have "dget operation ''operation_id'' = PStr (snd (operation_key env tc))"
    using plan_operation_wf [OF p assms(2)] r by (simp add: ledger_wf_def operation_key_def)
  ultimately show ?thesis by (auto simp: dget_def split: option.splits)
qed

lemma start_noted:
  assumes "start_operation now ws op_id l = Inr (l', r)" and "ledger_wf l" and "(ws, op_id) = operation_key env tc"
  shows "noted {''planned''} env l' tc"
proof -
  from assms(1) have w: "with_record (FileNotFoundError op_id) (ws, op_id) (start_section now) l = Inr (l', r)"
    by (auto simp: start_operation_def dest!: ledger_path_workspace)
  from w show ?thesis
  proof (rule with_record_Inr)
    fix r0 w assume r0: "st_get l (ws, op_id) = Some r0" "start_section now r0 = Inr (w, r)"
      and l': "l' = (case w of None \<Rightarrow> l | Some r' \<Rightarrow> st_put (ws, op_id) r' l)"
    have "dget r0 ''status'' = PStr (gets r0 ''status'')" using assms(2) r0(1) by (simp add: ledger_wf_def)
    then show ?thesis using r0 l' unfolding noted_def assms(3) [symmetric]
      by (auto simp: start_section_def Let_def pysimps split: if_splits)
  qed
qed

lemma finish_noted:
  assumes "finish_operation redact now ws op_id result l = Inr (l', r)" and "ledger_wf l" and "(ws, op_id) = operation_key env tc"
  shows "noted {''planned'', ''running''} env l' tc"
proof -
  from assms(1) have w: "with_record (FileNotFoundError op_id) (ws, op_id) (finish_section redact now result) l = Inr (l', r)"
    by (auto simp: finish_operation_def dest!: ledger_path_workspace)
  from w show ?thesis
  proof (rule with_record_Inr)
    fix r0 w assume r0: "st_get l (ws, op_id) = Some r0" "finish_section redact now result r0 = Inr (w, r)"
      and l': "l' = (case w of None \<Rightarrow> l | Some r' \<Rightarrow> st_put (ws, op_id) r' l)"
    have s: "dget r0 ''status'' = PStr (gets r0 ''status'')" using assms(2) r0(1) by (simp add: ledger_wf_def)
    show ?thesis
    proof (cases w)
      case None
      then have "gets r0 ''status'' \<notin> {''planned'', ''running''}"
        using r0(2) s by (auto simp: finish_section_def Let_def split: if_splits pyval.splits)
      then show ?thesis using None r0(1) l' unfolding noted_def assms(3) [symmetric] by simp
    next
      case (Some r')
      from r0(2) Some obtain out where "gets r' ''status'' = result_status result out" by (auto elim: finish_section_Some)
      then have "gets r' ''status'' \<notin> {''planned'', ''running''}" using result_status_cases [of result out] by auto
      then show ?thesis using Some l' unfolding noted_def assms(3) [symmetric] by simp
    qed
  qed
qed

lemma start_and_run_noted:
  assumes run: "start_and_run env tc (snd (operation_key env tc)) st = (st', r)" and wf: "ledger_wf (xs_ledger st)"
    and bg: "background_uses_ledger env"
  shows "xs_started st' = xs_started st \<or>
    xs_started st' = xs_started st @ [tc] \<and> noted {''planned''} env (xs_ledger st') tc"
proof (cases "budget_exhausted st")
  case False
  let ?op = "snd (operation_key env tc)" and ?ws = "oc_workspace_id (xe_ctx env)" and ?now = "xe_now env ''start'' (tc_id tc)"
  let ?st1 = "st\<lparr>xs_max_parallel_width := max (xs_max_parallel_width st) 1\<rparr>"
  show ?thesis
  proof (cases "start_operation ?now ?ws ?op (xs_ledger st)")
    case (Inl e)
    then have "st' = ?st1" using run False by (simp add: start_and_run_def xledger_def)
    then show ?thesis by simp
  next
    case (Inr p)
    obtain l x where p: "p = (l, x)" by (cases p)
    let ?st2 = "?st1\<lparr>xs_ledger := l\<rparr>"
    have noted: "noted {''planned''} env (xs_ledger ?st2) tc"
      using start_noted [OF _ wf] Inr p by (simp add: operation_key_def)
    have fin: "st' = fst (run_write env tc ?st2)" using run False Inr p by (simp add: start_and_run_def xledger_def)
    have "noted {''planned''} env (xs_ledger st') tc"
      unfolding fin by (rule moves_noted [OF moves_run_write bg _ noted]) simp
    moreover have "xs_started st' = xs_started st @ [tc]" unfolding fin by (simp add: run_write_def case_prod_unfold Let_def)
    ultimately show ?thesis by blast
  qed
qed (use run in \<open>simp add: start_and_run_def\<close>)

lemma finish_write_noted:
  assumes run: "finish_write env tc (snd (operation_key env tc)) result st = (st', Inr result')" and wf: "ledger_wf (xs_ledger st)"
  shows "noted {''planned'', ''running''} env (xs_ledger st') tc"
proof -
  let ?op = "snd (operation_key env tc)" and ?ws = "oc_workspace_id (xe_ctx env)" and ?now = "xe_now env ''finish'' (tc_id tc)"
  from run obtain l entry where f: "finish_operation (xe_redact env) ?now ?ws ?op result (xs_ledger st) = Inr (l, entry)"
    and l: "xs_ledger st' = l"
    by (auto simp: finish_write_def xledger_def Let_def split: sum.splits prod.splits option.splits if_splits elim!: xbind_Inr)
  from finish_noted [OF f wf] show ?thesis by (simp add: l operation_key_def)
qed

lemma journals_execute_write:
  assumes bg: "background_uses_ledger env"
  shows "journals env (execute_write env tc)"
  unfolding journals_def
proof (intro allI impI conjI moves_execute_write)
  fix st :: exec_state assume wf: "ledger_wf (xs_ledger st)"
  let ?op = "snd (operation_key env tc)"
  let ?m = "execute_write env tc st"
  let ?plan = "xledger (plan_operation (xe_sha256 env) (xe_now env ''plan'' (tc_id tc))
      ((xe_ctx env)\<lparr>oc_extras := xs_extras st\<rparr>) (canonical_tool_id (tc_name tc)) (tc_id tc) (tc_arguments tc))"
  have "xs_started (fst ?m) = xs_started st \<or> xs_started (fst ?m) = xs_started st @ [tc] \<and> journalled env (fst ?m) (isl (snd ?m)) tc"
  proof (cases "before_tool_execution env tc (xs_extras st)")
    case None
    obtain st1 r1 where p: "?plan st = (st1, r1)" by (metis prod.exhaust)
    have mv1: "executor_moves env st st1" and s1: "xs_started st1 = xs_started st" using moves_plan [of env st] xledger_started p by (metis fst_conv)+
    show ?thesis
    proof (cases r1)
      case (Inl e)
      then show ?thesis using p None s1 by (simp add: execute_write_def)
    next
      case (Inr operation)
      have id: "map_of operation ''operation_id'' = Some (PStr ?op)" using plan_record [OF _ wf] p Inr by blast
      obtain st2 r2 where run: "start_and_run env tc ?op st1 = (st2, r2)" by (metis prod.exhaust)
      have wf1: "ledger_wf (xs_ledger st1)" using moves_wf [OF mv1 bg wf] .
      have wf2: "ledger_wf (xs_ledger st2)" using moves_wf [OF moves_start_and_run bg wf1] run by (metis fst_conv)
      note started = start_and_run_noted [OF run wf1 bg]
      show ?thesis
      proof (cases r2)
        case (Inl e)
        then show ?thesis using p None Inr id run started s1 by (auto simp: execute_write_def journalled_def)
      next
        case r2: (Inr result)
        obtain st3 r3 where fin: "finish_write env tc ?op result st2 = (st3, r3)" by (metis prod.exhaust)
        have m: "?m = (st3, r3)" using p None Inr id run r2 fin by (simp add: execute_write_def)
        have s3: "xs_started st3 = xs_started st2" using finish_write_started fin by (metis fst_conv)
        have mv3: "executor_moves env st2 st3" using moves_finish_write fin by (metis fst_conv)
        have "isl r3 \<or> noted {''planned'', ''running''} env (xs_ledger st3) tc"
          using finish_write_noted [OF _ wf2] fin by (cases r3) auto
        moreover have "noted {''planned''} env (xs_ledger st2) tc \<longrightarrow> noted {''planned''} env (xs_ledger st3) tc"
          using moves_noted [OF mv3 bg] by blast
        ultimately show ?thesis using started s1 s3 m by (auto simp: journalled_def)
      qed
    qed
  qed (simp add: execute_write_def)
  then show "\<exists>started. xs_started (fst ?m) = xs_started st @ started \<and> (\<forall>tc \<in> set started. journalled env (fst ?m) (isl (snd ?m)) tc)"
    by (elim disjE) (rule exI [of _ "[]"], simp, rule exI [of _ "[tc]"], simp)
qed

lemma journals_execute_calls:
  assumes "background_uses_ledger env" and "\<forall>tc \<in> set reads. executor_is_read_only env tc"
  shows "journals env (execute_calls env calls reads results)"
  using assms
proof (induction env calls reads results rule: execute_calls.induct)
  case (1 env reads results)
  then show ?case by (simp add: journals_read_group)
next
  case (2 env tc tcs reads results)
  show ?case
  proof (cases "executor_is_read_only env tc")
    case True
    then show ?thesis using "2.IH"(1) [OF True "2.prems"(1)] "2.prems"(2) by simp
  next
    case False
    then show ?thesis using "2.IH"(2) [OF False "2.prems"(1)] "2.prems"
      by (simp add: journals_xbind journals_read_group journals_execute_write)
  qed
qed

lemma journals_layers:
  assumes bg: "background_uses_ledger env"
  shows "journals env (execute_layers env cbs n layers rn)"
proof (induction layers arbitrary: n rn)
  case (Cons layer layers)
  have calls: "journals env (execute_independent_calls env calls)" for calls
    unfolding execute_independent_calls_def
    by (rule journals_xbind [OF bg journals_execute_calls [OF bg]]) (auto intro: journals_silent)
  have "journals env (execute_layer env cbs n layer rn)"
    by (simp add: execute_layer_def Let_def case_prod_unfold journals_xbind [OF bg] calls)
  then show ?case using Cons.IH by (auto simp: case_prod_unfold intro!: journals_xbind [OF bg])
qed simp

text \<open>C3: Every write is journalled: a call with side effects that reaches the tool runtime has a record of its own in
  the operation ledger, marked as started; even when the round is aborted by an exception it stays recorded,
  and when the round returns, the record is neither planned nor running, whatever handlers, late results and other
  turns did to the ledger through its operations in the meantime.\<close>

theorem writes_are_journalled:
  assumes "\<forall>call_id l. \<exists>ops. xe_background env call_id l = fold (ledger_step (xe_sha256 env) (xe_redact env)) ops l"
    and "ledger_wf (xs_ledger st)" and "execute env calls st = (st', r)"
  shows "ledger_wf (xs_ledger st') \<and> (\<exists>started. xs_started st' = xs_started st @ started
     \<and> (\<forall>tc \<in> set started. executor_is_read_only env tc
          \<or> (\<exists>entry. st_get (xs_ledger st') (operation_key env tc) = Some entry \<and> gets entry ''status'' \<noteq> ''planned''
               \<and> (isl r \<or> gets entry ''status'' \<noteq> ''running''))))"
proof -
  have bg: "background_uses_ledger env" by (rule assms(1))
  have mv: "executor_moves env st st'" using moves_execute [of env st calls] assms(3) by simp
  have "\<exists>started. xs_started st' = xs_started st @ started \<and> (\<forall>tc \<in> set started. journalled env st' (isl r) tc)"
  proof (cases "plan_check env calls st")
    case (Inl e)
    with assms(3) show ?thesis by (auto simp: execute_def)
  next
    case (Inr layers)
    let ?cbs = "map (\<lambda>tc. (call_step_id tc, tc)) calls"
    let ?depths = "step_depths (steps_of ?cbs (concat layers)) (xs_depths st)"
    let ?st1 = "st\<lparr>xs_budget := map_option (reserve_batch env calls ?cbs ?depths layers) (xs_budget st)\<rparr>"
    let ?fin = "\<lambda>(rn, parallel_steps) st2.
       (st2\<lparr>xs_evidence := rn_evidence rn, xs_depths := ?depths,
            xs_extras := append_batch layers parallel_steps (length calls) (xs_extras st2)\<rparr>, collect calls (rn_results rn))"
    have "journals env (?fin p)" for p
      by (rule journals_silent) (auto simp: case_prod_unfold intro!: move_simps(1))
    note j = journals_xbind [OF bg journals_layers [OF bg] this]
    have "xbind (execute_layers env ?cbs 1 layers \<lparr>rn_evidence = xs_evidence st, rn_results = []\<rparr>) ?fin ?st1 = (st', r)"
      using Inr assms(3) by (simp add: execute_def Let_def)
    from journalsD [OF j _ this] assms(2) show ?thesis by simp
  qed
  then obtain started where s: "xs_started st' = xs_started st @ started" and j: "\<forall>tc \<in> set started. journalled env st' (isl r) tc"
    by (elim exE conjE)
  have "executor_is_read_only env tc \<or> (\<exists>entry. st_get (xs_ledger st') (operation_key env tc) = Some entry
      \<and> gets entry ''status'' \<noteq> ''planned'' \<and> (isl r \<or> gets entry ''status'' \<noteq> ''running''))" if "tc \<in> set started" for tc
    using bspec [OF j that] by (auto simp: journalled_def noted_def)
  with s moves_wf [OF mv bg assms(2)] show ?thesis by (intro conjI exI [of _ started]) simp_all
qed

theorem writes_are_journalled_witness:
  "\<exists>st' rs entry. execute demo_env [demo_read, demo_write] demo_state = (st', Inr rs)
     \<and> st_get (xs_ledger st') (operation_key demo_env demo_write) = Some entry
     \<and> gets entry ''status'' \<notin> {''planned'', ''running''}"
proof -
  obtain st' rs tc1 tc' where run: "execute demo_env [demo_read, demo_write] demo_state = (st', Inr rs)"
    and tc': "xs_started st' = [tc1, tc']" "tc_id tc' = ''c2''" "\<not> executor_is_read_only demo_env tc'" by (rule demo_round_returns)
  have bg: "\<forall>call_id l. \<exists>ops. xe_background demo_env call_id l = fold (ledger_step (xe_sha256 demo_env) (xe_redact demo_env)) ops l"
    by (intro allI exI [of _ "[]"]) (simp add: demo_env_def)
  have wf: "ledger_wf (xs_ledger demo_state)" by (simp add: demo_state_def ledger_wf_def st_get_def)
  have "xs_started demo_state = []" by (simp add: demo_state_def)
  with writes_are_journalled [OF bg wf run] tc' obtain entry where
    entry: "st_get (xs_ledger st') (operation_key demo_env tc') = Some entry" "gets entry ''status'' \<notin> {''planned'', ''running''}" by auto
  have "operation_key demo_env tc' = operation_key demo_env demo_write"
    using tc'(2) by (simp add: operation_key_def demo_write_def LLMToolCall_def)
  with run entry show ?thesis by auto
qed

section \<open>A settlement that comes too late\<close>

text \<open>A read-back that would settle an uncertain write aborts the round when the late result of the handler has
  settled the operation before: the ledger raises, nothing of the group is returned, and the extras
  already say that the write was reconciled.\<close>

theorem late_settlement_aborts_round:
  assumes pending: "pending_outcome (fst (snd (execute_one ((xe_retry env)\<lparr>re_budget := xs_budget st\<rparr>) tc (xs_extras st)))) = PDict pending"
    and readback: "reconciles tc (mark_read (fst (execute_one ((xe_retry env)\<lparr>re_budget := xs_budget st\<rparr>) tc (xs_extras st)))) pending"
    and path: "ledger_path (oc_workspace_id (xe_ctx env)) (gets pending ''operation_id'') = Inr k"
    and settled: "st_get (xs_ledger st) k = Some entry" "gets entry ''status'' \<in> {''succeeded'', ''failed'', ''blocked''}"
    and in_time: "\<not> xe_group_timeout env [tc_id tc]"
  shows "\<exists>st'. execute_read_group env [tc] results st = (st', Inl (RuntimeError ''operation_already_resolved''))
    \<and> xs_ledger st' = xs_ledger st
    \<and> gets (as_dict (dget (xs_extras st') ''unknown_outcome_reconciliation'')) ''status'' = ''reconciled''"
proof -
  obtain result extras' attempts where run: "execute_one ((xe_retry env)\<lparr>re_budget := xs_budget st\<rparr>) tc (xs_extras st) = (result, extras', attempts)"
    by (metis prod.exhaust)
  have p: "pending_outcome extras' = PDict pending" and r: "reconciles tc (mark_read result) pending" using pending readback run by simp_all
  let ?w = "max (xs_max_parallel_width st) (min 1 (concurrency_limit env))"
  let ?st1 = "st\<lparr>xs_max_parallel_width := ?w, xs_extras := extras', xs_started := xs_started st @ [tc]\<rparr>"
  let ?extras = "dset ''unknown_outcome_reconciliation''
     (PDict (dupdate pending [(''status'', PStr ''reconciled''), (''reconciled_by_call_id'', PStr (tc_id tc))])) extras'"
  have op: "gets pending ''operation_id'' \<noteq> []" using path by (auto simp: ledger_path_def OPERATION_ID_RE_def)
  have settle: "settle_operation (xe_redact env) now (oc_workspace_id (xe_ctx env)) (gets pending ''operation_id'')
      (readback_settlement (tc_id tc)) (xs_ledger st) = Inl (RuntimeError ''operation_already_resolved'')" for now
    using path settled by (simp add: settle_operation_def with_record_def settle_section_def readback_settlement_def Let_def)
  have "settle_by_readback env tc (mark_read result) ?st1 = (?st1\<lparr>xs_extras := ?extras\<rparr>, Inl (RuntimeError ''operation_already_resolved''))"
    using p r op settle by (simp add: settle_by_readback_def Let_def xledger_def)
  then have "execute_read_group env [tc] results st = (?st1\<lparr>xs_extras := ?extras\<rparr>, Inl (RuntimeError ''operation_already_resolved''))"
    using in_time by (simp add: execute_read_group_def Let_def run)
  moreover have "gets (as_dict (dget ?extras ''unknown_outcome_reconciliation'')) ''status'' = ''reconciled''"
    by (simp add: pysimps)
  ultimately show ?thesis by simp
qed

text \<open>A read-back on the connection of an uncertain write that has already succeeded.\<close>

definition readback_env :: exec_env where
  "readback_env = demo_env\<lparr>xe_retry := demo_retry_env\<lparr>re_timed_out := (\<lambda>node. False),
     re_handlers := (\<lambda>node name. Some (\<lambda>arguments. Inr (PDict [(''ok'', PBool True), (''connection_ok'', PBool True),
       (''evidence_claims'', PList [PDict [(''status'', PStr ''collected''), (''target'', PDict [(''connection_id'', PStr ''k'')])]])])))\<rparr>\<rparr>"

definition readback_call :: llm_tool_call where
  "readback_call = LLMToolCall ''c1'' ''probe'' [(''action'', PStr ''read''), (''connection_id'', PStr ''k'')]"

definition demo_uncertain_write :: pydict where
  "demo_uncertain_write = [(''status'', PStr ''unknown''), (''tool_id'', PStr ''probe''), (''connection_id'', PStr ''k''),
     (''operation_id'', PStr (''op_'' @ replicate 24 (CHR ''0'')))]"

definition readback_state :: exec_state where
  "readback_state = demo_state\<lparr>xs_extras := [(''unknown_outcome'', PDict demo_uncertain_write)],
     xs_ledger := [((''w'', ''op_'' @ replicate 24 (CHR ''0'')), [(''status'', PStr ''succeeded'')])]\<rparr>"

theorem late_settlement_aborts_round_witness:
  "\<exists>st'. execute_read_group readback_env [readback_call] [] readback_state = (st', Inl (RuntimeError ''operation_already_resolved''))
    \<and> xs_ledger st' = xs_ledger readback_state
    \<and> gets (as_dict (dget (xs_extras st') ''unknown_outcome_reconciliation'')) ''status'' = ''reconciled''"
proof (rule late_settlement_aborts_round)
  show "pending_outcome (fst (snd (execute_one ((xe_retry readback_env)\<lparr>re_budget := xs_budget readback_state\<rparr>) readback_call
      (xs_extras readback_state)))) = PDict demo_uncertain_write" by code_simp
  show "reconciles readback_call (mark_read (fst (execute_one ((xe_retry readback_env)\<lparr>re_budget := xs_budget readback_state\<rparr>)
      readback_call (xs_extras readback_state)))) demo_uncertain_write" by code_simp
  show "ledger_path (oc_workspace_id (xe_ctx readback_env)) (gets demo_uncertain_write ''operation_id'') =
      Inr (''w'', ''op_'' @ replicate 24 (CHR ''0''))" by code_simp
  show "st_get (xs_ledger readback_state) (''w'', ''op_'' @ replicate 24 (CHR ''0'')) = Some [(''status'', PStr ''succeeded'')]" by code_simp
  show "gets [(''status'', PStr ''succeeded'')] ''status'' \<in> {''succeeded'', ''failed'', ''blocked''}" by code_simp
  show "\<not> xe_group_timeout readback_env [tc_id readback_call]" by code_simp
qed

end
