(* ===== verification/Call_Intake.thy ===== *)
theory Call_Intake
  imports Tool_Executor Recovery_Goals
begin

text \<open>
  The calls of a model response on their way to the executor (\<open>core/runtime_engine/query_loop.py\<close>): parsing
  (\<open>_parse_tool_calls\<close>), unique call ids across rounds (\<open>_unique_call_ids\<close>), suppression of repeated calls
  (\<open>_suppress_repeated_tool_calls\<close>) and the manifest of executed calls that it reads
  (\<open>_record_task_state_execution_manifest\<close>).

  Providers hand over arguments as a dictionary or as text; the JSON parser and the hash function are arguments.
\<close>

section \<open>Parsing\<close>

datatype raw_args = Text string | Object pydict

datatype raw_call = RawDict string string raw_args | RawCall llm_tool_call

definition decode_arguments :: "(string \<Rightarrow> string + pyval) \<Rightarrow> raw_args \<Rightarrow> pydict" where
  "decode_arguments loads args =
     (case args of
        Object d \<Rightarrow> d
      | Text s \<Rightarrow>
          (case loads s of
             Inl message \<Rightarrow> [(INVALID_JSON_KEY, PStr (take 240 message))]
           | Inr (PDict d) \<Rightarrow> d
           | Inr _ \<Rightarrow> [(INVALID_JSON_KEY, PStr ''tool arguments must decode to a JSON object'')]))"

definition parse_call :: "(string \<Rightarrow> string + pyval) \<Rightarrow> nat \<times> raw_call \<Rightarrow> llm_tool_call" where
  "parse_call loads = (\<lambda>(index, raw).
     let (given, name, args) = (case raw of RawDict i n a \<Rightarrow> (i, n, a) | RawCall tc \<Rightarrow> (tc_id tc, tc_name tc, Object (tc_arguments tc)));
         tid = (if given = [] then ''call_'' @ nat_str index else given);
         (cleaned, step_id, depends_on, bindings, failure_policy, goal_ids) =
           extract_orchestration (decode_arguments loads args) tid;
         call = \<lparr>tc_id = tid, tc_name = canonical_tool_id name, tc_arguments = cleaned, tc_step_id = step_id,
                 tc_depends_on = depends_on, tc_result_bindings = bindings, tc_failure_policy = failure_policy,
                 tc_goal_ids = goal_ids\<rparr>
     in case raw of
          RawDict _ _ _ \<Rightarrow> call
        | RawCall tc \<Rightarrow>
            call\<lparr>tc_step_id := (if tc_step_id tc = [] then step_id else tc_step_id tc),
                 tc_depends_on := (if tc_depends_on tc = [] then depends_on else tc_depends_on tc),
                 tc_result_bindings := (if tc_result_bindings tc = [] then bindings else tc_result_bindings tc),
                 tc_failure_policy := (if tc_failure_policy tc = [] then failure_policy else tc_failure_policy tc),
                 tc_goal_ids := (if tc_goal_ids tc = [] then goal_ids else tc_goal_ids tc)\<rparr>)"

definition parse_tool_calls :: "(string \<Rightarrow> string + pyval) \<Rightarrow> raw_call list \<Rightarrow> llm_tool_call list" where
  "parse_tool_calls loads raw = map (parse_call loads) (enumerate 0 raw)"

section \<open>Unique call ids\<close>

definition candidate_id :: "string \<Rightarrow> nat \<Rightarrow> nat \<Rightarrow> string" where
  "candidate_id base iteration n =
     (if n = 0 then base else base @ ''_i'' @ nat_str iteration @ ''_'' @ nat_str n)"

lemma nat_str_inj: "nat_str m = nat_str n \<Longrightarrow> m = n"
proof (induction m arbitrary: n rule: nat_str.induct)
  case (1 m)
  have digit: "digit_char a = digit_char b \<Longrightarrow> a < 10 \<Longrightarrow> b < 10 \<Longrightarrow> a = b" for a b
    by (simp add: digit_char_def)
  show ?case
  proof (cases "m < 10 \<or> n < 10")
    case True
    then show ?thesis using "1.prems" digit
      by (auto simp: nat_str.simps [of m] nat_str.simps [of n] not_sym [OF nat_str_ne] split: if_splits)
  next
    case False
    then have eq: "nat_str (m div 10) = nat_str (n div 10)" "digit_char (m mod 10) = digit_char (n mod 10)"
      using "1.prems" by (auto simp: nat_str.simps [of m] nat_str.simps [of n])
    have "m div 10 = n div 10" using "1.IH" [OF _ eq(1)] False by simp
    moreover have "m mod 10 = n mod 10" using digit [OF eq(2)] by simp
    ultimately show ?thesis by (metis div_mult_mod_eq)
  qed
qed

lemma candidate_id_inj: "inj (candidate_id base iteration)"
  by (rule injI) (auto simp: candidate_id_def dest: nat_str_inj split: if_splits)

function fresh_id :: "string \<Rightarrow> nat \<Rightarrow> string list \<Rightarrow> nat \<Rightarrow> string" where
  "fresh_id base iteration used n =
     (if candidate_id base iteration n \<in> set used then fresh_id base iteration used (Suc n)
      else candidate_id base iteration n)"
  by pat_completeness auto

termination
proof (relation "measure (\<lambda>(base, iteration, used, n). card {k. n \<le> k \<and> candidate_id base iteration k \<in> set used})")
  fix base iteration used n
  assume taken: "candidate_id base iteration n \<in> set used"
  let ?S = "\<lambda>n. {k. n \<le> k \<and> candidate_id base iteration k \<in> set used}"
  have "finite {k. candidate_id base iteration k \<in> set used}"
    using finite_vimageI [OF _ candidate_id_inj, of "set used" base iteration] by (simp add: vimage_def)
  then have "finite (?S n)" by (rule finite_subset [rotated]) blast
  moreover have "?S (Suc n) \<subset> ?S n" using taken by (auto simp: Suc_le_eq)
  ultimately show "((base, iteration, used, Suc n), (base, iteration, used, n))
      \<in> measure (\<lambda>(base, iteration, used, n). card {k. n \<le> k \<and> candidate_id base iteration k \<in> set used})"
    by (simp add: psubset_card_mono)
qed simp

declare fresh_id.simps [simp del]

definition base_id :: "nat \<Rightarrow> llm_tool_call \<Rightarrow> string" where
  "base_id index tc = (if tc_id tc = [] then ''call_'' @ nat_str index else tc_id tc)"

fun unique_ids :: "nat \<Rightarrow> nat \<Rightarrow> string list \<Rightarrow> llm_tool_call list \<Rightarrow> llm_tool_call list \<times> string list" where
  "unique_ids iteration index used [] = ([], used)"
| "unique_ids iteration index used (tc # tcs) =
     (let base = base_id index tc;
          candidate = fresh_id base iteration used 0;
          call = tc\<lparr>tc_id := candidate, tc_step_id := (if tc_step_id tc = base then candidate else tc_step_id tc)\<rparr>;
          (calls, used') = unique_ids iteration (Suc index) (used @ [candidate]) tcs
      in (call # calls, used'))"

definition unique_call_ids :: "llm_tool_call list \<Rightarrow> nat \<Rightarrow> string list \<Rightarrow> llm_tool_call list \<times> string list" where
  "unique_call_ids tool_calls iteration used = unique_ids iteration 0 used tool_calls"

section \<open>Repeated calls\<close>

definition tool_call_key :: "llm_tool_call \<Rightarrow> string" where
  "tool_call_key tc = tc_name tc @ '':'' @ json_sorted (PDict
     [(''arguments'', PDict (tc_arguments tc)),
      (''result_bindings'', PDict (map (\<lambda>(k, v). (k, PStr v)) (tc_result_bindings tc)))])"

definition durable_call_key :: "(string \<Rightarrow> string) \<Rightarrow> llm_tool_call \<Rightarrow> string" where
  "durable_call_key sha256 tc = ''sha256:'' @ sha256 (tool_call_key tc)"

text \<open>The last entry of the manifest for a key, as in the dictionary that the code builds.\<close>

definition previous_entry :: "pydict \<Rightarrow> string \<Rightarrow> pydict option" where
  "previous_entry extras key =
     find (\<lambda>d. gets d ''call_key'' = key) (rev (map as_dict (filter is_dict (extras_list extras ''task_state_execution_manifest''))))"

definition is_repeated :: "exec_env \<Rightarrow> pydict \<Rightarrow> llm_tool_call \<Rightarrow> bool" where
  "is_repeated env extras call =
     (case previous_entry extras (durable_call_key (xe_sha256 env) call) of
        None \<Rightarrow> False
      | Some prior \<Rightarrow>
          prior \<noteq> []
          \<and> (let read_only = executor_is_read_only env call;
                 ok = py_truthy (dget prior ''ok'');
                 deterministic_failure = (\<not> read_only \<and> \<not> ok \<and> \<not> py_truthy (dget prior ''execution_may_continue''))
             in read_only \<and> ok \<or> deterministic_failure))"

definition suppress_repeated_tool_calls ::
  "exec_env \<Rightarrow> pydict \<Rightarrow> llm_tool_call list \<Rightarrow> pydict \<times> llm_tool_call list \<times> string" where
  "suppress_repeated_tool_calls env extras tool_calls =
     (let executable = filter (\<lambda>call. \<not> is_repeated env extras call) tool_calls;
          suppressed = map (\<lambda>call. canonical_tool_id (tc_name call)) (filter (is_repeated env extras) tool_calls) in
      if suppressed = [] then (extras, executable, [])
      else
        (set_extras_list ''duplicate_tool_call_events''
           (extras_list extras ''duplicate_tool_call_events''
            @ [PDict [(''count'', PInt (int (length suppressed))), (''tools'', PList (map PStr suppressed))]]) extras,
         executable,
         ''[RUNTIME DEDUPLICATION] Exact calls with existing terminal evidence or a deterministic failure were not re-executed: ''
           @ py_join '', '' suppressed @ ''. Choose a materially different next action.''))"

definition manifest_entry :: "exec_env \<Rightarrow> llm_tool_call \<times> tool_result \<Rightarrow> pyval" where
  "manifest_entry env = (\<lambda>(call, result). PDict
     [(''tool_id'', PStr (take 160 (tc_name call))),
      (''call_key'', PStr (durable_call_key (xe_sha256 env) call)),
      (''side_effecting'', PBool (\<not> executor_is_read_only env call)),
      (''ok'', PBool (tr_ok result)),
      (''execution_may_continue'', PBool (tr_execution_may_continue result))])"

definition record_execution_manifest ::
  "exec_env \<Rightarrow> llm_tool_call list \<Rightarrow> tool_result list \<Rightarrow> pydict \<Rightarrow> pydict" where
  "record_execution_manifest env tool_calls results extras =
     (let manifest = extras_list extras ''task_state_execution_manifest'' @ map (manifest_entry env) (zip tool_calls results)
      in set_extras_list ''task_state_execution_manifest'' (drop (length manifest - 128) manifest) extras)"

section \<open>Correctness of the ids\<close>

lemma fresh_id_unused: "fresh_id base iteration used n \<notin> set used"
  by (induction base iteration used n rule: fresh_id.induct) (subst fresh_id.simps, simp)

lemma fresh_id_kept: "base \<notin> set used \<Longrightarrow> fresh_id base iteration used 0 = base"
  by (simp add: fresh_id.simps candidate_id_def)

lemma unique_ids_spec:
  assumes "unique_ids iteration index used tcs = (calls, used')"
  shows "length calls = length tcs \<and> distinct (map tc_id calls) \<and> set (map tc_id calls) \<inter> set used = {}
    \<and> set used' = set used \<union> set (map tc_id calls)"
  using assms
proof (induction iteration index used tcs arbitrary: calls used' rule: unique_ids.induct)
  case (2 iteration index used tc tcs)
  let ?base = "base_id index tc"
  let ?c = "fresh_id ?base iteration used 0"
  obtain rest used'' where rest: "unique_ids iteration (Suc index) (used @ [?c]) tcs = (rest, used'')" by (metis prod.exhaust)
  have res: "calls = tc\<lparr>tc_id := ?c, tc_step_id := (if tc_step_id tc = ?base then ?c else tc_step_id tc)\<rparr> # rest" "used' = used''"
    using "2.prems" rest by (auto simp: Let_def)
  from "2.IH" [OF refl refl refl rest] fresh_id_unused [of ?base iteration used 0] show ?case
    unfolding res by auto
qed simp

lemma unique_ids_nth:
  assumes "unique_ids iteration index used tcs = (calls, used')" and "i < length tcs"
  shows "\<exists>new_id. calls ! i = (tcs ! i)\<lparr>tc_id := new_id, tc_step_id :=
        (if tc_step_id (tcs ! i) = base_id (index + i) (tcs ! i) then new_id
         else tc_step_id (tcs ! i))\<rparr>
    \<and> (tc_id (tcs ! i) \<noteq> [] \<and> tc_id (tcs ! i) \<notin> set used \<union> set (map tc_id (take i calls)) \<longrightarrow> new_id = tc_id (tcs ! i))"
  using assms
proof (induction iteration index used tcs arbitrary: calls used' i rule: unique_ids.induct)
  case (2 iteration index used tc tcs)
  let ?base = "base_id index tc"
  let ?c = "fresh_id ?base iteration used 0"
  obtain rest used'' where rest: "unique_ids iteration (Suc index) (used @ [?c]) tcs = (rest, used'')" by (metis prod.exhaust)
  have res: "calls = tc\<lparr>tc_id := ?c, tc_step_id := (if tc_step_id tc = ?base then ?c else tc_step_id tc)\<rparr> # rest"
    using "2.prems"(1) rest by (auto simp: Let_def)
  show ?case
  proof (cases i)
    case 0
    have "tc_id tc \<noteq> [] \<and> tc_id tc \<notin> set used \<longrightarrow> ?c = tc_id tc" by (simp add: base_id_def fresh_id_kept)
    then show ?thesis unfolding res 0 by (intro exI [of _ ?c]) simp
  next
    case (Suc j)
    with "2.prems"(2) have "j < length tcs" by simp
    from "2.IH" [OF refl refl refl rest this] show ?thesis
      unfolding res Suc nth_Cons_Suc by (simp split del: if_split)
  qed
qed simp

text \<open>C11: The ids of a round's calls are distinct and were used in no earlier round; nothing but the id and a step id that was
  taken from it changes, and a call with an id that is still free is not changed at all.\<close>

theorem call_ids_are_unique:
  assumes "unique_call_ids tcs iteration used = (calls, used')"
  shows "length calls = length tcs \<and> distinct (map tc_id calls) \<and> set (map tc_id calls) \<inter> set used = {}
    \<and> set used' = set used \<union> set (map tc_id calls)
    \<and> (\<forall>i < length tcs. \<exists>new_id step_id. calls ! i = (tcs ! i)\<lparr>tc_id := new_id, tc_step_id := step_id\<rparr>
         \<and> (step_id = tc_step_id (tcs ! i) \<or> step_id = new_id)
         \<and> (tc_id (tcs ! i) \<noteq> [] \<and> tc_id (tcs ! i) \<notin> set used \<union> set (map tc_id (take i calls)) \<longrightarrow> calls ! i = tcs ! i))"
proof (intro conjI allI impI)
  note spec = unique_ids_spec [OF assms [unfolded unique_call_ids_def]]
  show "length calls = length tcs" "distinct (map tc_id calls)" "set (map tc_id calls) \<inter> set used = {}"
    "set used' = set used \<union> set (map tc_id calls)"
    using spec by blast+
  fix i assume "i < length tcs"
  from unique_ids_nth [OF assms [unfolded unique_call_ids_def] this] obtain new_id where new:
    "calls ! i = (tcs ! i)\<lparr>tc_id := new_id, tc_step_id :=
       (if tc_step_id (tcs ! i) = base_id i (tcs ! i) then new_id else tc_step_id (tcs ! i))\<rparr>"
    "tc_id (tcs ! i) \<noteq> [] \<and> tc_id (tcs ! i) \<notin> set used \<union> set (map tc_id (take i calls)) \<Longrightarrow> new_id = tc_id (tcs ! i)"
    by (auto simp del: set_map)
  have same: "calls ! i = tcs ! i" if "tc_id (tcs ! i) \<noteq> [] \<and> tc_id (tcs ! i) \<notin> set used \<union> set (map tc_id (take i calls))"
    using new(1) new(2) [OF that] that by (cases "tcs ! i") (auto simp: base_id_def)
  show "\<exists>new_id step_id. calls ! i = (tcs ! i)\<lparr>tc_id := new_id, tc_step_id := step_id\<rparr>
         \<and> (step_id = tc_step_id (tcs ! i) \<or> step_id = new_id)
         \<and> (tc_id (tcs ! i) \<noteq> [] \<and> tc_id (tcs ! i) \<notin> set used \<union> set (map tc_id (take i calls)) \<longrightarrow> calls ! i = tcs ! i)"
    by (intro exI conjI impI) (rule new(1), simp, rule same)
qed

definition demo_intake :: "llm_tool_call list" where
  "demo_intake = [LLMToolCall ''call_0'' ''probe'' [], LLMToolCall ''call_1'' ''probe'' []]"

theorem call_ids_are_unique_witness:
  "fst (unique_call_ids demo_intake 2 [''call_0'']) ! 1 = demo_intake ! 1
   \<and> map tc_id (fst (unique_call_ids demo_intake 2 [''call_0''])) = [''call_0_i2_1'', ''call_1'']"
proof -
  obtain calls used' where run: "unique_call_ids demo_intake 2 [''call_0''] = (calls, used')" by (metis prod.exhaust)
  have ids: "map tc_id (fst (unique_call_ids demo_intake 2 [''call_0''])) = [''call_0_i2_1'', ''call_1'']"
    and demo: "length demo_intake = 2" "tc_id (demo_intake ! 1) = ''call_1''" by code_simp+
  have "map tc_id (take 1 calls) = [''call_0_i2_1'']" using ids unfolding run by (simp add: take_map [symmetric])
  with call_ids_are_unique [OF run] ids demo show ?thesis unfolding run by (auto simp: less_2_cases_iff)
qed

section \<open>Renaming and plans\<close>

text \<open>Renaming does not follow the references of a plan. A provider that numbers its calls anew in every round repeats the id
  \<open>call_0\<close>; the call and its step are renamed, but a second call that depends on it is not, so the two run in one
  layer and the second is bound to the output of the call \<open>call_0\<close> of the earlier round.\<close>

theorem renamed_step_reads_old_evidence:
  "let raw = [RawDict ''call_0'' ''probe'' (Object []),
         RawDict ''call_1'' ''probe'' (Object [(''plan_depends_on'', PList [PStr ''call_0'']), (''plan_bindings'', PDict [(''x'', PStr ''call_0'')])])];
       evidence = [(''call_0'', \<lparr>se_step_id = ''call_0'', se_call_id = ''call_0'', se_tool_id = ''probe'', se_ok = True,
         se_output = PStr ''old'', se_error = [], se_action = []\<rparr>)];
       calls = fst (unique_call_ids (parse_tool_calls (\<lambda>s. Inl s) raw) 2 [''call_0''])
   in validate_incremental_graph calls evidence (Some (\<lambda>tool action target. True)) None = Inr [[''call_0_i2_1'', ''call_1'']]
      \<and> resolve_bindings (tc_arguments (calls ! 1)) (tc_result_bindings (calls ! 1)) evidence = Inr [(''x'', PStr ''old'')]"
  by code_simp

section \<open>What is suppressed\<close>

lemma manifest_entry_key [simp]:
  "gets (as_dict (manifest_entry env (call, result))) ''call_key'' = durable_call_key (xe_sha256 env) call"
  by (simp add: manifest_entry_def gets_def gets_or_def dget_def py_or_def durable_call_key_def py_str_def)

lemma manifest_entry_is_dict [simp]: "is_dict (manifest_entry env e)"
  by (cases e) (simp add: manifest_entry_def)

lemma find_rev_last:
  "P x \<Longrightarrow> \<forall>y \<in> set ys. \<not> P y \<Longrightarrow> find P (rev (xs @ x # ys)) = Some x"
proof (induction ys rule: rev_induct)
  case (snoc y ys)
  then show ?case by simp
qed simp

text \<open>The entry of a call is the last one for its key unless the same call follows in the round, and it is kept by the cut to
  128 entries.\<close>

lemma previous_entry_recorded:
  assumes "zip calls results = before @ (call, result) # after" and "length after < 128"
    and "\<forall>(later, r) \<in> set after. durable_call_key (xe_sha256 env) later \<noteq> durable_call_key (xe_sha256 env) call"
  shows "previous_entry (record_execution_manifest env calls results extras) (durable_call_key (xe_sha256 env) call)
    = Some (as_dict (manifest_entry env (call, result)))"
proof -
  let ?M = "extras_list extras ''task_state_execution_manifest'' @ map (manifest_entry env) (zip calls results)"
  let ?head = "extras_list extras ''task_state_execution_manifest'' @ map (manifest_entry env) before"
  let ?key = "durable_call_key (xe_sha256 env) call"
  have M: "?M = ?head @ manifest_entry env (call, result) # map (manifest_entry env) after" using assms(1) by simp
  have cut: "drop (length ?M - 128) ?M
      = drop (length ?M - 128) ?head @ manifest_entry env (call, result) # map (manifest_entry env) after"
  proof -
    have "length ?M - 128 \<le> length ?head" using assms(2) unfolding M by simp
    then show ?thesis unfolding M by simp
  qed
  let ?P = "\<lambda>d. gets d ''call_key'' = ?key"
  have dicts: "map as_dict (filter is_dict (xs @ manifest_entry env (call, result) # map (manifest_entry env) after))
      = map as_dict (filter is_dict xs) @ as_dict (manifest_entry env (call, result)) # map (as_dict \<circ> manifest_entry env) after" for xs
    by (induction after) (simp_all add: comp_def)
  have "\<forall>d \<in> set (map (as_dict \<circ> manifest_entry env) after). \<not> ?P d" using assms(3) by (auto simp: comp_def)
  then have "find ?P (rev (ys @ as_dict (manifest_entry env (call, result)) # map (as_dict \<circ> manifest_entry env) after))
      = Some (as_dict (manifest_entry env (call, result)))" for ys
    by (intro find_rev_last) simp_all
  then show ?thesis
    unfolding previous_entry_def record_execution_manifest_def Let_def extras_list_set if_P [OF refl] cut dicts .
qed



end
