(* ===== verification/Tool_Preparation.thy ===== *)
theory Tool_Preparation
  imports Tool_Executor Recovery_Goals
begin

text \<open>
  Preparation of a batch before execution (\<open>_prepare_tool_calls\<close> and its helpers in \<open>core/runtime_engine/query_loop.py\<close>,
  \<open>pre_execution_repair.py\<close>): action aliases are normalised, the missing path of a deletion is filled from a verified
  write that the user named, the plan is validated, the planning check runs, and its errors go to a deterministic
  repair, after which the check runs again.

  The status and the error of a blocked node are visible only in the audit list, where they are written out; the
  float \<open>latency_ms\<close> of an audit entry is left out. Arguments of earlier calls in the history are dictionaries, as the
  loop records them.
\<close>

section \<open>Calls as nodes\<close>

text \<open>The rewriting of an alias, shared by the conversion and the repair: the resolution and the new arguments.\<close>

definition rewritten_args :: "alias_resolution \<Rightarrow> pydict \<Rightarrow> pydict" where
  "rewritten_args resolution args =
     (let args1 = dset ''action'' (PStr (ar_canonical_action resolution)) args in
      case ar_operation resolution of
        None \<Rightarrow> args1
      | Some op \<Rightarrow> if op = [] then args1 else dset ''operation'' (PStr op) args1)"

definition alias_rewrite :: "string \<Rightarrow> pydict \<Rightarrow> (alias_resolution \<times> pydict) option" where
  "alias_rewrite tool args =
     (case dget args ''action'' of
        PStr action \<Rightarrow>
          (let resolution = resolve_action_alias tool (PStr action) in
           if action \<noteq> [] \<and> ar_matched resolution then Some (resolution, rewritten_args resolution args) else None)
      | _ \<Rightarrow> None)"

definition call_to_node :: "nat \<times> llm_tool_call \<Rightarrow> exec_node" where
  "call_to_node = (\<lambda>(idx, tc).
     let tool = canonical_tool_id (tc_name tc);
         args = (case alias_rewrite tool (tc_arguments tc) of None \<Rightarrow> tc_arguments tc | Some (_, args) \<Rightarrow> args);
         i = (if tc_id tc = [] then ''call_'' @ nat_str idx else tc_id tc)
     in (ExecutionNode i tool args)\<lparr>en_step_id := tc_step_id tc, en_depends_on := tc_depends_on tc,
          en_result_bindings := tc_result_bindings tc, en_failure_policy := tc_failure_policy tc,
          en_goal_ids := tc_goal_ids tc\<rparr>)"

definition tool_calls_to_nodes :: "llm_tool_call list \<Rightarrow> exec_node list" where
  "tool_calls_to_nodes tool_calls = map call_to_node (enumerate 0 tool_calls)"

section \<open>The path of a deletion\<close>

text \<open>\<open>PurePosixPath(s).name\<close>.\<close>

definition path_name :: "string \<Rightarrow> string" where
  "path_name s =
     (let parts = filter (\<lambda>p. p \<noteq> [] \<and> p \<noteq> ''.'') (py_split (CHR ''/'') s)
      in if parts = [] then [] else last parts)"

fun after_first_dunder :: "string \<Rightarrow> string option" where
  "after_first_dunder (a # b # cs) = (if a = CHR ''_'' \<and> b = CHR ''_'' then Some cs else after_first_dunder (b # cs))"
| "after_first_dunder _ = None"

text \<open>A verified write of the history: its path and the names under which the user may have asked for it.\<close>

definition write_candidate :: "pyval \<Rightarrow> (string \<times> string list) option" where
  "write_candidate item =
     (let d = as_dict item; arguments = as_dict (py_or (dget d ''arguments'') (PDict []));
          filepath = py_strip (gets (as_dict (dget d ''output'')) ''filepath'');
          filename = py_strip (gets arguments ''filename'') in
      if \<not> is_dict item \<or> dget d ''ok'' \<noteq> PBool True \<or> dget d ''tool'' \<noteq> PStr ''workspace.file''
         \<or> py_lower (gets arguments ''action'') \<notin> {''write'', ''write_artifact''} \<or> \<not> is_dict (dget d ''output'') \<or> filepath = []
      then None
      else Some (filepath, filter (\<lambda>a. a \<noteq> [])
        ([path_name filepath] @ (if filename = [] then [] else [path_name filename])
         @ (case after_first_dunder (path_name filepath) of None \<Rightarrow> [] | Some rest \<Rightarrow> [rest]))))"

definition add_candidate :: "string \<times> string list \<Rightarrow> (string \<times> string list) list \<Rightarrow> (string \<times> string list) list" where
  "add_candidate = (\<lambda>(filepath, aliases) candidates.
     AList.update filepath ((case map_of candidates filepath of None \<Rightarrow> [] | Some known \<Rightarrow> known) @ aliases) candidates)"

definition write_candidates :: "pyval list \<Rightarrow> (string \<times> string list) list" where
  "write_candidates history = fold add_candidate (List.map_filter write_candidate history) []"

definition name_char :: "char \<Rightarrow> bool" where
  "name_char c \<longleftrightarrow> is_alnum c \<or> c \<in> {CHR ''_'', CHR ''.'', CHR ''-''}"

text \<open>The search for an alias with no name character on either side.\<close>

definition explicitly_named :: "string \<Rightarrow> string \<Rightarrow> bool" where
  "explicitly_named request alias_name =
     list_ex (\<lambda>i.
       py_startswith (drop i request) alias_name \<and> (i = 0 \<or> \<not> name_char (request ! (i - 1)))
       \<and> (case drop (i + length alias_name) request of [] \<Rightarrow> True | c # _ \<Rightarrow> \<not> name_char c))
       [0..<Suc (length request)]"

definition named_writes :: "string \<Rightarrow> pyval list \<Rightarrow> string list" where
  "named_writes request history =
     map fst (filter (\<lambda>(_, aliases). list_ex (explicitly_named request) aliases) (write_candidates history))"

definition needs_path :: "exec_node \<Rightarrow> bool" where
  "needs_path node \<longleftrightarrow> en_tool node = ''workspace.file'' \<and> py_lower (gets (en_args node) ''action'') = ''delete''
     \<and> py_strip (gets (en_args node) ''filepath'') = []"

definition fill_event :: "string \<Rightarrow> exec_node \<Rightarrow> pyval" where
  "fill_event filepath node = PDict
     [(''node_id'', PStr (en_id node)), (''code'', PStr ''MISSING_REQUIRED_ARG''), (''field'', PStr ''filepath''),
      (''value'', PStr filepath), (''source'', PStr ''verified_prior_workspace_write_named_by_user'')]"

definition fill_delete_paths :: "string \<Rightarrow> exec_node list \<Rightarrow> pydict \<Rightarrow> exec_node list \<times> pydict" where
  "fill_delete_paths user_input nodes extras =
     (case named_writes user_input (extras_list extras ''tool_call_history'') of
        [filepath] \<Rightarrow>
          (map (\<lambda>n. if needs_path n then n\<lparr>en_args := dset ''filepath'' (PStr filepath) (en_args n)\<rparr> else n) nodes,
           if list_ex needs_path nodes
           then set_extras_list ''pre_exec_repair_events''
                  (extras_list extras ''pre_exec_repair_events'' @ map (fill_event filepath) (filter needs_path nodes)) extras
           else extras)
      | _ \<Rightarrow> (nodes, extras))"

section \<open>Deterministic repair\<close>

definition REPAIRABLE_ERROR_CODES :: "string list" where
  "REPAIRABLE_ERROR_CODES =
     [''ARG_ENUM_INVALID'', ''ACTION_ALIAS_NOT_NORMALIZED'', ''MISSING_REQUIRED_ARG'', ''ARG_TYPE_MISMATCH'',
      ''ARG_RANGE_INVALID'', ''ARG_LENGTH_INVALID'', ''INVALID_ACTION_ALIAS'', ''NODE_ARG_NORMALIZABLE'',
      ''POTENTIAL_MISSING_INPUT'', ''INVALID_TOOL_ARGUMENTS_JSON'', ''ARG_REFERENCE_KIND_MISMATCH'']"

definition NON_REPAIRABLE_ERROR_CODES :: "string list" where
  "NON_REPAIRABLE_ERROR_CODES =
     [''FORBIDDEN_COMMAND'', ''POLICY_BLOCKED'', ''CRITICAL_RISK'', ''PATH_TRAVERSAL'', ''FORBIDDEN_ARG'',
      ''SYSTEM_DIRECTORY_WRITE'', ''DANGEROUS_PATH'', ''CREDENTIAL_ACCESS'', ''BUDGET_EXCEEDED'',
      ''FORBIDDEN_OPERATION'', ''DANGEROUS_OPERATION'']"

record repair_event =
  pe_repaired :: bool
  pe_node_id :: string
  pe_original_action :: string
  pe_normalized_action :: string
  pe_operation :: "string option"
  pe_source :: string
  pe_repair_attempt :: int
  pe_validation_error_before :: string
  pe_validation_error_code_before :: string
  pe_validation_after :: string

record pre_execution_repair_result =
  pr_repaired :: bool
  pr_strategy :: string
  pr_repaired_nodes :: "exec_node list option"
  pr_repair_events :: "repair_event list"
  pr_unrepairable_reason :: string
  pr_repair_attempts :: int

definition can_repair :: "string list \<Rightarrow> bool" where
  "can_repair error_codes \<longleftrightarrow>
     error_codes \<noteq> [] \<and> list_ex (\<lambda>c. c \<in> set REPAIRABLE_ERROR_CODES) error_codes
     \<and> \<not> list_ex (\<lambda>c. c \<in> set NON_REPAIRABLE_ERROR_CODES) error_codes"

text \<open>The three repair methods do the same.\<close>

definition repair_action :: "exec_node \<Rightarrow> repair_event \<Rightarrow> bool \<times> exec_node \<times> repair_event" where
  "repair_action node event =
     (case alias_rewrite (en_tool node) (en_args node) of
        None \<Rightarrow> (False, node, event)
      | Some (resolution, args) \<Rightarrow>
          (True, node\<lparr>en_args := args\<rparr>,
           event\<lparr>pe_original_action := ar_original_action resolution, pe_normalized_action := ar_canonical_action resolution,
                 pe_operation := ar_operation resolution, pe_source := ar_source resolution, pe_validation_after := ''pass''\<rparr>))"

definition repair_event_for :: "int \<Rightarrow> semantic_error \<Rightarrow> repair_event" where
  "repair_event_for attempt_no error =
     \<lparr>pe_repaired = False, pe_node_id = sx_node_id error, pe_original_action = [], pe_normalized_action = [], pe_operation = None,
      pe_source = ''none'', pe_repair_attempt = attempt_no, pe_validation_error_before = sx_message error,
      pe_validation_error_code_before = sx_code error, pe_validation_after = []\<rparr>"

text \<open>Nodes are changed in place; the first node with the id is the one that is found.\<close>

fun replace_first :: "exec_node \<Rightarrow> exec_node list \<Rightarrow> exec_node list" where
  "replace_first node [] = []"
| "replace_first node (n # ns) = (if en_id n = en_id node then node # ns else n # replace_first node ns)"

definition repair_one ::
  "int \<Rightarrow> semantic_error \<Rightarrow> exec_node list \<times> repair_event list \<Rightarrow> exec_node list \<times> repair_event list" where
  "repair_one attempt_no error = (\<lambda>(nodes, events).
     case find (\<lambda>n. en_id n = sx_node_id error) nodes of
       None \<Rightarrow> (nodes, events)
     | Some node \<Rightarrow>
         (let (repaired, node', event) =
            (if sx_code error \<in> {''ARG_ENUM_INVALID'', ''ACTION_ALIAS_NOT_NORMALIZED'', ''INVALID_ACTION_ALIAS'', ''NODE_ARG_NORMALIZABLE''}
             then repair_action node (repair_event_for attempt_no error)
             else (False, node, repair_event_for attempt_no error))
          in (replace_first node' nodes, events @ [event\<lparr>pe_repaired := repaired\<rparr>])))"

definition refused_repair :: "string \<Rightarrow> pre_execution_repair_result" where
  "refused_repair reason =
     \<lparr>pr_repaired = False, pr_strategy = ''none'', pr_repaired_nodes = None, pr_repair_events = [],
      pr_unrepairable_reason = reason, pr_repair_attempts = 0\<rparr>"

definition try_repair ::
  "int \<Rightarrow> exec_node list \<Rightarrow> semantic_error list \<Rightarrow> exec_node list \<times> pre_execution_repair_result" where
  "try_repair repair_count nodes validation_errors =
     (let error_codes = map sx_code validation_errors in
      case find (\<lambda>code. code \<in> set NON_REPAIRABLE_ERROR_CODES) error_codes of
        Some code \<Rightarrow> (nodes, refused_repair (''Non-repairable error: '' @ code))
      | None \<Rightarrow>
          if \<not> can_repair error_codes
          then (nodes, refused_repair (''No repairable errors found in: '' @ repr_strs error_codes))
          else
            let attempt_no = repair_count + 1; (nodes', events) = fold (repair_one attempt_no) validation_errors (nodes, []) in
            if list_ex pe_repaired events
            then (nodes', \<lparr>pr_repaired = True, pr_strategy = ''deterministic'', pr_repaired_nodes = Some nodes',
                    pr_repair_events = events, pr_unrepairable_reason = [], pr_repair_attempts = attempt_no\<rparr>)
            else (nodes', \<lparr>pr_repaired = False, pr_strategy = ''deterministic'', pr_repaired_nodes = None,
                    pr_repair_events = events, pr_unrepairable_reason = ''Deterministic repair could not fix any errors'',
                    pr_repair_attempts = attempt_no\<rparr>))"

definition repair_event_dict :: "repair_event \<Rightarrow> pyval" where
  "repair_event_dict e = PDict
     [(''repaired'', PBool (pe_repaired e)), (''node_id'', PStr (pe_node_id e)),
      (''original_action'', PStr (pe_original_action e)), (''normalized_action'', PStr (pe_normalized_action e)),
      (''operation'', case pe_operation e of None \<Rightarrow> PNone | Some op \<Rightarrow> PStr op), (''source'', PStr (pe_source e)),
      (''repair_attempt'', PInt (pe_repair_attempt e)), (''validation_error_before'', PStr (pe_validation_error_before e)),
      (''validation_error_code_before'', PStr (pe_validation_error_code_before e)),
      (''validation_after'', PStr (pe_validation_after e))]"

definition record_pre_exec_repair :: "pre_execution_repair_result \<Rightarrow> pydict \<Rightarrow> pydict" where
  "record_pre_exec_repair repair extras =
     (let events = map repair_event_dict (pr_repair_events repair);
          extras1 = (if events = [] then extras else dset ''pre_exec_repair_events'' (PList events) extras)
      in dset ''pre_exec_repair_applied'' (PBool (pr_repaired repair)) extras1)"

section \<open>Preparation\<close>

datatype preparation =
    Ready "llm_tool_call list" string
  | Blocked string "string list" "pyval list" bool string

definition blocked_entry :: "exec_node \<Rightarrow> pyval" where
  "blocked_entry node = PDict
     [(''node_id'', PStr (en_id node)), (''tool'', PStr (en_tool node)), (''args'', PDict (en_args node)),
      (''status'', PStr ''skipped''), (''error'', PStr ''Blocked by semantic validation'')]"

definition record_blocked_audit_nodes :: "exec_node list \<Rightarrow> pydict \<Rightarrow> pydict" where
  "record_blocked_audit_nodes skipped extras =
     (if skipped = [] then extras else dset ''audit_blocked_nodes'' (PList (map blocked_entry skipped)) extras)"

definition PLAN_REJECTED_TEXT :: string where
  "PLAN_REJECTED_TEXT =
     [CHR 0xE5, CHR 0xB7, CHR 0xA5, CHR 0xE5, CHR 0x85, CHR 0xB7, CHR 0xE7, CHR 0xBC, CHR 0x96, CHR 0xE6, CHR 0x8E, CHR 0x92,
      CHR 0xE6, CHR 0xA0, CHR 0xA1, CHR 0xE9, CHR 0xAA, CHR 0x8C, CHR 0xE5, CHR 0xA4, CHR 0xB1, CHR 0xE8, CHR 0xB4, CHR 0xA5,
      CHR 0xEF, CHR 0xBC, CHR 0x9A]"

definition CALLS_REJECTED_TEXT :: string where
  "CALLS_REJECTED_TEXT =
     [CHR 0xE5, CHR 0xB7, CHR 0xA5, CHR 0xE5, CHR 0x85, CHR 0xB7, CHR 0xE8, CHR 0xB0, CHR 0x83, CHR 0xE7, CHR 0x94, CHR 0xA8,
      CHR 0xE6, CHR 0xA0, CHR 0xA1, CHR 0xE9, CHR 0xAA, CHR 0x8C, CHR 0xE5, CHR 0xA4, CHR 0xB1, CHR 0xE8, CHR 0xB4, CHR 0xA5,
      CHR 0xEF, CHR 0xBC, CHR 0x9A, char_of (10::nat)]"

definition validation_error_dict :: "string \<Rightarrow> string \<Rightarrow> string \<Rightarrow> pydict \<Rightarrow> pyval" where
  "validation_error_dict node_id code message details = PDict
     [(''node_id'', PStr node_id), (''code'', PStr code), (''message'', PStr message), (''details'', PDict details)]"

definition plan_rejection :: "py_error \<Rightarrow> preparation" where
  "plan_rejection e =
     (let message = exc_str e in
      Blocked ''orchestration_validation_failed'' [message] [validation_error_dict ''plan'' ''ORCHESTRATION_INVALID'' message []]
        False (PLAN_REJECTED_TEXT @ message))"

definition calls_rejection :: "semantic_error list \<Rightarrow> preparation" where
  "calls_rejection errors =
     (let texts = map (\<lambda>e. sx_node_id e @ '':'' @ sx_code e @ '':'' @ sx_message e) errors;
          is_hard = list_ex (\<lambda>e. sx_code e \<notin> set REPAIRABLE_ERROR_CODES) errors in
      Blocked ''semantic_validation_failed'' texts
        (map (\<lambda>e. validation_error_dict (sx_node_id e) (sx_code e) (sx_message e) (sx_details e)) errors) is_hard
        (CALLS_REJECTED_TEXT @ py_join [char_of (10::nat)] (map (\<lambda>t. ''- '' @ t) texts)))"

definition node_to_call :: "exec_node \<Rightarrow> llm_tool_call" where
  "node_to_call n =
     \<lparr>tc_id = en_id n, tc_name = en_tool n, tc_arguments = en_args n, tc_step_id = en_step_id n,
      tc_depends_on = en_depends_on n, tc_result_bindings = en_result_bindings n,
      tc_failure_policy = en_failure_policy n, tc_goal_ids = en_goal_ids n\<rparr>"

definition check_nodes :: "retry_env \<Rightarrow> exec_node list \<Rightarrow> semantic_validation_result" where
  "check_nodes env = semantic_validate (re_extensions env) (re_contracts env) (re_registry env)"

definition validated_plan ::
  "retry_env \<Rightarrow> (string \<times> step_evidence) list \<Rightarrow> llm_tool_call list \<Rightarrow> string list list res" where
  "validated_plan env evidence calls =
     validate_incremental_graph calls evidence (Some (binding_target_allowed (re_registry env)))
       (Some (binding_source_allowed (re_registry env)))"

definition prepare_tool_calls ::
  "retry_env \<Rightarrow> string \<Rightarrow> (string \<times> step_evidence) list \<Rightarrow> llm_tool_call list \<Rightarrow> pydict \<Rightarrow> pydict \<times> preparation" where
  "prepare_tool_calls env user_input evidence tool_calls extras =
     (let (nodes, extras1) = fill_delete_paths user_input (tool_calls_to_nodes tool_calls) extras in
      case validated_plan env evidence tool_calls of
        Inl e \<Rightarrow> (extras1, plan_rejection e)
      | Inr _ \<Rightarrow>
          let first = check_nodes env nodes;
              (nodes', extras2, validation) =
                (if sv_valid first then (nodes, extras1, first)
                 else
                   let (mutated, repair) = try_repair 0 nodes (sv_errors first); extras2 = record_pre_exec_repair repair extras1 in
                   case pr_repaired_nodes repair of
                     Some repaired \<Rightarrow> if pr_repaired repair then (repaired, extras2, check_nodes env repaired) else (mutated, extras2, first)
                   | None \<Rightarrow> (mutated, extras2, first))
          in if sv_valid validation then (extras2, Ready (map node_to_call nodes') (sv_risk_level validation))
             else (record_blocked_audit_nodes
                     (filter (\<lambda>n. list_ex (\<lambda>e. sx_node_id e = en_id n) (sv_errors validation)) nodes') extras2,
                   calls_rejection (sv_errors validation)))"

section \<open>Repair has nothing left to do\<close>

lemma dget_rewritten_args:
  "dget (rewritten_args r args) k =
     (if k = ''operation'' \<and> ar_operation r \<noteq> None \<and> ar_operation r \<noteq> Some [] then PStr (the (ar_operation r))
      else if k = ''action'' then PStr (ar_canonical_action r) else dget args k)"
  by (auto simp: rewritten_args_def Let_def pysimps split: option.splits)

lemma rewritten_args_settled: "alias_rewrite tool (rewritten_args (resolve_action_alias tool action) args) = None"
proof -
  have "\<not> ar_matched (resolve_action_alias tool (PStr (ar_canonical_action (resolve_action_alias tool action))))"
    using resolve_twice [of tool action] by (simp add: Let_def)
  then show ?thesis by (simp add: alias_rewrite_def dget_rewritten_args Let_def)
qed

lemma alias_rewrite_Some:
  "alias_rewrite tool args = Some (r, args') \<Longrightarrow> \<exists>action. r = resolve_action_alias tool action \<and> args' = rewritten_args r args"
  by (auto simp: alias_rewrite_def Let_def split: pyval.splits if_splits)

lemma call_to_node_args:
  "en_args (call_to_node (i, tc)) =
     (case alias_rewrite (canonical_tool_id (tc_name tc)) (tc_arguments tc) of None \<Rightarrow> tc_arguments tc | Some (_, args) \<Rightarrow> args)"
  "en_tool (call_to_node (i, tc)) = canonical_tool_id (tc_name tc)"
  by (simp_all add: call_to_node_def ExecutionNode_def Let_def)

lemma call_to_node_settled: "alias_rewrite (canonical_tool_id (tc_name tc)) (en_args (call_to_node (i, tc))) = None"
  unfolding call_to_node_args by (auto split: option.splits dest!: alias_rewrite_Some simp: rewritten_args_settled)

lemma alias_rewrite_other: "k \<noteq> ''action'' \<Longrightarrow> alias_rewrite tool args = None \<Longrightarrow> alias_rewrite tool (dset k v args) = None"
  by (auto simp: alias_rewrite_def pysimps Let_def split: pyval.splits if_splits)

abbreviation prepared_nodes :: "string \<Rightarrow> llm_tool_call list \<Rightarrow> pydict \<Rightarrow> exec_node list" where
  "prepared_nodes user_input calls extras \<equiv> fst (fill_delete_paths user_input (tool_calls_to_nodes calls) extras)"

definition fill_node :: "string \<Rightarrow> pydict \<Rightarrow> exec_node \<Rightarrow> exec_node" where
  "fill_node user_input extras n =
     (case named_writes user_input (extras_list extras ''tool_call_history'') of
        [filepath] \<Rightarrow> if needs_path n then n\<lparr>en_args := dset ''filepath'' (PStr filepath) (en_args n)\<rparr> else n
      | _ \<Rightarrow> n)"

lemma prepared_nodes_map: "prepared_nodes user_input calls extras = map (fill_node user_input extras) (tool_calls_to_nodes calls)"
  unfolding fill_delete_paths_def fill_node_def [abs_def] by (auto split: list.splits)

lemma fill_node_settled:
  "alias_rewrite (en_tool n) (en_args n) = None \<Longrightarrow>
     alias_rewrite (en_tool (fill_node user_input extras n)) (en_args (fill_node user_input extras n)) = None"
  by (auto simp: fill_node_def alias_rewrite_other split: list.splits)

lemma prepared_nodes_settled: "n \<in> set (prepared_nodes user_input calls extras) \<Longrightarrow> alias_rewrite (en_tool n) (en_args n) = None"
  unfolding prepared_nodes_map
  by (auto intro!: fill_node_settled simp: tool_calls_to_nodes_def call_to_node_args(2) call_to_node_settled)

lemma replace_first_found: "find (\<lambda>n. en_id n = i) nodes = Some node \<Longrightarrow> replace_first node nodes = nodes"
proof -
  assume found: "find (\<lambda>n. en_id n = i) nodes = Some node"
  then have "en_id node = i" by (auto simp: find_Some_iff)
  with found show ?thesis by (induction nodes) (auto split: if_splits)
qed

lemma repair_one_settled:
  assumes "\<forall>n \<in> set nodes. alias_rewrite (en_tool n) (en_args n) = None" and "\<forall>e \<in> set events. \<not> pe_repaired e"
  shows "\<exists>events'. repair_one attempt_no error (nodes, events) = (nodes, events') \<and> (\<forall>e \<in> set events'. \<not> pe_repaired e)"
proof (cases "find (\<lambda>n. en_id n = sx_node_id error) nodes")
  case (Some node)
  then have "node \<in> set nodes" by (metis find_Some_iff nth_mem)
  with assms(1) have "repair_action node event = (False, node, event)" for event by (simp add: repair_action_def)
  then show ?thesis using assms(2) replace_first_found [OF Some] by (auto simp: repair_one_def Some Let_def)
qed (use assms(2) in \<open>auto simp: repair_one_def\<close>)

lemma repair_all_settled:
  assumes "\<forall>n \<in> set nodes. alias_rewrite (en_tool n) (en_args n) = None" and "\<forall>e \<in> set events. \<not> pe_repaired e"
  shows "\<exists>events'. fold (repair_one attempt_no) errors (nodes, events) = (nodes, events') \<and> (\<forall>e \<in> set events'. \<not> pe_repaired e)"
  using assms(2)
proof (induction errors arbitrary: events)
  case (Cons error errors)
  from repair_one_settled [OF assms(1) Cons.prems, of attempt_no error] obtain events'
    where one: "repair_one attempt_no error (nodes, events) = (nodes, events')" "\<forall>e \<in> set events'. \<not> pe_repaired e" by blast
  from Cons.IH [OF one(2)] one(1) show ?case by simp
qed simp

lemma try_repair_settled:
  assumes "\<forall>n \<in> set nodes. alias_rewrite (en_tool n) (en_args n) = None"
  shows "\<exists>r. try_repair repair_count nodes errors = (nodes, r) \<and> \<not> pr_repaired r \<and> pr_repaired_nodes r = None"
proof -
  obtain events' where run: "fold (repair_one (repair_count + 1)) errors (nodes, []) = (nodes, events')"
      "\<forall>e \<in> set events'. \<not> pe_repaired e"
    using repair_all_settled [OF assms, of "[]" "repair_count + 1" errors] by auto
  then have "\<not> list_ex pe_repaired events'" by (simp add: list_ex_iff)
  then show ?thesis
    unfolding try_repair_def Let_def run(1) by (auto simp: refused_repair_def split: option.splits)
qed

text \<open>The deterministic repair never changes a prepared batch, whatever errors the planning check reports: aliases are
  already resolved when it runs, and it repairs nothing else.\<close>

theorem repair_is_never_applied:
  "fst (try_repair repair_count (prepared_nodes user_input calls extras) errors) = prepared_nodes user_input calls extras
   \<and> \<not> pr_repaired (snd (try_repair repair_count (prepared_nodes user_input calls extras) errors))"
proof -
  obtain r where "try_repair repair_count (prepared_nodes user_input calls extras) errors = (prepared_nodes user_input calls extras, r)"
      "\<not> pr_repaired r"
    using try_repair_settled prepared_nodes_settled by blast
  then show ?thesis by simp
qed

section \<open>What a prepared batch is\<close>

lemma prepare_cases:
  "prepare_tool_calls env user_input evidence calls extras =
     (let nodes = prepared_nodes user_input calls extras; extras1 = snd (fill_delete_paths user_input (tool_calls_to_nodes calls) extras);
          first = check_nodes env nodes in
      case validated_plan env evidence calls of
        Inl e \<Rightarrow> (extras1, plan_rejection e)
      | Inr _ \<Rightarrow>
          if sv_valid first then (extras1, Ready (map node_to_call nodes) (sv_risk_level first))
          else (record_blocked_audit_nodes (filter (\<lambda>n. list_ex (\<lambda>e. sx_node_id e = en_id n) (sv_errors first)) nodes)
                  (record_pre_exec_repair (snd (try_repair 0 nodes (sv_errors first))) extras1),
                calls_rejection (sv_errors first)))"
proof -
  let ?nodes = "prepared_nodes user_input calls extras"
  obtain r where r: "try_repair 0 ?nodes (sv_errors (check_nodes env ?nodes)) = (?nodes, r)" "pr_repaired_nodes r = None"
    using try_repair_settled prepared_nodes_settled by blast
  show ?thesis unfolding prepare_tool_calls_def Let_def case_prod_unfold by (simp add: r split: sum.splits)
qed

lemma prepare_Ready:
  assumes "prepare_tool_calls env user_input evidence calls extras = (extras', Ready prepared risk)"
  shows "(\<exists>layers. validated_plan env evidence calls = Inr layers) \<and> sv_valid (check_nodes env (prepared_nodes user_input calls extras))
    \<and> prepared = map node_to_call (prepared_nodes user_input calls extras)"
  using assms unfolding prepare_cases
  by (auto simp: Let_def plan_rejection_def calls_rejection_def split: sum.splits if_splits)

lemma prepared_nth:
  assumes "prepare_tool_calls env user_input evidence calls extras = (extras', Ready prepared risk)" and "i < length calls"
  shows "prepared ! i = node_to_call (fill_node user_input extras (call_to_node (i, calls ! i)))"
  using prepare_Ready [OF assms(1)] assms(2) unfolding prepared_nodes_map
  by (simp add: tool_calls_to_nodes_def nth_enumerate_eq)

lemma prepared_length:
  "prepare_tool_calls env user_input evidence calls extras = (extras', Ready prepared risk) \<Longrightarrow> length prepared = length calls"
  by (drule prepare_Ready, unfold prepared_nodes_map) (simp add: tool_calls_to_nodes_def)

lemma fill_node_frame [simp]:
  "en_id (fill_node user_input extras n) = en_id n" "en_tool (fill_node user_input extras n) = en_tool n"
  "en_step_id (fill_node user_input extras n) = en_step_id n" "en_depends_on (fill_node user_input extras n) = en_depends_on n"
  "en_result_bindings (fill_node user_input extras n) = en_result_bindings n"
  "en_failure_policy (fill_node user_input extras n) = en_failure_policy n"
  "en_goal_ids (fill_node user_input extras n) = en_goal_ids n"
  by (simp_all add: fill_node_def split: list.splits)

lemma call_to_node_frame [simp]:
  "en_id (call_to_node (i, tc)) = (if tc_id tc = [] then ''call_'' @ nat_str i else tc_id tc)"
  "en_tool (call_to_node (i, tc)) = canonical_tool_id (tc_name tc)"
  "en_step_id (call_to_node (i, tc)) = tc_step_id tc" "en_depends_on (call_to_node (i, tc)) = tc_depends_on tc"
  "en_result_bindings (call_to_node (i, tc)) = tc_result_bindings tc"
  "en_failure_policy (call_to_node (i, tc)) = tc_failure_policy tc" "en_goal_ids (call_to_node (i, tc)) = tc_goal_ids tc"
  by (simp_all add: call_to_node_def ExecutionNode_def Let_def)

lemma node_to_call_frame [simp]:
  "tc_id (node_to_call n) = en_id n" "tc_name (node_to_call n) = en_tool n" "tc_arguments (node_to_call n) = en_args n"
  "tc_step_id (node_to_call n) = en_step_id n" "tc_depends_on (node_to_call n) = en_depends_on n"
  "tc_result_bindings (node_to_call n) = en_result_bindings n" "tc_failure_policy (node_to_call n) = en_failure_policy n"
  "tc_goal_ids (node_to_call n) = en_goal_ids n"
  by (simp_all add: node_to_call_def)

subsection \<open>Where the path of a deletion comes from\<close>

lemma explicitly_named_split:
  assumes "explicitly_named request name"
  shows "\<exists>before after. request = before @ name @ after \<and> (before = [] \<or> \<not> name_char (last before))
    \<and> (after = [] \<or> \<not> name_char (hd after))"
proof -
  from assms [unfolded explicitly_named_def list_ex_iff py_startswith_def] obtain i where mem: "i \<in> set [0..<Suc (length request)]"
      and i: "take (length name) (drop i request) = name" "i = 0 \<or> \<not> name_char (request ! (i - 1))"
      "case drop (i + length name) request of [] \<Rightarrow> True | c # _ \<Rightarrow> \<not> name_char c"
    by blast
  from mem have le: "i \<le> length request" by auto
  have "request = take i request @ name @ drop (i + length name) request"
    using i(1) append_take_drop_id [of i request] append_take_drop_id [of "length name" "drop i request"]
    by (metis add.commute drop_drop)
  moreover have "take i request = [] \<or> \<not> name_char (last (take i request))"
    using le i(2) by (cases i) (auto simp: last_conv_nth)
  moreover have "drop (i + length name) request = [] \<or> \<not> name_char (hd (drop (i + length name) request))"
    using i(3) by (auto split: list.splits)
  ultimately show ?thesis by blast
qed

lemma add_candidates_distinct: "distinct (map fst acc) \<Longrightarrow> distinct (map fst (fold add_candidate cs acc))"
  by (induction cs arbitrary: acc) (auto simp: add_candidate_def distinct_update)

lemma add_candidates_origin:
  "map_of (fold add_candidate cs acc) fp = Some aliases \<Longrightarrow> a \<in> set aliases \<Longrightarrow>
     (\<exists>xs. (fp, xs) \<in> set cs \<and> a \<in> set xs) \<or> (\<exists>xs. map_of acc fp = Some xs \<and> a \<in> set xs)"
proof (induction cs arbitrary: acc)
  case (Cons c cs)
  obtain p as where c: "c = (p, as)" by (cases c)
  from Cons.IH [of "add_candidate c acc"] Cons.prems
  consider xs where "(fp, xs) \<in> set cs" "a \<in> set xs" | xs where "map_of (add_candidate c acc) fp = Some xs" "a \<in> set xs" by auto
  then show ?case
  proof cases
    case 2
    then show ?thesis unfolding c add_candidate_def by (auto simp: update_conv' split: if_splits option.splits)
  qed auto
qed simp

lemma named_writes_origin:
  assumes "fp \<in> set (named_writes request history)"
  shows "\<exists>item aliases name. item \<in> set history \<and> write_candidate item = Some (fp, aliases) \<and> name \<in> set aliases
    \<and> explicitly_named request name"
proof -
  obtain aliases name where mem: "(fp, aliases) \<in> set (write_candidates history)" "name \<in> set aliases" "explicitly_named request name"
    using assms by (auto simp: named_writes_def list_ex_iff)
  have "map_of (write_candidates history) fp = Some aliases"
    using add_candidates_distinct [of "[]"] mem(1) by (simp add: write_candidates_def)
  from add_candidates_origin [OF this [unfolded write_candidates_def] mem(2)] obtain xs
    where "(fp, xs) \<in> set (List.map_filter write_candidate history)" "name \<in> set xs" by auto
  then obtain item where "item \<in> set history" "write_candidate item = Some (fp, xs)"
    by (auto simp: List.map_filter_def)
  with mem(3) \<open>name \<in> set xs\<close> show ?thesis by blast
qed

subsection \<open>Calls and arguments\<close>

lemma filled_argument:
  "dget (en_args (fill_node user_input extras n)) k =
     (case named_writes user_input (extras_list extras ''tool_call_history'') of
        [fp] \<Rightarrow> if k = ''filepath'' \<and> needs_path n then PStr fp else dget (en_args n) k
      | _ \<Rightarrow> dget (en_args n) k)"
  by (auto simp: fill_node_def pysimps split: list.splits)

text \<open>What the alias table says of an action, read off the table itself: the canonical action that the alias stands for
  and the operation that comes with it, unless the action is canonical already.\<close>

definition alias_of :: "string \<Rightarrow> pyval \<Rightarrow> (string \<times> string option) option" where
  "alias_of tool action =
     (case action of
        PStr name \<Rightarrow>
          if py_strip name \<in> set (canonical_actions tool) then None
          else (case map_of CANONICAL_ALIASES_BY_TOOL tool of None \<Rightarrow> None | Some entries \<Rightarrow> map_of entries (py_strip name))
      | _ \<Rightarrow> None)"

lemma alias_table_names:
  "list_all (\<lambda>(tool, entries). list_all (\<lambda>(name, _, op). name \<noteq> [] \<and> op \<noteq> Some []) entries) CANONICAL_ALIASES_BY_TOOL"
  by code_simp

lemma alias_of_plain:
  assumes "alias_of tool action = Some (canonical, op)"
  shows "\<exists>name. action = PStr name \<and> name \<noteq> [] \<and> py_strip name \<noteq> []" "op \<noteq> Some []" "canonical \<in> set (canonical_actions tool)"
proof -
  from assms obtain name entries where e: "action = PStr name" "map_of CANONICAL_ALIASES_BY_TOOL tool = Some entries"
      "map_of entries (py_strip name) = Some (canonical, op)"
    by (auto simp: alias_of_def split: pyval.splits if_splits option.splits)
  have "py_strip name \<noteq> [] \<and> op \<noteq> Some []"
    using alias_table_names map_of_SomeD [OF e(2)] map_of_SomeD [OF e(3)] unfolding list_all_iff by fastforce
  moreover from this have "name \<noteq> []" by (auto simp: py_strip_def)
  ultimately show "\<exists>name. action = PStr name \<and> name \<noteq> [] \<and> py_strip name \<noteq> []" "op \<noteq> Some []" using e(1) by auto
  show "canonical \<in> set (canonical_actions tool)" by (rule alias_target_canonical [OF e(2,3)])
qed

text \<open>Resolution applies exactly the table.\<close>

lemma resolve_alias_of:
  "ar_matched (resolve_action_alias tool (PStr name)) \<longleftrightarrow> alias_of tool (PStr name) \<noteq> None"
  "alias_of tool (PStr name) = Some (canonical, op) \<Longrightarrow>
     ar_canonical_action (resolve_action_alias tool (PStr name)) = canonical \<and> ar_operation (resolve_action_alias tool (PStr name)) = op"
  using alias_of_plain(1) [of tool "PStr name"]
  by (auto simp: alias_of_def resolve_action_alias_def Let_def CANONICAL_ALIASES_GLOBAL_def split: option.splits if_splits)

lemma converted_argument:
  "dget (en_args (call_to_node (i, c))) k =
     (case alias_of (canonical_tool_id (tc_name c)) (dget (tc_arguments c) ''action'') of
        None \<Rightarrow> dget (tc_arguments c) k
      | Some (canonical, op) \<Rightarrow>
          if k = ''action'' then PStr canonical
          else if k = ''operation'' \<and> op \<noteq> None then PStr (the op) else dget (tc_arguments c) k)"
proof (cases "alias_of (canonical_tool_id (tc_name c)) (dget (tc_arguments c) ''action'')")
  case None
  then have "alias_rewrite (canonical_tool_id (tc_name c)) (tc_arguments c) = None"
    by (auto simp: alias_rewrite_def Let_def resolve_alias_of(1) split: pyval.splits)
  then show ?thesis unfolding call_to_node_args None by simp
next
  case (Some entry)
  obtain canonical op where entry: "entry = (canonical, op)" by (cases entry)
  note plain = alias_of_plain [OF Some [unfolded entry]]
  from plain(1) obtain name where name: "dget (tc_arguments c) ''action'' = PStr name" "name \<noteq> []" by blast
  note found = Some [unfolded entry name(1)]
  have "alias_rewrite (canonical_tool_id (tc_name c)) (tc_arguments c) =
      Some (resolve_action_alias (canonical_tool_id (tc_name c)) (PStr name),
            rewritten_args (resolve_action_alias (canonical_tool_id (tc_name c)) (PStr name)) (tc_arguments c))"
    using resolve_alias_of(1) [of "canonical_tool_id (tc_name c)" name] found name by (simp add: alias_rewrite_def Let_def)
  then show ?thesis
    unfolding call_to_node_args name(1) found using resolve_alias_of(2) [OF found] plain(2)
    by (auto simp: dget_rewritten_args)
qed

text \<open>The candidates of the history that the request names, without the grouping by path.\<close>

lemma add_candidate_aliases:
  "(case map_of (add_candidate (p, as) acc) fp of None \<Rightarrow> [] | Some xs \<Rightarrow> xs) =
     (case map_of acc fp of None \<Rightarrow> [] | Some xs \<Rightarrow> xs) @ (if fp = p then as else [])"
  by (auto simp: add_candidate_def update_conv' split: option.splits)

lemma add_candidates_keep:
  "a \<in> set (case map_of acc fp of None \<Rightarrow> [] | Some xs \<Rightarrow> xs) \<or> (\<exists>xs. (fp, xs) \<in> set cs \<and> a \<in> set xs) \<Longrightarrow>
     a \<in> set (case map_of (fold add_candidate cs acc) fp of None \<Rightarrow> [] | Some xs \<Rightarrow> xs)"
proof (induction cs arbitrary: acc)
  case (Cons c cs)
  obtain p as where c: "c = (p, as)" by (cases c)
  show ?case unfolding fold_simps comp_apply
    by (rule Cons.IH) (use Cons.prems in \<open>auto simp: c add_candidate_aliases\<close>)
qed auto

lemma named_writes_complete:
  assumes "item \<in> set history" and "write_candidate item = Some (fp, aliases)" and "name \<in> set aliases"
    and "explicitly_named request name"
  shows "fp \<in> set (named_writes request history)"
proof -
  have "(fp, aliases) \<in> set (List.map_filter write_candidate history)"
    using assms(1,2) by (auto simp: List.map_filter_def intro!: rev_image_eqI [of item])
  from add_candidates_keep [of name "[]" fp "List.map_filter write_candidate history"] this assms(3)
  have "name \<in> set (case map_of (write_candidates history) fp of None \<Rightarrow> [] | Some xs \<Rightarrow> xs)"
    unfolding write_candidates_def by blast
  then obtain xs where xs: "map_of (write_candidates history) fp = Some xs" "name \<in> set xs"
    by (cases "map_of (write_candidates history) fp") auto
  show ?thesis unfolding named_writes_def set_map
    using map_of_SomeD [OF xs(1)] xs(2) assms(4) by (auto simp: list_ex_iff intro!: rev_image_eqI [of "(fp, xs)"])
qed

definition names_write :: "string \<Rightarrow> pyval list \<Rightarrow> string \<Rightarrow> bool" where
  "names_write request history fp \<longleftrightarrow>
     (\<exists>item aliases name before after. item \<in> set history \<and> write_candidate item = Some (fp, aliases) \<and> name \<in> set aliases
        \<and> request = before @ name @ after \<and> (before = [] \<or> \<not> name_char (last before)) \<and> (after = [] \<or> \<not> name_char (hd after)))"

lemma explicitly_named_join:
  assumes "before = [] \<or> \<not> name_char (last before)" and "after = [] \<or> \<not> name_char (hd after)"
  shows "explicitly_named (before @ name @ after) name"
proof -
  have "length before = 0 \<or> \<not> name_char ((before @ name @ after) ! (length before - 1))"
    using assms(1) by (cases before rule: rev_cases) (auto simp: nth_append)
  moreover have "case after of [] \<Rightarrow> True | c # _ \<Rightarrow> \<not> name_char c" using assms(2) by (cases after) auto
  ultimately show ?thesis
    unfolding explicitly_named_def list_ex_iff
    by (intro bexI [of _ "length before"]) (auto simp: py_startswith_def)
qed

lemma named_writes_iff: "fp \<in> set (named_writes request history) \<longleftrightarrow> names_write request history fp"
proof
  assume "fp \<in> set (named_writes request history)"
  from named_writes_origin [OF this] show "names_write request history fp"
    unfolding names_write_def using explicitly_named_split by fastforce
next
  assume "names_write request history fp"
  then show "fp \<in> set (named_writes request history)"
    unfolding names_write_def using named_writes_complete explicitly_named_join by metis
qed

lemma named_writes_distinct: "distinct (named_writes request history)"
proof -
  have "distinct (map fst (filter P xs))" if "distinct (map fst xs)" for P and xs :: "(string \<times> string list) list"
    using that by (induction xs) auto
  then show ?thesis unfolding named_writes_def write_candidates_def using add_candidates_distinct [of "[]"] by simp
qed

lemma named_writes_single:
  "named_writes request history = [fp] \<longleftrightarrow> names_write request history fp \<and> (\<forall>fp'. names_write request history fp' \<longrightarrow> fp' = fp)"
  using named_writes_distinct [of request history] unfolding named_writes_iff [symmetric]
  by (cases "named_writes request history" rule: remdups_adj.cases) auto

text \<open>C8: Preparation invents nothing. A prepared batch has the calls of the model in order, with their tools, ids,
  dependencies and bindings. Of the arguments only three can change. An action that the alias table knows becomes the
  canonical action of its entry, with the operation of the entry; any other action stays as the model wrote it. A file
  path is filled in exactly when the call deletes a workspace file, names no path, and exactly one path of the verified
  earlier writes is mentioned in the user's request, by a name with no name character on either side; that path is
  the value.\<close>

theorem prepared_arguments_are_the_models:
  assumes "prepare_tool_calls env user_input evidence calls extras = (extras', Ready prepared risk)" and "i < length calls"
  shows "length prepared = length calls \<and> tc_name (prepared ! i) = canonical_tool_id (tc_name (calls ! i))
    \<and> (tc_id (calls ! i) \<noteq> [] \<longrightarrow> tc_id (prepared ! i) = tc_id (calls ! i))
    \<and> tc_depends_on (prepared ! i) = tc_depends_on (calls ! i) \<and> tc_result_bindings (prepared ! i) = tc_result_bindings (calls ! i)
    \<and> (k \<notin> {''action'', ''operation'', ''filepath''} \<longrightarrow>
         dget (tc_arguments (prepared ! i)) k = dget (tc_arguments (calls ! i)) k)
    \<and> (case alias_of (tc_name (prepared ! i)) (dget (tc_arguments (calls ! i)) ''action'') of
         None \<Rightarrow> dget (tc_arguments (prepared ! i)) ''action'' = dget (tc_arguments (calls ! i)) ''action''
           \<and> dget (tc_arguments (prepared ! i)) ''operation'' = dget (tc_arguments (calls ! i)) ''operation''
       | Some (canonical, op) \<Rightarrow> canonical \<in> set (canonical_actions (tc_name (prepared ! i)))
           \<and> dget (tc_arguments (prepared ! i)) ''action'' = PStr canonical
           \<and> dget (tc_arguments (prepared ! i)) ''operation'' =
               (case op of None \<Rightarrow> dget (tc_arguments (calls ! i)) ''operation'' | Some operation \<Rightarrow> PStr operation))
    \<and> (\<forall>fp. tc_name (prepared ! i) = ''workspace.file'' \<and> py_lower (gets (tc_arguments (prepared ! i)) ''action'') = ''delete''
         \<and> py_strip (gets (tc_arguments (calls ! i)) ''filepath'') = []
         \<and> names_write user_input (extras_list extras ''tool_call_history'') fp
         \<and> (\<forall>fp'. names_write user_input (extras_list extras ''tool_call_history'') fp' \<longrightarrow> fp' = fp)
         \<longrightarrow> dget (tc_arguments (prepared ! i)) ''filepath'' = PStr fp)
    \<and> (dget (tc_arguments (prepared ! i)) ''filepath'' \<noteq> dget (tc_arguments (calls ! i)) ''filepath'' \<longrightarrow>
         tc_name (prepared ! i) = ''workspace.file'' \<and> py_lower (gets (tc_arguments (prepared ! i)) ''action'') = ''delete''
         \<and> py_strip (gets (tc_arguments (calls ! i)) ''filepath'') = []
         \<and> (\<exists>fp. names_write user_input (extras_list extras ''tool_call_history'') fp
              \<and> (\<forall>fp'. names_write user_input (extras_list extras ''tool_call_history'') fp' \<longrightarrow> fp' = fp)
              \<and> dget (tc_arguments (prepared ! i)) ''filepath'' = PStr fp))"
proof -
  let ?n = "call_to_node (i, calls ! i)" and ?m = "fill_node user_input extras (call_to_node (i, calls ! i))"
  let ?entry = "alias_of (canonical_tool_id (tc_name (calls ! i))) (dget (tc_arguments (calls ! i)) ''action'')"
  note p = prepared_nth [OF assms] and filled = filled_argument [of user_input extras ?n]
  have path: "gets (en_args ?n) ''filepath'' = gets (tc_arguments (calls ! i)) ''filepath''"
    by (rule gets_same) (simp add: converted_argument split: option.split)
  have action: "gets (en_args ?m) ''action'' = gets (en_args ?n) ''action''" by (rule gets_same) (simp add: filled split: list.split)
  have needs: "needs_path ?n \<longleftrightarrow> canonical_tool_id (tc_name (calls ! i)) = ''workspace.file''
      \<and> py_lower (gets (en_args ?m) ''action'') = ''delete'' \<and> py_strip (gets (tc_arguments (calls ! i)) ''filepath'') = []"
    by (simp add: needs_path_def action path)
  have kept: "dget (en_args ?n) ''filepath'' = dget (tc_arguments (calls ! i)) ''filepath''"
    by (simp add: converted_argument split: option.split)
  have actions: "case ?entry of
         None \<Rightarrow> dget (en_args ?m) ''action'' = dget (tc_arguments (calls ! i)) ''action''
           \<and> dget (en_args ?m) ''operation'' = dget (tc_arguments (calls ! i)) ''operation''
       | Some (canonical, op) \<Rightarrow> canonical \<in> set (canonical_actions (canonical_tool_id (tc_name (calls ! i))))
           \<and> dget (en_args ?m) ''action'' = PStr canonical
           \<and> dget (en_args ?m) ''operation'' = (case op of None \<Rightarrow> dget (tc_arguments (calls ! i)) ''operation'' | Some operation \<Rightarrow> PStr operation)"
    by (cases ?entry) (auto simp: filled converted_argument dest: alias_of_plain(3) split: option.splits list.splits)
  have others: "k \<notin> {''action'', ''operation'', ''filepath''} \<longrightarrow> dget (en_args ?m) k = dget (tc_arguments (calls ! i)) k"
    by (auto simp: filled converted_argument split: option.splits list.splits)
  let ?N = "names_write user_input (extras_list extras ''tool_call_history'')"
  let ?needs = "canonical_tool_id (tc_name (calls ! i)) = ''workspace.file'' \<and> py_lower (gets (en_args ?m) ''action'') = ''delete''
      \<and> py_strip (gets (tc_arguments (calls ! i)) ''filepath'') = []"
  note single = named_writes_single [of user_input "extras_list extras ''tool_call_history''"]
  have known: "dget (en_args ?m) ''filepath'' = PStr fp" if "?N fp \<and> (\<forall>fp'. ?N fp' \<longrightarrow> fp' = fp)" and "?needs" for fp
    using that(1) [folded single] that(2) [folded needs] by (simp add: filled)
  have origin: "?needs \<and> (\<exists>fp. (?N fp \<and> (\<forall>fp'. ?N fp' \<longrightarrow> fp' = fp)) \<and> dget (en_args ?m) ''filepath'' = PStr fp)"
    if "dget (en_args ?m) ''filepath'' \<noteq> dget (tc_arguments (calls ! i)) ''filepath''"
  proof -
    from that [folded kept] obtain fp where "named_writes user_input (extras_list extras ''tool_call_history'') = [fp]" "needs_path ?n"
      by (auto simp: filled split: list.splits if_splits)
    then show ?thesis unfolding single [symmetric] needs [symmetric] by (simp add: filled)
  qed
  show ?thesis
    unfolding p node_to_call_frame fill_node_frame call_to_node_frame
    by (intro conjI impI allI prepared_length [OF assms(1)] actions others [rule_format]) (use known origin in \<open>blast | simp\<close>)+
qed

subsection \<open>The plan that is executed\<close>

text \<open>Two calls that validation cannot tell apart: the same plan fields, and tools and actions with the same permissions.\<close>

definition same_plan :: "binding_target_validator \<Rightarrow> binding_source_validator \<Rightarrow> llm_tool_call \<Rightarrow> llm_tool_call \<Rightarrow> bool" where
  "same_plan t s c c' \<longleftrightarrow> call_step_id c' = call_step_id c \<and> tc_depends_on c' = tc_depends_on c
     \<and> tc_result_bindings c' = tc_result_bindings c \<and> tc_failure_policy c' = tc_failure_policy c
     \<and> (\<forall>x. t (tc_name c') (dget_or (tc_arguments c') ''action'' (PStr [])) x = t (tc_name c) (dget_or (tc_arguments c) ''action'' (PStr [])) x)
     \<and> (\<forall>x. s (tc_name c') (dget_or (tc_arguments c') ''action'' (PStr [])) x = s (tc_name c) (dget_or (tc_arguments c) ''action'' (PStr [])) x)"

lemma same_plan_steps: "list_all2 (same_plan t s) calls calls' \<Longrightarrow> map call_step_id calls' = map call_step_id calls"
  by (induction rule: list_all2_induct) (simp_all add: same_plan_def)

lemma same_plan_source:
  assumes "list_all2 (same_plan t s) calls calls'"
    and "binding_source_tool (zip ids calls) prior i = Inr (tool, action)" and "s tool action x" and "length ids = length calls"
  shows "\<exists>tool' action'. binding_source_tool (zip ids calls') prior i = Inr (tool', action') \<and> s tool' action' x"
proof -
  have "rel_option (same_plan t s) (map_of (zip ids calls) i) (map_of (zip ids calls') i)"
    using assms(4,1) by (induction ids calls arbitrary: calls' rule: list_induct2) (auto simp: list_all2_Cons1)
  then show ?thesis using assms(2,3)
    by (cases "map_of (zip ids calls) i"; cases "map_of (zip ids calls') i")
      (auto simp: binding_source_tool_def same_plan_def split: option.splits)
qed

lemma same_plan_binding:
  assumes "list_all2 (same_plan t s) calls calls'" and "same_plan t s c c'" and "length ids = length calls"
    and "check_binding (Some t) (Some s) (zip ids calls) prior c step_id b = Inr u"
  shows "check_binding (Some t) (Some s) (zip ids calls') prior c' step_id b = Inr u"
proof -
  obtain target reference where b: "b = (target, reference)" by (cases b)
  from assms(4) obtain i path where ok: "target \<noteq> [] \<and> CHR ''.'' \<notin> set target" "parse_reference reference = Inr (i, path)"
      "i \<in> set (tc_depends_on c)" "t (tc_name c) (dget_or (tc_arguments c) ''action'' (PStr [])) target"
      "path \<noteq> [] \<longrightarrow> (\<exists>tool action. binding_source_tool (zip ids calls) prior i = Inr (tool, action) \<and> s tool action path)"
    by (auto simp: check_binding_def b split: if_splits)
  have "path \<noteq> [] \<longrightarrow> (\<exists>tool action. binding_source_tool (zip ids calls') prior i = Inr (tool, action) \<and> s tool action path)"
    using ok(5) same_plan_source [OF assms(1) _ _ assms(3)] by blast
  then show ?thesis using ok(1-4) assms(2) by (auto simp: check_binding_def b same_plan_def)
qed

lemma rmapM_transfer:
  "rmapM f xs = Inr ys \<Longrightarrow> (\<And>x y. x \<in> set xs \<Longrightarrow> f x = Inr y \<Longrightarrow> g x = Inr y) \<Longrightarrow> rmapM g xs = Inr ys"
  by (induction xs arbitrary: ys) auto

lemma rmapM_transfer2:
  "list_all2 (\<lambda>x x'. \<forall>y. f x = Inr y \<longrightarrow> g x' = Inr y) xs xs' \<Longrightarrow> rmapM f xs = Inr ys \<Longrightarrow> rmapM g xs' = Inr ys"
  by (induction arbitrary: ys rule: list_all2_induct) auto

lemma same_plan_call:
  assumes "list_all2 (same_plan t s) calls calls'" and "same_plan t s c c'" and "length ids = length calls"
    and "check_call (Some t) (Some s) (zip ids calls) prior (step_id, c) = Inr r"
  shows "check_call (Some t) (Some s) (zip ids calls') prior (step_id, c') = Inr r"
proof -
  have len: "map fst (zip ids calls') = map fst (zip ids calls)"
    using assms(1,3) by (simp add: list_all2_lengthD)
  have fields_eq: "tc_depends_on c' = tc_depends_on c" "tc_result_bindings c' = tc_result_bindings c" "tc_failure_policy c' = tc_failure_policy c"
    using assms(2) by (simp_all add: same_plan_def)
  from assms(4) obtain us where bound: "rmapM (check_binding (Some t) (Some s) (zip ids calls) prior c step_id) (tc_result_bindings c) = Inr us"
    by (auto simp: check_call_def Let_def)
  have "rmapM (check_binding (Some t) (Some s) (zip ids calls') prior c' step_id) (tc_result_bindings c) = Inr us"
    by (rule rmapM_transfer [OF bound]) (rule same_plan_binding [OF assms(1-3)])
  then show ?thesis using assms(4) unfolding check_call_def Let_def len case_prod_conv fields_eq by simp
qed

lemma same_plan_validates:
  assumes "list_all2 (same_plan t s) calls calls'" and "validate_incremental_graph calls prior (Some t) (Some s) = Inr layers"
  shows "validate_incremental_graph calls' prior (Some t) (Some s) = Inr layers"
proof -
  let ?ids = "map call_step_id calls"
  note ids = same_plan_steps [OF assms(1)]
  have check: "rmapM (check_call (Some t) (Some s) (zip ?ids calls') prior) (zip ?ids calls') = Inr ys"
    if "rmapM (check_call (Some t) (Some s) (zip ?ids calls) prior) (zip ?ids calls) = Inr ys" for ys
  proof (rule rmapM_transfer2 [OF _ that])
    show "list_all2 (\<lambda>x x'. \<forall>y. check_call (Some t) (Some s) (zip ?ids calls) prior x = Inr y \<longrightarrow>
        check_call (Some t) (Some s) (zip ?ids calls') prior x' = Inr y) (zip ?ids calls) (zip ?ids calls')"
      using assms(1) same_plan_call [OF assms(1) _ length_map]
      by (auto simp: list_all2_conv_all_nth)
  qed
  show ?thesis
    using assms(2) check unfolding validate_incremental_graph_def Let_def ids by (auto split: option.splits)
qed

lemma canonical_tool_id_again [simp]: "canonical_tool_id (canonical_tool_id name) = canonical_tool_id name"
proof -
  let ?R = "py_replace ''__'' ''.''"
  have nil: "?R [] = []" by (subst py_replace.simps) simp
  have single: "?R [c] = [c]" for c by (subst py_replace.simps) (simp add: py_startswith_def nil)
  have hit: "?R (CHR ''_'' # CHR ''_'' # r) = CHR ''.'' # ?R r" for r by (subst py_replace.simps) (simp add: py_startswith_def)
  have miss: "?R (a # b # r) = a # ?R (b # r)" if "\<not> (a = CHR ''_'' \<and> b = CHR ''_'')" for a b r
    using that by (subst py_replace.simps) (simp add: py_startswith_def)
  have other: "?R (a # r) = a # ?R r" if "a \<noteq> CHR ''_''" for a r
    using that by (subst py_replace.simps) (simp add: py_startswith_def)
  have "?R (?R s) = ?R s" for s
  proof (induction s rule: length_induct)
    case (1 s)
    show ?case
    proof (cases s rule: remdups_adj.cases)
      case (3 a b r)
      show ?thesis
      proof (cases "a = CHR ''_'' \<and> b = CHR ''_''")
        case True
        then show ?thesis using 1 unfolding 3 by (simp add: hit other)
      next
        case False
        have tail: "?R (?R (b # r)) = ?R (b # r)" using 1 unfolding 3 by simp
        show ?thesis
        proof (cases "a = CHR ''_''")
          case True
          then have b: "b \<noteq> CHR ''_''" using False by simp
          show ?thesis unfolding 3 miss [OF False] other [OF b] using False tail [unfolded other [OF b]]
            by (simp add: miss other [OF b])
        next
          case a: False
          show ?thesis unfolding 3 miss [OF False] other [OF a] tail ..
        qed
      qed
    qed (simp_all add: nil single)
  qed
  then show ?thesis by (simp add: canonical_tool_id_def)
qed

lemma declared_fields_canonical [simp]: "declared_fields registry d (canonical_tool_id tool) action = declared_fields registry d tool action"
  by (simp add: declared_fields_def)

lemma binding_allowed_canonical [simp]:
  "binding_target_allowed registry (canonical_tool_id tool) action target = binding_target_allowed registry tool action target"
  "binding_source_allowed registry (canonical_tool_id tool) action path = binding_source_allowed registry tool action path"
  by (simp_all add: binding_target_allowed_def binding_source_allowed_def split: list.splits)

lemma fill_node_action:
  "dget_or (en_args (fill_node user_input extras n)) ''action'' v = dget_or (en_args n) ''action'' v"
  by (auto simp: fill_node_def dget_or_def dset_def update_conv' split: list.splits)

lemma fill_call_same_plan:
  assumes "alias_rewrite (canonical_tool_id (tc_name c)) (tc_arguments c) = None" and "call_step_id c \<noteq> []"
  shows "same_plan (binding_target_allowed registry) (binding_source_allowed registry) c
    (node_to_call (fill_node user_input extras (call_to_node (i, c))))"
  using assms(2) by (simp add: same_plan_def call_step_id_def fill_node_action call_to_node_args(1) assms(1) split: if_splits)

lemma validated_step_ids:
  "validate_incremental_graph calls prior t s = Inr layers \<Longrightarrow> c \<in> set calls \<Longrightarrow> call_step_id c \<noteq> []"
  by (drule (1) validate_Inr_D(3)) (auto simp: STEP_ID_RE_def)

text \<open>C10: The executor accepts a prepared batch and schedules it in the layers that were validated, provided that no call
  of it was written with an action alias: the tool names, arguments and ids that preparation changes do not
  matter to the plan.\<close>

theorem executor_accepts_prepared_plan:
  assumes "prepare_tool_calls env user_input evidence calls extras = (extras', Ready prepared risk)"
    and "\<forall>c \<in> set calls. alias_rewrite (canonical_tool_id (tc_name c)) (tc_arguments c) = None"
  shows "\<exists>layers. validated_plan env evidence calls = Inr layers \<and> validated_plan env evidence prepared = Inr layers"
proof -
  let ?t = "binding_target_allowed (re_registry env)" and ?s = "binding_source_allowed (re_registry env)"
  obtain layers where v: "validated_plan env evidence calls = Inr layers" using prepare_Ready [OF assms(1)] by blast
  have "list_all2 (same_plan ?t ?s) calls prepared"
  proof (rule list_all2_all_nthI)
    show "length calls = length prepared" using prepared_length [OF assms(1)] by simp
    fix i assume i: "i < length calls"
    have "call_step_id (calls ! i) \<noteq> []" using validated_step_ids [OF v [unfolded validated_plan_def]] i by simp
    with assms(2) i show "same_plan ?t ?s (calls ! i) (prepared ! i)"
      unfolding prepared_nth [OF assms(1) i] by (intro fill_call_same_plan) simp_all
  qed
  from same_plan_validates [OF this v [unfolded validated_plan_def]] v show ?thesis by (auto simp: validated_plan_def)
qed

text \<open>A deletion whose path is filled, to evaluate.\<close>

definition demo_prepare_env :: retry_env where
  "demo_prepare_env = demo_retry_env\<lparr>
     re_contracts := [(''workspace.file'', ToolContract ''workspace.file''), (''probe'', ToolContract ''probe'')],
     re_registry := [(''workspace.file'', PDict [(''metadata'', PDict [(''bindable_inputs'', PDict [(''read'', PList [PStr ''filepath''])])])])]\<rparr>"

definition demo_history :: pydict where
  "demo_history = [(''tool_call_history'', PList [PDict
     [(''tool'', PStr ''workspace.file''), (''arguments'', PDict [(''action'', PStr ''write''), (''filename'', PStr ''report.txt'')]),
      (''ok'', PBool True), (''output'', PDict [(''filepath'', PStr ''files/a1__report.txt'')])]])]"

abbreviation demo_delete :: llm_tool_call where
  "demo_delete \<equiv> LLMToolCall ''c1'' ''workspace__file'' [(''action'', PStr ''delete'')]"

lemma demo_prepared:
  "case prepare_tool_calls demo_prepare_env ''remove report.txt now'' [] [demo_delete] demo_history of
     (_, Ready [p] _) \<Rightarrow> tc_name p = ''workspace.file'' \<and> dget (tc_arguments p) ''filepath'' = PStr ''files/a1__report.txt''
   | _ \<Rightarrow> False"
  by code_simp

theorem prepared_arguments_are_the_models_witness:
  "\<exists>extras' p risk. prepare_tool_calls demo_prepare_env ''remove report.txt now'' [] [demo_delete] demo_history = (extras', Ready [p] risk)
     \<and> dget (tc_arguments p) ''filepath'' = PStr ''files/a1__report.txt''
     \<and> dget (tc_arguments p) ''action'' = PStr ''delete'' \<and> tc_name p = ''workspace.file''
     \<and> names_write ''remove report.txt now'' (extras_list demo_history ''tool_call_history'') ''files/a1__report.txt''
     \<and> (\<forall>fp. names_write ''remove report.txt now'' (extras_list demo_history ''tool_call_history'') fp \<longrightarrow> fp = ''files/a1__report.txt'')"
proof -
  obtain extras' p risk where run:
      "prepare_tool_calls demo_prepare_env ''remove report.txt now'' [] [demo_delete] demo_history = (extras', Ready [p] risk)"
    and path: "dget (tc_arguments p) ''filepath'' = PStr ''files/a1__report.txt''"
    using demo_prepared by (auto split: prod.splits preparation.splits list.splits)
  have asked: "dget (tc_arguments demo_delete) ''filepath'' = PNone"
      "alias_of ''workspace.file'' (dget (tc_arguments demo_delete) ''action'') = None"
      "dget (tc_arguments demo_delete) ''action'' = PStr ''delete''" by code_simp+
  have "0 < length [demo_delete]" by simp
  note all = prepared_arguments_are_the_models [OF run this]
  note rest = all [THEN conjunct2, THEN conjunct2, THEN conjunct2, THEN conjunct2, THEN conjunct2, THEN conjunct2]
  note kept = rest [THEN conjunct1] and changed = rest [THEN conjunct2, THEN conjunct2]
  from changed path asked(1) have fill: "tc_name p = ''workspace.file''"
      "names_write ''remove report.txt now'' (extras_list demo_history ''tool_call_history'') ''files/a1__report.txt''"
      "\<forall>fp. names_write ''remove report.txt now'' (extras_list demo_history ''tool_call_history'') fp \<longrightarrow> fp = ''files/a1__report.txt''"
    by auto
  from kept fill(1) asked(2,3) have "dget (tc_arguments p) ''action'' = PStr ''delete''" by simp
  with run path fill show ?thesis by blast
qed

theorem executor_accepts_prepared_plan_witness:
  "\<exists>extras' p risk layers.
     prepare_tool_calls demo_prepare_env ''remove report.txt now'' [] [demo_delete] demo_history = (extras', Ready [p] risk)
     \<and> validated_plan demo_prepare_env [] [p] = Inr layers"
proof -
  obtain extras' p risk where run:
      "prepare_tool_calls demo_prepare_env ''remove report.txt now'' [] [demo_delete] demo_history = (extras', Ready [p] risk)"
    using demo_prepared by (auto split: prod.splits preparation.splits list.splits)
  have "alias_rewrite (canonical_tool_id (tc_name demo_delete)) (tc_arguments demo_delete) = None" by code_simp
  with executor_accepts_prepared_plan [OF run] run show ?thesis by auto
qed

text \<open>With an alias the plan is validated before the alias is resolved: a call that binds a declared input is refused when
  its action is written as the alias, although the same call with the canonical action is accepted.\<close>

theorem alias_hides_declared_binding:
  "let plan = (\<lambda>action. [LLMToolCall ''a'' ''probe'' [],
         (LLMToolCall ''b'' ''workspace.file'' [(''action'', PStr action)])\<lparr>tc_depends_on := [''a''], tc_result_bindings := [(''filepath'', ''a'')]\<rparr>])
   in (case snd (prepare_tool_calls demo_prepare_env [] [] (plan ''cat'') []) of
         Blocked error _ _ _ _ \<Rightarrow> error = ''orchestration_validation_failed'' | _ \<Rightarrow> False)
    \<and> (case snd (prepare_tool_calls demo_prepare_env [] [] (plan ''read'') []) of Ready _ _ \<Rightarrow> True | _ \<Rightarrow> False)
    \<and> resolve_action_alias ''workspace.file'' (PStr ''cat'') =
        \<lparr>ar_matched = True, ar_original_action = ''cat'', ar_canonical_action = ''read'', ar_operation = None, ar_source = ''canonical''\<rparr>"
  by code_simp

end
