(* ===== verification/Query_Round.thy ===== *)
theory Query_Round
  imports Call_Intake Tool_Preparation Batch_Compiler Goal_Loop Executor_Rounds
begin

text \<open>
  One round of the conversation loop (\<open>core/runtime_engine/query_loop.py\<close>), from the tool calls of a model response
  to the results that are appended to the conversation: parsing, unique ids, batching, suppression of repeated calls,
  preparation, execution, recovery of failed reads by registered fallbacks (\<open>_execute_safe_read_recovery\<close>), and the
  observations of the goal loop.

  The persistence of the task state before and after the execution is a parameter that may fail
  (\<open>checkpoint\<close>; its effect is the subject of \<open>Task_State\<close>). Events to the emitter, the cognitive state, the polling of
  long-running tasks and the text of the conversation are left out. If the observation raises, the round raises; what
  it had already written to \<open>ctx.extras\<close> is not kept in the model.
\<close>

type_synonym checkpoint = "(string \<Rightarrow> pyval list \<Rightarrow> py_error option) option"

section \<open>Checkpoints\<close>

definition record_checkpoint_degradation :: "exec_env \<Rightarrow> string \<Rightarrow> py_error \<Rightarrow> pydict \<Rightarrow> pydict" where
  "record_checkpoint_degradation env phase error extras =
     set_extras_list ''task_state_checkpoint_events''
       (extras_list extras ''task_state_checkpoint_events''
        @ [PDict [(''phase'', PStr phase), (''status'', PStr ''degraded''), (''error'', PStr (redact_tool_error env (exc_str error)))]]) extras"

definition run_checkpoint :: "exec_env \<Rightarrow> checkpoint \<Rightarrow> string \<Rightarrow> string \<Rightarrow> pyval list \<Rightarrow> pydict \<Rightarrow> pydict \<times> bool" where
  "run_checkpoint env checkpoint phase label manifest extras =
     (case checkpoint of
        None \<Rightarrow> (extras, False)
      | Some save \<Rightarrow>
          (case save phase manifest of
             None \<Rightarrow> (extras, False)
           | Some error \<Rightarrow> (record_checkpoint_degradation env label error extras, True)))"

definition prepared_manifest :: "exec_env \<Rightarrow> llm_tool_call list \<Rightarrow> pyval list" where
  "prepared_manifest env calls = map (\<lambda>call. PDict
     [(''tool_id'', PStr (take 160 (tc_name call))), (''call_key'', PStr (durable_call_key (xe_sha256 env) call)),
      (''side_effecting'', PBool (\<not> executor_is_read_only env call))]) calls"

definition last_entries :: "nat \<Rightarrow> pydict \<Rightarrow> pyval list" where
  "last_entries n extras =
     (let manifest = extras_list extras ''task_state_execution_manifest'' in if n = 0 then manifest else drop (length manifest - n) manifest)"

section \<open>Recovery of failed reads\<close>

type_synonym recovery_directive = "llm_tool_call \<times> pydict \<times> string"

definition recovery_depth :: "pydict \<Rightarrow> int" where
  "recovery_depth extras = (case dget extras ''safe_read_recovery_depth'' of PInt n \<Rightarrow> n | _ \<Rightarrow> 0)"

definition recovery_candidates :: "tool_result \<Rightarrow> pyval list" where
  "recovery_candidates result =
     (let out = as_dict (tr_output result); published = dget out ''runtime_recoveries''
      in if is_list published then as_list published else [dget out ''runtime_recovery''])"

definition directive_key :: "(string \<Rightarrow> string) \<Rightarrow> llm_tool_call \<Rightarrow> pydict \<Rightarrow> string" where
  "directive_key sha256 call directive = sha256 (json_sorted (PDict
     [(''source_call_id'', PStr (tc_id call)), (''kind'', dget directive ''kind''), (''tool_id'', dget directive ''tool_id''),
      (''arguments'', dget directive ''arguments'')]))"

definition recovery_directives ::
  "(string \<Rightarrow> string) \<Rightarrow> string list \<Rightarrow> llm_tool_call list \<Rightarrow> tool_result list \<Rightarrow> recovery_directive list" where
  "recovery_directives sha256 attempted calls results =
     concat (map (\<lambda>(call, result).
       filter (\<lambda>(_, _, key). key \<notin> set attempted)
         (map (\<lambda>d. (call, as_dict d, directive_key sha256 call (as_dict d))) (filter is_valid_recovery_directive (recovery_candidates result))))
       (zip calls results))"

definition recovery_call_id :: "string \<Rightarrow> nat \<Rightarrow> string" where
  "recovery_call_id source index = ''safe-read-recovery-'' @ take 64 source @ ''-'' @ nat_str index"

definition recovery_call :: "nat \<times> recovery_directive \<Rightarrow> llm_tool_call" where
  "recovery_call = (\<lambda>(index, call, directive, _).
     (LLMToolCall (recovery_call_id (tc_id call) index) (py_str (dget directive ''tool_id'')) (as_dict (dget directive ''arguments'')))
       \<lparr>tc_goal_ids := tc_goal_ids call\<rparr>)"

definition RECOVERY_EVENTS :: string where
  "RECOVERY_EVENTS = ''safe_read_recovery_events''"

fun update_each :: "pyval list \<Rightarrow> pydict list \<Rightarrow> pyval list" where
  "update_each (e # es) (u # us) = PDict (dupdate (as_dict e) u) # update_each es us"
| "update_each es _ = es"

text \<open>\<open>for event in events[-n:]: event.update(...)\<close>.\<close>

definition update_last_events :: "nat \<Rightarrow> pydict list \<Rightarrow> pydict \<Rightarrow> pydict" where
  "update_last_events n updates extras =
     (let events = extras_list extras RECOVERY_EVENTS; keep = length events - n
      in set_extras_list RECOVERY_EVENTS (take keep events @ update_each (drop keep events) updates) extras)"

definition plan_recovery :: "exec_env \<Rightarrow> recovery_directive \<Rightarrow> pydict \<Rightarrow> pydict" where
  "plan_recovery env = (\<lambda>(call, directive, _) extras.
     let event = PDict
           [(''kind'', PStr (py_str (dget directive ''kind''))), (''source_tool'', PStr (canonical_tool_id (tc_name call))),
            (''source_call_id'', PStr (tc_id call)), (''recovery_tool'', PStr (py_str (dget directive ''tool_id''))),
            (''summary'', PStr (gets_or directive ''summary'' ''safe_read_fallback'')), (''status'', PStr ''planned'')];
         extras1 = set_extras_list RECOVERY_EVENTS (extras_list extras RECOVERY_EVENTS @ [event]) extras;
         (extras2, installed) = install_recovery_goal (xe_sha256 env) directive (tc_id call) extras1
     in case installed of
          None \<Rightarrow> update_last_events 1 [[(''status'', PStr ''blocked_invalid_recovery_contract'')]] extras2
        | Some _ \<Rightarrow> extras2)"

definition settled_update :: "tool_result \<Rightarrow> pydict" where
  "settled_update result =
     [(''status'', PStr (if tr_ok result then ''recovered'' else ''recovery_failed'')), (''recovery_call_id'', PStr (tr_call_id result)),
      (''error'', PStr (take 240 (case tr_error result of None \<Rightarrow> [] | Some e \<Rightarrow> e)))]"

text \<open>The attempt to run the recovery calls; \<open>None\<close> when they are not run.\<close>

definition attempt_recovery ::
  "exec_env \<Rightarrow> string \<Rightarrow> checkpoint \<Rightarrow> nat \<Rightarrow> llm_tool_call list \<Rightarrow> (llm_tool_call list \<times> tool_result list) option exec_act" where
  "attempt_recovery env user_input checkpoint n calls st =
     (let blocked_with = (\<lambda>updates extras. (st\<lparr>xs_extras := update_last_events n (replicate n updates) extras\<rparr>, Inr None)) in
      if budget_exhausted st then blocked_with [(''status'', PStr ''not_run_budget_exhausted'')] (xs_extras st)
      else
        case prepare_tool_calls (xe_retry env) user_input (xs_evidence st) calls (xs_extras st) of
          (extras, Blocked _ errors _ _ _) \<Rightarrow>
            blocked_with [(''status'', PStr ''blocked_by_runtime_policy''), (''error'', PStr (take 240 (py_join ''; '' errors)))] extras
        | (extras, Ready prepared _) \<Rightarrow>
            if length prepared \<noteq> n \<or> list_ex (\<lambda>c. \<not> executor_is_read_only env c) prepared
            then blocked_with [(''status'', PStr ''blocked_invalid_recovery_plan'')] extras
            else
              let (extras1, degraded) = run_checkpoint env checkpoint ''prepared'' ''recovery_prepared'' (prepared_manifest env prepared) extras;
                  extras2 = (if degraded then update_last_events n (replicate n [(''checkpoint'', PStr ''degraded'')]) extras1 else extras1)
              in case execute env prepared (st\<lparr>xs_extras := extras2\<rparr>) of
                   (st', Inl e) \<Rightarrow> (st', Inl e)
                 | (st', Inr results) \<Rightarrow>
                     let extras3 = record_execution_manifest env prepared results (xs_extras st');
                         extras4 = fst (run_checkpoint env checkpoint ''settled'' ''recovery_settled'' (last_entries (length results) extras3) extras3)
                     in (st'\<lparr>xs_extras := update_last_events n (map settled_update results) extras4\<rparr>, Inr (Some (prepared, results))))"

definition with_depth :: "int \<Rightarrow> exec_state \<Rightarrow> exec_state" where
  "with_depth depth st = st\<lparr>xs_extras := dset ''safe_read_recovery_depth'' (PInt depth) (xs_extras st)\<rparr>"

lemma recovery_depth_with [simp]: "recovery_depth (xs_extras (with_depth d st)) = d"
  by (simp add: recovery_depth_def with_depth_def pysimps)

lemma started_with_depth [simp]: "xs_started (with_depth d st) = xs_started st"
  by (simp add: with_depth_def)

definition announce_recoveries :: "exec_env \<Rightarrow> string list \<Rightarrow> recovery_directive list \<Rightarrow> pydict \<Rightarrow> pydict" where
  "announce_recoveries env attempted directives extras =
     fold (plan_recovery env) directives
       (set_extras_list RECOVERY_EVENTS (extras_list extras RECOVERY_EVENTS)
         (dset ''safe_read_recovery_attempted''
            (PList (map PStr (sorted_set (attempted @ map (snd \<circ> snd) directives)))) extras))"

definition attempted_keys :: "pydict \<Rightarrow> string list" where
  "attempted_keys extras = map py_str (extras_list extras ''safe_read_recovery_attempted'')"

function safe_read_recovery ::
  "exec_env \<Rightarrow> string \<Rightarrow> checkpoint \<Rightarrow> llm_tool_call list \<Rightarrow> tool_result list \<Rightarrow> (llm_tool_call list \<times> tool_result list) exec_act" where
  "safe_read_recovery env user_input checkpoint calls results st =
     (let depth = recovery_depth (xs_extras st); attempted = attempted_keys (xs_extras st);
          directives = recovery_directives (xe_sha256 env) attempted calls results in
      if depth \<ge> 2 \<or> directives = [] then (st, Inr ([], []))
      else
        case attempt_recovery env user_input checkpoint (length directives) (map recovery_call (enumerate 0 directives))
               (st\<lparr>xs_extras := announce_recoveries env attempted directives (xs_extras st)\<rparr>) of
          (st1, Inl e) \<Rightarrow> (st1, Inl e)
        | (st1, Inr None) \<Rightarrow> (st1, Inr ([], []))
        | (st1, Inr (Some (recovered, recovery_results))) \<Rightarrow>
            (case safe_read_recovery env user_input checkpoint recovered recovery_results (with_depth (depth + 1) st1) of
               (st2, Inl e) \<Rightarrow> (with_depth depth st2, Inl e)
             | (st2, Inr (follow_calls, follow_results)) \<Rightarrow>
                 (with_depth depth st2, Inr (recovered @ follow_calls, recovery_results @ follow_results))))"
  by pat_completeness auto

termination
  by (relation "measure (\<lambda>(env, user_input, checkpoint, calls, results, st). nat (2 - recovery_depth (xs_extras st)))") auto

declare safe_read_recovery.simps [simp del]

section \<open>One round\<close>

datatype round_outcome =
    Replan
  | Nothing_To_Run string
  | Rejected "tool_result list"
  | Executed "llm_tool_call list" "tool_result list"

definition batch_registry :: "exec_env \<Rightarrow> tool_registry" where
  "batch_registry env = map (\<lambda>(tool, entry). (tool, as_dict entry)) (re_registry (xe_retry env))"

definition count_individual_replan :: "pydict \<Rightarrow> pydict" where
  "count_individual_replan extras =
     dset ''explicit_individual_call_replans''
       (PInt ((case dget extras ''explicit_individual_call_replans'' of PInt n \<Rightarrow> n | _ \<Rightarrow> 0) + 1)) extras"

definition rejected_result :: "int \<Rightarrow> string \<Rightarrow> pyval list \<Rightarrow> llm_tool_call \<Rightarrow> tool_result" where
  "rejected_result attempts message structured_errors tc =
     \<lparr>tr_tool_name = tc_name tc, tr_call_id = tc_id tc,
      tr_output = PDict [(''ok'', PBool False), (''executed'', PBool False), (''retryable'', PBool True),
        (''error_code'', PStr ''TOOL_ARGUMENT_VALIDATION_FAILED''), (''error'', PStr message),
        (''validation_errors'', PList structured_errors), (''correction_attempt'', PInt attempts),
        (''instruction'', PStr ''Correct the reported tool arguments and issue a new call. Do not repeat unchanged invalid arguments.'')],
      tr_ok = False, tr_error = Some message, tr_error_code = [], tr_execution_may_continue = False, tr_summary = []\<rparr>"

definition history_entry :: "llm_tool_call \<times> tool_result \<Rightarrow> pyval" where
  "history_entry = (\<lambda>(tc, result). PDict
     [(''tool'', PStr (canonical_tool_id (tc_name tc))), (''arguments'', PDict (tc_arguments tc)), (''ok'', PBool (tr_ok result)),
      (''output'', PDict (as_dict (tr_output result)))])"

text \<open>Execution of the prepared calls with the checkpoints around it, the recovery and the observations.\<close>

definition execute_round ::
  "exec_env \<Rightarrow> string \<Rightarrow> checkpoint \<Rightarrow> llm_tool_call list \<Rightarrow> (llm_tool_call list \<times> tool_result list) exec_act" where
  "execute_round env user_input checkpoint calls st0 =
     (let st = st0\<lparr>xs_extras := fst (run_checkpoint env checkpoint ''prepared'' ''prepared'' (prepared_manifest env calls) (xs_extras st0))\<rparr> in
      xbind (execute env calls) (\<lambda>results st1.
        let extras1 = record_execution_manifest env calls results (xs_extras st1);
            extras2 = fst (run_checkpoint env checkpoint ''settled'' ''settled'' (last_entries (length results) extras1) extras1) in
        xbind (safe_read_recovery env user_input checkpoint calls results) (\<lambda>(recovered, recovery_results) st2.
          let all_calls = (if recovery_results = [] then calls else calls @ recovered);
              all_results = (if recovery_results = [] then results else results @ recovery_results) in
          case observe_tool_round (xe_sha256 env) (executor_is_read_only env) all_calls all_results (xs_extras st2) of
            Inl e \<Rightarrow> (st2, Inl e)
          | Inr extras3 \<Rightarrow>
              (st2\<lparr>xs_extras := set_extras_list ''tool_call_history''
                  (extras_list extras3 ''tool_call_history'' @ map history_entry (zip all_calls all_results)) extras3\<rparr>,
               Inr (all_calls, all_results))) (st1\<lparr>xs_extras := extras2\<rparr>)) st)"

definition batched_extras :: "pydict list \<Rightarrow> pydict \<Rightarrow> pydict" where
  "batched_extras events extras =
     (if events = [] then extras
      else set_extras_list ''batch_compile_events'' (extras_list extras ''batch_compile_events'' @ map PDict events) extras)"

definition correction_extras :: "int \<Rightarrow> pyval list \<Rightarrow> pydict \<Rightarrow> pydict" where
  "correction_extras attempts errors extras =
     set_extras_list ''validation_correction_events''
       (extras_list extras ''validation_correction_events''
        @ [PDict [(''attempt'', PInt attempts), (''errors'', PList errors)]]) extras"

definition model_round ::
  "exec_env \<Rightarrow> (string \<Rightarrow> string + pyval) \<Rightarrow> string \<Rightarrow> checkpoint \<Rightarrow> nat \<Rightarrow> int \<Rightarrow> string list \<Rightarrow> raw_call list \<Rightarrow>
   (string list \<times> round_outcome) exec_act" where
  "model_round env loads user_input checkpoint iteration attempts used raw st =
     (let (calls0, used') = unique_call_ids (parse_tool_calls loads raw) iteration used;
          individual = user_requires_individual_tool_calls user_input;
          end_round = (\<lambda>extras outcome. (st\<lparr>xs_extras := extras\<rparr>, Inr (used', outcome))) in
      if individual \<and> contains_disallowed_batch_action calls0 (batch_registry env)
      then end_round (count_individual_replan (xs_extras st)) Replan
      else
        case compile_batchable_calls calls0 (batch_registry env) (\<not> individual) of
          Inl e \<Rightarrow> (st, Inl e)
        | Inr (calls1, events) \<Rightarrow>
            let (extras1, calls2, duplicates) = suppress_repeated_tool_calls env (batched_extras events (xs_extras st)) calls1 in
            if calls2 = [] then end_round extras1 (Nothing_To_Run duplicates)
            else
              case prepare_tool_calls (xe_retry env) user_input (xs_evidence st) calls2 extras1 of
                (extras2, Blocked error errors validation_errors hard_block message) \<Rightarrow>
                  end_round (correction_extras (attempts + 1) validation_errors extras2)
                    (Rejected (map (rejected_result (attempts + 1) message validation_errors) calls2))
              | (extras2, Ready prepared risk) \<Rightarrow>
                  if individual \<and> contains_disallowed_batch_action prepared (batch_registry env)
                  then end_round (count_individual_replan extras2) Replan
                  else xbind (execute_round env user_input checkpoint prepared)
                         (\<lambda>(all_calls, all_results) st'. (st', Inr (used', Executed all_calls all_results)))
                         (st\<lparr>xs_extras := extras2\<rparr>))"

section \<open>Recovery runs reads only\<close>

lemma executor_reads_args:
  "tc_name c' = tc_name c \<Longrightarrow> tc_arguments c' = tc_arguments c \<Longrightarrow> executor_is_read_only env c' = executor_is_read_only env c"
  by (simp add: executor_is_read_only_def)

lemma execute_started_reads:
  assumes "execute env calls st = (st', Inr rs)" and "\<forall>c \<in> set calls. tc_result_bindings c = [] \<and> executor_is_read_only env c"
  shows "map tr_call_id rs = map tc_id calls
    \<and> (\<exists>started. xs_started st' = xs_started st @ started \<and> (\<forall>c \<in> set started. executor_is_read_only env c))"
proof (cases "plan_check env calls st")
  case (Inl e)
  with assms(1) show ?thesis by (auto simp: execute_def invalid_plan_result_def step_failure_def Let_def)
next
  case (Inr layers)
  note acc = execute_accepted [OF assms(1) Inr]
  from acc obtain started where s: "xs_started st' = xs_started st @ started"
      "\<forall>tc' \<in> set started. \<exists>tc \<in> set calls. ready tc tc' (xs_evidence st')" by blast
  have "executor_is_read_only env tc'" if "tc' \<in> set started" for tc'
  proof -
    from s(2) that obtain tc where tc: "tc \<in> set calls" "ready tc tc' (xs_evidence st')" by blast
    with assms(2) have "tc_result_bindings tc = []" "executor_is_read_only env tc" by auto
    moreover have "tc_arguments tc' = tc_arguments tc" "tc_name tc' = tc_name tc"
      using tc(2) \<open>tc_result_bindings tc = []\<close> by (auto simp: ready_def resolve_bindings_def)
    ultimately show ?thesis using executor_reads_args by blast
  qed
  with s(1) acc show ?thesis by blast
qed

lemma recovery_call_plain [simp]: "tc_result_bindings (recovery_call p) = []" "tc_depends_on (recovery_call p) = []"
  by (simp_all add: recovery_call_def LLMToolCall_def split: prod.splits)

lemma attempt_recovery_run:
  assumes "attempt_recovery env user_input checkpoint n calls st = (st', Inr (Some (cs, rs)))"
  obtains extras risk extras2 extras4 st2 where
    "prepare_tool_calls (xe_retry env) user_input (xs_evidence st) calls (xs_extras st) = (extras, Ready cs risk)"
    "length cs = n" "\<forall>c \<in> set cs. executor_is_read_only env c" "execute env cs (st\<lparr>xs_extras := extras2\<rparr>) = (st2, Inr rs)"
    "st' = st2\<lparr>xs_extras := extras4\<rparr>"
proof -
  note def = assms [unfolded attempt_recovery_def Let_def]
  have budget: "\<not> budget_exhausted st" using def by auto
  obtain extras prep where prep: "prepare_tool_calls (xe_retry env) user_input (xs_evidence st) calls (xs_extras st) = (extras, prep)"
    by (metis prod.exhaust)
  show ?thesis
  proof (cases prep)
    case (Ready prepared risk)
    have ok: "length prepared = n" "\<not> list_ex (\<lambda>c. \<not> executor_is_read_only env c) prepared"
      using def budget unfolding prep Ready by (auto split: if_splits)
    obtain extras1 degraded where cp:
        "run_checkpoint env checkpoint ''prepared'' ''recovery_prepared'' (prepared_manifest env prepared) extras = (extras1, degraded)"
      by (metis prod.exhaust)
    obtain extras2 where e2: "extras2 = (if degraded then update_last_events n (replicate n [(''checkpoint'', PStr ''degraded'')]) extras1 else extras1)"
      by blast
    obtain st2 r where run: "execute env prepared (st\<lparr>xs_extras := extras2\<rparr>) = (st2, r)" by (metis prod.exhaust)
    show ?thesis
    proof (cases r)
      case (Inl e)
      then show ?thesis using def budget ok run by (simp add: prep Ready cp e2)
    next
      case (Inr results)
      then have "prepared = cs" "results = rs" "\<exists>e4. st' = st2\<lparr>xs_extras := e4\<rparr>"
        using def budget ok run by (auto simp: prep Ready cp e2)
      then show ?thesis using that prep Ready ok run Inr by (auto simp: list_ex_iff)
    qed
  next
    case (Blocked e errors ve hard m)
    then show ?thesis using def budget unfolding prep by simp
  qed
qed

text \<open>The recovery depth is touched by nothing else.\<close>

lemma recovery_depth_dset [simp]: "k \<noteq> ''safe_read_recovery_depth'' \<Longrightarrow> recovery_depth (dset k v extras) = recovery_depth extras"
  by (simp add: recovery_depth_def pysimps)

lemma recovery_depth_list [simp]:
  "k \<noteq> ''safe_read_recovery_depth'' \<Longrightarrow> recovery_depth (set_extras_list k xs extras) = recovery_depth extras"
  by (simp add: set_extras_list_def)

lemma recovery_depth_update [simp]: "recovery_depth (update_last_events n us extras) = recovery_depth extras"
  by (simp add: update_last_events_def Let_def RECOVERY_EVENTS_def)

lemma recovery_depth_install [simp]: "recovery_depth (fst (install_recovery_goal sha256 d src extras)) = recovery_depth extras"
  by (simp add: install_recovery_goal_def Let_def split: option.splits)

lemma recovery_depth_plan [simp]: "recovery_depth (plan_recovery env d extras) = recovery_depth extras"
  by (cases d) (simp add: plan_recovery_def Let_def case_prod_unfold RECOVERY_EVENTS_def split: option.splits)

lemma recovery_depth_announce [simp]: "recovery_depth (announce_recoveries env attempted ds extras) = recovery_depth extras"
proof -
  have "recovery_depth (fold (plan_recovery env) ds e) = recovery_depth e" for e by (induction ds arbitrary: e) simp_all
  then show ?thesis by (simp add: announce_recoveries_def RECOVERY_EVENTS_def)
qed

lemma recovery_depth_prepare:
  "recovery_depth (fst (prepare_tool_calls env user_input evidence calls extras)) = recovery_depth extras"
proof -
  have "recovery_depth (snd (fill_delete_paths user_input nodes extras)) = recovery_depth extras" for nodes
    by (simp add: fill_delete_paths_def split: list.splits)
  then show ?thesis
    by (simp add: prepare_cases Let_def record_blocked_audit_nodes_def record_pre_exec_repair_def split: sum.splits)
qed

lemma attempt_recovery_none:
  assumes "attempt_recovery env user_input checkpoint n calls st = (st', Inr None)"
  shows "\<exists>extras. st' = st\<lparr>xs_extras := extras\<rparr> \<and> recovery_depth extras = recovery_depth (xs_extras st)"
proof -
  note def = assms [unfolded attempt_recovery_def Let_def]
  obtain extras prep where prep: "prepare_tool_calls (xe_retry env) user_input (xs_evidence st) calls (xs_extras st) = (extras, prep)"
    by (metis prod.exhaust)
  have depth: "recovery_depth extras = recovery_depth (xs_extras st)"
    using recovery_depth_prepare [of "xe_retry env" user_input "xs_evidence st" calls "xs_extras st"] by (simp add: prep)
  show ?thesis
  proof (cases prep)
    case (Ready prepared risk)
    obtain extras1 degraded where cp:
        "run_checkpoint env checkpoint ''prepared'' ''recovery_prepared'' (prepared_manifest env prepared) extras = (extras1, degraded)"
      by (metis prod.exhaust)
    show ?thesis using def depth unfolding prep Ready cp by (auto split: if_splits prod.splits sum.splits)
  next
    case (Blocked e errors ve hard m)
    then show ?thesis using def depth unfolding prep by (auto split: if_splits)
  qed
qed

lemma prepared_recovery_calls:
  assumes "prepare_tool_calls env user_input evidence (map recovery_call ds) extras = (extras', Ready cs risk)" and "c \<in> set cs"
  shows "tc_result_bindings c = [] \<and> tc_depends_on c = []"
proof -
  from assms(2) obtain i where i: "i < length cs" "c = cs ! i" by (auto simp: in_set_conv_nth)
  with prepared_length [OF assms(1)] have "c = node_to_call (fill_node user_input extras (call_to_node (i, recovery_call (ds ! i))))"
    using prepared_nth [OF assms(1), of i] by simp
  then show ?thesis by simp
qed

lemma recovery_reads:
  assumes "safe_read_recovery env user_input checkpoint calls results st = (st', Inr (cs, rs))"
  shows "map tr_call_id rs = map tc_id cs \<and> (\<forall>c \<in> set cs. executor_is_read_only env c)
    \<and> recovery_depth (xs_extras st') = recovery_depth (xs_extras st)
    \<and> (\<exists>started. xs_started st' = xs_started st @ started \<and> (\<forall>c \<in> set started. executor_is_read_only env c))"
  using assms
proof (induction env user_input checkpoint calls results st arbitrary: st' cs rs rule: safe_read_recovery.induct)
  case (1 env user_input checkpoint calls results st)
  let ?attempted = "attempted_keys (xs_extras st)" and ?depth = "recovery_depth (xs_extras st)"
  let ?ds = "recovery_directives (xe_sha256 env) ?attempted calls results"
  let ?st0 = "st\<lparr>xs_extras := announce_recoveries env ?attempted ?ds (xs_extras st)\<rparr>"
  note def = "1.prems" [unfolded safe_read_recovery.simps [of env user_input checkpoint calls results st] Let_def]
  show ?case
  proof (cases "?depth \<ge> 2 \<or> ?ds = []")
    case True
    then show ?thesis using def by auto
  next
    case False
    obtain st1 r where att: "attempt_recovery env user_input checkpoint (length ?ds) (map recovery_call (enumerate 0 ?ds)) ?st0 = (st1, r)"
      by (metis prod.exhaust)
    show ?thesis
    proof (cases r)
      case (Inl e)
      then show ?thesis using def False att by simp
    next
      case (Inr found)
      show ?thesis
      proof (cases found)
        case None
        then obtain extras where "st1 = ?st0\<lparr>xs_extras := extras\<rparr>" "recovery_depth extras = ?depth"
          using attempt_recovery_none att Inr by fastforce
        then show ?thesis using def False att Inr None by auto
      next
        case (Some p)
        obtain cs1 rs1 where p: "p = (cs1, rs1)" by (cases p)
        note att' = att [unfolded Inr Some p]
        obtain extras risk extras2 extras4 st2 where
            prep: "prepare_tool_calls (xe_retry env) user_input (xs_evidence ?st0) (map recovery_call (enumerate 0 ?ds)) (xs_extras ?st0) = (extras, Ready cs1 risk)"
          and "length cs1 = length ?ds" and ro: "\<forall>c \<in> set cs1. executor_is_read_only env c"
          and run: "execute env cs1 (?st0\<lparr>xs_extras := extras2\<rparr>) = (st2, Inr rs1)"
          and st1: "st1 = st2\<lparr>xs_extras := extras4\<rparr>" by (rule attempt_recovery_run [OF att'])
        have all: "\<forall>c \<in> set cs1. tc_result_bindings c = [] \<and> executor_is_read_only env c"
          using prepared_recovery_calls [OF prep] ro by blast
        from execute_started_reads [OF run all] obtain started1 where first: "map tr_call_id rs1 = map tc_id cs1"
            "xs_started st1 = xs_started st @ started1" "\<forall>c \<in> set started1. executor_is_read_only env c"
          unfolding st1 by auto
        obtain st3 r3 where follow: "safe_read_recovery env user_input checkpoint cs1 rs1 (with_depth (?depth + 1) st1) = (st3, r3)"
          by (metis prod.exhaust)
        show ?thesis
        proof (cases r3)
          case (Inl e)
          then show ?thesis using def False att' follow by simp
        next
          case (Inr q)
          obtain cs2 rs2 where q: "q = (cs2, rs2)" by (cases q)
          have res: "st' = with_depth ?depth st3" "cs = cs1 @ cs2" "rs = rs1 @ rs2" using def False att' follow Inr q by simp_all
          note IH = "1.IH" [OF refl refl refl False att' [symmetric] refl refl refl follow [unfolded Inr q]]
          from conjunct2 [OF conjunct2 [OF conjunct2 [OF IH]]]
          obtain started2 where "xs_started st3 = xs_started st1 @ started2" "\<forall>c \<in> set started2. executor_is_read_only env c"
            unfolding started_with_depth by blast
          then show ?thesis using first ro conjunct1 [OF IH] conjunct1 [OF conjunct2 [OF IH]] unfolding res by auto
        qed
      qed
    qed
  qed
qed

lemmas recovery_ids = recovery_reads [THEN conjunct1]

text \<open>C9: Recovery after a round only reads: whatever directives the handlers publish, every call that it hands to the tool
  runtime is read-only, each has one result, and the recovery depth is as before, so that a later round can recover
  again.\<close>

theorem recovery_only_reads:
  assumes "safe_read_recovery env user_input checkpoint calls results st = (st', Inr (cs, rs))"
  shows "map tr_call_id rs = map tc_id cs \<and> (\<forall>c \<in> set cs. executor_is_read_only env c)
    \<and> recovery_depth (xs_extras st') = recovery_depth (xs_extras st)
    \<and> (\<exists>started. xs_started st' = xs_started st @ started \<and> (\<forall>c \<in> set started. executor_is_read_only env c))"
  by (rule recovery_reads [OF assms])

section \<open>Recovery and the length of call ids\<close>

lemma recovery_call_step: "call_step_id (recovery_call (n, c, d, k)) = recovery_call_id (tc_id c) n"
  by (simp add: recovery_call_def call_step_id_def LLMToolCall_def)

lemma recovery_call_id_length: "21 + min 64 (length source) \<le> length (recovery_call_id source n)"
proof -
  have "1 \<le> length (nat_str n)" by (cases "nat_str n") simp_all
  moreover have "length (recovery_call_id source n) = 20 + min 64 (length source) + length (nat_str n)"
    by (simp add: recovery_call_id_def min.commute)
  ultimately show ?thesis by linarith
qed

lemma long_id_no_step: "length source > 43 \<Longrightarrow> \<not> STEP_ID_RE (recovery_call_id source n)"
proof -
  assume long: "length source > 43"
  with recovery_call_id_length [of source n] have "length (recovery_call_id source n) > 64" by (simp add: min_def split: if_splits)
  then show ?thesis by (auto simp: STEP_ID_RE_def split: list.splits)
qed

lemma attempt_long_ids:
  assumes "directive \<in> set ds" and "length (tc_id (fst directive)) > 43"
  shows "\<exists>extras. attempt_recovery env user_input checkpoint n (map recovery_call (enumerate 0 ds)) st = (st\<lparr>xs_extras := extras\<rparr>, Inr None)"
proof -
  let ?calls = "map recovery_call (enumerate 0 ds)"
  from assms(1) obtain i where i: "i < length ds" "ds ! i = directive" by (auto simp: in_set_conv_nth)
  obtain c d k where dir: "directive = (c, d, k)" by (cases directive)
  have mem: "recovery_call (i, directive) \<in> set ?calls"
    using i by (auto simp: in_set_enumerate_eq)
  have "\<not> STEP_ID_RE (call_step_id (recovery_call (i, directive)))"
    unfolding dir recovery_call_step using assms(2) long_id_no_step by (simp add: dir)
  then have "validated_plan (xe_retry env) (xs_evidence st) ?calls \<noteq> Inr layers" for layers
    using validate_Inr_D(3) mem unfolding validated_plan_def by blast
  then obtain e where e: "validated_plan (xe_retry env) (xs_evidence st) ?calls = Inl e"
    by (cases "validated_plan (xe_retry env) (xs_evidence st) ?calls") auto
  have "\<exists>e' errors ve hard m. snd (prepare_tool_calls (xe_retry env) user_input (xs_evidence st) ?calls (xs_extras st)) = Blocked e' errors ve hard m"
    unfolding prepare_cases Let_def e by (simp add: plan_rejection_def Let_def) (rule exI [of Not False], simp)
  then obtain extras e' errors ve hard m where
      prep: "prepare_tool_calls (xe_retry env) user_input (xs_evidence st) ?calls (xs_extras st) = (extras, Blocked e' errors ve hard m)"
    by (metis prod.collapse)
  show ?thesis unfolding attempt_recovery_def Let_def prep by auto
qed

lemma directive_source: "d \<in> set (recovery_directives sha256 attempted calls results) \<Longrightarrow> fst d \<in> set calls"
  by (auto simp: recovery_directives_def dest: set_zip_leftD)

lemma recovery_long_ids:
  assumes "\<forall>c \<in> set calls. length (tc_id c) > 43"
  shows "\<exists>extras. safe_read_recovery env user_input checkpoint calls results st = (st\<lparr>xs_extras := extras\<rparr>, Inr ([], []))"
proof -
  let ?attempted = "attempted_keys (xs_extras st)"
  let ?ds = "recovery_directives (xe_sha256 env) ?attempted calls results"
  let ?st0 = "st\<lparr>xs_extras := announce_recoveries env ?attempted ?ds (xs_extras st)\<rparr>"
  show ?thesis
  proof (cases "recovery_depth (xs_extras st) \<ge> 2 \<or> ?ds = []")
    case True
    then have "safe_read_recovery env user_input checkpoint calls results st = (st, Inr ([], []))"
      by (subst safe_read_recovery.simps) (simp add: Let_def)
    then show ?thesis by (intro exI [of _ "xs_extras st"]) simp
  next
    case False
    then obtain d where d: "d \<in> set ?ds" by (cases ?ds) auto
    with assms directive_source have "length (tc_id (fst d)) > 43" by blast
    from attempt_long_ids [OF d this] obtain extras where
      "attempt_recovery env user_input checkpoint (length ?ds) (map recovery_call (enumerate 0 ?ds)) ?st0 = (?st0\<lparr>xs_extras := extras\<rparr>, Inr None)"
      by blast
    with False have "safe_read_recovery env user_input checkpoint calls results st = (st\<lparr>xs_extras := extras\<rparr>, Inr ([], []))"
      by (subst safe_read_recovery.simps) (simp add: Let_def)
    then show ?thesis by blast
  qed
qed

lemma recovered_ids:
  assumes "attempt_recovery env user_input checkpoint n (map recovery_call (enumerate 0 ds)) st = (st', Inr (Some (cs, rs)))"
    and "c \<in> set cs"
  shows "\<exists>d \<in> set ds. \<exists>i. tc_id c = recovery_call_id (tc_id (fst d)) i"
proof -
  obtain extras risk extras2 extras4 st2 where
      prep: "prepare_tool_calls (xe_retry env) user_input (xs_evidence st) (map recovery_call (enumerate 0 ds)) (xs_extras st) = (extras, Ready cs risk)"
    and "length cs = n" "\<forall>c \<in> set cs. executor_is_read_only env c" "execute env cs (st\<lparr>xs_extras := extras2\<rparr>) = (st2, Inr rs)"
    "st' = st2\<lparr>xs_extras := extras4\<rparr>" by (rule attempt_recovery_run [OF assms(1)])
  have len: "length cs = length ds" using prepared_length [OF prep] by simp
  from assms(2) obtain i where i: "i < length cs" "c = cs ! i" by (auto simp: in_set_conv_nth)
  obtain src d k where d: "ds ! i = (src, d, k)" by (cases "ds ! i")
  have "tc_id c = recovery_call_id (tc_id src) i"
    using prepared_nth [OF prep, of i] i len
    by (simp add: nth_enumerate_eq d recovery_call_def LLMToolCall_def recovery_call_id_def)
  moreover have "ds ! i \<in> set ds" using i len by simp
  ultimately show ?thesis unfolding d by (metis d fst_conv)
qed

text \<open>C38: Recovery calls get step ids that are longer than the plan allows when the id of the source call is long. With
  ids of more than 43 characters no recovery ever runs; with more than 22, the second stage that the recovery
  provides for never runs, because its ids are built from those of the first.\<close>

theorem long_ids_disable_recovery:
  assumes "\<forall>c \<in> set calls. length (tc_id c) > 22"
    and "safe_read_recovery env user_input checkpoint calls results st = (st', Inr (cs, rs))"
  shows "(\<forall>c \<in> set cs. \<exists>source \<in> set calls. \<exists>n. tc_id c = recovery_call_id (tc_id source) n)
    \<and> ((\<forall>c \<in> set calls. length (tc_id c) > 43) \<longrightarrow> cs = [] \<and> xs_started st' = xs_started st)"
proof (intro conjI impI)
  let ?attempted = "attempted_keys (xs_extras st)" and ?depth = "recovery_depth (xs_extras st)"
  let ?ds = "recovery_directives (xe_sha256 env) ?attempted calls results"
  let ?st0 = "st\<lparr>xs_extras := announce_recoveries env ?attempted ?ds (xs_extras st)\<rparr>"
  note def = assms(2) [unfolded safe_read_recovery.simps [of env user_input checkpoint calls results st] Let_def]
  show "\<forall>c \<in> set cs. \<exists>source \<in> set calls. \<exists>n. tc_id c = recovery_call_id (tc_id source) n"
  proof (cases "cs = []")
    case False
    then have go: "\<not> (?depth \<ge> 2 \<or> ?ds = [])" using def by auto
    obtain st1 r where att: "attempt_recovery env user_input checkpoint (length ?ds) (map recovery_call (enumerate 0 ?ds)) ?st0 = (st1, r)"
      by (metis prod.exhaust)
    obtain cs1 rs1 where r: "r = Inr (Some (cs1, rs1))"
      using def go att False by (cases r; cases "projr r") auto
    note ids = recovered_ids [OF att [unfolded r]]
    have "length (tc_id c) > 43" if c: "c \<in> set cs1" for c
    proof -
      from ids [OF c] obtain d i where d: "d \<in> set ?ds" "tc_id c = recovery_call_id (tc_id (fst d)) i" by blast
      have "length (tc_id (fst d)) > 22" using assms(1) directive_source [OF d(1)] by blast
      with recovery_call_id_length [of "tc_id (fst d)" i] show ?thesis unfolding d(2) by (simp add: min_def split: if_splits)
    qed
    then obtain extras where "safe_read_recovery env user_input checkpoint cs1 rs1 (with_depth (?depth + 1) st1)
        = ((with_depth (?depth + 1) st1)\<lparr>xs_extras := extras\<rparr>, Inr ([], []))"
      using recovery_long_ids by blast
    then have "cs = cs1" using def go att r by simp
    then show ?thesis using ids directive_source by blast
  qed simp
  assume "\<forall>c \<in> set calls. length (tc_id c) > 43"
  from recovery_long_ids [OF this, of env user_input checkpoint results st] assms(2)
  show "cs = []" "xs_started st' = xs_started st" by auto
qed

section \<open>Evaluation\<close>

definition demo_round_env :: exec_env where
  "demo_round_env = demo_env"

definition demo_directive :: pyval where
  "demo_directive = PDict
     [(''kind'', PStr ''safe_read_fallback''), (''tool_id'', PStr ''probe''), (''arguments'', PDict [(''action'', PStr ''read'')]),
      (''goal'', PDict [(''evidence_kind'', PStr ''state''), (''target'', PDict [(''host'', PStr ''h'')])])]"

definition demo_failed :: "tool_result" where
  "demo_failed = \<lparr>tr_tool_name = ''probe'', tr_call_id = ''c1'', tr_output = PDict [(''runtime_recovery'', demo_directive)], tr_ok = False,
     tr_error = Some ''not found'', tr_error_code = [], tr_execution_may_continue = False, tr_summary = []\<rparr>"

definition demo_source :: "string \<Rightarrow> llm_tool_call" where
  "demo_source i = LLMToolCall i ''probe'' [(''action'', PStr ''read''), (''id'', PStr ''x'')]"

lemma demo_recovery:
  "case safe_read_recovery demo_round_env [] None [demo_source ''c1''] [demo_failed] demo_state of
     (st', Inr (cs, rs)) \<Rightarrow> map tc_id cs = [''safe-read-recovery-c1-0''] \<and> map tr_ok rs = [True]
   | _ \<Rightarrow> False"
  by code_simp

lemma demo_recovery_run:
  obtains st' cs rs where "safe_read_recovery demo_round_env [] None [demo_source ''c1''] [demo_failed] demo_state = (st', Inr (cs, rs))"
    "map tc_id cs = [''safe-read-recovery-c1-0'']" "map tr_ok rs = [True]"
  using demo_recovery by (auto split: prod.splits sum.splits)

theorem recovery_only_reads_witness:
  "\<exists>st' c r. safe_read_recovery demo_round_env [] None [demo_source ''c1''] [demo_failed] demo_state = (st', Inr ([c], [r]))
     \<and> executor_is_read_only demo_round_env c \<and> tr_ok r"
proof -
  obtain st' cs rs where run: "safe_read_recovery demo_round_env [] None [demo_source ''c1''] [demo_failed] demo_state = (st', Inr (cs, rs))"
    and "map tc_id cs = [''safe-read-recovery-c1-0'']" "map tr_ok rs = [True]" by (rule demo_recovery_run)
  then obtain c r where "cs = [c]" "rs = [r]" "tr_ok r" by (auto simp: map_eq_Cons_conv)
  with recovery_only_reads [OF run] run show ?thesis by auto
qed

definition long_id :: string where
  "long_id = ''chatcmpl-tool-'' @ replicate 32 (CHR ''a'')"

theorem long_ids_disable_recovery_witness:
  "\<exists>st' rs. safe_read_recovery demo_round_env [] None [demo_source long_id] [demo_failed] demo_state = (st', Inr ([], rs))
     \<and> recovery_directives (xe_sha256 demo_round_env) [] [demo_source long_id] [demo_failed] \<noteq> [] \<and> xs_started st' = []"
proof -
  obtain st' r where run: "safe_read_recovery demo_round_env [] None [demo_source long_id] [demo_failed] demo_state = (st', r)"
    by (metis prod.exhaust)
  have len: "length (tc_id (demo_source long_id)) = 46" by (simp add: demo_source_def long_id_def LLMToolCall_def)
  have ds: "recovery_directives (xe_sha256 demo_round_env) [] [demo_source long_id] [demo_failed] \<noteq> []"
    by code_simp
  have "\<not> isl r" using recovery_long_ids [of "[demo_source long_id]" demo_round_env "[]" None "[demo_failed]" demo_state] len run by auto
  then obtain cs rs where r: "r = Inr (cs, rs)" by (cases r) auto
  from long_ids_disable_recovery [OF _ run [unfolded r]] len ds run r show ?thesis by (auto simp: demo_state_def)
qed

section \<open>What a round runs\<close>

lemma execute_started:
  assumes "execute env calls st = (st', Inr rs)"
  shows "map tr_call_id rs = map tc_id calls
    \<and> (\<exists>started. xs_started st' = xs_started st @ started \<and> distinct (map call_step_id started)
         \<and> (\<forall>tc' \<in> set started. \<exists>tc \<in> set calls. ready tc tc' (xs_evidence st')))"
proof (cases "plan_check env calls st")
  case (Inl e)
  with assms show ?thesis by (auto simp: execute_def invalid_plan_result_def step_failure_def Let_def)
next
  case (Inr layers)
  note acc = execute_accepted [OF assms Inr]
  from acc obtain started where s: "xs_started st' = xs_started st @ started" "subseq (map call_step_id started) (concat layers)"
      "\<forall>tc' \<in> set started. \<exists>tc \<in> set calls. ready tc tc' (xs_evidence st')" by blast
  have "distinct (concat layers)" using validated_layers [OF Inr] by blast
  with s(2) have "distinct (map call_step_id started)" by (metis subseq_distinct)
  with s acc show ?thesis by blast
qed

lemma execute_round_returns:
  assumes "execute_round env user_input checkpoint calls st = (st', Inr (cs, rs))"
  obtains st1 results st2 recovered recovery_results extras extras2 extras3 where
    "execute env calls (st\<lparr>xs_extras := extras\<rparr>) = (st1, Inr results)"
    "safe_read_recovery env user_input checkpoint calls results (st1\<lparr>xs_extras := extras2\<rparr>) = (st2, Inr (recovered, recovery_results))"
    "cs = calls @ recovered" "rs = results @ recovery_results" "st' = st2\<lparr>xs_extras := extras3\<rparr>"
proof -
  let ?st = "st\<lparr>xs_extras := fst (run_checkpoint env checkpoint ''prepared'' ''prepared'' (prepared_manifest env calls) (xs_extras st))\<rparr>"
  note def = assms [unfolded execute_round_def Let_def]
  obtain st1 results where run: "execute env calls ?st = (st1, Inr results)"
    using def by (cases "execute env calls ?st"; cases "snd (execute env calls ?st)") (auto simp: xbind_def)
  let ?e1 = "record_execution_manifest env calls results (xs_extras st1)"
  let ?st1 = "st1\<lparr>xs_extras := fst (run_checkpoint env checkpoint ''settled'' ''settled'' (last_entries (length results) ?e1) ?e1)\<rparr>"
  obtain st2 r where rec: "safe_read_recovery env user_input checkpoint calls results ?st1 = (st2, r)" by (metis prod.exhaust)
  obtain recovered recovery_results where r: "r = Inr (recovered, recovery_results)"
    using def run rec by (cases r) (auto simp: xbind_def)
  have "map tr_call_id recovery_results = map tc_id recovered" using recovery_ids [OF rec [unfolded r]] .
  then have "recovery_results = [] \<longleftrightarrow> recovered = []" by (metis Nil_is_map_conv)
  then have "cs = calls @ recovered" "rs = results @ recovery_results" "\<exists>e. st' = st2\<lparr>xs_extras := e\<rparr>"
    using def run rec by (auto simp: xbind_def r split: sum.splits if_splits)
  then show ?thesis using that run rec r by blast
qed

text \<open>C7: A round writes only what the model asked for: apart from read-only calls, whatever reaches the tool runtime is a call of
  the prepared batch, under its own id and tool, with its arguments resolved from the evidence, and no step of the
  batch is run twice. A round that was sent back, or whose calls were all repeated or rejected, runs nothing and leaves
  ledger and evidence as they were.\<close>

theorem round_runs_prepared_calls:
  assumes "model_round env loads user_input checkpoint iteration attempts used raw st = (st', Inr (used', outcome))"
  shows "case outcome of
      Executed cs rs \<Rightarrow>
        map tr_call_id rs = map tc_id cs
        \<and> (\<exists>requested extras extras' prepared risk recovered started followed.
             prepare_tool_calls (xe_retry env) user_input (xs_evidence st) requested extras = (extras', Ready prepared risk)
             \<and> cs = prepared @ recovered \<and> xs_started st' = xs_started st @ started @ followed
             \<and> (\<forall>c \<in> set followed. executor_is_read_only env c) \<and> distinct (map call_step_id started)
             \<and> (\<forall>c \<in> set started. \<exists>p \<in> set prepared. \<exists>evidence. tc_id c = tc_id p \<and> tc_name c = tc_name p
                  \<and> resolve_bindings (tc_arguments p) (tc_result_bindings p) evidence = Inr (tc_arguments c)))
    | _ \<Rightarrow> xs_started st' = xs_started st \<and> xs_ledger st' = xs_ledger st \<and> xs_evidence st' = xs_evidence st"
proof -
  note def = assms [unfolded model_round_def Let_def]
  show ?thesis
  proof (cases outcome)
    case (Executed cs rs)
    then obtain requested extras extras' prepared risk where
        prep: "prepare_tool_calls (xe_retry env) user_input (xs_evidence st) requested extras = (extras', Ready prepared risk)"
      and run: "execute_round env user_input checkpoint prepared (st\<lparr>xs_extras := extras'\<rparr>) = (st', Inr (cs, rs))"
      using def by (auto simp: xbind_def split: prod.splits if_splits sum.splits preparation.splits)
    obtain st1 results st2 recovered recovery_results e e2 e3 where
        ex: "execute env prepared ((st\<lparr>xs_extras := extras'\<rparr>)\<lparr>xs_extras := e\<rparr>) = (st1, Inr results)"
      and rec: "safe_read_recovery env user_input checkpoint prepared results (st1\<lparr>xs_extras := e2\<rparr>) = (st2, Inr (recovered, recovery_results))"
      and res: "cs = prepared @ recovered" "rs = results @ recovery_results" "st' = st2\<lparr>xs_extras := e3\<rparr>"
      by (rule execute_round_returns [OF run])
    from execute_started [OF ex] obtain started where s: "map tr_call_id results = map tc_id prepared"
        "xs_started st1 = xs_started st @ started" "distinct (map call_step_id started)"
        "\<forall>tc' \<in> set started. \<exists>tc \<in> set prepared. ready tc tc' (xs_evidence st1)" by auto
    from recovery_reads [OF rec] obtain followed where f: "map tr_call_id recovery_results = map tc_id recovered"
        "xs_started st2 = xs_started st1 @ followed" "\<forall>c \<in> set followed. executor_is_read_only env c" by auto
    have "\<exists>p \<in> set prepared. \<exists>evidence. tc_id c = tc_id p \<and> tc_name c = tc_name p
                  \<and> resolve_bindings (tc_arguments p) (tc_result_bindings p) evidence = Inr (tc_arguments c)" if "c \<in> set started" for c
    proof -
      from s(4) that obtain p where p: "p \<in> set prepared" "ready p c (xs_evidence st1)" by blast
      then show ?thesis by (intro bexI [of _ p] exI [of _ "xs_evidence st1"]) (auto simp: ready_def)
    qed
    with prep res s f have "map tr_call_id rs = map tc_id cs
        \<and> prepare_tool_calls (xe_retry env) user_input (xs_evidence st) requested extras = (extras', Ready prepared risk)
             \<and> cs = prepared @ recovered \<and> xs_started st' = xs_started st @ started @ followed
             \<and> (\<forall>c \<in> set followed. executor_is_read_only env c) \<and> distinct (map call_step_id started)
             \<and> (\<forall>c \<in> set started. \<exists>p \<in> set prepared. \<exists>evidence. tc_id c = tc_id p \<and> tc_name c = tc_name p
                  \<and> resolve_bindings (tc_arguments p) (tc_result_bindings p) evidence = Inr (tc_arguments c))" by simp
    then show ?thesis unfolding Executed round_outcome.case by blast
  qed (use def in \<open>auto simp: xbind_def split: prod.splits if_splits sum.splits preparation.splits\<close>)
qed

definition demo_raw :: "string \<Rightarrow> string \<Rightarrow> string \<Rightarrow> raw_call list" where
  "demo_raw i tool action = [RawDict i tool (Object [(''action'', PStr action)])]"

definition run_demo :: "exec_env \<Rightarrow> checkpoint \<Rightarrow> raw_call list \<Rightarrow> exec_state \<Rightarrow> exec_state \<times> (string list \<times> round_outcome) res" where
  "run_demo env checkpoint raw st = model_round env (\<lambda>s. Inl s) [] checkpoint 1 0 [] raw st"

lemma demo_round_executes:
  "case run_demo demo_round_env None (demo_raw ''c2'' ''probe'' ''write'') demo_state of
     (st', Inr (used', Executed cs rs)) \<Rightarrow> map tc_id cs = [''c2''] \<and> map tr_ok rs = [True] \<and> map tc_id (xs_started st') = [''c2'']
   | _ \<Rightarrow> False"
  by code_simp

lemma demo_round_run:
  obtains st' used' cs rs where
    "model_round demo_round_env (\<lambda>s. Inl s) [] None 1 0 [] (demo_raw ''c2'' ''probe'' ''write'') demo_state = (st', Inr (used', Executed cs rs))"
    "map tc_id cs = [''c2'']" "map tc_id (xs_started st') = [''c2'']"
proof -
  obtain st' r where run: "model_round demo_round_env (\<lambda>s. Inl s) [] None 1 0 [] (demo_raw ''c2'' ''probe'' ''write'') demo_state = (st', r)"
    by (metis prod.exhaust)
  note ok = demo_round_executes [unfolded run_demo_def run prod.case]
  obtain used' outcome where r: "r = Inr (used', outcome)" using ok by (cases r) auto
  obtain cs rs where out: "outcome = Executed cs rs" using ok unfolding r by (cases outcome) simp_all
  note ok' = ok [unfolded r out sum.case prod.case round_outcome.case]
  show ?thesis by (rule that [OF run [unfolded r out] conjunct1 [OF ok'] conjunct2 [OF conjunct2 [OF ok']]])
qed

theorem round_runs_prepared_calls_witness:
  "\<exists>st' used' cs rs. model_round demo_round_env (\<lambda>s. Inl s) [] None 1 0 [] (demo_raw ''c2'' ''probe'' ''write'') demo_state
       = (st', Inr (used', Executed cs rs))
     \<and> map tr_call_id rs = [''c2''] \<and> map tc_id (xs_started st') = [''c2'']"
proof -
  obtain st' used' cs rs where run:
      "model_round demo_round_env (\<lambda>s. Inl s) [] None 1 0 [] (demo_raw ''c2'' ''probe'' ''write'') demo_state = (st', Inr (used', Executed cs rs))"
    and ids: "map tc_id cs = [''c2'']" "map tc_id (xs_started st') = [''c2'']" by (rule demo_round_run)
  from round_runs_prepared_calls [OF run] have "map tr_call_id rs = map tc_id cs" by simp
  with run ids show ?thesis by auto
qed

section \<open>Two gaps\<close>

definition alias_env :: exec_env where
  "alias_env = demo_env\<lparr>xe_sha256 := (\<lambda>s. s), xe_retry := (xe_retry demo_env)\<lparr>
     re_contracts := [(''workspace.file'', (ToolContract ''workspace.file'')\<lparr>ct_read_only_actions := [''list'']\<rparr>)]\<rparr>\<rparr>"

text \<open>Repeated calls are recognised by the text of their arguments before aliases are resolved, but recorded after: a
  successful read whose action was written as an alias is run again when the model repeats it, although the same read
  with the canonical action is suppressed.\<close>

theorem repeated_alias_is_not_recognised:
  "let written = LLMToolCall ''c1'' ''workspace.file'' [(''action'', PStr ''ls'')];
       result = \<lparr>tr_tool_name = ''workspace.file'', tr_call_id = ''c1'', tr_output = PDict [], tr_ok = True, tr_error = None,
         tr_error_code = [], tr_execution_may_continue = False, tr_summary = []\<rparr>
   in case snd (prepare_tool_calls (xe_retry alias_env) [] [] [written] []) of
        Ready prepared _ \<Rightarrow>
          (let extras = record_execution_manifest alias_env prepared [result] [] in
           fst (snd (suppress_repeated_tool_calls alias_env extras [written])) = [written]
           \<and> fst (snd (suppress_repeated_tool_calls alias_env extras prepared)) = [])
      | _ \<Rightarrow> False"
  by code_simp

text \<open>A failed checkpoint does not hold a write back: with a persistence that always fails the write is handed to the tool
  runtime all the same, and the failure of both checkpoints is only noted.\<close>

theorem failed_checkpoint_does_not_stop_write:
  "case run_demo demo_round_env (Some (\<lambda>phase manifest. Some (RuntimeError ''disk full''))) (demo_raw ''c2'' ''probe'' ''write'') demo_state of
     (st', Inr (_, Executed cs rs)) \<Rightarrow> map tr_ok rs = [True] \<and> map tc_id (xs_started st') = [''c2'']
        \<and> length (extras_list (xs_extras st') ''task_state_checkpoint_events'') = 2
   | _ \<Rightarrow> False"
  by code_simp

end
