(* ===== verification/Session_Turn.thy ===== *)
theory Session_Turn
  imports Job_Manager
begin

text \<open>
  Turns of a chat session (\<open>jobs/lifecycle.py\<close>): the request registry that gives one execution right
  per client request, and the session job whose \<open>active_turn\<close> is the snapshot of the running turn.

  The state is the job store and the registry, a collection of record files named by workspace,
  session and the digest of the request id; a file that cannot be read is the empty record. A section
  under the session lock is atomic. The instants of \<open>from_iso\<close> are in microseconds. Parameters: \<open>now\<close>
  (every call of \<open>now_iso\<close> in one operation), the id of a new job, \<open>sha256\<close>, \<open>from_iso\<close>, and what the
  session store and the run store answer (the empty dictionary for nothing). The broadcasts and the
  provisional copy of the user message in the message store are left out. The operations run outside a
  tool call, so a new job is linked to no ledger operation.
\<close>

section \<open>Parameters and state\<close>

record turn_env =
  te_sha256 :: "string \<Rightarrow> string"
  te_from_iso :: "string \<Rightarrow> int option"
  te_session_exists :: "string \<Rightarrow> string \<Rightarrow> bool"
  te_session :: "string \<Rightarrow> string \<Rightarrow> pydict"
  te_run :: "string \<Rightarrow> string \<Rightarrow> pydict"

type_synonym registry = "(string \<times> string \<times> string) store"

record turn_db =
  sn_jobs :: job_db
  sn_registry :: registry

record session_turn_claim =
  sc_job_id :: string
  sc_should_execute :: bool
  sc_status :: string
  sc_run_id :: string
  sc_trace_id :: string
  sc_error :: string

definition SessionTurnClaim :: session_turn_claim where
  "SessionTurnClaim =
     \<lparr>sc_job_id = [], sc_should_execute = True, sc_status = [], sc_run_id = [], sc_trace_id = [], sc_error = []\<rparr>"

text \<open>Seven days, and the number of terminal records that are kept.\<close>

definition REGISTRY_TTL_SECONDS :: int where
  "REGISTRY_TTL_SECONDS = 7 * 24 * 60 * 60"

definition REGISTRY_MAX_TERMINAL :: nat where
  "REGISTRY_MAX_TERMINAL = 256"

definition REGISTRY_TERMINAL_STATUSES :: "string list" where
  "REGISTRY_TERMINAL_STATUSES = [''succeeded'', ''failed'', ''cancelled'']"

section \<open>The request registry\<close>

text \<open>\<open>workspace_record_file\<close>: the workspace id is validated, and the session id is one path part.\<close>

definition registry_dir :: "string \<Rightarrow> string \<Rightarrow> (string \<times> string) res" where
  "registry_dir ws_id session_id =
     rbind (validate_workspace_id (PStr ws_id)) (\<lambda>ws.
     rbind (safe_part (PStr session_id) False) (\<lambda>s. Inr (ws, s)))"

definition request_registry_path :: "turn_env \<Rightarrow> string \<Rightarrow> string \<Rightarrow> string \<Rightarrow> (string \<times> string \<times> string) res" where
  "request_registry_path env ws_id session_id client_request_id =
     rbind (registry_dir ws_id session_id) (\<lambda>(ws, s). Inr (ws, s, te_sha256 env client_request_id))"

definition request_input_sha256 :: "turn_env \<Rightarrow> string \<Rightarrow> string" where
  "request_input_sha256 env user_input = te_sha256 env user_input"

definition read_request_record :: "(string \<times> string \<times> string) \<Rightarrow> registry \<Rightarrow> pydict" where
  "read_request_record path reg = (case st_get reg path of None \<Rightarrow> [] | Some r \<Rightarrow> r)"

text \<open>The newest usable time stamp of a record: the first of three fields that is an instant.\<close>

fun first_instant :: "(string \<Rightarrow> int option) \<Rightarrow> string list \<Rightarrow> int option" where
  "first_instant from_iso [] = None"
| "first_instant from_iso (text0 # rest) =
     (if py_strip text0 = [] then first_instant from_iso rest
      else case from_iso (py_strip text0) of None \<Rightarrow> first_instant from_iso rest | Some t \<Rightarrow> Some t)"

definition request_record_timestamp :: "turn_env \<Rightarrow> pydict \<Rightarrow> int option" where
  "request_record_timestamp env r =
     first_instant (te_from_iso env) (map (gets r) [''finished_at'', ''updated_at'', ''created_at''])"

text \<open>The terminal status that the durable job implies for a request that is recorded as running; the
  empty status when it implies none. \<open>job\<close> is the empty dictionary when there is no job.\<close>

definition implied_status :: "string \<Rightarrow> pydict \<Rightarrow> string \<times> string" where
  "implied_status request_id job =
     (let status = gets job ''status'';
          cancelled = py_truthy (dget job ''cancel_requested'') \<or> status = ''cancelled'';
          active = as_dict (dget (as_dict (dget job ''metadata'')) ''active_turn'');
          active_request_id = gets active ''client_request_id''
      in if active_request_id \<noteq> [] \<and> active_request_id \<noteq> request_id then (''failed'', ''turn_execution_interrupted'')
         else if cancelled then (''cancelled'', text_cancelled)
         else if status = ''succeeded'' then (''succeeded'', [])
         else if status = ''failed'' then (''failed'', gets_or job ''error'' ''backend_restart_during_job'')
         else ([], []))"

definition reconcile_running_request_record ::
  "string \<Rightarrow> string \<Rightarrow> string \<Rightarrow> pydict \<Rightarrow> job_db \<Rightarrow> pydict option res" where
  "reconcile_running_request_record now ws_id request_id r db =
     (if gets r ''status'' \<noteq> ''running'' then Inr None
      else
        rbind (get_job ws_id (gets r ''job_id'') db) (\<lambda>found.
        let job = (case found of None \<Rightarrow> [] | Some j \<Rightarrow> j);
            (status, error) = implied_status request_id job in
        if status = [] then Inr None
        else Inr (Some (dupdate r
               ([(''status'', PStr status), (''updated_at'', PStr now), (''finished_at'', PStr (gets_or job ''finished_at'' now))]
                @ (if error \<noteq> [] then [(''error'', PStr (take 240 error))] else []))))))"

definition is_terminal_request :: "pydict \<Rightarrow> bool" where
  "is_terminal_request r \<longleftrightarrow> gets r ''status'' \<in> set REGISTRY_TERMINAL_STATUSES"

text \<open>One file of the loop; the list collects the terminal records that are kept, with their times.\<close>

definition prune_candidate ::
  "turn_env \<Rightarrow> string \<Rightarrow> string \<Rightarrow> job_db \<Rightarrow> int \<Rightarrow> string \<times> string \<times> string
     \<Rightarrow> registry \<times> (int \<times> string \<times> string \<times> string) list \<Rightarrow> (registry \<times> (int \<times> string \<times> string \<times> string) list) res" where
  "prune_candidate env now ws_id db cutoff candidate = (\<lambda>(reg, terminal).
     let r = read_request_record candidate reg in
     if r = [] then Inr (st_del candidate reg, terminal)
     else
       rbind (reconcile_running_request_record now ws_id (gets r ''client_request_id'') r db) (\<lambda>folded.
       let r' = (case folded of None \<Rightarrow> r | Some x \<Rightarrow> x);
           reg' = (case folded of None \<Rightarrow> reg | Some x \<Rightarrow> st_put candidate x reg) in
       if \<not> is_terminal_request r' then Inr (reg', terminal)
       else case request_record_timestamp env r' of
              None \<Rightarrow> Inr (st_del candidate reg', terminal)
            | Some t \<Rightarrow>
                if t < cutoff then Inr (st_del candidate reg', terminal)
                else Inr (reg', terminal @ [(t, candidate)])))"

definition registry_files :: "string \<times> string \<Rightarrow> registry \<Rightarrow> (string \<times> string \<times> string) list" where
  "registry_files dir reg = remdups (filter (\<lambda>(ws, s, _). (ws, s) = dir) (map fst reg))"

definition overflow_victims :: "(int \<times> string \<times> string \<times> string) list \<Rightarrow> (string \<times> string \<times> string) list" where
  "overflow_victims terminal =
     map snd (take (length terminal - REGISTRY_MAX_TERMINAL) (sort_key fst terminal))"

definition prune_request_registry ::
  "turn_env \<Rightarrow> string \<Rightarrow> string \<Rightarrow> string \<Rightarrow> turn_db \<Rightarrow> turn_db res" where
  "prune_request_registry env now ws_id session_id st =
     rbind (registry_dir ws_id session_id) (\<lambda>dir.
     case request_record_timestamp env [(''updated_at'', PStr now)] of
       None \<Rightarrow> Inr st
     | Some instant \<Rightarrow>
         rbind (rfold (prune_candidate env now ws_id (sn_jobs st) (instant - 1000000 * REGISTRY_TTL_SECONDS))
                  (registry_files dir (sn_registry st)) (sn_registry st, [])) (\<lambda>(reg, terminal).
         Inr (st\<lparr>sn_registry := fold st_del (overflow_victims terminal) reg\<rparr>)))"

section \<open>The session job\<close>

definition find_session_job :: "turn_env \<Rightarrow> string \<Rightarrow> string \<Rightarrow> job_db \<Rightarrow> string" where
  "find_session_job env ws_id session_id db =
     (case find (\<lambda>j. dget (as_dict (dget j ''payload'')) ''session_id'' = PStr session_id)
             (list_jobs (te_session_exists env) ws_id [] [] 500 db) of
        None \<Rightarrow> [] | Some j \<Rightarrow> gets j ''job_id'')"

definition session_job_title :: "turn_env \<Rightarrow> string \<Rightarrow> string \<Rightarrow> string \<Rightarrow> string" where
  "session_job_title env ws_id session_id user_input =
     (let title = (if user_input \<noteq> [] then py_replace [CHR 0x0A] '' '' (take 40 user_input) else ''agent_run'');
          s = te_session env ws_id session_id
      in if py_truthy (dget s ''title'') then py_str (dget s ''title'') else title)"

definition find_or_create_job ::
  "turn_env \<Rightarrow> string \<Rightarrow> string \<Rightarrow> string \<Rightarrow> string \<Rightarrow> string \<Rightarrow> job_db \<Rightarrow> (job_db \<times> string) res" where
  "find_or_create_job env now new_id ws_id session_id user_input db =
     rbind (validate_workspace_id (PStr ws_id)) (\<lambda>_.
     let job_id = find_session_job env ws_id session_id db in
     if job_id \<noteq> [] then Inr (db, job_id)
     else
       rbind (create_job now new_id None ws_id ''agent_run'' (session_job_title env ws_id session_id user_input)
                [(''session_id'', PStr session_id)] [] ''api'' True [] (db, [])) (\<lambda>(db', _, rec).
       case rec of None \<Rightarrow> Inl (AttributeError ''job_id'') | Some j \<Rightarrow> Inr (db', gets j ''job_id'')))"

text \<open>\<open>mark_running\<close>, whose \<open>ValueError\<close> is logged.\<close>

definition ensure_running :: "string \<Rightarrow> string \<Rightarrow> string \<Rightarrow> job_db \<Rightarrow> job_db res" where
  "ensure_running now ws_id job_id db =
     rbind (get_job ws_id job_id db) (\<lambda>found.
     case found of
       None \<Rightarrow> Inr db
     | Some rec \<Rightarrow>
         if job_status rec \<in> {''created'', ''queued'', ''failed'', ''succeeded'', ''cancelled''} then
           (case mark_running now ws_id job_id db of
              Inl (ValueError _) \<Rightarrow> Inr db
            | Inl e \<Rightarrow> Inl e
            | Inr (db', _) \<Rightarrow> Inr db')
         else Inr db)"

text \<open>The four phases that the user sees, in UTF-8.\<close>

definition label_understand :: string where
  "label_understand =
     [CHR 0xE7, CHR 0x90, CHR 0x86, CHR 0xE8, CHR 0xA7, CHR 0xA3, CHR 0xE9, CHR 0x97, CHR 0xAE, CHR 0xE9, CHR 0xA2, CHR 0x98]"

definition label_collect :: string where
  "label_collect =
     [CHR 0xE6, CHR 0x94, CHR 0xB6, CHR 0xE9, CHR 0x9B, CHR 0x86, CHR 0xE8, CHR 0xAF, CHR 0x81, CHR 0xE6, CHR 0x8D, CHR 0xAE]"

definition label_analyse :: string where
  "label_analyse =
     [CHR 0xE5, CHR 0x88, CHR 0x86, CHR 0xE6, CHR 0x9E, CHR 0x90, CHR 0xE5, CHR 0x88, CHR 0xA4, CHR 0xE6, CHR 0x96, CHR 0xAD]"

definition label_advise :: string where
  "label_advise =
     [CHR 0xE5, CHR 0xBD, CHR 0xA2, CHR 0xE6, CHR 0x88, CHR 0x90, CHR 0xE5, CHR 0xBB, CHR 0xBA, CHR 0xE8, CHR 0xAE, CHR 0xAE]"

definition label_ongoing :: string where
  "label_ongoing = [CHR 0xE6, CHR 0xAD, CHR 0xA3, CHR 0xE5, CHR 0x9C, CHR 0xA8]"

definition STAGE_PROGRESS :: "(string \<times> int \<times> string) list" where
  "STAGE_PROGRESS =
     map (\<lambda>s. (s, 1, label_understand))
       [''turn_started'', ''planner_started'', ''planner_completed'', ''graph_compiled'', ''structural_validated'',
        ''semantic_validated'', ''semantic_invalid'', ''pre_repair_started'', ''pre_repair_completed'', ''risk_assessed'', ''budget_ok'']
     @ map (\<lambda>s. (s, 2, label_collect))
       [''execution_started'', ''orchestration_planned'', ''orchestration_layer_started'', ''orchestration_layer_completed'',
        ''tool_call'', ''tool_result'', ''execution_completed'', ''repair_attempt'']
     @ map (\<lambda>s. (s, 3, label_analyse)) [''merge_completed'', ''response_started'', ''model_started'']
     @ map (\<lambda>s. (s, 4, label_advise)) [''response_completed'', ''turn_completed'']"

definition stage_progress :: "string \<Rightarrow> int \<Rightarrow> string \<Rightarrow> string \<Rightarrow> pydict" where
  "stage_progress now current message label =
     [(''current'', PInt current), (''total'', PInt 4), (''percent'', PInt (current * 25)), (''message'', PStr message),
      (''current_step'', PStr label), (''updated_at'', PStr now)]"

definition new_active_turn :: "string \<Rightarrow> string \<Rightarrow> string \<Rightarrow> pydict" where
  "new_active_turn now session_id client_request_id =
     [(''client_request_id'', PStr client_request_id), (''session_id'', PStr session_id), (''status'', PStr ''running''),
      (''stage'', PStr ''turn_started''), (''stage_label'', PStr label_understand), (''started_at'', PStr now),
      (''updated_at'', PStr now), (''events'', PList []), (''tool_calls'', PList []), (''run_id'', PStr []),
      (''trace_id'', PStr []), (''error'', PStr [])]"

text \<open>\<open>_begin_session_turn_unlocked\<close>; the empty job id stands for \<open>None\<close>.\<close>

definition begin_session_turn_unlocked ::
  "turn_env \<Rightarrow> string \<Rightarrow> string \<Rightarrow> string \<Rightarrow> string \<Rightarrow> string \<Rightarrow> string \<Rightarrow> job_db \<Rightarrow> (job_db \<times> string) res" where
  "begin_session_turn_unlocked env now new_id ws_id session_id user_input client_request_id db =
     (if session_id = [] then Inr (db, [])
      else
        rbind (find_or_create_job env now new_id ws_id session_id user_input db) (\<lambda>(db1, job_id).
        if job_id = [] then Inr (db1, [])
        else
          rbind (ensure_running now ws_id job_id db1) (\<lambda>db2.
          rbind (get_job ws_id job_id db2) (\<lambda>found.
          case found of
            None \<Rightarrow> Inr (db2, [])
          | Some rec \<Rightarrow>
              rbind (update_job now ws_id job_id
                [(''metadata'', PDict (dset ''active_turn'' (PDict (new_active_turn now session_id client_request_id))
                                         (as_dict (dget rec ''metadata'')))),
                 (''progress'', PDict (stage_progress now 1 (label_ongoing @ label_understand) label_understand))] db2) (\<lambda>(db3, _).
              Inr (db3, job_id))))))"

text \<open>\<open>_running_session_turn_unlocked\<close>: the first listed job of the session that runs a turn.\<close>

fun first_running_turn :: "string \<Rightarrow> string \<Rightarrow> job_db \<Rightarrow> pydict list \<Rightarrow> session_turn_claim option res" where
  "first_running_turn ws_id session_id db [] = Inr None"
| "first_running_turn ws_id session_id db (summary # rest) =
     (if gets (as_dict (dget summary ''payload'')) ''session_id'' \<noteq> session_id then first_running_turn ws_id session_id db rest
      else
        rbind (get_job ws_id (gets summary ''job_id'') db) (\<lambda>found.
        case found of
          None \<Rightarrow> first_running_turn ws_id session_id db rest
        | Some rec \<Rightarrow>
            (let active = as_dict (dget (as_dict (dget rec ''metadata'')) ''active_turn'') in
             if job_status rec \<noteq> ''running'' \<or> gets active ''status'' \<noteq> ''running''
             then first_running_turn ws_id session_id db rest
             else Inr (Some (SessionTurnClaim\<lparr>sc_job_id := gets summary ''job_id'', sc_should_execute := False,
                    sc_status := ''conflict'', sc_run_id := gets active ''run_id'', sc_trace_id := gets active ''trace_id'',
                    sc_error := ''session_turn_in_progress''\<rparr>)))))"

definition running_session_turn ::
  "turn_env \<Rightarrow> string \<Rightarrow> string \<Rightarrow> job_db \<Rightarrow> session_turn_claim option res" where
  "running_session_turn env ws_id session_id db =
     rbind (validate_workspace_id (PStr ws_id)) (\<lambda>_.
     first_running_turn ws_id session_id db (list_jobs (te_session_exists env) ws_id [] [] 500 db))"

section \<open>Claiming and finishing a turn\<close>

text \<open>\<open>_session_lock\<close> validates both ids before the section is entered.\<close>

definition session_lock :: "string \<Rightarrow> string \<Rightarrow> unit res" where
  "session_lock session_id ws_id =
     rbind (validate_session_id (PStr session_id)) (\<lambda>_.
     rbind (validate_workspace_id (PStr ws_id)) (\<lambda>_. Inr ()))"

definition new_request_record :: "turn_env \<Rightarrow> string \<Rightarrow> string \<Rightarrow> string \<Rightarrow> string \<Rightarrow> string \<Rightarrow> string \<Rightarrow> pydict" where
  "new_request_record env now ws_id session_id user_input request_id job_id =
     [(''client_request_id'', PStr request_id), (''input_sha256'', PStr (request_input_sha256 env user_input)),
      (''session_id'', PStr session_id), (''workspace_id'', PStr ws_id), (''job_id'', PStr job_id), (''status'', PStr ''running''),
      (''created_at'', PStr now), (''updated_at'', PStr now), (''run_id'', PStr []), (''trace_id'', PStr []), (''error'', PStr [])]"

definition projected_claim :: "pydict \<Rightarrow> session_turn_claim" where
  "projected_claim existing =
     SessionTurnClaim\<lparr>sc_job_id := gets existing ''job_id'', sc_should_execute := False,
       sc_status := gets_or existing ''status'' ''running'', sc_run_id := gets existing ''run_id'',
       sc_trace_id := gets existing ''trace_id'', sc_error := gets existing ''error''\<rparr>"

definition claim_existing ::
  "turn_env \<Rightarrow> string \<Rightarrow> string \<Rightarrow> string \<Rightarrow> string \<Rightarrow> string \<times> string \<times> string \<Rightarrow> pydict \<Rightarrow> turn_db
     \<Rightarrow> (turn_db \<times> session_turn_claim) res" where
  "claim_existing env now ws_id user_input request_id path existing st =
     (let input_sha = gets existing ''input_sha256'' in
      if input_sha \<noteq> [] \<and> input_sha \<noteq> request_input_sha256 env user_input then
        Inr (st, (projected_claim existing)\<lparr>sc_status := ''conflict'', sc_error := ''client_request_payload_mismatch''\<rparr>)
      else
        rbind (reconcile_running_request_record now ws_id request_id existing (sn_jobs st)) (\<lambda>folded.
        case folded of
          None \<Rightarrow> Inr (st, projected_claim existing)
        | Some r \<Rightarrow> Inr (st\<lparr>sn_registry := st_put path r (sn_registry st)\<rparr>, projected_claim r)))"

definition claim_new ::
  "turn_env \<Rightarrow> string \<Rightarrow> string \<Rightarrow> string \<Rightarrow> string \<Rightarrow> string \<Rightarrow> string \<Rightarrow> string \<times> string \<times> string \<Rightarrow> turn_db
     \<Rightarrow> (turn_db \<times> session_turn_claim) res" where
  "claim_new env now new_id ws_id session_id user_input request_id path st =
     rbind (running_session_turn env ws_id session_id (sn_jobs st)) (\<lambda>active.
     case active of
       Some claim \<Rightarrow> Inr (st, claim)
     | None \<Rightarrow>
         rbind (begin_session_turn_unlocked env now new_id ws_id session_id user_input request_id (sn_jobs st)) (\<lambda>(jobs, job_id).
         let st' = st\<lparr>sn_jobs := jobs\<rparr> in
         if job_id = [] then
           Inr (st', SessionTurnClaim\<lparr>sc_should_execute := False, sc_status := ''unavailable'', sc_error := ''job_unavailable''\<rparr>)
         else
           Inr (st'\<lparr>sn_registry := st_put path (new_request_record env now ws_id session_id user_input request_id job_id) (sn_registry st')\<rparr>,
                SessionTurnClaim\<lparr>sc_job_id := job_id\<rparr>)))"

definition claim_session_turn ::
  "turn_env \<Rightarrow> string \<Rightarrow> string \<Rightarrow> string \<Rightarrow> string \<Rightarrow> string \<Rightarrow> string \<Rightarrow> turn_db \<Rightarrow> (turn_db \<times> session_turn_claim) res" where
  "claim_session_turn env now new_id ws_id session_id user_input client_request_id st =
     (if session_id = [] then Inr (st, SessionTurnClaim)
      else
        let request_id = py_strip client_request_id in
        if request_id = [] then
          rbind (session_lock session_id ws_id) (\<lambda>_.
          rbind (running_session_turn env ws_id session_id (sn_jobs st)) (\<lambda>active.
          case active of
            Some claim \<Rightarrow> Inr (st, claim)
          | None \<Rightarrow>
              rbind (begin_session_turn_unlocked env now new_id ws_id session_id user_input [] (sn_jobs st)) (\<lambda>(jobs, job_id).
              Inr (st\<lparr>sn_jobs := jobs\<rparr>, SessionTurnClaim\<lparr>sc_job_id := job_id\<rparr>))))
        else
          rbind (rguard (length request_id \<le> 256) (ValueError ''client_request_id too long'')) (\<lambda>_.
          rbind (session_lock session_id ws_id) (\<lambda>_.
          rbind (prune_request_registry env now ws_id session_id st) (\<lambda>st1.
          rbind (request_registry_path env ws_id session_id request_id) (\<lambda>path.
          let existing = read_request_record path (sn_registry st1) in
          if existing \<noteq> [] then claim_existing env now ws_id user_input request_id path existing st1
          else claim_new env now new_id ws_id session_id user_input request_id path st1)))))"

text \<open>The terminal record that is written between the two prunings, if any.\<close>

definition finish_request_record ::
  "turn_env \<Rightarrow> string \<Rightarrow> string \<Rightarrow> string \<Rightarrow> string \<Rightarrow> string \<Rightarrow> string \<Rightarrow> string \<Rightarrow> bool \<Rightarrow> string \<Rightarrow> turn_db \<Rightarrow> turn_db option res" where
  "finish_request_record env now ws_id session_id request_id job_id run_id trace_id ok error st =
     rbind (request_registry_path env ws_id session_id request_id) (\<lambda>path.
     let existing = read_request_record path (sn_registry st) in
     if existing = [] then Inr None
     else if job_id \<noteq> [] \<and> gets existing ''job_id'' \<noteq> job_id then Inr None
     else
       rbind (get_job ws_id job_id (sn_jobs st)) (\<lambda>found.
       let job = (case found of None \<Rightarrow> [] | Some j \<Rightarrow> j);
           cancelled = py_truthy (dget job ''cancel_requested'') \<or> gets job ''status'' = ''cancelled'';
           r = dupdate existing
             [(''status'', PStr (if cancelled then ''cancelled'' else if ok then ''succeeded'' else ''failed'')),
              (''updated_at'', PStr now), (''finished_at'', PStr now), (''run_id'', PStr run_id), (''trace_id'', PStr trace_id),
              (''error'', PStr (take 240 (if cancelled then text_cancelled else error)))]
       in Inr (Some (st\<lparr>sn_registry := st_put path r (sn_registry st)\<rparr>))))"

definition finish_claimed_session_turn ::
  "turn_env \<Rightarrow> string \<Rightarrow> string \<Rightarrow> string \<Rightarrow> string \<Rightarrow> string \<Rightarrow> string \<Rightarrow> string \<Rightarrow> bool \<Rightarrow> string \<Rightarrow> turn_db \<Rightarrow> turn_db res" where
  "finish_claimed_session_turn env now ws_id session_id client_request_id job_id run_id trace_id ok error st =
     (let request_id = py_strip client_request_id in
      if session_id = [] \<or> request_id = [] then Inr st
      else
        rbind (session_lock session_id ws_id) (\<lambda>_.
        rbind (prune_request_registry env now ws_id session_id st) (\<lambda>st1.
        rbind (finish_request_record env now ws_id session_id request_id job_id run_id trace_id ok error st1) (\<lambda>written.
        case written of None \<Rightarrow> Inr st1 | Some st2 \<Rightarrow> prune_request_registry env now ws_id session_id st2))))"

text \<open>\<open>begin_session_turn\<close>, the wrapper that keeps the job id.\<close>

definition begin_session_turn ::
  "turn_env \<Rightarrow> string \<Rightarrow> string \<Rightarrow> string \<Rightarrow> string \<Rightarrow> string \<Rightarrow> string \<Rightarrow> turn_db \<Rightarrow> (turn_db \<times> string) res" where
  "begin_session_turn env now new_id ws_id session_id user_input client_request_id st =
     rbind (claim_session_turn env now new_id ws_id session_id user_input client_request_id st) (\<lambda>(st', claim).
     Inr (st', sc_job_id claim))"

section \<open>Stages of a running turn\<close>

text \<open>The compact event, and the tool entry that it updates or appends.\<close>

definition stage_tool_id :: "string \<Rightarrow> pydict \<Rightarrow> string" where
  "stage_tool_id stage event =
     (if stage \<in> {''tool_call'', ''tool_result''}
      then py_str (py_or (py_or (dget event ''tool_id'') (dget event ''name'')) (PStr [])) else [])"

definition compact_event :: "string \<Rightarrow> pydict \<Rightarrow> int \<Rightarrow> pydict" where
  "compact_event stage event elapsed_ms =
     (let tool_id = stage_tool_id stage event in
      [(''type'', PStr stage), (''timestamp'', dget event ''timestamp''), (''elapsed_ms'', PInt elapsed_ms)]
      @ (if tool_id = [] then []
         else [(''tool_id'', PStr tool_id), (''call_id'', PStr (gets event ''call_id''))]
              @ (if stage = ''tool_result''
                 then [(''ok'', PBool (py_truthy (dget_or event ''ok'' (PBool (py_eq (dget event ''status'') (PStr ''ok'')))))),
                       (''summary'', PStr (take 240 (py_str (py_or (py_or (dget event ''summary'') (dget event ''message'')) (PStr [])))))]
                 else [])))"

definition stage_tool_matches :: "string \<Rightarrow> string \<Rightarrow> pydict \<Rightarrow> bool" where
  "stage_tool_matches call_id tool_id item \<longleftrightarrow>
     (call_id \<noteq> [] \<and> dget item ''call_id'' = PStr call_id)
     \<or> (call_id = [] \<and> dget item ''tool_id'' = PStr tool_id \<and> dget item ''status'' = PStr ''running'')"

fun update_matching :: "('a \<Rightarrow> bool) \<Rightarrow> ('a \<Rightarrow> 'a) \<Rightarrow> 'a \<Rightarrow> 'a list \<Rightarrow> 'a list" where
  "update_matching P f new [] = [new]"
| "update_matching P f new (x # xs) = (if P x then f x # xs else x # update_matching P f new xs)"

definition dict_entries :: "pyval \<Rightarrow> pydict list" where
  "dict_entries v = map as_dict (filter is_dict (as_list v))"

definition stage_tools :: "string \<Rightarrow> pydict \<Rightarrow> pydict \<Rightarrow> pydict list \<Rightarrow> pydict list" where
  "stage_tools stage event compact tools =
     (let tool_id = stage_tool_id stage event; call_id = gets event ''call_id'';
          ok = dget_or compact ''ok'' (PBool False);
          next_tool =
            [(''call_id'', PStr call_id), (''tool_id'', PStr tool_id),
             (''status'', PStr (if stage = ''tool_result'' \<and> py_truthy ok then ''done''
                                else if stage = ''tool_result'' then ''failed'' else ''running'')),
             (''ok'', ok), (''summary'', dget_or compact ''summary'' (PStr []))]
      in last_n 24 (update_matching (stage_tool_matches call_id tool_id) (\<lambda>t. dupdate t next_tool) next_tool tools))"

definition update_session_turn_stage ::
  "string \<Rightarrow> string \<Rightarrow> string \<Rightarrow> pydict \<Rightarrow> job_db \<Rightarrow> job_db res" where
  "update_session_turn_stage now ws_id job_id event db =
     rbind (get_job ws_id job_id db) (\<lambda>found.
     case found of
       None \<Rightarrow> Inr db
     | Some rec \<Rightarrow>
         let metadata = as_dict (dget rec ''metadata''); active = as_dict (dget metadata ''active_turn'');
             progress = as_dict (dget rec ''progress'');
             stage = py_str (py_or (py_or (dget event ''type'') (dget event ''name'')) (PStr ''event'')) in
         if dget active ''status'' \<noteq> PStr ''running'' then Inr db
         else
           rbind (py_int (py_or (dget progress ''current'') (PInt 1))) (\<lambda>current0.
           let (current, label) = (case map_of STAGE_PROGRESS stage of
                 Some cl \<Rightarrow> cl | None \<Rightarrow> (current0, gets_or progress ''current_step'' label_understand)) in
           rbind (py_int (py_or (dget event ''elapsed_ms'') (PInt 0))) (\<lambda>elapsed_ms.
           let compact = compact_event stage event elapsed_ms;
               active1 = dset ''events'' (PList (map PDict (last_n 80 (dict_entries (dget active ''events'') @ [compact])))) active;
               active2 = (if stage_tool_id stage event = [] then active1
                          else dset ''tool_calls'' (PList (map PDict (stage_tools stage event compact (dict_entries (dget active ''tool_calls''))))) active1);
               active3 = dupdate active2 [(''stage'', PStr stage), (''stage_label'', PStr label), (''updated_at'', PStr now)] in
           rbind (update_job now ws_id job_id
             [(''metadata'', PDict (dset ''active_turn'' (PDict active3) metadata)),
              (''progress'', PDict (stage_progress now current (label_ongoing @ label) label))] db) (\<lambda>(db', _). Inr db'))))"

section \<open>Closing a turn\<close>

text \<open>\<open>mark_cancelled\<close> and the other marks, whose \<open>TypeError\<close> and \<open>ValueError\<close> are logged.\<close>

definition logged_mark :: "job_db \<Rightarrow> (job_db \<times> pydict option) res \<Rightarrow> job_db res" where
  "logged_mark db outcome =
     (case outcome of
        Inr (db', _) \<Rightarrow> Inr db'
      | Inl (ValueError _) \<Rightarrow> Inr db
      | Inl (TypeError _) \<Rightarrow> Inr db
      | Inl e \<Rightarrow> Inl e)"

definition closed_active_turn ::
  "string \<Rightarrow> bool \<Rightarrow> bool \<Rightarrow> string \<Rightarrow> string \<Rightarrow> string \<Rightarrow> pydict \<Rightarrow> pydict \<Rightarrow> pydict" where
  "closed_active_turn now cancelled ok run_id trace_id error unknown_outcome active =
     (let closed = dupdate active
            [(''status'', PStr (if cancelled then ''cancelled'' else if ok then ''succeeded'' else ''failed'')),
             (''stage'', PStr (if cancelled then ''turn_cancelled'' else if ok then ''turn_completed'' else ''turn_failed'')),
             (''stage_label'', PStr (if cancelled then label_cancelled else if ok then label_advise else label_failed)),
             (''updated_at'', PStr now), (''finished_at'', PStr now), (''run_id'', PStr run_id), (''trace_id'', PStr trace_id),
             (''error'', PStr (take 240 (if cancelled then text_cancelled else error)))]
      in if unknown_outcome \<noteq> [] then dset ''unknown_outcome'' (PDict unknown_outcome) closed
         else dpop ''unknown_outcome'' closed)"

definition finish_session_turn_snapshot ::
  "string \<Rightarrow> string \<Rightarrow> string \<Rightarrow> string \<Rightarrow> string \<Rightarrow> string \<Rightarrow> bool \<Rightarrow> string \<Rightarrow> pydict \<Rightarrow> job_db \<Rightarrow> job_db res" where
  "finish_session_turn_snapshot now ws_id job_id client_request_id run_id trace_id ok error unknown_outcome db =
     rbind (get_job ws_id job_id db) (\<lambda>found.
     case found of
       None \<Rightarrow> Inr db
     | Some rec \<Rightarrow>
         let cancelled = py_truthy (dget rec ''cancel_requested'');
             metadata = as_dict (dget rec ''metadata''); active = as_dict (dget metadata ''active_turn'');
             active_request_id = gets active ''client_request_id'';
             label = (if cancelled then label_cancelled else if ok then label_advise else label_failed) in
         if client_request_id \<noteq> [] \<and> active_request_id \<noteq> [] \<and> active_request_id \<noteq> client_request_id then Inr db
         else
           rbind (update_job now ws_id job_id
             [(''metadata'', PDict (dset ''active_turn''
                 (PDict (closed_active_turn now cancelled ok run_id trace_id error unknown_outcome active)) metadata)),
              (''progress'', PDict (stage_progress now 4 label label))] db) (\<lambda>(db1, _).
           if cancelled then logged_mark db1 (mark_cancelled now ws_id job_id ''Agent turn cancelled'' db1) else Inr db1))"

definition finish_turn :: "string \<Rightarrow> string \<Rightarrow> string \<Rightarrow> string \<Rightarrow> bool \<Rightarrow> string \<Rightarrow> bool \<Rightarrow> job_db \<Rightarrow> job_db res" where
  "finish_turn now ws_id job_id run_id run_ok error cancelled db =
     logged_mark db
       (if cancelled then mark_cancelled now ws_id job_id ''Agent turn cancelled'' db
        else if run_ok then mark_succeeded now ws_id job_id [(''latest_run_id'', PStr run_id)] db
        else mark_failed now ws_id job_id (if error \<noteq> [] then error else ''agent_turn_failed'') [(''latest_run_id'', PStr run_id)] db)"

section \<open>Attaching a run\<close>

definition append_new :: "pyval \<Rightarrow> pyval list \<Rightarrow> pyval list" where
  "append_new v xs = (if py_truthy v \<and> \<not> list_ex (py_eq v) xs then xs @ [v] else xs)"

text \<open>What one run record adds to the start time, the trace ids and the artifacts of the job. An invalid
  run id raises and ends the loop; what was merged before it is kept.\<close>

definition artifact_ref_id :: "pyval \<Rightarrow> pyval" where
  "artifact_ref_id ref = (if is_dict ref then dget (as_dict ref) ''artifact_id'' else ref)"

definition merge_run_record ::
  "string \<Rightarrow> pyval \<Rightarrow> pydict \<Rightarrow> string \<times> pyval list \<times> pyval list \<Rightarrow> string \<times> pyval list \<times> pyval list" where
  "merge_run_record run_id rid run_rec = (\<lambda>(started_at, trace_ids, arts).
     if run_rec = [] then (started_at, trace_ids, arts)
     else
       let own = py_eq rid (PStr run_id) in
       (if own then py_str (py_or (py_or (dget run_rec ''started_at'') (dget run_rec ''created_at'')) (PStr [])) else started_at,
        if own then append_new (PStr (gets run_rec ''trace_id'')) trace_ids else trace_ids,
        fold append_new (map artifact_ref_id (py_iter (dget run_rec ''artifact_refs''))) arts))"

fun merge_run_records ::
  "turn_env \<Rightarrow> string \<Rightarrow> string \<Rightarrow> pyval list \<Rightarrow> string \<times> pyval list \<times> pyval list \<Rightarrow> string \<times> pyval list \<times> pyval list" where
  "merge_run_records env ws_id run_id [] acc = acc"
| "merge_run_records env ws_id run_id (rid # rest) acc =
     (case validate_run_id rid of
        Inl _ \<Rightarrow> acc
      | Inr r \<Rightarrow> merge_run_records env ws_id run_id rest (merge_run_record run_id rid (te_run env ws_id r) acc))"

definition label_rounds :: string where
  "label_rounds = [CHR 0xE8, CHR 0xBD, CHR 0xAE, CHR '' '', CHR ''|'', CHR '' '']"

definition label_tool_calls :: string where
  "label_tool_calls =
     [CHR 0xE5, CHR 0xB7, CHR 0xA5, CHR 0xE5, CHR 0x85, CHR 0xB7, CHR 0xE8, CHR 0xB0, CHR 0x83, CHR 0xE7, CHR 0x94, CHR 0xA8]"

definition merged_run_ids :: "pydict \<Rightarrow> pydict \<Rightarrow> string \<Rightarrow> pyval list" where
  "merged_run_ids rec session run_id =
     append_new (PStr run_id) (fold append_new (py_iter (dget session ''run_ids'')) (as_list (dget rec ''run_ids'')))"

definition merge_run_id ::
  "turn_env \<Rightarrow> string \<Rightarrow> string \<Rightarrow> string \<Rightarrow> string \<Rightarrow> string \<Rightarrow> int \<Rightarrow> job_db \<Rightarrow> job_db res" where
  "merge_run_id env now ws_id job_id session_id run_id tool_call_count db =
     (if run_id = [] then Inr db
      else
        rbind (get_job ws_id job_id db) (\<lambda>found.
        case found of
          None \<Rightarrow> Inr db
        | Some rec \<Rightarrow>
            let new_ids = merged_run_ids rec (te_session env ws_id session_id) run_id;
                (started_at, trace_ids, arts) = merge_run_records env ws_id run_id new_ids
                  ([], as_list (dget rec ''trace_ids''), as_list (dget rec ''output_artifacts'')) in
            rbind (update_job now ws_id job_id
              ([(''run_ids'', PList new_ids), (''trace_ids'', PList trace_ids), (''output_artifacts'', PList arts)]
               @ (if started_at \<noteq> [] then [(''started_at'', PStr started_at)] else [])) db) (\<lambda>(db', _).
            update_progress now ws_id job_id (Some (int (length new_ids))) None
              (int_str (int (length new_ids)) @ label_rounds @ int_str tool_call_count @ label_tool_calls) [] db')))"

definition attach_run_to_session_job ::
  "turn_env \<Rightarrow> string \<Rightarrow> string \<Rightarrow> string \<Rightarrow> string \<Rightarrow> string \<Rightarrow> int \<Rightarrow> string \<Rightarrow> bool \<Rightarrow> string \<Rightarrow> job_db
     \<Rightarrow> (job_db \<times> string option) res" where
  "attach_run_to_session_job env now new_id ws_id session_id run_id tool_call_count user_input run_ok error db =
     (if session_id = [] then Inr (db, None)
      else
        rbind (find_or_create_job env now new_id ws_id session_id user_input db) (\<lambda>(db1, job_id).
        if job_id = [] then Inr (db1, None)
        else
          rbind (get_job ws_id job_id db1) (\<lambda>found.
          let cancelled = (case found of None \<Rightarrow> False | Some rec \<Rightarrow> py_truthy (dget rec ''cancel_requested'')) in
          rbind (if cancelled then Inr db1 else ensure_running now ws_id job_id db1) (\<lambda>db2.
          rbind (merge_run_id env now ws_id job_id session_id run_id tool_call_count db2) (\<lambda>db3.
          rbind (finish_turn now ws_id job_id run_id run_ok error cancelled db3) (\<lambda>db4.
          Inr (db4, Some job_id)))))))"

end
