(* ===== verification/Quick_Evaluation.thy ===== *)
theory Quick_Evaluation
  imports Job_Store
begin

text \<open>
  Proved code equations for the parts of the job store that every operation evaluates: the sanitizer on
  plain texts and plain keys, and the loading of a complete record. They refine the definitions of
  \<open>Redaction\<close> and \<open>Job_Store\<close> for the evaluation of concrete histories, and model no code of their own.
\<close>

section \<open>Characters and prefixes\<close>

lemma py_startswith_code [code]:
  "py_startswith s [] = True" "py_startswith [] (c # p) = False"
  "py_startswith (a # s) (c # p) = (a = c \<and> py_startswith s p)"
  by (simp_all add: py_startswith_def)

lemma char_lower_code [code]:
  "char_lower (Char b0 b1 b2 b3 b4 b5 b6 b7) =
     (if b6 \<and> \<not> b7 \<and> \<not> b5 \<and> (b0 \<or> b1 \<or> b2 \<or> b3 \<or> b4) \<and> \<not> (b4 \<and> b3 \<and> (b2 \<or> b1 \<and> b0))
      then Char b0 b1 b2 b3 b4 True b6 b7 else Char b0 b1 b2 b3 b4 b5 b6 b7)"
  by (cases b0; cases b1; cases b2; cases b3; cases b4; cases b5; cases b6; cases b7; simp add: char_lower_def less_eq_char_def char_of_def bit_0)

section \<open>Texts without a secret literal are kept\<close>

text \<open>A literal that does not occur, in any case, blocks every pattern that begins with it.\<close>

definition has_literal :: "string \<Rightarrow> string \<Rightarrow> bool" where
  "has_literal k s \<longleftrightarrow> py_contains (py_lower k) (py_lower s)"

lemma re_match_RLitI: "re_match (RLitI k) p \<noteq> [] \<Longrightarrow> py_startswith (py_lower (snd p)) (py_lower k)"
proof (induction k arbitrary: p)
  case (Cons c k)
  then obtain d s where p: "snd p = d # s" "char_lower d = char_lower c" "re_match (RLitI k) (Some d, s) \<noteq> []"
    by (cases "snd p") (auto simp: RLitI_def split: if_splits)
  from Cons.IH [OF p(3)] p(1,2) show ?case by (simp add: py_startswith_def py_lower_def)
qed (simp add: py_startswith_def py_lower_def)

lemma re_match_starts:
  "re_match (RSeqs (a # rs)) p \<noteq> [] \<Longrightarrow> re_match a p \<noteq> []"
  by (auto simp: RSeqs_def)

lemma re_match_RAlts: "rs \<noteq> [] \<Longrightarrow> re_match (RAlts rs) p \<noteq> [] \<Longrightarrow> \<exists>r \<in> set rs. re_match r p \<noteq> []"
proof -
  have "re_match (foldr RAlt as b) p \<noteq> [] \<Longrightarrow> \<exists>r \<in> insert b (set as). re_match r p \<noteq> []" for as b
    by (induction as) auto
  from this [of "butlast rs" "last rs"] show "rs \<noteq> [] \<Longrightarrow> re_match (RAlts rs) p \<noteq> [] \<Longrightarrow> ?thesis"
    unfolding RAlts_def by (metis in_set_butlastD insertE last_in_set)
qed

lemma re_sub_all_no_literal:
  assumes "\<And>p. re_match r p \<noteq> [] \<Longrightarrow> \<exists>k \<in> set ks. re_match (RLitI k) p \<noteq> []" "\<not> list_ex (\<lambda>k. has_literal k s) ks"
  shows "re_sub_all r repl s = s"
proof -
  have "no_match REps r prev s" if "\<not> list_ex (\<lambda>k. has_literal k s) ks" for prev
    using that
  proof (induction s arbitrary: prev)
    case (Cons c s)
    from Cons.prems have rest: "\<not> list_ex (\<lambda>k. has_literal k s) ks"
      by (auto simp: list_ex_iff has_literal_def py_lower_def)
    have "re_match r (prev, c # s) = []"
    proof (rule ccontr)
      assume "re_match r (prev, c # s) \<noteq> []"
      with assms(1) obtain k where "k \<in> set ks" "re_match (RLitI k) (prev, c # s) \<noteq> []" by blast
      with re_match_RLitI [OF this(2)] Cons.prems show False
        by (auto simp: list_ex_iff has_literal_def py_lower_def)
    qed
    with Cons.IH [OF rest] show ?case by (simp add: re_find_def)
  qed simp
  with assms(2) show ?thesis by (simp add: re_sub_all_def re_sub_no_match)
qed

lemma re_sub_all_no_literal1:
  "\<not> has_literal k s \<Longrightarrow> re_sub_all (RSeqs (RLitI k # rs)) repl s = s"
  by (rule re_sub_all_no_literal [where ks = "[k]"]) (auto dest: re_match_starts)

definition SECRET_LITERALS :: "string list" where
  "SECRET_LITERALS =
     [''sk-'', ''eyJ'', ''password'', ''passwd'', ''community'', ''secret'', ''key'', ''token'', ''api'', ''bearer'',
      ''authorization'', ''hostname'', ''snmp-server'']"

lemma clean_text_no_literal:
  assumes "\<not> list_ex (\<lambda>k. has_literal k s) SECRET_LITERALS" "\<not> py_startswith s ''/''"
  shows "clean_text s = s"
proof -
  have none: "\<not> has_literal k s" if "k \<in> set SECRET_LITERALS" for k
    using assms(1) that by (auto simp: list_ex_iff)
  let ?kw = "[''password'', ''passwd'', ''community'', ''secret'', ''key'']"
  have kw: "re_sub_all (RSeqs [RAlts (map RLitI ?kw), RPlus RSpace, RPlus RNonSpace]) repl s = s" for repl
  proof (rule re_sub_all_no_literal [where ks = ?kw])
    show "\<not> list_ex (\<lambda>k. has_literal k s) ?kw" using none by (simp add: SECRET_LITERALS_def)
    fix p assume "re_match (RSeqs [RAlts (map RLitI ?kw), RPlus RSpace, RPlus RNonSpace]) p \<noteq> []"
    from re_match_RAlts [OF _ re_match_starts [OF this]] show "\<exists>k \<in> set ?kw. re_match (RLitI k) p \<noteq> []" by auto
  qed
  have "fold (\<lambda>r. re_sub_all r ''[REDACTED_SECRET]'') SECRET_PATTERNS s = s"
    unfolding SECRET_PATTERNS_def fold_simps comp_def id_def kw
    using none by (simp add: SECRET_LITERALS_def re_sub_all_no_literal1 kw del: list.map)
  moreover have "\<not> is_absolute_path s"
    using assms(2) by (cases s) (auto simp: is_absolute_path_def RPlus_def RLit_def py_startswith_def)
  ultimately show ?thesis by (simp add: clean_text_def)
qed

text \<open>Refinements for evaluation: a plain text is recognised without the patterns, and a dictionary needs
  only the two tests that matter.\<close>

definition LOWER_LITERALS :: "string list" where
  "LOWER_LITERALS =
     [''sk-'', ''eyj'', ''password'', ''passwd'', ''community'', ''secret'', ''key'', ''token'', ''api'', ''bearer'',
      ''authorization'', ''hostname'', ''snmp-server'']"

lemma clean_text_code [code]:
  "clean_text s =
     (if s = [] then []
      else let t = py_lower s in
        if \<not> list_ex (\<lambda>k. py_contains k t) LOWER_LITERALS \<and> hd s \<noteq> CHR ''/'' then s
        else let cleaned = fold (\<lambda>r. re_sub_all r ''[REDACTED_SECRET]'') SECRET_PATTERNS s
             in if is_absolute_path cleaned \<and> 5 < length cleaned then ''[REDACTED_PATH]'' else cleaned)"
proof (cases "s = []")
  case True
  then show ?thesis using clean_text_word [of "[]"] by simp
next
  case False
  have lits: "LOWER_LITERALS = map py_lower SECRET_LITERALS" by code_simp
  show ?thesis
  proof (cases "\<not> list_ex (\<lambda>k. py_contains k (py_lower s)) LOWER_LITERALS \<and> hd s \<noteq> CHR ''/''")
    case True
    then have "\<not> list_ex (\<lambda>k. has_literal k s) SECRET_LITERALS" by (simp add: lits has_literal_def list_ex_iff)
    moreover have "\<not> py_startswith s ''/''" using True False by (cases s) (simp_all add: py_startswith_def)
    ultimately have "clean_text s = s" by (rule clean_text_no_literal)
    with True False show ?thesis by (simp add: Let_def)
  next
    case slow: False
    show ?thesis unfolding if_not_P [OF False] Let_def if_not_P [OF slow] by (simp only: clean_text_def Let_def)
  qed
qed

section \<open>Plain keys\<close>

text \<open>The keys of a job record, of its progress, its events and its snapshot are neither sensitive nor paths.\<close>

definition PLAIN_KEYS :: "string list" where
  "PLAIN_KEYS =
     [''job_id'', ''workspace_id'', ''job_type'', ''title'', ''description'', ''status'', ''progress'', ''payload'', ''input_artifacts'',
      ''output_artifacts'', ''report_artifacts'', ''artifact_refs'', ''run_ids'', ''trace_ids'', ''capability_id'', ''skill'', ''module'',
      ''created_by'', ''created_at'', ''updated_at'', ''started_at'', ''finished_at'', ''cancel_requested'', ''retry_count'',
      ''max_retries'', ''error'', ''warnings'', ''result_summary'', ''metadata'', ''redaction_applied'', ''current'', ''total'',
      ''percent'', ''message'', ''current_step'', ''active_turn'', ''client_request_id'', ''session_id'', ''stage'', ''stage_label'',
      ''events'', ''tool_calls'', ''run_id'', ''trace_id'', ''event_type'', ''timestamp'', ''artifact_id'', ''latest_run_id'']"

lemma plain_keys: "list_all (\<lambda>k. \<not> job_sensitive_key k \<and> \<not> job_path_key k) PLAIN_KEYS"
  by code_simp

lemma sanitize_entry_code [code]:
  "sanitize_entry kv =
     (fst kv,
      if fst kv \<in> set PLAIN_KEYS then deep_sanitize (snd kv)
      else if job_sensitive_key (fst kv) then content_ref (snd kv)
      else if job_path_key (fst kv)
      then (if py_startswith (normalized_key (fst kv)) ''relative'' then snd kv else PStr ''[REDACTED_PATH]'')
      else deep_sanitize (snd kv))"
  using plain_keys by (auto simp: sanitize_entry_def list_all_iff)

lemma deep_sanitize_code [code]:
  "deep_sanitize (PDict d) = PDict (map sanitize_entry d)"
  "deep_sanitize (PList xs) = PList (map deep_sanitize xs)"
  "deep_sanitize (PStr s) = PStr (clean_text s)"
  "deep_sanitize PNone = PNone" "deep_sanitize (PBool b) = PBool b" "deep_sanitize (PInt i) = PInt i"
  by (simp_all add: deep_sanitize_PDict del: deep_sanitize.simps(1))

section \<open>Complete records\<close>

definition JOB_FIELD_NAMES :: "string list" where
  "JOB_FIELD_NAMES = take 30 PLAIN_KEYS"

lemma job_fields_code [code]: "job_fields = JOB_FIELD_NAMES"
  by code_simp

lemma load_job_same: "map fst d = job_fields \<Longrightarrow> load_job d = d"
proof -
  have "map (\<lambda>(k, v). (k, dget_or d k v)) ds = d" if "map fst ds = map fst d" "distinct (map fst d)" for ds d :: pydict
  proof (rule nth_equalityI)
    from that(1) show "length (map (\<lambda>(k, v). (k, dget_or d k v)) ds) = length d" by (metis length_map)
    fix i assume "i < length (map (\<lambda>(k, v). (k, dget_or d k v)) ds)"
    then have i: "i < length ds" "i < length d" using that(1) by (metis length_map)+
    then have "fst (ds ! i) = fst (d ! i)" using that(1) by (metis nth_map)
    moreover have "map_of d (fst (d ! i)) = Some (snd (d ! i))"
      using that(2) i(2) by (simp add: map_of_eq_Some_iff)
    ultimately show "map (\<lambda>(k, v). (k, dget_or d k v)) ds ! i = d ! i"
      using i by (simp add: case_prod_beta dget_or_def)
  qed
  moreover have "distinct job_fields" by code_simp
  ultimately show "map fst d = job_fields \<Longrightarrow> load_job d = d" by (simp add: load_job_def job_fields_def)
qed

lemma load_job_code [code]:
  "load_job d = (if map fst d = JOB_FIELD_NAMES then d else map (\<lambda>(k, v). (k, dget_or d k v)) (JobRecord [] []))"
  using load_job_same by (simp add: job_fields_code [symmetric]) (simp add: load_job_def)

end
