(* ===== verification/Turn_Histories.thy ===== *)
theory Turn_Histories
  imports Session_Turn Quick_Evaluation
begin

text \<open>
  What the request registry and the session job promise (\<open>jobs/lifecycle.py\<close>): one execution right per
  client request as long as its record is kept, which records pruning may forget, one turn at a time
  in a session, and the histories in which that fails. The histories are those of the turn lifecycle; the permanent
  deletion of a session (\<open>storage/session_store.py\<close>), which also removes its registry, is not an operation of them.
\<close>

lemma map_sum_Inr: "map_sum id f m = Inr y \<Longrightarrow> (\<And>x. m = Inr x \<Longrightarrow> y = f x \<Longrightarrow> P) \<Longrightarrow> P"
  by (cases m) auto

section \<open>What pruning does to one file\<close>

definition registered :: "turn_db \<Rightarrow> string \<times> string \<times> string \<Rightarrow> bool" where
  "registered st path \<longleftrightarrow> read_request_record path (sn_registry st) \<noteq> []"

text \<open>A record as pruning sees it: as it is, or folded into the terminal state of its durable job.\<close>

definition folded_to :: "string \<Rightarrow> string \<Rightarrow> job_db \<Rightarrow> pydict \<Rightarrow> pydict \<Rightarrow> bool" where
  "folded_to now ws_id db r r' \<longleftrightarrow>
     r' = r \<or> reconcile_running_request_record now ws_id (gets r ''client_request_id'') r db = Inr (Some r')"

lemma dupdate_not_Nil: "d \<noteq> [] \<or> e \<noteq> [] \<Longrightarrow> dupdate d e \<noteq> []"
  by (induction d e rule: dupdate.induct) auto

lemma reconcile_Some:
  assumes "reconcile_running_request_record now ws_id rid r db = Inr (Some r')"
  obtains found where "get_job ws_id (gets r ''job_id'') db = Inr found"
    "fst (implied_status rid (case found of None \<Rightarrow> [] | Some j \<Rightarrow> j)) \<noteq> []" "gets r ''status'' = ''running''"
    "r' = dupdate r ([(''status'', PStr (fst (implied_status rid (case found of None \<Rightarrow> [] | Some j \<Rightarrow> j)))), (''updated_at'', PStr now),
        (''finished_at'', PStr (gets_or (case found of None \<Rightarrow> [] | Some j \<Rightarrow> j) ''finished_at'' now))]
      @ (if snd (implied_status rid (case found of None \<Rightarrow> [] | Some j \<Rightarrow> j)) \<noteq> []
         then [(''error'', PStr (take 240 (snd (implied_status rid (case found of None \<Rightarrow> [] | Some j \<Rightarrow> j)))))] else []))"
  using assms unfolding reconcile_running_request_record_def Let_def case_prod_beta
  by (auto split: if_split_asm)

lemma reconcile_not_Nil: "reconcile_running_request_record now ws_id rid r db = Inr (Some r') \<Longrightarrow> r' \<noteq> []"
  by (erule reconcile_Some) (simp add: dupdate_not_Nil)

lemma reconcile_keeps_job_id:
  "reconcile_running_request_record now ws_id rid r db = Inr (Some r') \<Longrightarrow> gets r' ''job_id'' = gets r ''job_id''"
  by (erule reconcile_Some) (rule trans [OF arg_cong [where f = "\<lambda>x. gets x ''job_id''"] gets_dupdate_other], assumption, auto)

lemma folded_not_Nil: "folded_to now ws_id db r r' \<Longrightarrow> r \<noteq> [] \<Longrightarrow> r' \<noteq> []"
  by (auto simp: folded_to_def dest: reconcile_not_Nil)

lemma read_record_Some: "read_request_record p reg \<noteq> [] \<Longrightarrow> st_get reg p = Some (read_request_record p reg)"
  by (auto simp: read_request_record_def split: option.splits)

lemma read_record_simps [simp]:
  "read_request_record p (st_put q r reg) = (if p = q then r else read_request_record p reg)"
  "read_request_record p (st_del q reg) = (if p = q then [] else read_request_record p reg)"
  by (simp_all add: read_request_record_def)

text \<open>The ways one file leaves the loop.\<close>

definition expired :: "turn_env \<Rightarrow> int \<Rightarrow> pydict \<Rightarrow> bool" where
  "expired env cutoff r \<longleftrightarrow> (case request_record_timestamp env r of None \<Rightarrow> True | Some t \<Rightarrow> t < cutoff)"

lemma prune_candidate_cases:
  assumes "prune_candidate env now ws_id db cutoff c (reg, terminal) = Inr (reg', terminal')"
  obtains (empty) "read_request_record c reg = []" "reg' = st_del c reg" "terminal' = terminal"
  | (kept) r' where "read_request_record c reg \<noteq> []" "folded_to now ws_id db (read_request_record c reg) r'"
      "\<not> is_terminal_request r'" "read_request_record c reg' = r'"
      "\<And>p. p \<noteq> c \<Longrightarrow> read_request_record p reg' = read_request_record p reg" "terminal' = terminal"
  | (expired) r' where "folded_to now ws_id db (read_request_record c reg) r'" "is_terminal_request r'"
      "expired env cutoff r'" "\<And>p. p \<noteq> c \<Longrightarrow> read_request_record p reg' = read_request_record p reg"
      "read_request_record c reg' = []" "terminal' = terminal"
  | (recent) r' t where "read_request_record c reg \<noteq> []" "folded_to now ws_id db (read_request_record c reg) r'"
      "is_terminal_request r'" "request_record_timestamp env r' = Some t" "cutoff \<le> t"
      "read_request_record c reg' = r'" "\<And>p. p \<noteq> c \<Longrightarrow> read_request_record p reg' = read_request_record p reg"
      "terminal' = terminal @ [(t, c)]"
proof (cases "read_request_record c reg = []")
  case True
  with assms empty show ?thesis by (simp add: prune_candidate_def)
next
  case False
  let ?r = "read_request_record c reg"
  note eq = assms [unfolded prune_candidate_def Let_def prod.case if_not_P [OF False]]
  from eq obtain folded where f: "reconcile_running_request_record now ws_id (gets ?r ''client_request_id'') ?r db = Inr folded"
    by auto
  let ?r' = "case folded of None \<Rightarrow> ?r | Some x \<Rightarrow> x"
  let ?reg = "case folded of None \<Rightarrow> reg | Some x \<Rightarrow> st_put c x reg"
  have ft: "folded_to now ws_id db ?r ?r'" using f by (cases folded) (auto simp: folded_to_def)
  have own: "read_request_record c ?reg = ?r'" by (cases folded) auto
  have other: "read_request_record p ?reg = read_request_record p reg" if "p \<noteq> c" for p
    using that by (cases folded) auto
  note eq2 = eq [unfolded f rbind_simps]
  show ?thesis
  proof (cases "is_terminal_request ?r'")
    case False
    with eq2 have "reg' = ?reg" "terminal' = terminal" by simp_all
    with kept [OF \<open>?r \<noteq> []\<close> ft False] own other show ?thesis by blast
  next
    case final: True
    show ?thesis
    proof (cases "request_record_timestamp env ?r'")
      case None
      with eq2 final have "reg' = st_del c ?reg" "terminal' = terminal" by simp_all
      with expired [OF ft final] other None show ?thesis by (simp add: expired_def)
    next
      case (Some t)
      show ?thesis
      proof (cases "t < cutoff")
        case True
        with eq2 final Some have "reg' = st_del c ?reg" "terminal' = terminal" by simp_all
        with expired [OF ft final] other Some True show ?thesis by (simp add: expired_def)
      next
        case False
        with eq2 final Some have "reg' = ?reg" "terminal' = terminal @ [(t, c)]" by simp_all
        with recent [OF \<open>?r \<noteq> []\<close> ft final Some] own other False show ?thesis by simp
      qed
    qed
  qed
qed

text \<open>The loop over distinct files: a file is expired, or it stays, folded, and is in the list when it is
  terminal.\<close>

definition scanned :: "turn_env \<Rightarrow> string \<Rightarrow> string \<Rightarrow> job_db \<Rightarrow> int \<Rightarrow> registry \<Rightarrow> registry \<Rightarrow> string \<times> string \<times> string \<Rightarrow> bool" where
  "scanned env now ws_id db cutoff reg reg' p \<longleftrightarrow>
     read_request_record p reg \<noteq> [] \<longrightarrow>
     (\<exists>r'. folded_to now ws_id db (read_request_record p reg) r'
        \<and> (read_request_record p reg' = r' \<or> is_terminal_request r' \<and> expired env cutoff r'))"

definition listed_terminal :: "turn_env \<Rightarrow> registry \<Rightarrow> int \<times> string \<times> string \<times> string \<Rightarrow> bool" where
  "listed_terminal env reg = (\<lambda>(t, p).
     is_terminal_request (read_request_record p reg) \<and> request_record_timestamp env (read_request_record p reg) = Some t)"

lemma prune_scan:
  assumes "rfold (prune_candidate env now ws_id db cutoff) cs (reg, terminal) = Inr (reg', terminal')"
    and "distinct cs" "distinct (map snd terminal)" "set (map snd terminal) \<inter> set cs = {}"
    and "list_all (listed_terminal env reg) terminal"
  shows "(\<forall>p \<in> set cs. scanned env now ws_id db cutoff reg reg' p)
    \<and> (\<forall>p. p \<notin> set cs \<longrightarrow> read_request_record p reg' = read_request_record p reg)
    \<and> distinct (map snd terminal') \<and> set (map snd terminal') \<subseteq> set (map snd terminal) \<union> set cs
    \<and> list_all (listed_terminal env reg') terminal'"
  using assms
proof (induction cs arbitrary: reg terminal)
  case Nil
  then show ?case by simp
next
  case (Cons c cs)
  from Cons.prems(1) obtain reg1 terminal1 where
    step: "prune_candidate env now ws_id db cutoff c (reg, terminal) = Inr (reg1, terminal1)"
    and rest: "rfold (prune_candidate env now ws_id db cutoff) cs (reg1, terminal1) = Inr (reg', terminal')"
    by auto
  have notin: "c \<notin> snd ` set terminal" "c \<notin> set cs" "distinct cs" using Cons.prems(2,4) by auto
  have other: "read_request_record p reg1 = read_request_record p reg" if "p \<noteq> c" for p
    using step that by (cases rule: prune_candidate_cases) auto
  have old: "list_all (listed_terminal env reg1) terminal"
  proof -
    have "listed_terminal env reg1 tp" if "tp \<in> set terminal" for tp
    proof -
      from that notin(1) have "snd tp \<noteq> c" by blast
      with other [of "snd tp"] Cons.prems(5) that show ?thesis
        by (auto simp: list_all_iff listed_terminal_def case_prod_beta)
    qed
    then show ?thesis by (simp add: list_all_iff)
  qed
  have terms: "terminal1 = terminal \<or> (\<exists>t. terminal1 = terminal @ [(t, c)] \<and> listed_terminal env reg1 (t, c))"
    using step by (cases rule: prune_candidate_cases) (auto simp: listed_terminal_def)
  have names: "map snd terminal1 = map snd terminal \<or> map snd terminal1 = map snd terminal @ [c]" using terms by auto
  have "set (map snd terminal) \<inter> set cs = {}" "c \<notin> set (map snd terminal)"
    using Cons.prems(4) by (simp_all only: set_simps disjoint_insert Int_insert_right) (auto split: if_splits)
  with names notin Cons.prems(3) have terms1: "distinct (map snd terminal1)" "set (map snd terminal1) \<inter> set cs = {}"
    by (elim disjE; simp only: distinct_append set_append set_simps; simp)+
  have listed1: "list_all (listed_terminal env reg1) terminal1" using terms old by auto
  have ih: "(\<forall>p \<in> set cs. scanned env now ws_id db cutoff reg1 reg' p)
    \<and> (\<forall>p. p \<notin> set cs \<longrightarrow> read_request_record p reg' = read_request_record p reg1)
    \<and> distinct (map snd terminal') \<and> set (map snd terminal') \<subseteq> set (map snd terminal1) \<union> set cs
    \<and> list_all (listed_terminal env reg') terminal'"
    by (rule Cons.IH [OF rest notin(3) terms1 listed1])
  have cfix: "read_request_record c reg' = read_request_record c reg1" using ih notin(2) by blast
  have "scanned env now ws_id db cutoff reg reg' c"
    using step by (cases rule: prune_candidate_cases) (auto simp: scanned_def cfix)
  moreover have "scanned env now ws_id db cutoff reg reg' p" if "p \<in> set cs" for p
  proof -
    from that notin(2) have "p \<noteq> c" by blast
    then have "read_request_record p reg1 = read_request_record p reg" by (rule other)
    moreover have "scanned env now ws_id db cutoff reg1 reg' p" using ih that by blast
    ultimately show ?thesis by (simp add: scanned_def)
  qed
  moreover have "read_request_record p reg' = read_request_record p reg" if "p \<notin> set (c # cs)" for p
  proof -
    from that have "p \<noteq> c" "p \<notin> set cs" by simp_all
    from ih [THEN conjunct2, THEN conjunct1, rule_format, OF this(2)] other [OF this(1)] show ?thesis by simp
  qed
  moreover have "set (map snd terminal') \<subseteq> set (map snd terminal) \<union> set (c # cs)"
  proof -
    have "set (map snd terminal1) \<subseteq> insert c (set (map snd terminal))"
      using names by (elim disjE) (simp_all only: set_append list.set, blast+)
    with ih [THEN conjunct2, THEN conjunct2, THEN conjunct2, THEN conjunct1] show ?thesis
      by (simp only: list.set) blast
  qed
  ultimately show ?case
    using ih [THEN conjunct2, THEN conjunct2, THEN conjunct1] ih [THEN conjunct2, THEN conjunct2, THEN conjunct2, THEN conjunct2]
    by (simp only: list.set ball_simps) blast
qed

section \<open>What pruning can forget\<close>

definition registry_cutoff :: "turn_env \<Rightarrow> string \<Rightarrow> int" where
  "registry_cutoff env now =
     (case request_record_timestamp env [(''updated_at'', PStr now)] of
        None \<Rightarrow> 0 | Some instant \<Rightarrow> instant - 1000000 * REGISTRY_TTL_SECONDS)"

text \<open>A terminal record of the directory that is at least as new as \<open>t\<close>.\<close>

definition newer_terminal :: "turn_env \<Rightarrow> registry \<Rightarrow> string \<times> string \<Rightarrow> int \<Rightarrow> string \<times> string \<times> string \<Rightarrow> bool" where
  "newer_terminal env reg dir t q \<longleftrightarrow>
     (fst q, fst (snd q)) = dir \<and> is_terminal_request (read_request_record q reg)
     \<and> (case request_record_timestamp env (read_request_record q reg) of None \<Rightarrow> False | Some t' \<Rightarrow> t \<le> t')"

text \<open>The request has ended, and its record is too old or crowded out by 256 newer ones that are kept.\<close>

definition forgettable ::
  "turn_env \<Rightarrow> string \<Rightarrow> string \<Rightarrow> turn_db \<Rightarrow> turn_db \<Rightarrow> string \<times> string \<times> string \<Rightarrow> bool" where
  "forgettable env now ws_id st st' p \<longleftrightarrow>
     (\<exists>r'. folded_to now ws_id (sn_jobs st) (read_request_record p (sn_registry st)) r' \<and> is_terminal_request r'
        \<and> (expired env (registry_cutoff env now) r'
           \<or> (\<exists>t P. request_record_timestamp env r' = Some t \<and> finite P \<and> card P = REGISTRY_MAX_TERMINAL \<and> p \<notin> P
                \<and> (\<forall>q \<in> P. newer_terminal env (sn_registry st') (fst p, fst (snd p)) t q))))"

lemma read_fold_del: "read_request_record p (fold st_del ps reg) = (if p \<in> set ps then [] else read_request_record p reg)"
  by (induction ps arbitrary: reg) auto

lemma sorted_take_drop:
  assumes "sorted (map f xs)" "x \<in> set (take n xs)" "y \<in> set (drop n xs)"
  shows "f x \<le> f y"
proof -
  from assms(1) have "sorted (map f (take n xs) @ map f (drop n xs))" by (simp flip: map_append)
  with assms(2,3) show ?thesis by (auto simp: sorted_append)
qed

text \<open>The files that survive the overflow: 256, none of them a victim, all at least as new.\<close>

lemma overflow_survivors:
  assumes "distinct (map snd terminal)" "p \<in> set (overflow_victims terminal)"
  obtains t P where "(t, p) \<in> set terminal" "finite P" "card P = REGISTRY_MAX_TERMINAL" "p \<notin> P"
    "\<And>q. q \<in> P \<Longrightarrow> \<exists>t' \<ge> t. (t', q) \<in> set terminal" "P \<inter> set (overflow_victims terminal) = {}"
proof -
  let ?s = "sort_key fst terminal"
  let ?n = "length terminal - REGISTRY_MAX_TERMINAL"
  let ?P = "set (map snd (drop ?n ?s))"
  have dist: "distinct (map snd ?s)"
    using assms(1) by (metis distinct_map distinct_sort set_sort)
  then have split: "distinct (map snd (take ?n ?s) @ map snd (drop ?n ?s))" by (simp only: flip: map_append) simp
  from assms(2) obtain t where t: "(t, p) \<in> set (take ?n ?s)" by (auto simp: overflow_victims_def)
  then have "?n > 0" by (cases ?n) auto
  have "length (drop ?n ?s) = REGISTRY_MAX_TERMINAL" using \<open>?n > 0\<close> by simp
  moreover have "distinct (map snd (drop ?n ?s))" using split by simp
  ultimately have card: "card ?P = REGISTRY_MAX_TERMINAL" by (metis distinct_card length_map)
  have disj: "?P \<inter> set (overflow_victims terminal) = {}"
    using split by (auto simp: overflow_victims_def)
  have newer: "\<exists>t' \<ge> t. (t', q) \<in> set terminal" if "q \<in> ?P" for q
  proof -
    from that obtain t' where t': "(t', q) \<in> set (drop ?n ?s)" by auto
    have "t \<le> t'" using sorted_take_drop [OF _ t t', of fst] by simp
    with t' show ?thesis by (metis in_set_dropD set_sort)
  qed
  have "(t, p) \<in> set terminal" using t by (metis in_set_takeD set_sort)
  moreover have "p \<notin> ?P" using disj assms(2) by blast
  ultimately show ?thesis using that [of t ?P] card newer disj by blast
qed

lemma prune_forgets:
  assumes "prune_request_registry env now ws_id session_id st = Inr st'" "registered st p" "\<not> registered st' p"
  shows "forgettable env now ws_id st st' p"
proof -
  let ?reg = "sn_registry st" and ?db = "sn_jobs st"
  let ?cut = "registry_cutoff env now"
  have "st' \<noteq> st" using assms(2,3) by blast
  with assms(1) obtain dir instant reg terminal where dir: "registry_dir ws_id session_id = Inr dir"
    and inst: "request_record_timestamp env [(''updated_at'', PStr now)] = Some instant"
    and scan: "rfold (prune_candidate env now ws_id ?db ?cut) (registry_files dir ?reg) (?reg, []) = Inr (reg, terminal)"
    and st': "st' = st\<lparr>sn_registry := fold st_del (overflow_victims terminal) reg\<rparr>"
    by (auto simp: prune_request_registry_def registry_cutoff_def split: option.splits)
  have "distinct (registry_files dir ?reg)" by (simp add: registry_files_def)
  from prune_scan [OF scan this]
  have facts: "\<And>p. p \<in> set (registry_files dir ?reg) \<Longrightarrow> scanned env now ws_id ?db ?cut ?reg reg p"
    "\<And>p. p \<notin> set (registry_files dir ?reg) \<Longrightarrow> read_request_record p reg = read_request_record p ?reg"
    "distinct (map snd terminal)" "snd ` set terminal \<subseteq> set (registry_files dir ?reg)"
    "list_all (listed_terminal env reg) terminal" by auto
  have after: "read_request_record q (sn_registry st') = (if q \<in> set (overflow_victims terminal) then [] else read_request_record q reg)" for q
    by (simp add: st' read_fold_del)
  have sub: "q \<in> set (registry_files dir ?reg)" if "(t, q) \<in> set terminal" for t q using facts(4) that by force
  have vict: "\<exists>t. (t, q) \<in> set terminal" if "q \<in> set (overflow_victims terminal)" for q
    using that by (auto simp: overflow_victims_def) (metis in_set_takeD set_sort)
  have "p \<in> set (registry_files dir ?reg)"
  proof (rule ccontr)
    assume np: "p \<notin> set (registry_files dir ?reg)"
    then have "p \<notin> set (overflow_victims terminal)" using vict sub by blast
    with after [of p] facts(2) [OF np] assms(2,3) show False by (simp add: registered_def)
  qed
  then have pdir: "(fst p, fst (snd p)) = dir" by (auto simp: registry_files_def)
  from facts(1) [OF \<open>p \<in> _\<close>] assms(2) obtain r' where
    r': "folded_to now ws_id ?db (read_request_record p ?reg) r'"
        "read_request_record p reg = r' \<or> is_terminal_request r' \<and> expired env ?cut r'"
    by (auto simp: scanned_def registered_def)
  show ?thesis
  proof (cases "p \<in> set (overflow_victims terminal)")
    case False
    with after [of p] assms(3) have "read_request_record p reg = []" by (simp add: registered_def)
    moreover have "r' \<noteq> []" using folded_not_Nil [OF r'(1)] assms(2) by (simp add: registered_def)
    ultimately have "is_terminal_request r'" "expired env ?cut r'" using r'(2) by auto
    with r'(1) show ?thesis unfolding forgettable_def by blast
  next
    case True
    from facts(3) True show ?thesis
    proof (rule overflow_survivors)
      fix t P
      assume P: "(t, p) \<in> set terminal" "finite P" "card P = REGISTRY_MAX_TERMINAL" "p \<notin> P"
        "\<And>q. q \<in> P \<Longrightarrow> \<exists>t' \<ge> t. (t', q) \<in> set terminal" "P \<inter> set (overflow_victims terminal) = {}"
      from P(1) facts(5) have listed: "is_terminal_request (read_request_record p reg)"
        "request_record_timestamp env (read_request_record p reg) = Some t"
        by (auto simp: list_all_iff listed_terminal_def)
      have newer: "newer_terminal env (sn_registry st') (fst p, fst (snd p)) t q" if "q \<in> P" for q
      proof -
        from P(5) [OF that] obtain t' where t': "t \<le> t'" "(t', q) \<in> set terminal" by blast
        then have "(fst q, fst (snd q)) = dir" using sub by (fastforce simp: registry_files_def)
        moreover have "read_request_record q (sn_registry st') = read_request_record q reg" using P(6) that after [of q] by auto
        ultimately show ?thesis using t' facts(5) pdir by (fastforce simp: newer_terminal_def list_all_iff listed_terminal_def)
      qed
      show ?thesis
      proof (cases "read_request_record p reg = r'")
        case True
        with r'(1) listed P newer show ?thesis unfolding forgettable_def by blast
      next
        case False
        with r' show ?thesis unfolding forgettable_def by blast
      qed
    qed
  qed
qed

section \<open>Histories\<close>

text \<open>\<open>PruneTurn\<close> is what stays of an operation that raises after its pruning; \<open>JobsBecome\<close> is anything that
  happens to the job store between two operations on the registry.\<close>

datatype turn_op =
    ClaimTurn string string string string string
  | FinishTurn string string string string string string bool string
  | PruneTurn string string
  | JobsBecome job_db

definition exec_turn_op :: "turn_env \<Rightarrow> string \<Rightarrow> turn_op \<Rightarrow> turn_db \<Rightarrow> turn_db res" where
  "exec_turn_op env now op st =
     (case op of
        ClaimTurn new_id ws_id session_id user_input request_id \<Rightarrow>
          rbind (claim_session_turn env now new_id ws_id session_id user_input request_id st) (\<lambda>(st', _). Inr st')
      | FinishTurn ws_id session_id request_id job_id run_id trace_id ok error \<Rightarrow>
          finish_claimed_session_turn env now ws_id session_id request_id job_id run_id trace_id ok error st
      | PruneTurn ws_id session_id \<Rightarrow> prune_request_registry env now ws_id session_id st
      | JobsBecome jobs \<Rightarrow> Inr (st\<lparr>sn_jobs := jobs\<rparr>))"

definition turn_step :: "turn_env \<Rightarrow> string \<times> turn_op \<Rightarrow> turn_db \<Rightarrow> turn_db" where
  "turn_step env timed st = (case exec_turn_op env (fst timed) (snd timed) st of Inl _ \<Rightarrow> st | Inr st' \<Rightarrow> st')"

text \<open>The step gives the caller the right to execute the request that is recorded at the path.\<close>

definition grants :: "turn_env \<Rightarrow> string \<times> turn_op \<Rightarrow> turn_db \<Rightarrow> string \<times> string \<times> string \<Rightarrow> bool" where
  "grants env timed st path \<longleftrightarrow>
     (case snd timed of
        ClaimTurn new_id ws_id session_id user_input request_id \<Rightarrow>
          session_id \<noteq> [] \<and> py_strip request_id \<noteq> []
          \<and> request_registry_path env ws_id session_id (py_strip request_id) = Inr path
          \<and> (case claim_session_turn env (fst timed) new_id ws_id session_id user_input request_id st of
               Inl _ \<Rightarrow> False | Inr (_, claim) \<Rightarrow> sc_should_execute claim)
      | _ \<Rightarrow> False)"

text \<open>A pruning of the step forgets the record, which has ended and is too old or crowded out.\<close>

definition pruned_away :: "turn_env \<Rightarrow> string \<Rightarrow> string \<Rightarrow> string \<Rightarrow> turn_db \<Rightarrow> string \<times> string \<times> string \<Rightarrow> bool" where
  "pruned_away env now ws_id session_id st path \<longleftrightarrow>
     (case prune_request_registry env now ws_id session_id st of
        Inl _ \<Rightarrow> False
      | Inr st' \<Rightarrow> registered st path \<and> \<not> registered st' path \<and> forgettable env now ws_id st st' path)"

definition forgets :: "turn_env \<Rightarrow> string \<times> turn_op \<Rightarrow> turn_db \<Rightarrow> string \<times> string \<times> string \<Rightarrow> bool" where
  "forgets env timed st path \<longleftrightarrow>
     (case snd timed of
        ClaimTurn new_id ws_id session_id user_input request_id \<Rightarrow> pruned_away env (fst timed) ws_id session_id st path
      | FinishTurn ws_id session_id request_id job_id run_id trace_id ok error \<Rightarrow>
          pruned_away env (fst timed) ws_id session_id st path
          \<or> (\<exists>st1 st2. prune_request_registry env (fst timed) ws_id session_id st = Inr st1
               \<and> finish_request_record env (fst timed) ws_id session_id (py_strip request_id) job_id run_id trace_id ok error st1
                   = Inr (Some st2)
               \<and> pruned_away env (fst timed) ws_id session_id st2 path)
      | PruneTurn ws_id session_id \<Rightarrow> pruned_away env (fst timed) ws_id session_id st path
      | JobsBecome _ \<Rightarrow> False)"

lemma prune_keeps_or_forgets:
  assumes "prune_request_registry env now ws_id session_id st = Inr st'" "registered st p"
  shows "registered st' p \<or> pruned_away env now ws_id session_id st p"
  using prune_forgets [OF assms] assms by (cases "registered st' p") (simp_all add: pruned_away_def)

lemma prune_jobs: "prune_request_registry env now ws_id session_id st = Inr st' \<Longrightarrow> sn_jobs st' = sn_jobs st"
  by (auto simp: prune_request_registry_def split: option.splits)

lemma claim_existing_keeps:
  assumes "claim_existing env now ws_id user_input rid path existing st = Inr (st', c)"
  shows "\<not> sc_should_execute c" and "registered st p \<Longrightarrow> registered st' p"
proof -
  have "\<not> sc_should_execute c \<and> (registered st p \<longrightarrow> registered st' p)"
  proof (cases "gets existing ''input_sha256'' \<noteq> [] \<and> gets existing ''input_sha256'' \<noteq> request_input_sha256 env user_input")
    case True
    with assms show ?thesis by (auto simp: claim_existing_def projected_claim_def)
  next
    case False
    note eq = assms [unfolded claim_existing_def Let_def if_not_P [OF False]]
    from eq obtain folded where f: "reconcile_running_request_record now ws_id rid existing (sn_jobs st) = Inr folded" by auto
    show ?thesis
    proof (cases folded)
      case None
      with eq f show ?thesis by (auto simp: projected_claim_def)
    next
      case (Some r)
      with eq f have st': "st' = st\<lparr>sn_registry := st_put path r (sn_registry st)\<rparr>" "c = projected_claim r" by auto
      have "r \<noteq> []" using f Some reconcile_not_Nil by blast
      with st' show ?thesis by (simp add: projected_claim_def registered_def)
    qed
  qed
  then show "\<not> sc_should_execute c" "registered st p \<Longrightarrow> registered st' p" by blast+
qed

lemma claim_existing_jobs:
  assumes "claim_existing env now ws_id user_input rid path existing st = Inr (st', c)"
  shows "sn_jobs st' = sn_jobs st"
proof (cases "gets existing ''input_sha256'' \<noteq> [] \<and> gets existing ''input_sha256'' \<noteq> request_input_sha256 env user_input")
  case True
  with assms show ?thesis by (auto simp: claim_existing_def)
next
  case False
  from assms [unfolded claim_existing_def Let_def if_not_P [OF False]] show ?thesis
    by (auto split: option.splits)
qed

lemma first_running_conflict:
  "first_running_turn ws_id session_id db js = Inr (Some a) \<Longrightarrow>
     \<not> sc_should_execute a \<and> sc_status a = ''conflict'' \<and> sc_error a = ''session_turn_in_progress''"
  by (induction js) (auto simp: Let_def split: if_splits option.splits)

lemma claim_new_cases:
  assumes "claim_new env now new_id ws_id session_id user_input rid path st = Inr (st', c)"
  obtains (conflict) "st' = st" "running_session_turn env ws_id session_id (sn_jobs st) = Inr (Some c)" "\<not> sc_should_execute c"
      "sc_status c = ''conflict''"
  | (unavailable) jobs where "running_session_turn env ws_id session_id (sn_jobs st) = Inr None"
      "st' = st\<lparr>sn_jobs := jobs\<rparr>" "\<not> sc_should_execute c"
  | (granted) jobs job_id where "running_session_turn env ws_id session_id (sn_jobs st) = Inr None"
      "begin_session_turn_unlocked env now new_id ws_id session_id user_input rid (sn_jobs st) = Inr (jobs, job_id)"
      "job_id \<noteq> []" "c = SessionTurnClaim\<lparr>sc_job_id := job_id\<rparr>"
      "st' = \<lparr>sn_jobs = jobs, sn_registry = st_put path (new_request_record env now ws_id session_id user_input rid job_id) (sn_registry st)\<rparr>"
proof -
  note eq = assms [unfolded claim_new_def Let_def]
  from eq obtain active where a: "running_session_turn env ws_id session_id (sn_jobs st) = Inr active" by auto
  show ?thesis
  proof (cases active)
    case (Some x)
    with a have "first_running_turn ws_id session_id (sn_jobs st) (list_jobs (te_session_exists env) ws_id [] [] 500 (sn_jobs st)) = Inr (Some x)"
      by (auto simp: running_session_turn_def)
    with first_running_conflict conflict eq a Some show ?thesis by fastforce
  next
    case None
    note eq2 = eq [unfolded a None rbind_simps option.case]
    from eq2 obtain jobs job_id where
      b: "begin_session_turn_unlocked env now new_id ws_id session_id user_input rid (sn_jobs st) = Inr (jobs, job_id)" by auto
    note eq3 = eq2 [unfolded b rbind_simps prod.case]
    show ?thesis
    proof (cases "job_id = []")
      case True
      with eq3 unavailable [OF a [unfolded None], of jobs] show ?thesis by auto
    next
      case False
      with eq3 granted [OF a [unfolded None] b False] show ?thesis by (cases st) auto
    qed
  qed
qed

lemma claim_new_keeps:
  assumes "claim_new env now new_id ws_id session_id user_input rid path st = Inr (st', c)"
  shows "sc_should_execute c \<Longrightarrow> registered st' path" and "registered st p \<Longrightarrow> registered st' p"
proof -
  have "(sc_should_execute c \<longrightarrow> registered st' path) \<and> (registered st p \<longrightarrow> registered st' p)"
    using assms
  proof (cases rule: claim_new_cases)
    case (granted jobs job_id)
    then show ?thesis by (simp add: registered_def new_request_record_def)
  qed (simp_all add: registered_def)
  then show "sc_should_execute c \<Longrightarrow> registered st' path" "registered st p \<Longrightarrow> registered st' p" by blast+
qed

text \<open>The three ways through a claim.\<close>

lemma claim_cases:
  assumes "claim_session_turn env now new_id ws_id session_id user_input request_id st = Inr (st', c)"
  obtains (anonymous) "session_id = [] \<or> py_strip request_id = []" "sn_registry st' = sn_registry st"
  | (known) st1 path where "session_id \<noteq> []" "py_strip request_id \<noteq> []"
      "prune_request_registry env now ws_id session_id st = Inr st1"
      "request_registry_path env ws_id session_id (py_strip request_id) = Inr path"
      "registered st1 path"
      "claim_existing env now ws_id user_input (py_strip request_id) path (read_request_record path (sn_registry st1)) st1 = Inr (st', c)"
  | (fresh) st1 path where "session_id \<noteq> []" "py_strip request_id \<noteq> []"
      "prune_request_registry env now ws_id session_id st = Inr st1"
      "request_registry_path env ws_id session_id (py_strip request_id) = Inr path"
      "\<not> registered st1 path"
      "claim_new env now new_id ws_id session_id user_input (py_strip request_id) path st1 = Inr (st', c)"
proof (cases "session_id = [] \<or> py_strip request_id = []")
  case True
  with assms have "sn_registry st' = sn_registry st"
    by (auto simp: claim_session_turn_def Let_def split: if_splits option.splits)
  with True anonymous show ?thesis by blast
next
  case False
  then have ne: "session_id \<noteq> []" "py_strip request_id \<noteq> []" by auto
  note eq0 = assms [unfolded claim_session_turn_def Let_def if_not_P [OF ne(1)] if_not_P [OF ne(2)] rbind_eq_Inr]
  from eq0 obtain st1 path where eq: "prune_request_registry env now ws_id session_id st = Inr st1"
    "request_registry_path env ws_id session_id (py_strip request_id) = Inr path"
    "(if read_request_record path (sn_registry st1) \<noteq> []
      then claim_existing env now ws_id user_input (py_strip request_id) path (read_request_record path (sn_registry st1)) st1
      else claim_new env now new_id ws_id session_id user_input (py_strip request_id) path st1) = Inr (st', c)"
    by blast
  show ?thesis
  proof (cases "registered st1 path")
    case True
    with eq known [OF ne eq(1,2)] show ?thesis by (simp add: registered_def)
  next
    case False
    with eq fresh [OF ne eq(1,2)] show ?thesis by (simp add: registered_def)
  qed
qed

lemma claim_keeps:
  assumes "claim_session_turn env now new_id ws_id session_id user_input request_id st = Inr (st', c)" "registered st p"
  shows "registered st' p \<or> pruned_away env now ws_id session_id st p"
  using assms(1)
proof (cases rule: claim_cases)
  case anonymous
  with assms(2) show ?thesis by (simp add: registered_def)
next
  case (known st1 path)
  with prune_keeps_or_forgets [OF known(3) assms(2)] claim_existing_keeps(2) [OF known(6), of p] show ?thesis by blast
next
  case (fresh st1 path)
  with prune_keeps_or_forgets [OF fresh(3) assms(2)] claim_new_keeps(2) [OF fresh(6), of p] show ?thesis by blast
qed

lemma finish_record_Some:
  assumes "finish_request_record env now ws_id session_id rid job_id run_id trace_id ok error st = Inr (Some st')"
  obtains path r where "r \<noteq> []" "st' = st\<lparr>sn_registry := st_put path r (sn_registry st)\<rparr>"
proof -
  from assms obtain path where path: "request_registry_path env ws_id session_id rid = Inr path"
    unfolding finish_request_record_def rbind_eq_Inr by blast
  note eq = assms [unfolded finish_request_record_def path rbind_simps Let_def]
  have "\<exists>r. r \<noteq> [] \<and> st' = st\<lparr>sn_registry := st_put path r (sn_registry st)\<rparr>"
  proof (cases "read_request_record path (sn_registry st) = []")
    case True
    with eq show ?thesis by simp
  next
    case False
    note eq2 = eq [unfolded if_not_P [OF False]]
    show ?thesis
    proof (cases "job_id \<noteq> [] \<and> gets (read_request_record path (sn_registry st)) ''job_id'' \<noteq> job_id")
      case True
      with eq2 show ?thesis by simp
    next
      case False
      note eq3 = eq2 [unfolded if_not_P [OF False] rbind_eq_Inr]
      from eq3 obtain x where "st' = st\<lparr>sn_registry := st_put path (dupdate (read_request_record path (sn_registry st)) x) (sn_registry st)\<rparr>"
        by blast
      with dupdate_not_Nil [OF disjI1 [OF \<open>read_request_record path (sn_registry st) \<noteq> []\<close>]] show ?thesis by blast
    qed
  qed
  with that show ?thesis by blast
qed

lemma finish_record_keeps:
  "finish_request_record env now ws_id session_id rid job_id run_id trace_id ok error st = Inr (Some st') \<Longrightarrow>
     registered st p \<Longrightarrow> registered st' p"
  by (erule finish_record_Some) (simp add: registered_def)

lemma finish_record_jobs:
  "finish_request_record env now ws_id session_id rid job_id run_id trace_id ok error st = Inr (Some st') \<Longrightarrow> sn_jobs st' = sn_jobs st"
  by (erule finish_record_Some) simp

lemma finish_jobs:
  assumes "finish_claimed_session_turn env now ws_id session_id request_id job_id run_id trace_id ok error st = Inr st'"
  shows "sn_jobs st' = sn_jobs st"
proof (cases "session_id = [] \<or> py_strip request_id = []")
  case True
  with assms show ?thesis by (auto simp: finish_claimed_session_turn_def)
next
  case ne: False
  from assms [unfolded finish_claimed_session_turn_def Let_def if_not_P [OF ne] rbind_eq_Inr]
  obtain st1 written where eq: "prune_request_registry env now ws_id session_id st = Inr st1"
    "finish_request_record env now ws_id session_id (py_strip request_id) job_id run_id trace_id ok error st1 = Inr written"
    "(case written of None \<Rightarrow> Inr st1 | Some st2 \<Rightarrow> prune_request_registry env now ws_id session_id st2) = Inr st'"
    by blast
  show ?thesis
  proof (cases written)
    case None
    with eq(3) prune_jobs [OF eq(1)] show ?thesis by simp
  next
    case (Some st2)
    with eq(3) have "prune_request_registry env now ws_id session_id st2 = Inr st'" by simp
    from prune_jobs [OF this] finish_record_jobs [OF eq(2) [unfolded Some]] prune_jobs [OF eq(1)] show ?thesis by simp
  qed
qed

lemma finish_keeps:
  assumes "finish_claimed_session_turn env now ws_id session_id request_id job_id run_id trace_id ok error st = Inr st'"
    and "registered st p"
  shows "registered st' p
    \<or> forgets env (now, FinishTurn ws_id session_id request_id job_id run_id trace_id ok error) st p"
proof (cases "session_id = [] \<or> py_strip request_id = []")
  case True
  with assms show ?thesis by (auto simp: finish_claimed_session_turn_def)
next
  case False
  then have ne: "\<not> (session_id = [] \<or> py_strip request_id = [])" by blast
  from assms(1) [unfolded finish_claimed_session_turn_def Let_def if_not_P [OF ne] rbind_eq_Inr]
  obtain st1 written where eq: "prune_request_registry env now ws_id session_id st = Inr st1"
    "finish_request_record env now ws_id session_id (py_strip request_id) job_id run_id trace_id ok error st1 = Inr written"
    "(case written of None \<Rightarrow> Inr st1 | Some st2 \<Rightarrow> prune_request_registry env now ws_id session_id st2) = Inr st'"
    by blast
  from prune_keeps_or_forgets [OF eq(1) assms(2)] show ?thesis
  proof
    assume r1: "registered st1 p"
    show ?thesis
    proof (cases written)
      case None
      with eq(3) r1 show ?thesis by simp
    next
      case (Some st2)
      from finish_record_keeps [OF eq(2) [unfolded Some] r1] have "registered st2 p" .
      from prune_keeps_or_forgets [OF eq(3) [unfolded Some option.case] this] eq(1) eq(2) [unfolded Some]
      show ?thesis unfolding forgets_def snd_conv fst_conv turn_op.case by blast
    qed
  qed (simp add: forgets_def)
qed

lemma turn_step_keeps:
  assumes "registered st p"
  shows "registered (turn_step env s st) p \<or> forgets env s st p"
proof (cases "exec_turn_op env (fst s) (snd s) st")
  case (Inl e)
  with assms show ?thesis by (simp add: turn_step_def)
next
  case (Inr st')
  then have after: "turn_step env s st = st'" by (simp add: turn_step_def)
  show ?thesis
  proof (cases "snd s")
    case (ClaimTurn n w sid u r)
    with Inr obtain c where "claim_session_turn env (fst s) n w sid u r st = Inr (st', c)"
      by (auto simp: exec_turn_op_def)
    from claim_keeps [OF this assms] show ?thesis by (simp add: after forgets_def ClaimTurn)
  next
    case (FinishTurn w sid r j run t ok e)
    with Inr have "finish_claimed_session_turn env (fst s) w sid r j run t ok e st = Inr st'" by (simp add: exec_turn_op_def)
    from finish_keeps [OF this assms] FinishTurn after show ?thesis by (metis prod.collapse)
  next
    case (PruneTurn w sid)
    with Inr have "prune_request_registry env (fst s) w sid st = Inr st'" by (simp add: exec_turn_op_def)
    from prune_keeps_or_forgets [OF this assms] show ?thesis by (simp add: after forgets_def PruneTurn)
  next
    case (JobsBecome jobs)
    with Inr assms show ?thesis by (auto simp: after exec_turn_op_def registered_def)
  qed
qed

lemma grant_claim:
  assumes "grants env s st p"
  obtains n w sid u r st' c where "snd s = ClaimTurn n w sid u r" "sid \<noteq> []" "py_strip r \<noteq> []"
    "request_registry_path env w sid (py_strip r) = Inr p"
    "claim_session_turn env (fst s) n w sid u r st = Inr (st', c)" "sc_should_execute c"
proof (cases "snd s")
  case (ClaimTurn n w sid u r)
  note g = assms [unfolded grants_def ClaimTurn turn_op.case]
  show ?thesis
  proof (cases "claim_session_turn env (fst s) n w sid u r st")
    case (Inl e)
    with g show ?thesis by simp
  next
    case (Inr x)
    with g that [OF ClaimTurn, of "fst x" "snd x"] show ?thesis by (simp add: case_prod_beta)
  qed
qed (use assms in \<open>simp_all add: grants_def\<close>)

lemma grant_fresh:
  assumes "grants env s st p"
  shows "registered (turn_step env s st) p" and "registered st p \<Longrightarrow> forgets env s st p"
proof -
  from assms obtain n w sid u r st' c where g: "snd s = ClaimTurn n w sid u r" "sid \<noteq> []" "py_strip r \<noteq> []"
    "request_registry_path env w sid (py_strip r) = Inr p"
    "claim_session_turn env (fst s) n w sid u r st = Inr (st', c)" "sc_should_execute c"
    by (rule grant_claim)
  have after: "turn_step env s st = st'" by (simp add: turn_step_def exec_turn_op_def g(1,5))
  from g(5) show "registered (turn_step env s st) p"
  proof (cases rule: claim_cases)
    case (fresh st1 path)
    from claim_new_keeps(1) [OF fresh(6)] g(4,6) fresh(4) after show ?thesis by simp
  qed (use g(2,3,6) claim_existing_keeps(1) in blast)+
  assume reg: "registered st p"
  from g(5) show "forgets env s st p"
  proof (cases rule: claim_cases)
    case (fresh st1 path)
    with g(4) have "\<not> registered st1 p" by simp
    with prune_keeps_or_forgets [OF fresh(3) reg] show ?thesis by (simp add: forgets_def g(1))
  qed (use g(2,3,6) claim_existing_keeps(1) in blast)+
qed

lemma history_keeps:
  assumes "registered st p"
  shows "registered (fold (turn_step env) steps st) p
    \<or> (\<exists>before s after. steps = before @ s # after \<and> forgets env s (fold (turn_step env) before st) p)"
  using assms
proof (induction steps arbitrary: st)
  case Nil
  then show ?case by simp
next
  case (Cons s steps)
  from turn_step_keeps [OF Cons.prems, of env s] show ?case
  proof
    assume "registered (turn_step env s st) p"
    from Cons.IH [OF this] show ?thesis
    proof
      assume "\<exists>before s' after. steps = before @ s' # after \<and> forgets env s' (fold (turn_step env) before (turn_step env s st)) p"
      then obtain before s' after where b: "steps = before @ s' # after"
        "forgets env s' (fold (turn_step env) before (turn_step env s st)) p" by blast
      then have "s # steps = (s # before) @ s' # after \<and> forgets env s' (fold (turn_step env) (s # before) st) p" by simp
      then show ?thesis by blast
    qed simp
  next
    assume "forgets env s st p"
    then have "s # steps = [] @ s # steps \<and> forgets env s (fold (turn_step env) [] st) p" by simp
    then show ?thesis by blast
  qed
qed

section \<open>One execution right per request\<close>

text \<open>C17: A client request is executed at most once while its record is kept: whenever two claims of the
  same request (workspace, session and digest of the request id) are both given the right to execute,
  in a history of any other claims, finished turns and changes of the job store, some pruning after
  the first claim has forgotten the record, and that record had ended and was older than seven days
  or crowded out by 256 newer terminal records of the session.\<close>

theorem execution_right_is_unique:
  assumes "grants env s1 st path"
    and "grants env s2 (fold (turn_step env) steps (turn_step env s1 st)) path"
  shows "\<exists>before s after. steps @ [s2] = before @ s # after
    \<and> forgets env s (fold (turn_step env) before (turn_step env s1 st)) path"
  using history_keeps [OF grant_fresh(1) [OF assms(1)], of env steps]
proof
  assume "registered (fold (turn_step env) steps (turn_step env s1 st)) path"
  from grant_fresh(2) [OF assms(2) this] show ?thesis by blast
next
  assume "\<exists>before s after. steps = before @ s # after \<and> forgets env s (fold (turn_step env) before (turn_step env s1 st)) path"
  then obtain before s after where "steps @ [s2] = before @ s # (after @ [s2])"
    "forgets env s (fold (turn_step env) before (turn_step env s1 st)) path" by auto
  then show ?thesis by blast
qed

text \<open>A small installation whose session has an idle job; a time stamp is a text with one letter for each day.\<close>

definition demo_turn_env :: turn_env where
  "demo_turn_env =
     \<lparr>te_sha256 = (\<lambda>s. CHR ''h'' # s), te_from_iso = (\<lambda>s. Some (86400000000 * int (length s))), te_session_exists = (\<lambda>_ _. True),
      te_session = (\<lambda>_ _. []), te_run = (\<lambda>_ _. [])\<rparr>"

definition demo_job :: "string \<Rightarrow> pydict" where
  "demo_job ws =
     dupdate (JobRecord ''0'' ''j1'')
       [(''workspace_id'', PStr ws), (''payload'', PDict [(''session_id'', PStr ''s1'')]), (''status'', PStr ''running'')]"

definition demo_jobs :: "string \<Rightarrow> job_db" where
  "demo_jobs ws = \<lparr>jd_jobs = [((ws, ''j1''), demo_job ws)], jd_events = [], jd_logs = [], jd_index = []\<rparr>"

definition demo_db :: "string \<Rightarrow> turn_db" where
  "demo_db ws = \<lparr>sn_jobs = demo_jobs ws, sn_registry = []\<rparr>"

definition demo_claim :: "string \<Rightarrow> string \<times> turn_op" where
  "demo_claim now = (now, ClaimTurn ''j2'' ''w1'' ''s1'' ''hi'' ''r1'')"

definition demo_between :: "(string \<times> turn_op) list" where
  "demo_between = [(''t'', JobsBecome (demo_jobs ''w1'')), (''t'', FinishTurn ''w1'' ''s1'' ''r1'' ''j1'' ''run1'' ''t1'' True [])]"

theorem execution_right_is_unique_witness:
  "\<exists>before s after. demo_between @ [demo_claim ''ttttttttt''] = before @ s # after
     \<and> forgets demo_turn_env s (fold (turn_step demo_turn_env) before (turn_step demo_turn_env (demo_claim ''t'') (demo_db ''w1'')))
         (''w1'', ''s1'', ''hr1'')"
proof (rule execution_right_is_unique)
  show "grants demo_turn_env (demo_claim ''t'') (demo_db ''w1'') (''w1'', ''s1'', ''hr1'')" by code_simp
  show "grants demo_turn_env (demo_claim ''ttttttttt'')
      (fold (turn_step demo_turn_env) demo_between (turn_step demo_turn_env (demo_claim ''t'') (demo_db ''w1''))) (''w1'', ''s1'', ''hr1'')"
    by code_simp
qed

text \<open>A repeated request is answered from its record: nothing is executed, the job store does not
  change, and the answer names the recorded job; a request id that is reused for a different message
  is a conflict and changes nothing beyond the pruning.\<close>

theorem repeated_request_is_answered:
  assumes "claim_session_turn env now new_id ws_id session_id user_input request_id st = Inr (st', c)"
    and "session_id \<noteq> []" "py_strip request_id \<noteq> []"
    and "request_registry_path env ws_id session_id (py_strip request_id) = Inr path"
    and "prune_request_registry env now ws_id session_id st = Inr st1" "registered st1 path"
  shows "\<not> sc_should_execute c \<and> sn_jobs st' = sn_jobs st
    \<and> sc_job_id c = gets (read_request_record path (sn_registry st1)) ''job_id''
    \<and> (gets (read_request_record path (sn_registry st1)) ''input_sha256'' \<notin> {[], te_sha256 env user_input} \<longrightarrow>
        sc_status c = ''conflict'' \<and> sc_error c = ''client_request_payload_mismatch'' \<and> st' = st1)"
  using assms(1)
proof (cases rule: claim_cases)
  case anonymous
  with assms(2,3) show ?thesis by blast
next
  case (fresh st1' path')
  with assms(4-6) show ?thesis by simp
next
  case (known st1' path')
  then have eq: "claim_existing env now ws_id user_input (py_strip request_id) path (read_request_record path (sn_registry st1)) st1 = Inr (st', c)"
    using assms(4,5) by simp
  have jobs1: "sn_jobs st1 = sn_jobs st" by (rule prune_jobs [OF assms(5)])
  let ?r = "read_request_record path (sn_registry st1)"
  show ?thesis
  proof (cases "gets ?r ''input_sha256'' \<noteq> [] \<and> gets ?r ''input_sha256'' \<noteq> request_input_sha256 env user_input")
    case True
    with eq jobs1 show ?thesis by (auto simp: claim_existing_def projected_claim_def Let_def request_input_sha256_def)
  next
    case False
    note eq2 = eq [unfolded claim_existing_def Let_def if_not_P [OF False]]
    from eq2 obtain folded where f: "reconcile_running_request_record now ws_id (py_strip request_id) ?r (sn_jobs st1) = Inr folded" by auto
    show ?thesis
    proof (cases folded)
      case None
      with eq2 f False jobs1 show ?thesis by (auto simp: projected_claim_def request_input_sha256_def)
    next
      case (Some r)
      with eq2 f have "st' = st1\<lparr>sn_registry := st_put path r (sn_registry st1)\<rparr>" "c = projected_claim r" by auto
      moreover have "gets r ''job_id'' = gets ?r ''job_id''"
        using reconcile_keeps_job_id f Some by blast
      ultimately show ?thesis using False jobs1 by (auto simp: projected_claim_def request_input_sha256_def)
    qed
  qed
qed
text \<open>The installation while the first turn runs.\<close>

definition demo_running :: "string \<Rightarrow> string \<Rightarrow> turn_db" where
  "demo_running ws rid =
     \<lparr>sn_jobs = \<lparr>jd_jobs = [((ws, ''j1''), dupdate (demo_job ws)
          [(''metadata'', PDict [(''active_turn'', PDict (new_active_turn ''t'' ''s1'' rid))]),
           (''progress'', PDict (stage_progress ''t'' 1 (label_ongoing @ label_understand) label_understand)),
           (''updated_at'', PStr ''t'')])], jd_events = [], jd_logs = [], jd_index = []\<rparr>,
      sn_registry = [((ws, ''s1'', CHR ''h'' # rid), new_request_record demo_turn_env ''t'' ws ''s1'' ''hi'' rid ''j1'')]\<rparr>"

lemma demo_claimed:
  "claim_session_turn demo_turn_env ''t'' ''j2'' ''w1'' ''s1'' ''hi'' ''r1'' (demo_db ''w1'')
     = Inr (demo_running ''w1'' ''r1'', SessionTurnClaim\<lparr>sc_job_id := ''j1''\<rparr>)"
  by code_simp

theorem repeated_request_is_answered_witness:
  "\<exists>st' c. claim_session_turn demo_turn_env ''tt'' ''j2'' ''w1'' ''s1'' ''other'' ''r1'' (demo_running ''w1'' ''r1'') = Inr (st', c)
     \<and> \<not> sc_should_execute c \<and> sc_job_id c = ''j1'' \<and> sc_error c = ''client_request_payload_mismatch''"
proof -
  let ?st = "demo_running ''w1'' ''r1''"
  have pr: "prune_request_registry demo_turn_env ''tt'' ''w1'' ''s1'' ?st = Inr ?st" by code_simp
  have pa: "request_registry_path demo_turn_env ''w1'' ''s1'' (py_strip ''r1'') = Inr (''w1'', ''s1'', ''hr1'')" by code_simp
  have reg: "registered ?st (''w1'', ''s1'', ''hr1'')" by code_simp
  have cl: "claim_session_turn demo_turn_env ''tt'' ''j2'' ''w1'' ''s1'' ''other'' ''r1'' ?st
    = Inr (?st, (projected_claim (new_request_record demo_turn_env ''t'' ''w1'' ''s1'' ''hi'' ''r1'' ''j1''))
        \<lparr>sc_status := ''conflict'', sc_error := ''client_request_payload_mismatch''\<rparr>)" by code_simp
  have ne: "''s1'' \<noteq> []" "py_strip ''r1'' \<noteq> []" by code_simp+
  have own: "gets (read_request_record (''w1'', ''s1'', ''hr1'') (sn_registry ?st)) ''job_id'' = ''j1''"
    "gets (read_request_record (''w1'', ''s1'', ''hr1'') (sn_registry ?st)) ''input_sha256'' \<notin> {[], te_sha256 demo_turn_env ''other''}"
    by code_simp+
  from repeated_request_is_answered [OF cl ne pa pr reg] own cl show ?thesis by auto
qed

section \<open>One turn at a time\<close>

text \<open>The job \<open>job_id\<close> is listed for the session and runs a turn of it.\<close>

definition session_runs_turn :: "turn_env \<Rightarrow> job_db \<Rightarrow> string \<Rightarrow> string \<Rightarrow> string \<Rightarrow> bool" where
  "session_runs_turn env db ws_id session_id job_id \<longleftrightarrow>
     (case st_get (jd_jobs db) (ws_id, job_id) of
        None \<Rightarrow> False
      | Some d \<Rightarrow>
          let rec = load_job d in
          job_path ws_id job_id = Inr (ws_id, job_id) \<and> job_id \<noteq> [] \<and> job_file_listed ws_id job_id
          \<and> job_listed (te_session_exists env) ws_id [] [] rec
          \<and> dget rec ''job_id'' = PStr job_id \<and> clean_text job_id = job_id
          \<and> dget (as_dict (dget rec ''payload'')) ''session_id'' = PStr session_id \<and> clean_text session_id = session_id
          \<and> job_status rec = ''running''
          \<and> gets (as_dict (dget (as_dict (dget rec ''metadata'')) ''active_turn'')) ''status'' = ''running'')"

definition workspace_jobs :: "string \<Rightarrow> job_db \<Rightarrow> nat" where
  "workspace_jobs ws_id db = length (filter (\<lambda>((ws, _), _). ws = ws_id) (jd_jobs db))"

lemma session_id_key: "\<not> job_sensitive_key ''session_id''" "\<not> job_path_key ''session_id''"
  by code_simp+

lemma listed_summary:
  assumes "st_get (jd_jobs db) (ws_id, job_id) = Some d" "job_file_listed ws_id job_id"
    and "job_listed exists ws_id [] [] (load_job d)" "workspace_jobs ws_id db \<le> n"
  shows "sanitize_record (load_job d) \<in> set (list_jobs exists ws_id [] [] n db)"
proof -
  let ?fs = "filter (\<lambda>((ws, job_id), _). ws = ws_id \<and> job_file_listed ws job_id) (jd_jobs db)"
  let ?ls = "filter (job_listed exists ws_id [] []) (map (load_job \<circ> snd) ?fs)"
  have sub: "?fs = filter (\<lambda>((ws, job_id), _). job_file_listed ws job_id) (filter (\<lambda>((ws, _), _). ws = ws_id) (jd_jobs db))"
    unfolding filter_filter by (rule filter_cong [OF refl]) auto
  have "length ?fs \<le> n"
    unfolding sub using assms(4) [unfolded workspace_jobs_def] by (rule le_trans [OF length_filter_le])
  then have "length ?ls \<le> n" using length_filter_le [of "job_listed exists ws_id [] []" "map (load_job \<circ> snd) ?fs", unfolded length_map]
    by linarith
  then have all: "list_jobs exists ws_id [] [] n db = sorted_desc record_time (map sanitize_record ?ls)"
    by (simp add: list_jobs_def)
  have "((ws_id, job_id), d) \<in> set (jd_jobs db)"
    using assms(1) by (simp add: st_get_def map_of_SomeD)
  then have "load_job d \<in> set ?ls" using assms(2,3) by force
  then show ?thesis unfolding all set_sorted_desc by simp
qed

lemma first_running_found:
  assumes "s \<in> set js" "gets (as_dict (dget s ''payload'')) ''session_id'' = session_id"
    and "get_job ws_id (gets s ''job_id'') db = Inr (Some rec)" "job_status rec = ''running''"
    and "gets (as_dict (dget (as_dict (dget rec ''metadata'')) ''active_turn'')) ''status'' = ''running''"
  shows "first_running_turn ws_id session_id db js \<noteq> Inr None"
  using assms(1)
proof (induction js)
  case (Cons x js)
  show ?case
  proof (cases "x = s")
    case True
    with assms(2-5) show ?thesis by (simp add: Let_def)
  next
    case False
    with Cons have ih: "first_running_turn ws_id session_id db js \<noteq> Inr None" by simp
    show ?thesis
    proof (cases "gets (as_dict (dget x ''payload'')) ''session_id'' = session_id")
      case True
      then show ?thesis using ih
        by (cases "get_job ws_id (gets x ''job_id'') db") (auto simp: Let_def split: option.splits)
    qed (use ih in simp)
  qed
qed simp

lemma running_turn_found:
  assumes "session_runs_turn env db ws_id session_id job_id" "workspace_jobs ws_id db \<le> 500"
  shows "running_session_turn env ws_id session_id db \<noteq> Inr None"
proof -
  from assms(1) obtain d where d: "st_get (jd_jobs db) (ws_id, job_id) = Some d"
    and path: "job_path ws_id job_id = Inr (ws_id, job_id)" "job_id \<noteq> []" "job_file_listed ws_id job_id"
    and listed: "job_listed (te_session_exists env) ws_id [] [] (load_job d)"
    and jid: "dget (load_job d) ''job_id'' = PStr job_id" "clean_text job_id = job_id"
    and sid: "dget (as_dict (dget (load_job d) ''payload'')) ''session_id'' = PStr session_id" "clean_text session_id = session_id"
    and run: "job_status (load_job d) = ''running''"
      "gets (as_dict (dget (as_dict (dget (load_job d) ''metadata'')) ''active_turn'')) ''status'' = ''running''"
    by (auto simp: session_runs_turn_def Let_def split: option.splits)
  let ?s = "sanitize_record (load_job d)"
  have fields: "''job_id'' \<in> set job_fields" "''payload'' \<in> set job_fields" by code_simp+
  have mem: "?s \<in> set (list_jobs (te_session_exists env) ws_id [] [] 500 db)"
    by (rule listed_summary [OF d path(3) listed assms(2)])
  have "gets ?s ''job_id'' = job_id"
    using jid by (intro gets_eq_of_dget) (simp add: dget_sanitize_field [OF fields(1)])
  then have get: "get_job ws_id (gets ?s ''job_id'') db = Inr (Some (load_job d))"
    using path d by (simp add: get_job_def)
  from sid(1) obtain p where p: "dget (load_job d) ''payload'' = PDict p" "dget p ''session_id'' = PStr session_id"
    by (cases "dget (load_job d) ''payload''") auto
  then have "as_dict (dget ?s ''payload'') = sanitize_record p"
    by (simp only: dget_sanitize_field [OF fields(2)] sanitize_record_def [of p])
  then have "gets (as_dict (dget ?s ''payload'')) ''session_id'' = session_id"
    using p(2) sid(2) by (intro gets_eq_of_dget) (simp add: dget_sanitize [OF session_id_key])
  from first_running_found [OF mem this get run] show ?thesis by (auto simp: running_session_turn_def)
qed

text \<open>The claim of a session in which a turn runs.\<close>

lemma claim_while_running:
  assumes "session_runs_turn env (sn_jobs st) ws_id session_id job_id" "workspace_jobs ws_id (sn_jobs st) \<le> 500"
    and "session_id \<noteq> []"
    and "claim_session_turn env now new_id ws_id session_id user_input request_id st = Inr (st', c)"
  shows "\<not> sc_should_execute c \<and> sn_jobs st' = sn_jobs st"
proof (cases "py_strip request_id = []")
  case True
  note found = running_turn_found [OF assms(1,2)]
  have ne: "\<not> session_id = []" using assms(3) by simp
  note eq = assms(4) [unfolded claim_session_turn_def Let_def if_not_P [OF ne] if_P [OF True] rbind_eq_Inr]
  from eq obtain active where a: "running_session_turn env ws_id session_id (sn_jobs st) = Inr active"
    "(case active of Some claim \<Rightarrow> Inr (st, claim)
      | None \<Rightarrow> rbind (begin_session_turn_unlocked env now new_id ws_id session_id user_input [] (sn_jobs st))
          (\<lambda>(jobs, job_id). Inr (st\<lparr>sn_jobs := jobs\<rparr>, SessionTurnClaim\<lparr>sc_job_id := job_id\<rparr>))) = Inr (st', c)"
    by blast
  from a(1) found obtain claim where cl: "active = Some claim" by (cases active) auto
  with a(1) have "\<not> sc_should_execute claim"
    using first_running_conflict by (auto simp: running_session_turn_def)
  with a(2) cl show ?thesis by simp
next
  case False
  from assms(4) show ?thesis
  proof (cases rule: claim_cases)
    case anonymous
    with assms(3) False show ?thesis by blast
  next
    case (known st1 path)
    have "sn_jobs st' = sn_jobs st1" using claim_existing_jobs [OF known(6)] .
    with claim_existing_keeps(1) [OF known(6)] prune_jobs [OF known(3)] show ?thesis by simp
  next
    case (fresh st1 path)
    have jobs: "sn_jobs st1 = sn_jobs st" by (rule prune_jobs [OF fresh(3)])
    from fresh(6) show ?thesis
    proof (cases rule: claim_new_cases)
      case conflict
      with jobs show ?thesis by simp
    qed (use running_turn_found [OF assms(1,2)] jobs in simp_all)
  qed
qed

text \<open>C18: One turn at a time: while a listed job of a session runs a turn, no claim for that session,
  with or without a request id, is given the right to execute, and no claim touches the job store (for
  workspaces of at most 500 jobs, the number the scan looks at).\<close>

theorem running_turn_excludes_others:
  assumes "session_runs_turn env (sn_jobs st) ws_id session_id job_id" "workspace_jobs ws_id (sn_jobs st) \<le> 500"
    and "session_id \<noteq> []"
    and "claim_session_turn env now new_id ws_id session_id user_input request_id st = Inr (st', c)"
  shows "\<not> sc_should_execute c \<and> sn_jobs st' = sn_jobs st"
  by (rule claim_while_running [OF assms])

lemma demo_runs: "session_runs_turn demo_turn_env (sn_jobs (demo_running ''w1'' ''r1'')) ''w1'' ''s1'' ''j1''"
  "workspace_jobs ''w1'' (sn_jobs (demo_running ''w1'' ''r1'')) \<le> 500"
  by code_simp+

theorem running_turn_excludes_others_witness:
  "\<exists>st' c. claim_session_turn demo_turn_env ''tt'' ''j2'' ''w1'' ''s1'' ''more'' ''r2'' (demo_running ''w1'' ''r1'') = Inr (st', c)
     \<and> \<not> sc_should_execute c \<and> sn_jobs st' = sn_jobs (demo_running ''w1'' ''r1'')"
proof -
  have "\<not> isl (claim_session_turn demo_turn_env ''tt'' ''j2'' ''w1'' ''s1'' ''more'' ''r2'' (demo_running ''w1'' ''r1''))"
    by code_simp
  then obtain st' c where c: "claim_session_turn demo_turn_env ''tt'' ''j2'' ''w1'' ''s1'' ''more'' ''r2'' (demo_running ''w1'' ''r1'') = Inr (st', c)"
    by (metis isl_def obj_sumE prod.exhaust_sel)
  from running_turn_excludes_others [OF demo_runs _ c] c show ?thesis by blast
qed

text \<open>C39: The error path of the HTTP endpoint finishes only the request record, and that never changes the
  job store: after it the session job still runs the failed turn, and every later claim of the session
  is refused until the job itself is changed.\<close>

theorem failed_http_turn_locks_session:
  assumes "session_runs_turn env (sn_jobs st) ws_id session_id job_id" "workspace_jobs ws_id (sn_jobs st) \<le> 500"
    and "session_id \<noteq> []"
    and "finish_claimed_session_turn env now ws_id session_id request_id job_id [] [] False error st = Inr st1"
    and "claim_session_turn env now' new_id ws_id session_id user_input request_id' st1 = Inr (st', c)"
  shows "\<not> sc_should_execute c \<and> session_runs_turn env (sn_jobs st') ws_id session_id job_id"
proof -
  have jobs: "sn_jobs st1 = sn_jobs st" by (rule finish_jobs [OF assms(4)])
  from claim_while_running [OF _ _ assms(3,5)] assms(1,2) show ?thesis by (simp add: jobs)
qed

theorem failed_http_turn_locks_session_witness:
  "\<exists>st1 st' c. finish_claimed_session_turn demo_turn_env ''tt'' ''w1'' ''s1'' ''r1'' ''j1'' [] [] False ''boom'' (demo_running ''w1'' ''r1'') = Inr st1
     \<and> claim_session_turn demo_turn_env ''ttt'' ''j2'' ''w1'' ''s1'' ''again'' ''r2'' st1 = Inr (st', c)
     \<and> \<not> sc_should_execute c"
proof -
  have "\<not> isl (rbind (finish_claimed_session_turn demo_turn_env ''tt'' ''w1'' ''s1'' ''r1'' ''j1'' [] [] False ''boom'' (demo_running ''w1'' ''r1''))
      (claim_session_turn demo_turn_env ''ttt'' ''j2'' ''w1'' ''s1'' ''again'' ''r2''))"
    by code_simp
  then obtain x where "rbind (finish_claimed_session_turn demo_turn_env ''tt'' ''w1'' ''s1'' ''r1'' ''j1'' [] [] False ''boom'' (demo_running ''w1'' ''r1''))
      (claim_session_turn demo_turn_env ''ttt'' ''j2'' ''w1'' ''s1'' ''again'' ''r2'') = Inr x" by (auto simp: isl_def intro: sum.exhaust)
  then obtain st1 st' c where c:
    "finish_claimed_session_turn demo_turn_env ''tt'' ''w1'' ''s1'' ''r1'' ''j1'' [] [] False ''boom'' (demo_running ''w1'' ''r1'') = Inr st1"
    "claim_session_turn demo_turn_env ''ttt'' ''j2'' ''w1'' ''s1'' ''again'' ''r2'' st1 = Inr (st', c)"
    unfolding rbind_eq_Inr by (cases x) blast
  from failed_http_turn_locks_session [OF demo_runs _ c] c show ?thesis by blast
qed

section \<open>Histories in which exclusion fails\<close>

text \<open>The WebSocket endpoint closes a turn in three steps: the snapshot, the request record, and then the run
  is attached to the session job. Between the second and the third the session is free.\<close>

definition demo_overlap :: turn_db where
  "demo_overlap =
     \<lparr>sn_jobs = sn_jobs (demo_running ''w1'' ''r2''),
      sn_registry =
        [((''w1'', ''s1'', ''hr1''),
          dupdate (new_request_record demo_turn_env ''t'' ''w1'' ''s1'' ''hi'' ''r1'' ''j1'')
            [(''status'', PStr ''succeeded''), (''updated_at'', PStr ''t''), (''finished_at'', PStr ''t''), (''run_id'', PStr ''run1''),
             (''trace_id'', PStr ''t1''), (''error'', PStr [])]),
         ((''w1'', ''s1'', ''hr2''), new_request_record demo_turn_env ''t'' ''w1'' ''s1'' ''hi'' ''r2'' ''j1'')]\<rparr>"

lemma second_turn_starts:
  "rbind (finish_session_turn_snapshot ''t'' ''w1'' ''j1'' ''r1'' ''run1'' ''t1'' True [] [] (sn_jobs (demo_running ''w1'' ''r1''))) (\<lambda>jobs.
   rbind (finish_claimed_session_turn demo_turn_env ''t'' ''w1'' ''s1'' ''r1'' ''j1'' ''run1'' ''t1'' True []
            ((demo_running ''w1'' ''r1'')\<lparr>sn_jobs := jobs\<rparr>))
   (claim_session_turn demo_turn_env ''t'' ''j2'' ''w1'' ''s1'' ''hi'' ''r2''))
     = Inr (demo_overlap, SessionTurnClaim\<lparr>sc_job_id := ''j1''\<rparr>)"
  by code_simp

lemma third_turn_starts:
  "map_sum id (\<lambda>(st, c). (sc_should_execute c, gets (read_request_record (''w1'', ''s1'', ''hr2'') (sn_registry st)) ''status''))
     (rbind (attach_run_to_session_job demo_turn_env ''t'' ''j2'' ''w1'' ''s1'' ''run1'' 0 ''hi'' True [] (sn_jobs demo_overlap)) (\<lambda>(jobs, _).
      claim_session_turn demo_turn_env ''tt'' ''j2'' ''w1'' ''s1'' ''hello'' ''r3'' (demo_overlap\<lparr>sn_jobs := jobs\<rparr>)))
   = Inr (True, ''succeeded'')"
  by code_simp
text \<open>C40: The attachment of a finished run can end a later turn that is still running: after the first
  request is closed and before its run is attached, a second request is given the right to execute;
  the attachment then marks the shared session job succeeded, so a third request is given the right
  to execute as well, and the record of the second, which nobody has finished, says succeeded.\<close>

theorem late_attach_breaks_exclusion:
  "\<exists>st1 c1 jobs1 st2 st3 c2 jobs2 j st4 c3.
     claim_session_turn demo_turn_env ''t'' ''j2'' ''w1'' ''s1'' ''hi'' ''r1'' (demo_db ''w1'') = Inr (st1, c1) \<and> sc_should_execute c1
     \<and> finish_session_turn_snapshot ''t'' ''w1'' ''j1'' ''r1'' ''run1'' ''t1'' True [] [] (sn_jobs st1) = Inr jobs1
     \<and> finish_claimed_session_turn demo_turn_env ''t'' ''w1'' ''s1'' ''r1'' ''j1'' ''run1'' ''t1'' True [] (st1\<lparr>sn_jobs := jobs1\<rparr>) = Inr st2
     \<and> claim_session_turn demo_turn_env ''t'' ''j2'' ''w1'' ''s1'' ''hi'' ''r2'' st2 = Inr (st3, c2) \<and> sc_should_execute c2
     \<and> attach_run_to_session_job demo_turn_env ''t'' ''j2'' ''w1'' ''s1'' ''run1'' 0 ''hi'' True [] (sn_jobs st3) = Inr (jobs2, j)
     \<and> claim_session_turn demo_turn_env ''tt'' ''j2'' ''w1'' ''s1'' ''hello'' ''r3'' (st3\<lparr>sn_jobs := jobs2\<rparr>) = Inr (st4, c3)
     \<and> sc_should_execute c3
     \<and> gets (read_request_record (''w1'', ''s1'', ''hr2'') (sn_registry st4)) ''status'' = ''succeeded''"
proof -
  from second_turn_starts obtain jobs1 st2 where
    a: "finish_session_turn_snapshot ''t'' ''w1'' ''j1'' ''r1'' ''run1'' ''t1'' True [] [] (sn_jobs (demo_running ''w1'' ''r1'')) = Inr jobs1"
       "finish_claimed_session_turn demo_turn_env ''t'' ''w1'' ''s1'' ''r1'' ''j1'' ''run1'' ''t1'' True []
          ((demo_running ''w1'' ''r1'')\<lparr>sn_jobs := jobs1\<rparr>) = Inr st2"
       "claim_session_turn demo_turn_env ''t'' ''j2'' ''w1'' ''s1'' ''hi'' ''r2'' st2 = Inr (demo_overlap, SessionTurnClaim\<lparr>sc_job_id := ''j1''\<rparr>)"
    unfolding rbind_eq_Inr by blast
  from third_turn_starts obtain x where
    "rbind (attach_run_to_session_job demo_turn_env ''t'' ''j2'' ''w1'' ''s1'' ''run1'' 0 ''hi'' True [] (sn_jobs demo_overlap)) (\<lambda>(jobs, _).
      claim_session_turn demo_turn_env ''tt'' ''j2'' ''w1'' ''s1'' ''hello'' ''r3'' (demo_overlap\<lparr>sn_jobs := jobs\<rparr>)) = Inr x"
    "sc_should_execute (snd x)" "gets (read_request_record (''w1'', ''s1'', ''hr2'') (sn_registry (fst x))) ''status'' = ''succeeded''"
    by (elim map_sum_Inr) (simp add: case_prod_beta)
  then obtain jobs2 j where
    b: "attach_run_to_session_job demo_turn_env ''t'' ''j2'' ''w1'' ''s1'' ''run1'' 0 ''hi'' True [] (sn_jobs demo_overlap) = Inr (jobs2, j)"
       "claim_session_turn demo_turn_env ''tt'' ''j2'' ''w1'' ''s1'' ''hello'' ''r3'' (demo_overlap\<lparr>sn_jobs := jobs2\<rparr>) = Inr (fst x, snd x)"
    unfolding rbind_eq_Inr by (auto simp: case_prod_beta)
  have e: "sc_should_execute (SessionTurnClaim\<lparr>sc_job_id := ''j1''\<rparr>)" by code_simp
  show ?thesis
    by (intro exI conjI) (rule demo_claimed e a b \<open>sc_should_execute (snd x)\<close> \<open>gets _ _ = _\<close>)+
qed

text \<open>In a workspace whose id contains the word \<open>log\<close> the listing of jobs skips every record, because
  the test for log files looks at the whole path: no running turn is ever found, so any number of
  turns of one session can run at the same time, each with a job of its own.\<close>

theorem log_in_workspace_id_disables_exclusion:
  assumes "py_contains ''log'' ws_id"
  shows "find_session_job env ws_id session_id db = []
    \<and> running_session_turn env ws_id session_id db \<noteq> Inr (Some c)"
proof -
  have more: "py_contains ''log'' (s @ t)" if "py_contains ''log'' s" for s t
    using that
  proof (induction s)
    case (Cons c s)
    have "py_startswith ((c # s) @ t) ''log''" if "py_startswith (c # s) ''log''"
    proof -
      from that obtain rest where "c # s = ''log'' @ rest"
        by (metis append_take_drop_id py_startswith_def)
      then have "(c # s) @ t = ''log'' @ (rest @ t)" by (metis append.assoc)
      then show ?thesis unfolding py_startswith_def by (simp only:) simp
    qed
    with Cons show ?case by auto
  qed simp
  have "\<not> job_file_listed ws_id j" for j
    using more [OF assms] by (simp add: job_file_listed_def Let_def)
  then have none: "list_jobs exists ws_id [] [] 500 db = []" for exists
    by (simp add: list_jobs_def sorted_desc_def filter_empty_conv case_prod_beta)
  show ?thesis by (auto simp: find_session_job_def running_session_turn_def none)
qed

theorem log_in_workspace_id_disables_exclusion_witness:
  "st_get (jd_jobs (sn_jobs (demo_running ''blog'' ''r1''))) (''blog'', ''j1'') \<noteq> None
     \<and> find_session_job demo_turn_env ''blog'' ''s1'' (sn_jobs (demo_running ''blog'' ''r1'')) = []
     \<and> running_session_turn demo_turn_env ''blog'' ''s1'' (sn_jobs (demo_running ''blog'' ''r1'')) \<noteq> Inr (Some SessionTurnClaim)"
proof -
  have "py_contains ''log'' ''blog''" by code_simp
  from log_in_workspace_id_disables_exclusion [OF this] show ?thesis by (simp add: demo_running_def st_get_def)
qed

text \<open>A request id that the job sanitizer masks, here one in the form of a path, is stored in the job under
  another name: a repetition of the request, while its turn runs, reports that it has failed.\<close>

theorem masked_request_id_is_reported_failed:
  "map_sum id (\<lambda>(_, c). (sc_should_execute c, sc_status c, sc_error c))
     (rbind (claim_session_turn demo_turn_env ''t'' ''j2'' ''w1'' ''s1'' ''hi'' ''/req/1'' (demo_db ''w1'')) (\<lambda>(st, _).
      claim_session_turn demo_turn_env ''t'' ''j2'' ''w1'' ''s1'' ''hi'' ''/req/1'' st))
   = Inr (False, ''failed'', ''turn_execution_interrupted'')"
  by code_simp

end
