(* ===== verification/Spec2Isabelle.thy ===== *)
theory Spec2Isabelle
  imports Goal_Loop Batch_Compiler Approval Job_Histories Job_Runner Workflow_Run Task_Histories
    Retry_Interleaving Executor_Journal Query_Round Turn_Histories
begin

text \<open>
  \<^bold>\<open>LZCore agent platform: verification of the deterministic core.\<close>

  The platform runs an LLM agent. Around the model, deterministic code decides what may happen: which
  tool calls of a round form a valid plan, how calls are batched, which writes are recorded and with
  what outcome, when a turn may end, who may execute a device operation, how background jobs and
  workflows proceed, and what may be stored. This development models that code, not the model, the
  network or the user interface.

  \<^bold>\<open>Layers of the development.\<close>
  \<^item> Prelude. \<open>Py_Base\<close>: Python values, truthiness, dictionaries, string methods, and errors as the left
    side of a sum (\<open>'a res\<close>). \<open>Py_Json\<close>: JSON printing. \<open>Py_Regex\<close>: a matcher for the regular expressions
    of the redaction. \<open>Record_Store\<close>: record files as a key-value store with locked sections
    (\<open>storage/records.py\<close>, \<open>storage/locking.py\<close>), the locales \<open>record_store\<close> and \<open>status_machine\<close>.
    \<open>Layering\<close>: Kahn layering of a dependency graph, as an interface that both the orchestration and
    the workflows use. \<open>Runtime_Types\<close>: the shared records of the runtime.
  \<^item> \<open>Orchestration\<close> (\<open>core/runtime_engine/orchestration.py\<close>): plan fields of tool calls, validation of
    an incremental plan, resolution of bindings.
  \<^item> \<open>Batch_Compiler\<close> (\<open>batch_compiler.py\<close>): grouping of compatible read calls into one batched call.
  \<^item> \<open>Operation_Ledger\<close> (\<open>operation_ledger.py\<close>): durable record of every write, its settlement and its
    reconciliation with durable resources.
  \<^item> \<open>Tool_Contracts\<close> (\<open>contracts.py\<close>, \<open>core/tools/action_requirements.py\<close>): the contracts of the tools and which calls
    are read-only. \<open>Tool_Runtime\<close> (\<open>tool_runtime.py\<close>): the execution of one call and the verdict on what its handler
    returned. \<open>Tool_Retry\<close> (\<open>tool_retry_policy.py\<close>, \<open>budget_controller.py\<close>, the retry loop of \<open>query_loop.py\<close>) and
    \<open>Retry_Interleaving\<close>: repetition of failed calls, alone and in concurrent groups.
  \<^item> \<open>Action_Alias\<close> (\<open>action_alias.py\<close>): other names of actions. \<open>Schema_Validation\<close> (\<open>core/tools/executor.py\<close>): arguments
    against the published schema of a tool. \<open>Semantic_Validator\<close> (\<open>semantic_validator.py\<close>, \<open>action_requirements.py\<close>): the
    planning check of a batch.
  \<^item> \<open>Tool_Executor\<close> (\<open>StreamingToolExecutor\<close> in \<open>query_loop.py\<close>, \<open>execution_interceptors.py\<close>): one round of tool calls, from
    the plan over its layers, groups of reads and journalled writes to the results. \<open>Executor_Rounds\<close> and
    \<open>Executor_Journal\<close> prove what a round guarantees together with the orchestration and the ledger.
  \<^item> \<open>Call_Intake\<close>, \<open>Tool_Preparation\<close>, \<open>Query_Round\<close> (\<open>query_loop.py\<close>, \<open>pre_execution_repair.py\<close>): the calls of a model
    response from parsing to execution. They get unique ids, repeated calls are suppressed, aliases are resolved, the
    plan and the arguments are checked; then the round runs, failed reads are recovered by registered fallbacks, and
    the goal loop observes the results. \<open>Query_Round\<close> composes the batch compiler, the preparation, the executor,
    the recovery goals and the goal loop as the code does.
  \<^item> \<open>Turn_Outcome\<close> (\<open>turn_outcome.py\<close>, \<open>goal_assertions.py\<close>), \<open>Recovery_Goals\<close> (\<open>recovery_strategy.py\<close>,
    \<open>recovery_goals.py\<close>), \<open>Goal_Loop\<close> (\<open>goal_loop.py\<close>): the assertions a turn must satisfy, the goals that
    failures open, and the gate before the final answer.
  \<^item> \<open>Approval\<close> (\<open>extensions/approval\<close>): frozen device operations, their decision, claim, execution and
    the continuation of the suspended run.
  \<^item> \<open>Storage_Ids\<close>, \<open>Redaction\<close> (\<open>storage/ids.py\<close>, \<open>storage/redaction.py\<close>, \<open>jobs/redaction.py\<close>): path-safe
    identifiers and the removal of secrets from stored values.
  \<^item> \<open>Job_Store\<close>, \<open>Job_Manager\<close>, \<open>Job_Histories\<close>, \<open>Job_Runner\<close> (\<open>jobs/store.py\<close>, \<open>manager.py\<close>, \<open>runner.py\<close>,
    \<open>queue.py\<close>, \<open>worker.py\<close>): job records, the transition table, histories of all operations, and the
    execution of a claimed job.
  \<^item> \<open>Session_Turn\<close>, \<open>Turn_Histories\<close> (\<open>jobs/lifecycle.py\<close>): the registry of client requests, the session job with
    the snapshot of its running turn, and the histories of claims and finished turns. \<open>Quick_Evaluation\<close> holds
    proved code equations with which concrete histories of the job store evaluate quickly.
  \<^item> \<open>Workflow_Definition\<close>, \<open>Workflow_Run\<close> (\<open>workflows/service.py\<close>): validation of workflow graphs,
    templates, the layered execution and its cancellation.
  \<^item> \<open>Task_State\<close>, \<open>Task_Histories\<close> (\<open>agent/runtime/task_state.py\<close>): the durable task snapshot of a session,
    its contract and lifecycle, the transition log, and all histories of its operations with crashes
    between the log and the snapshot.

  \<^bold>\<open>How the code is represented.\<close> A Python dictionary is an association list in insertion order, a
  dataclass is a record, a raise is \<open>Inl\<close> with the exception, and a function that changes stored state
  takes the store and returns the new one. A section under \<open>FileLock\<close> is one atomic step; where the code
  reads outside a lock and writes later, the two halves are separate definitions (\<open>write_succeeded\<close>,
  \<open>cancel_snapshot\<close> and \<open>cancel_write\<close>), so that interleavings can be stated. The lock of an approval operation is named
  by the id as the request spells it, so \<open>Approval.section_step\<close> runs the halves of these sections apart. Histories are lists of
  operations, and invariants are proved over all of them. Time stamps, fresh identifiers, the hash
  function, the tool runtime, the agent and the other services are arguments; what a theorem needs of
  them is a hypothesis of that theorem. Texts are byte strings (UTF-8), so lengths and character classes
  are exact for ASCII. Floating point occurs only in the progress percentage, where the rounding to 53
  bits is written out (\<open>fl53\<close>).

  \<^bold>\<open>Termination and bounds.\<close> No definition uses fuel: the loops (\<open>kahn_layers\<close>, \<open>ancestors_loop\<close>,
  \<open>resolve_text\<close>, \<open>maybe_retry_node\<close>, \<open>fresh_id\<close>, \<open>validate_field\<close>, \<open>safe_read_recovery\<close>, the regular expressions) terminate by a measure, so a statement that a result exists
  is a statement about the code's result.

  \<^bold>\<open>What is shown.\<close>
  \<^item> Plans: an accepted plan is scheduled completely and in the order of its dependencies, its bindings
    are authorised, and they resolve; batching always answers, keeps the calls and their order, and a batch holds
    the indices or values of all its calls.
  \<^item> Writes: the outcome of a settled operation never changes, reconciliation settles exactly what has
    a terminal resource, and links are written once.
  \<^item> Calls: a call succeeds exactly when its handler says so, a failed call is repeated exactly under the policy, a
    write is executed once, and concurrent calls neither influence each other's results nor audit records.
  \<^item> Rounds: every call has one result, a step runs at most once, after its dependencies succeeded and with
    arguments from their evidence, and every write that runs is in the ledger and settled there.
  \<^item> Arguments: the gate decides the published schema, planning adds to it only the requirements of the action and the kinds of
    references, and preparation never invents an argument; only calls of the prepared batch can write, and recovery only reads.
  \<^item> Turns: a turn is complete only if its assertions hold and no write of unknown effect is open, a goal passes only by evidence, and the
    gate blocks exactly while a goal is open.
  \<^item> Approval: an operation is claimed at most once as long as its id is spelled in one way, the device receives exactly
    what was frozen and approved, and a continuation is resumed once.
  \<^item> Jobs: statuses follow the table in every history, a claim is exclusive, an expired lease fails
    closed, retries are bounded, and a claimed job is always settled.
  \<^item> Sessions: a client request is executed once as long as its record is kept, pruning forgets only requests that
    have ended and are old or crowded out, and while a turn runs no other turn of the session starts.
  \<^item> Workflows: accepted definitions are executable and survive storage, a run executes each node at
    most once and after its dependencies, and a cancellation stops it.
  \<^item> Tasks: a contract (task id and revision) is used at most once, every stored snapshot is covered by
    the log, a retry after a crash repairs the log, and a restart leaves no task active.
  \<^item> Storage: identifiers are plain path segments, and what a stored record reveals of secret and path fields is stated exactly.
  \<^item> Defects of the code are stated as theorems too: batching can break a valid plan, a reject request
    executes an approved operation, two spellings of one operation id claim it twice, a relative path field is stored
    with whatever secrets it holds, a cancelled job can end as succeeded, a late
    cancellation revives a finished run, a template can name a node that is not a dependency, a read-back of
    a write that was settled in the meantime aborts the round, renaming a call id leaves a plan with evidence of an
    earlier round, long call ids disable the recovery of reads, repeated aliases and nested items escape the checks
    made for them, a failed checkpoint does not stop a write, a late attachment ends the next turn of a session, a
    failed HTTP turn locks its session, and a workspace with \<open>log\<close> in its id lists no jobs.

  \<^bold>\<open>Interfaces.\<close> The locales (\<open>record_store\<close>, \<open>status_machine\<close>, \<open>versioned_store\<close>, the layering interface and those of the
  components) state what a client relies on, and each is interpreted on the definitions of the model in the
  theory that provides them.

  \<^bold>\<open>Not modelled.\<close> Around a round: the model call, the text of the conversation, recovery from provider
  failures, the final synthesis, the cognitive state, and the polling of long tasks, which work on texts or on
  services. \<open>ToolExecutor.execute\<close>, whose argument checks are modelled, is otherwise a chain of calls to registry and
  handlers. Sub-agents, the Redis queue, the session, file and memory stores repeat the patterns of the record files
  over formats of their own, and ranking uses floating point. The LLM
  providers, the web, browser, knowledge and network tools, the HTTP and WebSocket routes, the
  observability code and the frontend are I/O or presentation and stay parameters. Within the modelled
  parts, metrics, log output, the heartbeat thread, review records, latencies and progress events, which do not
  influence results, are left out.
\<close>

end
